(* ===== verification/Prelude.thy ===== *)
theory Prelude
  imports Main "HOL-Library.Word"
begin

text \<open>
  Shared material of the development: the collections of facts the components
  extend (\<open>kconf_wf\<close> for well-formedness facts, \<open>step_frame\<close> for what an operation leaves
  alone), the C library's character classes on bytes of the basic character set, and generic
  lemmas on lists and options. The character classes are those of the "C" locale.
\<close>

named_theorems kconf_wf \<open>operations keep the well-formedness of their component\<close>
named_theorems step_frame \<open>what an operation leaves unchanged\<close>

type_synonym u8 = "8 word"
type_synonym u16 = "16 word"
type_synonym u32 = "32 word"
type_synonym u64 = "64 word"

section \<open>C strings\<close>

text \<open>
  A C string is the list of its bytes before the terminating NUL; reading one byte past the
  end gives the NUL, which \<open>cstr_at\<close> makes explicit.
\<close>

definition NUL :: char where "NUL = CHR 0x00"

definition cstr_at :: "string \<Rightarrow> nat \<Rightarrow> char" where
  "cstr_at s i = (if i < length s then s ! i else NUL)"

definition isdigit :: "char \<Rightarrow> bool" where
  "isdigit c \<longleftrightarrow> CHR ''0'' = c \<or> c \<in> set ''123456789''"

definition isxdigit :: "char \<Rightarrow> bool" where
  "isxdigit c \<longleftrightarrow> isdigit c \<or> c \<in> set ''abcdefABCDEF''"

definition isspace :: "char \<Rightarrow> bool" where
  "isspace c \<longleftrightarrow> c \<in> {CHR '' '', CHR 0x09, CHR 0x0A, CHR 0x0B, CHR 0x0C, CHR 0x0D}"

definition digit_val :: "char \<Rightarrow> nat" where
  "digit_val c = of_char c - 48"

lemma cstr_at_0 [simp]: "cstr_at (c # s) 0 = c"
  by (simp add: cstr_at_def)

lemma cstr_at_Suc [simp]: "cstr_at (c # s) (Suc i) = cstr_at s i"
  by (simp add: cstr_at_def)

lemma cstr_at_Nil [simp]: "cstr_at [] i = NUL"
  by (simp add: cstr_at_def)

lemma not_isdigit_NUL [simp]: "\<not> isdigit NUL"
  by (simp add: isdigit_def NUL_def)

lemma not_isxdigit_NUL [simp]: "\<not> isxdigit NUL"
  by (simp add: isxdigit_def NUL_def isdigit_def)

section \<open>Numbers in strings\<close>

text \<open>
  \<open>strtol\<close> of the C library for the bases 10 and 16, on a host whose \<open>long\<close> has 64 bits: white
  space, a sign, an optional \<open>0x\<close>, digits, and saturation at the ends of the range.
\<close>

definition xdigit_val :: "char \<Rightarrow> nat" where
  "xdigit_val c =
     (if isdigit c then of_char c - 48
      else if 97 \<le> (of_char c :: nat) then of_char c - 87 else of_char c - 55)"

definition base_digit :: "nat \<Rightarrow> char \<Rightarrow> bool" where
  "base_digit base c \<longleftrightarrow> (if base = 16 then isxdigit c else isdigit c)"

definition digits_value :: "nat \<Rightarrow> string \<Rightarrow> nat" where
  "digits_value base s = foldl (\<lambda>a c. a * base + xdigit_val c) 0 s"

definition long_clamp :: "int \<Rightarrow> int" where
  "long_clamp v = max (- (2 ^ 63)) (min (2 ^ 63 - 1) v)"

definition strtol :: "nat \<Rightarrow> string \<Rightarrow> int" where
  "strtol base s =
     (let s = dropWhile isspace s;
          neg = (cstr_at s 0 = CHR ''-'');
          s = (if neg \<or> cstr_at s 0 = CHR ''+'' then tl s else s);
          s = (if base = 16 \<and> cstr_at s 0 = CHR ''0'' \<and> cstr_at s 1 \<in> {CHR ''x'', CHR ''X''} \<and>
                 isxdigit (cstr_at s 2) then drop 2 s else s);
          v = int (digits_value base (takeWhile (base_digit base) s))
      in long_clamp (if neg then - v else v))"

text \<open>The conversion of a \<open>long\<close> to an \<open>int\<close>.\<close>

definition to_int :: "int \<Rightarrow> int" where
  "to_int v = sint (word_of_int v :: 32 word)"

section \<open>Lists and options\<close>

lemma takeWhile_all_iff: "takeWhile P xs = xs \<longleftrightarrow> (\<forall>x \<in> set xs. P x)"
  by (simp add: takeWhile_eq_all_conv)

lemma bind_Some_iff: "Option.bind m f = Some y \<longleftrightarrow> (\<exists>x. m = Some x \<and> f x = Some y)"
  by (cases m) auto

lemma foldl_invariant:
  assumes "\<And>s x. x \<in> set xs \<Longrightarrow> P s \<Longrightarrow> P (f s x)" and "P s"
  shows "P (foldl f s xs)"
  using assms by (induction xs arbitrary: s) auto

end
