(* ===== verification/Kconfig_Data.thy ===== *)
theory Kconfig_Data
  imports Prelude
begin

text \<open>
  The data model of the configuration tool, \<open>package/config/expr.h\<close>: tristate values,
  dependency expressions, symbols, properties and menu entries.

  A \<open>struct symbol *\<close> is a \<open>symref\<close>: the four static symbols of \<open>symbol.c\<close> and the
  allocated ones, compared by identity as the code compares pointers. A \<open>struct expr *\<close> is
  an \<open>expr option\<close>, \<open>None\<close> being NULL; the children of NOT, AND and OR are never NULL, since
  every allocation in the code passes non-NULL children, so they are \<open>expr\<close>. The chain of
  E_CHOICE nodes ends in NULL. The \<open>flags\<close> word of a symbol is the set of its bits.
\<close>

section \<open>Tristate values\<close>

datatype tristate = No | Mod | Yes

fun tri_num :: "tristate \<Rightarrow> nat" where
  "tri_num No = 0"
| "tri_num Mod = 1"
| "tri_num Yes = 2"

lemma tri_num_inject [simp]: "tri_num a = tri_num b \<longleftrightarrow> a = b"
  by (cases a; cases b) auto

instantiation tristate :: linorder
begin

definition less_eq_tristate :: "tristate \<Rightarrow> tristate \<Rightarrow> bool" where
  "less_eq_tristate a b \<longleftrightarrow> tri_num a \<le> tri_num b"

definition less_tristate :: "tristate \<Rightarrow> tristate \<Rightarrow> bool" where
  "less_tristate a b \<longleftrightarrow> tri_num a < tri_num b"

instance
proof
  fix x y :: tristate
  show "x \<le> y \<Longrightarrow> y \<le> x \<Longrightarrow> x = y"
    by (metis le_antisym less_eq_tristate_def tri_num_inject)
qed (auto simp: less_eq_tristate_def less_tristate_def)

end

text \<open>The macros \<open>E_OR\<close>, \<open>E_AND\<close> and \<open>E_NOT\<close> on tristates.\<close>

definition tri_or :: "tristate \<Rightarrow> tristate \<Rightarrow> tristate" where
  "tri_or a b = (if a > b then a else b)"

definition tri_and :: "tristate \<Rightarrow> tristate \<Rightarrow> tristate" where
  "tri_and a b = (if a < b then a else b)"

fun tri_not :: "tristate \<Rightarrow> tristate" where
  "tri_not No = Yes"
| "tri_not Mod = Mod"
| "tri_not Yes = No"

lemma tri_not_num: "tri_num (tri_not a) = 2 - tri_num a"
  by (cases a) auto

lemma tri_le_simps [simp]:
  "No \<le> a" "a \<le> Yes" "\<not> a < No" "\<not> Yes < a"
  "(No < Mod) = True" "(No < Yes) = True" "(Mod < Yes) = True"
  "(Mod \<le> No) = False" "(Yes \<le> Mod) = False" "(Yes \<le> No) = False"
  "(a \<le> No) = (a = No)" "(Yes \<le> a) = (a = Yes)"
  by (cases a; simp add: less_eq_tristate_def less_tristate_def)+

lemma tri_or_simps [simp]:
  "tri_or No a = a" "tri_or a No = a" "tri_or Yes a = Yes" "tri_or a Yes = Yes"
  "tri_or a a = a"
  by (cases a; simp add: tri_or_def)+

lemma tri_and_simps [simp]:
  "tri_and No a = No" "tri_and a No = No" "tri_and Yes a = a" "tri_and a Yes = a"
  "tri_and a a = a"
  by (cases a; simp add: tri_and_def)+

lemma tri_or_max: "tri_or a b = max a b"
  by (auto simp: tri_or_def max_def)

lemma tri_and_min: "tri_and a b = min a b"
  by (auto simp: tri_and_def min_def)

lemma tri_or_assoc: "tri_or (tri_or a b) c = tri_or a (tri_or b c)"
  by (simp add: tri_or_max max.assoc)

lemma tri_or_commute: "tri_or a b = tri_or b a"
  by (simp add: tri_or_max max.commute)

lemma tri_and_assoc: "tri_and (tri_and a b) c = tri_and a (tri_and b c)"
  by (simp add: tri_and_min min.assoc)

lemma tri_and_commute: "tri_and a b = tri_and b a"
  by (simp add: tri_and_min min.commute)

lemma tri_de_morgan [simp]:
  "tri_not (tri_or a b) = tri_and (tri_not a) (tri_not b)"
  "tri_not (tri_and a b) = tri_or (tri_not a) (tri_not b)"
  by (cases a; cases b; simp add: tri_or_def tri_and_def)+

lemma tri_not_not [simp]: "tri_not (tri_not a) = a"
  by (cases a) auto

section \<open>Expressions\<close>

datatype symref = SymYes | SymMod | SymNo | SymEmpty | SymPtr nat

datatype expr_type =
  E_NONE | E_OR | E_AND | E_NOT | E_EQUAL | E_UNEQUAL | E_CHOICE | E_SYMBOL | E_RANGE

datatype expr =
    ENone
  | EOr expr expr
  | EAnd expr expr
  | ENot expr
  | EEqual symref symref
  | EUnequal symref symref
  | EChoice "expr option" symref
  | ESymbol symref
  | ERange symref symref

fun etype :: "expr \<Rightarrow> expr_type" where
  "etype ENone = E_NONE"
| "etype (EOr l r) = E_OR"
| "etype (EAnd l r) = E_AND"
| "etype (ENot l) = E_NOT"
| "etype (EEqual a b) = E_EQUAL"
| "etype (EUnequal a b) = E_UNEQUAL"
| "etype (EChoice l s) = E_CHOICE"
| "etype (ESymbol s) = E_SYMBOL"
| "etype (ERange a b) = E_RANGE"

text \<open>A dependency: what \<open>depends on\<close>, \<open>if\<close> and \<open>select\<close> build.\<close>

fun dep_wf :: "expr \<Rightarrow> bool" where
  "dep_wf (EOr l r) \<longleftrightarrow> dep_wf l \<and> dep_wf r"
| "dep_wf (EAnd l r) \<longleftrightarrow> dep_wf l \<and> dep_wf r"
| "dep_wf (ENot l) \<longleftrightarrow> dep_wf l"
| "dep_wf (EEqual a b) \<longleftrightarrow> True"
| "dep_wf (EUnequal a b) \<longleftrightarrow> True"
| "dep_wf (ESymbol s) \<longleftrightarrow> True"
| "dep_wf ENone \<longleftrightarrow> False"
| "dep_wf (EChoice l s) \<longleftrightarrow> False"
| "dep_wf (ERange a b) \<longleftrightarrow> False"

section \<open>Symbols, properties and menus\<close>

text \<open>
  A \<open>void *val\<close> is NULL, a string at some address (a literal of the program, the name of a
  symbol, or an allocation, numbered), or a symbol (the value of a choice).
\<close>

datatype addr = ALit | AName symref | AHeap nat

datatype cval = VNull | VStr addr string | VSym symref

record symbol_value =
  sv_val :: cval
  sv_tri :: tristate

record expr_value =
  ev_expr :: "expr option"
  ev_tri :: tristate

datatype symbol_type = S_UNKNOWN | S_BOOLEAN | S_TRISTATE | S_INT | S_HEX | S_STRING | S_OTHER

datatype symbol_flag =
    SYMBOL_YES | SYMBOL_MOD | SYMBOL_NO | SYMBOL_CHECK | SYMBOL_CHOICE | SYMBOL_CHOICEVAL
  | SYMBOL_PRINTED | SYMBOL_VALID | SYMBOL_OPTIONAL | SYMBOL_WRITE | SYMBOL_CHANGED
  | SYMBOL_NEW | SYMBOL_AUTO | SYMBOL_CHECKED | SYMBOL_CHECK_DONE | SYMBOL_WARNED

definition SYMBOL_CONST :: "symbol_flag set" where
  "SYMBOL_CONST = {SYMBOL_YES, SYMBOL_MOD, SYMBOL_NO}"

datatype prop_type =
    P_UNKNOWN | P_PROMPT | P_COMMENT | P_MENU | P_DEFAULT | P_CHOICE | P_SELECT | P_RANGE

record property =
  p_sym :: "symref option"
  p_type :: prop_type
  p_text :: "string option"
  p_visible :: expr_value
  p_expr :: "expr option"
  p_menu :: "nat option"

text \<open>
  \<open>s_prop\<close> is the symbol's list of properties, by their numbers in the property store; a menu
  entry's \<open>prompt\<close> points to one of the same properties. Menu 0 is \<open>rootmenu\<close>.
\<close>

record symbol =
  s_name :: "string option"
  s_help :: "string option"
  s_type :: symbol_type
  s_curr :: symbol_value
  s_user :: symbol_value
  s_visible :: tristate
  s_flags :: "symbol_flag set"
  s_prop :: "nat list"
  s_rev_dep :: expr_value

datatype menu_flag = MENU_CHANGED | MENU_ROOT

record menu =
  m_next :: "nat option"
  m_parent :: "nat option"
  m_list :: "nat option"
  m_sym :: "symref option"
  m_prompt :: "nat option"
  m_dep :: "expr option"
  m_flags :: "menu_flag set"

type_synonym symtab = "symref \<Rightarrow> symbol"

end
