(* ===== verification/Kconfig_Expr.thy ===== *)
theory Kconfig_Expr
  imports Kconfig_Data
begin

text \<open>
  The expression engine, \<open>package/config/expr.c\<close>. Expressions are values: a copy is the
  expression itself and freeing has no observable effect, so \<open>expr_free\<close> disappears. Where the
  code rewrites two parts of one tree through two pointers into it (the duplicate elimination),
  the pointers are paths into the tree, so that the aliasing is kept. The global counter
  \<open>trans_count\<close> is passed explicitly. Messages printed on the way are not modelled.
\<close>

section \<open>Allocation and copying\<close>

definition expr_alloc_symbol :: "symref \<Rightarrow> expr" where
  "expr_alloc_symbol s = ESymbol s"

fun expr_alloc_and :: "expr option \<Rightarrow> expr option \<Rightarrow> expr option" where
  "expr_alloc_and None e2 = e2"
| "expr_alloc_and (Some e1) None = Some e1"
| "expr_alloc_and (Some e1) (Some e2) = Some (EAnd e1 e2)"

fun expr_alloc_or :: "expr option \<Rightarrow> expr option \<Rightarrow> expr option" where
  "expr_alloc_or None e2 = e2"
| "expr_alloc_or (Some e1) None = Some e1"
| "expr_alloc_or (Some e1) (Some e2) = Some (EOr e1 e2)"

text \<open>
  \<open>None\<close> is the NULL that \<open>expr_copy\<close> returns for a type it cannot copy (or, for a choice
  node, where it would copy a symbol as an expression).
\<close>

fun expr_copy :: "expr \<Rightarrow> expr option" where
  "expr_copy (ESymbol s) = Some (ESymbol s)"
| "expr_copy (ENot l) = map_option ENot (expr_copy l)"
| "expr_copy (EEqual a b) = Some (EEqual a b)"
| "expr_copy (EUnequal a b) = Some (EUnequal a b)"
| "expr_copy (EAnd l r) =
     Option.bind (expr_copy l) (\<lambda>l'. map_option (EAnd l') (expr_copy r))"
| "expr_copy (EOr l r) =
     Option.bind (expr_copy l) (\<lambda>l'. map_option (EOr l') (expr_copy r))"
| "expr_copy e = None"

lemma expr_copy_id [simp]: "dep_wf e \<Longrightarrow> expr_copy e = Some e"
  by (induction e) auto

section \<open>Constants and children\<close>

fun expr_eliminate_yn :: "expr \<Rightarrow> expr" where
  "expr_eliminate_yn (EAnd l r) =
     (let l' = expr_eliminate_yn l; r' = expr_eliminate_yn r in
      if l' = ESymbol SymNo then ESymbol SymNo
      else if l' = ESymbol SymYes then r'
      else if r' = ESymbol SymNo then ESymbol SymNo
      else if r' = ESymbol SymYes then l'
      else EAnd l' r')"
| "expr_eliminate_yn (EOr l r) =
     (let l' = expr_eliminate_yn l; r' = expr_eliminate_yn r in
      if l' = ESymbol SymNo then r'
      else if l' = ESymbol SymYes then ESymbol SymYes
      else if r' = ESymbol SymNo then l'
      else if r' = ESymbol SymYes then ESymbol SymYes
      else EOr l' r')"
| "expr_eliminate_yn e = e"

text \<open>The two children of a node of the connective \<open>ty\<close>, and the node rebuilt.\<close>

fun kids :: "expr_type \<Rightarrow> expr \<Rightarrow> (expr \<times> expr) option" where
  "kids E_OR (EOr l r) = Some (l, r)"
| "kids E_AND (EAnd l r) = Some (l, r)"
| "kids ty e = None"

fun mk :: "expr_type \<Rightarrow> expr \<Rightarrow> expr \<Rightarrow> expr" where
  "mk E_AND l r = EAnd l r"
| "mk ty l r = EOr l r"

lemma kids_Some: "kids ty e = Some (l, r) \<longleftrightarrow>
    (ty = E_OR \<and> e = EOr l r) \<or> (ty = E_AND \<and> e = EAnd l r)"
  by (cases "(ty, e)" rule: kids.cases) auto

lemma kids_mk [simp]: "ty \<in> {E_OR, E_AND} \<Longrightarrow> kids ty (mk ty l r) = Some (l, r)"
  by auto

lemma size_mk [simp]: "size (mk ty l r) = size l + size r + 1"
  by (cases ty) auto

lemma kids_etype: "kids ty e \<noteq> None \<longleftrightarrow> etype e = ty \<and> ty \<in> {E_OR, E_AND}"
  by (cases "(ty, e)" rule: kids.cases) auto

text \<open>The neutral constant of a connective: what the code puts where it took a term away.\<close>

fun unit_sym :: "expr_type \<Rightarrow> symref" where
  "unit_sym E_AND = SymYes"
| "unit_sym ty = SymNo"

text \<open>The two tests of symbol leaves: the same constant, the same symbol.\<close>

fun same_const :: "symtab \<Rightarrow> expr \<Rightarrow> expr \<Rightarrow> bool" where
  "same_const T (ESymbol a) (ESymbol b) \<longleftrightarrow>
     a = b \<and> s_flags (T a) \<inter> {SYMBOL_YES, SYMBOL_NO} \<noteq> {}"
| "same_const T e1 e2 \<longleftrightarrow> False"

fun same_symbol :: "expr \<Rightarrow> expr \<Rightarrow> bool" where
  "same_symbol (ESymbol a) (ESymbol b) \<longleftrightarrow> a = b"
| "same_symbol e1 e2 \<longleftrightarrow> False"

section \<open>Equality of expressions up to their connectives\<close>

text \<open>
  \<open>elim_eq\<close> is \<open>__expr_eliminate_eq\<close>: it walks the leaves of both trees under one connective
  and replaces each pair of equal leaves by the connective's neutral constant, counting in
  \<open>trans_count\<close>. \<open>expr_eq\<close> calls it on copies and restores the counter.
\<close>

function elim_eq :: "symtab \<Rightarrow> expr_type \<Rightarrow> expr \<Rightarrow> expr \<Rightarrow> nat \<Rightarrow> expr \<times> expr \<times> nat"
  and expr_eliminate_eq0 :: "symtab \<Rightarrow> expr \<Rightarrow> expr \<Rightarrow> nat \<Rightarrow> expr \<times> expr \<times> nat"
  and expr_eq :: "symtab \<Rightarrow> expr \<Rightarrow> expr \<Rightarrow> bool" where
  "elim_eq T ty e1 e2 n =
     (case kids ty e1 of
        Some (l, r) \<Rightarrow>
          (let (l', e2', n') = elim_eq T ty l e2 n;
               (r', e2'', n'') = elim_eq T ty r e2' n'
           in (mk ty l' r', e2'', n''))
      | None \<Rightarrow>
       (case kids ty e2 of
          Some (l, r) \<Rightarrow>
            (let (e1', l', n') = elim_eq T ty e1 l n;
                 (e1'', r', n'') = elim_eq T ty e1' r n'
             in (e1'', mk ty l' r', n''))
        | None \<Rightarrow>
            (if same_const T e1 e2 then (e1, e2, n)
             else if \<not> expr_eq T e1 e2 then (e1, e2, n)
             else (ESymbol (unit_sym ty), ESymbol (unit_sym ty), Suc n))))"
| "expr_eliminate_eq0 T e1 e2 n =
     (let (e1, e2, n) =
        (if etype e1 \<in> {E_OR, E_AND} then elim_eq T (etype e1) e1 e2 n else (e1, e2, n));
          (e1, e2, n) =
        (if etype e1 \<noteq> etype e2 \<and> etype e2 \<in> {E_OR, E_AND}
         then elim_eq T (etype e2) e1 e2 n else (e1, e2, n))
      in (expr_eliminate_yn e1, expr_eliminate_yn e2, n))"
| "expr_eq T e1 e2 =
     (if etype e1 \<noteq> etype e2 then False
      else case e1 of
        EEqual a b \<Rightarrow> e2 = EEqual a b
      | EUnequal a b \<Rightarrow> e2 = EUnequal a b
      | ESymbol a \<Rightarrow> e2 = ESymbol a
      | ENot a \<Rightarrow> (case e2 of ENot b \<Rightarrow> expr_eq T a b | _ \<Rightarrow> False)
      | EAnd a b \<Rightarrow>
          (let (e1', e2', n) = expr_eliminate_eq0 T e1 e2 0 in same_symbol e1' e2')
      | EOr a b \<Rightarrow>
          (let (e1', e2', n) = expr_eliminate_eq0 T e1 e2 0 in same_symbol e1' e2')
      | _ \<Rightarrow> False)"
  by pat_completeness auto


lemma size_expr_eliminate_yn: "size (expr_eliminate_yn e) \<le> size e"
  by (induction e) (auto simp: Let_def)

lemma kids_self: "etype e = E_OR \<or> etype e = E_AND \<Longrightarrow> \<exists>l r. kids (etype e) e = Some (l, r)"
  by (cases e) auto

lemma elim_eq_size_dom:
  "elim_eq_expr_eliminate_eq0_expr_eq_dom (Inl (T, ty, e1, e2, n)) \<Longrightarrow>
     elim_eq T ty e1 e2 n = (a, b, m) \<Longrightarrow> size a \<le> size e1 \<and> size b \<le> size e2"
proof (induction T ty e1 e2 n arbitrary: a b m
    rule: elim_eq_expr_eliminate_eq0_expr_eq.pinduct(1)
      [where Q = "\<lambda>_ _ _ _. True" and R = "\<lambda>_ _ _. True"])
  case (1 T ty e1 e2 n)
  note IH = "1.IH"
  consider (l) l r where "kids ty e1 = Some (l, r)"
    | (r) l r where "kids ty e1 = None" "kids ty e2 = Some (l, r)"
    | (leaf) "kids ty e1 = None" "kids ty e2 = None"
    by (metis not_None_eq surj_pair)
  then show ?case
  proof cases
    case l
    obtain l' x n' where s1: "elim_eq T ty l e2 n = (l', x, n')" by (metis surj_pair)
    obtain r' y n'' where s2: "elim_eq T ty r x n' = (r', y, n'')" by (metis surj_pair)
    from l IH(3)[OF l refl s1] IH(4)[OF l refl s1[symmetric] refl refl s2] s1 s2 "1.prems"
    show ?thesis
      by (auto simp: elim_eq.psimps[OF "1"(1)] kids_Some)
  next
    case r
    obtain x l' n' where s1: "elim_eq T ty e1 l n = (x, l', n')" by (metis surj_pair)
    obtain y r' n'' where s2: "elim_eq T ty x r n' = (y, r', n'')" by (metis surj_pair)
    from r IH(1)[OF r refl s1] IH(2)[OF r refl s1[symmetric] refl refl s2] s1 s2 "1.prems"
    show ?thesis
      by (auto simp: elim_eq.psimps[OF "1"(1)] kids_Some)
  next
    case leaf
    with "1.prems" show ?thesis
      by (auto simp: elim_eq.psimps[OF "1"(1)] split: if_splits)
  qed
qed auto

lemma elim_eq_size_dom':
  assumes "elim_eq_expr_eliminate_eq0_expr_eq_dom (Inl (T, ty, e1, e2, n))"
    and "(a, b, m) = elim_eq T ty e1 e2 n"
  shows "size a \<le> size e1 \<and> size b \<le> size e2"
  using elim_eq_size_dom [OF assms(1) assms(2)[symmetric]] .

termination elim_eq
  apply (relation "measure (\<lambda>x. case x of
      Inl (T, ty, e1, e2, n) \<Rightarrow>
        4 * (size e1 + size e2) + (if kids ty e1 = None \<and> kids ty e2 = None then 3 else 0)
    | Inr (Inl (T, e1, e2, n)) \<Rightarrow> 4 * (size e1 + size e2) + 1
    | Inr (Inr (T, e1, e2)) \<Rightarrow> 4 * (size e1 + size e2) + 2)")
  subgoal by simp
  subgoal by (fastforce simp: kids_Some dest: elim_eq_size_dom')
  subgoal by (fastforce simp: kids_Some dest: elim_eq_size_dom')
  subgoal by (fastforce simp: kids_Some dest: elim_eq_size_dom')
  subgoal by (fastforce simp: kids_Some dest: elim_eq_size_dom')
  subgoal by (fastforce simp: kids_Some dest: elim_eq_size_dom')
  subgoal for T e1 e2 n using kids_self [of e1] by auto
  subgoal premises prems for T e1 e2 n x xa y xb ya
  proof -
    from prems(1-3) have eq: "(if etype e1 \<in> {E_OR, E_AND} then elim_eq T (etype e1) e1 e2 n
        else (e1, e2, n)) = (xa, xb, ya)" by argo
    have "size xa \<le> size e1 \<and> size xb \<le> size e2"
      using eq prems(5) elim_eq_size_dom by (auto split: if_splits)
    moreover obtain l r where "kids (etype xb) xb = Some (l, r)"
      using prems(4) kids_self by blast
    ultimately show ?thesis using eq prems(1) by auto
  qed
  by auto

declare elim_eq.simps [simp del] expr_eliminate_eq0.simps [simp del] expr_eq.simps [simp del]

text \<open>The entry \<open>expr_eliminate_eq\<close>, with its test for NULL.\<close>

fun expr_eliminate_eq ::
  "symtab \<Rightarrow> expr option \<Rightarrow> expr option \<Rightarrow> nat \<Rightarrow> expr option \<times> expr option \<times> nat" where
  "expr_eliminate_eq T (Some e1) (Some e2) n =
     (let (e1', e2', n') = expr_eliminate_eq0 T e1 e2 n in (Some e1', Some e2', n'))"
| "expr_eliminate_eq T ep1 ep2 n = (ep1, ep2, n)"

fun expr_is_yes :: "expr option \<Rightarrow> bool" where
  "expr_is_yes None \<longleftrightarrow> True"
| "expr_is_yes (Some e) \<longleftrightarrow> e = ESymbol SymYes"

fun expr_is_no :: "expr option \<Rightarrow> bool" where
  "expr_is_no None \<longleftrightarrow> False"
| "expr_is_no (Some e) \<longleftrightarrow> e = ESymbol SymNo"

section \<open>Comparisons with constants\<close>

fun expr_trans_bool :: "symtab \<Rightarrow> expr \<Rightarrow> expr" where
  "expr_trans_bool T (EAnd l r) = EAnd (expr_trans_bool T l) (expr_trans_bool T r)"
| "expr_trans_bool T (EOr l r) = EOr (expr_trans_bool T l) (expr_trans_bool T r)"
| "expr_trans_bool T (ENot l) = ENot (expr_trans_bool T l)"
| "expr_trans_bool T (EUnequal a b) =
     (if s_type (T a) = S_TRISTATE \<and> b = SymNo then ESymbol a else EUnequal a b)"
| "expr_trans_bool T e = e"

text \<open>
  The symbol a joined term is about (\<open>sym1\<close>, \<open>sym2\<close> of the joins): for \<open>e1\<close> a comparison or a
  symbol, possibly negated; for \<open>e2\<close> only a symbol may be negated. \<open>None\<close> is the early
  \<open>return NULL\<close>.
\<close>

fun left_sym :: "expr \<Rightarrow> symref option" where
  "left_sym (EEqual a b) = Some a"
| "left_sym (EUnequal a b) = Some a"
| "left_sym (ESymbol a) = Some a"
| "left_sym e = None"

fun join_sym1 :: "expr \<Rightarrow> symref option" where
  "join_sym1 (ENot e) = left_sym e"
| "join_sym1 e = left_sym e"

fun join_sym2 :: "expr \<Rightarrow> symref option" where
  "join_sym2 (ENot (ESymbol s)) = Some s"
| "join_sym2 (ENot e) = None"
| "join_sym2 e = left_sym e"

text \<open>Whether the two terms are, in either order, \<open>x\<close> and \<open>y\<close>.\<close>

definition either :: "expr \<Rightarrow> expr \<Rightarrow> expr \<Rightarrow> expr \<Rightarrow> bool" where
  "either e1 e2 x y \<longleftrightarrow> (e1 = x \<and> e2 = y) \<or> (e1 = y \<and> e2 = x)"

definition is_const :: "symtab \<Rightarrow> symref \<Rightarrow> bool" where
  "is_const T s \<longleftrightarrow> s_flags (T s) \<inter> SYMBOL_CONST \<noteq> {}"

definition expr_join_or :: "symtab \<Rightarrow> expr \<Rightarrow> expr \<Rightarrow> expr option" where
  "expr_join_or T e1 e2 =
     (if expr_eq T e1 e2 then expr_copy e1
      else case (join_sym1 e1, join_sym2 e2) of
        (Some sym1, Some sym2) \<Rightarrow>
          (if sym1 \<noteq> sym2 then None
           else if s_type (T sym1) \<noteq> S_BOOLEAN \<and> s_type (T sym1) \<noteq> S_TRISTATE then None
           else if s_type (T sym1) = S_TRISTATE \<and>
             either e1 e2 (EEqual sym1 SymYes) (EEqual sym1 SymMod) then Some (EUnequal sym1 SymNo)
           else if s_type (T sym1) = S_TRISTATE \<and>
             either e1 e2 (EEqual sym1 SymYes) (EEqual sym1 SymNo) then Some (EUnequal sym1 SymMod)
           else if s_type (T sym1) = S_TRISTATE \<and>
             either e1 e2 (EEqual sym1 SymMod) (EEqual sym1 SymNo) then Some (EUnequal sym1 SymYes)
           else if s_type (T sym1) = S_BOOLEAN \<and>
             either e1 e2 (ENot (ESymbol sym1)) (ESymbol sym1) then Some (ESymbol SymYes)
           else None)
      | _ \<Rightarrow> None)"

definition expr_join_and :: "symtab \<Rightarrow> expr \<Rightarrow> expr \<Rightarrow> expr option" where
  "expr_join_and T e1 e2 =
     (if expr_eq T e1 e2 then expr_copy e1
      else case (join_sym1 e1, join_sym2 e2) of
        (Some sym1, Some sym2) \<Rightarrow>
          (if sym1 \<noteq> sym2 then None
           else if s_type (T sym1) \<noteq> S_BOOLEAN \<and> s_type (T sym1) \<noteq> S_TRISTATE then None
           else if either e1 e2 (ESymbol sym1) (EEqual sym1 SymYes) then Some (EEqual sym1 SymYes)
           else if either e1 e2 (ESymbol sym1) (EUnequal sym1 SymNo) then Some (ESymbol sym1)
           else if either e1 e2 (ESymbol sym1) (EUnequal sym1 SymMod) then Some (EEqual sym1 SymYes)
           else if s_type (T sym1) \<noteq> S_TRISTATE then None
           else case (e1, e2) of
             (EEqual _ b, EUnequal _ c) \<Rightarrow>
               (if is_const T c \<and> is_const T b
                then Some (if b \<noteq> c then EEqual sym1 b else ESymbol SymNo) else None)
           | (EUnequal _ c, EEqual _ b) \<Rightarrow>
               (if is_const T c \<and> is_const T b
                then Some (if b \<noteq> c then EEqual sym1 b else ESymbol SymNo) else None)
           | (EUnequal _ _, EUnequal _ _) \<Rightarrow>
               (if either e1 e2 (EUnequal sym1 SymYes) (EUnequal sym1 SymNo)
                then Some (EEqual sym1 SymMod)
                else if either e1 e2 (EUnequal sym1 SymYes) (EUnequal sym1 SymMod)
                then Some (EEqual sym1 SymNo)
                else if either e1 e2 (EUnequal sym1 SymMod) (EUnequal sym1 SymNo)
                then Some (EEqual sym1 SymYes)
                else None)
           | _ \<Rightarrow> None)
      | _ \<Rightarrow> None)"

section \<open>Pushing negations inwards\<close>

fun tweight :: "expr \<Rightarrow> nat" where
  "tweight (EAnd l r) = tweight l + tweight r + 1"
| "tweight (EOr l r) = tweight l + tweight r + 1"
| "tweight (ENot l) = 2 * tweight l"
| "tweight (EEqual a b) = 3"
| "tweight (EUnequal a b) = 3"
| "tweight e = 1"

lemma tweight_pos [simp]: "0 < tweight e"
  by (induction e) auto

function expr_transform :: "symtab \<Rightarrow> expr \<Rightarrow> expr" where
  "expr_transform T (EAnd l r) = EAnd (expr_transform T l) (expr_transform T r)"
| "expr_transform T (EOr l r) = EOr (expr_transform T l) (expr_transform T r)"
| "expr_transform T (EEqual a b) =
     (if s_type (T a) \<noteq> S_BOOLEAN then EEqual a b
      else if b = SymNo then ENot (ESymbol a)
      else if b = SymMod then ESymbol SymNo
      else if b = SymYes then ESymbol a
      else EEqual a b)"
| "expr_transform T (EUnequal a b) =
     (if s_type (T a) \<noteq> S_BOOLEAN then EUnequal a b
      else if b = SymNo then ESymbol a
      else if b = SymMod then ESymbol SymYes
      else if b = SymYes then ENot (ESymbol a)
      else EUnequal a b)"
| "expr_transform T (ENot l) =
     (case expr_transform T l of
        ENot a \<Rightarrow> expr_transform T a
      | EEqual a b \<Rightarrow> EUnequal a b
      | EUnequal a b \<Rightarrow> EEqual a b
      | EOr a b \<Rightarrow> expr_transform T (EAnd (ENot a) (ENot b))
      | EAnd a b \<Rightarrow> expr_transform T (EOr (ENot a) (ENot b))
      | ESymbol s \<Rightarrow>
          (if s = SymYes then ESymbol SymNo
           else if s = SymMod then ESymbol SymMod
           else if s = SymNo then ESymbol SymYes
           else ENot (ESymbol s))
      | l' \<Rightarrow> ENot l')"
| "expr_transform T (ESymbol s) = ESymbol s"
| "expr_transform T (EChoice l s) = EChoice l s"
| "expr_transform T (ERange a b) = ERange a b"
| "expr_transform T ENone = ENone"
  by pat_completeness auto

lemma expr_transform_weight:
  "expr_transform_dom (T, e) \<Longrightarrow> tweight (expr_transform T e) \<le> tweight e"
proof (induction T e rule: expr_transform.pinduct)
  case (5 T l)
  then show ?case
    by (auto simp: expr_transform.psimps split: expr.splits)
qed (auto simp: expr_transform.psimps)

termination expr_transform
proof (relation "measure (\<lambda>(T, e). tweight e)")
  fix T l a assume "expr_transform T l = ENot a" "expr_transform_dom (T, l)"
  then show "((T, a), T, ENot l) \<in> measure (\<lambda>(T, e). tweight e)"
    using expr_transform_weight [of T l] tweight_pos [of a] by (simp del: tweight_pos)
qed (use expr_transform_weight in \<open>fastforce+\<close>)


section \<open>Extracting common terms\<close>

text \<open>
  \<open>expr_extract_eq\<close> moves every term the two trees share into the accumulator \<open>ep\<close> (NULL at
  first) and leaves neutral constants behind.
\<close>

function expr_extract_eq :: "symtab \<Rightarrow> expr_type \<Rightarrow> expr option \<Rightarrow> expr \<Rightarrow> expr \<Rightarrow>
    expr option \<times> expr \<times> expr" where
  "expr_extract_eq T ty ep e1 e2 =
     (case kids ty e1 of
        Some (l, r) \<Rightarrow>
          (let (ep', l', e2') = expr_extract_eq T ty ep l e2;
               (ep'', r', e2'') = expr_extract_eq T ty ep' r e2'
           in (ep'', mk ty l' r', e2''))
      | None \<Rightarrow>
       (case kids ty e2 of
          Some (l, r) \<Rightarrow>
            (let (ep', e1', l') = expr_extract_eq T ty ep e1 l;
                 (ep'', e1'', r') = expr_extract_eq T ty ep' e1' r
             in (ep'', e1'', mk ty l' r'))
        | None \<Rightarrow>
            (if expr_eq T e1 e2
             then (Some (case ep of Some x \<Rightarrow> mk ty x e1 | None \<Rightarrow> e1),
                   ESymbol (unit_sym ty), ESymbol (unit_sym ty))
             else (ep, e1, e2))))"
  by pat_completeness auto

lemma expr_extract_eq_size:
  "expr_extract_eq_dom (T, ty, ep, e1, e2) \<Longrightarrow> (ep', a, b) = expr_extract_eq T ty ep e1 e2 \<Longrightarrow>
     size a \<le> size e1 \<and> size b \<le> size e2"
proof (induction T ty ep e1 e2 arbitrary: ep' a b rule: expr_extract_eq.pinduct)
  case (1 T ty ep e1 e2)
  then show ?case
    by (fastforce simp: expr_extract_eq.psimps kids_Some
        split: option.splits if_splits prod.splits)
qed

termination expr_extract_eq
  by (relation "measure (\<lambda>(T, ty, ep, e1, e2). size e1 + size e2)")
    (fastforce simp: kids_Some dest: expr_extract_eq_size)+

declare expr_extract_eq.simps [simp del]

definition expr_extract_eq_and ::
  "symtab \<Rightarrow> expr \<Rightarrow> expr \<Rightarrow> expr option \<times> expr \<times> expr" where
  "expr_extract_eq_and T e1 e2 =
     (let (tmp, e1, e2) = expr_extract_eq T E_AND None e1 e2
      in if tmp \<noteq> None then (tmp, expr_eliminate_yn e1, expr_eliminate_yn e2)
         else (tmp, e1, e2))"

definition expr_extract_eq_or ::
  "symtab \<Rightarrow> expr \<Rightarrow> expr \<Rightarrow> expr option \<times> expr \<times> expr" where
  "expr_extract_eq_or T e1 e2 =
     (let (tmp, e1, e2) = expr_extract_eq T E_OR None e1 e2
      in if tmp \<noteq> None then (tmp, expr_eliminate_yn e1, expr_eliminate_yn e2)
         else (tmp, e1, e2))"

section \<open>Eliminating duplicate terms\<close>

datatype dir = L | R

type_synonym path = "dir list"

text \<open>Reading and overwriting the node a pointer into the tree designates.\<close>

fun at :: "expr \<Rightarrow> path \<Rightarrow> expr" where
  "at e [] = e"
| "at (EAnd l r) (d # p) = (case d of L \<Rightarrow> at l p | R \<Rightarrow> at r p)"
| "at (EOr l r) (d # p) = (case d of L \<Rightarrow> at l p | R \<Rightarrow> at r p)"
| "at e (d # p) = ENone"

fun put :: "expr \<Rightarrow> path \<Rightarrow> expr \<Rightarrow> expr" where
  "put e [] x = x"
| "put (EAnd l r) (d # p) x = (case d of L \<Rightarrow> EAnd (put l p x) r | R \<Rightarrow> EAnd l (put r p x))"
| "put (EOr l r) (d # p) x = (case d of L \<Rightarrow> EOr (put l p x) r | R \<Rightarrow> EOr l (put r p x))"
| "put e (d # p) x = e"

text \<open>
  Both passes walk all ordered pairs of terms of the tree they start on, with two pointers into
  that same tree: \<open>p1\<close> and \<open>p2\<close> are the paths of \<open>ep1\<close> and \<open>ep2\<close> from that node. The inner
  pass on the terms of the other connective starts over from the node \<open>ep1\<close>. The first
  argument bounds the depth of the recursion; \<open>dups_fuel\<close> is enough (shown below).
\<close>

fun expr_eliminate_dups1 ::
  "nat \<Rightarrow> symtab \<Rightarrow> expr_type \<Rightarrow> path \<Rightarrow> path \<Rightarrow> expr \<times> nat \<Rightarrow> (expr \<times> nat) option" where
  "expr_eliminate_dups1 0 T ty p1 p2 st = None"
| "expr_eliminate_dups1 (Suc k) T ty p1 p2 (e, n) =
     (if kids ty (at e p1) \<noteq> None then
        Option.bind (expr_eliminate_dups1 k T ty (p1 @ [L]) p2 (e, n))
          (expr_eliminate_dups1 k T ty (p1 @ [R]) p2)
      else if kids ty (at e p2) \<noteq> None then
        Option.bind (expr_eliminate_dups1 k T ty p1 (p2 @ [L]) (e, n))
          (expr_eliminate_dups1 k T ty p1 (p2 @ [R]))
      else if p1 = p2 then Some (e, n)
      else
        Option.bind
          (if etype (at e p1) \<in> {E_OR, E_AND} then
             map_option (\<lambda>(x, n). (put e p1 x, n))
               (expr_eliminate_dups1 k T (etype (at e p1)) [] [] (at e p1, n))
           else Some (e, n))
          (\<lambda>(e, n).
             case (if ty = E_OR then expr_join_or T (at e p1) (at e p2)
                   else expr_join_and T (at e p1) (at e p2)) of
               None \<Rightarrow> Some (e, n)
             | Some tmp \<Rightarrow> Some (put (put e p1 (ESymbol (unit_sym ty))) p2 tmp, Suc n)))"

text \<open>
  In the second pass the branch for \<open>e2\<close> has no \<open>return\<close>: after the terms of \<open>e2\<close> the term
  \<open>e1\<close> is also compared with the whole of \<open>e2\<close>, which may contain it.
\<close>

fun expr_eliminate_dups2 ::
  "nat \<Rightarrow> symtab \<Rightarrow> expr_type \<Rightarrow> path \<Rightarrow> path \<Rightarrow> expr \<times> nat \<Rightarrow> (expr \<times> nat) option" where
  "expr_eliminate_dups2 0 T ty p1 p2 st = None"
| "expr_eliminate_dups2 (Suc k) T ty p1 p2 (e, n) =
     (if kids ty (at e p1) \<noteq> None then
        Option.bind (expr_eliminate_dups2 k T ty (p1 @ [L]) p2 (e, n))
          (expr_eliminate_dups2 k T ty (p1 @ [R]) p2)
      else
        Option.bind
          (if kids ty (at e p2) \<noteq> None then
             Option.bind (expr_eliminate_dups2 k T ty p1 (p2 @ [L]) (e, n))
               (expr_eliminate_dups2 k T ty p1 (p2 @ [R]))
           else Some (e, n))
          (\<lambda>(e, n).
             if p1 = p2 then Some (e, n)
             else case etype (at e p1) of
               E_OR \<Rightarrow>
                 map_option (\<lambda>(x, n).
                   let e = put e p1 x;
                       tmp1 = expr_transform T (ENot (at e p1));
                       (tmp, tmp1, tmp2) = expr_extract_eq_and T tmp1 (at e p2)
                   in if expr_is_yes (Some tmp1) then (put e p1 (ESymbol SymNo), Suc n)
                      else (e, n))
                 (expr_eliminate_dups2 k T E_OR [] [] (at e p1, n))
             | E_AND \<Rightarrow>
                 map_option (\<lambda>(x, n).
                   let e = put e p1 x;
                       tmp1 = expr_transform T (ENot (at e p1));
                       (tmp, tmp1, tmp2) = expr_extract_eq_or T tmp1 (at e p2)
                   in if expr_is_no (Some tmp1) then (put e p1 (ESymbol SymYes), Suc n)
                      else (e, n))
                 (expr_eliminate_dups2 k T E_AND [] [] (at e p1, n))
             | _ \<Rightarrow> Some (e, n)))"

definition dups_fuel :: "expr \<Rightarrow> nat" where
  "dups_fuel e = (size e + 2) * (size e + 2)"

definition dups_pass :: "symtab \<Rightarrow> expr \<Rightarrow> (expr \<times> nat) option" where
  "dups_pass T e =
     (if etype e \<in> {E_OR, E_AND} then
        Option.bind (expr_eliminate_dups1 (dups_fuel e) T (etype e) [] [] (e, 0))
          (\<lambda>(e, n). expr_eliminate_dups2 (dups_fuel e) T (etype e) [] [] (e, n))
      else Some (e, 0))"

text \<open>The \<open>while (1)\<close> loop; at most one round per node of the tree, and one more.\<close>

fun dups_loop :: "nat \<Rightarrow> symtab \<Rightarrow> expr \<Rightarrow> expr option" where
  "dups_loop 0 T e = None"
| "dups_loop (Suc k) T e =
     Option.bind (dups_pass T e)
       (\<lambda>(e, n). if n = 0 then Some e else dups_loop k T (expr_eliminate_yn e))"

definition expr_eliminate_dups :: "symtab \<Rightarrow> expr \<Rightarrow> expr option" where
  "expr_eliminate_dups T e = dups_loop (Suc (size e)) T e"

section \<open>Symbols in a dependency\<close>

fun expr_contains_symbol :: "expr option \<Rightarrow> symref \<Rightarrow> bool" where
  "expr_contains_symbol None s \<longleftrightarrow> False"
| "expr_contains_symbol (Some (EAnd l r)) s \<longleftrightarrow>
     expr_contains_symbol (Some l) s \<or> expr_contains_symbol (Some r) s"
| "expr_contains_symbol (Some (EOr l r)) s \<longleftrightarrow>
     expr_contains_symbol (Some l) s \<or> expr_contains_symbol (Some r) s"
| "expr_contains_symbol (Some (ESymbol a)) s \<longleftrightarrow> a = s"
| "expr_contains_symbol (Some (EEqual a b)) s \<longleftrightarrow> a = s \<or> b = s"
| "expr_contains_symbol (Some (EUnequal a b)) s \<longleftrightarrow> a = s \<or> b = s"
| "expr_contains_symbol (Some (ENot l)) s \<longleftrightarrow> expr_contains_symbol (Some l) s"
| "expr_contains_symbol (Some e) s \<longleftrightarrow> False"

fun expr_depends_symbol :: "expr option \<Rightarrow> symref \<Rightarrow> bool" where
  "expr_depends_symbol None s \<longleftrightarrow> False"
| "expr_depends_symbol (Some (EAnd l r)) s \<longleftrightarrow>
     expr_depends_symbol (Some l) s \<or> expr_depends_symbol (Some r) s"
| "expr_depends_symbol (Some (ESymbol a)) s \<longleftrightarrow> a = s"
| "expr_depends_symbol (Some (EEqual a b)) s \<longleftrightarrow> a = s \<and> (b = SymYes \<or> b = SymMod)"
| "expr_depends_symbol (Some (EUnequal a b)) s \<longleftrightarrow> a = s \<and> b = SymNo"
| "expr_depends_symbol (Some e) s \<longleftrightarrow> False"

section \<open>Comparing an expression with a constant\<close>

text \<open>
  \<open>expr_trans_compare e ty c\<close> builds the expression that says \<open>e = c\<close> (\<open>e != c\<close> for
  \<open>E_UNEQUAL\<close>). For a conjunction compared with \<open>m\<close> the code leaves \<open>e\<close> as it is.
\<close>

fun expr_trans_compare :: "expr option \<Rightarrow> expr_type \<Rightarrow> symref \<Rightarrow> expr option" where
  "expr_trans_compare None ty c =
     Some (if ty = E_UNEQUAL then ENot (ESymbol c) else ESymbol c)"
| "expr_trans_compare (Some (EAnd l r)) ty c =
     (let e1 = expr_trans_compare (Some l) E_EQUAL c;
          e2 = expr_trans_compare (Some r) E_EQUAL c;
          e = (if c = SymYes then Option.bind e1 (\<lambda>x. map_option (EAnd x) e2)
               else if c = SymNo then Option.bind e1 (\<lambda>x. map_option (EOr x) e2)
               else Some (EAnd l r))
      in if ty = E_UNEQUAL then map_option ENot e else e)"
| "expr_trans_compare (Some (EOr l r)) ty c =
     (let e1 = expr_trans_compare (Some l) E_EQUAL c;
          e2 = expr_trans_compare (Some r) E_EQUAL c;
          e = (if c = SymYes then Option.bind e1 (\<lambda>x. map_option (EOr x) e2)
               else if c = SymNo then Option.bind e1 (\<lambda>x. map_option (EAnd x) e2)
               else Some (EOr l r))
      in if ty = E_UNEQUAL then map_option ENot e else e)"
| "expr_trans_compare (Some (ENot l)) ty c =
     expr_trans_compare (Some l) (if ty = E_EQUAL then E_UNEQUAL else E_EQUAL) c"
| "expr_trans_compare (Some (ESymbol s)) ty c =
     Some (if ty = E_EQUAL then EEqual s c else EUnequal s c)"
| "expr_trans_compare (Some (EChoice l s)) ty c = None"
| "expr_trans_compare (Some (ERange a b)) ty c = None"
| "expr_trans_compare (Some ENone) ty c = None"
| "expr_trans_compare (Some e) ty c =
     (if ty = E_EQUAL then
        (if c = SymYes then expr_copy e
         else if c = SymMod then Some (ESymbol SymNo)
         else if c = SymNo then map_option ENot (expr_copy e)
         else None)
      else
        (if c = SymYes then map_option ENot (expr_copy e)
         else if c = SymMod then Some (ESymbol SymYes)
         else if c = SymNo then expr_copy e
         else None))"

section \<open>Printing\<close>

text \<open>The \<open>switch\<close> of \<open>expr_compare_type\<close>, whose cases fall through to the next.\<close>

fun expr_compare_type :: "expr_type \<Rightarrow> expr_type \<Rightarrow> int" where
  "expr_compare_type t1 t2 =
     (if t1 = t2 then 0
      else if t1 \<in> {E_EQUAL, E_UNEQUAL} \<and> t2 = E_NOT then 1
      else if t1 \<in> {E_EQUAL, E_UNEQUAL, E_NOT} \<and> t2 = E_AND then 1
      else if t1 \<in> {E_EQUAL, E_UNEQUAL, E_NOT, E_AND} \<and> t2 = E_OR then 1
      else if t1 \<in> {E_EQUAL, E_UNEQUAL, E_NOT, E_AND, E_OR} \<and> t2 = E_CHOICE then 1
      else if t1 \<in> {E_EQUAL, E_UNEQUAL, E_NOT, E_AND, E_OR, E_CHOICE} \<and> t2 = E_NONE then 1
      else -1)"

text \<open>
  The calls of the output function \<open>fn\<close>, in order. A comparison with an unnamed symbol, whose
  name the code would pass on as NULL, prints as a choice; the parser never builds one.
\<close>

definition sym_text :: "symtab \<Rightarrow> symref \<Rightarrow> string" where
  "sym_text T s = (case s_name (T s) of Some nm \<Rightarrow> nm | None \<Rightarrow> ''<choice>'')"

fun expr_print :: "symtab \<Rightarrow> expr option \<Rightarrow> expr_type \<Rightarrow> string list" where
  "expr_print T None prev = [''y'']"
| "expr_print T (Some e) prev =
     (let body =
        (case e of
           ESymbol s \<Rightarrow> [sym_text T s]
         | ENot l \<Rightarrow> ''!'' # expr_print T (Some l) E_NOT
         | EEqual a b \<Rightarrow> [sym_text T a, ''='', sym_text T b]
         | EUnequal a b \<Rightarrow> [sym_text T a, ''!='', sym_text T b]
         | EOr l r \<Rightarrow> expr_print T (Some l) E_OR @ '' || '' # expr_print T (Some r) E_OR
         | EAnd l r \<Rightarrow> expr_print T (Some l) E_AND @ '' && '' # expr_print T (Some r) E_AND
         | EChoice l s \<Rightarrow>
             sym_text T s #
             (case l of None \<Rightarrow> [] | Some e' \<Rightarrow> '' ^ '' # expr_print T (Some e') E_CHOICE)
         | ERange a b \<Rightarrow> [''['', sym_text T a, '' '', sym_text T b, '']'']
         | ENone \<Rightarrow> [''<unknown type 0>''])
      in if expr_compare_type prev (etype e) > 0 then ''('' # body @ ['')''] else body)"


end
