(* ===== verification/Kconfig_Expr_Val.thy ===== *)
theory Kconfig_Expr_Val
  imports Kconfig_Expr
begin

text \<open>
  What the expression engine means: the value of a dependency under a table of evaluated
  symbols, and the proof that the rewriting of \<open>expr.c\<close> keeps that value. \<open>expr_val\<close> is the
  specification; the evaluator of the code, which evaluates symbols on the way, is shown to
  agree with it in \<open>Kconfig_Eval\<close>.
\<close>

section \<open>The value of an expression\<close>

fun cstr_of :: "cval \<Rightarrow> string option" where
  "cstr_of (VStr a s) = Some s"
| "cstr_of v = None"

fun tri_string :: "tristate \<Rightarrow> string" where
  "tri_string No = ''n''"
| "tri_string Mod = ''m''"
| "tri_string Yes = ''y''"

text \<open>\<open>None\<close> is a NULL (or symbol) pointer returned as a string.\<close>

definition sym_get_string_value :: "symtab \<Rightarrow> symref \<Rightarrow> string option" where
  "sym_get_string_value T s =
     (case s_type (T s) of
        S_BOOLEAN \<Rightarrow> Some (tri_string (sv_tri (s_curr (T s))))
      | S_TRISTATE \<Rightarrow> Some (tri_string (sv_tri (s_curr (T s))))
      | _ \<Rightarrow> cstr_of (sv_val (s_curr (T s))))"

definition sym_tri :: "symtab \<Rightarrow> symref \<Rightarrow> tristate" where
  "sym_tri T s = sv_tri (s_curr (T s))"

fun expr_val :: "symtab \<Rightarrow> expr \<Rightarrow> tristate" where
  "expr_val T (ESymbol s) = sym_tri T s"
| "expr_val T (EAnd l r) = tri_and (expr_val T l) (expr_val T r)"
| "expr_val T (EOr l r) = tri_or (expr_val T l) (expr_val T r)"
| "expr_val T (ENot l) = tri_not (expr_val T l)"
| "expr_val T (EEqual a b) =
     (if sym_get_string_value T a = sym_get_string_value T b then Yes else No)"
| "expr_val T (EUnequal a b) =
     (if sym_get_string_value T a = sym_get_string_value T b then No else Yes)"
| "expr_val T e = No"

fun oexpr_val :: "symtab \<Rightarrow> expr option \<Rightarrow> tristate" where
  "oexpr_val T None = Yes"
| "oexpr_val T (Some e) = expr_val T e"

text \<open>
  A table as the tool keeps it: the three constants hold their values, a boolean symbol is
  never \<open>m\<close>, and two different constant symbols have different strings.
\<close>

definition tab_ok :: "symtab \<Rightarrow> bool" where
  "tab_ok T \<longleftrightarrow>
     s_type (T SymYes) = S_UNKNOWN \<and> s_curr (T SymYes) = \<lparr>sv_val = VStr ALit ''y'', sv_tri = Yes\<rparr> \<and>
     s_type (T SymMod) = S_UNKNOWN \<and> s_curr (T SymMod) = \<lparr>sv_val = VStr ALit ''m'', sv_tri = Mod\<rparr> \<and>
     s_type (T SymNo) = S_UNKNOWN \<and> s_curr (T SymNo) = \<lparr>sv_val = VStr ALit ''n'', sv_tri = No\<rparr> \<and>
     (\<forall>s. s_type (T s) = S_BOOLEAN \<longrightarrow> sym_tri T s \<noteq> Mod) \<and>
     (\<forall>a b. is_const T a \<and> is_const T b \<and>
        sym_get_string_value T a = sym_get_string_value T b \<longrightarrow> a = b)"

lemma tab_okD:
  assumes "tab_ok T"
  shows "sym_tri T SymYes = Yes" "sym_tri T SymMod = Mod" "sym_tri T SymNo = No"
    "sym_get_string_value T SymYes = Some ''y''" "sym_get_string_value T SymMod = Some ''m''"
    "sym_get_string_value T SymNo = Some ''n''"
    "s_type (T SymYes) = S_UNKNOWN" "s_type (T SymMod) = S_UNKNOWN" "s_type (T SymNo) = S_UNKNOWN"
    "s_type (T s) = S_BOOLEAN \<Longrightarrow> sym_tri T s \<noteq> Mod"
    "is_const T a \<Longrightarrow> is_const T b \<Longrightarrow>
       sym_get_string_value T a = sym_get_string_value T b \<Longrightarrow> a = b"
  using assms by (auto simp: tab_ok_def sym_tri_def sym_get_string_value_def)

lemma sym_string_tri:
  "s_type (T s) = S_BOOLEAN \<or> s_type (T s) = S_TRISTATE \<Longrightarrow>
     sym_get_string_value T s = Some (tri_string (sym_tri T s))"
  by (auto simp: sym_get_string_value_def sym_tri_def)

lemma tri_string_inject [simp]: "tri_string a = tri_string b \<longleftrightarrow> a = b"
  by (cases a; cases b) auto

lemma tri_string_const [simp]:
  "tri_string a = ''y'' \<longleftrightarrow> a = Yes" "tri_string a = ''m'' \<longleftrightarrow> a = Mod" "tri_string a = ''n'' \<longleftrightarrow> a = No"
  by (cases a; simp)+

section \<open>Connectives as one operation\<close>

definition tri_op :: "expr_type \<Rightarrow> tristate \<Rightarrow> tristate \<Rightarrow> tristate" where
  "tri_op ty = (if ty = E_AND then tri_and else tri_or)"

lemma tri_op_assoc: "tri_op ty (tri_op ty a b) c = tri_op ty a (tri_op ty b c)"
  by (simp add: tri_op_def tri_and_assoc tri_or_assoc)

lemma tri_op_commute: "tri_op ty a b = tri_op ty b a"
  by (simp add: tri_op_def tri_and_commute tri_or_commute)

lemma tri_op_left_commute: "tri_op ty a (tri_op ty b c) = tri_op ty b (tri_op ty a c)"
  by (metis tri_op_assoc tri_op_commute)

lemmas tri_op_ac = tri_op_assoc tri_op_commute tri_op_left_commute

lemma tri_op_idem [simp]: "tri_op ty a a = a"
  by (simp add: tri_op_def)

lemma expr_val_mk [simp]:
  "ty \<in> {E_OR, E_AND} \<Longrightarrow> expr_val T (mk ty l r) = tri_op ty (expr_val T l) (expr_val T r)"
  by (auto simp: tri_op_def)

lemma kids_val:
  "kids ty e = Some (l, r) \<Longrightarrow> expr_val T e = tri_op ty (expr_val T l) (expr_val T r)"
  by (auto simp: kids_Some tri_op_def)

lemma kids_ty: "kids ty e = Some (l, r) \<Longrightarrow> ty \<in> {E_OR, E_AND}"
  by (auto simp: kids_Some)

lemma tri_op_unit:
  "tab_ok T \<Longrightarrow> ty \<in> {E_OR, E_AND} \<Longrightarrow> tri_op ty a (sym_tri T (unit_sym ty)) = a"
  by (auto simp: tri_op_def tab_okD)

lemma tri_op_unit':
  "tab_ok T \<Longrightarrow> ty \<in> {E_OR, E_AND} \<Longrightarrow> tri_op ty (sym_tri T (unit_sym ty)) a = a"
  by (metis tri_op_commute tri_op_unit)

section \<open>Eliminating constants\<close>

lemma expr_eliminate_yn_val:
  assumes "tab_ok T"
  shows "expr_val T (expr_eliminate_yn e) = expr_val T e"
proof (induction e)
  case (EOr l r)
  with assms show ?case
    by (auto simp: Let_def tab_okD simp flip: EOr.IH)
next
  case (EAnd l r)
  with assms show ?case
    by (auto simp: Let_def tab_okD simp flip: EAnd.IH)
qed auto

text \<open>No constant is left under a connective.\<close>

fun yn_free :: "expr \<Rightarrow> bool" where
  "yn_free (EAnd l r) \<longleftrightarrow> yn_free l \<and> yn_free r \<and>
     l \<notin> {ESymbol SymYes, ESymbol SymNo} \<and> r \<notin> {ESymbol SymYes, ESymbol SymNo}"
| "yn_free (EOr l r) \<longleftrightarrow> yn_free l \<and> yn_free r \<and>
     l \<notin> {ESymbol SymYes, ESymbol SymNo} \<and> r \<notin> {ESymbol SymYes, ESymbol SymNo}"
| "yn_free e \<longleftrightarrow> True"

lemma expr_eliminate_yn_free: "yn_free (expr_eliminate_yn e)"
  by (induction e) (auto simp: Let_def)

lemma expr_eliminate_yn_id: "yn_free e \<Longrightarrow> expr_eliminate_yn e = e"
  by (induction e) (auto simp: Let_def)

section \<open>Equality up to the connectives\<close>

lemma elim_eq_kids:
  "elim_eq T ty e1 e2 n = (a, b, m) \<Longrightarrow>
     (kids ty e1 \<noteq> None \<longrightarrow> kids ty a \<noteq> None) \<and> (kids ty e2 \<noteq> None \<longrightarrow> kids ty b \<noteq> None)"
proof (induction T ty e1 e2 n arbitrary: a b m
    rule: elim_eq_expr_eliminate_eq0_expr_eq.induct(1)
      [where Q = "\<lambda>_ _ _ _. True" and R = "\<lambda>_ _ _. True"])
  case (1 T ty e1 e2 n)
  consider (l) l r where "kids ty e1 = Some (l, r)"
    | (r) l r where "kids ty e1 = None" "kids ty e2 = Some (l, r)"
    | (leaf) "kids ty e1 = None" "kids ty e2 = None"
    by (metis not_None_eq surj_pair)
  then show ?case
  proof cases
    case l
    obtain l' x n' where s1: "elim_eq T ty l e2 n = (l', x, n')" by (metis surj_pair)
    obtain r' y n'' where s2: "elim_eq T ty r x n' = (r', y, n'')" by (metis surj_pair)
    show ?thesis
      using "1.IH"(3)[OF l refl s1] "1.IH"(4)[OF l refl s1[symmetric] refl refl s2]
        "1.prems" l s1 s2 kids_mk [OF kids_ty [OF l]]
      by (auto simp: elim_eq.simps [of T ty e1])
  next
    case r
    obtain x l' n' where s1: "elim_eq T ty e1 l n = (x, l', n')" by (metis surj_pair)
    obtain y r' n'' where s2: "elim_eq T ty x r n' = (y, r', n'')" by (metis surj_pair)
    show ?thesis
      using "1.prems" r s1 s2 kids_mk [OF kids_ty [OF r(2)]]
      by (auto simp: elim_eq.simps [of T ty e1])
  next
    case leaf
    then show ?thesis by simp
  qed
qed auto

text \<open>
  Elimination splits off a common part: each tree is the connective of what is left of it and
  one and the same value.
\<close>

lemma elim_eq_sound:
  "tab_ok T \<Longrightarrow> ty \<in> {E_OR, E_AND} \<Longrightarrow> elim_eq T ty e1 e2 n = (a, b, m) \<Longrightarrow>
     \<exists>c. expr_val T e1 = tri_op ty (expr_val T a) c \<and> expr_val T e2 = tri_op ty (expr_val T b) c"
  and expr_eliminate_eq0_sound: "tab_ok T \<Longrightarrow> etype e1 = ty \<Longrightarrow> etype e2 = ty \<Longrightarrow> ty \<in> {E_OR, E_AND} \<Longrightarrow>
     expr_eliminate_eq0 T e1 e2 n = (a, b, m) \<Longrightarrow>
     \<exists>c. expr_val T e1 = tri_op ty (expr_val T a) c \<and> expr_val T e2 = tri_op ty (expr_val T b) c"
  and expr_eq_val: "tab_ok T \<Longrightarrow> expr_eq T e1 e2 \<Longrightarrow> expr_val T e1 = expr_val T e2"
proof (induction T ty e1 e2 n and T e1 e2 n and T e1 e2 arbitrary: a b m and ty a b m
    rule: elim_eq_expr_eliminate_eq0_expr_eq.induct)
  case (1 T ty e1 e2 n)
  consider (l) l r where "kids ty e1 = Some (l, r)"
    | (r) l r where "kids ty e1 = None" "kids ty e2 = Some (l, r)"
    | (leaf) "kids ty e1 = None" "kids ty e2 = None"
    by (metis not_None_eq surj_pair)
  then show ?case
  proof cases
    case l
    obtain l' x n' where s1: "elim_eq T ty l e2 n = (l', x, n')" by (metis surj_pair)
    obtain r' y n'' where s2: "elim_eq T ty r x n' = (r', y, n'')" by (metis surj_pair)
    have ab: "a = mk ty l' r'" "b = y"
      using "1.prems"(3) l s1 s2 by (auto simp: elim_eq.simps [of T ty e1])
    obtain c1 where c1: "expr_val T l = tri_op ty (expr_val T l') c1"
        "expr_val T e2 = tri_op ty (expr_val T x) c1"
      using "1.IH"(4)[OF l refl "1.prems"(1,2) s1] by blast
    obtain c2 where c2: "expr_val T r = tri_op ty (expr_val T r') c2"
        "expr_val T x = tri_op ty (expr_val T y) c2"
      using "1.IH"(5)[OF l refl s1[symmetric] refl refl "1.prems"(1,2) s2] by blast
    show ?thesis
      using "1.prems"(2) by (intro exI [of _ "tri_op ty c1 c2"])
        (simp add: ab kids_val [OF l] c1 c2 tri_op_ac)
  next
    case r
    obtain x l' n' where s1: "elim_eq T ty e1 l n = (x, l', n')" by (metis surj_pair)
    obtain y r' n'' where s2: "elim_eq T ty x r n' = (y, r', n'')" by (metis surj_pair)
    have ab: "b = mk ty l' r'" "a = y"
      using "1.prems"(3) r s1 s2 by (auto simp: elim_eq.simps [of T ty e1])
    obtain c1 where c1: "expr_val T l = tri_op ty (expr_val T l') c1"
        "expr_val T e1 = tri_op ty (expr_val T x) c1"
      using "1.IH"(2)[OF r refl "1.prems"(1,2) s1] by blast
    obtain c2 where c2: "expr_val T r = tri_op ty (expr_val T r') c2"
        "expr_val T x = tri_op ty (expr_val T y) c2"
      using "1.IH"(3)[OF r refl s1[symmetric] refl refl "1.prems"(1,2) s2] by blast
    show ?thesis
      using "1.prems"(2) by (intro exI [of _ "tri_op ty c1 c2"])
        (simp add: ab kids_val [OF r(2)] c1 c2 tri_op_ac)
  next
    case leaf
    show ?thesis
    proof (cases "same_const T e1 e2 \<or> \<not> expr_eq T e1 e2")
      case True
      with leaf "1.prems" have "a = e1" "b = e2"
        by (auto simp: elim_eq.simps [of T ty e1] split: if_splits)
      then show ?thesis
        using tri_op_unit [OF "1.prems"(1,2)] by (intro exI [of _ "sym_tri T (unit_sym ty)"]) simp
    next
      case False
      with leaf "1.prems" have "a = ESymbol (unit_sym ty)" "b = ESymbol (unit_sym ty)"
        by (auto simp: elim_eq.simps [of T ty e1] split: if_splits)
      moreover have "expr_val T e1 = expr_val T e2"
        using "1.IH"(1) leaf False "1.prems"(1) by blast
      ultimately show ?thesis
        using tri_op_unit' [OF "1.prems"(1,2)] by (intro exI [of _ "expr_val T e1"]) simp
    qed
  qed
next
  case (2 T e1 e2 n)
  then have ty: "ty \<in> {E_OR, E_AND}" and "kids ty e1 \<noteq> None" "kids ty e2 \<noteq> None"
    using kids_etype by blast+
  obtain x y n' where s1: "elim_eq T ty e1 e2 n = (x, y, n')" by (metis surj_pair)
  have k: "kids ty x \<noteq> None" "kids ty y \<noteq> None"
    using elim_eq_kids [OF s1] \<open>kids ty e1 \<noteq> None\<close> \<open>kids ty e2 \<noteq> None\<close> by auto
  then have "etype x = ty" "etype y = ty"
    using kids_etype by blast+
  with "2.prems" s1 have "a = expr_eliminate_yn x" "b = expr_eliminate_yn y"
    by (auto simp: expr_eliminate_eq0.simps)
  moreover obtain c where "expr_val T e1 = tri_op ty (expr_val T x) c"
      "expr_val T e2 = tri_op ty (expr_val T y) c"
    using "2.IH"(1) "2.prems" s1 by blast
  ultimately show ?case
    using expr_eliminate_yn_val [OF "2.prems"(1)] by auto
next
  case (3 T e1 e2)
  have same: "same_symbol x y \<Longrightarrow> x = y" for x y
    by (cases "(x, y)" rule: same_symbol.cases) auto
  obtain x y n' where s: "expr_eliminate_eq0 T e1 e2 0 = (x, y, n')" by (metis surj_pair)
  show ?case
  proof (cases e1)
    case (EAnd l r)
    with "3.prems" s have "etype e2 = E_AND" "x = y"
      by (auto simp: expr_eq.simps [of T "EAnd l r"] same split: if_splits)
    with "3.IH"(2)[OF _ EAnd "3.prems"(1) _ _ _ s, of E_AND] EAnd show ?thesis by auto
  next
    case (EOr l r)
    with "3.prems" s have "etype e2 = E_OR" "x = y"
      by (auto simp: expr_eq.simps [of T "EOr l r"] same split: if_splits)
    with "3.IH"(1)[OF _ EOr "3.prems"(1) _ _ _ s, of E_OR] EOr show ?thesis by auto
  next
    case (ENot l)
    with "3.prems" "3.IH"(3) show ?thesis
      by (cases e2) (auto simp: expr_eq.simps [of T "ENot l"])
  qed (use "3.prems" in \<open>(subst (asm) expr_eq.simps, auto split: if_splits)+\<close>)
qed

section \<open>Extracting common terms\<close>

lemma expr_extract_eq_sound:
  "tab_ok T \<Longrightarrow> ty \<in> {E_OR, E_AND} \<Longrightarrow> expr_extract_eq T ty ep e1 e2 = (ep', a, b) \<Longrightarrow>
     \<exists>c. expr_val T e1 = tri_op ty (expr_val T a) c \<and> expr_val T e2 = tri_op ty (expr_val T b) c"
proof (induction T ty ep e1 e2 arbitrary: ep' a b rule: expr_extract_eq.induct)
  case (1 T ty ep e1 e2)
  consider (l) l r where "kids ty e1 = Some (l, r)"
    | (r) l r where "kids ty e1 = None" "kids ty e2 = Some (l, r)"
    | (leaf) "kids ty e1 = None" "kids ty e2 = None"
    by (metis not_None_eq surj_pair)
  then show ?case
  proof cases
    case l
    obtain p l' x where s1: "expr_extract_eq T ty ep l e2 = (p, l', x)" by (metis surj_pair)
    obtain q r' y where s2: "expr_extract_eq T ty p r x = (q, r', y)" by (metis surj_pair)
    have ab: "a = mk ty l' r'" "b = y"
      using "1.prems"(3) l s1 s2 by (auto simp: expr_extract_eq.simps [of T ty ep e1])
    obtain c1 where c1: "expr_val T l = tri_op ty (expr_val T l') c1"
        "expr_val T e2 = tri_op ty (expr_val T x) c1"
      using "1.IH"(3)[OF l refl "1.prems"(1,2) s1] by blast
    obtain c2 where c2: "expr_val T r = tri_op ty (expr_val T r') c2"
        "expr_val T x = tri_op ty (expr_val T y) c2"
      using "1.IH"(4)[OF l refl s1[symmetric] refl refl "1.prems"(1,2) s2] by blast
    show ?thesis
      using "1.prems"(2) by (intro exI [of _ "tri_op ty c1 c2"])
        (simp add: ab kids_val [OF l] c1 c2 tri_op_ac)
  next
    case r
    obtain p x l' where s1: "expr_extract_eq T ty ep e1 l = (p, x, l')" by (metis surj_pair)
    obtain q y r' where s2: "expr_extract_eq T ty p x r = (q, y, r')" by (metis surj_pair)
    have ab: "b = mk ty l' r'" "a = y"
      using "1.prems"(3) r s1 s2 by (auto simp: expr_extract_eq.simps [of T ty ep e1])
    obtain c1 where c1: "expr_val T l = tri_op ty (expr_val T l') c1"
        "expr_val T e1 = tri_op ty (expr_val T x) c1"
      using "1.IH"(1)[OF r refl "1.prems"(1,2) s1] by blast
    obtain c2 where c2: "expr_val T r = tri_op ty (expr_val T r') c2"
        "expr_val T x = tri_op ty (expr_val T y) c2"
      using "1.IH"(2)[OF r refl s1[symmetric] refl refl "1.prems"(1,2) s2] by blast
    show ?thesis
      using "1.prems"(2) by (intro exI [of _ "tri_op ty c1 c2"])
        (simp add: ab kids_val [OF r(2)] c1 c2 tri_op_ac)
  next
    case leaf
    show ?thesis
    proof (cases "expr_eq T e1 e2")
      case True
      with leaf "1.prems" have "a = ESymbol (unit_sym ty)" "b = ESymbol (unit_sym ty)"
        by (auto simp: expr_extract_eq.simps [of T ty ep e1])
      then show ?thesis
        using expr_eq_val [OF "1.prems"(1) True] tri_op_unit' [OF "1.prems"(1,2)]
        by (intro exI [of _ "expr_val T e1"]) simp
    next
      case False
      with leaf "1.prems" have "a = e1" "b = e2"
        by (auto simp: expr_extract_eq.simps [of T ty ep e1])
      then show ?thesis
        using tri_op_unit [OF "1.prems"(1,2)] by (intro exI [of _ "sym_tri T (unit_sym ty)"]) simp
    qed
  qed
qed

lemma expr_extract_eq_and_val:
  assumes "tab_ok T" "expr_extract_eq_and T e1 e2 = (ep, a, b)"
  shows "\<exists>c. expr_val T e1 = tri_and (expr_val T a) c \<and> expr_val T e2 = tri_and (expr_val T b) c"
  using assms expr_extract_eq_sound [OF assms(1), of E_AND None e1 e2]
  by (auto simp: expr_extract_eq_and_def tri_op_def expr_eliminate_yn_val
      split: prod.splits if_splits)

lemma expr_extract_eq_or_val:
  assumes "tab_ok T" "expr_extract_eq_or T e1 e2 = (ep, a, b)"
  shows "\<exists>c. expr_val T e1 = tri_or (expr_val T a) c \<and> expr_val T e2 = tri_or (expr_val T b) c"
  using assms expr_extract_eq_sound [OF assms(1), of E_OR None e1 e2]
  by (auto simp: expr_extract_eq_or_def tri_op_def expr_eliminate_yn_val
      split: prod.splits if_splits)

section \<open>Joining two terms\<close>

lemma expr_copy_val: "expr_copy e = Some e' \<Longrightarrow> e' = e"
  by (induction e arbitrary: e') (auto simp: bind_Some_iff)

lemma tri_cases_bool: "a \<noteq> Mod \<longleftrightarrow> a = No \<or> a = Yes"
  by (cases a) auto

lemma expr_join_or_val:
  assumes ok: "tab_ok T" and j: "expr_join_or T e1 e2 = Some e"
  shows "expr_val T e = tri_or (expr_val T e1) (expr_val T e2)"
proof (cases "expr_eq T e1 e2")
  case True
  with j have "e = e1" by (simp add: expr_join_or_def expr_copy_val)
  with expr_eq_val [OF ok True] show ?thesis by simp
next
  case False
  with j obtain s where "join_sym1 e1 = Some s" "join_sym2 e2 = Some s"
    by (auto simp: expr_join_or_def split: option.splits if_splits)
  with False j show ?thesis
    using sym_string_tri [of T s] tab_okD(1-6) [OF ok] tab_okD(10) [OF ok, of s]
    by (cases "sym_tri T s")
      (auto simp: expr_join_or_def either_def split: if_splits)
qed

lemma join_syms:
  "join_sym1 e1 = Some s \<Longrightarrow> e1 = EEqual a b \<Longrightarrow> a = s"
  "join_sym1 e1 = Some s \<Longrightarrow> e1 = EUnequal a b \<Longrightarrow> a = s"
  "join_sym2 e2 = Some s \<Longrightarrow> e2 = EEqual a b \<Longrightarrow> a = s"
  "join_sym2 e2 = Some s \<Longrightarrow> e2 = EUnequal a b \<Longrightarrow> a = s"
  by auto

text \<open>The rules by which two terms of a conjunction are joined.\<close>

lemma expr_join_and_cases:
  assumes "expr_join_and T e1 e2 = Some e"
  obtains (eq) "expr_eq T e1 e2" "e = e1"
  | (yes) s where "s_type (T s) = S_BOOLEAN \<or> s_type (T s) = S_TRISTATE"
      "either e1 e2 (ESymbol s) (EEqual s SymYes)" "e = EEqual s SymYes"
  | (not_no) s where "s_type (T s) = S_BOOLEAN \<or> s_type (T s) = S_TRISTATE"
      "either e1 e2 (ESymbol s) (EUnequal s SymNo)" "e = ESymbol s"
  | (not_mod) s where "s_type (T s) = S_BOOLEAN \<or> s_type (T s) = S_TRISTATE"
      "either e1 e2 (ESymbol s) (EUnequal s SymMod)" "e = EEqual s SymYes"
  | (const) s b c where "either e1 e2 (EEqual s b) (EUnequal s c)" "is_const T b" "is_const T c"
      "e = (if b \<noteq> c then EEqual s b else ESymbol SymNo)"
  | (two) s x y z where "s_type (T s) = S_TRISTATE" "either e1 e2 (EUnequal s x) (EUnequal s y)"
      "e = EEqual s z" "(x, y, z) \<in> {(SymYes, SymNo, SymMod), (SymYes, SymMod, SymNo),
        (SymMod, SymNo, SymYes)}"
proof (cases "expr_eq T e1 e2")
  case True
  with assms show thesis by (intro eq) (auto simp: expr_join_and_def expr_copy_val)
next
  case False
  with assms obtain s where s: "join_sym1 e1 = Some s" "join_sym2 e2 = Some s"
      "s_type (T s) = S_BOOLEAN \<or> s_type (T s) = S_TRISTATE"
    by (auto simp: expr_join_and_def split: option.splits if_splits)
  show thesis
  proof (cases "either e1 e2 (ESymbol s) (EEqual s SymYes) \<or>
      either e1 e2 (ESymbol s) (EUnequal s SymNo) \<or> either e1 e2 (ESymbol s) (EUnequal s SymMod)")
    case True
    with assms False s show thesis
      by (auto simp: expr_join_and_def split: if_splits intro: yes not_no not_mod)
  next
    case none: False
    with assms False s have t: "s_type (T s) = S_TRISTATE"
      by (auto simp: expr_join_and_def split: if_splits)
    from assms False s none t show thesis
    proof (cases e1; cases e2)
      fix a b c d assume "e1 = EEqual a b" "e2 = EUnequal c d"
      with assms False s none t show thesis
        by (intro const [of s b d]) (auto simp: expr_join_and_def either_def split: if_splits)
    next
      fix a b c d assume "e1 = EUnequal a b" "e2 = EEqual c d"
      with assms False s none t show thesis
        by (intro const [of s d b]) (auto simp: expr_join_and_def either_def split: if_splits)
    next
      fix a b c d assume "e1 = EUnequal a b" "e2 = EUnequal c d"
      with assms False s none t show thesis
        by (auto simp: expr_join_and_def either_def split: if_splits intro: two)
    qed (use s in \<open>auto simp: expr_join_and_def\<close>)
  qed
qed

lemma cmp_val:
  assumes "tab_ok T" "s_type (T s) = S_BOOLEAN \<or> s_type (T s) = S_TRISTATE"
  shows "expr_val T (EEqual s SymYes) = (if sym_tri T s = Yes then Yes else No)"
    "expr_val T (EEqual s SymMod) = (if sym_tri T s = Mod then Yes else No)"
    "expr_val T (EEqual s SymNo) = (if sym_tri T s = No then Yes else No)"
    "expr_val T (EUnequal s SymYes) = (if sym_tri T s = Yes then No else Yes)"
    "expr_val T (EUnequal s SymMod) = (if sym_tri T s = Mod then No else Yes)"
    "expr_val T (EUnequal s SymNo) = (if sym_tri T s = No then No else Yes)"
  using sym_string_tri [of T s, OF assms(2)] tab_okD(4-6) [OF assms(1)] by auto

lemma either_val:
  assumes "either e1 e2 x y"
  shows "tri_and (expr_val T e1) (expr_val T e2) = tri_and (expr_val T x) (expr_val T y)"
    "tri_or (expr_val T e1) (expr_val T e2) = tri_or (expr_val T x) (expr_val T y)"
  using assms by (auto simp: either_def tri_and_commute tri_or_commute)

lemma expr_join_and_val:
  assumes ok: "tab_ok T" and j: "expr_join_and T e1 e2 = Some e"
  shows "expr_val T e = tri_and (expr_val T e1) (expr_val T e2)"
  using j
proof (cases rule: expr_join_and_cases)
  case eq
  with expr_eq_val [OF ok eq(1)] show ?thesis by simp
next
  case (yes s)
  then show ?thesis
    by (cases "sym_tri T s") (simp_all add: either_val cmp_val [OF ok yes(1)] del: expr_val.simps(5,6))
next
  case (not_no s)
  then show ?thesis
    by (cases "sym_tri T s") (simp_all add: either_val cmp_val [OF ok not_no(1)] del: expr_val.simps(5,6))
next
  case (not_mod s)
  then show ?thesis
    by (cases "sym_tri T s") (simp_all add: either_val cmp_val [OF ok not_mod(1)] del: expr_val.simps(5,6))
next
  case (const s b c)
  then show ?thesis
    using tab_okD(3) [OF ok] tab_okD(11) [OF ok, of b c] by (auto simp: either_val)
next
  case (two s x y z)
  note cmp = cmp_val [OF ok disjI2 [OF two(1)]]
  from two(4) show ?thesis
    by (elim insertE emptyE; cases "sym_tri T s")
      (simp_all add: two(3) either_val [OF two(2)] cmp del: expr_val.simps(5,6))
qed

section \<open>Negation normal form\<close>

fun nnf :: "expr \<Rightarrow> bool" where
  "nnf (EAnd l r) \<longleftrightarrow> nnf l \<and> nnf r"
| "nnf (EOr l r) \<longleftrightarrow> nnf l \<and> nnf r"
| "nnf (ENot l) \<longleftrightarrow> (\<exists>s. l = ESymbol s)"
| "nnf e \<longleftrightarrow> True"

lemma expr_transform_correct:
  shows "tab_ok T \<Longrightarrow> dep_wf e \<Longrightarrow>
    expr_val T (expr_transform T e) = expr_val T e \<and> nnf (expr_transform T e) \<and>
    dep_wf (expr_transform T e)"
proof (induction T e rule: expr_transform.induct)
  case (3 T a b)
  then show ?case
    using sym_string_tri [of T a] tab_okD(1-6) [of T] tab_okD(10) [of T a]
    by (cases "sym_tri T a") auto
next
  case (4 T a b)
  then show ?case
    using sym_string_tri [of T a] tab_okD(1-6) [of T] tab_okD(10) [of T a]
    by (cases "sym_tri T a") auto
next
  case (5 T l)
  then have IH: "expr_val T (expr_transform T l) = expr_val T l" "nnf (expr_transform T l)"
      "dep_wf (expr_transform T l)" by auto
  show ?case
  proof (cases "expr_transform T l")
    case (ENot a)
    with "5.IH"(4)[OF ENot] "5.prems" IH(2,3) show ?thesis by (auto simp: IH(1)[symmetric])
  next
    case (EOr a b)
    with "5.IH"(2)[OF EOr] "5.prems" IH(2,3) show ?thesis
      by (simp add: IH(1)[symmetric])
  next
    case (EAnd a b)
    with "5.IH"(3)[OF EAnd] "5.prems" IH(2,3) show ?thesis
      by (simp add: IH(1)[symmetric])
  next
    case (ESymbol s)
    with "5.prems" IH(2,3) tab_okD(1-3) [of T] show ?thesis by (auto simp: IH(1)[symmetric])
  qed (use "5.prems" IH in \<open>auto simp flip: IH(1)\<close>)
qed auto

section \<open>Paths\<close>

fun child :: "dir \<Rightarrow> expr \<times> expr \<Rightarrow> expr" where
  "child L (l, r) = l"
| "child R (l, r) = r"

text \<open>All nodes above the end of the path are of the connective \<open>ty\<close>.\<close>

fun spine :: "expr_type \<Rightarrow> expr \<Rightarrow> path \<Rightarrow> bool" where
  "spine ty e [] \<longleftrightarrow> True"
| "spine ty e (d # p) \<longleftrightarrow> (case kids ty e of None \<Rightarrow> False | Some lr \<Rightarrow> spine ty (child d lr) p)"

lemma spine_Cons:
  "spine ty e (d # p) \<longleftrightarrow> (\<exists>l r. kids ty e = Some (l, r) \<and> spine ty (child d (l, r)) p)"
  by (auto split: option.splits)

declare spine.simps(2) [simp del]

lemma at_kids: "kids ty e = Some (l, r) \<Longrightarrow> at e (d # p) = at (child d (l, r)) p"
  by (cases d) (auto simp: kids_Some)

lemma put_kids:
  "kids ty e = Some (l, r) \<Longrightarrow>
     put e (d # p) x = (if d = L then mk ty (put l p x) r else mk ty l (put r p x))"
  by (cases d) (auto simp: kids_Some)

lemma spine_append: "spine ty e (p @ [d]) \<longleftrightarrow> spine ty e p \<and> kids ty (at e p) \<noteq> None"
proof (induction p arbitrary: e)
  case (Cons d' p)
  then show ?case by (auto simp: spine_Cons at_kids)
qed (auto simp: spine_Cons)

lemma spine_put:
  assumes "kids ty (at e p) = None \<or> kids ty x \<noteq> None"
    and "\<And>c. spine ty (at e p) c \<Longrightarrow> spine ty x c"
  shows "spine ty e c \<Longrightarrow> spine ty e p \<Longrightarrow> spine ty (put e p x) c"
  using assms
proof (induction p arbitrary: e c)
  case Nil
  then show ?case by simp
next
  case (Cons d p)
  then obtain l r where k: "kids ty e = Some (l, r)" "spine ty (child d (l, r)) p"
    by (auto simp: spine_Cons)
  note ty = kids_ty [OF k(1)]
  show ?case
  proof (cases c)
    case (Cons d' c')
    with Cons.prems(1) k have "spine ty (child d' (l, r)) c'" by (auto simp: spine_Cons)
    with Cons.IH [of "child d (l, r)"] Cons.prems k Cons show ?thesis
      using kids_mk [OF ty]
      by (cases d; cases d') (auto simp: spine_Cons put_kids [OF k(1)] at_kids [OF k(1)])
  qed simp
qed

lemma kids_None_spine: "kids ty e = None \<Longrightarrow> spine ty e c \<Longrightarrow> c = []"
  by (cases c) (auto simp: spine_Cons)

text \<open>The value at a spine position, and that of everything else.\<close>

lemma spine_val:
  assumes "tab_ok T" "ty \<in> {E_OR, E_AND}"
  shows "spine ty e p \<Longrightarrow> \<exists>c. \<forall>x. expr_val T (put e p x) = tri_op ty (expr_val T x) c"
proof (induction p arbitrary: e)
  case Nil
  show ?case using tri_op_unit [OF assms] by (intro exI [of _ "sym_tri T (unit_sym ty)"]) simp
next
  case (Cons d p)
  then obtain l r where k: "kids ty e = Some (l, r)" "spine ty (child d (l, r)) p"
    by (auto simp: spine_Cons)
  from Cons.IH [OF k(2)] obtain c where
    c: "\<And>x. expr_val T (put (child d (l, r)) p x) = tri_op ty (expr_val T x) c" by blast
  show ?case
    by (intro exI [of _ "tri_op ty c (expr_val T (if d = L then r else l))"])
      (use c in \<open>cases d; simp add: put_kids [OF k(1)] expr_val_mk [OF kids_ty [OF k(1)]] tri_op_ac\<close>)
qed

lemma put_at: "spine ty e p \<Longrightarrow> put e p (at e p) = e"
proof (induction p arbitrary: e)
  case (Cons d p)
  then obtain l r where k: "kids ty e = Some (l, r)" "spine ty (child d (l, r)) p"
    by (auto simp: spine_Cons)
  with Cons.IH [OF k(2)] show ?case
    by (cases d) (auto simp: put_kids at_kids kids_Some)
qed simp

lemma at_put: "spine ty e p \<Longrightarrow> at (put e p x) p = x"
proof (induction p arbitrary: e)
  case (Cons d p)
  then obtain l r where k: "kids ty e = Some (l, r)" "spine ty (child d (l, r)) p"
    by (auto simp: spine_Cons)
  with Cons.IH [OF k(2)] show ?case
    by (cases d) (auto simp: put_kids kids_Some)
qed simp

text \<open>Two different leaves of one spine do not see each other's changes.\<close>

lemma at_put_other:
  assumes "spine ty e p" "spine ty e q" "kids ty (at e p) = None" "kids ty (at e q) = None" "p \<noteq> q"
  shows "at (put e p x) q = at e q"
  using assms
proof (induction p arbitrary: e q)
  case Nil
  then show ?case using kids_None_spine [of ty e q] by simp
next
  case (Cons d p)
  then obtain l r where k: "kids ty e = Some (l, r)" "spine ty (child d (l, r)) p"
    by (auto simp: spine_Cons)
  show ?case
  proof (cases q)
    case Nil
    with Cons.prems k show ?thesis by simp
  next
    case (Cons d' q')
    with Cons.prems k Cons.IH [of "child d (l, r)" q'] show ?thesis
      by (cases d; cases d') (auto simp: spine_Cons put_kids [OF k(1)] at_kids [OF k(1)] kids_Some)
  qed
qed

lemma put_val:
  assumes "tab_ok T" "ty \<in> {E_OR, E_AND}" "spine ty e p" "expr_val T x = expr_val T (at e p)"
  shows "expr_val T (put e p x) = expr_val T e"
  using spine_val [OF assms(1-3)] assms(4) put_at [OF assms(3)] by metis

lemma put_leaf_spine:
  assumes "kids ty (at e p) = None" "spine ty e p" "spine ty e c"
  shows "spine ty (put e p x) c"
  using assms(1) by (intro spine_put [OF _ _ assms(3,2)]) (auto dest: kids_None_spine)

text \<open>
  Replacing two leaves by two others of the same joint value keeps the value.
\<close>

lemma put2_val:
  assumes ok: "tab_ok T" and ty: "ty \<in> {E_OR, E_AND}" and sp: "spine ty e p" "spine ty e q"
    and leaf: "kids ty (at e p) = None" "kids ty (at e q) = None" and ne: "p \<noteq> q"
    and val: "tri_op ty (expr_val T x) (expr_val T y) = tri_op ty (expr_val T (at e p)) (expr_val T (at e q))"
  shows "expr_val T (put (put e p x) q y) = expr_val T e"
  using sp leaf ne val
proof (induction p arbitrary: e q)
  case Nil
  then show ?case using kids_None_spine [of ty e q] by simp
next
  case (Cons d p)
  then obtain l r where k: "kids ty e = Some (l, r)" "spine ty (child d (l, r)) p"
    by (auto simp: spine_Cons)
  show ?case
  proof (cases q)
    case Nil
    with Cons.prems k show ?thesis by simp
  next
    case q: (Cons d' q')
    from k(1) Cons.prems q have sq: "spine ty (child d' (l, r)) q'"
      by (auto simp: spine_Cons)
    show ?thesis
    proof (cases "d = d'")
      case True
      with Cons.prems k q sq Cons.IH [of "child d (l, r)" q'] show ?thesis
        by (cases d) (auto simp: put_kids [OF k(1)] at_kids [OF k(1)] kids_mk [OF ty]
            put_kids [OF kids_mk [OF ty]] expr_val_mk [OF ty] kids_val [OF k(1)])
    next
      case False
      from spine_val [OF ok ty k(2)] obtain c where
        c: "\<And>x. expr_val T (put (child d (l, r)) p x) = tri_op ty (expr_val T x) c" by blast
      from spine_val [OF ok ty sq] obtain c' where
        c': "\<And>x. expr_val T (put (child d' (l, r)) q' x) = tri_op ty (expr_val T x) c'" by blast
      have "expr_val T (child d (l, r)) = tri_op ty (expr_val T (at e (d # p))) c"
        using c put_at [OF k(2)] by (metis at_kids k(1))
      moreover have "expr_val T (child d' (l, r)) = tri_op ty (expr_val T (at e q)) c'"
        using c' put_at [OF sq] by (metis at_kids k(1) q)
      ultimately show ?thesis
        using False q Cons.prems(6) c c'
        by (cases d; cases d') (auto simp: put_kids [OF k(1)] put_kids [OF kids_mk [OF ty]]
            expr_val_mk [OF ty] kids_val [OF k(1)] tri_op_ac)
    qed
  qed
qed

section \<open>Duplicate elimination\<close>

lemma expr_join_val:
  assumes "tab_ok T" "ty \<in> {E_OR, E_AND}"
    and "(if ty = E_OR then expr_join_or T e1 e2 else expr_join_and T e1 e2) = Some e"
  shows "expr_val T e = tri_op ty (expr_val T e1) (expr_val T e2)"
  using assms expr_join_or_val expr_join_and_val
  by (auto simp: tri_op_def split: if_splits)

lemma kids_other: "etype e \<noteq> ty \<Longrightarrow> kids ty e = None"
  by (meson kids_etype)

text \<open>
  The second pass argues with two truth values: it takes \<open>(a || b) && (!a && !b)\<close> for \<open>n\<close>.
  Its correctness is for dependencies whose symbols are not \<open>m\<close>.
\<close>

fun two_valued :: "symtab \<Rightarrow> expr \<Rightarrow> bool" where
  "two_valued T (ESymbol s) \<longleftrightarrow> sym_tri T s \<noteq> Mod"
| "two_valued T (EAnd l r) \<longleftrightarrow> two_valued T l \<and> two_valued T r"
| "two_valued T (EOr l r) \<longleftrightarrow> two_valued T l \<and> two_valued T r"
| "two_valued T (ENot l) \<longleftrightarrow> two_valued T l"
| "two_valued T e \<longleftrightarrow> True"

definition dep2 :: "symtab \<Rightarrow> expr \<Rightarrow> bool" where
  "dep2 T e \<longleftrightarrow> dep_wf e \<and> two_valued T e"

lemma dep2_simps [simp]:
  "dep2 T (EAnd l r) \<longleftrightarrow> dep2 T l \<and> dep2 T r"
  "dep2 T (EOr l r) \<longleftrightarrow> dep2 T l \<and> dep2 T r"
  "dep2 T (ESymbol s) \<longleftrightarrow> sym_tri T s \<noteq> Mod"
  "dep2 T (EEqual a b)" "dep2 T (EUnequal a b)"
  by (auto simp: dep2_def)

lemma two_valued_val: "two_valued T e \<Longrightarrow> expr_val T e \<noteq> Mod"
  by (induction e) (auto simp: tri_or_def tri_and_def, metis tri_not_not tri_not.simps(2))

lemma dep2_val: "dep2 T e \<Longrightarrow> expr_val T e \<noteq> Mod"
  by (simp add: dep2_def two_valued_val)

lemma dep2_yn: "tab_ok T \<Longrightarrow> dep2 T e \<Longrightarrow> dep2 T (expr_eliminate_yn e)"
  by (induction e) (auto simp: Let_def tab_okD)

lemma dep2_kids: "kids ty e = Some (l, r) \<Longrightarrow> dep2 T e \<longleftrightarrow> dep2 T l \<and> dep2 T r"
  by (auto simp: kids_Some)

lemma dep2_mk [simp]: "dep2 T (mk ty l r) \<longleftrightarrow> dep2 T l \<and> dep2 T r"
  by (cases ty) auto

lemma dep2_at: "spine ty e p \<Longrightarrow> dep2 T e \<Longrightarrow> dep2 T (at e p)"
proof (induction p arbitrary: e)
  case (Cons d p)
  then show ?case
    by (cases d) (auto simp: spine_Cons at_kids dep2_kids)
qed simp

lemma dep2_put: "dep2 T e \<Longrightarrow> dep2 T x \<Longrightarrow> dep2 T (put e p x)"
  by (induction e p x rule: put.induct) (auto split: dir.splits)

lemma expr_join_dep2:
  assumes ok: "tab_ok T" and d: "dep2 T e1" "dep2 T e2"
    and j: "(if ty = E_OR then expr_join_or T e1 e2 else expr_join_and T e1 e2) = Some e"
  shows "dep2 T e"
proof (cases "ty = E_OR")
  case True
  with j d ok show ?thesis
    by (auto simp: expr_join_or_def tab_okD split: if_splits option.splits dest: expr_copy_val)
next
  case False
  with j have "expr_join_and T e1 e2 = Some e" by simp
  then show ?thesis
    by (cases rule: expr_join_and_cases) (use d ok in \<open>auto simp: either_def tab_okD\<close>)
qed

text \<open>
  One rewriting of either pass, on a tree of connective \<open>ty\<close>: joining two leaves of the spine,
  replacing one that the rest contradicts (or implies), or doing so inside a leaf of the other
  connective. Both passes are sequences of such steps, and \<open>trans_count\<close> counts them.
\<close>

definition contradicted :: "symtab \<Rightarrow> expr_type \<Rightarrow> expr \<Rightarrow> expr \<Rightarrow> bool" where
  "contradicted T ty e1 e2 \<longleftrightarrow>
     (let tmp1 = expr_transform T (ENot e1) in
      if ty = E_AND
      then etype e1 = E_OR \<and> fst (snd (expr_extract_eq_and T tmp1 e2)) = ESymbol SymYes
      else etype e1 = E_AND \<and> fst (snd (expr_extract_eq_or T tmp1 e2)) = ESymbol SymNo)"

definition other_unit :: "expr_type \<Rightarrow> symref" where
  "other_unit ty = (if ty = E_AND then SymNo else SymYes)"

inductive dup_step :: "symtab \<Rightarrow> expr_type \<Rightarrow> expr \<Rightarrow> expr \<Rightarrow> bool" for T where
  join: "spine ty e p \<Longrightarrow> spine ty e q \<Longrightarrow> kids ty (at e p) = None \<Longrightarrow> kids ty (at e q) = None \<Longrightarrow>
     p \<noteq> q \<Longrightarrow> (if ty = E_OR then expr_join_or T (at e p) (at e q)
               else expr_join_and T (at e p) (at e q)) = Some tmp \<Longrightarrow>
     dup_step T ty e (put (put e p (ESymbol (unit_sym ty))) q tmp)"
| absorb: "spine ty e p \<Longrightarrow> spine ty e q \<Longrightarrow> kids ty (at e p) = None \<Longrightarrow> p \<noteq> q \<Longrightarrow>
     contradicted T ty (at e p) (at e q) \<Longrightarrow>
     dup_step T ty e (put e p (ESymbol (other_unit ty)))"
| inner: "spine ty e p \<Longrightarrow> kids ty (at e p) = None \<Longrightarrow> p \<noteq> [] \<Longrightarrow>
     dup_step T (etype (at e p)) (at e p) x \<Longrightarrow> dup_step T ty e (put e p x)"

lemma spine_ne_kids: "spine ty e p \<Longrightarrow> p \<noteq> [] \<Longrightarrow> kids ty e \<noteq> None"
  by (cases p) (auto simp: spine_Cons)

lemma leaf_ne: "kids ty (at e p) = None \<Longrightarrow> spine ty e p \<Longrightarrow> spine ty e q \<Longrightarrow> p \<noteq> q \<Longrightarrow> p \<noteq> []"
  by (cases p) (auto dest: kids_None_spine)

lemma leaf_spine_ne:
  "kids ty (at e p) = None \<Longrightarrow> spine ty e p \<Longrightarrow> spine ty e q \<Longrightarrow> p \<noteq> q \<Longrightarrow> kids ty e \<noteq> None"
  using leaf_ne spine_ne_kids by blast

lemma dup_step_spine:
  "dup_step T ty e e' \<Longrightarrow> kids ty e \<noteq> None \<and> (\<forall>c. spine ty e c \<longrightarrow> spine ty e' c)"
proof (induction rule: dup_step.induct)
  case (join ty e p q tmp)
  have "at (put e p (ESymbol (unit_sym ty))) q = at e q"
    using at_put_other join.hyps by blast
  with join.hyps show ?case
    using put_leaf_spine leaf_spine_ne by (metis (no_types, lifting))
next
  case (absorb ty e p q)
  then show ?case using put_leaf_spine leaf_spine_ne by (metis (no_types, lifting))
next
  case (inner ty e p x)
  then show ?case using put_leaf_spine spine_ne_kids by (metis (no_types, lifting))
qed

lemma dup_step_kids: "dup_step T ty e e' \<Longrightarrow> kids ty e \<noteq> None \<and> kids ty e' \<noteq> None"
proof
  assume s: "dup_step T ty e e'"
  from dup_step_spine [OF s] show "kids ty e \<noteq> None" by simp
  then obtain l r where "spine ty e [L]" by (auto simp: spine_Cons)
  with dup_step_spine [OF s] have "spine ty e' [L]" by blast
  then show "kids ty e' \<noteq> None" by (auto simp: spine_Cons)
qed

lemma dup_steps_spine:
  "(dup_step T ty ^^ n) e e' \<Longrightarrow> spine ty e c \<Longrightarrow> spine ty e' c"
  by (induction n arbitrary: e') (auto dest!: dup_step_spine)

lemma dup_steps_kids:
  "(dup_step T ty ^^ n) e e' \<Longrightarrow> kids ty e \<noteq> None \<Longrightarrow> kids ty e' \<noteq> None"
  by (induction n arbitrary: e') (auto dest!: dup_step_kids)

text \<open>Steps inside a leaf of the other connective are steps of the whole.\<close>

lemma dup_steps_inner:
  assumes "spine ty e p" "kids ty (at e p) = None" "p \<noteq> []"
  shows "(dup_step T (etype (at e p)) ^^ n) (at e p) x \<Longrightarrow>
    (dup_step T ty ^^ n) e (put e p x) \<and> etype x = etype (at e p)"
proof (induction n arbitrary: x)
  case 0
  with put_at [OF assms(1)] show ?case by simp
next
  case (Suc n)
  then obtain y where y: "(dup_step T (etype (at e p)) ^^ n) (at e p) y"
      "dup_step T (etype (at e p)) y x" by auto
  note ih = Suc.IH [OF y(1)]
  have ety: "etype x = etype (at e p)"
    using dup_step_kids [OF y(2)] kids_etype by metis
  have "at (put e p y) p = y" by (rule at_put [OF assms(1)])
  moreover have "spine ty (put e p y) p" using put_leaf_spine [OF assms(2,1,1)] .
  moreover have "kids ty y = None"
    using ih assms(2) y(2) dup_step_kids kids_etype by metis
  moreover have "put (put e p y) p x = put e p x"
    using assms(1) by (induction ty e p rule: spine.induct)
      (auto simp: spine_Cons kids_Some split: dir.splits)
  ultimately have "dup_step T ty (put e p y) (put e p x)"
    using dup_step.inner [of ty "put e p y" p T x] assms(3) ih y(2) by auto
  with ih ety show ?case by auto
qed

end
