(* ===== verification/Kconfig_Dups.thy ===== *)
theory Kconfig_Dups
  imports Kconfig_Expr_Val
begin

text \<open>
  The duplicate elimination of \<open>expr.c\<close> (\<open>expr_eliminate_dups\<close>): both passes are sequences of
  the rewriting steps of \<open>Kconfig_Expr_Val\<close>, every step keeps the value and leaves a constant
  that the next clean-up removes, and the fuel of the model is enough.
\<close>

section \<open>The passes are sequences of steps\<close>

lemma relpowp_trans: "(S ^^ m) x y \<Longrightarrow> (S ^^ k) y z \<Longrightarrow> (S ^^ (m + k)) x z"
  by (auto simp: relpowp_add)

lemma relpowp_Suc_step: "(S ^^ m) x y \<Longrightarrow> S y z \<Longrightarrow> (S ^^ Suc m) x z"
  by auto

definition dup_run :: "symtab \<Rightarrow> expr_type \<Rightarrow> expr \<Rightarrow> nat \<Rightarrow> expr \<Rightarrow> nat \<Rightarrow> bool" where
  "dup_run T ty e n e' n' \<longleftrightarrow> n \<le> n' \<and> (dup_step T ty ^^ (n' - n)) e e'"

lemma dup_run_refl [simp]: "dup_run T ty e n e n"
  by (simp add: dup_run_def)

lemma dup_run_trans:
  assumes "dup_run T ty e n e1 n1" "dup_run T ty e1 n1 e2 n2"
  shows "dup_run T ty e n e2 n2"
proof -
  have "n2 - n = (n1 - n) + (n2 - n1)" using assms by (simp add: dup_run_def)
  then show ?thesis using assms relpowp_trans by (fastforce simp: dup_run_def)
qed

lemma dup_run_step: "dup_step T ty e e' \<Longrightarrow> dup_run T ty e n e' (Suc n)"
  by (simp add: dup_run_def eq_OO)

lemma dup_run_spine: "dup_run T ty e n e' n' \<Longrightarrow> spine ty e c \<Longrightarrow> spine ty e' c"
  by (auto simp: dup_run_def dup_steps_spine)

lemma dup_run_inner:
  assumes "spine ty e p" "kids ty (at e p) = None" "p \<noteq> []"
    and "dup_run T (etype (at e p)) (at e p) n x n'"
  shows "dup_run T ty e n (put e p x) n'" "etype x = etype (at e p)"
  using assms dup_steps_inner by (auto simp: dup_run_def)

lemma etype_kids_None: "etype x = etype y \<Longrightarrow> kids ty x = None \<longleftrightarrow> kids ty y = None"
  by (metis kids_etype)

lemma dups1_run:
  "ty \<in> {E_OR, E_AND} \<Longrightarrow> spine ty e p1 \<Longrightarrow> spine ty e p2 \<Longrightarrow>
     expr_eliminate_dups1 k T ty p1 p2 (e, n) = Some (e', n') \<Longrightarrow> dup_run T ty e n e' n'"
proof (induction k arbitrary: ty p1 p2 e n e' n')
  case 0
  then show ?case by simp
next
  case (Suc k)
  note ty = Suc.prems(1) and sp = Suc.prems(2,3) and run = Suc.prems(4)
  consider (l) "kids ty (at e p1) \<noteq> None" | (r) "kids ty (at e p1) = None" "kids ty (at e p2) \<noteq> None"
    | (same) "kids ty (at e p1) = None" "kids ty (at e p2) = None" "p1 = p2"
    | (leaf) "kids ty (at e p1) = None" "kids ty (at e p2) = None" "p1 \<noteq> p2"
    by blast
  then show ?case
  proof cases
    case l
    with run obtain e1 n1 where s1: "expr_eliminate_dups1 k T ty (p1 @ [L]) p2 (e, n) = Some (e1, n1)"
      and s2: "expr_eliminate_dups1 k T ty (p1 @ [R]) p2 (e1, n1) = Some (e', n')"
      by (auto simp: bind_Some_iff)
    have r1: "dup_run T ty e n e1 n1"
      using Suc.IH [OF ty _ sp(2) s1] sp l by (auto simp: spine_append)
    moreover have "spine ty e (p1 @ [R])" using sp l by (simp add: spine_append)
    ultimately show ?thesis
      using Suc.IH [OF ty _ _ s2] sp dup_run_spine dup_run_trans by blast
  next
    case r
    with run obtain e1 n1 where s1: "expr_eliminate_dups1 k T ty p1 (p2 @ [L]) (e, n) = Some (e1, n1)"
      and s2: "expr_eliminate_dups1 k T ty p1 (p2 @ [R]) (e1, n1) = Some (e', n')"
      by (auto simp: bind_Some_iff)
    have r1: "dup_run T ty e n e1 n1"
      using Suc.IH [OF ty sp(1) _ s1] sp r by (auto simp: spine_append)
    moreover have "spine ty e (p2 @ [R])" using sp r by (simp add: spine_append)
    ultimately show ?thesis
      using Suc.IH [OF ty _ _ s2] sp dup_run_spine dup_run_trans by blast
  next
    case same
    with run show ?thesis by auto
  next
    case leaf
    have ne: "p1 \<noteq> []" using leaf_ne [OF leaf(1) sp leaf(3)] .
    obtain x m where x: "dup_run T ty e n (put e p1 x) m" "etype x = etype (at e p1)"
      and j: "Some (e', n') = (case (if ty = E_OR then expr_join_or T x (at e p2)
                else expr_join_and T x (at e p2)) of None \<Rightarrow> Some (put e p1 x, m)
              | Some tmp \<Rightarrow> Some (put (put (put e p1 x) p1 (ESymbol (unit_sym ty))) p2 tmp, Suc m))"
    proof (cases "etype (at e p1) \<in> {E_OR, E_AND}")
      case True
      with run leaf obtain x m where
        i: "expr_eliminate_dups1 k T (etype (at e p1)) [] [] (at e p1, n) = Some (x, m)"
        and j: "Some (e', n') = (case (if ty = E_OR then expr_join_or T (at (put e p1 x) p1) (at (put e p1 x) p2)
                else expr_join_and T (at (put e p1 x) p1) (at (put e p1 x) p2)) of None \<Rightarrow> Some (put e p1 x, m)
              | Some tmp \<Rightarrow> Some (put (put (put e p1 x) p1 (ESymbol (unit_sym ty))) p2 tmp, Suc m))"
        by (auto simp: bind_Some_iff)
      note ri = dup_run_inner [OF sp(1) leaf(1) ne Suc.IH [OF True _ _ i, simplified]]
      show thesis
        by (rule that [OF ri]) (use j at_put [OF sp(1)] at_put_other [OF sp leaf] in simp_all)
    next
      case False
      show thesis
        by (rule that [of "at e p1" n])
          (use run [symmetric] leaf False put_at [OF sp(1)] in \<open>auto split: option.splits\<close>)
    qed
    let ?e = "put e p1 x"
    have sp': "spine ty ?e p1" "spine ty ?e p2" using dup_run_spine [OF x(1)] sp by blast+
    have at': "at ?e p1 = x" "at ?e p2 = at e p2" "kids ty x = None"
      using at_put [OF sp(1)] at_put_other [OF sp leaf] etype_kids_None [OF x(2)] leaf(1) by auto
    show ?thesis
    proof (cases "if ty = E_OR then expr_join_or T x (at e p2) else expr_join_and T x (at e p2)")
      case None
      with j x show ?thesis by simp
    next
      case (Some tmp)
      with j have e': "e' = put (put ?e p1 (ESymbol (unit_sym ty))) p2 tmp" "n' = Suc m" by auto
      have "dup_step T ty ?e e'"
        unfolding e' by (rule dup_step.join [OF sp' _ _ leaf(3)]) (use leaf at' Some in auto)
      then show ?thesis using dup_run_trans [OF x(1) dup_run_step] e' by simp
    qed
  qed
qed

lemma dup_step_leaf:
  assumes "dup_step T ty e e'" "ty \<in> {E_OR, E_AND}" "spine ty e c" "kids ty (at e c) = None"
  shows "kids ty (at e' c) = None"
proof -
  have put: "kids ty (at (put e p x) c) = None"
    if "spine ty e p" "kids ty (at e p) = None" "kids ty x = None" "spine ty e c" "kids ty (at e c) = None"
    for e p x
    using that at_put [OF that(1)] at_put_other [OF that(1,4,2,5)] by (cases "p = c") auto
  from assms show ?thesis
  proof (cases rule: dup_step.cases)
    case (join p q tmp)
    have "kids ty tmp = None"
    proof (cases "ty = E_OR")
      case True
      with join show ?thesis
        by (auto simp: expr_join_or_def split: if_splits option.splits dest: expr_copy_val)
    next
      case False
      with join have "expr_join_and T (at e p) (at e q) = Some tmp" by simp
      then show ?thesis
        by (cases rule: expr_join_and_cases) (use join assms(2) in \<open>auto simp: either_def\<close>)
    qed
    let ?e1 = "put e p (ESymbol (unit_sym ty))"
    have "kids ty (at ?e1 c) = None" "kids ty (at ?e1 q) = None"
      using put [OF join(2) join(4) _ assms(3,4)] at_put_other [OF join(2,3,4,5,6)] join(5) assms(2)
      by auto
    moreover have "spine ty ?e1 c" "spine ty ?e1 q"
      using put_leaf_spine [OF join(4,2)] assms(3) join(3) by blast+
    ultimately show ?thesis
      unfolding join(1) using put [of ?e1 q tmp] \<open>kids ty tmp = None\<close> by blast
  next
    case (absorb p q)
    then show ?thesis using put [of e p] assms by auto
  next
    case (inner p x)
    have "etype x = etype (at e p)" using dup_step_kids [OF inner(5)] kids_etype by metis
    then have "kids ty x = None" using inner(3) kids_etype by metis
    then show ?thesis using inner put [of e p x] assms by auto
  qed
qed

lemma dup_run_leaf:
  assumes "dup_run T ty e n e' n'" "ty \<in> {E_OR, E_AND}" "spine ty e c" "kids ty (at e c) = None"
  shows "kids ty (at e' c) = None"
proof -
  have "(dup_step T ty ^^ k) e e' \<Longrightarrow> kids ty (at e' c) = None \<and> spine ty e' c" for k
  proof (induction k arbitrary: e')
    case (Suc k)
    then obtain y where "(dup_step T ty ^^ k) e y" "dup_step T ty y e'" by auto
    with Suc.IH [of y] show ?case
      using dup_step_leaf [OF _ assms(2)] dup_step_spine by blast
  qed (use assms in auto)
  with assms(1) show ?thesis by (auto simp: dup_run_def)
qed

text \<open>What the second pass does once the terms of \<open>e2\<close> are done.\<close>

lemma dups2_rest:
  assumes ty: "ty \<in> {E_OR, E_AND}" and sp: "spine ty e p1" "spine ty e p2"
    and leaf: "kids ty (at e p1) = None" and ne: "p1 \<noteq> p2"
    and ot: "ot \<in> {E_OR, E_AND}" "etype (at e p1) = ot"
    and inner: "dup_run T ot (at e p1) n x m"
  shows "dup_run T ty e n (put e p1 x) m"
    and "contradicted T ty x (at (put e p1 x) p2) \<Longrightarrow>
      dup_run T ty e n (put (put e p1 x) p1 (ESymbol (other_unit ty))) (Suc m)"
proof -
  have p1: "p1 \<noteq> []" using leaf_ne [OF leaf sp ne] .
  show r: "dup_run T ty e n (put e p1 x) m"
    using dup_run_inner [OF sp(1) leaf p1] inner ot(2) by simp
  assume c: "contradicted T ty x (at (put e p1 x) p2)"
  let ?e = "put e p1 x"
  have "dup_step T ty ?e (put ?e p1 (ESymbol (other_unit ty)))"
    by (rule dup_step.absorb [of _ _ p1 p2])
      (use dup_run_spine [OF r] sp dup_run_leaf [OF r ty sp(1) leaf] ne c at_put [OF sp(1)] in auto)
  then show "dup_run T ty e n (put ?e p1 (ESymbol (other_unit ty))) (Suc m)"
    using dup_run_trans [OF r] dup_run_step by blast
qed

lemma dups2_run:
  "ty \<in> {E_OR, E_AND} \<Longrightarrow> spine ty e p1 \<Longrightarrow> spine ty e p2 \<Longrightarrow>
     expr_eliminate_dups2 k T ty p1 p2 (e, n) = Some (e', n') \<Longrightarrow> dup_run T ty e n e' n'"
proof (induction k arbitrary: ty p1 p2 e n e' n')
  case 0
  then show ?case by simp
next
  case (Suc k)
  note ty = Suc.prems(1) and sp = Suc.prems(2,3) and run = Suc.prems(4)
  show ?case
  proof (cases "kids ty (at e p1) = None")
    case False
    with run obtain e1 n1 where s1: "expr_eliminate_dups2 k T ty (p1 @ [L]) p2 (e, n) = Some (e1, n1)"
      and s2: "expr_eliminate_dups2 k T ty (p1 @ [R]) p2 (e1, n1) = Some (e', n')"
      by (auto simp: bind_Some_iff)
    have r1: "dup_run T ty e n e1 n1"
      using Suc.IH [OF ty _ sp(2) s1] sp False by (auto simp: spine_append)
    moreover have "spine ty e (p1 @ [R])" using sp False by (simp add: spine_append)
    ultimately show ?thesis
      using Suc.IH [OF ty _ _ s2] sp dup_run_spine dup_run_trans by blast
  next
    case leaf1: True
    obtain e1 n1 where r1: "dup_run T ty e n e1 n1"
      and rest: "(if p1 = p2 then Some (e1, n1)
             else case etype (at e1 p1) of
               E_OR \<Rightarrow>
                 map_option (\<lambda>(x, n).
                   let e = put e1 p1 x;
                       tmp1 = expr_transform T (ENot (at e p1));
                       (tmp, tmp1, tmp2) = expr_extract_eq_and T tmp1 (at e p2)
                   in if expr_is_yes (Some tmp1) then (put e p1 (ESymbol SymNo), Suc n)
                      else (e, n))
                 (expr_eliminate_dups2 k T E_OR [] [] (at e1 p1, n1))
             | E_AND \<Rightarrow>
                 map_option (\<lambda>(x, n).
                   let e = put e1 p1 x;
                       tmp1 = expr_transform T (ENot (at e p1));
                       (tmp, tmp1, tmp2) = expr_extract_eq_or T tmp1 (at e p2)
                   in if expr_is_no (Some tmp1) then (put e p1 (ESymbol SymYes), Suc n)
                      else (e, n))
                 (expr_eliminate_dups2 k T E_AND [] [] (at e1 p1, n1))
             | _ \<Rightarrow> Some (e1, n1)) = Some (e', n')"
    proof (cases "kids ty (at e p2) = None")
      case True
      show thesis by (rule that [OF dup_run_refl]) (use run leaf1 True in simp)
    next
      case False
      with run leaf1 obtain e0 n0 e1 n1 where
        s1: "expr_eliminate_dups2 k T ty p1 (p2 @ [L]) (e, n) = Some (e0, n0)" and
        s2: "expr_eliminate_dups2 k T ty p1 (p2 @ [R]) (e0, n0) = Some (e1, n1)" and
        rest: "(if p1 = p2 then Some (e1, n1)
             else case etype (at e1 p1) of
               E_OR \<Rightarrow>
                 map_option (\<lambda>(x, n).
                   let e = put e1 p1 x;
                       tmp1 = expr_transform T (ENot (at e p1));
                       (tmp, tmp1, tmp2) = expr_extract_eq_and T tmp1 (at e p2)
                   in if expr_is_yes (Some tmp1) then (put e p1 (ESymbol SymNo), Suc n)
                      else (e, n))
                 (expr_eliminate_dups2 k T E_OR [] [] (at e1 p1, n1))
             | E_AND \<Rightarrow>
                 map_option (\<lambda>(x, n).
                   let e = put e1 p1 x;
                       tmp1 = expr_transform T (ENot (at e p1));
                       (tmp, tmp1, tmp2) = expr_extract_eq_or T tmp1 (at e p2)
                   in if expr_is_no (Some tmp1) then (put e p1 (ESymbol SymYes), Suc n)
                      else (e, n))
                 (expr_eliminate_dups2 k T E_AND [] [] (at e1 p1, n1))
             | _ \<Rightarrow> Some (e1, n1)) = Some (e', n')"
        by (auto simp: bind_Some_iff simp del: expr_is_yes.simps expr_is_no.simps)
      have r0: "dup_run T ty e n e0 n0"
        using Suc.IH [OF ty sp(1) _ s1] sp False by (simp add: spine_append)
      moreover have "dup_run T ty e0 n0 e1 n1"
        using Suc.IH [OF ty _ _ s2] dup_run_spine [OF r0] sp
          dup_run_spine [OF r0, of "p2 @ [R]"] False by (simp add: spine_append)
      ultimately show thesis using that rest dup_run_trans by blast
    qed
    have sp1: "spine ty e1 p1" "spine ty e1 p2" and leaf: "kids ty (at e1 p1) = None"
      using dup_run_spine [OF r1] sp dup_run_leaf [OF r1 ty sp(1) leaf1] by auto
    have "dup_run T ty e1 n1 e' n'"
    proof (cases "p1 = p2 \<or> etype (at e1 p1) \<notin> {E_OR, E_AND}")
      case True
      with rest show ?thesis by (auto split: expr_type.splits)
    next
      case False
      then have ne: "p1 \<noteq> p2" and ot: "etype (at e1 p1) \<in> {E_OR, E_AND}" by auto
      show ?thesis
      proof (cases "etype (at e1 p1) = E_OR")
        case True
        then have "kids E_OR (at e1 p1) \<noteq> None" using kids_etype by blast
        with leaf ty have t: "ty = E_AND" by auto
        from rest ne True obtain x m where
          i: "expr_eliminate_dups2 k T E_OR [] [] (at e1 p1, n1) = Some (x, m)" and
          j: "(e', n') = (let e = put e1 p1 x;
                       tmp1 = expr_transform T (ENot (at e p1));
                       (tmp, tmp1, tmp2) = expr_extract_eq_and T tmp1 (at e p2)
                   in if expr_is_yes (Some tmp1) then (put e p1 (ESymbol SymNo), Suc m)
                      else (e, m))" by auto
        have ri: "dup_run T E_OR (at e1 p1) n1 x m" using Suc.IH [OF _ _ _ i] by simp
        note d = dups2_rest [OF ty sp1 leaf ne _ True ri]
        have ex: "etype x = E_OR"
          using dup_run_inner(2) [OF sp1(1) leaf leaf_ne [OF leaf sp1 ne]] ri True by simp
        show ?thesis
          using d j ex t at_put [OF sp1(1)]
          by (auto simp: Let_def contradicted_def other_unit_def split: prod.splits if_splits)
      next
        case False
        with ot have et: "etype (at e1 p1) = E_AND" by auto
        then have "kids E_AND (at e1 p1) \<noteq> None" using kids_etype by blast
        with leaf ty have t: "ty = E_OR" by auto
        from rest ne et obtain x m where
          i: "expr_eliminate_dups2 k T E_AND [] [] (at e1 p1, n1) = Some (x, m)" and
          j: "(e', n') = (let e = put e1 p1 x;
                       tmp1 = expr_transform T (ENot (at e p1));
                       (tmp, tmp1, tmp2) = expr_extract_eq_or T tmp1 (at e p2)
                   in if expr_is_no (Some tmp1) then (put e p1 (ESymbol SymYes), Suc m)
                      else (e, m))" by auto
        have ri: "dup_run T E_AND (at e1 p1) n1 x m" using Suc.IH [OF _ _ _ i] by simp
        note d = dups2_rest [OF ty sp1 leaf ne _ et ri]
        have ex: "etype x = E_AND"
          using dup_run_inner(2) [OF sp1(1) leaf leaf_ne [OF leaf sp1 ne]] ri et by simp
        show ?thesis
          using d j ex t at_put [OF sp1(1)]
          by (auto simp: Let_def contradicted_def other_unit_def split: prod.splits if_splits)
      qed
    qed
    then show ?thesis using dup_run_trans r1 by blast
  qed
qed

section \<open>Every step keeps the value\<close>

lemma contradicted_val:
  assumes ok: "tab_ok T" and d: "dep2 T e1" and c: "contradicted T ty e1 e2"
  shows "ty = E_AND \<Longrightarrow> expr_val T e2 \<le> tri_not (expr_val T e1)"
    "ty \<noteq> E_AND \<Longrightarrow> tri_not (expr_val T e1) \<le> expr_val T e2"
proof -
  have tr: "expr_val T (expr_transform T (ENot e1)) = tri_not (expr_val T e1)"
    using expr_transform_correct [OF ok, of "ENot e1"] d by (simp add: dep2_def)
  obtain ep a b where x: "expr_extract_eq_and T (expr_transform T (ENot e1)) e2 = (ep, a, b)"
    by (metis surj_pair)
  obtain ep' a' b' where y: "expr_extract_eq_or T (expr_transform T (ENot e1)) e2 = (ep', a', b')"
    by (metis surj_pair)
  show "ty = E_AND \<Longrightarrow> expr_val T e2 \<le> tri_not (expr_val T e1)"
    using expr_extract_eq_and_val [OF ok x] c x tr
    by (auto simp: contradicted_def tab_okD [OF ok] tri_and_min)
  show "ty \<noteq> E_AND \<Longrightarrow> tri_not (expr_val T e1) \<le> expr_val T e2"
    using expr_extract_eq_or_val [OF ok y] c y tr
    by (auto simp: contradicted_def tab_okD [OF ok] tri_or_max)
qed

lemma spine_val_bound:
  assumes "tab_ok T" "spine ty e p"
  shows "ty = E_AND \<Longrightarrow> expr_val T e \<le> expr_val T (at e p)"
    "ty = E_OR \<Longrightarrow> expr_val T (at e p) \<le> expr_val T e"
  using spine_val [OF assms(1) _ assms(2)] put_at [OF assms(2)]
  by (metis insertCI tri_op_def tri_and_min min.cobounded1,
      metis insertCI tri_op_def tri_or_max max.cobounded1 expr_type.distinct(17))

lemma absorb_val:
  assumes ok: "tab_ok T" and ty: "ty \<in> {E_OR, E_AND}" and d: "dep2 T e"
    and sp: "spine ty e p" "spine ty e q" and c: "contradicted T ty (at e p) (at e q)"
  shows "expr_val T (put e p (ESymbol (other_unit ty))) = expr_val T e"
proof -
  obtain r where r: "\<And>x. expr_val T (put e p x) = tri_op ty (expr_val T x) r"
    using spine_val [OF ok ty sp(1)] by blast
  note dp = dep2_at [OF sp(1) d]
  note b = spine_val_bound [OF ok sp(1)] spine_val_bound [OF ok sp(2)] contradicted_val [OF ok dp c]
  show ?thesis
  proof (cases "ty = E_AND")
    case True
    with b dep2_val [OF dp] have "expr_val T e = No"
      by (cases "expr_val T (at e p)") (auto dest: order.trans)
    with True show ?thesis by (simp add: r tri_op_def other_unit_def tab_okD [OF ok])
  next
    case False
    with ty have t: "ty = E_OR" by auto
    with b dep2_val [OF dp] have "expr_val T e = Yes"
      by (cases "expr_val T (at e p)") (auto dest: order.trans)
    with t show ?thesis by (simp add: r tri_op_def other_unit_def tab_okD [OF ok])
  qed
qed

lemma dup_step_val:
  "dup_step T ty e e' \<Longrightarrow> tab_ok T \<Longrightarrow> dep2 T e \<Longrightarrow>
     expr_val T e' = expr_val T e \<and> dep2 T e'"
proof (induction rule: dup_step.induct)
  case (join ty e p q tmp)
  have ty: "ty \<in> {E_OR, E_AND}" using leaf_spine_ne [OF join(3,1,2,5)] kids_etype by blast
  note ok = join.prems(1)
  have dp: "dep2 T (at e p)" "dep2 T (at e q)" using dep2_at join by blast+
  have "expr_val T (put (put e p (ESymbol (unit_sym ty))) q tmp) = expr_val T e"
    by (rule put2_val [OF ok ty join(1-5)])
      (use expr_join_val [OF ok ty join(6)] tri_op_unit' [OF ok ty] in simp)
  moreover have "dep2 T (ESymbol (unit_sym ty))"
    using ty tab_okD [OF ok] by auto
  ultimately show ?case
    using dep2_put join.prems(2) expr_join_dep2 [OF ok dp join(6)] by blast
next
  case (absorb ty e p q)
  have "ty \<in> {E_OR, E_AND}" using leaf_ne [OF absorb(3,1,2,4)] spine_ne_kids [OF absorb(1)] kids_etype by blast
  moreover have "dep2 T (ESymbol (other_unit ty))"
    using tab_okD [OF absorb.prems(1)] by (simp add: other_unit_def)
  ultimately show ?case
    using absorb_val absorb dep2_put by blast
next
  case (inner ty e p x)
  have "ty \<in> {E_OR, E_AND}" using spine_ne_kids [OF inner(1,3)] kids_etype by blast
  with inner show ?case
    using dep2_at dep2_put put_val by meson
qed

section \<open>Every step leaves a constant to clean up\<close>

lemma size_at: "spine ty e p \<Longrightarrow> size (at e p) + length p \<le> size e"
proof (induction p arbitrary: e)
  case (Cons d p)
  then obtain l r where k: "kids ty e = Some (l, r)" "spine ty (child d (l, r)) p"
    by (auto simp: spine_Cons)
  with Cons.IH [OF k(2)] show ?case
    by (cases d) (auto simp: kids_Some)
qed simp

lemma size_put: "spine ty e p \<Longrightarrow> size (put e p x) + size (at e p) = size e + size x"
proof (induction p arbitrary: e)
  case (Cons d p)
  then obtain l r where k: "kids ty e = Some (l, r)" "spine ty (child d (l, r)) p"
    by (auto simp: spine_Cons)
  with Cons.IH [OF k(2)] show ?case
    by (cases d) (auto simp: put_kids [OF k(1)] at_kids [OF k(1)] kids_Some)
qed simp

lemma spine_not_yn_free:
  "spine ty e p \<Longrightarrow> p \<noteq> [] \<Longrightarrow> \<not> yn_free (at e p) \<or> at e p \<in> {ESymbol SymYes, ESymbol SymNo} \<Longrightarrow>
     \<not> yn_free e"
proof (induction p arbitrary: e)
  case (Cons d p)
  then obtain l r where k: "kids ty e = Some (l, r)" "spine ty (child d (l, r)) p"
    by (auto simp: spine_Cons)
  show ?case
  proof (cases "p = []")
    case True
    with Cons.prems k show ?thesis by (cases d) (auto simp: kids_Some)
  next
    case False
    with Cons.prems k Cons.IH [OF k(2)] show ?thesis by (cases d) (auto simp: kids_Some)
  qed
qed simp

lemma yn_free_size: "\<not> yn_free e \<Longrightarrow> size (expr_eliminate_yn e) < size e"
proof (induction e)
  case (EOr l r)
  then show ?case
    using size_expr_eliminate_yn [of l] size_expr_eliminate_yn [of r]
    by (cases "yn_free l"; cases "yn_free r") (auto simp: Let_def expr_eliminate_yn_id)
next
  case (EAnd l r)
  then show ?case
    using size_expr_eliminate_yn [of l] size_expr_eliminate_yn [of r]
    by (cases "yn_free l"; cases "yn_free r") (auto simp: Let_def expr_eliminate_yn_id)
qed auto

lemma dup_step_size:
  "dup_step T ty e e' \<Longrightarrow> size e' \<le> size e \<and> \<not> yn_free e'"
proof (induction rule: dup_step.induct)
  case (join ty e p q tmp)
  let ?e = "put e p (ESymbol (unit_sym ty))"
  have ty: "ty \<in> {E_OR, E_AND}" using leaf_spine_ne [OF join(3,1,2,5)] kids_etype by blast
  have sq: "spine ty ?e q" "at ?e q = at e q" and sp: "spine ty ?e p" "at ?e p = ESymbol (unit_sym ty)"
    using put_leaf_spine [OF join(3,1)] join(1,2) at_put_other [OF join(1-5)] at_put [OF join(1)] by auto
  have k: "kids ty (at ?e q) = None" "kids ty (at ?e p) = None" using sq sp join ty by auto
  have "size tmp \<le> size (at e p)"
  proof (cases "ty = E_OR")
    case True
    with join(6) show ?thesis
      by (auto simp: expr_join_or_def split: if_splits option.splits dest: expr_copy_val)
  next
    case False
    with join(6) have "expr_join_and T (at e p) (at e q) = Some tmp" by simp
    then show ?thesis by (cases rule: expr_join_and_cases) auto
  qed
  then have "size (put ?e q tmp) \<le> size e"
    using size_put [OF sq(1), of tmp] size_put [OF join(1), of "ESymbol (unit_sym ty)"] sq(2) by simp
  moreover have "at (put ?e q tmp) p = ESymbol (unit_sym ty)" "spine ty (put ?e q tmp) p"
    using at_put_other [OF sq(1) sp(1) k join(5)[symmetric]] sp put_leaf_spine [OF k(1) sq(1) sp(1)] by auto
  moreover have "p \<noteq> []" using leaf_ne [OF join(3,1,2,5)] .
  ultimately show ?case using spine_not_yn_free ty by fastforce
next
  case (absorb ty e p q)
  let ?e = "put e p (ESymbol (other_unit ty))"
  have "p \<noteq> []" using leaf_ne [OF absorb(3,1,2,4)] .
  moreover have "spine ty ?e p" "at ?e p = ESymbol (other_unit ty)"
    using put_leaf_spine [OF absorb(3,1,1)] at_put [OF absorb(1)] by auto
  moreover have "size ?e \<le> size e" using size_put [OF absorb(1), of "ESymbol (other_unit ty)"] by simp
  ultimately show ?case using spine_not_yn_free by (fastforce simp: other_unit_def)
next
  case (inner ty e p x)
  then show ?case
    using size_put [OF inner(1), of x] put_leaf_spine [OF inner(2,1,1)] at_put [OF inner(1), of x]
      spine_not_yn_free [of ty "put e p x" p] by simp
qed

lemma dup_steps_props:
  assumes "(dup_step T ty ^^ k) e e'"
  shows "size e' \<le> size e" "0 < k \<Longrightarrow> \<not> yn_free e'"
    "tab_ok T \<Longrightarrow> dep2 T e \<Longrightarrow> expr_val T e' = expr_val T e \<and> dep2 T e'"
  using assms
proof (induction k arbitrary: e')
  case (Suc k)
  { case 1 then show ?case using Suc.IH(1) by (auto dest!: dup_step_size intro: le_trans) }
  { case 2 then show ?case by (auto dest!: dup_step_size) }
  { case 3 then show ?case using Suc.IH(3) by (auto dest!: dup_step_val) }
qed auto

lemma dup_run_props:
  assumes "dup_run T ty e n e' n'"
  shows "size e' \<le> size e" "n < n' \<Longrightarrow> \<not> yn_free e'" "n' = n \<Longrightarrow> e' = e" "n \<le> n'"
    "tab_ok T \<Longrightarrow> dep2 T e \<Longrightarrow> expr_val T e' = expr_val T e \<and> dep2 T e'"
  using assms dup_steps_props [of "n' - n" T ty e e'] by (auto simp: dup_run_def)

section \<open>The fuel is enough\<close>

definition fuel_need :: "nat \<Rightarrow> expr_type \<Rightarrow> expr \<Rightarrow> path \<Rightarrow> path \<Rightarrow> nat" where
  "fuel_need H ty e p1 p2 =
     (H - length p1) * (H + 2) + (if kids ty (at e p1) \<noteq> None then 0 else H - length p2)"

lemma fuel_need_left:
  assumes "spine ty e p1" "kids ty (at e p1) \<noteq> None" "size e \<le> H" "fuel_need H ty e p1 p2 < Suc k"
    and "d \<in> {L, R}"
  shows "fuel_need H ty e' (p1 @ [d]) p2 < k"
proof -
  have "spine ty e (p1 @ [d])" using assms by (simp add: spine_append)
  then have "length p1 < H" using size_at [of ty e "p1 @ [d]"] assms(3) by simp
  then obtain m where m: "H - length p1 = Suc m" by (metis Suc_diff_Suc)
  then have "H - length (p1 @ [d]) = m" by simp
  with m assms(2,4) show ?thesis by (auto simp: fuel_need_def)
qed

lemma fuel_need_right:
  assumes "spine ty e p2" "kids ty (at e p1) = None" "kids ty (at e p2) \<noteq> None" "size e \<le> H"
    and "fuel_need H ty e p1 p2 < Suc k" "d \<in> {L, R}"
  shows "fuel_need H ty e' p1 (p2 @ [d]) < k"
proof -
  have "spine ty e (p2 @ [d])" using assms by (simp add: spine_append)
  then have "length p2 < H" using size_at [of ty e "p2 @ [d]"] assms(4) by simp
  with assms show ?thesis by (auto simp: fuel_need_def)
qed

lemma fuel_need_inner:
  assumes "spine ty e p1" "kids ty (at e p1) = None" "p1 \<noteq> []" "size e \<le> H"
    and "fuel_need H ty e p1 p2 < Suc k" "etype (at e p1) = ot" "ot \<in> {E_OR, E_AND}"
  shows "fuel_need (size (at e p1)) ot (at e p1) [] [] < k"
proof -
  let ?s = "size (at e p1)"
  have k: "kids ot (at e p1) \<noteq> None" using assms(6,7) kids_etype by blast
  then have pos: "0 < ?s" using assms(7) by (cases "at e p1") auto
  have "?s + length p1 \<le> H" using size_at [OF assms(1)] assms(4) by simp
  moreover have "0 < length p1" using assms(3) by simp
  ultimately have b: "?s \<le> H - length p1" "?s + 1 \<le> H" by linarith+
  have "?s * (?s + 2) + ?s = ?s * (?s + 1 + 2)" by (simp add: algebra_simps)
  also have "\<dots> \<le> (H - length p1) * (H + 2)" by (rule mult_le_mono) (use b in linarith)+
  finally have "?s * (?s + 2) < (H - length p1) * (H + 2)" using pos by linarith
  with assms(5) k show ?thesis by (auto simp: fuel_need_def)
qed

lemma dups1_total:
  "ty \<in> {E_OR, E_AND} \<Longrightarrow> spine ty e p1 \<Longrightarrow> spine ty e p2 \<Longrightarrow> size e \<le> H \<Longrightarrow>
     fuel_need H ty e p1 p2 < k \<Longrightarrow> \<exists>st. expr_eliminate_dups1 k T ty p1 p2 (e, n) = Some st"
proof (induction k arbitrary: ty p1 p2 e n H)
  case 0
  then show ?case by simp
next
  case (Suc k)
  note ty = Suc.prems(1) and sp = Suc.prems(2,3) and H = Suc.prems(4) and f = Suc.prems(5)
  consider (l) "kids ty (at e p1) \<noteq> None" | (r) "kids ty (at e p1) = None" "kids ty (at e p2) \<noteq> None"
    | (same) "kids ty (at e p1) = None" "kids ty (at e p2) = None" "p1 = p2"
    | (leaf) "kids ty (at e p1) = None" "kids ty (at e p2) = None" "p1 \<noteq> p2"
    by blast
  then show ?case
  proof cases
    case l
    note fl = fuel_need_left [OF sp(1) l H f]
    have sL: "spine ty e (p1 @ [L])" and sR: "spine ty e (p1 @ [R])" using sp l by (auto simp: spine_append)
    obtain e1 n1 where s1: "expr_eliminate_dups1 k T ty (p1 @ [L]) p2 (e, n) = Some (e1, n1)"
      using Suc.IH [where n = n, OF ty sL sp(2) H fl] by auto
    note r1 = dups1_run [OF ty sL sp(2) s1]
    obtain st where "expr_eliminate_dups1 k T ty (p1 @ [R]) p2 (e1, n1) = Some st"
      using Suc.IH [where n = n1, OF ty dup_run_spine [OF r1 sR] dup_run_spine [OF r1 sp(2)] _ fl]
        dup_run_props(1) [OF r1] H by (auto intro: le_trans)
    with s1 l show ?thesis by (auto simp: bind_Some_iff)
  next
    case r
    note fr = fuel_need_right [OF sp(2) r H f]
    have sL: "spine ty e (p2 @ [L])" and sR: "spine ty e (p2 @ [R])" using sp r by (auto simp: spine_append)
    obtain e1 n1 where s1: "expr_eliminate_dups1 k T ty p1 (p2 @ [L]) (e, n) = Some (e1, n1)"
      using Suc.IH [where n = n, OF ty sp(1) sL H fr] by auto
    note r1 = dups1_run [OF ty sp(1) sL s1]
    obtain st where "expr_eliminate_dups1 k T ty p1 (p2 @ [R]) (e1, n1) = Some st"
      using Suc.IH [where n = n1, OF ty dup_run_spine [OF r1 sp(1)] dup_run_spine [OF r1 sR] _ fr]
        dup_run_props(1) [OF r1] H by (auto intro: le_trans)
    with s1 r show ?thesis by (auto simp: bind_Some_iff)
  next
    case same
    then show ?thesis by simp
  next
    case leaf
    have "\<exists>st. expr_eliminate_dups1 k T (etype (at e p1)) [] [] (at e p1, n) = Some st"
      if o: "etype (at e p1) \<in> {E_OR, E_AND}"
      by (rule Suc.IH [OF o _ _ le_refl
            fuel_need_inner [OF sp(1) leaf(1) leaf_ne [OF leaf(1) sp leaf(3)] H f refl o]]) auto
    then have "expr_eliminate_dups1 (Suc k) T ty p1 p2 (e, n) \<noteq> None"
      using leaf by (auto simp add: case_prod_beta split: option.splits)
    then show ?thesis by (metis not_None_eq)
  qed
qed

lemma dups2_total:
  "ty \<in> {E_OR, E_AND} \<Longrightarrow> spine ty e p1 \<Longrightarrow> spine ty e p2 \<Longrightarrow> size e \<le> H \<Longrightarrow>
     fuel_need H ty e p1 p2 < k \<Longrightarrow> \<exists>st. expr_eliminate_dups2 k T ty p1 p2 (e, n) = Some st"
proof (induction k arbitrary: ty p1 p2 e n H)
  case 0
  then show ?case by simp
next
  case (Suc k)
  note ty = Suc.prems(1) and sp = Suc.prems(2,3) and H = Suc.prems(4) and f = Suc.prems(5)
  show ?case
  proof (cases "kids ty (at e p1) = None")
    case False
    note fl = fuel_need_left [OF sp(1) False H f]
    have sL: "spine ty e (p1 @ [L])" and sR: "spine ty e (p1 @ [R])" using sp False by (auto simp: spine_append)
    obtain e1 n1 where s1: "expr_eliminate_dups2 k T ty (p1 @ [L]) p2 (e, n) = Some (e1, n1)"
      using Suc.IH [where n = n, OF ty sL sp(2) H fl] by auto
    note r1 = dups2_run [OF ty sL sp(2) s1]
    obtain st where "expr_eliminate_dups2 k T ty (p1 @ [R]) p2 (e1, n1) = Some st"
      using Suc.IH [where n = n1, OF ty dup_run_spine [OF r1 sR] dup_run_spine [OF r1 sp(2)] _ fl]
        dup_run_props(1) [OF r1] H by (auto intro: le_trans)
    with s1 False show ?thesis by (auto simp: bind_Some_iff)
  next
    case leaf1: True
    obtain e1 n1 where first: "(if kids ty (at e p2) \<noteq> None then
             Option.bind (expr_eliminate_dups2 k T ty p1 (p2 @ [L]) (e, n))
               (expr_eliminate_dups2 k T ty p1 (p2 @ [R]))
           else Some (e, n)) = Some (e1, n1)"
      and r1: "dup_run T ty e n e1 n1"
    proof (cases "kids ty (at e p2) = None")
      case True
      then show thesis using that by simp
    next
      case False
      note fr = fuel_need_right [OF sp(2) leaf1 False H f]
      have sL: "spine ty e (p2 @ [L])" and sR: "spine ty e (p2 @ [R])" using sp False by (auto simp: spine_append)
      obtain e0 n0 where s1: "expr_eliminate_dups2 k T ty p1 (p2 @ [L]) (e, n) = Some (e0, n0)"
        using Suc.IH [where n = n, OF ty sp(1) sL H fr] by auto
      note r1 = dups2_run [OF ty sp(1) sL s1]
      note sp0 = dup_run_spine [OF r1 sp(1)] dup_run_spine [OF r1 sR]
      obtain e1 n1 where s2: "expr_eliminate_dups2 k T ty p1 (p2 @ [R]) (e0, n0) = Some (e1, n1)"
        using Suc.IH [where n = n0, OF ty sp0 _ fr] dup_run_props(1) [OF r1] H by (auto intro: le_trans)
      from that [of e1 n1] s1 s2 False dups2_run [OF ty sp0 s2] r1 show thesis
        by (auto intro: dup_run_trans)
    qed
    have inner: "\<exists>st. expr_eliminate_dups2 k T ot [] [] (at e1 p1, n1) = Some st"
      if o: "etype (at e1 p1) = ot" "ot \<in> {E_OR, E_AND}" and ne: "p1 \<noteq> p2" for ot
    proof -
      have leaf: "kids ty (at e1 p1) = None" and sp1: "spine ty e1 p1" "spine ty e1 p2"
        using dup_run_leaf [OF r1 ty sp(1) leaf1] dup_run_spine [OF r1] sp by auto
      have H1: "size e1 \<le> H" using dup_run_props(1) [OF r1] H by simp
      have "fuel_need H ty e1 p1 p2 < Suc k" using f leaf leaf1 by (simp add: fuel_need_def)
      from fuel_need_inner [OF sp1(1) leaf leaf_ne [OF leaf sp1 ne] H1 this o]
      show ?thesis by (intro Suc.IH [OF o(2) _ _ le_refl]) auto
    qed
    have "expr_eliminate_dups2 (Suc k) T ty p1 p2 (e, n) \<noteq> None"
      using leaf1 first inner [of E_OR] inner [of E_AND]
      by (cases "p1 = p2"; cases "etype (at e1 p1)")
        (simp_all add: case_prod_beta del: expr_transform.simps split: option.splits)
    then show ?thesis by (metis not_None_eq)
  qed
qed

lemma dups_pass_total:
  obtains e' n where "dups_pass T e = Some (e', n)" "size e' \<le> size e" "0 < n \<Longrightarrow> \<not> yn_free e'"
    "n = 0 \<Longrightarrow> e' = e" "tab_ok T \<Longrightarrow> dep2 T e \<Longrightarrow> expr_val T e' = expr_val T e \<and> dep2 T e'"
proof (cases "etype e \<in> {E_OR, E_AND}")
  case True
  let ?ty = "etype e"
  have need: "fuel_need (size x) ?ty x [] [] < dups_fuel x" if "kids ?ty x \<noteq> None" for x
    using that by (simp add: fuel_need_def dups_fuel_def)
  have k: "kids ?ty e \<noteq> None" using True kids_etype by blast
  obtain e1 n1 where s1: "expr_eliminate_dups1 (dups_fuel e) T ?ty [] [] (e, 0) = Some (e1, n1)"
    using dups1_total [where n = 0, OF True _ _ le_refl need [OF k], of T] by auto
  note r1 = dups1_run [OF True _ _ s1, simplified]
  have k1: "kids ?ty e1 \<noteq> None"
    using r1 k dup_steps_kids by (auto simp: dup_run_def)
  then have et: "etype e1 = etype e" using kids_etype by blast
  obtain e2 n2 where s2: "expr_eliminate_dups2 (dups_fuel e1) T ?ty [] [] (e1, n1) = Some (e2, n2)"
    using dups2_total [where n = n1, OF True _ _ le_refl need [OF k1], of T] by auto
  note r = dup_run_trans [OF r1 dups2_run [OF True _ _ s2, simplified]]
  show ?thesis
    by (rule that [of e2 n2]) (use True s1 s2 et dup_run_props [OF r] in \<open>auto simp: dups_pass_def\<close>)
next
  case False
  then show ?thesis using that [of e 0] by (simp add: dups_pass_def)
qed

lemma dups_loop_total:
  "size e < k \<Longrightarrow> \<exists>e'. dups_loop k T e = Some e' \<and> size e' \<le> size e \<and>
     (tab_ok T \<longrightarrow> dep2 T e \<longrightarrow> expr_val T e' = expr_val T e \<and> dep2 T e')"
proof (induction k arbitrary: e)
  case (Suc k)
  obtain e1 n where p: "dups_pass T e = Some (e1, n)" "size e1 \<le> size e" "0 < n \<Longrightarrow> \<not> yn_free e1"
    "n = 0 \<Longrightarrow> e1 = e" "tab_ok T \<Longrightarrow> dep2 T e \<Longrightarrow> expr_val T e1 = expr_val T e \<and> dep2 T e1"
    using dups_pass_total by blast
  show ?case
  proof (cases "n = 0")
    case True
    with p show ?thesis by simp
  next
    case False
    then have sz: "size (expr_eliminate_yn e1) < size e"
      using p(2,3) yn_free_size by fastforce
    have "size (expr_eliminate_yn e1) < k" using sz Suc.prems by simp
    from Suc.IH [OF this] obtain e' where "dups_loop k T (expr_eliminate_yn e1) = Some e'"
      "size e' \<le> size (expr_eliminate_yn e1)"
      "tab_ok T \<longrightarrow> dep2 T (expr_eliminate_yn e1) \<longrightarrow>
         expr_val T e' = expr_val T (expr_eliminate_yn e1) \<and> dep2 T e'" by blast
    with False p(1,5) sz show ?thesis
      using expr_eliminate_yn_val [of T e1] dep2_yn [of T e1] by auto
  qed
qed simp

lemma expr_eliminate_dups_correct:
  obtains e' where "expr_eliminate_dups T e = Some e'" "size e' \<le> size e"
    "tab_ok T \<Longrightarrow> dep2 T e \<Longrightarrow> expr_val T e' = expr_val T e"
  using dups_loop_total [of e "Suc (size e)" T] by (auto simp: expr_eliminate_dups_def)

end
