(* ===== verification/Kconfig_Symbol.thy ===== *)
theory Kconfig_Symbol
  imports Kconfig_Dups "HOL-Library.Monad_Syntax"
begin

text \<open>
  The symbol engine, \<open>package/config/symbol.c\<close>, and the inline accessors of \<open>lkc.h\<close>.

  The state of the tool is the record \<open>kstate\<close>: the symbols, properties and menu entries by
  their pointers, the hash chains, the module symbol, the change counter and the allocation
  counters. A result \<open>None\<close> means that the code dereferences a NULL pointer (or takes a pointer
  to something else for a string or a symbol), or that the bound on the depth of the mutual
  recursion between symbols and expressions was reached. The functions that evaluate
  expressions take the evaluator \<open>calc\<close> of symbols as an argument; the code's own evaluator is
  \<open>sym_calc_value k\<close>, where \<open>k\<close> bounds the depth.
\<close>

record kstate =
  syms :: symtab
  props :: "nat \<Rightarrow> property"
  menus :: "nat \<Rightarrow> menu"
  symbol_hash :: "nat \<Rightarrow> symref list"
  modules_sym :: "symref option"
  modules_val :: tristate
  sym_change_count :: int
  sym_inited :: bool
  next_sym :: nat
  next_prop :: nat
  next_menu :: nat
  next_str :: nat

type_synonym calc = "symref \<Rightarrow> kstate \<Rightarrow> kstate option"

section \<open>Access to the stores\<close>

definition upd_sym :: "symref \<Rightarrow> (symbol \<Rightarrow> symbol) \<Rightarrow> kstate \<Rightarrow> kstate" where
  "upd_sym r f st = st\<lparr>syms := (syms st)(r := f (syms st r))\<rparr>"

definition upd_prop :: "nat \<Rightarrow> (property \<Rightarrow> property) \<Rightarrow> kstate \<Rightarrow> kstate" where
  "upd_prop p f st = st\<lparr>props := (props st)(p := f (props st p))\<rparr>"

definition upd_menu :: "nat \<Rightarrow> (menu \<Rightarrow> menu) \<Rightarrow> kstate \<Rightarrow> kstate" where
  "upd_menu m f st = st\<lparr>menus := (menus st)(m := f (menus st m))\<rparr>"

definition set_flags :: "symref \<Rightarrow> symbol_flag set \<Rightarrow> kstate \<Rightarrow> kstate" where
  "set_flags r F = upd_sym r (s_flags_update (\<lambda>X. X \<union> F))"

definition clr_flags :: "symref \<Rightarrow> symbol_flag set \<Rightarrow> kstate \<Rightarrow> kstate" where
  "clr_flags r F = upd_sym r (s_flags_update (\<lambda>X. X - F))"

definition flag :: "kstate \<Rightarrow> symref \<Rightarrow> symbol_flag \<Rightarrow> bool" where
  "flag st r f \<longleftrightarrow> f \<in> s_flags (syms st r)"

definition sym_get_tristate_value :: "kstate \<Rightarrow> symref \<Rightarrow> tristate" where
  "sym_get_tristate_value st r = sv_tri (s_curr (syms st r))"

definition sym_is_choice :: "kstate \<Rightarrow> symref \<Rightarrow> bool" where
  "sym_is_choice st r \<longleftrightarrow> SYMBOL_CHOICE \<in> s_flags (syms st r)"

definition sym_is_choice_value :: "kstate \<Rightarrow> symref \<Rightarrow> bool" where
  "sym_is_choice_value st r \<longleftrightarrow> SYMBOL_CHOICEVAL \<in> s_flags (syms st r)"

definition sym_is_optional :: "kstate \<Rightarrow> symref \<Rightarrow> bool" where
  "sym_is_optional st r \<longleftrightarrow> SYMBOL_OPTIONAL \<in> s_flags (syms st r)"

definition sym_has_value :: "kstate \<Rightarrow> symref \<Rightarrow> bool" where
  "sym_has_value st r \<longleftrightarrow> SYMBOL_NEW \<notin> s_flags (syms st r)"

definition sym_get_type :: "kstate \<Rightarrow> symref \<Rightarrow> symbol_type" where
  "sym_get_type st r =
     (let type = s_type (syms st r) in
      if type = S_TRISTATE then
        (if sym_is_choice_value st r \<and> s_visible (syms st r) = Yes then S_BOOLEAN
         else if modules_val st = No then S_BOOLEAN
         else type)
      else type)"

fun sym_type_name :: "symbol_type \<Rightarrow> string" where
  "sym_type_name S_BOOLEAN = ''boolean''"
| "sym_type_name S_TRISTATE = ''tristate''"
| "sym_type_name S_INT = ''integer''"
| "sym_type_name S_HEX = ''hex''"
| "sym_type_name S_STRING = ''string''"
| "sym_type_name S_UNKNOWN = ''unknown''"
| "sym_type_name S_OTHER = ''???''"

fun prop_get_type_name :: "prop_type \<Rightarrow> string" where
  "prop_get_type_name P_PROMPT = ''prompt''"
| "prop_get_type_name P_COMMENT = ''comment''"
| "prop_get_type_name P_MENU = ''menu''"
| "prop_get_type_name P_DEFAULT = ''default''"
| "prop_get_type_name P_CHOICE = ''choice''"
| "prop_get_type_name P_SELECT = ''select''"
| "prop_get_type_name P_RANGE = ''range''"
| "prop_get_type_name P_UNKNOWN = ''unknown''"

text \<open>All symbols the macro \<open>for_all_symbols\<close> visits, in its order.\<close>

definition all_symbols :: "kstate \<Rightarrow> symref list" where
  "all_symbols st =
     filter (\<lambda>r. s_type (syms st r) \<noteq> S_OTHER) (concat (map (symbol_hash st) [0..<257]))"

section \<open>Marking changes\<close>

fun mark_menus :: "nat list \<Rightarrow> kstate \<Rightarrow> kstate" where
  "mark_menus [] st = st"
| "mark_menus (p # ps) st =
     (case p_menu (props st p) of
        None \<Rightarrow> mark_menus ps st
      | Some m \<Rightarrow> mark_menus ps (upd_menu m (m_flags_update (insert MENU_CHANGED)) st))"

definition sym_set_changed :: "symref \<Rightarrow> kstate \<Rightarrow> kstate" where
  "sym_set_changed r st =
     (let st = set_flags r {SYMBOL_CHANGED} st in mark_menus (s_prop (syms st r)) st)"

definition sym_set_all_changed :: "kstate \<Rightarrow> kstate" where
  "sym_set_all_changed st = foldl (\<lambda>st r. sym_set_changed r st) st (all_symbols st)"

section \<open>Properties\<close>

definition prop_init :: property where
  "prop_init = \<lparr>p_sym = None, p_type = P_UNKNOWN, p_text = None,
     p_visible = \<lparr>ev_expr = None, ev_tri = No\<rparr>, p_expr = None, p_menu = None\<rparr>"

definition prop_alloc :: "prop_type \<Rightarrow> symref option \<Rightarrow> kstate \<Rightarrow> nat \<times> kstate" where
  "prop_alloc type s st =
     (let p = next_prop st;
          st = st\<lparr>next_prop := Suc p,
                 props := (props st)(p := prop_init\<lparr>p_type := type, p_sym := s\<rparr>)\<rparr>
      in (p, case s of None \<Rightarrow> st | Some r \<Rightarrow> upd_sym r (s_prop_update (\<lambda>ps. ps @ [p])) st))"

text \<open>
  The outer \<open>None\<close> is a wild pointer: for a choice node the code returns the pointer to the
  rest of the chain as if it were a symbol.
\<close>

definition prop_get_symbol :: "kstate \<Rightarrow> nat \<Rightarrow> symref option option" where
  "prop_get_symbol st p =
     (case p_expr (props st p) of
        Some (ESymbol s) \<Rightarrow> Some (Some s)
      | Some (EChoice None s) \<Rightarrow> Some None
      | Some (EChoice (Some e) s) \<Rightarrow> None
      | _ \<Rightarrow> Some None)"

definition sym_get_choice_prop :: "kstate \<Rightarrow> symref \<Rightarrow> nat option" where
  "sym_get_choice_prop st r = find (\<lambda>p. p_type (props st p) = P_CHOICE) (s_prop (syms st r))"

section \<open>Evaluating expressions\<close>

fun calc_expr :: "calc \<Rightarrow> expr \<Rightarrow> kstate \<Rightarrow> (tristate \<times> kstate) option" where
  "calc_expr calc (ESymbol s) st =
     do { st \<leftarrow> calc s st; Some (sv_tri (s_curr (syms st s)), st) }"
| "calc_expr calc (EAnd l r) st =
     do { (val1, st) \<leftarrow> calc_expr calc l st;
          (val2, st) \<leftarrow> calc_expr calc r st;
          Some (tri_and val1 val2, st) }"
| "calc_expr calc (EOr l r) st =
     do { (val1, st) \<leftarrow> calc_expr calc l st;
          (val2, st) \<leftarrow> calc_expr calc r st;
          Some (tri_or val1 val2, st) }"
| "calc_expr calc (ENot l) st =
     do { (val1, st) \<leftarrow> calc_expr calc l st; Some (tri_not val1, st) }"
| "calc_expr calc (EEqual a b) st =
     do { st \<leftarrow> calc a st;
          st \<leftarrow> calc b st;
          str1 \<leftarrow> sym_get_string_value (syms st) a;
          str2 \<leftarrow> sym_get_string_value (syms st) b;
          Some (if str1 = str2 then Yes else No, st) }"
| "calc_expr calc (EUnequal a b) st =
     do { st \<leftarrow> calc a st;
          st \<leftarrow> calc b st;
          str1 \<leftarrow> sym_get_string_value (syms st) a;
          str2 \<leftarrow> sym_get_string_value (syms st) b;
          Some (if str1 = str2 then No else Yes, st) }"
| "calc_expr calc e st = Some (No, st)"

fun expr_calc_value :: "calc \<Rightarrow> expr option \<Rightarrow> kstate \<Rightarrow> (tristate \<times> kstate) option" where
  "expr_calc_value calc None st = Some (Yes, st)"
| "expr_calc_value calc (Some e) st = calc_expr calc e st"

text \<open>\<open>prop->visible.tri = expr_calc_value(prop->visible.expr)\<close>.\<close>

definition prop_calc_visible :: "calc \<Rightarrow> nat \<Rightarrow> kstate \<Rightarrow> (tristate \<times> kstate) option" where
  "prop_calc_visible calc p st =
     do { (t, st) \<leftarrow> expr_calc_value calc (ev_expr (p_visible (props st p))) st;
          Some (t, upd_prop p (p_visible_update (ev_tri_update (\<lambda>_. t))) st) }"

text \<open>The first property of a type whose condition is not \<open>n\<close>.\<close>

fun first_visible_prop ::
  "calc \<Rightarrow> prop_type \<Rightarrow> nat list \<Rightarrow> kstate \<Rightarrow> (nat option \<times> kstate) option" where
  "first_visible_prop calc ty [] st = Some (None, st)"
| "first_visible_prop calc ty (p # ps) st =
     (if p_type (props st p) = ty then
        do { (t, st) \<leftarrow> prop_calc_visible calc p st;
             if t \<noteq> No then Some (Some p, st) else first_visible_prop calc ty ps st }
      else first_visible_prop calc ty ps st)"

definition sym_get_default_prop :: "calc \<Rightarrow> symref \<Rightarrow> kstate \<Rightarrow> (nat option \<times> kstate) option" where
  "sym_get_default_prop calc r st = first_visible_prop calc P_DEFAULT (s_prop (syms st r)) st"

definition sym_get_range_prop :: "calc \<Rightarrow> symref \<Rightarrow> kstate \<Rightarrow> (nat option \<times> kstate) option" where
  "sym_get_range_prop calc r st = first_visible_prop calc P_RANGE (s_prop (syms st r)) st"

section \<open>Visibility\<close>

fun calc_prompts :: "calc \<Rightarrow> nat list \<Rightarrow> tristate \<Rightarrow> kstate \<Rightarrow> (tristate \<times> kstate) option" where
  "calc_prompts calc [] tri st = Some (tri, st)"
| "calc_prompts calc (p # ps) tri st =
     (if p_text (props st p) \<noteq> None then
        do { (t, st) \<leftarrow> prop_calc_visible calc p st; calc_prompts calc ps (tri_or tri t) st }
      else calc_prompts calc ps tri st)"

definition set_visible :: "symref \<Rightarrow> tristate \<Rightarrow> kstate \<Rightarrow> kstate" where
  "set_visible r tri st =
     (if s_visible (syms st r) \<noteq> tri
      then sym_set_changed r (upd_sym r (s_visible_update (\<lambda>_. tri)) st) else st)"

definition set_rev_dep :: "symref \<Rightarrow> tristate \<Rightarrow> kstate \<Rightarrow> kstate" where
  "set_rev_dep r tri st =
     (if ev_tri (s_rev_dep (syms st r)) \<noteq> tri
      then sym_set_changed r (upd_sym r (s_rev_dep_update (ev_tri_update (\<lambda>_. tri))) st) else st)"

text \<open>A visibility or reverse dependency of \<open>m\<close> counts as \<open>y\<close> for what can only be \<open>y\<close> or \<open>n\<close>.\<close>

definition calc_rev_dep :: "calc \<Rightarrow> symref \<Rightarrow> kstate \<Rightarrow> kstate option" where
  "calc_rev_dep calc r st =
     do { (tri, st) \<leftarrow> (case ev_expr (s_rev_dep (syms st r)) of
                          None \<Rightarrow> Some (No, st)
                        | Some e \<Rightarrow> calc_expr calc e st);
          let tri = (if tri = Mod \<and> sym_get_type st r = S_BOOLEAN then Yes else tri);
          Some (set_rev_dep r tri st) }"

definition sym_calc_visibility :: "calc \<Rightarrow> symref \<Rightarrow> kstate \<Rightarrow> kstate option" where
  "sym_calc_visibility calc r st =
     do { (tri, st) \<leftarrow> calc_prompts calc (s_prop (syms st r)) No st;
          let tri = (if tri = Mod \<and> (s_type (syms st r) \<noteq> S_TRISTATE \<or> modules_val st = No)
                     then Yes else tri);
          let st = set_visible r tri st;
          if sym_is_choice_value st r then Some st else calc_rev_dep calc r st }"

section \<open>The value of a choice\<close>

text \<open>A candidate is taken when it is visible.\<close>

definition try_choice :: "calc \<Rightarrow> symref \<Rightarrow> kstate \<Rightarrow> (bool \<times> kstate) option" where
  "try_choice calc d st =
     do { st \<leftarrow> sym_calc_visibility calc d st; Some (s_visible (syms st d) \<noteq> No, st) }"

fun choice_defaults ::
  "calc \<Rightarrow> nat list \<Rightarrow> kstate \<Rightarrow> (symref option \<times> kstate) option" where
  "choice_defaults calc [] st = Some (None, st)"
| "choice_defaults calc (p # ps) st =
     (if p_type (props st p) = P_DEFAULT then
        do { (t, st) \<leftarrow> prop_calc_visible calc p st;
             if t = No then choice_defaults calc ps st
             else do { d \<leftarrow> prop_get_symbol st p;
                       d \<leftarrow> d;
                       (ok, st) \<leftarrow> try_choice calc d st;
                       if ok then Some (Some d, st) else choice_defaults calc ps st } }
      else choice_defaults calc ps st)"

fun choice_chain :: "calc \<Rightarrow> expr \<Rightarrow> kstate \<Rightarrow> (symref option \<times> kstate) option" where
  "choice_chain calc (EChoice l d) st =
     do { (ok, st) \<leftarrow> try_choice calc d st;
          if ok then Some (Some d, st)
          else (case l of None \<Rightarrow> Some (None, st) | Some e \<Rightarrow> choice_chain calc e st) }"
| "choice_chain calc e st = None"

text \<open>The three stages: the user's choice, the defaults, the first visible member.\<close>

definition choice_user :: "calc \<Rightarrow> symref \<Rightarrow> kstate \<Rightarrow> (symref option \<times> kstate) option" where
  "choice_user calc r st =
     (case sv_val (s_user (syms st r)) of
        VNull \<Rightarrow> Some (None, st)
      | VSym d \<Rightarrow> do { (ok, st) \<leftarrow> try_choice calc d st; Some (if ok then Some d else None, st) }
      | VStr a s \<Rightarrow> None)"

definition choice_members :: "calc \<Rightarrow> symref \<Rightarrow> kstate \<Rightarrow> (symref option \<times> kstate) option" where
  "choice_members calc r st =
     do { p \<leftarrow> sym_get_choice_prop st r;
          (case p_expr (props st p) of None \<Rightarrow> Some (None, st) | Some e \<Rightarrow> choice_chain calc e st) }"

definition choice_pick :: "calc \<Rightarrow> symref \<Rightarrow> kstate \<Rightarrow> (symref option \<times> kstate) option" where
  "choice_pick calc r st =
     do { (d, st) \<leftarrow> choice_user calc r st;
          if d \<noteq> None then Some (d, st)
          else do {
            (d, st) \<leftarrow> choice_defaults calc (s_prop (syms st r)) st;
            if d \<noteq> None then Some (d, st) else choice_members calc r st } }"

definition sym_calc_choice :: "calc \<Rightarrow> symref \<Rightarrow> kstate \<Rightarrow> (symref option \<times> kstate) option" where
  "sym_calc_choice calc r st =
     do { (d, st) \<leftarrow> choice_pick calc r st;
          Some (d, if d \<noteq> None then st
                   else upd_sym r (s_curr_update (sv_tri_update (\<lambda>_. No))) st) }"

section \<open>The value of a symbol\<close>

definition no_curr :: symbol_value where
  "no_curr = \<lparr>sv_val = VStr ALit ''n'', sv_tri = No\<rparr>"

definition empty_curr :: symbol_value where
  "empty_curr = \<lparr>sv_val = VStr ALit '''', sv_tri = No\<rparr>"

text \<open>The default of a boolean or tristate symbol, with what is done before it is evaluated.\<close>

definition calc_default ::
  "calc \<Rightarrow> (kstate \<Rightarrow> kstate) \<Rightarrow> symref \<Rightarrow> tristate \<Rightarrow> kstate \<Rightarrow> (tristate \<times> kstate) option" where
  "calc_default calc pre r tri st =
     do { (p, st) \<leftarrow> sym_get_default_prop calc r st;
          (case p of None \<Rightarrow> Some (tri, st)
           | Some p \<Rightarrow> expr_calc_value calc (p_expr (props st p)) (pre st)) }"

definition calc_bool :: "calc \<Rightarrow> symref \<Rightarrow> tristate \<Rightarrow> kstate \<Rightarrow> (tristate \<times> kstate) option" where
  "calc_bool calc r tri st =
     do { (tri, st) \<leftarrow>
            (if sym_is_choice_value st r \<and> s_visible (syms st r) = Yes then
               do { p \<leftarrow> sym_get_choice_prop st r;
                    c \<leftarrow> prop_get_symbol st p;
                    c \<leftarrow> c;
                    Some (if sv_val (s_curr (syms st c)) = VSym r then Yes else No, st) }
             else if tri_or (s_visible (syms st r)) (ev_tri (s_rev_dep (syms st r))) \<noteq> No then
               do { let st = set_flags r {SYMBOL_WRITE} st;
                    (tri, st) \<leftarrow>
                      (if sym_has_value st r then Some (sv_tri (s_user (syms st r)), st)
                       else if \<not> sym_is_choice st r then calc_default calc id r tri st
                       else Some (tri, st));
                    Some (tri_or (tri_and tri (s_visible (syms st r)))
                                 (ev_tri (s_rev_dep (syms st r))), st) }
             else if \<not> sym_is_choice st r then
               calc_default calc (set_flags r {SYMBOL_WRITE}) r tri st
             else Some (tri, st));
          Some (if tri = Mod \<and> sym_get_type st r = S_BOOLEAN then Yes else tri, st) }"

definition calc_string :: "calc \<Rightarrow> symref \<Rightarrow> cval \<Rightarrow> kstate \<Rightarrow> (cval \<times> kstate) option" where
  "calc_string calc r v st =
     do { let vis = (s_visible (syms st r) \<noteq> No);
          let st = (if vis then set_flags r {SYMBOL_WRITE} st else st);
          if vis \<and> sym_has_value st r then Some (sv_val (s_user (syms st r)), st)
          else do {
            (p, st) \<leftarrow> sym_get_default_prop calc r st;
            (case p of None \<Rightarrow> Some (v, st)
             | Some p \<Rightarrow>
                do { ds \<leftarrow> prop_get_symbol st p;
                     (case ds of None \<Rightarrow> Some (v, st)
                      | Some ds \<Rightarrow>
                         do { st \<leftarrow> calc ds (set_flags r {SYMBOL_WRITE} st);
                              Some (sv_val (s_curr (syms st ds)), st) }) }) } }"

text \<open>The members of a choice take over its flags.\<close>

fun chain_flags :: "symbol_flag set \<Rightarrow> expr \<Rightarrow> kstate \<Rightarrow> kstate option" where
  "chain_flags F (EChoice l d) st =
     (let st = set_flags d F st;
          st = (if SYMBOL_CHANGED \<in> F then sym_set_changed d st else st)
      in case l of None \<Rightarrow> Some st | Some e \<Rightarrow> chain_flags F e st)"
| "chain_flags F e st = None"

definition calc_finish :: "calc \<Rightarrow> symref \<Rightarrow> symbol_value \<Rightarrow> symbol_value \<Rightarrow> kstate \<Rightarrow> kstate option" where
  "calc_finish calc r oldval newval st =
     do { let st = upd_sym r (s_curr_update (\<lambda>_. newval)) st;
          st \<leftarrow> (if sym_is_choice st r \<and> sv_tri newval = Yes then
                  do { (d, st) \<leftarrow> sym_calc_choice calc r st;
                       Some (upd_sym r (s_curr_update (sv_val_update
                         (\<lambda>_. case d of None \<Rightarrow> VNull | Some d \<Rightarrow> VSym d))) st) }
                else Some st);
          let st = (if s_curr (syms st r) \<noteq> oldval then sym_set_changed r st else st);
          let st = (if modules_sym st = Some r
                    then st\<lparr>modules_val := sv_tri (s_curr (syms st r))\<rparr> else st);
          if sym_is_choice st r then
            do { let F = s_flags (syms st r) \<inter> {SYMBOL_CHANGED, SYMBOL_WRITE};
                 p \<leftarrow> sym_get_choice_prop st r;
                 (case p_expr (props st p) of None \<Rightarrow> Some st | Some e \<Rightarrow> chain_flags F e st) }
          else Some st }"

text \<open>The new value, once the visibility is known; until then \<open>newval\<close> stands in for it.\<close>

definition calc_new :: "calc \<Rightarrow> symref \<Rightarrow> symbol_value \<Rightarrow> symbol_value \<Rightarrow> kstate \<Rightarrow> kstate option" where
  "calc_new calc r oldval newval st =
     do { let st = upd_sym r (s_curr_update (\<lambda>_. newval)) st;
          if sym_get_type st r \<in> {S_BOOLEAN, S_TRISTATE} then
            do { (tri, st) \<leftarrow> calc_bool calc r (sv_tri newval) st;
                 calc_finish calc r oldval (newval\<lparr>sv_tri := tri\<rparr>) st }
          else
            do { (v, st) \<leftarrow> calc_string calc r (sv_val newval) st;
                 calc_finish calc r oldval (newval\<lparr>sv_val := v\<rparr>) st } }"

definition calc_body :: "calc \<Rightarrow> symref \<Rightarrow> kstate \<Rightarrow> kstate option" where
  "calc_body calc r st =
     do { let st = set_flags r {SYMBOL_VALID} st;
          let oldval = s_curr (syms st r);
          let ty = s_type (syms st r);
          if ty \<notin> {S_INT, S_HEX, S_STRING, S_BOOLEAN, S_TRISTATE} then
            Some (upd_sym r (s_curr_update (\<lambda>_.
              \<lparr>sv_val = (case s_name (syms st r) of None \<Rightarrow> VNull | Some nm \<Rightarrow> VStr (AName r) nm),
               sv_tri = No\<rparr>)) st)
          else do {
            let newval = (if ty \<in> {S_BOOLEAN, S_TRISTATE} then no_curr else empty_curr);
            let st = (if \<not> sym_is_choice_value st r then clr_flags r {SYMBOL_WRITE} st else st);
            st \<leftarrow> sym_calc_visibility calc r st;
            calc_new calc r oldval newval st } }"

text \<open>
  The first argument bounds the depth of the recursion through expressions; the number of
  symbols that are not yet valid is enough (shown in \<open>Kconfig_Eval\<close>).
\<close>

fun sym_calc_value :: "nat \<Rightarrow> symref \<Rightarrow> kstate \<Rightarrow> kstate option" where
  "sym_calc_value k r st =
     (if flag st r SYMBOL_VALID then Some st
      else case k of 0 \<Rightarrow> None | Suc j \<Rightarrow> calc_body (sym_calc_value j) r st)"

declare sym_calc_value.simps [simp del]

definition sym_clear_all_valid :: "calc \<Rightarrow> kstate \<Rightarrow> kstate option" where
  "sym_clear_all_valid calc st =
     do { let st = foldl (\<lambda>st r. clr_flags r {SYMBOL_VALID} st) st (all_symbols st);
          let st = st\<lparr>sym_change_count := sym_change_count st + 1\<rparr>;
          (case modules_sym st of None \<Rightarrow> Some st | Some m \<Rightarrow> calc m st) }"

section \<open>Setting values\<close>

definition sym_tristate_within_range :: "kstate \<Rightarrow> symref \<Rightarrow> tristate \<Rightarrow> bool" where
  "sym_tristate_within_range st r val =
     (let type = sym_get_type st r; s = syms st r in
      if s_visible s = No then False
      else if type \<noteq> S_BOOLEAN \<and> type \<noteq> S_TRISTATE then False
      else if type = S_BOOLEAN \<and> val = Mod then False
      else if s_visible s \<le> ev_tri (s_rev_dep s) then False
      else if sym_is_choice_value st r \<and> s_visible s = Yes then val = Yes
      else ev_tri (s_rev_dep s) \<le> val \<and> val \<le> s_visible s)"

definition sym_is_changable :: "kstate \<Rightarrow> symref \<Rightarrow> bool" where
  "sym_is_changable st r \<longleftrightarrow> ev_tri (s_rev_dep (syms st r)) < s_visible (syms st r)"

definition clear_new :: "symref \<Rightarrow> kstate \<Rightarrow> kstate" where
  "clear_new r st =
     (if SYMBOL_NEW \<in> s_flags (syms st r)
      then sym_set_changed r (clr_flags r {SYMBOL_NEW} st) else st)"

definition sym_set_tristate_value ::
  "calc \<Rightarrow> symref \<Rightarrow> tristate \<Rightarrow> kstate \<Rightarrow> (bool \<times> kstate) option" where
  "sym_set_tristate_value calc r val st =
     do { let oldval = sym_get_tristate_value st r;
          if oldval \<noteq> val \<and> \<not> sym_tristate_within_range st r val then Some (False, st)
          else do {
            let st = clear_new r st;
            st \<leftarrow> (if sym_is_choice_value st r \<and> val = Yes then
                    do { p \<leftarrow> sym_get_choice_prop st r;
                         cs \<leftarrow> prop_get_symbol st p;
                         cs \<leftarrow> cs;
                         Some (clr_flags cs {SYMBOL_NEW}
                           (upd_sym cs (s_user_update (sv_val_update (\<lambda>_. VSym r))) st)) }
                  else Some st);
            let st = upd_sym r (s_user_update (sv_tri_update (\<lambda>_. val))) st;
            if oldval \<noteq> val then
              do { st \<leftarrow> sym_clear_all_valid calc st;
                   Some (True, if modules_sym st = Some r then sym_set_all_changed st else st) }
            else Some (True, st) } }"

definition sym_set_choice_value :: "calc \<Rightarrow> symref \<Rightarrow> symref \<Rightarrow> kstate \<Rightarrow> (bool \<times> kstate) option" where
  "sym_set_choice_value calc ch chval st = sym_set_tristate_value calc chval Yes st"

fun next_tri :: "tristate \<Rightarrow> tristate" where
  "next_tri No = Mod"
| "next_tri Mod = Yes"
| "next_tri Yes = No"

text \<open>The \<open>do ... while\<close> loop; the first argument bounds its rounds (three are enough).\<close>

fun toggle_loop ::
  "nat \<Rightarrow> calc \<Rightarrow> symref \<Rightarrow> tristate \<Rightarrow> tristate \<Rightarrow> kstate \<Rightarrow> (tristate \<times> kstate) option" where
  "toggle_loop 0 calc r oldval newval st = None"
| "toggle_loop (Suc k) calc r oldval newval st =
     (let newval = next_tri newval in
      do { (ok, st) \<leftarrow> sym_set_tristate_value calc r newval st;
           if ok then Some (newval, st)
           else if oldval \<noteq> newval then toggle_loop k calc r oldval newval st
           else Some (newval, st) })"

definition sym_toggle_tristate_value ::
  "calc \<Rightarrow> symref \<Rightarrow> kstate \<Rightarrow> (tristate \<times> kstate) option" where
  "sym_toggle_tristate_value calc r st =
     (let oldval = sym_get_tristate_value st r in toggle_loop 3 calc r oldval oldval st)"

definition int_valid :: "string \<Rightarrow> bool" where
  "int_valid str =
     (let s = (if cstr_at str 0 = CHR ''-'' then tl str else str) in
      if \<not> isdigit (cstr_at s 0) then False
      else if cstr_at s 0 = CHR ''0'' \<and> cstr_at s 1 \<noteq> NUL then False
      else list_all isdigit (tl s))"

definition hex_valid :: "string \<Rightarrow> bool" where
  "hex_valid str =
     (let s = (if cstr_at str 0 = CHR ''0'' \<and> cstr_at str 1 \<in> {CHR ''x'', CHR ''X''}
               then drop 2 str else str) in
      isxdigit (cstr_at s 0) \<and> list_all isxdigit (tl s))"

definition sym_string_valid :: "kstate \<Rightarrow> symref \<Rightarrow> string \<Rightarrow> bool" where
  "sym_string_valid st r str =
     (case s_type (syms st r) of
        S_STRING \<Rightarrow> True
      | S_INT \<Rightarrow> int_valid str
      | S_HEX \<Rightarrow> hex_valid str
      | S_BOOLEAN \<Rightarrow> cstr_at str 0 \<in> set ''yYmMnN''
      | S_TRISTATE \<Rightarrow> cstr_at str 0 \<in> set ''yYmMnN''
      | _ \<Rightarrow> False)"

text \<open>The value an answer starting with one of \<open>y\<close>, \<open>m\<close>, \<open>n\<close> stands for.\<close>

definition answer_tri :: "string \<Rightarrow> tristate option" where
  "answer_tri str =
     (if cstr_at str 0 \<in> set ''yY'' then Some Yes
      else if cstr_at str 0 \<in> set ''mM'' then Some Mod
      else if cstr_at str 0 \<in> set ''nN'' then Some No
      else None)"

text \<open>\<open>val >= strtol(left) && val <= strtol(right)\<close> where \<open>val\<close> was converted to \<open>int\<close>.\<close>

definition in_range :: "nat \<Rightarrow> calc \<Rightarrow> symref \<Rightarrow> string \<Rightarrow> kstate \<Rightarrow> (bool \<times> kstate) option" where
  "in_range base calc r str st =
     do { (p, st) \<leftarrow> sym_get_range_prop calc r st;
          (case p of None \<Rightarrow> Some (True, st)
           | Some p \<Rightarrow>
              (case p_expr (props st p) of
                 Some (ERange a b) \<Rightarrow>
                   do { lo \<leftarrow> s_name (syms st a);
                        hi \<leftarrow> s_name (syms st b);
                        let val = to_int (strtol base str);
                        Some (strtol base lo \<le> val \<and> val \<le> strtol base hi, st) }
               | _ \<Rightarrow> None)) }"

definition sym_string_within_range ::
  "calc \<Rightarrow> symref \<Rightarrow> string \<Rightarrow> kstate \<Rightarrow> (bool \<times> kstate) option" where
  "sym_string_within_range calc r str st =
     (case s_type (syms st r) of
        S_STRING \<Rightarrow> Some (sym_string_valid st r str, st)
      | S_INT \<Rightarrow> (if \<not> sym_string_valid st r str then Some (False, st) else in_range 10 calc r str st)
      | S_HEX \<Rightarrow> (if \<not> sym_string_valid st r str then Some (False, st) else in_range 16 calc r str st)
      | ty \<Rightarrow>
         (if ty \<in> {S_BOOLEAN, S_TRISTATE}
          then Some (case answer_tri str of None \<Rightarrow> False
                     | Some t \<Rightarrow> sym_tristate_within_range st r t, st)
          else Some (False, st)))"

text \<open>The string is copied to a new allocation, with \<open>0x\<close> in front of a bare hex number.\<close>

definition store_user_string :: "symref \<Rightarrow> string \<Rightarrow> kstate \<Rightarrow> kstate" where
  "store_user_string r str st =
     upd_sym r (s_user_update (sv_val_update (\<lambda>_. VStr (AHeap (next_str st)) str)))
       (st\<lparr>next_str := Suc (next_str st)\<rparr>)"

fun is_vsym :: "cval \<Rightarrow> bool" where
  "is_vsym (VSym d) = True"
| "is_vsym v = False"

definition store_if_new ::
  "calc \<Rightarrow> symref \<Rightarrow> string \<Rightarrow> kstate \<Rightarrow> (bool \<times> kstate) option" where
  "store_if_new calc r newval st =
     (let oldval = sv_val (s_user (syms st r)) in
      if is_vsym oldval then None
      else if cstr_of oldval \<noteq> Some newval then
        do { st \<leftarrow> sym_clear_all_valid calc (store_user_string r newval st);
             Some (True, st) }
      else Some (True, st))"

definition sym_set_string_value ::
  "calc \<Rightarrow> symref \<Rightarrow> string \<Rightarrow> kstate \<Rightarrow> (bool \<times> kstate) option" where
  "sym_set_string_value calc r newval st =
     (if s_type (syms st r) \<in> {S_BOOLEAN, S_TRISTATE} then
        (case answer_tri newval of None \<Rightarrow> Some (False, st)
         | Some t \<Rightarrow> sym_set_tristate_value calc r t st)
      else
        do { (ok, st) \<leftarrow> sym_string_within_range calc r newval st;
             if \<not> ok then Some (False, st)
             else do {
               let st = clear_new r st;
               if s_type (syms st r) = S_HEX \<and>
                  (cstr_at newval 0 \<noteq> CHR ''0'' \<or> cstr_at newval 1 \<notin> {CHR ''x'', CHR ''X''}) then
                 do { st \<leftarrow> sym_clear_all_valid calc (store_user_string r (''0x'' @ newval) st);
                      Some (True, st) }
               else
                 store_if_new calc r newval st } })"

section \<open>The symbol table\<close>

text \<open>\<open>hash += *ptr\<close> adds signed bytes; the mask takes the sum modulo 256.\<close>

definition schar :: "char \<Rightarrow> int" where
  "schar c = (let n = int (of_char c) in if n < 128 then n else n - 256)"

definition sym_hash :: "string \<Rightarrow> nat" where
  "sym_hash name = nat (sum_list (map schar name) mod 256)"

fun const_name :: "string \<Rightarrow> symref option" where
  "const_name name =
     (if name = ''y'' then Some SymYes
      else if name = ''m'' then Some SymMod
      else if name = ''n'' then Some SymNo
      else None)"

definition sym_init_val :: "string option \<Rightarrow> symbol_flag set \<Rightarrow> symbol" where
  "sym_init_val nm F =
     \<lparr>s_name = nm, s_help = None, s_type = S_UNKNOWN,
      s_curr = \<lparr>sv_val = VNull, sv_tri = No\<rparr>, s_user = \<lparr>sv_val = VNull, sv_tri = No\<rparr>,
      s_visible = No, s_flags = F, s_prop = [], s_rev_dep = \<lparr>ev_expr = None, ev_tri = No\<rparr>\<rparr>"

definition is_const_sym :: "kstate \<Rightarrow> symref \<Rightarrow> bool" where
  "is_const_sym st r \<longleftrightarrow> is_const (syms st) r"

definition sym_new :: "string option \<Rightarrow> nat \<Rightarrow> bool \<Rightarrow> kstate \<Rightarrow> symref \<times> kstate" where
  "sym_new nm h isconst st =
     (let r = SymPtr (next_sym st) in
      (r, st\<lparr>next_sym := Suc (next_sym st),
             syms := (syms st)(r := sym_init_val nm
               (if isconst then insert SYMBOL_NEW SYMBOL_CONST else {SYMBOL_NEW})),
             symbol_hash := (symbol_hash st)(h := r # symbol_hash st h)\<rparr>))"

definition sym_lookup :: "string option \<Rightarrow> bool \<Rightarrow> kstate \<Rightarrow> symref \<times> kstate" where
  "sym_lookup name isconst st =
     (case name of
        None \<Rightarrow> sym_new None 256 isconst st
      | Some nm \<Rightarrow>
         (case const_name nm of
            Some c \<Rightarrow> (c, st)
          | None \<Rightarrow>
             (case find (\<lambda>r. s_name (syms st r) = Some nm \<and> is_const_sym st r = isconst)
                     (symbol_hash st (sym_hash nm)) of
                Some r \<Rightarrow> (r, st)
              | None \<Rightarrow> sym_new (Some nm) (sym_hash nm) isconst st)))"

definition sym_find :: "string option \<Rightarrow> kstate \<Rightarrow> symref option" where
  "sym_find name st =
     (case name of
        None \<Rightarrow> None
      | Some nm \<Rightarrow>
         (case const_name nm of
            Some c \<Rightarrow> Some c
          | None \<Rightarrow> find (\<lambda>r. s_name (syms st r) = Some nm \<and> \<not> is_const_sym st r)
                      (symbol_hash st (sym_hash nm))))"

text \<open>
  The regular expression library is a parameter: \<open>regcomp\<close> compiles a pattern to a test of
  strings, or fails.
\<close>

definition sym_re_search ::
  "(string \<Rightarrow> (string \<Rightarrow> bool) option) \<Rightarrow> string \<Rightarrow> kstate \<Rightarrow> symref list option" where
  "sym_re_search regcomp pattern st =
     (if pattern = [] then None
      else case regcomp pattern of None \<Rightarrow> None
      | Some re \<Rightarrow>
         (let found = filter (\<lambda>r. \<not> is_const_sym st r \<and>
                (case s_name (syms st r) of None \<Rightarrow> False | Some nm \<Rightarrow> re nm)) (all_symbols st)
          in if found = [] then None else Some found))"

definition sym_add_default :: "symref \<Rightarrow> string \<Rightarrow> kstate \<Rightarrow> kstate" where
  "sym_add_default r def st =
     (let (p, st) = prop_alloc P_DEFAULT (Some r) st;
          (d, st) = sym_lookup (Some def) True st
      in upd_prop p (p_expr_update (\<lambda>_. Some (expr_alloc_symbol d))) st)"

definition init_env_sym :: "(string \<Rightarrow> string option) \<Rightarrow> string \<Rightarrow> kstate \<Rightarrow> kstate" where
  "init_env_sym getenv nm st =
     (let (r, st) = sym_lookup (Some nm) False st;
          st = upd_sym r (s_type_update (\<lambda>_. S_STRING)) st;
          st = set_flags r {SYMBOL_AUTO} st
      in case getenv nm of None \<Rightarrow> st | Some p \<Rightarrow> sym_add_default r p st)"

definition sym_init :: "(string \<Rightarrow> string option) \<Rightarrow> kstate \<Rightarrow> kstate" where
  "sym_init getenv st =
     (if sym_inited st then st
      else init_env_sym getenv ''TARGET_ARCH''
             (init_env_sym getenv ''VERSION'' (st\<lparr>sym_inited := True\<rparr>)))"

section \<open>Recursive dependencies\<close>

type_synonym checker = "symref \<Rightarrow> kstate \<Rightarrow> (symref option \<times> kstate) option"

fun check_expr :: "checker \<Rightarrow> expr \<Rightarrow> kstate \<Rightarrow> (symref option \<times> kstate) option" where
  "check_expr chk (EOr l r) st =
     do { (s, st) \<leftarrow> check_expr chk l st;
          if s \<noteq> None then Some (s, st) else check_expr chk r st }"
| "check_expr chk (EAnd l r) st =
     do { (s, st) \<leftarrow> check_expr chk l st;
          if s \<noteq> None then Some (s, st) else check_expr chk r st }"
| "check_expr chk (ENot l) st = check_expr chk l st"
| "check_expr chk (EEqual a b) st =
     do { (s, st) \<leftarrow> chk a st; if s \<noteq> None then Some (s, st) else chk b st }"
| "check_expr chk (EUnequal a b) st =
     do { (s, st) \<leftarrow> chk a st; if s \<noteq> None then Some (s, st) else chk b st }"
| "check_expr chk (ESymbol s) st = chk s st"
| "check_expr chk e st = Some (None, st)"

fun sym_check_expr_deps :: "checker \<Rightarrow> expr option \<Rightarrow> kstate \<Rightarrow> (symref option \<times> kstate) option" where
  "sym_check_expr_deps chk None st = Some (None, st)"
| "sym_check_expr_deps chk (Some e) st = check_expr chk e st"

fun check_props :: "checker \<Rightarrow> bool \<Rightarrow> nat list \<Rightarrow> kstate \<Rightarrow> (symref option \<times> kstate) option" where
  "check_props chk choice [] st = Some (None, st)"
| "check_props chk choice (p # ps) st =
     (if p_type (props st p) \<in> {P_CHOICE, P_SELECT} then check_props chk choice ps st
      else do {
        (s, st) \<leftarrow> sym_check_expr_deps chk (ev_expr (p_visible (props st p))) st;
        if s \<noteq> None then Some (s, st)
        else if p_type (props st p) \<noteq> P_DEFAULT \<or> choice then check_props chk choice ps st
        else do {
          (s, st) \<leftarrow> sym_check_expr_deps chk (p_expr (props st p)) st;
          if s \<noteq> None then Some (s, st) else check_props chk choice ps st } })"

definition check_body :: "checker \<Rightarrow> symref \<Rightarrow> kstate \<Rightarrow> (symref option \<times> kstate) option" where
  "check_body chk r st =
     do { let st = set_flags r {SYMBOL_CHECK, SYMBOL_CHECKED} st;
          (s, st) \<leftarrow> sym_check_expr_deps chk (ev_expr (s_rev_dep (syms st r))) st;
          (s, st) \<leftarrow> (if s \<noteq> None then Some (s, st)
                      else check_props chk (sym_is_choice st r) (s_prop (syms st r)) st);
          Some (s, clr_flags r {SYMBOL_CHECK} st) }"

fun sym_check_deps :: "nat \<Rightarrow> checker" where
  "sym_check_deps k r st =
     (if flag st r SYMBOL_CHECK_DONE then Some (None, st)
      else if flag st r SYMBOL_CHECK then Some (Some r, st)
      else case k of 0 \<Rightarrow> None | Suc j \<Rightarrow> check_body (sym_check_deps j) r st)"

declare sym_check_deps.simps [simp del]

end
