(* ===== verification/Kconfig_Eval.thy ===== *)
theory Kconfig_Eval
  imports Kconfig_Symbol
begin

text \<open>
  The evaluator of \<open>symbol.c\<close> and \<open>expr.c\<close>: what one evaluation may change (\<open>frame\<close>), that the
  value of an expression is the one \<open>expr_val\<close> gives in the table the evaluation leaves, that a
  boolean symbol never becomes \<open>m\<close>, and the bounds of a computed value. The interface between
  the two files is the locale \<open>evaluator\<close>: what an evaluator of symbols promises; everything
  that calls it is proved once inside, and \<open>sym_calc_value k\<close> is shown to be one.
\<close>

section \<open>What an evaluation may change\<close>

definition sym_static :: "symbol \<Rightarrow> symbol" where
  "sym_static s = s\<lparr>s_curr := undefined, s_visible := No,
     s_flags := s_flags s - {SYMBOL_VALID, SYMBOL_WRITE, SYMBOL_CHANGED},
     s_rev_dep := (s_rev_dep s)\<lparr>ev_tri := No\<rparr>\<rparr>"

definition prop_static :: "property \<Rightarrow> property" where
  "prop_static p = p\<lparr>p_visible := (p_visible p)\<lparr>ev_tri := No\<rparr>\<rparr>"

definition menu_static :: "menu \<Rightarrow> menu" where
  "menu_static m = m\<lparr>m_flags := m_flags m - {MENU_CHANGED}\<rparr>"

definition rest_static :: "kstate \<Rightarrow> kstate" where
  "rest_static st = st\<lparr>syms := undefined, props := undefined, menus := undefined, modules_val := No\<rparr>"

text \<open>The members of choices: what a choice may look at to find its value.\<close>

fun chain_syms :: "expr \<Rightarrow> symref set" where
  "chain_syms (EChoice l d) = insert d (case l of None \<Rightarrow> {} | Some e \<Rightarrow> chain_syms e)"
| "chain_syms (ESymbol d) = {d}"
| "chain_syms e = {}"

definition prop_members :: "property \<Rightarrow> symref set" where
  "prop_members p = (case p_expr p of None \<Rightarrow> {} | Some e \<Rightarrow> chain_syms e)"

definition members :: "kstate \<Rightarrow> symref set" where
  "members st = {d. \<exists>c. sym_is_choice st c \<and>
     (sv_val (s_user (syms st c)) = VSym d \<or>
      (\<exists>p \<in> set (s_prop (syms st c)). d \<in> prop_members (props st p)))}"

text \<open>
  \<open>X\<close> are the symbols being evaluated: only their value may change once they are marked valid.
  The visibility of a symbol that is in no choice changes only while it is evaluated itself.
  A boolean symbol that is not \<open>m\<close> does not become \<open>m\<close>.
\<close>

definition bool_safe :: "symbol \<Rightarrow> symbol \<Rightarrow> bool" where
  "bool_safe s s' \<longleftrightarrow>
     (s_type s = S_BOOLEAN \<and> sv_tri (s_curr s) \<noteq> Mod \<longrightarrow> sv_tri (s_curr s') \<noteq> Mod)"

definition frame :: "symref set \<Rightarrow> kstate \<Rightarrow> kstate \<Rightarrow> bool" where
  "frame X st st' \<longleftrightarrow>
     (\<forall>s. sym_static (syms st' s) = sym_static (syms st s)) \<and>
     (\<forall>s. flag st s SYMBOL_VALID \<longrightarrow> flag st' s SYMBOL_VALID) \<and>
     (\<forall>s. flag st s SYMBOL_VALID \<and> s \<notin> X \<longrightarrow> s_curr (syms st' s) = s_curr (syms st s)) \<and>
     (\<forall>s. flag st s SYMBOL_VALID \<and> s \<notin> X \<and> s \<notin> members st \<longrightarrow>
        s_visible (syms st' s) = s_visible (syms st s) \<and>
        s_rev_dep (syms st' s) = s_rev_dep (syms st s)) \<and>
     (\<forall>s. bool_safe (syms st s) (syms st' s)) \<and>
     (\<forall>p. prop_static (props st' p) = prop_static (props st p)) \<and>
     (\<forall>m. menu_static (menus st' m) = menu_static (menus st m)) \<and>
     rest_static st' = rest_static st"

lemma bool_safe_refl [simp]: "bool_safe s s"
  by (simp add: bool_safe_def)

lemma bool_safe_curr: "s_curr s' = s_curr s \<Longrightarrow> bool_safe s s'"
  by (simp add: bool_safe_def)

lemma frame_refl [simp, intro]: "frame X st st"
  by (simp add: frame_def)

lemma sym_static_fields:
  assumes "sym_static a = sym_static b"
  shows "s_name a = s_name b" "s_help a = s_help b" "s_type a = s_type b" "s_user a = s_user b"
    "s_prop a = s_prop b" "ev_expr (s_rev_dep a) = ev_expr (s_rev_dep b)"
    "s_flags a - {SYMBOL_VALID, SYMBOL_WRITE, SYMBOL_CHANGED} =
     s_flags b - {SYMBOL_VALID, SYMBOL_WRITE, SYMBOL_CHANGED}"
proof -
  have f: "s_name (sym_static c) = s_name c" "s_help (sym_static c) = s_help c"
    "s_type (sym_static c) = s_type c" "s_user (sym_static c) = s_user c"
    "s_prop (sym_static c) = s_prop c"
    "ev_expr (s_rev_dep (sym_static c)) = ev_expr (s_rev_dep c)"
    "s_flags (sym_static c) = s_flags c - {SYMBOL_VALID, SYMBOL_WRITE, SYMBOL_CHANGED}" for c
    by (simp_all add: sym_static_def)
  show "s_name a = s_name b" "s_help a = s_help b" "s_type a = s_type b" "s_user a = s_user b"
    "s_prop a = s_prop b" "ev_expr (s_rev_dep a) = ev_expr (s_rev_dep b)"
    "s_flags a - {SYMBOL_VALID, SYMBOL_WRITE, SYMBOL_CHANGED} =
     s_flags b - {SYMBOL_VALID, SYMBOL_WRITE, SYMBOL_CHANGED}"
    using assms f by metis+
qed

lemma prop_static_fields:
  assumes "prop_static a = prop_static b"
  shows "p_type a = p_type b" "p_text a = p_text b" "p_expr a = p_expr b" "p_menu a = p_menu b"
    "ev_expr (p_visible a) = ev_expr (p_visible b)"
proof -
  have f: "p_type (prop_static c) = p_type c" "p_text (prop_static c) = p_text c"
    "p_expr (prop_static c) = p_expr c" "p_menu (prop_static c) = p_menu c"
    "ev_expr (p_visible (prop_static c)) = ev_expr (p_visible c)" for c
    by (simp_all add: prop_static_def)
  show "p_type a = p_type b" "p_text a = p_text b" "p_expr a = p_expr b" "p_menu a = p_menu b"
    "ev_expr (p_visible a) = ev_expr (p_visible b)"
    using assms f by metis+
qed

lemma static_choice:
  assumes "\<And>s. sym_static (syms b s) = sym_static (syms a s)"
  shows "sym_is_choice b s = sym_is_choice a s" "sym_is_choice_value b s = sym_is_choice_value a s"
    "sym_has_value b s = sym_has_value a s"
  using sym_static_fields(7) [OF assms, of s]
  by (auto simp: sym_is_choice_def sym_is_choice_value_def sym_has_value_def)

lemma static_members:
  assumes "\<And>s. sym_static (syms b s) = sym_static (syms a s)"
    and "\<And>p. prop_static (props b p) = prop_static (props a p)"
  shows "members b = members a"
  using static_choice(1) [OF assms(1)] sym_static_fields(4,5) [OF assms(1)]
    prop_static_fields(3) [OF assms(2)]
  by (simp add: members_def prop_members_def)

lemma frame_members: "frame X a b \<Longrightarrow> members b = members a"
  by (rule static_members) (simp_all add: frame_def)

lemma frame_trans [trans]:
  assumes "frame X a b" "frame X b c"
  shows "frame X a c"
proof -
  have "bool_safe (syms a s) (syms c s)" for s
    using assms sym_static_fields(3) [of "syms b s" "syms a s"] by (auto simp: frame_def bool_safe_def)
  with assms frame_members [OF assms(1)] show ?thesis unfolding frame_def by metis
qed

lemma frame_mono: "frame X a b \<Longrightarrow> X \<subseteq> Y \<Longrightarrow> frame Y a b"
  unfolding frame_def by blast

lemma frame_weaken: "frame {} a b \<Longrightarrow> frame X a b"
  using frame_mono by blast

lemma frame_valid: "frame X a b \<Longrightarrow> flag a s SYMBOL_VALID \<Longrightarrow> flag b s SYMBOL_VALID"
  by (simp add: frame_def)

lemma frame_curr:
  "frame X a b \<Longrightarrow> flag a s SYMBOL_VALID \<Longrightarrow> s \<notin> X \<Longrightarrow> s_curr (syms b s) = s_curr (syms a s)"
  by (simp add: frame_def)

lemma frame_bool: "frame X a b \<Longrightarrow> s_type (syms a s) = S_BOOLEAN \<Longrightarrow>
    sv_tri (s_curr (syms a s)) \<noteq> Mod \<Longrightarrow> sv_tri (s_curr (syms b s)) \<noteq> Mod"
  by (simp add: frame_def bool_safe_def)

lemma frame_visible:
  "frame X a b \<Longrightarrow> flag a s SYMBOL_VALID \<Longrightarrow> s \<notin> X \<Longrightarrow> s \<notin> members a \<Longrightarrow>
     s_visible (syms b s) = s_visible (syms a s) \<and> s_rev_dep (syms b s) = s_rev_dep (syms a s)"
  by (simp add: frame_def)

lemma frame_sym:
  assumes "frame X a b"
  shows "s_name (syms b s) = s_name (syms a s)" "s_type (syms b s) = s_type (syms a s)"
    "s_user (syms b s) = s_user (syms a s)" "s_prop (syms b s) = s_prop (syms a s)"
    "ev_expr (s_rev_dep (syms b s)) = ev_expr (s_rev_dep (syms a s))"
    "f \<notin> {SYMBOL_VALID, SYMBOL_WRITE, SYMBOL_CHANGED} \<Longrightarrow>
       f \<in> s_flags (syms b s) \<longleftrightarrow> f \<in> s_flags (syms a s)"
  using sym_static_fields [of "syms b s" "syms a s"] assms by (auto simp: frame_def)

lemma frame_prop:
  assumes "frame X a b"
  shows "p_type (props b p) = p_type (props a p)" "p_text (props b p) = p_text (props a p)"
    "p_expr (props b p) = p_expr (props a p)" "p_menu (props b p) = p_menu (props a p)"
    "ev_expr (p_visible (props b p)) = ev_expr (p_visible (props a p))"
  using prop_static_fields [of "props b p" "props a p"] assms by (simp_all add: frame_def)

lemma frame_rest:
  assumes "frame X a b"
  shows "modules_sym b = modules_sym a" "symbol_hash b = symbol_hash a"
    "sym_change_count b = sym_change_count a" "next_sym b = next_sym a"
proof -
  have e: "rest_static b = rest_static a" using assms by (simp add: frame_def)
  from arg_cong [OF e, of modules_sym] arg_cong [OF e, of symbol_hash]
    arg_cong [OF e, of sym_change_count] arg_cong [OF e, of next_sym]
  show "modules_sym b = modules_sym a" "symbol_hash b = symbol_hash a"
    "sym_change_count b = sym_change_count a" "next_sym b = next_sym a"
    by (simp_all add: rest_static_def)
qed

lemmas frame_simps = frame_sym frame_prop frame_rest

lemma frame_choice:
  assumes "frame X a b"
  shows "sym_is_choice b s = sym_is_choice a s" "sym_is_choice_value b s = sym_is_choice_value a s"
    "sym_has_value b s = sym_has_value a s"
    "sym_get_choice_prop b s = sym_get_choice_prop a s" "prop_get_symbol b p = prop_get_symbol a p"
  using frame_sym [OF assms] frame_prop [OF assms]
  by (simp_all add: sym_is_choice_def sym_is_choice_value_def sym_has_value_def
      sym_get_choice_prop_def prop_get_symbol_def)

subsection \<open>The primitive updates\<close>

lemma upd_sym_simps [simp]:
  "syms (upd_sym r f st) s = (if s = r then f (syms st r) else syms st s)"
  "props (upd_sym r f st) = props st" "menus (upd_sym r f st) = menus st"
  "modules_sym (upd_sym r f st) = modules_sym st" "modules_val (upd_sym r f st) = modules_val st"
  "rest_static (upd_sym r f st) = rest_static st" "symbol_hash (upd_sym r f st) = symbol_hash st"
  by (simp_all add: upd_sym_def rest_static_def)

lemma upd_prop_simps [simp]:
  "props (upd_prop q f st) p = (if p = q then f (props st q) else props st p)"
  "syms (upd_prop q f st) = syms st" "menus (upd_prop q f st) = menus st"
  "modules_sym (upd_prop r f st) = modules_sym st" "modules_val (upd_prop r f st) = modules_val st"
  "rest_static (upd_prop q f st) = rest_static st" "symbol_hash (upd_prop q f st) = symbol_hash st"
  by (simp_all add: upd_prop_def rest_static_def)

lemma upd_menu_simps [simp]:
  "menus (upd_menu q f st) m = (if m = q then f (menus st q) else menus st m)"
  "syms (upd_menu q f st) = syms st" "props (upd_menu q f st) = props st"
  "modules_sym (upd_menu r f st) = modules_sym st" "modules_val (upd_menu r f st) = modules_val st"
  "rest_static (upd_menu q f st) = rest_static st" "symbol_hash (upd_menu q f st) = symbol_hash st"
  by (simp_all add: upd_menu_def rest_static_def)

lemma flag_upd [simp]:
  "flag (upd_prop q g st) s f = flag st s f" "flag (upd_menu m h st) s f = flag st s f"
  by (simp_all add: flag_def)

lemma flag_set [simp]: "flag (set_flags r F st) s f \<longleftrightarrow> flag st s f \<or> (s = r \<and> f \<in> F)"
  by (auto simp: flag_def set_flags_def)

lemma flag_clr [simp]: "flag (clr_flags r F st) s f \<longleftrightarrow> flag st s f \<and> \<not> (s = r \<and> f \<in> F)"
  by (auto simp: flag_def clr_flags_def)

lemma frame_upd_sym:
  assumes "sym_static (f (syms st r)) = sym_static (syms st r)"
    and "s_curr (f (syms st r)) = s_curr (syms st r)"
    and "r \<in> X \<union> members st \<or> s_visible (f (syms st r)) = s_visible (syms st r) \<and>
      s_rev_dep (f (syms st r)) = s_rev_dep (syms st r)"
    and "SYMBOL_VALID \<in> s_flags (syms st r) \<Longrightarrow> SYMBOL_VALID \<in> s_flags (f (syms st r))"
  shows "frame X st (upd_sym r f st)"
  using assms by (auto simp: frame_def flag_def bool_safe_def)

lemma frame_set_flags [intro]:
  assumes "F \<subseteq> {SYMBOL_VALID, SYMBOL_WRITE, SYMBOL_CHANGED}"
  shows "frame X st (set_flags r F st)"
  unfolding set_flags_def
proof (rule frame_upd_sym)
  have "Y \<union> F - {SYMBOL_VALID, SYMBOL_WRITE, SYMBOL_CHANGED} =
      Y - {SYMBOL_VALID, SYMBOL_WRITE, SYMBOL_CHANGED}" for Y
    using assms by blast
  then show "sym_static (s_flags_update (\<lambda>X. X \<union> F) (syms st r)) = sym_static (syms st r)"
    by (simp add: sym_static_def)
qed auto

lemma frame_write: "frame X st (set_flags r {SYMBOL_WRITE} st)"
  by (rule frame_set_flags) simp

lemma frame_clr_write [intro]: "frame X st (clr_flags r {SYMBOL_WRITE} st)"
  unfolding clr_flags_def
proof (rule frame_upd_sym)
  have "Y - {SYMBOL_WRITE} - {SYMBOL_VALID, SYMBOL_WRITE, SYMBOL_CHANGED} =
      Y - {SYMBOL_VALID, SYMBOL_WRITE, SYMBOL_CHANGED}" for Y
    by blast
  then show "sym_static (s_flags_update (\<lambda>X. X - {SYMBOL_WRITE}) (syms st r)) = sym_static (syms st r)"
    by (simp add: sym_static_def)
qed auto

lemma frame_curr_upd:
  "r \<in> X \<Longrightarrow> (s_type (syms st r) = S_BOOLEAN \<Longrightarrow> sv_tri (s_curr (syms st r)) \<noteq> Mod \<Longrightarrow>
       sv_tri (g (s_curr (syms st r))) \<noteq> Mod) \<Longrightarrow>
     frame X st (upd_sym r (s_curr_update g) st)"
  by (auto simp: frame_def sym_static_def flag_def bool_safe_def)

lemma frame_visible_upd: "r \<in> X \<union> members st \<Longrightarrow> frame X st (upd_sym r (s_visible_update g) st)"
  by (rule frame_upd_sym) (auto simp: sym_static_def)

lemma frame_rev_upd: "r \<in> X \<union> members st \<Longrightarrow> frame X st (upd_sym r (s_rev_dep_update (ev_tri_update g)) st)"
  by (rule frame_upd_sym) (auto simp: sym_static_def)

lemma frame_prop_upd: "frame X st (upd_prop p (p_visible_update (ev_tri_update g)) st)"
  by (auto simp: frame_def prop_static_def)

lemma frame_modules_val: "frame X st (st\<lparr>modules_val := v\<rparr>)"
  by (auto simp: frame_def rest_static_def flag_def)

lemma mark_menus_syms [simp]:
  "syms (mark_menus ps st) = syms st" "props (mark_menus ps st) = props st"
  "modules_sym (mark_menus ps st) = modules_sym st" "modules_val (mark_menus ps st) = modules_val st"
  by (induction ps arbitrary: st) (auto split: option.splits)

lemma frame_mark_menus: "frame X st (mark_menus ps st)"
proof (induction ps arbitrary: st)
  case (Cons p ps)
  have "frame X st (upd_menu m (m_flags_update (insert MENU_CHANGED)) st)" for m
    by (auto simp: frame_def menu_static_def)
  with Cons.IH show ?case by (auto split: option.splits intro: frame_trans)
qed simp

lemma frame_set_changed [intro]: "frame X st (sym_set_changed r st)"
  unfolding sym_set_changed_def Let_def
  by (rule frame_trans [OF frame_set_flags frame_mark_menus]) auto

lemma set_changed_syms:
  "syms (sym_set_changed r st) = syms (set_flags r {SYMBOL_CHANGED} st)"
  "props (sym_set_changed r st) = props st"
  "modules_sym (sym_set_changed r st) = modules_sym st" "modules_val (sym_set_changed r st) = modules_val st"
  by (simp_all add: sym_set_changed_def Let_def set_flags_def)

lemma frame_set_visible: "r \<in> X \<union> members st \<Longrightarrow> frame X st (set_visible r t st)"
  unfolding set_visible_def using frame_trans [OF frame_visible_upd frame_set_changed] by auto

lemma frame_set_rev_dep: "r \<in> X \<union> members st \<Longrightarrow> frame X st (set_rev_dep r t st)"
  unfolding set_rev_dep_def using frame_trans [OF frame_rev_upd frame_set_changed] by auto

lemma frame_curr_no: "frame {r} st (upd_sym r (s_curr_update (sv_tri_update (\<lambda>_. No))) st)"
  by (rule frame_curr_upd) auto

section \<open>Values depend on the symbols of the expression only\<close>

fun expr_syms :: "expr \<Rightarrow> symref set" where
  "expr_syms (EAnd l r) = expr_syms l \<union> expr_syms r"
| "expr_syms (EOr l r) = expr_syms l \<union> expr_syms r"
| "expr_syms (ENot l) = expr_syms l"
| "expr_syms (ESymbol s) = {s}"
| "expr_syms (EEqual a b) = {a, b}"
| "expr_syms (EUnequal a b) = {a, b}"
| "expr_syms e = {}"

lemma expr_contains_iff: "dep_wf e \<Longrightarrow> expr_contains_symbol (Some e) s \<longleftrightarrow> s \<in> expr_syms e"
  by (induction e) auto

lemma string_value_cong:
  "s_curr (T s) = s_curr (T' s) \<Longrightarrow> s_type (T s) = s_type (T' s) \<Longrightarrow>
     sym_get_string_value T s = sym_get_string_value T' s"
  by (cases "s_type (T' s)") (simp_all add: sym_get_string_value_def)

lemma expr_val_cong:
  "(\<And>s. s \<in> expr_syms e \<Longrightarrow> s_curr (T s) = s_curr (T' s) \<and> s_type (T s) = s_type (T' s)) \<Longrightarrow>
     expr_val T e = expr_val T' e"
proof (induction e)
  case (EEqual a b)
  then show ?case using string_value_cong [of T a T'] string_value_cong [of T b T'] by simp
next
  case (EUnequal a b)
  then show ?case using string_value_cong [of T a T'] string_value_cong [of T b T'] by simp
qed (auto simp: sym_tri_def)

lemma frame_expr_val:
  assumes "frame X st st'" "\<And>s. s \<in> expr_syms e \<Longrightarrow> flag st s SYMBOL_VALID \<and> s \<notin> X"
  shows "expr_val (syms st') e = expr_val (syms st) e"
  by (rule expr_val_cong) (use assms frame_curr [OF assms(1)] frame_sym [OF assms(1)] in auto)

section \<open>The interface of an evaluator\<close>

locale evaluator =
  fixes calc :: calc
  assumes calc_frame: "calc r st = Some st' \<Longrightarrow> frame {} st st'"
    and calc_valid: "calc r st = Some st' \<Longrightarrow> flag st' r SYMBOL_VALID"
begin

lemma calc_expr_correct:
  "calc_expr calc e st = Some (v, st') \<Longrightarrow>
     frame {} st st' \<and> v = expr_val (syms st') e \<and> (\<forall>s \<in> expr_syms e. flag st' s SYMBOL_VALID)"
proof (induction e arbitrary: v st st')
  case (EAnd l r)
  then obtain a st1 b where "calc_expr calc l st = Some (a, st1)" "calc_expr calc r st1 = Some (b, st')"
    "v = tri_and a b" by (auto simp: bind_Some_iff)
  note l = EAnd.IH(1) [OF this(1)] and r = EAnd.IH(2) [OF this(2)] and v = this(3)
  have "expr_val (syms st') l = expr_val (syms st1) l"
    by (rule frame_expr_val) (use l r in auto)
  with l r v show ?case by (auto intro: frame_trans dest: frame_valid)
next
  case (EOr l r)
  then obtain a st1 b where "calc_expr calc l st = Some (a, st1)" "calc_expr calc r st1 = Some (b, st')"
    "v = tri_or a b" by (auto simp: bind_Some_iff)
  note l = EOr.IH(1) [OF this(1)] and r = EOr.IH(2) [OF this(2)] and v = this(3)
  have "expr_val (syms st') l = expr_val (syms st1) l"
    by (rule frame_expr_val) (use l r in auto)
  with l r v show ?case by (auto intro: frame_trans dest: frame_valid)
next
  case (EEqual a b)
  then obtain st1 where "calc a st = Some st1" "calc b st1 = Some st'"
    by (auto simp: bind_Some_iff)
  then have "frame {} st st'" "flag st' a SYMBOL_VALID" "flag st' b SYMBOL_VALID"
    using calc_frame calc_valid frame_trans frame_valid by metis+
  with EEqual \<open>calc a st = Some st1\<close> \<open>calc b st1 = Some st'\<close> show ?case
    by (auto simp: bind_Some_iff)
next
  case (EUnequal a b)
  then obtain st1 where "calc a st = Some st1" "calc b st1 = Some st'"
    by (auto simp: bind_Some_iff)
  then have "frame {} st st'" "flag st' a SYMBOL_VALID" "flag st' b SYMBOL_VALID"
    using calc_frame calc_valid frame_trans frame_valid by metis+
  with EUnequal \<open>calc a st = Some st1\<close> \<open>calc b st1 = Some st'\<close> show ?case
    by (auto simp: bind_Some_iff)
qed (auto simp: bind_Some_iff sym_tri_def dest: calc_frame calc_valid)

lemma expr_calc_value_correct:
  "expr_calc_value calc e st = Some (v, st') \<Longrightarrow> frame {} st st' \<and> v = oexpr_val (syms st') e"
  by (cases e) (auto dest: calc_expr_correct)

lemma prop_calc_visible_frame:
  "prop_calc_visible calc p st = Some (t, st') \<Longrightarrow> frame {} st st'"
  unfolding prop_calc_visible_def
  by (auto simp: bind_Some_iff dest!: expr_calc_value_correct intro: frame_trans frame_prop_upd)

lemma first_visible_prop_frame:
  "first_visible_prop calc ty ps st = Some (p, st') \<Longrightarrow> frame {} st st'"
  by (induction ps arbitrary: st)
    (auto simp: bind_Some_iff split: if_splits intro: frame_trans dest!: prop_calc_visible_frame)

lemma calc_prompts_frame: "calc_prompts calc ps t st = Some (t', st') \<Longrightarrow> frame {} st st'"
  by (induction ps arbitrary: t st)
    (auto simp: bind_Some_iff split: if_splits intro: frame_trans dest!: prop_calc_visible_frame)

lemma calc_rev_dep_frame:
  assumes "calc_rev_dep calc r st = Some st'" "r \<in> X \<union> members st"
  shows "frame X st st'"
proof -
  from assms(1) obtain t u st1 where
    e: "(case ev_expr (s_rev_dep (syms st r)) of None \<Rightarrow> Some (No, st)
         | Some e \<Rightarrow> calc_expr calc e st) = Some (t, st1)" and st': "st' = set_rev_dep r u st1"
    by (auto simp: calc_rev_dep_def bind_Some_iff Let_def)
  have f: "frame X st st1"
    using e by (auto split: option.splits dest!: calc_expr_correct intro: frame_weaken)
  have "frame X st1 st'"
    unfolding st' using frame_members [OF f] assms(2) by (intro frame_set_rev_dep) auto
  with f show ?thesis by (rule frame_trans)
qed

lemma sym_calc_visibility_frame:
  assumes "sym_calc_visibility calc r st = Some st'" "r \<in> X \<union> members st"
  shows "frame X st st'"
proof -
  from assms(1) obtain t st1 u where p: "calc_prompts calc (s_prop (syms st r)) No st = Some (t, st1)"
    and rest: "(if sym_is_choice_value (set_visible r u st1) r then Some (set_visible r u st1)
      else calc_rev_dep calc r (set_visible r u st1)) = Some st'"
    by (auto simp: sym_calc_visibility_def bind_Some_iff Let_def)
  have f1: "frame X st st1" using calc_prompts_frame [OF p] frame_weaken by blast
  then have f2: "frame X st1 (set_visible r u st1)"
    using frame_members assms(2) by (intro frame_set_visible) auto
  have f3: "frame X st (set_visible r u st1)" using f1 f2 by (rule frame_trans)
  have r: "r \<in> X \<union> members (set_visible r u st1)" using frame_members [OF f3] assms(2) by simp
  have "frame X (set_visible r u st1) st'"
    using rest calc_rev_dep_frame [OF _ r] by (auto split: if_splits)
  then show ?thesis using f3 frame_trans by blast
qed

lemma try_choice_frame:
  "try_choice calc d st = Some (b, st') \<Longrightarrow> d \<in> members st \<Longrightarrow> frame {} st st'"
  by (auto simp: try_choice_def bind_Some_iff intro: sym_calc_visibility_frame)

lemma choice_defaults_frame:
  "choice_defaults calc ps st = Some (d, st') \<Longrightarrow>
     (\<And>p. p \<in> set ps \<Longrightarrow> prop_members (props st p) \<subseteq> members st) \<Longrightarrow> frame {} st st'"
proof (induction ps arbitrary: st)
  case (Cons p ps)
  have keep: "\<And>q. q \<in> set ps \<Longrightarrow> prop_members (props b q) \<subseteq> members b" if "frame {} st b" for b
    using Cons.prems(2) frame_members [OF that] frame_prop(3) [OF that] by (simp add: prop_members_def)
  show ?case
  proof (cases "p_type (props st p) = P_DEFAULT")
    case False
    with Cons show ?thesis by simp
  next
    case True
    with Cons.prems(1) obtain t st1 where v: "prop_calc_visible calc p st = Some (t, st1)"
      by (auto simp: bind_Some_iff)
    note f1 = prop_calc_visible_frame [OF v]
    show ?thesis
    proof (cases "t = No")
      case t: True
      with True Cons.prems(1) v have "choice_defaults calc ps st1 = Some (d, st')" by simp
      from Cons.IH [OF this keep [OF f1]] f1 show ?thesis by (blast intro: frame_trans)
    next
      case False
      with True Cons.prems(1) v obtain x b st2 where x: "prop_get_symbol st1 p = Some (Some x)"
        and tr: "try_choice calc x st1 = Some (b, st2)"
        and rest: "(if b then Some (Some x, st2) else choice_defaults calc ps st2) = Some (d, st')"
        by (auto simp: bind_Some_iff)
      have "x \<in> prop_members (props st1 p)"
        using x by (auto simp: prop_get_symbol_def prop_members_def split: option.splits expr.splits)
      then have "x \<in> members st1"
        using Cons.prems(2) [of p] frame_members [OF f1] frame_prop(3) [OF f1, of p]
        by (auto simp: prop_members_def)
      then have f2: "frame {} st st2"
        using try_choice_frame [OF tr] f1 by (blast intro: frame_trans)
      from rest Cons.IH [OF _ keep [OF f2]] f2 show ?thesis
        by (auto split: if_splits intro: frame_trans)
    qed
  qed
qed simp

lemma choice_chain_frame:
  "choice_chain calc e st = Some (d, st') \<Longrightarrow> chain_syms e \<subseteq> members st \<Longrightarrow> frame {} st st'"
proof (induction "size e" arbitrary: e st rule: less_induct)
  case less
  then obtain l c b st1 where e: "e = EChoice l c" and t: "try_choice calc c st = Some (b, st1)"
    by (cases e) (auto simp: bind_Some_iff)
  have f: "frame {} st st1" using try_choice_frame [OF t] less.prems(2) e by simp
  show ?case
  proof (cases "b \<or> l = None")
    case True
    with less.prems e t f show ?thesis by (auto split: if_splits)
  next
    case False
    then obtain x where x: "l = Some x" by auto
    with less.prems e t False have "choice_chain calc x st1 = Some (d, st')" by simp
    with less.hyps [of x st1] less.prems(2) e x f frame_members [OF f] show ?thesis
      by (auto intro: frame_trans)
  qed
qed

lemma choice_pick_frame:
  assumes "choice_pick calc r st = Some (d, st')" and c: "sym_is_choice st r"
  shows "frame {} st st'"
proof -
  from assms(1) obtain u st1 where u: "choice_user calc r st = Some (u, st1)"
    and rest: "(if u \<noteq> None then Some (u, st1)
          else do {
            (d, st) \<leftarrow> choice_defaults calc (s_prop (syms st1 r)) st1;
            if d \<noteq> None then Some (d, st) else choice_members calc r st }) = Some (d, st')"
    by (auto simp: choice_pick_def bind_Some_iff)
  have "sv_val (s_user (syms st r)) = VSym x \<Longrightarrow> x \<in> members st" for x
    using c by (auto simp: members_def)
  then have f1: "frame {} st st1"
    using u by (auto simp: choice_user_def bind_Some_iff split: cval.splits dest!: try_choice_frame)
  have mem: "p \<in> set (s_prop (syms b r)) \<Longrightarrow> prop_members (props b p) \<subseteq> members b"
    if "sym_is_choice b r" for b p
    using that by (auto simp: members_def)
  have ch: "sym_is_choice b r" if "frame {} st b" for b
    using frame_choice(1) [OF that] c by simp
  have m: "frame {} st2 st'" if "choice_members calc r st2 = Some (d, st')" "frame {} st st2" for st2
  proof -
    from that(1) obtain p where p: "sym_get_choice_prop st2 r = Some p"
      and e: "(case p_expr (props st2 p) of None \<Rightarrow> Some (None, st2)
        | Some e \<Rightarrow> choice_chain calc e st2) = Some (d, st')"
      by (auto simp: choice_members_def bind_Some_iff)
    have "p \<in> set (s_prop (syms st2 r))"
      using p by (auto simp: sym_get_choice_prop_def find_Some_iff)
    then have "prop_members (props st2 p) \<subseteq> members st2" using mem ch that(2) by blast
    with e show ?thesis
      by (auto simp: prop_members_def split: option.splits dest: choice_chain_frame)
  qed
  show ?thesis
  proof (cases u)
    case Some
    with rest f1 show ?thesis by simp
  next
    case None
    with rest obtain d2 st2 where d2: "choice_defaults calc (s_prop (syms st1 r)) st1 = Some (d2, st2)"
      and r2: "(if d2 \<noteq> None then Some (d2, st2) else choice_members calc r st2) = Some (d, st')"
      by (auto simp: bind_Some_iff)
    have "frame {} st1 st2" by (rule choice_defaults_frame [OF d2 mem [OF ch [OF f1]]])
    then have f2: "frame {} st st2" using f1 frame_trans by blast
    show ?thesis using r2 m [OF _ f2] f2 by (auto split: if_splits intro: frame_trans)
  qed
qed

lemma sym_calc_choice_props:
  assumes c: "sym_calc_choice calc r st = Some (d, st')" and v: "flag st r SYMBOL_VALID"
    and ch: "sym_is_choice st r"
  shows "frame {r} st st'" "sv_tri (s_curr (syms st' r)) \<in> {sv_tri (s_curr (syms st r)), No}"
proof -
  from c obtain st1 where p: "choice_pick calc r st = Some (d, st1)"
    and st': "st' = (if d \<noteq> None then st1
                     else upd_sym r (s_curr_update (sv_tri_update (\<lambda>_. No))) st1)"
    by (auto simp: sym_calc_choice_def bind_Some_iff)
  note f = choice_pick_frame [OF p ch]
  have "frame {r} st1 st'" unfolding st' using frame_curr_no by auto
  then show "frame {r} st st'" using frame_weaken [OF f] frame_trans by blast
  show "sv_tri (s_curr (syms st' r)) \<in> {sv_tri (s_curr (syms st r)), No}"
    using frame_curr [OF f v] st' by auto
qed

lemma calc_default_frame:
  assumes "calc_default calc pre r t st = Some (t', st')" and "\<And>st. frame {} st (pre st)"
  shows "frame {} st st'"
  using assms(1)
  by (auto simp: calc_default_def sym_get_default_prop_def bind_Some_iff split: option.splits
      dest!: first_visible_prop_frame expr_calc_value_correct)
    (meson assms(2) frame_trans)

lemma calc_bool_frame: "calc_bool calc r t st = Some (t', st') \<Longrightarrow> frame {} st st'"
  by (auto simp: calc_bool_def bind_Some_iff Let_def split: if_splits
      dest!: calc_default_frame) (meson frame_trans frame_write frame_refl)+

lemma calc_string_frame: "calc_string calc r v st = Some (v', st') \<Longrightarrow> frame {} st st'"
  by (auto simp: calc_string_def sym_get_default_prop_def bind_Some_iff Let_def
      split: if_splits option.splits dest!: first_visible_prop_frame calc_frame)
    (meson frame_trans frame_write)+

end

lemma chain_flags_frame:
  "F \<subseteq> {SYMBOL_CHANGED, SYMBOL_WRITE} \<Longrightarrow> chain_flags F e st = Some st' \<Longrightarrow> frame X st st'"
proof (induction F e st rule: chain_flags.induct)
  case (1 F l d st)
  have a: "frame X st (set_flags d F st)" using 1(2) by (intro frame_set_flags) blast
  have b: "frame X st (sym_set_changed d (set_flags d F st))"
    by (rule frame_trans [OF a frame_set_changed])
  show ?case
  proof (cases l)
    case None
    with 1(3) a b show ?thesis by (auto simp: Let_def)
  next
    case (Some e)
    with 1(1) [OF refl refl Some 1(2)] 1(3) a b show ?thesis
      by (auto simp: Let_def intro: frame_trans split: if_splits)
  qed
qed auto

lemma chain_flags_curr:
  "chain_flags F e st = Some st' \<Longrightarrow> s_curr (syms st' s) = s_curr (syms st s)"
proof (induction F e st rule: chain_flags.induct)
  case (1 F l d st)
  show ?case
  proof (cases l)
    case None
    with 1(2) show ?thesis by (auto simp: Let_def set_changed_syms set_flags_def)
  next
    case (Some e)
    with 1 show ?thesis by (auto simp: Let_def set_changed_syms set_flags_def split: if_splits)
  qed
qed auto

context evaluator
begin

text \<open>Storing the new value: what the code does after it has computed it.\<close>

lemma calc_finish_props:
  assumes f: "calc_finish calc r oldval newval st = Some st'" and v: "flag st r SYMBOL_VALID"
    and b: "s_type (syms st r) = S_BOOLEAN \<Longrightarrow> sv_tri newval \<noteq> Mod"
  shows "frame {r} st st'" "sv_tri (s_curr (syms st' r)) \<in> {sv_tri newval, No}"
    "\<not> sym_is_choice st r \<Longrightarrow> s_curr (syms st' r) = newval \<and>
       s_visible (syms st' r) = s_visible (syms st r) \<and> s_rev_dep (syms st' r) = s_rev_dep (syms st r) \<and>
       modules_val st' = (if modules_sym st = Some r then sv_tri newval else modules_val st)"
proof -
  let ?st0 = "upd_sym r (s_curr_update (\<lambda>_. newval)) st"
  from f obtain st1 where
    c: "(if sym_is_choice ?st0 r \<and> sv_tri newval = Yes then
           do { (d, st) \<leftarrow> sym_calc_choice calc r ?st0;
                Some (upd_sym r (s_curr_update (sv_val_update
                   (\<lambda>_. case d of None \<Rightarrow> VNull | Some d \<Rightarrow> VSym d))) st) }
         else Some ?st0) = Some st1"
    and rest: "(let st = (if s_curr (syms st1 r) \<noteq> oldval then sym_set_changed r st1 else st1);
          st = (if modules_sym st = Some r
                    then st\<lparr>modules_val := sv_tri (s_curr (syms st r))\<rparr> else st) in
          if sym_is_choice st r then
            do { let F = s_flags (syms st r) \<inter> {SYMBOL_CHANGED, SYMBOL_WRITE};
                 p \<leftarrow> sym_get_choice_prop st r;
                 (case p_expr (props st p) of None \<Rightarrow> Some st | Some e \<Rightarrow> chain_flags F e st) }
          else Some st) = Some st'"
    by (auto simp: calc_finish_def bind_Some_iff Let_def)
  have f0: "frame {r} st ?st0" using b by (intro frame_curr_upd) auto
  have cf: "sv_tri (s_curr (syms st1 r)) \<in> {sv_tri newval, No} \<and> frame {r} ?st0 st1 \<and>
      (\<not> sym_is_choice st r \<longrightarrow> st1 = ?st0)"
  proof (cases "sym_is_choice ?st0 r \<and> sv_tri newval = Yes")
    case False
    with c show ?thesis by (auto simp: sym_is_choice_def)
  next
    case True
    with c obtain d st2 where d: "sym_calc_choice calc r ?st0 = Some (d, st2)"
      and st1: "st1 = upd_sym r (s_curr_update (sv_val_update
          (\<lambda>_. case d of None \<Rightarrow> VNull | Some d \<Rightarrow> VSym d))) st2" by (auto simp: bind_Some_iff)
    have v0: "flag ?st0 r SYMBOL_VALID" using v by (simp add: flag_def)
    have ch: "sym_is_choice ?st0 r" using True by simp
    have "frame {r} ?st0 st2" by (rule sym_calc_choice_props [OF d v0 ch])
    moreover have "frame {r} st2 st1" unfolding st1 by (rule frame_curr_upd) auto
    moreover have "sv_tri (s_curr (syms st2 r)) \<in> {sv_tri newval, No}"
      using sym_calc_choice_props(2) [OF d v0 ch] by simp
    ultimately show ?thesis using True st1 by (auto intro: frame_trans simp: sym_is_choice_def)
  qed
  let ?a = "if s_curr (syms st1 r) \<noteq> oldval then sym_set_changed r st1 else st1"
  let ?b = "if modules_sym ?a = Some r then ?a\<lparr>modules_val := sv_tri (s_curr (syms ?a r))\<rparr> else ?a"
  have ab: "frame {r} st1 ?a" "frame {r} ?a ?b" by (auto intro: frame_modules_val)
  have rest': "frame {r} ?b st' \<and> (\<forall>s. s_curr (syms st' s) = s_curr (syms ?b s)) \<and>
      (\<not> sym_is_choice ?b r \<longrightarrow> st' = ?b)"
  proof (cases "sym_is_choice ?b r")
    case False
    with rest show ?thesis by (simp add: Let_def)
  next
    case True
    with rest obtain p where "(case p_expr (props ?b p) of None \<Rightarrow> Some ?b
        | Some e \<Rightarrow> chain_flags (s_flags (syms ?b r) \<inter> {SYMBOL_CHANGED, SYMBOL_WRITE}) e ?b) = Some st'"
      by (auto simp: Let_def bind_Some_iff)
    with True show ?thesis
      using chain_flags_frame [of "s_flags (syms ?b r) \<inter> {SYMBOL_CHANGED, SYMBOL_WRITE}" _ ?b st' "{r}"]
        chain_flags_curr by (cases "p_expr (props ?b p)") auto
  qed
  have curr: "s_curr (syms ?b r) = s_curr (syms st1 r)" by (simp add: set_changed_syms set_flags_def)
  show "frame {r} st st'"
    using f0 cf ab rest' by (blast intro: frame_trans)
  show "sv_tri (s_curr (syms st' r)) \<in> {sv_tri newval, No}"
    using cf rest' curr by simp
  assume n: "\<not> sym_is_choice st r"
  then have "st1 = ?st0" using cf by simp
  moreover have "\<not> sym_is_choice ?b r"
    using n \<open>st1 = ?st0\<close> by (simp add: sym_is_choice_def set_changed_syms set_flags_def)
  then have "st' = ?b" using rest' by simp
  ultimately show "s_curr (syms st' r) = newval \<and>
       s_visible (syms st' r) = s_visible (syms st r) \<and> s_rev_dep (syms st' r) = s_rev_dep (syms st r) \<and>
       modules_val st' = (if modules_sym st = Some r then sv_tri newval else modules_val st)"
    by (simp add: set_changed_syms set_flags_def)
qed

lemma sym_get_type_boolean: "s_type (syms st r) = S_BOOLEAN \<Longrightarrow> sym_get_type st r = S_BOOLEAN"
  by (simp add: sym_get_type_def)

lemma calc_bool_safe:
  "calc_bool calc r t st = Some (tri, st') \<Longrightarrow> s_type (syms st' r) = S_BOOLEAN \<Longrightarrow> tri \<noteq> Mod"
  using sym_get_type_boolean by (auto simp: calc_bool_def bind_Some_iff split: if_splits)

end

text \<open>The promotion of \<open>m\<close> for what is boolean where it is evaluated.\<close>

definition promote :: "kstate \<Rightarrow> symref \<Rightarrow> tristate \<Rightarrow> tristate" where
  "promote st r t = (if t = Mod \<and> sym_get_type st r = S_BOOLEAN then Yes else t)"

context evaluator
begin

text \<open>
  The value of a boolean or tristate symbol: the user's value, or the default, limited by the
  visibility, and at least what other symbols select. When nothing makes the symbol visible or
  selects it, the default alone decides.
\<close>

lemma calc_bool_spec:
  assumes c: "calc_bool calc r t st = Some (tri, st')" and v: "flag st r SYMBOL_VALID"
    and m: "r \<notin> members st" and cv: "\<not> sym_is_choice_value st r"
  shows "s_visible (syms st' r) = s_visible (syms st r)" "s_rev_dep (syms st' r) = s_rev_dep (syms st r)"
    "tri_or (s_visible (syms st r)) (ev_tri (s_rev_dep (syms st r))) \<noteq> No \<Longrightarrow>
       \<exists>u. tri = promote st' r (tri_or (tri_and u (s_visible (syms st r))) (ev_tri (s_rev_dep (syms st r)))) \<and>
         (sym_has_value st r \<longrightarrow> u = sv_tri (s_user (syms st r)))"
proof -
  note f = calc_bool_frame [OF c]
  show "s_visible (syms st' r) = s_visible (syms st r)" "s_rev_dep (syms st' r) = s_rev_dep (syms st r)"
    using frame_visible [OF f v _ m] by auto
  assume vis: "tri_or (s_visible (syms st r)) (ev_tri (s_rev_dep (syms st r))) \<noteq> No"
  let ?w = "set_flags r {SYMBOL_WRITE} st"
  from c cv vis obtain u where
    u: "(if sym_has_value ?w r then Some (sv_tri (s_user (syms ?w r)), ?w)
        else if \<not> sym_is_choice ?w r then calc_default calc id r t ?w else Some (t, ?w)) = Some (u, st')"
    and tri: "tri = promote st' r (tri_or (tri_and u (s_visible (syms st' r))) (ev_tri (s_rev_dep (syms st' r))))"
    by (auto simp: calc_bool_def bind_Some_iff Let_def promote_def)
  have "sym_has_value ?w r = sym_has_value st r" "s_user (syms ?w r) = s_user (syms st r)"
    by (auto simp: sym_has_value_def set_flags_def)
  with u have "sym_has_value st r \<longrightarrow> u = sv_tri (s_user (syms st r))"
    by (auto split: if_splits)
  with tri show "\<exists>u. tri = promote st' r (tri_or (tri_and u (s_visible (syms st r))) (ev_tri (s_rev_dep (syms st r)))) \<and>
         (sym_has_value st r \<longrightarrow> u = sv_tri (s_user (syms st r)))"
    using frame_visible [OF f v _ m] by auto
qed

lemma frame_drop: "frame {r} st st' \<Longrightarrow> \<not> flag st r SYMBOL_VALID \<Longrightarrow> frame {} st st'"
  unfolding frame_def by blast

text \<open>The stages of \<open>sym_calc_value\<close> for a symbol that has a value to compute.\<close>

lemma calc_body_cases:
  assumes b: "calc_body calc r st = Some st'"
  obtains (other) "s_type (syms st r) \<notin> {S_INT, S_HEX, S_STRING, S_BOOLEAN, S_TRISTATE}"
      "st' = upd_sym r (s_curr_update (\<lambda>_.
         \<lparr>sv_val = (case s_name (syms st r) of None \<Rightarrow> VNull | Some nm \<Rightarrow> VStr (AName r) nm),
          sv_tri = No\<rparr>)) (set_flags r {SYMBOL_VALID} st)"
  | (computed) st1 newval where
      "s_type (syms st r) \<in> {S_INT, S_HEX, S_STRING, S_BOOLEAN, S_TRISTATE}"
      "frame {r} (set_flags r {SYMBOL_VALID} st) st1" "sv_tri newval = No"
      "calc_new calc r (s_curr (syms st r)) newval st1 = Some st'"
proof (cases "s_type (syms st r) \<in> {S_INT, S_HEX, S_STRING, S_BOOLEAN, S_TRISTATE}")
  case False
  show thesis
    by (rule other) (use b False in \<open>auto simp: calc_body_def set_flags_def\<close>)
next
  case True
  let ?st0 = "set_flags r {SYMBOL_VALID} st"
  let ?c = "if \<not> sym_is_choice_value ?st0 r then clr_flags r {SYMBOL_WRITE} ?st0 else ?st0"
  let ?n = "if s_type (syms st r) \<in> {S_BOOLEAN, S_TRISTATE} then no_curr else empty_curr"
  have ty: "s_type (syms ?st0 r) = s_type (syms st r)" "s_curr (syms ?st0 r) = s_curr (syms st r)"
    by (simp_all add: set_flags_def)
  from b True obtain st1 where v: "sym_calc_visibility calc r ?c = Some st1"
    and rest: "calc_new calc r (s_curr (syms st r)) ?n st1 = Some st'"
    unfolding calc_body_def Let_def ty by (auto simp: bind_Some_iff)
  have "frame {r} ?st0 ?c" using frame_clr_write by auto
  moreover have "frame {r} ?c st1" by (rule sym_calc_visibility_frame [OF v]) simp
  ultimately have "frame {r} ?st0 st1" by (rule frame_trans)
  then show thesis
    by (rule computed [OF True _ _ rest]) (simp add: no_curr_def empty_curr_def)
qed

lemma calc_new_cases:
  assumes b: "calc_new calc r oldval newval st = Some st'"
  obtains (bool) tri st2 where
      "sym_get_type (upd_sym r (s_curr_update (\<lambda>_. newval)) st) r \<in> {S_BOOLEAN, S_TRISTATE}"
      "calc_bool calc r (sv_tri newval) (upd_sym r (s_curr_update (\<lambda>_. newval)) st) = Some (tri, st2)"
      "calc_finish calc r oldval (newval\<lparr>sv_tri := tri\<rparr>) st2 = Some st'"
  | (string) v st2 where
      "sym_get_type (upd_sym r (s_curr_update (\<lambda>_. newval)) st) r \<notin> {S_BOOLEAN, S_TRISTATE}"
      "calc_string calc r (sv_val newval) (upd_sym r (s_curr_update (\<lambda>_. newval)) st) = Some (v, st2)"
      "calc_finish calc r oldval (newval\<lparr>sv_val := v\<rparr>) st2 = Some st'"
  using b by (auto simp: calc_new_def bind_Some_iff Let_def split: if_splits)

lemma calc_new_frame:
  assumes n: "calc_new calc r oldval newval st = Some st'" and v: "flag st r SYMBOL_VALID"
    and no: "sv_tri newval = No"
  shows "frame {r} st st'" "s_type (syms st r) = S_BOOLEAN \<Longrightarrow> sv_tri (s_curr (syms st' r)) \<noteq> Mod"
proof -
  let ?st1 = "upd_sym r (s_curr_update (\<lambda>_. newval)) st"
  have f1: "frame {r} st ?st1" using no by (intro frame_curr_upd) auto
  have v1: "flag ?st1 r SYMBOL_VALID" using v by (simp add: flag_def)
  have "frame {r} st st' \<and> (s_type (syms st r) = S_BOOLEAN \<longrightarrow> sv_tri (s_curr (syms st' r)) \<noteq> Mod)"
    using n
  proof (cases rule: calc_new_cases)
    case (bool tri st2)
    have f2: "frame {r} ?st1 st2" using calc_bool_frame [OF bool(2)] frame_weaken by blast
    then have f12: "frame {r} st st2" using f1 frame_trans by blast
    have v2: "flag st2 r SYMBOL_VALID" using frame_valid [OF f2 v1] .
    have safe: "s_type (syms st2 r) = S_BOOLEAN \<Longrightarrow> tri \<noteq> Mod" using calc_bool_safe [OF bool(2)] .
    note fin = calc_finish_props [OF bool(3) v2]
    show ?thesis using fin(1,2) safe f12 frame_sym(2) [OF f12, of r] by (auto intro: frame_trans)
  next
    case (string v st2)
    have f2: "frame {r} ?st1 st2" using calc_string_frame [OF string(2)] frame_weaken by blast
    then have f12: "frame {r} st st2" using f1 frame_trans by blast
    have v2: "flag st2 r SYMBOL_VALID" using frame_valid [OF f2 v1] .
    note fin = calc_finish_props [OF string(3) v2]
    show ?thesis using fin(1,2) no f12 by (auto intro: frame_trans)
  qed
  then show "frame {r} st st'"
    "s_type (syms st r) = S_BOOLEAN \<Longrightarrow> sv_tri (s_curr (syms st' r)) \<noteq> Mod" by auto
qed

lemma calc_body_props:
  assumes b: "calc_body calc r st = Some st'" and v: "\<not> flag st r SYMBOL_VALID"
  shows "frame {} st st'" "flag st' r SYMBOL_VALID"
    "s_type (syms st r) = S_BOOLEAN \<Longrightarrow> sv_tri (s_curr (syms st' r)) \<noteq> Mod"
proof -
  let ?st0 = "set_flags r {SYMBOL_VALID} st"
  have f0: "frame {r} st ?st0" by (rule frame_set_flags) simp
  have "frame {r} ?st0 st' \<and> (s_type (syms st r) = S_BOOLEAN \<longrightarrow> sv_tri (s_curr (syms st' r)) \<noteq> Mod)"
    using b
  proof (cases rule: calc_body_cases)
    case other
    then show ?thesis by (auto intro: frame_curr_upd)
  next
    case (computed st1 newval)
    have "flag st1 r SYMBOL_VALID" by (rule frame_valid [OF computed(2)]) simp
    note n = calc_new_frame [OF computed(4) this computed(3)]
    have "s_type (syms st1 r) = s_type (syms st r)"
      using frame_sym(2) [OF frame_trans [OF f0 computed(2)]] .
    with n computed(2) show ?thesis by (auto intro: frame_trans)
  qed
  then have f: "frame {r} ?st0 st'" and
    s: "s_type (syms st r) = S_BOOLEAN \<Longrightarrow> sv_tri (s_curr (syms st' r)) \<noteq> Mod" by auto
  show "frame {} st st'" using frame_drop [OF frame_trans [OF f0 f] v] .
  show "flag st' r SYMBOL_VALID" by (rule frame_valid [OF f]) simp
  show "s_type (syms st r) = S_BOOLEAN \<Longrightarrow> sv_tri (s_curr (syms st' r)) \<noteq> Mod" by (rule s)
qed

text \<open>
  The value of a symbol in no choice, in the table the evaluation leaves: between what selects it
  and what it depends on, and the user's value when there is one.
\<close>

lemma calc_body_value:
  assumes b: "calc_body calc r st = Some st'"
    and ty: "s_type (syms st r) \<in> {S_BOOLEAN, S_TRISTATE}" and m: "r \<notin> members st"
    and cv: "\<not> sym_is_choice_value st r" and ch: "\<not> sym_is_choice st r" and ms: "modules_sym st \<noteq> Some r"
    and vis: "tri_or (s_visible (syms st' r)) (ev_tri (s_rev_dep (syms st' r))) \<noteq> No"
  shows "\<exists>u. sym_tri (syms st') r = promote st' r
           (tri_or (tri_and u (s_visible (syms st' r))) (ev_tri (s_rev_dep (syms st' r)))) \<and>
         (sym_has_value st r \<longrightarrow> u = sv_tri (s_user (syms st r)))"
  using b
proof (cases rule: calc_body_cases)
  case other
  with ty show ?thesis by auto
next
  case (computed st1 newval)
  let ?st0 = "set_flags r {SYMBOL_VALID} st"
  let ?st2 = "upd_sym r (s_curr_update (\<lambda>_. newval)) st1"
  have f0: "frame {r} st ?st0" by (rule frame_set_flags) simp
  have "flag st1 r SYMBOL_VALID" by (rule frame_valid [OF computed(2)]) simp
  then have v2: "flag ?st2 r SYMBOL_VALID" by (simp add: flag_def)
  have "frame {r} st1 ?st2" using computed(3) by (intro frame_curr_upd) auto
  then have f2: "frame {r} st ?st2" using f0 computed(2) frame_trans by blast
  have "sym_get_type ?st2 r \<in> {S_BOOLEAN, S_TRISTATE}"
    using ty frame_sym(2) [OF f2, of r] by (auto simp: sym_get_type_def Let_def)
  with computed(4) obtain tri st3 where
    c: "calc_bool calc r No ?st2 = Some (tri, st3)"
    and fin: "calc_finish calc r (s_curr (syms st r)) (newval\<lparr>sv_tri := tri\<rparr>) st3 = Some st'"
    using computed(3) by (cases rule: calc_new_cases) auto
  have m2: "r \<notin> members ?st2" using m frame_members [OF f2] by simp
  have cv2: "\<not> sym_is_choice_value ?st2 r" using cv frame_choice [OF f2] by simp
  note sp = calc_bool_spec [OF c v2 m2 cv2]
  have f3: "frame {r} st st3" using f2 frame_weaken [OF calc_bool_frame [OF c]] frame_trans by blast
  have v3: "flag st3 r SYMBOL_VALID" using frame_valid [OF calc_bool_frame [OF c] v2] .
  have ch3: "\<not> sym_is_choice st3 r" using ch frame_choice [OF f3] by simp
  have safe: "s_type (syms st3 r) = S_BOOLEAN \<Longrightarrow> tri \<noteq> Mod" using calc_bool_safe [OF c] .
  have fin': "s_curr (syms st' r) = newval\<lparr>sv_tri := tri\<rparr> \<and>
       s_visible (syms st' r) = s_visible (syms st3 r) \<and> s_rev_dep (syms st' r) = s_rev_dep (syms st3 r) \<and>
       modules_val st' = modules_val st3" and f4: "frame {r} st3 st'"
    using calc_finish_props(1,3) [OF fin v3 _] safe ch3 ms frame_rest(1) [OF f3] by auto
  have gt: "sym_get_type st' r = sym_get_type st3 r"
    using fin' frame_sym(2) [OF f4, of r] frame_choice(2) [OF f4, of r]
    by (simp add: sym_get_type_def Let_def)
  have "sym_has_value ?st2 r = sym_has_value st r" "s_user (syms ?st2 r) = s_user (syms st r)"
    using frame_choice(3) [OF f2, of r] frame_sym(3) [OF f2, of r] by auto
  with sp fin' vis gt show ?thesis by (auto simp: sym_tri_def promote_def)
qed

end

section \<open>The code's evaluator\<close>

interpretation calc: evaluator "sym_calc_value k" for k
proof (induction k rule: nat_less_induct)
  case (1 k)
  show ?case
  proof
    fix r st st'
    assume c: "sym_calc_value k r st = Some st'"
    have "frame {} st st' \<and> flag st' r SYMBOL_VALID"
    proof (cases "flag st r SYMBOL_VALID")
      case True
      with c show ?thesis by (simp add: sym_calc_value.simps)
    next
      case False
      with c obtain j where j: "k = Suc j" "calc_body (sym_calc_value j) r st = Some st'"
        by (auto simp: sym_calc_value.simps split: nat.splits)
      then have ev: "evaluator (sym_calc_value j)" using 1 by auto
      show ?thesis using evaluator.calc_body_props(1,2) [OF ev j(2) False] by simp
    qed
    then show "frame {} st st'" "flag st' r SYMBOL_VALID" by auto
  qed
qed

section \<open>The depth of the recursion\<close>

text \<open>
  Every call that goes deeper marks one more symbol valid, so as many levels as there are symbols
  that are not valid are enough: a larger bound gives the same result.
\<close>

definition invalid :: "kstate \<Rightarrow> symref set" where
  "invalid st = {s. \<not> flag st s SYMBOL_VALID}"

definition depth_le :: "nat \<Rightarrow> kstate \<Rightarrow> bool" where
  "depth_le n st \<longleftrightarrow> finite (invalid st) \<and> card (invalid st) \<le> n"

lemma frame_depth: "frame X st st' \<Longrightarrow> depth_le n st \<Longrightarrow> depth_le n st'"
proof -
  assume f: "frame X st st'" and d: "depth_le n st"
  have sub: "invalid st' \<subseteq> invalid st" using frame_valid [OF f] by (auto simp: invalid_def)
  with d have "card (invalid st') \<le> card (invalid st)" by (simp add: card_mono depth_le_def)
  with d sub show ?thesis by (auto simp: depth_le_def intro: finite_subset)
qed

lemma depth_set_valid:
  assumes "depth_le (Suc n) st" "\<not> flag st r SYMBOL_VALID"
  shows "depth_le n (set_flags r {SYMBOL_VALID} st)"
proof -
  have e: "invalid (set_flags r {SYMBOL_VALID} st) = invalid st - {r}"
    unfolding invalid_def flag_set by blast
  have r: "r \<in> invalid st" using assms(2) by (simp add: invalid_def)
  have "finite (invalid st)" "card (invalid st) \<le> Suc n" using assms(1) by (simp_all add: depth_le_def)
  then show ?thesis unfolding depth_le_def e using r by (simp add: card_Diff_singleton)
qed

lemma depth_curr: "depth_le n (upd_sym r (s_curr_update f) st) = depth_le n st"
proof -
  have "flag (upd_sym r (s_curr_update f) st) s SYMBOL_VALID = flag st s SYMBOL_VALID" for s
    by (simp add: flag_def)
  then show ?thesis by (simp add: depth_le_def invalid_def)
qed

definition agree :: "nat \<Rightarrow> calc \<Rightarrow> calc \<Rightarrow> bool" where
  "agree n calc calc' \<longleftrightarrow> (\<forall>r st. depth_le n st \<longrightarrow> calc r st = calc' r st)"

lemma bind_pair_cong:
  "m = m' \<Longrightarrow> (\<And>x y. m' = Some (x, y) \<Longrightarrow> f x y = g x y) \<Longrightarrow>
     Option.bind m (\<lambda>(x, y). f x y) = Option.bind m' (\<lambda>(x, y). g x y)"
  by (cases m') auto

locale evaluators = evaluator calc for calc :: calc +
  fixes calc' :: calc and n :: nat
  assumes agree: "agree n calc' calc"
begin

lemma calc_depth: "calc r st = Some st' \<Longrightarrow> depth_le n st \<Longrightarrow> depth_le n st'"
  by (rule frame_depth [OF calc_frame])

lemma calc_expr_depth: "calc_expr calc e st = Some (t, st') \<Longrightarrow> depth_le n st \<Longrightarrow> depth_le n st'"
  using calc_expr_correct frame_depth by blast

lemma prop_depth: "prop_calc_visible calc p st = Some (t, st') \<Longrightarrow> depth_le n st \<Longrightarrow> depth_le n st'"
  by (rule frame_depth [OF prop_calc_visible_frame])

lemma calc_eq: "depth_le n st \<Longrightarrow> calc' r st = calc r st"
  using agree by (simp add: agree_def)

lemma calc_expr_eq: "depth_le n st \<Longrightarrow> calc_expr calc' e st = calc_expr calc e st"
proof (induction e arbitrary: st)
  case (EAnd l r)
  then show ?case
    by (auto intro!: bind_pair_cong Option.bind_cong dest: calc_expr_depth)
next
  case (EOr l r)
  then show ?case
    by (auto intro!: bind_pair_cong Option.bind_cong dest: calc_expr_depth)
next
  case (EEqual a b)
  then show ?case by (auto simp: calc_eq intro!: Option.bind_cong dest: calc_depth)
next
  case (EUnequal a b)
  then show ?case by (auto simp: calc_eq intro!: Option.bind_cong dest: calc_depth)
qed (auto simp: calc_eq)

lemma expr_calc_value_eq: "depth_le n st \<Longrightarrow> expr_calc_value calc' e st = expr_calc_value calc e st"
  by (cases e) (auto simp: calc_expr_eq)

lemma prop_calc_visible_eq: "depth_le n st \<Longrightarrow> prop_calc_visible calc' p st = prop_calc_visible calc p st"
  by (simp add: prop_calc_visible_def expr_calc_value_eq)

lemma first_visible_prop_eq:
  "depth_le n st \<Longrightarrow> first_visible_prop calc' ty ps st = first_visible_prop calc ty ps st"
  by (induction ps arbitrary: st)
    (auto simp: prop_calc_visible_eq intro!: bind_pair_cong dest: prop_depth)

lemma calc_prompts_eq: "depth_le n st \<Longrightarrow> calc_prompts calc' ps t st = calc_prompts calc ps t st"
  by (induction ps arbitrary: t st)
    (auto simp: prop_calc_visible_eq intro!: bind_pair_cong dest: prop_depth)

lemma calc_rev_dep_eq: "depth_le n st \<Longrightarrow> calc_rev_dep calc' r st = calc_rev_dep calc r st"
  by (auto simp: calc_rev_dep_def calc_expr_eq split: option.splits)

lemma sym_calc_visibility_eq:
  assumes d: "depth_le n st"
  shows "sym_calc_visibility calc' r st = sym_calc_visibility calc r st"
proof -
  have "calc_rev_dep calc' r (set_visible r t st1) = calc_rev_dep calc r (set_visible r t st1)"
    if "calc_prompts calc (s_prop (syms st r)) No st = Some (u, st1)" for t u st1
  proof (rule calc_rev_dep_eq)
    have "frame {r} st1 (set_visible r t st1)" by (rule frame_set_visible) simp
    then show "depth_le n (set_visible r t st1)"
      using calc_prompts_frame [OF that] d frame_depth by blast
  qed
  then show ?thesis
    by (auto simp: sym_calc_visibility_def calc_prompts_eq [OF d] Let_def intro!: bind_pair_cong)
qed

lemma frame_depth_any: "sym_calc_visibility calc r st = Some st' \<Longrightarrow> depth_le n st \<Longrightarrow> depth_le n st'"
  using sym_calc_visibility_frame [of r st st' "{r}"] frame_depth by blast

lemma try_choice_eq: "depth_le n st \<Longrightarrow> try_choice calc' d st = try_choice calc d st"
  by (simp add: try_choice_def sym_calc_visibility_eq)

lemma try_choice_depth: "try_choice calc d st = Some (b, st') \<Longrightarrow> depth_le n st \<Longrightarrow> depth_le n st'"
  by (auto simp: try_choice_def bind_Some_iff dest: frame_depth_any)

lemma choice_defaults_eq:
  "depth_le n st \<Longrightarrow> choice_defaults calc' ps st = choice_defaults calc ps st"
proof (induction ps arbitrary: st)
  case (Cons p ps)
  show ?case
  proof (cases "p_type (props st p) = P_DEFAULT")
    case True
    have "(if t = No then choice_defaults calc' ps st1
        else prop_get_symbol st1 p \<bind> (\<lambda>d. d \<bind> (\<lambda>d. try_choice calc' d st1 \<bind>
           (\<lambda>(ok, st). if ok then Some (Some d, st) else choice_defaults calc' ps st)))) =
      (if t = No then choice_defaults calc ps st1
        else prop_get_symbol st1 p \<bind> (\<lambda>d. d \<bind> (\<lambda>d. try_choice calc d st1 \<bind>
           (\<lambda>(ok, st). if ok then Some (Some d, st) else choice_defaults calc ps st))))"
      if "prop_calc_visible calc p st = Some (t, st1)" for t st1
    proof -
      have d: "depth_le n st1" using prop_calc_visible_frame [OF that] Cons.prems frame_depth by blast
      show ?thesis
        using Cons.IH [OF d] Cons.IH try_choice_depth [OF _ d]
        by (auto simp: try_choice_eq [OF d] intro!: Option.bind_cong bind_pair_cong)
    qed
    with True show ?thesis
      by (auto simp: prop_calc_visible_eq [OF Cons.prems] intro!: bind_pair_cong)
  next
    case False
    with Cons show ?thesis by simp
  qed
qed simp

lemma choice_chain_eq: "depth_le n st \<Longrightarrow> choice_chain calc' e st = choice_chain calc e st"
proof (induction "size e" arbitrary: e st rule: less_induct)
  case less
  then show ?case
    by (cases e) (auto simp: try_choice_eq intro!: bind_pair_cong dest: try_choice_depth split: option.splits)
qed

lemma choice_members_eq: "depth_le n st \<Longrightarrow> choice_members calc' r st = choice_members calc r st"
  by (auto simp: choice_members_def choice_chain_eq intro!: Option.bind_cong split: option.splits)

lemma choice_pick_eq:
  assumes d: "depth_le n st" and c: "sym_is_choice st r"
  shows "choice_pick calc' r st = choice_pick calc r st"
proof -
  have u: "choice_user calc' r st = choice_user calc r st"
    by (auto simp: choice_user_def try_choice_eq [OF d] split: cval.splits)
  have d1: "depth_le n st1" if "choice_user calc r st = Some (x, st1)" for x st1
    using that d by (auto simp: choice_user_def bind_Some_iff split: cval.splits dest: try_choice_depth)
  have d2: "depth_le n st2" if "choice_defaults calc ps st1 = Some (x, st2)" "depth_le n st1" for x ps st1 st2
    using that
  proof (induction ps arbitrary: st1)
    case (Cons p ps)
    then show ?case
      by (auto simp: bind_Some_iff split: if_splits
          dest: prop_depth try_choice_depth)
  qed simp
  show ?thesis
    unfolding choice_pick_def u
    by (intro bind_pair_cong refl)
      (auto simp: choice_defaults_eq d1 choice_members_eq d2 intro!: bind_pair_cong)
qed

lemma sym_calc_choice_eq:
  "depth_le n st \<Longrightarrow> sym_is_choice st r \<Longrightarrow> sym_calc_choice calc' r st = sym_calc_choice calc r st"
  by (simp add: sym_calc_choice_def choice_pick_eq)

lemma calc_default_eq:
  assumes "depth_le n st" and pre: "\<And>st. frame {} st (pre st)"
  shows "calc_default calc' pre r t st = calc_default calc pre r t st"
proof -
  have "depth_le n (pre st1)" if "first_visible_prop calc P_DEFAULT (s_prop (syms st r)) st = Some (p, st1)" for p st1
    using first_visible_prop_frame [OF that] pre frame_depth assms(1) by blast
  then show ?thesis
    by (auto simp: calc_default_def sym_get_default_prop_def first_visible_prop_eq [OF assms(1)]
        expr_calc_value_eq intro!: bind_pair_cong split: option.splits)
qed

lemma calc_bool_eq:
  assumes d: "depth_le n st"
  shows "calc_bool calc' r t st = calc_bool calc r t st"
proof -
  have "depth_le n (set_flags r {SYMBOL_WRITE} st)" using frame_write frame_depth d by blast
  then show ?thesis
    by (auto simp: calc_bool_def Let_def calc_default_eq frame_write d)
qed

lemma calc_string_eq:
  assumes d: "depth_le n st"
  shows "calc_string calc' r v st = calc_string calc r v st"
proof -
  have w: "depth_le n (set_flags r {SYMBOL_WRITE} b)" if "depth_le n b" for b
    using frame_write frame_depth that by blast
  have f: "depth_le n b'" if "first_visible_prop calc ty ps b = Some (p, b')" "depth_le n b" for ty ps p b b'
    using first_visible_prop_frame [OF that(1)] frame_depth that(2) by blast
  show ?thesis
    unfolding calc_string_def sym_get_default_prop_def Let_def
    by (auto simp: first_visible_prop_eq d w intro!: bind_pair_cong Option.bind_cong split: option.splits)
      (auto simp: calc_eq d w f dest!: f)
qed

lemma calc_finish_eq:
  assumes d: "depth_le n st"
  shows "calc_finish calc' r oldval newval st = calc_finish calc r oldval newval st"
proof -
  let ?st0 = "upd_sym r (s_curr_update (\<lambda>_. newval)) st"
  have "depth_le n ?st0" using d by (simp add: depth_curr)
  then show ?thesis
    by (simp add: calc_finish_def sym_calc_choice_eq Let_def cong: if_cong)
qed

lemma calc_new_eq:
  assumes d: "depth_le n st"
  shows "calc_new calc' r oldval newval st = calc_new calc r oldval newval st"
proof -
  let ?st0 = "upd_sym r (s_curr_update (\<lambda>_. newval)) st"
  have d0: "depth_le n ?st0" using d by (simp add: depth_curr)
  show ?thesis
    unfolding calc_new_def Let_def calc_bool_eq [OF d0] calc_string_eq [OF d0]
    by (auto intro!: bind_pair_cong calc_finish_eq dest: calc_bool_frame calc_string_frame
        intro: frame_depth [OF _ d0])
qed

lemma calc_body_eq:
  assumes d: "depth_le n (set_flags r {SYMBOL_VALID} st)"
  shows "calc_body calc' r st = calc_body calc r st"
proof -
  let ?st0 = "set_flags r {SYMBOL_VALID} st"
  have "depth_le n (clr_flags r {SYMBOL_WRITE} ?st0)" using frame_clr_write frame_depth d by blast
  with d show ?thesis
    by (auto simp: calc_body_def Let_def sym_calc_visibility_eq intro!: Option.bind_cong
        intro: calc_new_eq frame_depth_any)
qed

end

lemma sym_calc_value_depth: "agree n (sym_calc_value (n + j)) (sym_calc_value n)"
proof (induction n)
  case 0
  have "flag st r SYMBOL_VALID" if "depth_le 0 st" for r st
    using that by (auto simp: depth_le_def invalid_def)
  then show ?case by (simp add: agree_def sym_calc_value.simps)
next
  case (Suc n)
  have ev: "evaluators (sym_calc_value n) (sym_calc_value (n + j)) n"
    by unfold_locales (rule Suc.IH)
  show ?case
    unfolding agree_def
  proof (intro allI impI)
    fix r st assume d: "depth_le (Suc n) st"
    show "sym_calc_value (Suc n + j) r st = sym_calc_value (Suc n) r st"
      using evaluators.calc_body_eq [OF ev depth_set_valid [OF d]]
      by (cases "flag st r SYMBOL_VALID") (simp_all add: sym_calc_value.simps)
  qed
qed

interpretation calc_depth: evaluators "sym_calc_value n" "sym_calc_value (n + j)" n for n j
  by unfold_locales (rule sym_calc_value_depth)

end
