(* ===== verification/Kconfig_Values.thy ===== *)
theory Kconfig_Values
  imports Kconfig_Eval
begin

text \<open>
  Setting values (\<open>symbol.c\<close>): which tristate and string values are accepted, what the setters
  leave in the table, the toggle loop, and the invariant that a boolean symbol is never \<open>m\<close>.
\<close>

section \<open>Boolean symbols are never \<open>m\<close>\<close>

definition bools_ok :: "kstate \<Rightarrow> bool" where
  "bools_ok st \<longleftrightarrow> (\<forall>s. s_type (syms st s) = S_BOOLEAN \<longrightarrow> sym_tri (syms st) s \<noteq> Mod)"

lemma frame_bools [kconf_wf]: "frame X st st' \<Longrightarrow> bools_ok st \<Longrightarrow> bools_ok st'"
  using frame_bool frame_sym(2) unfolding bools_ok_def sym_tri_def by metis

lemma bools_ok_same:
  assumes "\<And>s. s_type (syms st' s) = s_type (syms st s)" "\<And>s. s_curr (syms st' s) = s_curr (syms st s)"
  shows "bools_ok st' = bools_ok st"
  using assms by (simp add: bools_ok_def sym_tri_def)

lemma clear_new_same:
  "s_type (syms (clear_new r st) s) = s_type (syms st s)"
  "s_curr (syms (clear_new r st) s) = s_curr (syms st s)"
  "s_user (syms (clear_new r st) s) = s_user (syms st s)"
  "s_visible (syms (clear_new r st) s) = s_visible (syms st s)"
  "s_rev_dep (syms (clear_new r st) s) = s_rev_dep (syms st s)"
  "modules_sym (clear_new r st) = modules_sym st" "modules_val (clear_new r st) = modules_val st"
  by (auto simp: clear_new_def set_changed_syms set_flags_def clr_flags_def)

lemma clear_valid_same:
  fixes st rs
  defines "st' \<equiv> foldl (\<lambda>st r. clr_flags r {SYMBOL_VALID} st) st rs"
  shows "s_type (syms st' s) = s_type (syms st s)" "s_curr (syms st' s) = s_curr (syms st s)"
    "s_user (syms st' s) = s_user (syms st s)" "s_visible (syms st' s) = s_visible (syms st s)"
    "s_rev_dep (syms st' s) = s_rev_dep (syms st s)" "modules_sym st' = modules_sym st"
    "flag st' s f \<longleftrightarrow> flag st s f \<and> \<not> (f = SYMBOL_VALID \<and> s \<in> set rs)"
  unfolding st'_def by (induction rs arbitrary: st) (auto simp: clr_flags_def flag_def)

lemma set_changed_same:
  "s_type (syms (sym_set_changed r st) s) = s_type (syms st s)"
  "s_curr (syms (sym_set_changed r st) s) = s_curr (syms st s)"
  "s_user (syms (sym_set_changed r st) s) = s_user (syms st s)"
  by (auto simp: set_changed_syms set_flags_def)

lemma set_all_changed_same:
  "s_type (syms (sym_set_all_changed st) s) = s_type (syms st s)"
  "s_curr (syms (sym_set_all_changed st) s) = s_curr (syms st s)"
  "s_user (syms (sym_set_all_changed st) s) = s_user (syms st s)"
proof -
  have "s_type (syms (foldl (\<lambda>st r. sym_set_changed r st) a rs) s) = s_type (syms a s) \<and>
    s_curr (syms (foldl (\<lambda>st r. sym_set_changed r st) a rs) s) = s_curr (syms a s) \<and>
    s_user (syms (foldl (\<lambda>st r. sym_set_changed r st) a rs) s) = s_user (syms a s)" for rs a
    by (induction rs arbitrary: a) (simp_all add: set_changed_same)
  then show "s_type (syms (sym_set_all_changed st) s) = s_type (syms st s)"
    "s_curr (syms (sym_set_all_changed st) s) = s_curr (syms st s)"
    "s_user (syms (sym_set_all_changed st) s) = s_user (syms st s)"
    by (simp_all add: sym_set_all_changed_def)
qed

lemma set_changed_flag: "f \<noteq> SYMBOL_CHANGED \<Longrightarrow> flag (sym_set_changed r st) s f = flag st s f"
  by (simp add: flag_def set_changed_syms set_flags_def)

lemma set_all_changed_flag: "f \<noteq> SYMBOL_CHANGED \<Longrightarrow> flag (sym_set_all_changed st) s f = flag st s f"
proof -
  assume f: "f \<noteq> SYMBOL_CHANGED"
  have "flag (foldl (\<lambda>st r. sym_set_changed r st) a rs) s f = flag a s f" for a rs
    by (induction rs arbitrary: a) (simp_all add: set_changed_flag [OF f])
  then show ?thesis by (simp add: sym_set_all_changed_def)
qed

lemma clear_new_flag: "\<not> flag (clear_new r st) r SYMBOL_NEW"
  by (auto simp: clear_new_def set_changed_flag flag_def [of st])

lemma has_value_flag: "sym_has_value st r \<longleftrightarrow> \<not> flag st r SYMBOL_NEW"
  by (simp add: sym_has_value_def flag_def)

section \<open>The setters over an evaluator\<close>

text \<open>Clearing leaves every symbol's user value; the module symbol is evaluated again.\<close>

context evaluator
begin

lemma clear_all_props:
  assumes "sym_clear_all_valid calc st = Some st'"
  shows "bools_ok st \<Longrightarrow> bools_ok st'" "s_user (syms st' s) = s_user (syms st s)"
    "s_type (syms st' s) = s_type (syms st s)"
    "modules_sym st' = modules_sym st" "modules_sym st = Some m \<Longrightarrow> flag st' m SYMBOL_VALID"
    "sym_change_count st' = sym_change_count st + 1" "sym_has_value st' s = sym_has_value st s"
proof -
  let ?a = "foldl (\<lambda>st r. clr_flags r {SYMBOL_VALID} st) st (all_symbols st)"
  let ?b = "?a\<lparr>sym_change_count := sym_change_count ?a + 1\<rparr>"
  have cc: "sym_change_count (foldl (\<lambda>st r. clr_flags r {SYMBOL_VALID} st) x rs) = sym_change_count x" for x rs
    by (induction rs arbitrary: x) (simp_all add: clr_flags_def upd_sym_def)
  have same: "s_type (syms ?b s) = s_type (syms st s)" "s_curr (syms ?b s) = s_curr (syms st s)"
    "s_user (syms ?b s) = s_user (syms st s)" "modules_sym ?b = modules_sym st" for s
    by (simp_all add: clear_valid_same)
  have run: "(case modules_sym ?b of None \<Rightarrow> Some ?b | Some m \<Rightarrow> calc m ?b) = Some st'"
    using assms by (simp add: sym_clear_all_valid_def Let_def)
  have f: "frame {} ?b st'"
    using run by (auto split: option.splits dest: calc_frame)
  show "bools_ok st \<Longrightarrow> bools_ok st'"
    using frame_bools [OF f] bools_ok_same [of ?b st, OF same(1,2)] by simp
  show "s_user (syms st' s) = s_user (syms st s)" "s_type (syms st' s) = s_type (syms st s)"
    using frame_sym [OF f] same by simp_all
  show "modules_sym st' = modules_sym st" using frame_rest [OF f] same by simp
  show "modules_sym st = Some m \<Longrightarrow> flag st' m SYMBOL_VALID"
    using run same calc_valid by (auto split: option.splits)
  show "sym_change_count st' = sym_change_count st + 1"
    using frame_rest(3) [OF f] by (simp add: cc)
  have "sym_has_value ?b s = sym_has_value ?a s" by (simp add: sym_has_value_def)
  then show "sym_has_value st' s = sym_has_value st s"
    using frame_choice(3) [OF f] by (simp add: has_value_flag clear_valid_same(7))
qed

text \<open>
  The setter refuses exactly the values out of range that would be a change, and leaves the table
  alone then; otherwise the value is the user's.
\<close>

lemma set_tristate_refused:
  assumes "sym_set_tristate_value calc r val st = Some (False, st')"
  shows "st' = st" "sym_tri (syms st) r \<noteq> val" "\<not> sym_tristate_within_range st r val"
  using assms by (auto simp: sym_set_tristate_value_def bind_Some_iff Let_def sym_get_tristate_value_def
      sym_tri_def split: if_splits)

lemma set_tristate_accepted:
  assumes s: "sym_set_tristate_value calc r val st = Some (True, st')"
  shows "sym_tri (syms st) r = val \<or> sym_tristate_within_range st r val"
    "sv_tri (s_user (syms st' r)) = val" "s_type (syms st' x) = s_type (syms st x)"
    "bools_ok st \<Longrightarrow> bools_ok st'" "sym_has_value st' r"
proof -
  let ?c = "clear_new r st"
  from s obtain st1 where
    ok: "sym_tri (syms st) r = val \<or> sym_tristate_within_range st r val"
    and c: "(if sym_is_choice_value ?c r \<and> val = Yes then
                    do { p \<leftarrow> sym_get_choice_prop ?c r;
                         cs \<leftarrow> prop_get_symbol ?c p;
                         cs \<leftarrow> cs;
                         Some (clr_flags cs {SYMBOL_NEW}
                           (upd_sym cs (s_user_update (sv_val_update (\<lambda>_. VSym r))) ?c)) }
                  else Some ?c) = Some st1"
    and rest: "(let st1' = upd_sym r (s_user_update (sv_tri_update (\<lambda>_. val))) st1 in
            if sym_tri (syms st) r \<noteq> val then
              do { st2 \<leftarrow> sym_clear_all_valid calc st1';
                   Some (True, if modules_sym st2 = Some r then sym_set_all_changed st2 else st2) }
            else Some (True, st1')) = Some (True, st')"
    by (auto simp: sym_set_tristate_value_def bind_Some_iff Let_def sym_get_tristate_value_def
        sym_tri_def split: if_splits)
  let ?u = "upd_sym r (s_user_update (sv_tri_update (\<lambda>_. val))) st1"
  have same1: "s_type (syms st1 x) = s_type (syms st x)" "s_curr (syms st1 x) = s_curr (syms st x)" for x
    using c by (auto simp: clear_new_same bind_Some_iff clr_flags_def split: if_splits)
  have same: "s_type (syms ?u x) = s_type (syms st x)" "s_curr (syms ?u x) = s_curr (syms st x)"
    "sv_tri (s_user (syms ?u r)) = val" for x
    by (simp_all add: same1)
  have "\<not> flag (upd_sym cs (s_user_update g) ?c) r SYMBOL_NEW" for cs g
    using clear_new_flag [of r st] by (auto simp: flag_def)
  then have "sym_has_value st1 r"
    using c clear_new_flag [of r st] by (auto simp: bind_Some_iff has_value_flag split: if_splits)
  then have hv: "sym_has_value ?u r" by (simp add: sym_has_value_def)
  show "sym_tri (syms st) r = val \<or> sym_tristate_within_range st r val" using ok .
  have "sv_tri (s_user (syms st' r)) = val \<and> s_type (syms st' x) = s_type (syms st x) \<and>
    (bools_ok st \<longrightarrow> bools_ok st') \<and> sym_has_value st' r" for x
  proof (cases "sym_tri (syms st) r \<noteq> val")
    case True
    with rest obtain st2 where cl: "sym_clear_all_valid calc ?u = Some st2"
      and st': "st' = (if modules_sym st2 = Some r then sym_set_all_changed st2 else st2)"
      by (auto simp: bind_Some_iff Let_def)
    note p = clear_all_props [OF cl]
    have "bools_ok st \<Longrightarrow> bools_ok st2" using p(1) bools_ok_same [of ?u st, OF same(1,2)] by simp
    moreover have "bools_ok st' = bools_ok st2"
      unfolding st' by (auto intro!: bools_ok_same simp: set_all_changed_same)
    moreover have "s_user (syms st' y) = s_user (syms st2 y)" "s_type (syms st' y) = s_type (syms st2 y)" for y
      unfolding st' by (simp_all add: set_all_changed_same)
    moreover have "sym_has_value st' r"
      using p(7) [of r] hv unfolding st' by (simp add: has_value_flag set_all_changed_flag)
    ultimately show ?thesis using p(2,3) same(1,3) by simp
  next
    case False
    with rest have "st' = ?u" by (simp add: Let_def)
    then show ?thesis using same hv bools_ok_same [of ?u st, OF same(1,2)] by simp
  qed
  then show "sv_tri (s_user (syms st' r)) = val" "s_type (syms st' x) = s_type (syms st x)"
    "bools_ok st \<Longrightarrow> bools_ok st'" "sym_has_value st' r" by auto
qed

lemma set_tristate_bools:
  "sym_set_tristate_value calc r val st = Some (ok, st') \<Longrightarrow> bools_ok st \<Longrightarrow> bools_ok st'"
  using set_tristate_refused(1) [of r val st st'] set_tristate_accepted(4) [of r val st st']
  by (cases ok) auto

text \<open>The toggle is one call of the setter: with the next value in the cycle that is in range.\<close>

lemma set_tristate_false:
  "sym_tri (syms st) r \<noteq> val \<Longrightarrow> \<not> sym_tristate_within_range st r val \<Longrightarrow>
     sym_set_tristate_value calc r val st = Some (False, st)"
  by (simp add: sym_set_tristate_value_def sym_get_tristate_value_def sym_tri_def Let_def)

lemma set_tristate_true:
  "sym_tri (syms st) r = val \<or> sym_tristate_within_range st r val \<Longrightarrow>
     sym_set_tristate_value calc r val st = Some (ok, st') \<Longrightarrow> ok"
  using set_tristate_refused(2,3) by (cases ok) auto

end

definition toggle_target :: "kstate \<Rightarrow> symref \<Rightarrow> tristate" where
  "toggle_target st r =
     (let old = sym_tri (syms st) r in
      if sym_tristate_within_range st r (next_tri old) then next_tri old
      else if sym_tristate_within_range st r (next_tri (next_tri old)) then next_tri (next_tri old)
      else old)"

lemma next_tri_cycle [simp]:
  "next_tri (next_tri (next_tri t)) = t" "next_tri t \<noteq> t" "t \<noteq> next_tri t"
  "next_tri (next_tri t) \<noteq> t" "t \<noteq> next_tri (next_tri t)"
  by (cases t; simp)+

context evaluator
begin

lemma toggle_once:
  assumes "sym_tri (syms st) r = val \<or> sym_tristate_within_range st r val"
  shows "sym_set_tristate_value calc r val st \<bind> (\<lambda>(ok, st').
      if ok then Some (val, st') else f st') =
    map_option (\<lambda>(ok, st'). (val, st')) (sym_set_tristate_value calc r val st)"
proof (cases "sym_set_tristate_value calc r val st")
  case (Some p)
  obtain ok st' where p: "p = (ok, st')" by (metis surj_pair)
  with Some set_tristate_true [OF assms] have ok by blast
  with Some p show ?thesis by simp
qed simp

lemma sym_toggle_spec:
  "sym_toggle_tristate_value calc r st =
     map_option (\<lambda>(ok, st'). (toggle_target st r, st'))
       (sym_set_tristate_value calc r (toggle_target st r) st)"
proof -
  let ?o = "sym_tri (syms st) r"
  have o: "sym_get_tristate_value st r = ?o" by (simp add: sym_get_tristate_value_def sym_tri_def)
  consider (one) "sym_tristate_within_range st r (next_tri ?o)"
    | (two) "\<not> sym_tristate_within_range st r (next_tri ?o)"
        "sym_tristate_within_range st r (next_tri (next_tri ?o))"
    | (three) "\<not> sym_tristate_within_range st r (next_tri ?o)"
        "\<not> sym_tristate_within_range st r (next_tri (next_tri ?o))" by blast
  then show ?thesis
  proof cases
    case one
    then show ?thesis
      by (simp add: sym_toggle_tristate_value_def o toggle_target_def Let_def eval_nat_numeral toggle_once)
  next
    case two
    then show ?thesis
      by (simp add: sym_toggle_tristate_value_def o toggle_target_def Let_def eval_nat_numeral
          toggle_once set_tristate_false)
  next
    case three
    then show ?thesis
      by (simp add: sym_toggle_tristate_value_def o toggle_target_def Let_def eval_nat_numeral
          toggle_once set_tristate_false)
  qed
qed

end

section \<open>Strings\<close>

text \<open>What \<open>sym_string_valid\<close> accepts for a number.\<close>

lemma int_valid_iff:
  "int_valid str \<longleftrightarrow> (\<exists>sign ds. str = sign @ ds \<and> (sign = [] \<or> sign = ''-'') \<and>
     ds \<noteq> [] \<and> (\<forall>c \<in> set ds. isdigit c) \<and> (hd ds = CHR ''0'' \<longrightarrow> ds = ''0''))"
proof -
  have nz: "isdigit c \<Longrightarrow> c \<noteq> CHR ''-''" for c by (auto simp: isdigit_def)
  have nul: "isdigit c \<Longrightarrow> c \<noteq> NUL" for c by (auto simp: isdigit_def NUL_def)
  have core: "(isdigit (cstr_at s 0) \<and> \<not> (cstr_at s 0 = CHR ''0'' \<and> cstr_at s 1 \<noteq> NUL) \<and> list_all isdigit (tl s))
      \<longleftrightarrow> s \<noteq> [] \<and> (\<forall>c \<in> set s. isdigit c) \<and> (hd s = CHR ''0'' \<longrightarrow> s = ''0'')" for s
  proof (cases s)
    case (Cons c t)
    show ?thesis
    proof (cases t)
      case (Cons d u)
      with \<open>s = c # t\<close> nul show ?thesis by (auto simp: list_all_iff)
    qed (simp add: \<open>s = c # t\<close>)
  qed simp
  show ?thesis
  proof (cases "cstr_at str 0 = CHR ''-''")
    case True
    then obtain t where t: "str = CHR ''-'' # t" by (cases str) (auto simp: NUL_def)
    have "int_valid str \<longleftrightarrow> t \<noteq> [] \<and> (\<forall>c \<in> set t. isdigit c) \<and> (hd t = CHR ''0'' \<longrightarrow> t = ''0'')"
    proof -
      have "int_valid str \<longleftrightarrow> isdigit (cstr_at t 0) \<and> \<not> (cstr_at t 0 = CHR ''0'' \<and> cstr_at t 1 \<noteq> NUL) \<and>
          list_all isdigit (tl t)"
        unfolding int_valid_def t Let_def by simp
      then show ?thesis using core by simp
    qed
    moreover have "(\<exists>sign ds. str = sign @ ds \<and> (sign = [] \<or> sign = ''-'') \<and>
        ds \<noteq> [] \<and> (\<forall>c \<in> set ds. isdigit c) \<and> (hd ds = CHR ''0'' \<longrightarrow> ds = ''0'')) \<longleftrightarrow>
      t \<noteq> [] \<and> (\<forall>c \<in> set t. isdigit c) \<and> (hd t = CHR ''0'' \<longrightarrow> t = ''0'')"
      (is "?ex = ?num")
    proof
      assume ?ex
      then obtain sign ds where "str = sign @ ds" "sign = [] \<or> sign = ''-''" "\<forall>c \<in> set ds. isdigit c"
        "ds \<noteq> []" "hd ds = CHR ''0'' \<longrightarrow> ds = ''0''" by blast
      with nz [of "CHR ''-''"] t show ?num by auto
    next
      assume ?num
      then show ?ex using t by (intro exI [of _ "''-''"] exI [of _ t]) simp
    qed
    ultimately show ?thesis by blast
  next
    case False
    have "int_valid str \<longleftrightarrow> str \<noteq> [] \<and> (\<forall>c \<in> set str. isdigit c) \<and> (hd str = CHR ''0'' \<longrightarrow> str = ''0'')"
    proof -
      have "int_valid str \<longleftrightarrow> isdigit (cstr_at str 0) \<and>
          \<not> (cstr_at str 0 = CHR ''0'' \<and> cstr_at str 1 \<noteq> NUL) \<and> list_all isdigit (tl str)"
        using False unfolding int_valid_def Let_def by simp
      then show ?thesis using core by simp
    qed
    then show ?thesis using False by auto
  qed
qed

lemma hex_valid_iff:
  "hex_valid str \<longleftrightarrow> (\<exists>pre ds. str = pre @ ds \<and> pre \<in> {[], ''0x'', ''0X''} \<and>
     ds \<noteq> [] \<and> (\<forall>c \<in> set ds. isxdigit c))"
proof -
  have core: "isxdigit (cstr_at s 0) \<and> list_all isxdigit (tl s) \<longleftrightarrow> s \<noteq> [] \<and> (\<forall>c \<in> set s. isxdigit c)" for s
    by (cases s) (auto simp: list_all_iff)
  have x: "\<not> isxdigit (CHR ''x'')" "\<not> isxdigit (CHR ''X'')" by (auto simp: isxdigit_def isdigit_def)
  show ?thesis
  proof (cases "cstr_at str 0 = CHR ''0'' \<and> cstr_at str 1 \<in> {CHR ''x'', CHR ''X''}")
    case True
    then obtain d t where t: "str = CHR ''0'' # d # t" "d = CHR ''x'' \<or> d = CHR ''X''"
      by (cases str rule: remdups_adj.cases) (auto simp: NUL_def)
    have "hex_valid str \<longleftrightarrow> t \<noteq> [] \<and> (\<forall>c \<in> set t. isxdigit c)"
      using core [of t] t by (auto simp: hex_valid_def)
    moreover have "\<not> (\<forall>c \<in> set str. isxdigit c)" using t x by auto
    then have "(\<exists>pre ds. str = pre @ ds \<and> pre \<in> {[], ''0x'', ''0X''} \<and>
     ds \<noteq> [] \<and> (\<forall>c \<in> set ds. isxdigit c)) \<longleftrightarrow> t \<noteq> [] \<and> (\<forall>c \<in> set t. isxdigit c)"
      using t by (intro iffI; (elim exE conjE)?) (fastforce, intro exI [of _ "[CHR ''0'', d]"] exI [of _ t], auto)
    ultimately show ?thesis by simp
  next
    case False
    have "hex_valid str \<longleftrightarrow> str \<noteq> [] \<and> (\<forall>c \<in> set str. isxdigit c)"
      using core [of str] False by (auto simp: hex_valid_def)
    then show ?thesis using False by auto
  qed
qed

text \<open>A number set for a hexadecimal symbol is stored with its prefix.\<close>

context evaluator
begin

lemma in_range_same:
  assumes "in_range b calc r s st = Some (ok, st')"
  shows "frame {} st st'"
proof -
  from assms obtain p st1 where fv: "first_visible_prop calc P_RANGE (s_prop (syms st r)) st = Some (p, st1)"
    and rest: "(case p of None \<Rightarrow> Some (True, st1)
           | Some p \<Rightarrow>
              (case p_expr (props st1 p) of
                 Some (ERange a c) \<Rightarrow>
                   do { lo \<leftarrow> s_name (syms st1 a);
                        hi \<leftarrow> s_name (syms st1 c);
                        let val = to_int (strtol b s);
                        Some (strtol b lo \<le> val \<and> val \<le> strtol b hi, st1) }
               | _ \<Rightarrow> None)) = Some (ok, st')"
    unfolding in_range_def sym_get_range_prop_def bind_Some_iff by (metis (no_types, lifting) case_prod_conv surj_pair)
  have "st' = st1"
  proof (cases p)
    case (Some q)
    with rest show ?thesis
      by (cases "p_expr (props st1 q)"; cases "the (p_expr (props st1 q))")
        (auto simp: bind_Some_iff Let_def)
  qed (use rest in simp)
  with first_visible_prop_frame [OF fv] show ?thesis by simp
qed

lemma string_within_range_frame:
  "sym_string_within_range calc r s st = Some (ok, st') \<Longrightarrow> frame {} st st'"
  by (auto simp: sym_string_within_range_def split: symbol_type.splits if_splits dest: in_range_same)

lemma string_within_range_valid:
  "sym_string_within_range calc r s st = Some (True, st') \<Longrightarrow>
     s_type (syms st r) \<in> {S_STRING, S_INT, S_HEX} \<Longrightarrow> sym_string_valid st r s"
  by (auto simp: sym_string_within_range_def sym_string_valid_def split: symbol_type.splits if_splits)

lemma store_user_same:
  "s_type (syms (store_user_string r s st) x) = s_type (syms st x)"
  "s_curr (syms (store_user_string r s st) x) = s_curr (syms st x)"
  "cstr_of (sv_val (s_user (syms (store_user_string r s st) r))) = Some s"
  by (simp_all add: store_user_string_def)

lemma set_string_accepted:
  assumes s: "sym_set_string_value calc r str st = Some (True, st')"
    and ty: "s_type (syms st r) \<in> {S_STRING, S_INT, S_HEX}"
  shows "sym_string_valid st r str" "bools_ok st \<Longrightarrow> bools_ok st'"
    "cstr_of (sv_val (s_user (syms st' r))) = Some
       (if s_type (syms st r) = S_HEX \<and>
           \<not> (cstr_at str 0 = CHR ''0'' \<and> cstr_at str 1 \<in> {CHR ''x'', CHR ''X''})
        then ''0x'' @ str else str)"
proof -
  from s ty obtain st1 where rg: "sym_string_within_range calc r str st = Some (True, st1)"
    by (auto simp: sym_set_string_value_def bind_Some_iff Let_def split: if_splits)
  note f = string_within_range_frame [OF rg]
  let ?c = "clear_new r st1"
  have ty1: "s_type (syms ?c x) = s_type (syms st x)" for x
    using frame_sym(2) [OF f] by (simp add: clear_new_same)
  have curr: "bools_ok ?c = bools_ok st1" by (rule bools_ok_same) (simp_all add: clear_new_same)
  have b1: "bools_ok st \<Longrightarrow> bools_ok ?c" using frame_bools [OF f] curr by simp
  have store: "cstr_of (sv_val (s_user (syms st' r))) = Some x \<and> (bools_ok st \<longrightarrow> bools_ok st')"
    if "sym_clear_all_valid calc (store_user_string r x ?c) = Some st'" for x
    using clear_all_props(1,2) [OF that] b1 bools_ok_same [of "store_user_string r x ?c" ?c]
    by (simp add: store_user_same)
  have rest: "(if s_type (syms ?c r) = S_HEX \<and>
                  (cstr_at str 0 \<noteq> CHR ''0'' \<or> cstr_at str 1 \<notin> {CHR ''x'', CHR ''X''}) then
                 do { st \<leftarrow> sym_clear_all_valid calc (store_user_string r (''0x'' @ str) ?c);
                      Some (True, st) }
               else
                 store_if_new calc r str ?c) = Some (True, st')"
    using s ty rg by (auto simp: sym_set_string_value_def Let_def)
  show "sym_string_valid st r str" using string_within_range_valid [OF rg ty] .
  have "cstr_of (sv_val (s_user (syms st' r))) = Some
       (if s_type (syms st r) = S_HEX \<and>
           \<not> (cstr_at str 0 = CHR ''0'' \<and> cstr_at str 1 \<in> {CHR ''x'', CHR ''X''})
        then ''0x'' @ str else str) \<and> (bools_ok st \<longrightarrow> bools_ok st')"
  proof (cases "s_type (syms st r) = S_HEX \<and>
           \<not> (cstr_at str 0 = CHR ''0'' \<and> cstr_at str 1 \<in> {CHR ''x'', CHR ''X''})")
    case True
    with rest have "sym_clear_all_valid calc (store_user_string r (''0x'' @ str) ?c) = Some st'"
      by (auto simp: ty1 bind_Some_iff)
    from store [OF this] True show ?thesis by simp
  next
    case False
    with rest have "cstr_of (sv_val (s_user (syms ?c r))) = Some str \<and> st' = ?c \<or>
        sym_clear_all_valid calc (store_user_string r str ?c) = Some st'"
      by (auto simp: ty1 bind_Some_iff store_if_new_def Let_def split: if_splits)
    with store [of str] b1 False show ?thesis by auto
  qed
  then show "bools_ok st \<Longrightarrow> bools_ok st'"
    "cstr_of (sv_val (s_user (syms st' r))) = Some
       (if s_type (syms st r) = S_HEX \<and>
           \<not> (cstr_at str 0 = CHR ''0'' \<and> cstr_at str 1 \<in> {CHR ''x'', CHR ''X''})
        then ''0x'' @ str else str)" by auto
qed

end

end
