(* ===== verification/Kconfig_Menu.thy ===== *)
theory Kconfig_Menu
  imports Kconfig_Values
begin

text \<open>
  The menu tree, \<open>package/config/menu.c\<close>: the operations the parser of the configuration files
  calls to build it, the pass \<open>menu_finalize\<close> that gives every entry its full dependency,
  nests entries under the symbol they depend on and links choices to their members, and the
  queries of the front ends.

  The parser's position (\<open>current_entry\<close>, \<open>current_menu\<close>, \<open>last_entry_ptr\<close>) and the warnings
  are in \<open>pstate\<close>, around the state of the symbol engine. Expressions are values: no tree the
  code shares between two places is changed in one of them. \<open>None\<close> is a NULL pointer that is
  followed, or an exhausted bound on the number of entries visited.
\<close>

datatype entry_ptr = ListOf nat | NextOf nat

datatype warning =
    TypeRedefined nat symbol_type symbol_type
  | PromptRedefined nat
  | DefaultNotSymbol nat
  | SelectNotBoolean nat
  | SelectUndefined nat
  | SelectWrongType nat
  | RangeNotNumber nat
  | RangeInvalid nat
  | ChoiceValueNoPrompt nat
  | ChoiceValuePrompts nat
  | ChoiceValueDefault nat
  | NoType nat
  | ChoiceNoPrompt nat

record pstate =
  ks :: kstate
  current_entry :: nat
  current_menu :: nat
  last_entry_ptr :: entry_ptr
  warnings :: "warning list"

definition rootmenu :: nat where "rootmenu = 0"

definition menu_at :: "pstate \<Rightarrow> nat \<Rightarrow> menu" where
  "menu_at ps m = menus (ks ps) m"

definition warn :: "warning \<Rightarrow> pstate \<Rightarrow> pstate" where
  "warn w ps = ps\<lparr>warnings := warnings ps @ [w]\<rparr>"

definition on_ks :: "(kstate \<Rightarrow> kstate) \<Rightarrow> pstate \<Rightarrow> pstate" where
  "on_ks f ps = ps\<lparr>ks := f (ks ps)\<rparr>"

section \<open>Building the tree\<close>

definition menu_init :: "pstate \<Rightarrow> pstate" where
  "menu_init ps = ps\<lparr>current_entry := rootmenu, current_menu := rootmenu, last_entry_ptr := ListOf rootmenu\<rparr>"

definition set_entry_ptr :: "entry_ptr \<Rightarrow> nat option \<Rightarrow> kstate \<Rightarrow> kstate" where
  "set_entry_ptr ptr m =
     (case ptr of ListOf i \<Rightarrow> upd_menu i (m_list_update (\<lambda>_. m)) | NextOf i \<Rightarrow> upd_menu i (m_next_update (\<lambda>_. m)))"

definition new_menu :: "symref option \<Rightarrow> nat \<Rightarrow> menu" where
  "new_menu s par = \<lparr>m_next = None, m_parent = Some par, m_list = None, m_sym = s, m_prompt = None,
     m_dep = None, m_flags = {}\<rparr>"

definition menu_add_entry :: "symref option \<Rightarrow> pstate \<Rightarrow> pstate" where
  "menu_add_entry s ps =
     (let m = next_menu (ks ps);
          st = (ks ps)\<lparr>next_menu := Suc m, menus := (menus (ks ps))(m := new_menu s (current_menu ps))\<rparr>;
          st = set_entry_ptr (last_entry_ptr ps) (Some m) st
      in ps\<lparr>ks := st, last_entry_ptr := NextOf m, current_entry := m\<rparr>)"

definition menu_end_entry :: "pstate \<Rightarrow> pstate" where
  "menu_end_entry ps = ps"

definition menu_add_menu :: "pstate \<Rightarrow> pstate" where
  "menu_add_menu ps = ps\<lparr>current_menu := current_entry ps, last_entry_ptr := ListOf (current_entry ps)\<rparr>"

definition menu_end_menu :: "pstate \<Rightarrow> pstate option" where
  "menu_end_menu ps =
     (case m_parent (menu_at ps (current_menu ps)) of
        None \<Rightarrow> None
      | Some par \<Rightarrow> Some (ps\<lparr>last_entry_ptr := NextOf (current_menu ps), current_menu := par\<rparr>))"

text \<open>
  \<open>m\<close> in a condition becomes \<open>m && MODULES\<close>. With no module symbol the code makes a node that
  holds a NULL symbol; the result is then \<open>None\<close>.
\<close>

fun check_dep :: "symref option \<Rightarrow> expr \<Rightarrow> expr option" where
  "check_dep M (ENot l) = do { l \<leftarrow> check_dep M l; Some (ENot l) }"
| "check_dep M (EOr l r) = do { l \<leftarrow> check_dep M l; r \<leftarrow> check_dep M r; Some (EOr l r) }"
| "check_dep M (EAnd l r) = do { l \<leftarrow> check_dep M l; r \<leftarrow> check_dep M r; Some (EAnd l r) }"
| "check_dep M (ESymbol s) =
     (if s = SymMod
      then do { m \<leftarrow> M; expr_alloc_and (Some (ESymbol s)) (Some (expr_alloc_symbol m)) }
      else Some (ESymbol s))"
| "check_dep M e = Some e"

fun menu_check_dep :: "kstate \<Rightarrow> expr option \<Rightarrow> expr option option" where
  "menu_check_dep st None = Some None"
| "menu_check_dep st (Some e) = map_option Some (check_dep (modules_sym st) e)"

definition menu_add_dep :: "expr option \<Rightarrow> pstate \<Rightarrow> pstate option" where
  "menu_add_dep dep ps =
     do { dep \<leftarrow> menu_check_dep (ks ps) dep;
          let m = current_entry ps;
          Some (on_ks (upd_menu m (m_dep_update (\<lambda>d. expr_alloc_and d dep))) ps) }"

definition menu_set_type :: "symbol_type \<Rightarrow> pstate \<Rightarrow> pstate option" where
  "menu_set_type type ps =
     do { r \<leftarrow> m_sym (menu_at ps (current_entry ps));
          let ty = s_type (syms (ks ps) r);
          Some (if ty = type then ps
                else if ty = S_UNKNOWN then on_ks (upd_sym r (s_type_update (\<lambda>_. type))) ps
                else warn (TypeRedefined (current_entry ps) ty type) ps) }"

definition menu_add_prop ::
  "prop_type \<Rightarrow> string option \<Rightarrow> expr option \<Rightarrow> expr option \<Rightarrow> pstate \<Rightarrow> (nat \<times> pstate) option" where
  "menu_add_prop type prompt e dep ps =
     do { let m = current_entry ps;
          let (p, st) = prop_alloc type (m_sym (menu_at ps m)) (ks ps);
          dep \<leftarrow> menu_check_dep st dep;
          let st = upd_prop p (\<lambda>q. q\<lparr>p_menu := Some m, p_text := prompt, p_expr := e,
                     p_visible := (p_visible q)\<lparr>ev_expr := dep\<rparr>\<rparr>) st;
          let ps = ps\<lparr>ks := st\<rparr>;
          Some (p, if prompt = None then ps
                   else on_ks (upd_menu m (m_prompt_update (\<lambda>_. Some p)))
                     (if m_prompt (menu_at ps m) \<noteq> None then warn (PromptRedefined m) ps else ps)) }"

definition menu_add_prompt :: "prop_type \<Rightarrow> string \<Rightarrow> expr option \<Rightarrow> pstate \<Rightarrow> pstate option" where
  "menu_add_prompt type prompt dep ps = map_option snd (menu_add_prop type (Some prompt) None dep ps)"

definition menu_add_expr :: "prop_type \<Rightarrow> expr option \<Rightarrow> expr option \<Rightarrow> pstate \<Rightarrow> pstate option" where
  "menu_add_expr type e dep ps = map_option snd (menu_add_prop type None e dep ps)"

definition menu_add_symbol :: "prop_type \<Rightarrow> symref \<Rightarrow> expr option \<Rightarrow> pstate \<Rightarrow> pstate option" where
  "menu_add_symbol type s dep ps =
     map_option snd (menu_add_prop type None (Some (expr_alloc_symbol s)) dep ps)"

section \<open>Checking the properties of a symbol\<close>

definition check_default :: "kstate \<Rightarrow> symref \<Rightarrow> nat \<Rightarrow> warning list option" where
  "check_default st r p =
     (if s_type (syms st r) \<in> {S_STRING, S_INT, S_HEX} then
        (case p_expr (props st p) of
           None \<Rightarrow> None
         | Some e \<Rightarrow> Some (if etype e \<noteq> E_SYMBOL then [DefaultNotSymbol p] else []))
      else Some [])"

definition check_select :: "kstate \<Rightarrow> symref \<Rightarrow> nat \<Rightarrow> warning list option" where
  "check_select st r p =
     do { s \<leftarrow> prop_get_symbol st p;
          if s_type (syms st r) \<notin> {S_BOOLEAN, S_TRISTATE} then Some [SelectNotBoolean p]
          else do {
            s \<leftarrow> s;
            let ty = s_type (syms st s);
            Some (if ty = S_UNKNOWN then [SelectUndefined p]
                  else if ty \<noteq> S_BOOLEAN \<and> ty \<noteq> S_TRISTATE then [SelectWrongType p]
                  else []) } }"

definition check_range :: "kstate \<Rightarrow> symref \<Rightarrow> nat \<Rightarrow> warning list option" where
  "check_range st r p =
     (case p_expr (props st p) of
        Some (ERange a b) \<Rightarrow>
          do { lo \<leftarrow> s_name (syms st a);
               hi \<leftarrow> s_name (syms st b);
               Some ((if s_type (syms st r) \<notin> {S_INT, S_HEX} then [RangeNotNumber p] else []) @
                     (if \<not> sym_string_valid st r lo \<or> \<not> sym_string_valid st r hi
                      then [RangeInvalid p] else [])) }
      | _ \<Rightarrow> None)"

fun check_each_prop :: "kstate \<Rightarrow> symref \<Rightarrow> nat list \<Rightarrow> warning list option" where
  "check_each_prop st r [] = Some []"
| "check_each_prop st r (p # ps) =
     do { w \<leftarrow> (case p_type (props st p) of
                   P_DEFAULT \<Rightarrow> check_default st r p
                 | P_SELECT \<Rightarrow> check_select st r p
                 | P_RANGE \<Rightarrow> check_range st r p
                 | _ \<Rightarrow> Some []);
          ws \<leftarrow> check_each_prop st r ps;
          Some (w @ ws) }"

definition sym_check_prop :: "kstate \<Rightarrow> symref \<Rightarrow> warning list option" where
  "sym_check_prop st r = check_each_prop st r (s_prop (syms st r))"

section \<open>Finalising the tree\<close>

text \<open>The expression passes on a pointer that may be NULL.\<close>

definition otransform :: "symtab \<Rightarrow> expr option \<Rightarrow> expr option" where
  "otransform T e = map_option (expr_transform T) e"

definition ocopy :: "expr option \<Rightarrow> expr option" where
  "ocopy e = Option.bind e expr_copy"

definition odups :: "symtab \<Rightarrow> expr option \<Rightarrow> expr option option" where
  "odups T e = (case e of None \<Rightarrow> Some None | Some e \<Rightarrow> map_option Some (expr_eliminate_dups T e))"

text \<open>\<open>d && e\<close>, with the duplicates eliminated: \<open>e\<close> is first transformed, \<open>d\<close> copied.\<close>

definition and_dep :: "symtab \<Rightarrow> expr option \<Rightarrow> expr option \<Rightarrow> expr option option" where
  "and_dep T d e = odups T (expr_alloc_and (ocopy d) (otransform T e))"

text \<open>The menu entries of a list, in order; the first argument bounds their number.\<close>

fun entries :: "nat \<Rightarrow> kstate \<Rightarrow> nat option \<Rightarrow> nat list option" where
  "entries k st None = Some []"
| "entries 0 st (Some m) = None"
| "entries (Suc k) st (Some m) = do { ms \<leftarrow> entries k st (m_next (menus st m)); Some (m # ms) }"

text \<open>The type of a choice and of its first member fix each other.\<close>

fun first_sym :: "kstate \<Rightarrow> nat list \<Rightarrow> (nat \<times> symref) option" where
  "first_sym st [] = None"
| "first_sym st (m # ms) = (case m_sym (menus st m) of Some r \<Rightarrow> Some (m, r) | None \<Rightarrow> first_sym st ms)"

definition choice_type :: "nat \<Rightarrow> symref \<Rightarrow> nat list \<Rightarrow> pstate \<Rightarrow> pstate option" where
  "choice_type parent r ms ps =
     (case first_sym (ks ps) ms of
        None \<Rightarrow> Some ps
      | Some (m, s) \<Rightarrow>
          do { ps \<leftarrow> menu_set_type (s_type (syms (ks ps) s)) (ps\<lparr>current_entry := parent\<rparr>);
               menu_set_type (s_type (syms (ks ps) r)) (ps\<lparr>current_entry := m\<rparr>) })"

text \<open>The condition of a property gets the entry's; what it selects gets a reverse dependency.\<close>

definition add_rev_dep :: "symref \<Rightarrow> expr option \<Rightarrow> kstate \<Rightarrow> kstate" where
  "add_rev_dep s e = upd_sym s (s_rev_dep_update (ev_expr_update (\<lambda>d. expr_alloc_or d e)))"

definition fin_prop :: "nat \<Rightarrow> expr option \<Rightarrow> nat \<Rightarrow> kstate \<Rightarrow> kstate option" where
  "fin_prop m basedep p st =
     do { dep \<leftarrow> and_dep (syms st) basedep (ev_expr (p_visible (props st p)));
          let dep = (case m_sym (menus st m) of
                       None \<Rightarrow> dep
                     | Some r \<Rightarrow> if s_type (syms st r) \<noteq> S_TRISTATE
                                 then map_option (expr_trans_bool (syms st)) dep else dep);
          let st = upd_prop p (p_visible_update (ev_expr_update (\<lambda>_. dep))) st;
          if p_type (props st p) = P_SELECT then
            do { es \<leftarrow> prop_get_symbol st p;
                 es \<leftarrow> es;
                 r \<leftarrow> m_sym (menus st m);
                 Some (add_rev_dep es (expr_alloc_and (Some (expr_alloc_symbol r)) (ocopy dep)) st) }
          else Some st }"

fun fin_props :: "nat \<Rightarrow> expr option \<Rightarrow> nat list \<Rightarrow> kstate \<Rightarrow> kstate option" where
  "fin_props m basedep [] st = Some st"
| "fin_props m basedep (p # ps) st =
     (if p_menu (props st p) \<noteq> Some m then fin_props m basedep ps st
      else do { st \<leftarrow> fin_prop m basedep p st; fin_props m basedep ps st })"

definition entry_props :: "kstate \<Rightarrow> nat \<Rightarrow> nat list" where
  "entry_props st m =
     (case m_sym (menus st m) of
        Some r \<Rightarrow> s_prop (syms st r)
      | None \<Rightarrow> (case m_prompt (menus st m) of None \<Rightarrow> [] | Some p \<Rightarrow> [p]))"

fun fin_deps :: "expr option \<Rightarrow> nat list \<Rightarrow> kstate \<Rightarrow> kstate option" where
  "fin_deps parentdep [] st = Some st"
| "fin_deps parentdep (m # ms) st =
     do { basedep \<leftarrow> and_dep (syms st) parentdep (m_dep (menus st m));
          let st = upd_menu m (m_dep_update (\<lambda>_. basedep)) st;
          st \<leftarrow> fin_props m basedep (entry_props st m) st;
          fin_deps parentdep ms st }"

text \<open>What all children of an entry depend on.\<close>

definition parent_dep :: "kstate \<Rightarrow> nat \<Rightarrow> expr option" where
  "parent_dep st m =
     (case m_prompt (menus st m) of Some p \<Rightarrow> ev_expr (p_visible (props st p)) | None \<Rightarrow> m_dep (menus st m))"

definition fin_list :: "nat \<Rightarrow> nat \<Rightarrow> pstate \<Rightarrow> pstate option" where
  "fin_list k parent ps =
     do { ms \<leftarrow> entries k (ks ps) (m_list (menu_at ps parent));
          (parentdep, ps) \<leftarrow>
            (case m_sym (menu_at ps parent) of
               Some r \<Rightarrow>
                 if sym_is_choice (ks ps) r then
                   do { ps \<leftarrow> choice_type parent r ms ps; Some (Some (expr_alloc_symbol r), ps) }
                 else Some (parent_dep (ks ps) parent, ps)
             | None \<Rightarrow> Some (parent_dep (ks ps) parent, ps));
          st \<leftarrow> fin_deps parentdep ms (ks ps);
          Some (ps\<lparr>ks := st\<rparr>) }"

text \<open>
  Whether the entry \<open>m\<close> belongs under the symbol \<open>r\<close>, whose prompt is not \<open>n\<close> when \<open>basedep\<close>
  is \<open>y\<close>: it depends on the symbol, and its condition implies the symbol's.
\<close>

definition not_n :: "symtab \<Rightarrow> expr option \<Rightarrow> expr option option" where
  "not_n T e = odups T (otransform T (expr_trans_compare e E_UNEQUAL SymNo))"

definition nests :: "kstate \<Rightarrow> symref \<Rightarrow> expr option \<Rightarrow> nat \<Rightarrow> bool option" where
  "nests st r basedep m =
     (let dep = parent_dep st m in
      if \<not> expr_contains_symbol dep r then Some False
      else if expr_depends_symbol dep r then Some True
      else do { dep \<leftarrow> not_n (syms st) dep;
                let (dep, dep2, n) = expr_eliminate_eq (syms st) dep (ocopy basedep) 0;
                Some (expr_is_yes dep2) })"

text \<open>The members of a choice.\<close>

fun choice_append :: "expr option \<Rightarrow> symref \<Rightarrow> expr option" where
  "choice_append None d = Some (EChoice None d)"
| "choice_append (Some (EChoice l s)) d = do { l \<leftarrow> choice_append l d; Some (EChoice (Some l) s) }"
| "choice_append (Some e) d = None"

definition member_warnings :: "kstate \<Rightarrow> nat \<Rightarrow> symref \<Rightarrow> warning list" where
  "member_warnings st m s =
     (if m_prompt (menus st m) = None then [ChoiceValueNoPrompt m] else []) @
     concat (map (\<lambda>p.
       (if p_type (props st p) = P_PROMPT \<and> p_menu (props st p) \<noteq> Some m then [ChoiceValuePrompts p] else []) @
       (if p_type (props st p) = P_DEFAULT then [ChoiceValueDefault p] else [])) (s_prop (syms st s)))"

definition add_member :: "symref \<Rightarrow> nat \<Rightarrow> symref \<Rightarrow> pstate \<Rightarrow> pstate option" where
  "add_member r m s ps =
     do { let ps = on_ks (set_flags s {SYMBOL_CHOICEVAL}) ps;
          let ps = ps\<lparr>warnings := warnings ps @ member_warnings (ks ps) m s, current_entry := m\<rparr>;
          ps \<leftarrow> menu_set_type (s_type (syms (ks ps) r)) ps;
          ps \<leftarrow> menu_add_symbol P_CHOICE r None ps;
          p \<leftarrow> sym_get_choice_prop (ks ps) r;
          e \<leftarrow> choice_append (p_expr (props (ks ps) p)) s;
          Some (on_ks (upd_prop p (p_expr_update (\<lambda>_. Some e))) ps) }"

text \<open>An entry without a prompt hands its list on to its parent.\<close>

fun adopt :: "nat \<Rightarrow> nat \<Rightarrow> nat \<Rightarrow> kstate \<Rightarrow> (nat \<times> kstate) option" where
  "adopt 0 parent m st = None"
| "adopt (Suc k) parent m st =
     (let st = upd_menu m (m_parent_update (\<lambda>_. Some parent)) st in
      case m_next (menus st m) of None \<Rightarrow> Some (m, st) | Some n \<Rightarrow> adopt k parent n st)"

definition hidden :: "kstate \<Rightarrow> nat \<Rightarrow> bool" where
  "hidden st m \<longleftrightarrow> (case m_prompt (menus st m) of None \<Rightarrow> True | Some p \<Rightarrow> p_text (props st p) = None)"

definition flatten :: "nat \<Rightarrow> nat \<Rightarrow> nat \<Rightarrow> kstate \<Rightarrow> kstate option" where
  "flatten k parent m st =
     (case m_list (menus st m) of
        None \<Rightarrow> Some st
      | Some l \<Rightarrow>
          if \<not> hidden st m then Some st
          else do { (lastm, st) \<leftarrow> adopt k parent l st;
                    let st = upd_menu lastm (m_next_update (\<lambda>_. m_next (menus st m))) st;
                    Some (upd_menu m (\<lambda>x. x\<lparr>m_next := m_list x, m_list := None\<rparr>) st) })"

fun fin_members :: "nat \<Rightarrow> nat \<Rightarrow> nat option \<Rightarrow> pstate \<Rightarrow> pstate option" where
  "fin_members k parent None ps = Some ps"
| "fin_members 0 parent (Some m) ps = None"
| "fin_members (Suc k) parent (Some m) ps =
     do { ps \<leftarrow> (case (m_sym (menu_at ps parent), m_sym (menu_at ps m)) of
                   (Some r, Some s) \<Rightarrow> if sym_is_choice (ks ps) r then add_member r m s ps else Some ps
                 | _ \<Rightarrow> Some ps);
          st \<leftarrow> flatten k parent m (ks ps);
          let ps = ps\<lparr>ks := st\<rparr>;
          fin_members k parent (m_next (menu_at ps m)) ps }"

definition fin_warn :: "nat \<Rightarrow> symref \<Rightarrow> pstate \<Rightarrow> pstate option" where
  "fin_warn parent r ps =
     (if SYMBOL_WARNED \<in> s_flags (syms (ks ps) r) then Some ps
      else do {
        let ps = (if s_type (syms (ks ps) r) = S_UNKNOWN then warn (NoType parent) ps else ps);
        let ps = (if sym_is_choice (ks ps) r \<and> m_prompt (menu_at ps parent) = None
                  then warn (ChoiceNoPrompt parent) ps else ps);
        ws \<leftarrow> sym_check_prop (ks ps) r;
        Some (on_ks (set_flags r {SYMBOL_WARNED}) (ps\<lparr>warnings := warnings ps @ ws\<rparr>)) })"

definition fin_rev_dep :: "nat \<Rightarrow> symref \<Rightarrow> kstate \<Rightarrow> kstate" where
  "fin_rev_dep parent r st =
     (case m_prompt (menus st parent) of
        None \<Rightarrow> st
      | Some p \<Rightarrow>
          if sym_is_optional st r then st
          else add_rev_dep r (expr_alloc_and (ev_expr (p_visible (props st p)))
                 (Some (expr_alloc_symbol SymMod))) st)"

definition fin_end :: "nat \<Rightarrow> nat \<Rightarrow> pstate \<Rightarrow> pstate option" where
  "fin_end k parent ps =
     do { ps \<leftarrow> fin_members k parent (m_list (menu_at ps parent)) ps;
          (case m_sym (menu_at ps parent) of
             None \<Rightarrow> Some ps
           | Some r \<Rightarrow> map_option (on_ks (fin_rev_dep parent r)) (fin_warn parent r ps)) }"

text \<open>
  The three recursions share the bound: on an entry, on the entries of its list, and on the
  entries that follow it.
\<close>

definition link_nested :: "nat \<Rightarrow> nat option \<Rightarrow> kstate \<Rightarrow> kstate" where
  "link_nested parent lastm st =
     (case lastm of
        None \<Rightarrow> st
      | Some l \<Rightarrow>
          (let st = upd_menu parent (\<lambda>x. x\<lparr>m_list := m_next x\<rparr>) st;
               st = upd_menu parent (m_next_update (\<lambda>_. m_next (menus st l))) st
           in upd_menu l (m_next_update (\<lambda>_. None)) st))"

fun menu_finalize :: "nat \<Rightarrow> nat \<Rightarrow> pstate \<Rightarrow> pstate option"
  and finalize_each :: "nat \<Rightarrow> nat option \<Rightarrow> pstate \<Rightarrow> pstate option"
  and nest_each :: "nat \<Rightarrow> nat \<Rightarrow> symref \<Rightarrow> expr option \<Rightarrow> nat option \<Rightarrow> nat option \<Rightarrow> pstate \<Rightarrow>
    (nat option \<times> pstate) option" where
  "menu_finalize 0 parent ps = None"
| "menu_finalize (Suc k) parent ps =
     do { ps \<leftarrow>
            (if m_list (menu_at ps parent) \<noteq> None then
               do { ps \<leftarrow> fin_list k parent ps;
                    finalize_each k (m_list (menu_at ps parent)) ps }
             else
               (case m_sym (menu_at ps parent) of
                  None \<Rightarrow> Some ps
                | Some r \<Rightarrow>
                    do { basedep \<leftarrow> not_n (syms (ks ps))
                           (case m_prompt (menu_at ps parent) of
                              None \<Rightarrow> None | Some p \<Rightarrow> ev_expr (p_visible (props (ks ps) p)));
                         (lastm, ps) \<leftarrow> nest_each k parent r basedep (m_next (menu_at ps parent)) None ps;
                         Some (on_ks (link_nested parent lastm) ps) }));
          fin_end k parent ps }"
| "finalize_each k None ps = Some ps"
| "finalize_each 0 (Some m) ps = None"
| "finalize_each (Suc k) (Some m) ps =
     do { ps \<leftarrow> menu_finalize k m ps; finalize_each k (m_next (menu_at ps m)) ps }"
| "nest_each k parent r basedep None lastm ps = Some (lastm, ps)"
| "nest_each 0 parent r basedep (Some m) lastm ps = None"
| "nest_each (Suc k) parent r basedep (Some m) lastm ps =
     do { b \<leftarrow> nests (ks ps) r basedep m;
          if \<not> b then Some (lastm, ps)
          else do {
            ps \<leftarrow> menu_finalize k m ps;
            let ps = on_ks (upd_menu m (m_parent_update (\<lambda>_. Some parent))) ps;
            nest_each k parent r basedep (m_next (menu_at ps m)) (Some m) ps } }"

section \<open>Queries\<close>

text \<open>Whether an entry is shown; its prompt's visibility is computed on the way.\<close>

fun menu_is_visible :: "calc \<Rightarrow> nat \<Rightarrow> nat \<Rightarrow> kstate \<Rightarrow> (bool \<times> kstate) option"
  and any_visible :: "calc \<Rightarrow> nat \<Rightarrow> nat option \<Rightarrow> kstate \<Rightarrow> (bool \<times> kstate) option" where
  "menu_is_visible calc 0 m st = None"
| "menu_is_visible calc (Suc k) m st =
     (case m_prompt (menus st m) of
        None \<Rightarrow> Some (False, st)
      | Some p \<Rightarrow>
          do { (visible, st) \<leftarrow>
                 (case m_sym (menus st m) of
                    Some r \<Rightarrow> do { st \<leftarrow> calc r st; Some (ev_tri (p_visible (props st p)), st) }
                  | None \<Rightarrow> prop_calc_visible calc p st);
               if visible \<noteq> No then Some (True, st)
               else (case m_sym (menus st m) of
                       None \<Rightarrow> Some (False, st)
                     | Some r \<Rightarrow>
                         if sym_get_tristate_value st r = No then Some (False, st)
                         else any_visible calc k (m_list (menus st m)) st) })"
| "any_visible calc k None st = Some (False, st)"
| "any_visible calc 0 (Some c) st = None"
| "any_visible calc (Suc k) (Some c) st =
     do { (v, st) \<leftarrow> menu_is_visible calc k c st;
          if v then Some (True, st) else any_visible calc k (m_next (menus st c)) st }"

definition menu_get_prompt :: "kstate \<Rightarrow> nat \<Rightarrow> string option" where
  "menu_get_prompt st m =
     (case m_prompt (menus st m) of
        Some p \<Rightarrow> p_text (props st p)
      | None \<Rightarrow> (case m_sym (menus st m) of Some r \<Rightarrow> s_name (syms st r) | None \<Rightarrow> None))"

definition menu_get_root_menu :: "nat \<Rightarrow> nat" where
  "menu_get_root_menu m = rootmenu"

fun menu_get_parent_menu :: "nat \<Rightarrow> kstate \<Rightarrow> nat \<Rightarrow> nat option" where
  "menu_get_parent_menu 0 st m = None"
| "menu_get_parent_menu (Suc k) st m =
     (if m = rootmenu then Some m
      else if (case m_prompt (menus st m) of Some p \<Rightarrow> p_type (props st p) | None \<Rightarrow> P_UNKNOWN) = P_MENU
      then Some m
      else do { par \<leftarrow> m_parent (menus st m); menu_get_parent_menu k st par })"

end
