(* ===== verification/Kconfig_Tree.thy ===== *)
theory Kconfig_Tree
  imports Kconfig_Menu
begin

text \<open>
  The parser's calls build the tree they describe: what a source file nests is what the linked
  entries hold, in order, and the parser's position is back where it was.
\<close>

section \<open>Sources and trees\<close>

text \<open>A single entry, or a menu, choice or condition with the entries in it.\<close>

datatype entry = Entry "symref option" | Block "symref option" "entry list"

fun build :: "entry \<Rightarrow> pstate \<Rightarrow> pstate option"
  and build_list :: "entry list \<Rightarrow> pstate \<Rightarrow> pstate option" where
  "build (Entry s) ps = Some (menu_end_entry (menu_add_entry s ps))"
| "build (Block s es) ps =
     do { ps \<leftarrow> build_list es (menu_add_menu (menu_add_entry s ps)); menu_end_menu ps }"
| "build_list [] ps = Some ps"
| "build_list (e # es) ps = do { ps \<leftarrow> build e ps; build_list es ps }"

text \<open>The list at a pointer holds these entries, all of them in the set \<open>A\<close>.\<close>

fun tree :: "(nat \<Rightarrow> menu) \<Rightarrow> nat set \<Rightarrow> nat \<Rightarrow> nat option \<Rightarrow> entry list \<Rightarrow> bool" where
  "tree M A par p [] \<longleftrightarrow> p = None"
| "tree M A par p (Entry s # es) \<longleftrightarrow>
     (\<exists>m \<in> A. p = Some m \<and> m_sym (M m) = s \<and> m_parent (M m) = Some par \<and> m_list (M m) = None \<and>
        tree M A par (m_next (M m)) es)"
| "tree M A par p (Block s fs # es) \<longleftrightarrow>
     (\<exists>m \<in> A. p = Some m \<and> m_sym (M m) = s \<and> m_parent (M m) = Some par \<and>
        tree M A m (m_list (M m)) fs \<and> tree M A par (m_next (M m)) es)"

lemma tree_cong: "tree M A par p es \<Longrightarrow> \<forall>m \<in> A. M' m = M m \<Longrightarrow> A \<subseteq> B \<Longrightarrow> tree M' B par p es"
proof (induction M A par p es rule: tree.induct)
  case (2 M A par p s es)
  then show ?case by (auto simp: subset_iff)
next
  case (3 M A par p s fs es)
  then obtain m where m: "m \<in> A" "p = Some m" "m_sym (M m) = s" "m_parent (M m) = Some par"
    "tree M A m (m_list (M m)) fs" "tree M A par (m_next (M m)) es" by auto
  with "3.IH"(1) [of m] "3.IH"(2) [of m] "3.prems"(2,3) have
    "tree M' B m (m_list (M' m)) fs" "tree M' B par (m_next (M' m)) es" by auto
  with m "3.prems"(2,3) show ?case by auto
qed simp

section \<open>The pointer the next entry goes to\<close>

definition owner :: "entry_ptr \<Rightarrow> nat" where
  "owner ptr = (case ptr of ListOf i \<Rightarrow> i | NextOf i \<Rightarrow> i)"

definition cell :: "entry_ptr \<Rightarrow> menu \<Rightarrow> nat option" where
  "cell ptr x = (case ptr of ListOf i \<Rightarrow> m_list x | NextOf i \<Rightarrow> m_next x)"

definition put_cell :: "entry_ptr \<Rightarrow> nat option \<Rightarrow> menu \<Rightarrow> menu" where
  "put_cell ptr v x = (case ptr of ListOf i \<Rightarrow> x\<lparr>m_list := v\<rparr> | NextOf i \<Rightarrow> x\<lparr>m_next := v\<rparr>)"

lemma set_entry_ptr_menus:
  "menus (set_entry_ptr ptr v st) = (menus st)(owner ptr := put_cell ptr v (menus st (owner ptr)))"
  by (cases ptr) (simp_all add: set_entry_ptr_def upd_menu_def owner_def put_cell_def)

lemma set_entry_ptr_simps [simp]:
  "next_menu (set_entry_ptr p v st) = next_menu st" "syms (set_entry_ptr p v st) = syms st"
  "props (set_entry_ptr p v st) = props st"
  by (cases p; simp add: set_entry_ptr_def upd_menu_def)+

lemma put_cell_simps [simp]:
  "m_sym (put_cell ptr v x) = m_sym x" "m_parent (put_cell ptr v x) = m_parent x"
  "m_prompt (put_cell ptr v x) = m_prompt x" "m_dep (put_cell ptr v x) = m_dep x"
  "cell ptr (put_cell ptr v x) = v"
  "m_list (put_cell (ListOf i) v x) = v" "m_next (put_cell (ListOf i) v x) = m_next x"
  "m_next (put_cell (NextOf i) v x) = v" "m_list (put_cell (NextOf i) v x) = m_list x"
  "put_cell ptr v (put_cell ptr w x) = put_cell ptr v x" "put_cell ptr (cell ptr x) x = x"
  by (cases ptr; simp add: put_cell_def cell_def)+

lemma owner_simps [simp]: "owner (ListOf i) = i" "owner (NextOf i) = i"
  by (simp_all add: owner_def)

lemma cell_simps [simp]: "cell (ListOf i) x = m_list x" "cell (NextOf i) x = m_next x"
  by (simp_all add: cell_def)

definition slot_free :: "pstate \<Rightarrow> bool" where
  "slot_free ps \<longleftrightarrow> cell (last_entry_ptr ps) (menus (ks ps) (owner (last_entry_ptr ps))) = None \<and>
     owner (last_entry_ptr ps) < next_menu (ks ps) \<and> current_menu ps < next_menu (ks ps)"

text \<open>What building one entry and building a list of entries do.\<close>

fun entry_sym :: "entry \<Rightarrow> symref option" where
  "entry_sym (Entry s) = s"
| "entry_sym (Block s es) = s"

fun entry_list :: "entry \<Rightarrow> entry list" where
  "entry_list (Entry s) = []"
| "entry_list (Block s es) = es"

lemma tree_Cons:
  "tree M A par p (e # es) \<longleftrightarrow>
     (\<exists>m \<in> A. p = Some m \<and> m_sym (M m) = entry_sym e \<and> m_parent (M m) = Some par \<and>
        tree M A m (m_list (M m)) (entry_list e) \<and> tree M A par (m_next (M m)) es)"
  by (cases e) auto

definition linked :: "pstate \<Rightarrow> nat option \<Rightarrow> pstate \<Rightarrow> bool" where
  "linked ps v ps' \<longleftrightarrow>
     next_menu (ks ps) \<le> next_menu (ks ps') \<and> current_menu ps' = current_menu ps \<and> slot_free ps' \<and>
     (\<forall>i < next_menu (ks ps). menus (ks ps') i =
        (if i = owner (last_entry_ptr ps) then put_cell (last_entry_ptr ps) v (menus (ks ps) i)
         else menus (ks ps) i)) \<and>
     syms (ks ps') = syms (ks ps) \<and> props (ks ps') = props (ks ps)"

definition built1 :: "pstate \<Rightarrow> entry \<Rightarrow> pstate \<Rightarrow> bool" where
  "built1 ps e ps' \<longleftrightarrow>
     (let n = next_menu (ks ps); x = menus (ks ps') n in
      linked ps (Some n) ps' \<and> last_entry_ptr ps' = NextOf n \<and> n < next_menu (ks ps') \<and>
      m_sym x = entry_sym e \<and> m_parent x = Some (current_menu ps) \<and>
      tree (menus (ks ps')) {Suc n..<next_menu (ks ps')} n (m_list x) (entry_list e))"

definition built :: "pstate \<Rightarrow> entry list \<Rightarrow> pstate \<Rightarrow> bool" where
  "built ps es ps' \<longleftrightarrow>
     (\<exists>v. linked ps v ps' \<and> (es = [] \<longrightarrow> ps' = ps \<and> v = None) \<and>
        (es \<noteq> [] \<longrightarrow> next_menu (ks ps) \<le> owner (last_entry_ptr ps')) \<and>
        tree (menus (ks ps')) {next_menu (ks ps)..<next_menu (ks ps')} (current_menu ps) v es)"

lemma add_entry_step:
  assumes "slot_free ps"
  defines "n \<equiv> next_menu (ks ps)" and "ptr \<equiv> last_entry_ptr ps"
  shows "menus (ks (menu_add_entry s ps)) =
      (menus (ks ps))(n := new_menu s (current_menu ps), owner ptr := put_cell ptr (Some n) (menus (ks ps) (owner ptr)))"
    "next_menu (ks (menu_add_entry s ps)) = Suc n" "last_entry_ptr (menu_add_entry s ps) = NextOf n"
    "current_entry (menu_add_entry s ps) = n" "current_menu (menu_add_entry s ps) = current_menu ps"
    "syms (ks (menu_add_entry s ps)) = syms (ks ps)" "props (ks (menu_add_entry s ps)) = props (ks ps)"
proof -
  have "owner ptr < n" "current_menu ps < n" using assms by (simp_all add: slot_free_def)
  then show "menus (ks (menu_add_entry s ps)) =
      (menus (ks ps))(n := new_menu s (current_menu ps), owner ptr := put_cell ptr (Some n) (menus (ks ps) (owner ptr)))"
    by (simp add: menu_add_entry_def Let_def set_entry_ptr_menus n_def ptr_def)
qed (simp_all add: menu_add_entry_def Let_def n_def)

lemma new_menu_simps [simp]:
  "m_sym (new_menu s p) = s" "m_parent (new_menu s p) = Some p" "m_list (new_menu s p) = None"
  "m_next (new_menu s p) = None"
  by (simp_all add: new_menu_def)

lemma built_Nil: "slot_free ps \<Longrightarrow> built ps [] ps"
  unfolding built_def linked_def slot_free_def by (auto intro!: exI [of _ None]) (metis put_cell_simps(11))

text \<open>An entry and the rest of the list.\<close>

lemma built_Cons:
  assumes one: "built1 ps e ps1" and rest: "built ps1 es ps2"
  shows "built ps (e # es) ps2"
proof -
  define n where "n = next_menu (ks ps)"
  define n1 where "n1 = next_menu (ks ps1)"
  define n2 where "n2 = next_menu (ks ps2)"
  let ?M = "menus (ks ps)" and ?M1 = "menus (ks ps1)" and ?M2 = "menus (ks ps2)"
  from one have l1: "linked ps (Some n) ps1" and p1: "last_entry_ptr ps1 = NextOf n" and nn: "n < n1"
    and x: "m_sym (?M1 n) = entry_sym e" "m_parent (?M1 n) = Some (current_menu ps)"
      "tree ?M1 {Suc n..<n1} n (m_list (?M1 n)) (entry_list e)"
    unfolding built1_def Let_def n_def n1_def by simp_all
  from rest obtain v where l2: "linked ps1 v ps2" and e2: "es = [] \<longrightarrow> ps2 = ps1 \<and> v = None"
      "es \<noteq> [] \<longrightarrow> n1 \<le> owner (last_entry_ptr ps2)"
    and t2: "tree ?M2 {n1..<n2} (current_menu ps) v es"
    using l1 unfolding built_def n1_def n2_def linked_def by auto
  have M2: "?M2 i = (if i = n then put_cell (NextOf n) v (?M1 n) else ?M1 i)" if "i < n1" for i
    using l2 that unfolding linked_def p1 n1_def by simp
  have n12: "n1 \<le> n2" using l2 unfolding linked_def n1_def n2_def by simp
  have "tree ?M2 {n..<n2} n (m_list (?M1 n)) (entry_list e)"
    by (rule tree_cong [OF x(3)]) (use M2 n12 in auto)
  moreover have "tree ?M2 {n..<n2} (current_menu ps) v es"
    by (rule tree_cong [OF t2]) (use nn in auto)
  ultimately have "tree ?M2 {n..<n2} (current_menu ps) (Some n) (e # es)"
    unfolding tree_Cons using M2 [OF nn] x nn n12 by simp
  moreover have "linked ps (Some n) ps2"
    using l1 l2 M2 nn unfolding linked_def p1 n_def [symmetric] n1_def [symmetric] n2_def [symmetric] by auto
  moreover have "n \<le> owner (last_entry_ptr ps2)"
    using e2 nn p1 by (cases es) auto
  ultimately show ?thesis unfolding built_def n_def n2_def by auto
qed

lemma built1_Entry:
  assumes "slot_free ps"
  shows "built1 ps (Entry s) (menu_end_entry (menu_add_entry s ps))"
  using add_entry_step [OF assms, of s] assms
  by (simp add: built1_def Let_def linked_def menu_end_entry_def slot_free_def)

lemma built1_Block:
  assumes free: "slot_free ps" and "built (menu_add_menu (menu_add_entry s ps)) es ps1"
  shows "\<exists>ps'. menu_end_menu ps1 = Some ps' \<and> built1 ps (Block s es) ps'"
proof -
  define n where "n = next_menu (ks ps)"
  define n1 where "n1 = next_menu (ks ps1)"
  define ps0 where "ps0 = menu_add_menu (menu_add_entry s ps)"
  let ?M = "menus (ks ps)" and ?M1 = "menus (ks ps1)"
  note step = add_entry_step [OF free, of s, folded n_def]
  have lt: "owner (last_entry_ptr ps) < n" "current_menu ps < n" using free by (simp_all add: slot_free_def n_def)
  have c0: "current_menu ps0 = n" "last_entry_ptr ps0 = ListOf n" "next_menu (ks ps0) = Suc n"
    "menus (ks ps0) = menus (ks (menu_add_entry s ps))"
    using step by (simp_all add: ps0_def menu_add_menu_def)
  from assms(2) obtain v where l: "linked ps0 v ps1"
    and t: "tree ?M1 {Suc n..<n1} n v es"
    unfolding built_def ps0_def [symmetric] c0 n1_def by blast
  have M1: "?M1 i = (if i = n then put_cell (ListOf n) v (menus (ks ps0) n) else menus (ks ps0) i)" if "i \<le> n" for i
    using l that unfolding linked_def c0 by simp
  have cm: "current_menu ps1 = n" "Suc n \<le> n1" using l c0 unfolding linked_def n1_def by simp_all
  have x: "?M1 n = put_cell (ListOf n) v (new_menu s (current_menu ps))"
    using M1 [of n] c0(4) step lt by simp
  define ps' where "ps' = ps1\<lparr>last_entry_ptr := NextOf n, current_menu := current_menu ps\<rparr>"
  have e: "menu_end_menu ps1 = Some ps'"
    by (simp add: menu_end_menu_def menu_at_def cm x ps'_def)
  have "linked ps (Some n) ps'"
    using l M1 step lt cm c0(4) x unfolding linked_def n_def [symmetric] ps'_def n1_def
    by (auto simp: slot_free_def c0 ps0_def menu_add_menu_def)
  then have "built1 ps (Block s es) ps'"
    unfolding built1_def Let_def n_def [symmetric] using cm t x by (simp add: ps'_def n1_def)
  with e show ?thesis by blast
qed

lemma build_built:
  "slot_free ps \<Longrightarrow> \<exists>ps'. build e ps = Some ps' \<and> built1 ps e ps'"
  "slot_free ps \<Longrightarrow> \<exists>ps'. build_list es ps = Some ps' \<and> built ps es ps'"
proof (induction e ps and es ps rule: build_build_list.induct)
  case (1 s ps)
  then show ?case using built1_Entry by simp
next
  case (2 s es ps)
  have "slot_free (menu_add_menu (menu_add_entry s ps))"
    using add_entry_step [OF "2.prems", of s] "2.prems" by (simp add: slot_free_def menu_add_menu_def)
  from "2.IH" [OF this] built1_Block [OF "2.prems"] show ?case by fastforce
next
  case (3 ps)
  then show ?case using built_Nil by simp
next
  case (4 e es ps)
  from "4.IH"(1) [OF "4.prems"] obtain ps1 where 1: "build e ps = Some ps1" "built1 ps e ps1" by blast
  then have "slot_free ps1" by (simp add: built1_def Let_def linked_def)
  from "4.IH"(2) [OF 1(1) this] 1 built_Cons [OF 1(2)] show ?case by auto
qed

text \<open>From the start: the list of the root menu.\<close>

definition empty_tree :: "pstate \<Rightarrow> bool" where
  "empty_tree ps \<longleftrightarrow> rootmenu < next_menu (ks ps) \<and> m_list (menu_at ps rootmenu) = None"

lemma build_root:
  assumes "empty_tree ps"
  shows "\<exists>ps'. build_list es (menu_init ps) = Some ps' \<and> current_menu ps' = rootmenu \<and>
    tree (menus (ks ps')) {next_menu (ks ps)..<next_menu (ks ps')} rootmenu (m_list (menu_at ps' rootmenu)) es"
proof -
  have "slot_free (menu_init ps)"
    using assms by (simp add: empty_tree_def menu_init_def slot_free_def menu_at_def)
  from build_built(2) [OF this, of es] obtain ps' v where
    b: "build_list es (menu_init ps) = Some ps'" "linked (menu_init ps) v ps'"
    "tree (menus (ks ps')) {next_menu (ks ps)..<next_menu (ks ps')} rootmenu v es"
    unfolding built_def by (auto simp: menu_init_def)
  then have "m_list (menu_at ps' rootmenu) = v" "current_menu ps' = rootmenu"
    using assms unfolding linked_def by (auto simp: menu_init_def menu_at_def empty_tree_def)
  with b show ?thesis by auto
qed

end
