(* ===== verification/Kconfig_Menu_Proof.thy ===== *)
theory Kconfig_Menu_Proof
  imports Kconfig_Tree
begin

text \<open>
  What \<open>menu_finalize\<close> does to the conditions: the condition of an entry becomes its
  parent's and its own, that of a prompt the entry's and its own, and a selected symbol gets
  what selects it as a reverse dependency. Values are those of a table in which no symbol is
  \<open>m\<close> (there are no modules in this tool's configurations).
\<close>

section \<open>Tables that differ in reverse dependencies only\<close>

definition rev_only :: "symtab \<Rightarrow> symtab \<Rightarrow> bool" where
  "rev_only T T' \<longleftrightarrow> (\<forall>s. s_name (T' s) = s_name (T s) \<and> s_help (T' s) = s_help (T s) \<and>
     s_type (T' s) = s_type (T s) \<and> s_curr (T' s) = s_curr (T s) \<and> s_user (T' s) = s_user (T s) \<and>
     s_visible (T' s) = s_visible (T s) \<and> s_flags (T' s) = s_flags (T s) \<and> s_prop (T' s) = s_prop (T s))"

lemma rev_only_refl [simp]: "rev_only T T"
  by (simp add: rev_only_def)

lemma rev_only_trans: "rev_only T1 T2 \<Longrightarrow> rev_only T2 T3 \<Longrightarrow> rev_only T1 T3"
  by (simp add: rev_only_def)

lemma rev_only_fields:
  assumes "rev_only T T'"
  shows "s_type (T' s) = s_type (T s)" "s_curr (T' s) = s_curr (T s)" "s_flags (T' s) = s_flags (T s)"
    "s_name (T' s) = s_name (T s)" "s_prop (T' s) = s_prop (T s)"
  using assms by (simp_all add: rev_only_def)

lemma rev_only_vals:
  assumes "rev_only T T'"
  shows "sym_tri T' = sym_tri T" "sym_get_string_value T' = sym_get_string_value T"
    "expr_val T' e = expr_val T e" "oexpr_val T' o' = oexpr_val T o'" "is_const T' = is_const T"
    "tab_ok T' = tab_ok T" "dep2 T' e = dep2 T e"
proof -
  note f = rev_only_fields [OF assms]
  show s: "sym_tri T' = sym_tri T" "sym_get_string_value T' = sym_get_string_value T"
    by (simp_all add: fun_eq_iff sym_tri_def sym_get_string_value_def f cong: symbol_type.case_cong)
  show e: "expr_val T' e = expr_val T e" for e by (induction e) (simp_all add: s)
  then show "oexpr_val T' o' = oexpr_val T o'" by (cases o') simp_all
  show c: "is_const T' = is_const T" by (auto simp: fun_eq_iff is_const_def f)
  show "tab_ok T' = tab_ok T" by (simp add: tab_ok_def f s c)
  have "two_valued T' e = two_valued T e" for e by (induction e) (simp_all add: s)
  then show "dep2 T' e = dep2 T e" by (simp add: dep2_def)
qed

section \<open>The expression passes\<close>

definition steady :: "symtab \<Rightarrow> bool" where
  "steady T \<longleftrightarrow> tab_ok T \<and> (\<forall>s. s_type (T s) = S_TRISTATE \<longrightarrow> sym_tri T s \<noteq> Mod)"

definition odep2 :: "symtab \<Rightarrow> expr option \<Rightarrow> bool" where
  "odep2 T e \<longleftrightarrow> (case e of None \<Rightarrow> True | Some e \<Rightarrow> dep2 T e)"

lemma odep2_simps [simp]: "odep2 T None" "odep2 T (Some e) \<longleftrightarrow> dep2 T e"
  by (simp_all add: odep2_def)

lemma rev_only_steady: "rev_only T T' \<Longrightarrow> steady T' = steady T"
  by (simp add: steady_def rev_only_vals rev_only_fields)

lemma rev_only_odep2: "rev_only T T' \<Longrightarrow> odep2 T' e = odep2 T e"
  by (cases e) (simp_all add: rev_only_vals)

lemma dep2_not [simp]: "dep2 T (ENot l) \<longleftrightarrow> dep2 T l"
  by (simp add: dep2_def)

lemma transform_dep2: "tab_ok T \<Longrightarrow> dep2 T e \<Longrightarrow> dep2 T (expr_transform T e)"
proof (induction T e rule: expr_transform.induct)
  case (3 T a b)
  then show ?case using tab_okD(10) [of T a] by (auto simp: tab_okD)
next
  case (4 T a b)
  then show ?case using tab_okD(10) [of T a] by (auto simp: tab_okD)
next
  case (5 T l)
  then have d: "dep2 T (expr_transform T l)" by simp
  show ?case
  proof (cases "expr_transform T l")
    case (ENot a)
    with "5.IH"(4) [OF ENot] "5.prems" d show ?thesis by simp
  next
    case (EOr a b)
    with "5.IH"(2) [OF EOr] "5.prems" d show ?thesis by simp
  next
    case (EAnd a b)
    with "5.IH"(3) [OF EAnd] "5.prems" d show ?thesis by simp
  next
    case (ESymbol s)
    with "5.prems" d show ?thesis by (auto simp: tab_okD)
  qed (use d in auto)
qed (auto simp: dep2_def)

lemma transform_val: "tab_ok T \<Longrightarrow> dep2 T e \<Longrightarrow> expr_val T (expr_transform T e) = expr_val T e"
  using expr_transform_correct [of T e] by (simp add: dep2_def)

lemma trans_bool_val: "steady T \<Longrightarrow> dep2 T e \<Longrightarrow>
    dep2 T (expr_trans_bool T e) \<and> expr_val T (expr_trans_bool T e) = expr_val T e"
proof (induction e)
  case (EUnequal a b)
  show ?case
  proof (cases "s_type (T a) = S_TRISTATE \<and> b = SymNo")
    case True
    with EUnequal have "sym_tri T a \<noteq> Mod" "tab_ok T" by (auto simp: steady_def)
    with True show ?thesis
      by (cases "sym_tri T a") (auto simp: sym_string_tri tab_okD)
  qed auto
qed auto

lemma odups_val:
  assumes "tab_ok T" "odep2 T e"
  shows "\<exists>e'. odups T e = Some e' \<and> odep2 T e' \<and> oexpr_val T e' = oexpr_val T e"
proof (cases e)
  case (Some x)
  with assms dups_loop_total [of x "Suc (size x)" T] show ?thesis
    by (auto simp: odups_def expr_eliminate_dups_def)
qed (simp add: odups_def)

lemma ocopy_id: "odep2 T e \<Longrightarrow> ocopy e = e"
  by (cases e) (simp_all add: ocopy_def dep2_def)

lemma alloc_and_val: "odep2 T d \<Longrightarrow> odep2 T e \<Longrightarrow>
    odep2 T (expr_alloc_and d e) \<and> oexpr_val T (expr_alloc_and d e) = tri_and (oexpr_val T d) (oexpr_val T e)"
  by (cases d; cases e) simp_all

lemma and_dep_val:
  assumes "tab_ok T" "odep2 T d" "odep2 T e"
  shows "\<exists>x. and_dep T d e = Some x \<and> odep2 T x \<and> oexpr_val T x = tri_and (oexpr_val T d) (oexpr_val T e)"
proof -
  have t: "odep2 T (otransform T e)" "oexpr_val T (otransform T e) = oexpr_val T e"
    using assms by (cases e; simp add: otransform_def transform_dep2 transform_val)+
  from alloc_and_val [OF assms(2) t(1)] odups_val [OF assms(1)] t(2) show ?thesis
    unfolding and_dep_def ocopy_id [OF assms(2)] by metis
qed

section \<open>One property, the properties of an entry, the entries of a list\<close>

text \<open>The value of a reverse dependency; one that was never added to is \<open>n\<close>.\<close>

definition rev_val :: "symtab \<Rightarrow> symref \<Rightarrow> tristate" where
  "rev_val T s = (case ev_expr (s_rev_dep (T s)) of None \<Rightarrow> No | Some e \<Rightarrow> expr_val T e)"

definition select_ok :: "kstate \<Rightarrow> nat \<Rightarrow> nat \<Rightarrow> bool" where
  "select_ok st m p \<longleftrightarrow> (p_type (props st p) = P_SELECT \<longrightarrow>
     (\<exists>s r. p_expr (props st p) = Some (ESymbol s) \<and> m_sym (menus st m) = Some r))"

text \<open>What an entry's property becomes when the entry's condition has the value \<open>b\<close>.\<close>

definition conditioned :: "kstate \<Rightarrow> nat \<Rightarrow> tristate \<Rightarrow> nat \<Rightarrow> kstate \<Rightarrow> bool" where
  "conditioned st m b p st' \<longleftrightarrow>
     odep2 (syms st') (ev_expr (p_visible (props st' p))) \<and>
     oexpr_val (syms st') (ev_expr (p_visible (props st' p))) =
       tri_and b (oexpr_val (syms st) (ev_expr (p_visible (props st p)))) \<and>
     (\<forall>s r. p_type (props st p) = P_SELECT \<and> p_expr (props st p) = Some (ESymbol s) \<and>
        m_sym (menus st m) = Some r \<longrightarrow>
        tri_and (sym_tri (syms st) r) (oexpr_val (syms st') (ev_expr (p_visible (props st' p))))
          \<le> rev_val (syms st') s)"

text \<open>Menus as they were, properties but for conditions, symbols but for reverse dependencies.\<close>

definition dep_frame :: "kstate \<Rightarrow> nat set \<Rightarrow> kstate \<Rightarrow> bool" where
  "dep_frame st P st' \<longleftrightarrow> rev_only (syms st) (syms st') \<and> menus st' = menus st \<and>
     (\<forall>p. p \<notin> P \<longrightarrow> props st' p = props st p) \<and>
     (\<forall>p. p_type (props st' p) = p_type (props st p) \<and> p_expr (props st' p) = p_expr (props st p) \<and>
        p_menu (props st' p) = p_menu (props st p)) \<and>
     (\<forall>s. rev_val (syms st) s \<le> rev_val (syms st') s)"

lemma dep_frame_refl: "dep_frame st P st"
  by (simp add: dep_frame_def)

lemma dep_frame_trans: "dep_frame st P st1 \<Longrightarrow> dep_frame st1 Q st2 \<Longrightarrow> dep_frame st (P \<union> Q) st2"
  unfolding dep_frame_def by (auto intro: rev_only_trans order_trans)

lemma add_rev_dep_props:
  "menus (add_rev_dep s e st) = menus st" "props (add_rev_dep s e st) = props st"
  "rev_only (syms st) (syms (add_rev_dep s e st))"
  "s' \<noteq> s \<Longrightarrow> rev_val (syms (add_rev_dep s e st)) s' = rev_val (syms st) s'"
  "e = Some x \<Longrightarrow> rev_val (syms (add_rev_dep s e st)) s = tri_or (rev_val (syms st) s) (expr_val (syms st) x)"
proof -
  show r: "rev_only (syms st) (syms (add_rev_dep s e st))"
    by (simp add: rev_only_def add_rev_dep_def upd_sym_def)
  show "s' \<noteq> s \<Longrightarrow> rev_val (syms (add_rev_dep s e st)) s' = rev_val (syms st) s'"
    using rev_only_vals(3) [OF r] by (auto simp: rev_val_def add_rev_dep_def upd_sym_def split: option.splits)
  have ev: "ev_expr (s_rev_dep (syms (add_rev_dep s e st) s)) = expr_alloc_or (ev_expr (s_rev_dep (syms st s))) e"
    by (simp add: add_rev_dep_def upd_sym_def)
  show "e = Some x \<Longrightarrow> rev_val (syms (add_rev_dep s e st)) s = tri_or (rev_val (syms st) s) (expr_val (syms st) x)"
    unfolding rev_val_def ev rev_only_vals(3) [OF r]
    by (cases "ev_expr (s_rev_dep (syms st s))") simp_all
qed (simp_all add: add_rev_dep_def upd_sym_def)

lemma fin_prop_spec:
  assumes T: "steady (syms st)" and b: "odep2 (syms st) basedep"
    and v: "odep2 (syms st) (ev_expr (p_visible (props st p)))" and sel: "select_ok st m p"
  shows "\<exists>st'. fin_prop m basedep p st = Some st' \<and> dep_frame st {p} st' \<and>
    conditioned st m (oexpr_val (syms st) basedep) p st'"
proof -
  let ?T = "syms st"
  have ok: "tab_ok ?T" using T by (simp add: steady_def)
  obtain x where x: "and_dep ?T basedep (ev_expr (p_visible (props st p))) = Some x" "odep2 ?T x"
    "oexpr_val ?T x = tri_and (oexpr_val ?T basedep) (oexpr_val ?T (ev_expr (p_visible (props st p))))"
    using and_dep_val [OF ok b v] by blast
  define dep where "dep = (case m_sym (menus st m) of None \<Rightarrow> x
     | Some r \<Rightarrow> if s_type (?T r) \<noteq> S_TRISTATE then map_option (expr_trans_bool ?T) x else x)"
  have dep: "odep2 ?T dep" "oexpr_val ?T dep = oexpr_val ?T x"
    using trans_bool_val [OF T] x(2) by (cases x; auto simp: dep_def split: option.splits)+
  define st1 where "st1 = upd_prop p (p_visible_update (ev_expr_update (\<lambda>_. dep))) st"
  have st1: "syms st1 = ?T" "menus st1 = menus st" "\<And>q. q \<noteq> p \<Longrightarrow> props st1 q = props st q"
    "p_type (props st1 q) = p_type (props st q)" "p_expr (props st1 q) = p_expr (props st q)"
    "p_menu (props st1 q) = p_menu (props st q)" "ev_expr (p_visible (props st1 p)) = dep" for q
    by (simp_all add: st1_def upd_prop_def)
  have fr: "dep_frame st {p} st1" by (simp add: dep_frame_def st1)
  have run: "fin_prop m basedep p st =
      (if p_type (props st p) = P_SELECT then
            do { es \<leftarrow> prop_get_symbol st1 p;
                 es \<leftarrow> es;
                 r \<leftarrow> m_sym (menus st m);
                 Some (add_rev_dep es (expr_alloc_and (Some (expr_alloc_symbol r)) (ocopy dep)) st1) }
          else Some st1)"
    unfolding fin_prop_def x(1) by (simp add: dep_def [symmetric] st1_def [symmetric] Let_def st1(4) st1(2))
  show ?thesis
  proof (cases "p_type (props st p) = P_SELECT")
    case False
    then show ?thesis using run fr dep x by (auto simp: conditioned_def st1)
  next
    case True
    with sel obtain s r where sr: "p_expr (props st p) = Some (ESymbol s)" "m_sym (menus st m) = Some r"
      by (auto simp: select_ok_def)
    define e where "e = (case dep of None \<Rightarrow> ESymbol r | Some d \<Rightarrow> EAnd (ESymbol r) d)"
    have e: "expr_alloc_and (Some (expr_alloc_symbol r)) dep = Some e"
      "expr_val ?T e = tri_and (sym_tri ?T r) (oexpr_val ?T dep)"
      by (cases dep; simp add: e_def expr_alloc_symbol_def)+
    let ?st' = "add_rev_dep s (Some e) st1"
    note a = add_rev_dep_props [where s = s and e = "Some e" and st = st1]
    have g: "prop_get_symbol st1 p = Some (Some s)" by (simp add: prop_get_symbol_def st1 sr)
    have res: "fin_prop m basedep p st = Some ?st'"
      using True run by (simp add: g sr ocopy_id [OF dep(1)] e(1))
    have mono: "rev_val ?T t \<le> rev_val (syms ?st') t" for t
      using a(4) [of t] a(5) [OF refl] st1(1) by (cases "t = s") (auto simp: tri_or_max)
    have fr': "dep_frame st {p} ?st'"
      using fr a(1-3) mono by (simp add: dep_frame_def st1)
    have "conditioned st m (oexpr_val ?T basedep) p ?st'"
      using dep x e a(5) [OF refl] rev_only_vals [OF a(3)] rev_only_odep2 [OF a(3)]
      by (auto simp: conditioned_def a(2) st1 sr tri_or_max)
    with res fr' show ?thesis by blast
  qed
qed

text \<open>The properties of an entry, which are distinct.\<close>

definition entry_ok :: "kstate \<Rightarrow> nat \<Rightarrow> nat list \<Rightarrow> bool" where
  "entry_ok st m qs \<longleftrightarrow> (\<forall>p \<in> set qs. p_menu (props st p) = Some m \<longrightarrow>
     odep2 (syms st) (ev_expr (p_visible (props st p))) \<and> select_ok st m p)"

lemma entry_ok_frame: "entry_ok st m qs \<Longrightarrow> dep_frame st P st' \<Longrightarrow> P \<inter> set qs = {} \<Longrightarrow> entry_ok st' m qs"
proof -
  assume a: "entry_ok st m qs" "dep_frame st P st'" "P \<inter> set qs = {}"
  then have r: "rev_only (syms st) (syms st')" "menus st' = menus st" "\<And>p. p \<in> set qs \<Longrightarrow> props st' p = props st p"
    by (auto simp: dep_frame_def)
  show "entry_ok st' m qs"
    using a(1) by (simp add: entry_ok_def select_ok_def r(2,3) rev_only_odep2 [OF r(1)])
qed

lemma conditioned_later:
  assumes "conditioned st m b p st1" "dep_frame st1 P st2" "p \<notin> P"
  shows "conditioned st m b p st2"
proof -
  have r: "rev_only (syms st1) (syms st2)" "props st2 p = props st1 p"
    "\<And>s. rev_val (syms st1) s \<le> rev_val (syms st2) s"
    using assms(2,3) by (simp_all add: dep_frame_def)
  show ?thesis using assms(1) r(3)
    unfolding conditioned_def r(2) rev_only_vals(4) [OF r(1)] rev_only_odep2 [OF r(1)] by (meson order_trans)
qed

lemma conditioned_earlier:
  assumes "conditioned st1 m b p st2" "dep_frame st P st1" "p \<notin> P"
  shows "conditioned st m b p st2"
proof -
  have r: "rev_only (syms st) (syms st1)" "menus st1 = menus st" "props st1 p = props st p"
    using assms(2,3) by (simp_all add: dep_frame_def)
  show ?thesis using assms(1) unfolding conditioned_def r(2,3) rev_only_vals(1,4) [OF r(1)] .
qed

lemma fin_props_spec:
  assumes "steady (syms st)" "odep2 (syms st) basedep" "entry_ok st m qs" "distinct qs"
  shows "\<exists>st'. fin_props m basedep qs st = Some st' \<and>
    dep_frame st {p \<in> set qs. p_menu (props st p) = Some m} st' \<and>
    (\<forall>p \<in> set qs. p_menu (props st p) = Some m \<longrightarrow>
       conditioned st m (oexpr_val (syms st) basedep) p st')"
  using assms
proof (induction qs arbitrary: st)
  case Nil
  then show ?case by (simp add: dep_frame_refl)
next
  case (Cons p qs)
  show ?case
  proof (cases "p_menu (props st p) = Some m")
    case False
    have "entry_ok st m qs" using Cons.prems(3) by (simp add: entry_ok_def)
    note ih = Cons.IH [OF Cons.prems(1,2) this]
    have "{q \<in> set (p # qs). p_menu (props st q) = Some m} = {q \<in> set qs. p_menu (props st q) = Some m}"
      using False by auto
    then show ?thesis using ih Cons.prems(4) False by simp
  next
    case True
    with Cons.prems(3) have "odep2 (syms st) (ev_expr (p_visible (props st p)))" "select_ok st m p"
      by (simp_all add: entry_ok_def)
    from fin_prop_spec [OF Cons.prems(1,2) this] obtain st1 where
      1: "fin_prop m basedep p st = Some st1" "dep_frame st {p} st1"
        "conditioned st m (oexpr_val (syms st) basedep) p st1" by blast
    have r: "rev_only (syms st) (syms st1)" using 1(2) by (simp add: dep_frame_def)
    have "entry_ok st m qs" using Cons.prems(3) by (simp add: entry_ok_def)
    then have ok1: "entry_ok st1 m qs" using entry_ok_frame [OF _ 1(2)] Cons.prems(4) by simp
    have s1: "steady (syms st1)" "odep2 (syms st1) basedep"
      using Cons.prems(1,2) rev_only_steady [OF r] rev_only_odep2 [OF r] by simp_all
    from Cons.IH [OF s1 ok1] Cons.prems(4) obtain st2 where
      2: "fin_props m basedep qs st1 = Some st2"
        "dep_frame st1 {p \<in> set qs. p_menu (props st1 p) = Some m} st2"
        "\<forall>p \<in> set qs. p_menu (props st1 p) = Some m \<longrightarrow>
           conditioned st1 m (oexpr_val (syms st1) basedep) p st2" by auto
    have pm: "p_menu (props st1 q) = p_menu (props st q)" for q using 1(2) by (simp add: dep_frame_def)
    have v: "oexpr_val (syms st1) basedep = oexpr_val (syms st) basedep" using rev_only_vals(4) [OF r] .
    have pn: "p \<notin> set qs" using Cons.prems(4) by simp
    have "dep_frame st ({p} \<union> {p \<in> set qs. p_menu (props st p) = Some m}) st2"
      using dep_frame_trans [OF 1(2) 2(2)] by (simp add: pm)
    moreover have "{p} \<union> {p \<in> set qs. p_menu (props st p) = Some m} =
        {q \<in> set (p # qs). p_menu (props st q) = Some m}" using True by auto
    moreover have "conditioned st m (oexpr_val (syms st) basedep) p st2"
      using conditioned_later [OF 1(3) 2(2)] pn by simp
    moreover have "conditioned st m (oexpr_val (syms st) basedep) q st2"
      if "q \<in> set qs" "p_menu (props st q) = Some m" for q
    proof -
      have "conditioned st1 m (oexpr_val (syms st) basedep) q st2" using 2(3) that pm v by simp
      then show ?thesis using conditioned_earlier [OF _ 1(2)] that pn by auto
    qed
    ultimately show ?thesis using True 1(1) 2(1) by auto
  qed
qed

text \<open>The entries of a list.\<close>

definition list_ok :: "kstate \<Rightarrow> nat list \<Rightarrow> bool" where
  "list_ok st ms \<longleftrightarrow> distinct ms \<and> (\<forall>m \<in> set ms. odep2 (syms st) (m_dep (menus st m)) \<and>
     distinct (entry_props st m) \<and> entry_ok st m (entry_props st m))"

text \<open>The effect on one entry of a list with the parent's condition \<open>d\<close>.\<close>

definition finalised :: "kstate \<Rightarrow> tristate \<Rightarrow> nat \<Rightarrow> kstate \<Rightarrow> bool" where
  "finalised st d m st' \<longleftrightarrow>
     oexpr_val (syms st') (m_dep (menus st' m)) = tri_and d (oexpr_val (syms st) (m_dep (menus st m))) \<and>
     (\<forall>p \<in> set (entry_props st m). p_menu (props st p) = Some m \<longrightarrow>
        conditioned st m (oexpr_val (syms st') (m_dep (menus st' m))) p st')"

text \<open>Only the conditions of the entries in \<open>ms\<close> and of their properties change.\<close>

definition list_frame :: "kstate \<Rightarrow> nat list \<Rightarrow> kstate \<Rightarrow> bool" where
  "list_frame st ms st' \<longleftrightarrow> rev_only (syms st) (syms st') \<and>
     (\<forall>m. m \<notin> set ms \<longrightarrow> menus st' m = menus st m) \<and>
     (\<forall>m. m_sym (menus st' m) = m_sym (menus st m) \<and> m_prompt (menus st' m) = m_prompt (menus st m) \<and>
        m_next (menus st' m) = m_next (menus st m) \<and> m_list (menus st' m) = m_list (menus st m) \<and>
        m_parent (menus st' m) = m_parent (menus st m)) \<and>
     (\<forall>p. (\<forall>m \<in> set ms. p_menu (props st p) \<noteq> Some m) \<longrightarrow> props st' p = props st p) \<and>
     (\<forall>p. p_type (props st' p) = p_type (props st p) \<and> p_expr (props st' p) = p_expr (props st p) \<and>
        p_menu (props st' p) = p_menu (props st p)) \<and>
     (\<forall>s. rev_val (syms st) s \<le> rev_val (syms st') s)"

lemma list_frame_refl: "list_frame st [] st"
  by (simp add: list_frame_def)

lemma list_frame_prop:
  assumes "list_frame st ms st'" "p_menu (props st p) = Some m" "m \<notin> set ms"
  shows "props st' p = props st p"
proof -
  have "\<forall>i \<in> set ms. p_menu (props st p) \<noteq> Some i" using assms(2,3) by auto
  then show ?thesis using assms(1) by (simp add: list_frame_def)
qed

lemma entry_props_frame:
  "list_frame st ms st' \<Longrightarrow> entry_props st' m = entry_props st m"
  unfolding list_frame_def entry_props_def
  by (auto split: option.splits simp: rev_only_fields)

text \<open>One step of the loop, as a frame.\<close>

lemma fin_deps_step:
  assumes T: "steady (syms st)" and d: "odep2 (syms st) d" and ok: "odep2 (syms st) (m_dep (menus st m))"
    "distinct (entry_props st m)" "entry_ok st m (entry_props st m)"
  shows "\<exists>basedep st'. and_dep (syms st) d (m_dep (menus st m)) = Some basedep \<and>
    fin_props m basedep (entry_props (upd_menu m (m_dep_update (\<lambda>_. basedep)) st) m)
      (upd_menu m (m_dep_update (\<lambda>_. basedep)) st) = Some st' \<and>
    list_frame st [m] st' \<and> finalised st (oexpr_val (syms st) d) m st'"
proof -
  have tok: "tab_ok (syms st)" using T by (simp add: steady_def)
  from and_dep_val [OF tok d ok(1)] obtain b where b: "and_dep (syms st) d (m_dep (menus st m)) = Some b"
    "odep2 (syms st) b" "oexpr_val (syms st) b = tri_and (oexpr_val (syms st) d) (oexpr_val (syms st) (m_dep (menus st m)))"
    by blast
  let ?s = "upd_menu m (m_dep_update (\<lambda>_. b)) st"
  have s: "syms ?s = syms st" "props ?s = props st" "m_dep (menus ?s m) = b"
    "m_sym (menus ?s i) = m_sym (menus st i)" "m_prompt (menus ?s i) = m_prompt (menus st i)"
    "m_next (menus ?s i) = m_next (menus st i)" "m_list (menus ?s i) = m_list (menus st i)"
    "m_parent (menus ?s i) = m_parent (menus st i)" "i \<noteq> m \<Longrightarrow> menus ?s i = menus st i" for i
    by (simp_all add: upd_menu_def)
  have ep: "entry_props ?s m = entry_props st m" by (simp add: entry_props_def s cong: option.case_cong)
  have "entry_ok ?s m (entry_props st m)" using ok(3) by (simp add: entry_ok_def select_ok_def s)
  from fin_props_spec [OF _ _ this ok(2)] T b(2) s(1) obtain st' where
    f: "fin_props m b (entry_props st m) ?s = Some st'"
      "dep_frame ?s {p \<in> set (entry_props st m). p_menu (props ?s p) = Some m} st'"
      "\<forall>p \<in> set (entry_props st m). p_menu (props ?s p) = Some m \<longrightarrow> conditioned ?s m (oexpr_val (syms st) b) p st'"
    by auto
  have "list_frame st [m] st'" using f(2) by (auto simp: list_frame_def dep_frame_def s)
  moreover have v: "oexpr_val (syms st') (m_dep (menus st' m)) = oexpr_val (syms st) b"
    using f(2) s by (simp add: dep_frame_def rev_only_vals)
  moreover have "finalised st (oexpr_val (syms st) d) m st'"
    using f(3) unfolding finalised_def v b(3) conditioned_def s by blast
  ultimately show ?thesis using b(1) f(1) ep by auto
qed

lemma list_frame_trans: "list_frame st ms st1 \<Longrightarrow> list_frame st1 ns st2 \<Longrightarrow> list_frame st (ms @ ns) st2"
  unfolding list_frame_def by (auto intro: rev_only_trans order_trans)

lemma finalised_later:
  assumes "finalised st d m st1" "list_frame st1 ms st2" "m \<notin> set ms" "list_frame st [m] st1"
  shows "finalised st d m st2"
proof -
  have r: "rev_only (syms st1) (syms st2)" "menus st2 m = menus st1 m"
    "\<And>s. rev_val (syms st1) s \<le> rev_val (syms st2) s"
    using assms(2-4) by (simp_all add: list_frame_def)
  have pm: "p_menu (props st1 p) = p_menu (props st p)" for p using assms(4) by (simp add: list_frame_def)
  have r4: "props st2 p = props st1 p" if "p_menu (props st p) = Some m" for p
    using list_frame_prop [OF assms(2) _ assms(3)] that pm by simp
  have "conditioned st m b p st2" if "conditioned st m b p st1" "p_menu (props st p) = Some m" for b p
    using that r(3) unfolding conditioned_def r4 [OF that(2)] rev_only_vals(4) [OF r(1)] rev_only_odep2 [OF r(1)]
    by (meson order_trans)
  then show ?thesis using assms(1) unfolding finalised_def r(2) rev_only_vals(4) [OF r(1)] by blast
qed

lemma finalised_earlier:
  assumes "finalised st1 d m st2" "list_frame st ms st1" "m \<notin> set ms"
  shows "finalised st d m st2"
proof -
  have r: "rev_only (syms st) (syms st1)" "menus st1 m = menus st m" "p_menu (props st1 q) = p_menu (props st q)"
    "p_menu (props st p) = Some m \<Longrightarrow> props st1 p = props st p" for p q
    using assms(2,3) list_frame_prop [OF assms(2)] by (simp_all add: list_frame_def)
  have "conditioned st m b p st2" if "conditioned st1 m b p st2" "p_menu (props st p) = Some m" for b p
    using that(1) unfolding conditioned_def r(4) [OF that(2)] r(2) rev_only_vals(1,4) [OF r(1)] .
  then show ?thesis using assms(1)
    unfolding finalised_def r(2,3) rev_only_vals(4) [OF r(1)] entry_props_frame [OF assms(2)] by blast
qed

lemma list_ok_frame:
  assumes "list_ok st (m # ms)" "list_frame st [m] st1"
  shows "list_ok st1 ms"
proof -
  have r: "rev_only (syms st) (syms st1)" "i \<noteq> m \<Longrightarrow> menus st1 i = menus st i"
    "p_menu (props st1 q) = p_menu (props st q)" "p_type (props st1 q) = p_type (props st q)"
    "p_expr (props st1 q) = p_expr (props st q)" "p_menu (props st q) \<noteq> Some m \<Longrightarrow> props st1 q = props st q" for i q
    using assms(2) by (auto simp: list_frame_def)
  have "i \<noteq> m" if "i \<in> set ms" for i using that assms(1) by (auto simp: list_ok_def)
  then show ?thesis
    using assms(1) r unfolding list_ok_def entry_props_frame [OF assms(2)] rev_only_odep2 [OF r(1)]
    by (auto simp: entry_ok_def select_ok_def rev_only_odep2 [OF r(1)])
qed

lemma fin_deps_spec:
  assumes "steady (syms st)" "odep2 (syms st) d" "list_ok st ms"
  shows "\<exists>st'. fin_deps d ms st = Some st' \<and> list_frame st ms st' \<and>
    (\<forall>m \<in> set ms. finalised st (oexpr_val (syms st) d) m st')"
  using assms
proof (induction ms arbitrary: st)
  case Nil
  then show ?case by (simp add: list_frame_refl)
next
  case (Cons m ms)
  have "odep2 (syms st) (m_dep (menus st m))" "distinct (entry_props st m)" "entry_ok st m (entry_props st m)"
    "m \<notin> set ms" using Cons.prems(3) by (simp_all add: list_ok_def)
  note m = this
  from fin_deps_step [OF Cons.prems(1,2) m(1-3)] obtain b st1 where
    1: "and_dep (syms st) d (m_dep (menus st m)) = Some b"
      "fin_props m b (entry_props (upd_menu m (m_dep_update (\<lambda>_. b)) st) m)
         (upd_menu m (m_dep_update (\<lambda>_. b)) st) = Some st1"
      "list_frame st [m] st1" "finalised st (oexpr_val (syms st) d) m st1" by blast
  have r: "rev_only (syms st) (syms st1)" using 1(3) by (simp add: list_frame_def)
  have "steady (syms st1)" "odep2 (syms st1) d"
    using Cons.prems(1,2) rev_only_steady [OF r] rev_only_odep2 [OF r] by simp_all
  from Cons.IH [OF this list_ok_frame [OF Cons.prems(3) 1(3)]] obtain st2 where
    2: "fin_deps d ms st1 = Some st2" "list_frame st1 ms st2"
      "\<forall>m \<in> set ms. finalised st1 (oexpr_val (syms st1) d) m st2" by blast
  have "list_frame st (m # ms) st2" using list_frame_trans [OF 1(3) 2(2)] by simp
  moreover have "finalised st (oexpr_val (syms st) d) m st2"
    using finalised_later [OF 1(4) 2(2) m(4) 1(3)] .
  moreover have "finalised st (oexpr_val (syms st) d) i st2" if "i \<in> set ms" for i
  proof -
    have "finalised st1 (oexpr_val (syms st) d) i st2" using 2(3) that rev_only_vals(4) [OF r] by simp
    then show ?thesis by (rule finalised_earlier [OF _ 1(3)]) (use that m(4) in auto)
  qed
  ultimately show ?case using 1(1,2) 2(1) by simp
qed

section \<open>The module symbol in conditions\<close>

text \<open>\<open>m\<close> in a condition counts as \<open>m && MODULES\<close>.\<close>

lemma check_dep_val:
  assumes "dep_wf e" "M \<noteq> SymMod" "s_type (T SymMod) = S_UNKNOWN"
  shows "\<exists>e'. check_dep (Some M) e = Some e' \<and> dep_wf e' \<and>
    expr_val T e' = expr_val (T(SymMod := (T SymMod)\<lparr>s_curr :=
      \<lparr>sv_val = sv_val (s_curr (T SymMod)), sv_tri = tri_and (sym_tri T SymMod) (sym_tri T M)\<rparr>\<rparr>)) e"
  (is "\<exists>e'. _ \<and> _ \<and> expr_val T e' = expr_val ?T e")
proof -
  have s: "sym_get_string_value ?T r = sym_get_string_value T r" for r
    using assms(3) by (cases "r = SymMod") (simp_all add: sym_get_string_value_def cong: symbol_type.case_cong)
  have t: "sym_tri ?T r = (if r = SymMod then tri_and (sym_tri T SymMod) (sym_tri T M) else sym_tri T r)" for r
    by (simp add: sym_tri_def)
  show ?thesis using assms(1)
  proof (induction e)
    case (EOr l r)
    then show ?case by auto
  next
    case (EAnd l r)
    then show ?case by auto
  next
    case (ENot l)
    then show ?case by auto
  qed (auto simp: s t expr_alloc_symbol_def)
qed

section \<open>The menu above an entry\<close>

text \<open>The entries above one, up to the root.\<close>

inductive above :: "kstate \<Rightarrow> nat \<Rightarrow> nat \<Rightarrow> bool" for st where
  above_refl: "above st m m"
| above_step: "m \<noteq> rootmenu \<Longrightarrow> m_parent (menus st m) = Some p \<Longrightarrow> above st p a \<Longrightarrow> above st m a"

definition is_menu :: "kstate \<Rightarrow> nat \<Rightarrow> bool" where
  "is_menu st m \<longleftrightarrow> m = rootmenu \<or> (\<exists>p. m_prompt (menus st m) = Some p \<and> p_type (props st p) = P_MENU)"

inductive_cases above_cases: "above st m a"

text \<open>\<open>rank\<close> is a measure that goes down from an entry to its parent.\<close>

lemma parent_menu_spec:
  assumes "\<And>i. i \<noteq> rootmenu \<Longrightarrow> \<exists>p. m_parent (menus st i) = Some p \<and> rank p < (rank i :: nat)"
  shows "rank m < k \<Longrightarrow> \<exists>a. menu_get_parent_menu k st m = Some a \<and> is_menu st a \<and> above st m a \<and>
    (\<forall>b. above st m b \<and> is_menu st b \<longrightarrow> above st a b)"
proof (induction k arbitrary: m)
  case (Suc k)
  show ?case
  proof (cases "is_menu st m")
    case True
    then have "menu_get_parent_menu (Suc k) st m = Some m" by (auto simp: is_menu_def)
    with True show ?thesis by (auto intro: above_refl)
  next
    case False
    then have nr: "m \<noteq> rootmenu" by (simp add: is_menu_def)
    from assms [OF nr] obtain p where p: "m_parent (menus st m) = Some p" "rank p < rank m" by blast
    then have "rank p < k" using Suc.prems by simp
    from Suc.IH [OF this] obtain a where a: "menu_get_parent_menu k st p = Some a" "is_menu st a" "above st p a"
      "\<forall>b. above st p b \<and> is_menu st b \<longrightarrow> above st a b" by blast
    have "menu_get_parent_menu (Suc k) st m = Some a"
      using nr p(1) a(1) False by (auto simp: is_menu_def split: option.splits)
    moreover have "above st p b" if "above st m b" "is_menu st b" for b
      using that(1) by (cases rule: above_cases) (use that(2) False p(1) in auto)
    ultimately show ?thesis using a above_step [OF nr p(1)] by blast
  qed
qed simp

section \<open>The members of a choice\<close>

fun chain_list :: "expr option \<Rightarrow> symref list" where
  "chain_list (Some (EChoice l d)) = d # chain_list l"
| "chain_list e = []"

fun is_chain :: "expr option \<Rightarrow> bool" where
  "is_chain None \<longleftrightarrow> True"
| "is_chain (Some (EChoice l d)) \<longleftrightarrow> is_chain l"
| "is_chain (Some e) \<longleftrightarrow> False"

lemma choice_append_chain:
  "is_chain e \<Longrightarrow> \<exists>x. choice_append e d = Some x \<and> is_chain (Some x) \<and>
     chain_list (Some x) = chain_list e @ [d]"
  by (induction e d rule: choice_append.induct) auto

end
