(* ===== verification/Kconfig_Deps.thy ===== *)
theory Kconfig_Deps
  imports Kconfig_Eval
begin

text \<open>
  The search for recursive dependencies (\<open>sym_check_deps\<close> in \<open>symbol.c\<close>): it ends, it leaves
  the table as it was but for the mark \<open>SYMBOL_CHECKED\<close>, and it reports a symbol exactly when the
  symbol it starts from leads to a cycle of dependencies; the symbol reported is on the cycle.
\<close>

section \<open>The dependency graph\<close>

definition oexpr_syms :: "expr option \<Rightarrow> symref set" where
  "oexpr_syms e = (case e of None \<Rightarrow> {} | Some e \<Rightarrow> expr_syms e)"

text \<open>The symbols whose checks the check of \<open>r\<close> calls.\<close>

definition prop_deps :: "kstate \<Rightarrow> symref \<Rightarrow> nat \<Rightarrow> symref set" where
  "prop_deps st r p =
     (if p_type (props st p) \<in> {P_CHOICE, P_SELECT} then {}
      else oexpr_syms (ev_expr (p_visible (props st p))) \<union>
        (if p_type (props st p) = P_DEFAULT \<and> \<not> sym_is_choice st r
         then oexpr_syms (p_expr (props st p)) else {}))"

definition deps :: "kstate \<Rightarrow> symref \<Rightarrow> symref set" where
  "deps st r = oexpr_syms (ev_expr (s_rev_dep (syms st r))) \<union>
     (\<Union>p \<in> set (s_prop (syms st r)). prop_deps st r p)"

definition dep_edge :: "kstate \<Rightarrow> (symref \<times> symref) set" where
  "dep_edge st = {(a, b). b \<in> deps st a}"

section \<open>What a check changes\<close>

text \<open>Only the marks of the search; when it returns, only \<open>SYMBOL_CHECKED\<close> has been added.\<close>

definition only_checked :: "kstate \<Rightarrow> kstate \<Rightarrow> bool" where
  "only_checked st st' \<longleftrightarrow>
     (\<exists>C. st' = st\<lparr>syms := (\<lambda>s. if s \<in> C then (syms st s)\<lparr>s_flags := insert SYMBOL_CHECKED (s_flags (syms st s))\<rparr>
                                else syms st s)\<rparr>)"

lemma only_checked_refl [simp, intro]: "only_checked st st"
  unfolding only_checked_def by (rule exI [of _ "{}"]) simp

lemma only_checked_trans: "only_checked a b \<Longrightarrow> only_checked b c \<Longrightarrow> only_checked a c"
proof -
  assume "only_checked a b" "only_checked b c"
  then obtain C D where
    b: "b = a\<lparr>syms := (\<lambda>s. if s \<in> C then (syms a s)\<lparr>s_flags := insert SYMBOL_CHECKED (s_flags (syms a s))\<rparr>
                                else syms a s)\<rparr>" and
    c: "c = b\<lparr>syms := (\<lambda>s. if s \<in> D then (syms b s)\<lparr>s_flags := insert SYMBOL_CHECKED (s_flags (syms b s))\<rparr>
                                else syms b s)\<rparr>"
    unfolding only_checked_def by auto
  show ?thesis
    unfolding only_checked_def by (rule exI [of _ "C \<union> D"]) (auto simp: b c fun_eq_iff)
qed

lemma only_checked_flag: "only_checked a b \<Longrightarrow> f \<noteq> SYMBOL_CHECKED \<Longrightarrow> flag b s f = flag a s f"
  by (auto simp: only_checked_def flag_def split: if_splits)

lemma only_checked_deps: "only_checked a b \<Longrightarrow> deps b s = deps a s"
  by (auto simp: only_checked_def deps_def prop_deps_def sym_is_choice_def split: if_splits)

lemma only_checked_fields:
  assumes "only_checked a b"
  shows "s_prop (syms b s) = s_prop (syms a s)" "s_rev_dep (syms b s) = s_rev_dep (syms a s)"
    "props b = props a" "sym_is_choice b s = sym_is_choice a s"
  using assms by (auto simp: only_checked_def sym_is_choice_def split: if_splits)

section \<open>What there is to report\<close>

definition live_edge :: "kstate \<Rightarrow> (symref \<times> symref) set" where
  "live_edge st = {(a, b). b \<in> deps st a \<and> \<not> flag st b SYMBOL_CHECK_DONE}"

text \<open>
  \<open>r\<close> leads to \<open>s\<close>, which is being checked already or depends on itself.
\<close>

definition leads :: "kstate \<Rightarrow> symref \<Rightarrow> symref \<Rightarrow> bool" where
  "leads st r s \<longleftrightarrow> \<not> flag st r SYMBOL_CHECK_DONE \<and> (r, s) \<in> (live_edge st)\<^sup>* \<and>
     (flag st s SYMBOL_CHECK \<or> (s, s) \<in> (live_edge st)\<^sup>+)"

definition reach :: "kstate \<Rightarrow> symref \<Rightarrow> symref set" where
  "reach st r = (live_edge st)\<^sup>* `` {r}"

definition chk_level :: "nat \<Rightarrow> kstate \<Rightarrow> symref \<Rightarrow> bool" where
  "chk_level n st r \<longleftrightarrow> flag st r SYMBOL_CHECK_DONE \<or>
     finite (reach st r) \<and> card {s \<in> reach st r. \<not> flag st s SYMBOL_CHECK} \<le> n"

lemma only_checked_live: "only_checked a b \<Longrightarrow> live_edge b = live_edge a"
  by (simp add: live_edge_def only_checked_deps only_checked_flag)

lemma only_checked_leads: "only_checked a b \<Longrightarrow> leads b r s = leads a r s"
  by (simp add: leads_def only_checked_live only_checked_flag)

lemma only_checked_level: "only_checked a b \<Longrightarrow> chk_level n b r = chk_level n a r"
  by (simp add: chk_level_def reach_def only_checked_live only_checked_flag)

lemma check_marks_same:
  fixes r st
  defines "st' \<equiv> set_flags r {SYMBOL_CHECK, SYMBOL_CHECKED} st"
  shows "s_prop (syms st' x) = s_prop (syms st x)" "s_rev_dep (syms st' x) = s_rev_dep (syms st x)"
    "props st' = props st" "sym_is_choice st' x = sym_is_choice st x" "deps st' x = deps st x"
    "live_edge st' = live_edge st"
proof -
  show same: "s_prop (syms st' x) = s_prop (syms st x)" "s_rev_dep (syms st' x) = s_rev_dep (syms st x)"
    "props st' = props st" "sym_is_choice st' x = sym_is_choice st x" for x
    by (auto simp: st'_def set_flags_def sym_is_choice_def)
  have "prop_deps st' x = prop_deps st x" for x by (rule ext) (simp add: prop_deps_def same)
  then show d: "deps st' x = deps st x" for x by (simp add: deps_def same)
  show "live_edge st' = live_edge st" unfolding live_edge_def d by (simp add: st'_def)
qed

section \<open>The interface of a checker\<close>

text \<open>
  What the check of one symbol promises to the check of an expression: on the calls in \<open>good\<close> it
  returns, changes only the mark, and reports exactly what there is to report.
\<close>

definition found :: "kstate \<Rightarrow> symref set \<Rightarrow> (symref option \<times> kstate) option \<Rightarrow> bool" where
  "found st A res \<longleftrightarrow> (\<exists>st'. only_checked st st' \<and>
     (res = Some (None, st') \<and> (\<forall>r \<in> A. \<forall>x. \<not> leads st r x) \<or>
      (\<exists>x. res = Some (Some x, st') \<and> (\<exists>r \<in> A. leads st r x))))"

lemma found_mono: "only_checked st st' \<Longrightarrow> found st' A res \<Longrightarrow> found st A res"
  unfolding found_def using only_checked_trans by (auto simp: only_checked_leads)

lemma found_empty [simp]: "found st {} (Some (None, st))"
  by (simp add: found_def)

text \<open>First one set, then, when nothing was found, the other.\<close>

lemma found_then:
  assumes "found st A res" and "\<And>st'. only_checked st st' \<Longrightarrow> found st' B (f st')"
  shows "found st (A \<union> B)
    (do { (s, st) \<leftarrow> res; if s \<noteq> None then Some (s, st) else f st })"
proof -
  from assms(1) obtain st' where st': "only_checked st st'" and
    r: "res = Some (None, st') \<and> (\<forall>r \<in> A. \<forall>x. \<not> leads st r x) \<or>
      (\<exists>x. res = Some (Some x, st') \<and> (\<exists>r \<in> A. leads st r x))"
    unfolding found_def by blast
  have "found st B (f st')" using found_mono [OF st' assms(2) [OF st']] .
  with r st' show ?thesis unfolding found_def by auto
qed

locale dep_checker =
  fixes chk :: checker and good :: "kstate \<Rightarrow> symref \<Rightarrow> bool"
  assumes chk_found: "good st r \<Longrightarrow> found st {r} (chk r st)"
    and good_checked: "only_checked st st' \<Longrightarrow> good st' r = good st r"
begin

lemma check_expr_found:
  "(\<And>r. r \<in> expr_syms e \<Longrightarrow> good st r) \<Longrightarrow> found st (expr_syms e) (check_expr chk e st)"
proof (induction e arbitrary: st)
  case (EOr l r)
  then show ?case
    unfolding check_expr.simps expr_syms.simps by (intro found_then) (auto simp: good_checked)
next
  case (EAnd l r)
  then show ?case
    unfolding check_expr.simps expr_syms.simps by (intro found_then) (auto simp: good_checked)
next
  case (EEqual a b)
  have "found st ({a} \<union> {b}) (check_expr chk (EEqual a b) st)"
    unfolding check_expr.simps by (rule found_then) (use EEqual in \<open>auto simp: chk_found good_checked\<close>)
  then show ?case by (simp add: insert_commute)
next
  case (EUnequal a b)
  have "found st ({a} \<union> {b}) (check_expr chk (EUnequal a b) st)"
    unfolding check_expr.simps by (rule found_then) (use EUnequal in \<open>auto simp: chk_found good_checked\<close>)
  then show ?case by (simp add: insert_commute)
qed (auto simp: chk_found)

lemma sym_check_expr_deps_found:
  "(\<And>r. r \<in> oexpr_syms e \<Longrightarrow> good st r) \<Longrightarrow> found st (oexpr_syms e) (sym_check_expr_deps chk e st)"
  by (cases e) (simp_all add: oexpr_syms_def check_expr_found)

lemma check_props_found:
  "(\<And>p r. p \<in> set ps \<Longrightarrow> r \<in> prop_deps st c p \<Longrightarrow> good st r) \<Longrightarrow>
     found st (\<Union>p \<in> set ps. prop_deps st c p) (check_props chk (sym_is_choice st c) ps st)"
proof (induction ps arbitrary: st)
  case (Cons p ps)
  have pd: "prop_deps b c q = prop_deps st c q" if "only_checked st b" for b q
    using only_checked_fields [OF that] by (simp add: prop_deps_def)
  have ch: "sym_is_choice b c = sym_is_choice st c" if "only_checked st b" for b
    using only_checked_fields [OF that] by simp
  have rest: "found b (\<Union>p \<in> set ps. prop_deps st c p) (check_props chk (sym_is_choice st c) ps b)"
    if "only_checked st b" for b
  proof -
    have "found b (\<Union>p \<in> set ps. prop_deps b c p) (check_props chk (sym_is_choice b c) ps b)"
      by (rule Cons.IH) (use Cons.prems in \<open>auto simp: pd [OF that] good_checked [OF that]\<close>)
    then show ?thesis by (simp add: pd [OF that] ch [OF that])
  qed
  show ?case
  proof (cases "p_type (props st p) \<in> {P_CHOICE, P_SELECT}")
    case True
    then have "prop_deps st c p = {}" by (simp add: prop_deps_def)
    with True rest [OF only_checked_refl] show ?thesis by simp
  next
    case False
    let ?A = "oexpr_syms (ev_expr (p_visible (props st p)))"
    let ?B = "if p_type (props st p) = P_DEFAULT \<and> \<not> sym_is_choice st c
      then oexpr_syms (p_expr (props st p)) else {}"
    have ab: "prop_deps st c p = ?A \<union> ?B" using False by (simp add: prop_deps_def)
    have gA: "r \<in> ?A \<Longrightarrow> good st r" and gB: "r \<in> ?B \<Longrightarrow> good st r" for r
      using Cons.prems [of p r] ab by auto
    have "found b (?B \<union> (\<Union>p \<in> set ps. prop_deps st c p))
      (if p_type (props b p) \<noteq> P_DEFAULT \<or> sym_is_choice st c
       then check_props chk (sym_is_choice st c) ps b
       else do { (s, st') \<leftarrow> sym_check_expr_deps chk (p_expr (props b p)) b;
                 if s \<noteq> None then Some (s, st') else check_props chk (sym_is_choice st c) ps st' })"
      if b: "only_checked st b" for b
    proof (cases "p_type (props st p) = P_DEFAULT \<and> \<not> sym_is_choice st c")
      case True
      have "found b (oexpr_syms (p_expr (props st p))) (sym_check_expr_deps chk (p_expr (props st p)) b)"
        by (rule sym_check_expr_deps_found) (use gB True good_checked [OF b] in auto)
      from found_then [OF this rest [OF only_checked_trans [OF b]]] True show ?thesis
        by (auto simp: only_checked_fields [OF b])
    next
      case False
      with rest [OF b] show ?thesis by (auto simp: only_checked_fields [OF b])
    qed
    from found_then [OF sym_check_expr_deps_found [OF gA] this] False show ?thesis
      by (simp add: ab Un_assoc)
  qed
qed simp

text \<open>The check of a symbol that is neither done nor being checked.\<close>

lemma check_body_found:
  assumes new: "\<not> flag st r SYMBOL_CHECK" "\<not> flag st r SYMBOL_CHECK_DONE"
    and good: "\<And>c. c \<in> deps st r \<Longrightarrow> good (set_flags r {SYMBOL_CHECK, SYMBOL_CHECKED} st) c"
  shows "found st {r} (check_body chk r st)"
proof -
  let ?st = "set_flags r {SYMBOL_CHECK, SYMBOL_CHECKED} st"
  note same = check_marks_same(1-4) [of r st] and dps = check_marks_same(5) [of r st]
    and live = check_marks_same(6) [of r st]
  have "found ?st (deps ?st r)
    (do { (s, st) \<leftarrow> sym_check_expr_deps chk (ev_expr (s_rev_dep (syms ?st r))) ?st;
          if s \<noteq> None then Some (s, st) else check_props chk (sym_is_choice st r) (s_prop (syms st r)) st })"
    unfolding deps_def
  proof (rule found_then)
    show "found ?st (oexpr_syms (ev_expr (s_rev_dep (syms ?st r))))
      (sym_check_expr_deps chk (ev_expr (s_rev_dep (syms ?st r))) ?st)"
      by (rule sym_check_expr_deps_found) (use good in \<open>auto simp: deps_def same\<close>)
  next
    fix b assume b: "only_checked ?st b"
    note f = only_checked_fields [OF b]
    have pd: "prop_deps b r = prop_deps ?st r" by (rule ext) (simp add: prop_deps_def f)
    have mem: "p \<in> set (s_prop (syms ?st r)) \<Longrightarrow> x \<in> prop_deps ?st r p \<Longrightarrow> x \<in> deps st r" for p x
    proof -
      assume "p \<in> set (s_prop (syms ?st r))" "x \<in> prop_deps ?st r p"
      then have "x \<in> deps ?st r" unfolding deps_def by blast
      then show ?thesis by (simp only: dps)
    qed
    have "found b (\<Union>p \<in> set (s_prop (syms b r)). prop_deps b r p)
      (check_props chk (sym_is_choice b r) (s_prop (syms b r)) b)"
      by (rule check_props_found) (use good mem good_checked [OF b] f pd in auto)
    then show "found b (\<Union>p \<in> set (s_prop (syms ?st r)). prop_deps ?st r p)
      (check_props chk (sym_is_choice b r) (s_prop (syms b r)) b)"
      by (simp only: f pd)
  qed
  then obtain s st' where run: "(do { (s, st) \<leftarrow> sym_check_expr_deps chk (ev_expr (s_rev_dep (syms ?st r))) ?st;
          if s \<noteq> None then Some (s, st) else check_props chk (sym_is_choice st r) (s_prop (syms st r)) st }) = Some (s, st')"
    and oc: "only_checked ?st st'"
    and s: "s = None \<and> (\<forall>c \<in> deps ?st r. \<forall>x. \<not> leads ?st c x) \<or>
      (\<exists>x. s = Some x \<and> (\<exists>c \<in> deps ?st r. leads ?st c x))"
    unfolding found_def by blast
  have body: "check_body chk r st = Some (s, clr_flags r {SYMBOL_CHECK} st')"
    using run by (auto simp: check_body_def bind_Some_iff Let_def split: if_splits)
  have oc': "only_checked st (clr_flags r {SYMBOL_CHECK} st')"
  proof -
    from oc obtain C where "st' = ?st\<lparr>syms := (\<lambda>s. if s \<in> C then (syms ?st s)\<lparr>s_flags := insert SYMBOL_CHECKED (s_flags (syms ?st s))\<rparr>
                                else syms ?st s)\<rparr>" unfolding only_checked_def by auto
    note C = this
    let ?fin = "clr_flags r {SYMBOL_CHECK} st'"
    have st: "syms ?st s = (if s = r
        then (syms st r)\<lparr>s_flags := s_flags (syms st r) \<union> {SYMBOL_CHECK, SYMBOL_CHECKED}\<rparr> else syms st s)" for s
      by (simp add: set_flags_def)
    have "SYMBOL_CHECK \<notin> s_flags (syms st r)" using new(1) by (simp add: flag_def)
    then have "syms ?fin s = (if s \<in> insert r C
        then (syms st s)\<lparr>s_flags := insert SYMBOL_CHECKED (s_flags (syms st s))\<rparr> else syms st s)" for s
      by (cases "s = r"; cases "s \<in> C") (auto simp: C clr_flags_def st insert_Diff_if)
    then have e: "syms ?fin = (\<lambda>s. if s \<in> insert r C
        then (syms st s)\<lparr>s_flags := insert SYMBOL_CHECKED (s_flags (syms st s))\<rparr> else syms st s)"
      by (rule ext)
    have "?fin = st\<lparr>syms := syms ?fin\<rparr>" by (simp add: C clr_flags_def set_flags_def upd_sym_def)
    then show ?thesis unfolding only_checked_def e by blast
  qed
  have fl: "flag ?st x SYMBOL_CHECK \<longleftrightarrow> flag st x SYMBOL_CHECK \<or> x = r"
    "flag ?st x SYMBOL_CHECK_DONE = flag st x SYMBOL_CHECK_DONE" for x by auto
  have sound: "leads st r x" if "c \<in> deps st r" "leads ?st c x" for c x
  proof -
    have e: "(r, c) \<in> live_edge st" using that by (auto simp: live_edge_def leads_def)
    have p: "(c, x) \<in> (live_edge st)\<^sup>*" using that by (simp add: leads_def live)
    have "flag st x SYMBOL_CHECK \<or> (x, x) \<in> (live_edge st)\<^sup>+"
      using that(2) rtrancl_into_trancl2 [OF e p] by (auto simp: leads_def live)
    with e p new show ?thesis by (auto simp: leads_def)
  qed
  have complete: "\<exists>c \<in> deps st r. \<exists>y. leads ?st c y" if "leads st r x" for x
  proof -
    from that have p: "(r, x) \<in> (live_edge st)\<^sup>*" and
      x: "flag st x SYMBOL_CHECK \<or> (x, x) \<in> (live_edge st)\<^sup>+" by (auto simp: leads_def)
    show ?thesis
    proof (cases "r = x")
      case True
      with x new have "(r, r) \<in> (live_edge st)\<^sup>+" by simp
      then obtain c where "(r, c) \<in> live_edge st" "(c, r) \<in> (live_edge st)\<^sup>*" by (meson tranclD)
      moreover from this have "c \<in> deps st r" "\<not> flag st c SYMBOL_CHECK_DONE"
        by (auto simp: live_edge_def)
      ultimately have "c \<in> deps st r" "leads ?st c r" by (auto simp: leads_def live)
      then show ?thesis by blast
    next
      case False
      with p obtain c where "(r, c) \<in> live_edge st" "(c, x) \<in> (live_edge st)\<^sup>*"
        by (meson converse_rtranclE)
      moreover from this have "c \<in> deps st r" "\<not> flag st c SYMBOL_CHECK_DONE"
        by (auto simp: live_edge_def)
      ultimately have "c \<in> deps st r" "leads ?st c x" using x by (auto simp: leads_def live)
      then show ?thesis by blast
    qed
  qed
  show ?thesis
    unfolding found_def body using oc' s sound complete by (auto simp: dps)
qed

end

interpretation deps: dep_checker "sym_check_deps n" "chk_level n" for n
proof (induction n rule: nat_less_induct)
  case (1 n)
  show ?case
  proof
    fix st r assume lvl: "chk_level n st r"
    show "found st {r} (sym_check_deps n r st)"
    proof (cases "flag st r SYMBOL_CHECK_DONE \<or> flag st r SYMBOL_CHECK")
      case True
      then show ?thesis
        by (auto simp: sym_check_deps.simps [of n] found_def leads_def)
    next
      case False
      let ?U = "{s \<in> reach st r. \<not> flag st s SYMBOL_CHECK}"
      have U: "finite (reach st r)" "card ?U \<le> n" using lvl False by (auto simp: chk_level_def)
      have rU: "r \<in> ?U" using False by (simp add: reach_def)
      then have "0 < card ?U" using U(1) by (auto simp: card_gt_0_iff)
      then obtain m where m: "n = Suc m" using U(2) by (cases n) auto
      then have ck: "dep_checker (sym_check_deps m) (chk_level m)" using 1 by auto
      have "found st {r} (check_body (sym_check_deps m) r st)"
      proof (rule dep_checker.check_body_found [OF ck])
        fix c assume c: "c \<in> deps st r"
        let ?st = "set_flags r {SYMBOL_CHECK, SYMBOL_CHECKED} st"
        note live = check_marks_same(6) [of r st]
        show "chk_level m ?st c"
        proof (cases "flag st c SYMBOL_CHECK_DONE")
          case True
          then show ?thesis by (simp add: chk_level_def)
        next
          case nd: False
          with c have "(r, c) \<in> live_edge st" by (simp add: live_edge_def)
          then have sub: "reach ?st c \<subseteq> reach st r"
            by (auto simp: reach_def live intro: converse_rtrancl_into_rtrancl)
          have "{s \<in> reach ?st c. \<not> flag ?st s SYMBOL_CHECK} \<subseteq> ?U - {r}" using sub by auto
          then have "card {s \<in> reach ?st c. \<not> flag ?st s SYMBOL_CHECK} \<le> card (?U - {r})"
            using U(1) by (intro card_mono) auto
          also have "\<dots> \<le> m" using U m rU by simp
          finally show ?thesis using sub U(1) by (auto simp: chk_level_def intro: finite_subset)
        qed
      qed (use False in auto)
      with False m show ?thesis by (simp add: sym_check_deps.simps [of "Suc m"])
    qed
  qed (simp add: only_checked_level)
qed

end
