(* ===== verification/Kconfig_Table.thy ===== *)
theory Kconfig_Table
  imports Kconfig_Eval
begin

text \<open>
  The symbol table of \<open>symbol.c\<close>: \<open>sym_lookup\<close> finds or makes the symbol of a name, \<open>sym_find\<close>
  only finds it. The locale \<open>name_table\<close> is what the parser and the reader of \<open>.config\<close> rely on;
  the hash chains of the code are shown to provide it.
\<close>

section \<open>The interface\<close>

locale name_table =
  fixes lookup :: "'n \<Rightarrow> bool \<Rightarrow> 's \<Rightarrow> 'r \<times> 's" and find_name :: "'n \<Rightarrow> 's \<Rightarrow> 'r option"
    and ok :: "'s \<Rightarrow> bool"
  assumes lookup_ok: "ok s \<Longrightarrow> lookup n c s = (r, s') \<Longrightarrow> ok s'"
    and lookup_find: "ok s \<Longrightarrow> lookup n False s = (r, s') \<Longrightarrow> find_name n s' = Some r"
    and find_lookup: "ok s \<Longrightarrow> find_name n s = Some r \<Longrightarrow> lookup n False s = (r, s)"
    and lookup_keeps: "ok s \<Longrightarrow> lookup m c s = (r, s') \<Longrightarrow> find_name n s = Some x \<Longrightarrow>
      find_name n s' = Some x"
    and lookup_adds: "ok s \<Longrightarrow> lookup m c s = (r, s') \<Longrightarrow> m \<noteq> n \<or> c \<Longrightarrow> find_name n s = None \<Longrightarrow>
      find_name n s' = None"
    and find_inj: "ok s \<Longrightarrow> find_name m s = Some r \<Longrightarrow> find_name n s = Some r \<Longrightarrow> m = n"
begin

lemma lookup_again:
  assumes "ok s" "lookup n False s = (r, s')"
  shows "lookup n False s' = (r, s')"
  using find_lookup [OF lookup_ok [OF assms] lookup_find [OF assms]] .

lemma lookup_stable:
  assumes "ok s" "lookup n False s = (r, s')" "lookup m c s' = (q, s'')"
  shows "lookup n False s'' = (r, s'')"
  using assms lookup_ok lookup_find lookup_keeps find_lookup by metis

lemma lookup_distinct:
  assumes "ok s" "lookup n False s = (r, s')" "lookup m False s' = (q, s'')" "n \<noteq> m"
  shows "r \<noteq> q"
proof
  assume "r = q"
  have "find_name n s'' = Some r" "find_name m s'' = Some q"
    using assms lookup_ok lookup_find lookup_keeps by metis+
  then show False using find_inj lookup_ok assms \<open>r = q\<close> by metis
qed

text \<open>Any sequence of look-ups keeps what was found.\<close>

fun lookups :: "('n \<times> bool) list \<Rightarrow> 's \<Rightarrow> 's" where
  "lookups [] s = s"
| "lookups ((n, c) # xs) s = lookups xs (snd (lookup n c s))"

lemma lookups_ok: "ok s \<Longrightarrow> ok (lookups xs s)"
  by (induction xs s rule: lookups.induct) (auto intro: lookup_ok [OF _ prod.collapse [symmetric]])

lemma lookups_keep: "ok s \<Longrightarrow> find_name n s = Some r \<Longrightarrow> find_name n (lookups xs s) = Some r"
proof (induction xs s rule: lookups.induct)
  case (2 m c xs s)
  obtain q s' where l: "lookup m c s = (q, s')" by (metis surj_pair)
  with 2 lookup_ok [OF _ l] lookup_keeps [OF _ l] show ?case by simp
qed simp

lemma lookups_find:
  assumes "ok s" "lookup n False s = (r, s')"
  shows "find_name n (lookups xs s') = Some r"
  using lookups_keep lookup_ok [OF assms] lookup_find [OF assms] by blast

end

section \<open>The hash chains\<close>

text \<open>
  Every chain holds allocated symbols; those of a name sit in the chain of its hash, and no two
  in a chain have the same name and the same constness; the names \<open>y\<close>, \<open>m\<close>, \<open>n\<close> are never
  entered.
\<close>

definition hash_ok :: "kstate \<Rightarrow> bool" where
  "hash_ok st \<longleftrightarrow>
     (\<forall>h r. r \<in> set (symbol_hash st h) \<longrightarrow> (\<exists>i < next_sym st. r = SymPtr i)) \<and>
     (\<forall>h r. h < 256 \<longrightarrow> r \<in> set (symbol_hash st h) \<longrightarrow>
        (\<exists>nm. s_name (syms st r) = Some nm \<and> sym_hash nm = h \<and> const_name nm = None)) \<and>
     (\<forall>s \<in> {SymYes, SymMod, SymNo}. const_name (the (s_name (syms st s))) = Some s)"

lemma sym_hash_less: "sym_hash nm < 256"
  by (simp add: sym_hash_def)

lemma find_Some_in: "find P xs = Some x \<Longrightarrow> x \<in> set xs \<and> P x"
  by (auto simp: find_Some_iff)

lemma find_cong_set: "(\<And>x. x \<in> set xs \<Longrightarrow> P x = Q x) \<Longrightarrow> find P xs = find Q xs"
  by (induction xs) auto

lemma const_name_Some:
  "const_name nm = Some c \<longleftrightarrow>
     (nm = ''y'' \<and> c = SymYes) \<or> (nm = ''m'' \<and> c = SymMod) \<or> (nm = ''n'' \<and> c = SymNo)"
  by auto

declare const_name.simps [simp del]

lemma sym_new_simps:
  assumes "sym_new nm h c st = (r, st')"
  shows "r = SymPtr (next_sym st)" "next_sym st' = Suc (next_sym st)"
    "symbol_hash st' = (symbol_hash st)(h := r # symbol_hash st h)"
    "syms st' s = (if s = r then sym_init_val nm (if c then insert SYMBOL_NEW SYMBOL_CONST else {SYMBOL_NEW})
                   else syms st s)"
  using assms by (auto simp: sym_new_def Let_def)

text \<open>The new symbol is at the head of its chain; every other symbol is found as before.\<close>

lemma find_after_new:
  assumes ok: "hash_ok st" and new: "sym_new (Some m) (sym_hash m) c st = (r, st')"
    and n: "const_name n = None"
  shows "sym_find (Some n) st' = (if n = m \<and> \<not> c then Some r else sym_find (Some n) st)"
proof -
  note ns = sym_new_simps [OF new]
  have old: "x \<noteq> r" if "x \<in> set (symbol_hash st h)" for x h
    using ok that ns(1) by (force simp: hash_ok_def)
  have same: "find (\<lambda>r. s_name (syms st' r) = Some n \<and> \<not> is_const_sym st' r) (symbol_hash st h) =
      find (\<lambda>r. s_name (syms st r) = Some n \<and> \<not> is_const_sym st r) (symbol_hash st h)" for h
    by (rule find_cong_set) (use old in \<open>auto simp: ns(4) is_const_sym_def is_const_def\<close>)
  have "s_name (syms st' r) = Some m" "is_const_sym st' r = c"
    by (auto simp: ns(4) sym_init_val_def is_const_sym_def is_const_def SYMBOL_CONST_def)
  with same n show ?thesis
    by (auto simp: sym_find_def ns(3))
qed

lemma lookup_cases:
  assumes "sym_lookup (Some nm) c st = (r, st')"
  obtains (const) "const_name nm = Some r" "st' = st"
  | (old) "const_name nm = None" "st' = st" "r \<in> set (symbol_hash st (sym_hash nm))"
      "s_name (syms st r) = Some nm" "is_const_sym st r = c"
      "find (\<lambda>r. s_name (syms st r) = Some nm \<and> is_const_sym st r = c) (symbol_hash st (sym_hash nm)) = Some r"
  | (new) "const_name nm = None" "sym_new (Some nm) (sym_hash nm) c st = (r, st')"
      "find (\<lambda>r. s_name (syms st r) = Some nm \<and> is_const_sym st r = c) (symbol_hash st (sym_hash nm)) = None"
proof (cases "const_name nm")
  case (Some x)
  with assms const show thesis by (auto simp: sym_lookup_def)
next
  case None
  show thesis
  proof (cases "find (\<lambda>r. s_name (syms st r) = Some nm \<and> is_const_sym st r = c) (symbol_hash st (sym_hash nm))")
    case None
    with \<open>const_name nm = None\<close> assms new show thesis by (auto simp: sym_lookup_def)
  next
    case (Some x)
    with \<open>const_name nm = None\<close> assms have "x = r" "st' = st" by (auto simp: sym_lookup_def)
    with Some find_Some_in [OF Some] \<open>const_name nm = None\<close> old show thesis by auto
  qed
qed

lemma hash_ok_new:
  assumes ok: "hash_ok st" and new: "sym_new (Some m) (sym_hash m) c st = (r, st')"
    and n: "const_name m = None"
  shows "hash_ok st'"
proof -
  note ns = sym_new_simps [OF new]
  have old: "x \<noteq> r" if "x \<in> set (symbol_hash st h)" for x h
    using ok that ns(1) by (force simp: hash_ok_def)
  have a: "\<exists>i < next_sym st'. x = SymPtr i" if "x \<in> set (symbol_hash st' h)" for h x
    using ok that ns(1-3) by (auto simp: hash_ok_def less_Suc_eq split: if_splits) 
  have b: "\<exists>nm. s_name (syms st' x) = Some nm \<and> sym_hash nm = h \<and> const_name nm = None"
    if "h < 256" "x \<in> set (symbol_hash st' h)" for h x
  proof (cases "x = r")
    case True
    have "h = sym_hash m"
      using that(2) old [of r h] by (auto simp: True ns(3) split: if_splits)
    with True n show ?thesis by (simp add: ns(4) sym_init_val_def)
  next
    case False
    then have "x \<in> set (symbol_hash st h)" using that(2) by (auto simp: ns(3) split: if_splits)
    with ok that(1) False show ?thesis by (auto simp: hash_ok_def ns(4))
  qed
  have "r \<notin> {SymYes, SymMod, SymNo}" using ns(1) by auto
  with ok have "\<forall>s \<in> {SymYes, SymMod, SymNo}. const_name (the (s_name (syms st' s))) = Some s"
    by (auto simp: hash_ok_def ns(4))
  with a b show ?thesis unfolding hash_ok_def by blast
qed

lemma hash_ok_lookup: "hash_ok st \<Longrightarrow> sym_lookup (Some nm) c st = (r, st') \<Longrightarrow> hash_ok st'"
  by (erule lookup_cases) (auto dest: hash_ok_new)

lemma sym_find_const: "const_name nm = Some c \<Longrightarrow> sym_find (Some nm) st = Some c"
  by (simp add: sym_find_def)

interpretation symtab: name_table
  "\<lambda>nm c st. sym_lookup (Some nm) c st" "\<lambda>nm st. sym_find (Some nm) st" hash_ok
proof
  fix st st' r n c assume "hash_ok st" "sym_lookup (Some n) c st = (r, st')"
  then show "hash_ok st'" by (rule hash_ok_lookup)
next
  fix st st' r n assume ok: "hash_ok st" and l: "sym_lookup (Some n) False st = (r, st')"
  from l show "sym_find (Some n) st' = Some r"
  proof (cases rule: lookup_cases)
    case new
    then show ?thesis by (simp add: find_after_new [OF ok])
  qed (auto simp: sym_find_def)
next
  fix st r n assume ok: "hash_ok st" and f: "sym_find (Some n) st = Some r"
  then show "sym_lookup (Some n) False st = (r, st)"
    by (cases "const_name n") (auto simp: sym_find_def sym_lookup_def)
next
  fix st st' m c r n x
  assume ok: "hash_ok st" and l: "sym_lookup (Some m) c st = (r, st')" and f: "sym_find (Some n) st = Some x"
  from l show "sym_find (Some n) st' = Some x"
  proof (cases rule: lookup_cases)
    case new
    show ?thesis
    proof (cases "const_name n")
      case None
      have "n = m \<Longrightarrow> c" using f new by (cases c) (auto simp: sym_find_def)
      with find_after_new [OF ok new(2) None] f show ?thesis by auto
    next
      case (Some y)
      with f show ?thesis by (simp add: sym_find_const)
    qed
  qed (use f in auto)
next
  fix st st' m c r n
  assume ok: "hash_ok st" and l: "sym_lookup (Some m) c st = (r, st')" and mn: "m \<noteq> n \<or> c"
    and f: "sym_find (Some n) st = None"
  then have n: "const_name n = None" by (cases "const_name n") (auto simp: sym_find_def)
  from l show "sym_find (Some n) st' = None"
  proof (cases rule: lookup_cases)
    case new
    with find_after_new [OF ok new(2) n] mn f show ?thesis by auto
  qed (use f in auto)
next
  fix st m n r
  assume ok: "hash_ok st" and a: "sym_find (Some m) st = Some r" and b: "sym_find (Some n) st = Some r"
  have c: "s_name (syms st r) = Some nm \<and> (\<exists>i. r = SymPtr i)"
    if "sym_find (Some nm) st = Some r" "const_name nm = None" for nm
  proof -
    from that have "find (\<lambda>r. s_name (syms st r) = Some nm \<and> \<not> is_const_sym st r)
        (symbol_hash st (sym_hash nm)) = Some r" by (simp add: sym_find_def)
    from find_Some_in [OF this] have "r \<in> set (symbol_hash st (sym_hash nm))" "s_name (syms st r) = Some nm"
      by auto
    with ok show ?thesis unfolding hash_ok_def by blast
  qed
  have d: "\<nexists>i. r = SymPtr i" if "const_name nm = Some r" for nm
    using that by (auto simp: const_name_Some)
  have e: "const_name nm = Some r" if "sym_find (Some nm) st = Some r" "const_name nm \<noteq> None" for nm
    using that by (auto simp: sym_find_def)
  show "m = n"
  proof (cases "const_name m = None")
    case True
    with c [OF a True] d e [OF b] have "const_name n = None" by blast
    with c [OF a True] c [OF b] show ?thesis by simp
  next
    case False
    with e [OF a] c [OF b] d have "const_name n = Some r" "const_name m = Some r" using e [OF b] by blast+
    then show ?thesis unfolding const_name_Some by auto
  qed
qed

end
