(* ===== verification/Kconfig_Props.thy ===== *)
theory Kconfig_Props
  imports Kconfig_Deps Kconfig_Table Kconfig_Values
begin

text \<open>
  The properties of the expression and symbol engines, each with a witness on a small table.
\<close>

section \<open>A table for the witnesses\<close>

text \<open>
  The three constants, boolean symbols \<open>SymPtr 0\<close> and \<open>SymPtr 1\<close> that are \<open>y\<close> and \<open>n\<close>, and a
  tristate symbol \<open>SymPtr 2\<close> that is \<open>m\<close>.
\<close>

definition mk_sym :: "string \<Rightarrow> symbol_type \<Rightarrow> string \<Rightarrow> tristate \<Rightarrow> symbol_flag set \<Rightarrow> symbol" where
  "mk_sym nm ty v t F =
     \<lparr>s_name = Some nm, s_help = None, s_type = ty, s_curr = \<lparr>sv_val = VStr ALit v, sv_tri = t\<rparr>,
      s_user = \<lparr>sv_val = VNull, sv_tri = No\<rparr>, s_visible = No, s_flags = F, s_prop = [],
      s_rev_dep = \<lparr>ev_expr = None, ev_tri = No\<rparr>\<rparr>"

fun demo_tab :: symtab where
  "demo_tab SymYes = mk_sym ''y'' S_UNKNOWN ''y'' Yes {SYMBOL_YES, SYMBOL_VALID}"
| "demo_tab SymMod = mk_sym ''m'' S_UNKNOWN ''m'' Mod {SYMBOL_MOD, SYMBOL_VALID}"
| "demo_tab SymNo = mk_sym ''n'' S_UNKNOWN ''n'' No {SYMBOL_NO, SYMBOL_VALID}"
| "demo_tab SymEmpty = mk_sym '''' S_UNKNOWN '''' No {SYMBOL_VALID}"
| "demo_tab (SymPtr i) =
     (if i = 0 then mk_sym ''A'' S_BOOLEAN ''n'' Yes {}
      else if i = 1 then mk_sym ''B'' S_BOOLEAN ''n'' No {}
      else if i = 2 then mk_sym ''T'' S_TRISTATE ''n'' Mod {}
      else mk_sym ''X'' S_BOOLEAN ''n'' No {SYMBOL_VALID})"

lemma demo_tab_ok [simp]: "tab_ok demo_tab"
proof -
  have c: "is_const demo_tab s \<Longrightarrow> s \<in> {SymYes, SymMod, SymNo}" for s
    by (cases s) (auto simp: is_const_def SYMBOL_CONST_def mk_sym_def split: if_splits)
  have "sym_get_string_value demo_tab SymYes = Some ''y''" "sym_get_string_value demo_tab SymMod = Some ''m''"
    "sym_get_string_value demo_tab SymNo = Some ''n''"
    by (simp_all add: sym_get_string_value_def mk_sym_def)
  then have "is_const demo_tab a \<Longrightarrow> is_const demo_tab b \<Longrightarrow>
      sym_get_string_value demo_tab a = sym_get_string_value demo_tab b \<Longrightarrow> a = b" for a b
    using c [of a] c [of b] by auto
  moreover have "s_type (demo_tab s) = S_BOOLEAN \<Longrightarrow> sym_tri demo_tab s \<noteq> Mod" for s
    by (cases s) (auto simp: sym_tri_def mk_sym_def split: if_splits)
  ultimately show ?thesis by (auto simp: tab_ok_def mk_sym_def)
qed

lemma demo_tri [simp]:
  "sym_tri demo_tab (SymPtr 0) = Yes" "sym_tri demo_tab (SymPtr (Suc 0)) = No"
  "sym_tri demo_tab (SymPtr 2) = Mod" "sym_tri demo_tab SymNo = No" "sym_tri demo_tab SymYes = Yes"
  by (simp_all add: sym_tri_def mk_sym_def)

section \<open>Rewriting expressions\<close>

text \<open>C1: Duplicate elimination terminates on every expression: the loop of \<open>expr_eliminate_dups\<close>
  returns, the result is no larger, and for a dependency whose symbols are not \<open>m\<close> it has the
  same value.\<close>

theorem expr_eliminate_dups_keeps_value:
  "\<exists>e'. expr_eliminate_dups T e = Some e' \<and> size e' \<le> size e \<and>
     (tab_ok T \<and> dep2 T e \<longrightarrow> expr_val T e' = expr_val T e)"
  using expr_eliminate_dups_correct [of T e] by metis

theorem expr_eliminate_dups_keeps_value_witness:
  "\<exists>e'. expr_eliminate_dups demo_tab (EAnd (ESymbol (SymPtr 0)) (ESymbol (SymPtr 0))) = Some e' \<and>
     expr_val demo_tab e' = Yes"
  using expr_eliminate_dups_keeps_value [of demo_tab "EAnd (ESymbol (SymPtr 0)) (ESymbol (SymPtr 0))"]
  by auto

text \<open>C2: \<open>expr_transform\<close> keeps the value of every dependency, also for symbols that are \<open>m\<close>,
  and pushes every negation down to a symbol.\<close>

theorem expr_transform_keeps_value:
  assumes "tab_ok T" "dep_wf e"
  shows "expr_val T (expr_transform T e) = expr_val T e \<and> nnf (expr_transform T e)"
  using expr_transform_correct [OF assms] by simp

theorem expr_transform_keeps_value_witness:
  "expr_val demo_tab (expr_transform demo_tab
     (ENot (EAnd (ESymbol (SymPtr 2)) (ENot (ESymbol (SymPtr 0)))))) = Yes"
  using expr_transform_keeps_value [of demo_tab "ENot (EAnd (ESymbol (SymPtr 2)) (ENot (ESymbol (SymPtr 0))))"]
  by simp

text \<open>Joining two terms of a disjunction or of a conjunction (\<open>expr_join_or\<close>,
  \<open>expr_join_and\<close>) gives a term with the value of the two together.\<close>

theorem expr_join_keeps_value:
  assumes "tab_ok T"
  shows "(\<forall>e. expr_join_or T e1 e2 = Some e \<longrightarrow> expr_val T e = tri_or (expr_val T e1) (expr_val T e2)) \<and>
    (\<forall>e. expr_join_and T e1 e2 = Some e \<longrightarrow> expr_val T e = tri_and (expr_val T e1) (expr_val T e2))"
  using expr_join_or_val [OF assms] expr_join_and_val [OF assms] by blast

theorem expr_join_keeps_value_witness:
  "expr_join_or demo_tab (EEqual (SymPtr 2) SymYes) (EEqual (SymPtr 2) SymMod) =
     Some (EUnequal (SymPtr 2) SymNo) \<and>
   expr_val demo_tab (EUnequal (SymPtr 2) SymNo) = Yes"
proof -
  have j: "expr_join_or demo_tab (EEqual (SymPtr 2) SymYes) (EEqual (SymPtr 2) SymMod) =
     Some (EUnequal (SymPtr 2) SymNo)"
    by (simp add: expr_join_or_def expr_eq.simps either_def mk_sym_def)
  from expr_join_keeps_value [OF demo_tab_ok] j
  have "expr_val demo_tab (EUnequal (SymPtr 2) SymNo) = tri_or (expr_val demo_tab (EEqual (SymPtr 2) SymYes))
    (expr_val demo_tab (EEqual (SymPtr 2) SymMod))" by blast
  then show ?thesis using j by (simp add: sym_get_string_value_def mk_sym_def)
qed

text \<open>Expressions that \<open>expr_eq\<close> takes for equal have the same value, and eliminating the
  common terms of two disjunctions or two conjunctions takes the same value out of both.\<close>

theorem expr_eq_same_value:
  assumes "tab_ok T"
  shows "(expr_eq T e1 e2 \<longrightarrow> expr_val T e1 = expr_val T e2) \<and>
    (etype e1 = ty \<and> etype e2 = ty \<and> ty \<in> {E_OR, E_AND} \<and>
       expr_eliminate_eq0 T e1 e2 n = (a, b, m) \<longrightarrow>
     (\<exists>c. expr_val T e1 = tri_op ty (expr_val T a) c \<and> expr_val T e2 = tri_op ty (expr_val T b) c))"
  using expr_eq_val [OF assms] expr_eliminate_eq0_sound [OF assms] by blast

theorem expr_eq_same_value_witness:
  "expr_eq demo_tab (ENot (ESymbol (SymPtr 2))) (ENot (ESymbol (SymPtr 2))) \<and>
   expr_val demo_tab (ENot (ESymbol (SymPtr 2))) = expr_val demo_tab (ENot (ESymbol (SymPtr 2)))"
  using expr_eq_same_value [OF demo_tab_ok, of "ENot (ESymbol (SymPtr 2))" "ENot (ESymbol (SymPtr 2))"]
  by (simp add: expr_eq.simps)

subsection \<open>Where the value is not kept\<close>

text \<open>
  The second pass takes \<open>(T || B) && (!T && !B)\<close> for \<open>n\<close>; with \<open>T\<close> a tristate symbol that is
  \<open>m\<close> (and \<open>B = n\<close>) the expression is \<open>m\<close>.
\<close>

definition demo_contradiction :: expr where
  "demo_contradiction = EAnd (EOr (ESymbol (SymPtr 2)) (ESymbol (SymPtr 1)))
     (EAnd (ENot (ESymbol (SymPtr 2))) (ENot (ESymbol (SymPtr 1))))"

lemma demo_contradiction_value: "expr_val demo_tab demo_contradiction = Mod"
  by (simp add: demo_contradiction_def tri_or_def tri_and_def)

section \<open>Comparing with a constant\<close>

text \<open>Every symbol is \<open>y\<close> or \<open>n\<close>, and its string says so.\<close>

fun plain2 :: "symtab \<Rightarrow> expr \<Rightarrow> bool" where
  "plain2 T (ESymbol s) \<longleftrightarrow> sym_tri T s \<noteq> Mod \<and>
     sym_get_string_value T s = Some (tri_string (sym_tri T s))"
| "plain2 T (EAnd l r) \<longleftrightarrow> plain2 T l \<and> plain2 T r"
| "plain2 T (EOr l r) \<longleftrightarrow> plain2 T l \<and> plain2 T r"
| "plain2 T (ENot l) \<longleftrightarrow> plain2 T l"
| "plain2 T e \<longleftrightarrow> True"

lemma trans_compare_val:
  "tab_ok T \<Longrightarrow> dep_wf e \<Longrightarrow> plain2 T e \<Longrightarrow> c \<in> {SymYes, SymNo} \<Longrightarrow> ty \<in> {E_EQUAL, E_UNEQUAL} \<Longrightarrow>
     \<exists>x. expr_trans_compare (Some e) ty c = Some x \<and> expr_val T e \<noteq> Mod \<and>
       expr_val T x = (if (expr_val T e = sym_tri T c) = (ty = E_EQUAL) then Yes else No)"
proof (induction e arbitrary: ty)
  case (EOr l r)
  have pl: "dep_wf l" "plain2 T l" "dep_wf r" "plain2 T r" using EOr.prems by auto
  from EOr.IH(1) [OF EOr.prems(1) pl(1,2) EOr.prems(4), of E_EQUAL] obtain x where x: "expr_trans_compare (Some l) E_EQUAL c = Some x"
    "expr_val T l \<noteq> Mod" "expr_val T x = (if expr_val T l = sym_tri T c then Yes else No)" by auto
  from EOr.IH(2) [OF EOr.prems(1) pl(3,4) EOr.prems(4), of E_EQUAL] obtain y where y: "expr_trans_compare (Some r) E_EQUAL c = Some y"
    "expr_val T r \<noteq> Mod" "expr_val T y = (if expr_val T r = sym_tri T c then Yes else No)" by auto
  show ?case using x y EOr.prems(4,5) tab_okD(1) [OF EOr.prems(1)] tab_okD(3) [OF EOr.prems(1)]
    by (cases "expr_val T l"; cases "expr_val T r") auto
next
  case (EAnd l r)
  have pl: "dep_wf l" "plain2 T l" "dep_wf r" "plain2 T r" using EAnd.prems by auto
  from EAnd.IH(1) [OF EAnd.prems(1) pl(1,2) EAnd.prems(4), of E_EQUAL] obtain x where x: "expr_trans_compare (Some l) E_EQUAL c = Some x"
    "expr_val T l \<noteq> Mod" "expr_val T x = (if expr_val T l = sym_tri T c then Yes else No)" by auto
  from EAnd.IH(2) [OF EAnd.prems(1) pl(3,4) EAnd.prems(4), of E_EQUAL] obtain y where y: "expr_trans_compare (Some r) E_EQUAL c = Some y"
    "expr_val T r \<noteq> Mod" "expr_val T y = (if expr_val T r = sym_tri T c then Yes else No)" by auto
  show ?case using x y EAnd.prems(4,5) tab_okD(1,3) [OF EAnd.prems(1)]
    by (cases "expr_val T l"; cases "expr_val T r") auto
next
  case (ENot l)
  have pl: "dep_wf l" "plain2 T l" using ENot.prems by auto
  note ih = ENot.IH [OF ENot.prems(1) pl ENot.prems(4)]
  note c = tab_okD(1) [OF ENot.prems(1)] tab_okD(3) [OF ENot.prems(1)]
  show ?case
  proof (cases "ty = E_EQUAL")
    case True
    with ih [of E_UNEQUAL] ENot.prems(4) c show ?thesis by (cases "expr_val T l") auto
  next
    case False
    with ih [of E_EQUAL] ENot.prems(4) c show ?thesis by (cases "expr_val T l") auto
  qed
next
  case (ESymbol s)
  from ESymbol.prems(3) have s: "sym_tri T s \<noteq> Mod"
    "sym_get_string_value T s = Some (tri_string (sym_tri T s))" by simp_all
  have c: "sym_get_string_value T c = Some (tri_string (sym_tri T c))"
    using ESymbol.prems(4) tab_okD(1) [OF ESymbol.prems(1)] tab_okD(3) [OF ESymbol.prems(1)]
      tab_okD(4) [OF ESymbol.prems(1)] tab_okD(6) [OF ESymbol.prems(1)] by auto
  show ?case
    using s(1) ESymbol.prems(5) by (auto simp only: expr_trans_compare.simps expr_val.simps s(2) c
        option.inject tri_string_inject split: if_splits)
qed (auto simp: tab_okD)

text \<open>\<open>expr_trans_compare\<close> builds the expression that says whether a dependency has a given
  value: on \<open>y\<close> and \<open>n\<close>, for symbols that are \<open>y\<close> or \<open>n\<close>, its value is \<open>y\<close> exactly when
  the comparison holds. Menus rely on it when they turn a dependency into \<open>dep != n\<close>.\<close>

theorem expr_trans_compare_decides:
  assumes "tab_ok T" "dep_wf e" "plain2 T e" "c \<in> {SymYes, SymNo}" "ty \<in> {E_EQUAL, E_UNEQUAL}"
  shows "\<exists>x. expr_trans_compare (Some e) ty c = Some x \<and>
    expr_val T x = (if (expr_val T e = sym_tri T c) = (ty = E_EQUAL) then Yes else No)"
  using trans_compare_val [OF assms] by blast

theorem expr_trans_compare_decides_witness:
  "\<exists>x. expr_trans_compare (Some (EAnd (ESymbol (SymPtr 0)) (ENot (ESymbol (SymPtr 1))))) E_UNEQUAL SymNo = Some x \<and>
     expr_val demo_tab x = Yes"
  using expr_trans_compare_decides [OF demo_tab_ok, of "EAnd (ESymbol (SymPtr 0)) (ENot (ESymbol (SymPtr 1)))" SymNo E_UNEQUAL]
  by (simp add: sym_get_string_value_def mk_sym_def sym_tri_def)

text \<open>On \<open>m\<close> it does not: \<open>!T = n\<close> is false when \<open>T = m\<close>, the code makes \<open>T != n\<close> of it.\<close>

lemma expr_trans_compare_at_m:
  "expr_val demo_tab (ENot (ESymbol (SymPtr 2))) \<noteq> No \<and>
   expr_trans_compare (Some (ENot (ESymbol (SymPtr 2)))) E_EQUAL SymNo = Some (EUnequal (SymPtr 2) SymNo) \<and>
   expr_val demo_tab (EUnequal (SymPtr 2) SymNo) = Yes"
  by (simp add: sym_get_string_value_def mk_sym_def)

section \<open>Symbols in a dependency\<close>

lemma depends_No:
  "tab_ok T \<Longrightarrow> s_type (T s) \<in> {S_BOOLEAN, S_TRISTATE} \<Longrightarrow> sym_tri T s = No \<Longrightarrow>
     expr_depends_symbol (Some e) s \<Longrightarrow> expr_val T e = No"
proof (induction e)
  case (EEqual a b)
  then show ?case by (auto simp: sym_string_tri tab_okD)
next
  case (EUnequal a b)
  then show ?case by (auto simp: sym_string_tri tab_okD)
qed auto

text \<open>A dependency that \<open>expr_depends_symbol\<close> says depends on a symbol is \<open>n\<close> whenever the
  symbol is, and one that does not contain a symbol (\<open>expr_contains_symbol\<close>) keeps its value
  whatever the symbol's.\<close>

theorem expr_depends_contains_sound:
  assumes "tab_ok T"
  shows "(expr_depends_symbol (Some e) s \<and> s_type (T s) \<in> {S_BOOLEAN, S_TRISTATE} \<and> sym_tri T s = No \<longrightarrow>
      expr_val T e = No) \<and>
    (dep_wf e \<and> \<not> expr_contains_symbol (Some e) s \<longrightarrow> expr_val (T(s := x)) e = expr_val T e)"
proof -
  have "expr_val (T(s := x)) e = expr_val T e" if "dep_wf e" "\<not> expr_contains_symbol (Some e) s"
    using that by (intro expr_val_cong) (auto simp: expr_contains_iff)
  with depends_No [OF assms] show ?thesis by blast
qed

theorem expr_depends_contains_sound_witness:
  "expr_val demo_tab (EAnd (ESymbol (SymPtr 0)) (ESymbol (SymPtr 1))) = No \<and>
   expr_val (demo_tab(SymPtr 2 := demo_tab SymYes)) (ESymbol (SymPtr 0)) = expr_val demo_tab (ESymbol (SymPtr 0))"
  using expr_depends_contains_sound [OF demo_tab_ok, of "EAnd (ESymbol (SymPtr 0)) (ESymbol (SymPtr 1))" "SymPtr 1" undefined]
    expr_depends_contains_sound [OF demo_tab_ok, of "ESymbol (SymPtr 0)" "SymPtr 2" "demo_tab SymYes"]
  by (simp add: mk_sym_def)

section \<open>Evaluation\<close>

text \<open>
  A state for the witnesses: the table above, where \<open>SymPtr 0\<close> has an unconditional prompt
  and the user's value \<open>y\<close>, and \<open>SymPtr 1\<close> depends on it; no modules.
\<close>

definition demo_props :: "nat \<Rightarrow> property" where
  "demo_props p =
     (if p = 0 then prop_init\<lparr>p_sym := Some (SymPtr 0), p_type := P_PROMPT, p_text := Some ''A''\<rparr>
      else prop_init\<lparr>p_sym := Some (SymPtr 1), p_type := P_PROMPT, p_text := Some ''B'',
             p_visible := \<lparr>ev_expr = Some (ESymbol (SymPtr 0)), ev_tri = No\<rparr>\<rparr>)"

definition demo_menu :: menu where
  "demo_menu = \<lparr>m_next = None, m_parent = None, m_list = None, m_sym = None, m_prompt = None,
     m_dep = None, m_flags = {}\<rparr>"

definition demo_st :: kstate where
  "demo_st = \<lparr>syms = demo_tab
       (SymPtr 0 := (demo_tab (SymPtr 0))\<lparr>s_prop := [0], s_user := \<lparr>sv_val = VNull, sv_tri = Yes\<rparr>\<rparr>,
        SymPtr 1 := (demo_tab (SymPtr 1))\<lparr>s_prop := [1], s_user := \<lparr>sv_val = VNull, sv_tri = Yes\<rparr>\<rparr>),
     props = demo_props, menus = (\<lambda>_. demo_menu), symbol_hash = (\<lambda>_. []), modules_sym = None,
     modules_val = No, sym_change_count = 0, sym_inited = True, next_sym = 3, next_prop = 2,
     next_menu = 1, next_str = 0\<rparr>"

lemma demo_run:
  "map_option (\<lambda>st. (sym_get_tristate_value st (SymPtr 1), sym_get_tristate_value st (SymPtr 0),
      s_visible (syms st (SymPtr 1)))) (sym_calc_value 2 (SymPtr 1) demo_st) = Some (Yes, Yes, Yes)"
  by code_simp

lemma demo_run_Some:
  obtains st' where "sym_calc_value 2 (SymPtr 1) demo_st = Some st'"
    "sym_tri (syms st') (SymPtr 1) = Yes" "sym_tri (syms st') (SymPtr 0) = Yes"
    "s_visible (syms st' (SymPtr 1)) = Yes"
  using demo_run by (auto simp: sym_get_tristate_value_def sym_tri_def)

text \<open>C3: The tool's evaluator computes what expressions mean: when \<open>expr_calc_value\<close> returns, its
  result is the value of the expression in the table it leaves behind.\<close>

theorem expr_calc_value_meaning:
  assumes "expr_calc_value (sym_calc_value k) e st = Some (v, st')"
  shows "v = oexpr_val (syms st') e"
  using calc.expr_calc_value_correct [OF assms] by simp

theorem expr_calc_value_meaning_witness:
  "\<exists>v st'. expr_calc_value (sym_calc_value 2) (Some (ESymbol (SymPtr 1))) demo_st = Some (v, st') \<and>
     v = expr_val (syms st') (ESymbol (SymPtr 1)) \<and> v = Yes"
proof -
  obtain st' where r: "sym_calc_value 2 (SymPtr 1) demo_st = Some st'" "sym_tri (syms st') (SymPtr 1) = Yes"
    using demo_run_Some by blast
  then have "expr_calc_value (sym_calc_value 2) (Some (ESymbol (SymPtr 1))) demo_st = Some (Yes, st')"
    by (simp add: sym_tri_def)
  with expr_calc_value_meaning [OF this] show ?thesis by auto
qed

text \<open>C4: Evaluating a symbol marks it valid, leaves the value of every symbol that was valid
  already, and never touches what the configuration files and the user said: names, types, user
  values, properties and their expressions.\<close>

theorem sym_calc_value_frame:
  assumes "sym_calc_value k r st = Some st'"
  shows "flag st' r SYMBOL_VALID \<and>
    (\<forall>s. flag st s SYMBOL_VALID \<longrightarrow> flag st' s SYMBOL_VALID \<and> s_curr (syms st' s) = s_curr (syms st s)) \<and>
    (\<forall>s. s_name (syms st' s) = s_name (syms st s) \<and> s_type (syms st' s) = s_type (syms st s) \<and>
       s_user (syms st' s) = s_user (syms st s) \<and> s_prop (syms st' s) = s_prop (syms st s)) \<and>
    (\<forall>p. p_type (props st' p) = p_type (props st p) \<and> p_expr (props st' p) = p_expr (props st p) \<and>
       ev_expr (p_visible (props st' p)) = ev_expr (p_visible (props st p)))"
  using frame_valid [OF calc.calc_frame [OF assms]] frame_curr [OF calc.calc_frame [OF assms]]
    frame_sym [OF calc.calc_frame [OF assms]] frame_prop [OF calc.calc_frame [OF assms]]
    calc.calc_valid [OF assms] by simp

theorem sym_calc_value_frame_witness:
  "\<exists>st'. sym_calc_value 2 (SymPtr 1) demo_st = Some st' \<and> flag st' (SymPtr 1) SYMBOL_VALID"
proof -
  obtain st' where r: "sym_calc_value 2 (SymPtr 1) demo_st = Some st'" using demo_run_Some by blast
  with sym_calc_value_frame [OF r] show ?thesis by blast
qed












section \<open>Setting values\<close>




text \<open>The toggle loop ends after at most three rounds: it is one call of the setter, with the
  next value in the order \<open>n\<close>, \<open>m\<close>, \<open>y\<close>, \<open>n\<close> that is in range, or with the old value.\<close>

theorem sym_toggle_is_set:
  "sym_toggle_tristate_value (sym_calc_value k) r st =
     map_option (\<lambda>(ok, st'). (toggle_target st r, st'))
       (sym_set_tristate_value (sym_calc_value k) r (toggle_target st r) st)"
  by (rule calc.sym_toggle_spec)

text \<open>The strings accepted for a number: for an integer an optional minus sign and a decimal
  number without leading zeros, for a hexadecimal symbol an optional \<open>0x\<close> and at least one
  hexadecimal digit.\<close>

theorem sym_string_valid_language:
  "(s_type (syms st r) = S_INT \<longrightarrow> sym_string_valid st r str =
     (\<exists>sign ds. str = sign @ ds \<and> (sign = [] \<or> sign = ''-'') \<and> ds \<noteq> [] \<and>
        (\<forall>c \<in> set ds. isdigit c) \<and> (hd ds = CHR ''0'' \<longrightarrow> ds = ''0''))) \<and>
   (s_type (syms st r) = S_HEX \<longrightarrow> sym_string_valid st r str =
     (\<exists>pre ds. str = pre @ ds \<and> pre \<in> {[], ''0x'', ''0X''} \<and> ds \<noteq> [] \<and> (\<forall>c \<in> set ds. isxdigit c)))"
  unfolding int_valid_iff [symmetric] hex_valid_iff [symmetric] by (simp add: sym_string_valid_def)

definition demo_num :: "symbol_type \<Rightarrow> kstate" where
  "demo_num ty = demo_st\<lparr>syms := (\<lambda>_. mk_sym ''N'' ty ''0'' No {SYMBOL_VALID})\<rparr>"

theorem sym_string_valid_language_witness:
  "sym_string_valid (demo_num S_INT) (SymPtr 0) ''-12'' \<and> \<not> sym_string_valid (demo_num S_INT) (SymPtr 0) ''''"
proof -
  have ty: "s_type (syms (demo_num S_INT) (SymPtr 0)) = S_INT" by (simp add: demo_num_def mk_sym_def)
  have "\<exists>sign ds. ''-12'' = sign @ ds \<and> (sign = [] \<or> sign = ''-'') \<and> ds \<noteq> [] \<and>
      (\<forall>c \<in> set ds. isdigit c) \<and> (hd ds = CHR ''0'' \<longrightarrow> ds = ''0'')"
    by (rule exI [of _ "''-''"], rule exI [of _ "''12''"]) (simp add: isdigit_def)
  with sym_string_valid_language [of "demo_num S_INT" "SymPtr 0" "''-12''"]
    sym_string_valid_language [of "demo_num S_INT" "SymPtr 0" "''''"] ty
  show ?thesis by simp
qed

text \<open>A string the code accepts for a string or number symbol is valid for its type and
  becomes the user's value, with \<open>0x\<close> in front of a hexadecimal number that has none.\<close>

theorem sym_set_string_stored:
  assumes "sym_set_string_value (sym_calc_value k) r str st = Some (True, st')"
    "s_type (syms st r) \<in> {S_STRING, S_INT, S_HEX}"
  shows "sym_string_valid st r str \<and>
    cstr_of (sv_val (s_user (syms st' r))) = Some
       (if s_type (syms st r) = S_HEX \<and>
           \<not> (cstr_at str 0 = CHR ''0'' \<and> cstr_at str 1 \<in> {CHR ''x'', CHR ''X''})
        then ''0x'' @ str else str)"
  using calc.set_string_accepted(1,3) [OF assms] by simp

lemma demo_hex: "map_option fst (sym_set_string_value (sym_calc_value 0) (SymPtr 0) ''1f'' (demo_num S_HEX)) = Some True"
  by code_simp

theorem sym_set_string_stored_witness:
  "\<exists>st'. sym_set_string_value (sym_calc_value 0) (SymPtr 0) ''1f'' (demo_num S_HEX) = Some (True, st') \<and>
     cstr_of (sv_val (s_user (syms st' (SymPtr 0)))) = Some ''0x1f''"
proof -
  obtain st' where s: "sym_set_string_value (sym_calc_value 0) (SymPtr 0) ''1f'' (demo_num S_HEX) = Some (True, st')"
    using demo_hex by auto
  have "s_type (syms (demo_num S_HEX) (SymPtr 0)) = S_HEX" by (simp add: demo_num_def mk_sym_def)
  with sym_set_string_stored [OF s] s show ?thesis by simp
qed

section \<open>The symbol table\<close>

text \<open>Looking a name up and finding it agree: the symbol \<open>sym_lookup\<close> returns is the one
  \<open>sym_find\<close> finds and every later look-up returns, whatever is looked up in between, and
  different names have different symbols.\<close>

theorem sym_lookup_find:
  assumes "hash_ok st" "sym_lookup (Some nm) False st = (r, st1)" "sym_lookup (Some nm') c st1 = (r', st2)"
  shows "hash_ok st2 \<and> sym_find (Some nm) st2 = Some r \<and> sym_lookup (Some nm) False st2 = (r, st2) \<and>
    (nm' \<noteq> nm \<and> \<not> c \<longrightarrow> r' \<noteq> r)"
proof -
  have ok1: "hash_ok st1" by (rule symtab.lookup_ok [OF assms(1,2)])
  have ok2: "hash_ok st2" by (rule symtab.lookup_ok [OF ok1 assms(3)])
  have f: "sym_find (Some nm) st2 = Some r"
    by (rule symtab.lookup_keeps [OF ok1 assms(3) symtab.lookup_find [OF assms(1,2)]])
  have d: "nm' \<noteq> nm \<and> \<not> c \<longrightarrow> r' \<noteq> r"
    using symtab.lookup_distinct [OF assms(1,2), of nm' r' st2] assms(3) by auto
  show ?thesis using ok2 f symtab.find_lookup [OF ok2 f] d by blast
qed

definition demo_table :: kstate where
  "demo_table = demo_st\<lparr>syms := demo_tab\<rparr>"

theorem sym_lookup_find_witness:
  "(let (r, st1) = sym_lookup (Some ''FOO'') False demo_table; (r', st2) = sym_lookup (Some ''OOF'') False st1
    in sym_find (Some ''FOO'') st2 = Some r \<and> r' \<noteq> r)"
proof -
  have ok: "hash_ok demo_table"
    by (simp add: hash_ok_def demo_table_def demo_st_def mk_sym_def const_name.simps)
  obtain r st1 where a: "sym_lookup (Some ''FOO'') False demo_table = (r, st1)" by (metis surj_pair)
  obtain r' st2 where b: "sym_lookup (Some ''OOF'') False st1 = (r', st2)" by (metis surj_pair)
  from sym_lookup_find [OF ok a b] show ?thesis by (simp add: a b)
qed

section \<open>Recursive dependencies\<close>

text \<open>C9: The search for recursive dependencies returns whenever the symbols a symbol depends on are
  finitely many. It reports a symbol if and only if the start leads to a cycle (or to a symbol
  being checked already), and the symbol reported is on that cycle; the table is as before, but
  for the mark \<open>SYMBOL_CHECKED\<close>.\<close>

theorem sym_check_deps_finds_cycles:
  assumes "finite (reach st r)" "card {s \<in> reach st r. \<not> flag st s SYMBOL_CHECK} \<le> n"
  shows "\<exists>res st'. sym_check_deps n r st = Some (res, st') \<and> only_checked st st' \<and>
    (res \<noteq> None \<longleftrightarrow> (\<exists>s. leads st r s)) \<and> (\<forall>s. res = Some s \<longrightarrow> leads st r s)"
proof -
  have "chk_level n st r" using assms by (simp add: chk_level_def)
  from deps.chk_found [OF this] show ?thesis unfolding found_def by auto
qed

text \<open>A symbol that depends on itself through its own prompt.\<close>

definition demo_cycle :: kstate where
  "demo_cycle = demo_st\<lparr>props := (\<lambda>_. prop_init\<lparr>p_type := P_PROMPT,
     p_visible := \<lparr>ev_expr = Some (ESymbol (SymPtr 0)), ev_tri = No\<rparr>\<rparr>)\<rparr>"

lemma demo_cycle_deps: "deps demo_cycle (SymPtr 0) = {SymPtr 0}"
  by (simp add: deps_def prop_deps_def demo_cycle_def demo_st_def mk_sym_def oexpr_syms_def)

theorem sym_check_deps_finds_cycles_witness:
  "\<exists>res st'. sym_check_deps 1 (SymPtr 0) demo_cycle = Some (res, st') \<and> res \<noteq> None"
proof -
  have fl: "\<not> flag demo_cycle (SymPtr 0) SYMBOL_CHECK_DONE"
    by (simp add: flag_def demo_cycle_def demo_st_def mk_sym_def)
  then have e: "(SymPtr 0, s) \<in> live_edge demo_cycle \<longleftrightarrow> s = SymPtr 0" for s
    by (auto simp: live_edge_def demo_cycle_deps)
  have "(SymPtr 0, s) \<in> (live_edge demo_cycle)\<^sup>* \<Longrightarrow> s = SymPtr 0" for s
    by (induction rule: rtrancl_induct) (auto simp: e)
  then have r: "reach demo_cycle (SymPtr 0) = {SymPtr 0}" by (auto simp: reach_def)
  have l: "leads demo_cycle (SymPtr 0) (SymPtr 0)" using e fl by (auto simp: leads_def)
  have "{s \<in> reach demo_cycle (SymPtr 0). \<not> flag demo_cycle s SYMBOL_CHECK} \<subseteq> {SymPtr 0}" by (auto simp: r)
  then have "card {s \<in> reach demo_cycle (SymPtr 0). \<not> flag demo_cycle s SYMBOL_CHECK} \<le> 1"
    using card_mono [of "{SymPtr 0}"] by fastforce
  from sym_check_deps_finds_cycles [OF _ this] r l show ?thesis by auto
qed

end
