(* ===== verification/Kconfig_Menu_Props.thy ===== *)
theory Kconfig_Menu_Props
  imports Kconfig_Menu_Proof Kconfig_Props
begin

text \<open>The properties of the menu tree.\<close>

section \<open>Building\<close>

text \<open>C10: The parser's calls build the tree that the configuration file describes: the list of the
  root menu holds the entries of the file in order, each with its symbol, its parent and the
  list of its own entries, in freshly allocated menu entries, and the parser is back at the
  root menu.\<close>

theorem parser_builds_tree:
  assumes "empty_tree ps"
  shows "\<exists>ps'. build_list es (menu_init ps) = Some ps' \<and> current_menu ps' = rootmenu \<and>
    tree (menus (ks ps')) {next_menu (ks ps)..<next_menu (ks ps')} rootmenu (m_list (menu_at ps' rootmenu)) es"
  by (rule build_root [OF assms])

definition demo_ps :: pstate where
  "demo_ps = \<lparr>ks = demo_st, current_entry = 0, current_menu = 0, last_entry_ptr = ListOf 0, warnings = []\<rparr>"

theorem parser_builds_tree_witness:
  "\<exists>ps'. build_list [Block None [Entry (Some (SymPtr 0))], Entry (Some (SymPtr 1))] (menu_init demo_ps) = Some ps' \<and>
     m_sym (menus (ks ps') 3) = Some (SymPtr 1) \<and> m_list (menu_at ps' rootmenu) = Some 1"
proof -
  have "empty_tree demo_ps" by (simp add: empty_tree_def demo_ps_def demo_st_def rootmenu_def menu_at_def demo_menu_def)
  from parser_builds_tree [OF this, of "[Block None [Entry (Some (SymPtr 0))], Entry (Some (SymPtr 1))]"]
  obtain ps' where b: "build_list [Block None [Entry (Some (SymPtr 0))], Entry (Some (SymPtr 1))] (menu_init demo_ps) = Some ps'"
    by blast
  have "map_option (\<lambda>ps'. (m_sym (menus (ks ps') 3), m_list (menu_at ps' rootmenu)))
      (build_list [Block None [Entry (Some (SymPtr 0))], Entry (Some (SymPtr 1))] (menu_init demo_ps)) =
      Some (Some (SymPtr 1), Some 1)" by code_simp
  with b show ?thesis by auto
qed

section \<open>Conditions\<close>

text \<open>C11: Finalising a list of entries gives each of them the conjunction of its parent's condition
  and its own, each of its prompts and defaults the conjunction of that and its own, and each
  symbol it selects a reverse dependency of at least the selecting symbol and that condition;
  nothing else of the tree changes. (In a table without \<open>m\<close>, where the rewriting of
  expressions keeps their value.)\<close>

theorem finalise_conditions:
  assumes "steady (syms st)" "odep2 (syms st) d" "list_ok st ms"
  shows "\<exists>st'. fin_deps d ms st = Some st' \<and> list_frame st ms st' \<and>
    (\<forall>m \<in> set ms. finalised st (oexpr_val (syms st) d) m st')"
  by (rule fin_deps_spec [OF assms])

definition demo_entry :: kstate where
  "demo_entry = demo_st\<lparr>syms := (syms demo_st)(SymPtr 2 := mk_sym ''C'' S_BOOLEAN ''n'' Yes {}),
     props := (\<lambda>p. (demo_props p)\<lparr>p_menu := Some 1\<rparr>),
     menus := (\<lambda>_. demo_menu)(1 := demo_menu\<lparr>m_sym := Some (SymPtr 1), m_prompt := Some 1,
       m_dep := Some (ESymbol (SymPtr 2))\<rparr>)\<rparr>"

lemma demo_entry_steady: "steady (syms demo_entry)"
proof -
  let ?T = "syms demo_entry"
  have c: "is_const ?T s \<Longrightarrow> s \<in> {SymYes, SymMod, SymNo}" for s
    by (cases s) (auto simp: is_const_def SYMBOL_CONST_def mk_sym_def demo_entry_def demo_st_def split: if_splits)
  have "sym_get_string_value ?T SymYes = Some ''y''" "sym_get_string_value ?T SymMod = Some ''m''"
    "sym_get_string_value ?T SymNo = Some ''n''"
    by (simp_all add: sym_get_string_value_def mk_sym_def demo_entry_def demo_st_def)
  then have i: "is_const ?T a \<Longrightarrow> is_const ?T b \<Longrightarrow>
      sym_get_string_value ?T a = sym_get_string_value ?T b \<Longrightarrow> a = b" for a b
    using c [of a] c [of b] by auto
  have t: "s_type (?T s) \<in> {S_BOOLEAN, S_TRISTATE} \<Longrightarrow> sym_tri ?T s \<noteq> Mod" for s
    by (cases s) (auto simp: sym_tri_def mk_sym_def demo_entry_def demo_st_def split: if_splits)
  show ?thesis unfolding steady_def tab_ok_def
    using i t by (auto simp: mk_sym_def demo_entry_def demo_st_def)
qed

theorem finalise_conditions_witness:
  "\<exists>st'. fin_deps (Some (ESymbol (SymPtr 1))) [1] demo_entry = Some st' \<and>
     oexpr_val (syms st') (m_dep (menus st' 1)) = No"
proof -
  have v: "sym_tri (syms demo_entry) (SymPtr 0) = Yes" "sym_tri (syms demo_entry) (SymPtr 1) = No"
    "sym_tri (syms demo_entry) (SymPtr 2) = Yes"
    by (simp_all add: sym_tri_def demo_entry_def demo_st_def mk_sym_def)
  have m: "menus demo_entry 1 = demo_menu\<lparr>m_sym := Some (SymPtr 1), m_prompt := Some 1,
       m_dep := Some (ESymbol (SymPtr 2))\<rparr>" by (simp add: demo_entry_def)
  have p: "ev_expr (p_visible (props demo_entry 1)) = Some (ESymbol (SymPtr 0))" "p_type (props demo_entry 1) = P_PROMPT"
    by (simp_all add: demo_entry_def demo_props_def)
  have e: "entry_props demo_entry 1 = [1]"
    by (simp add: entry_props_def m demo_menu_def) (simp add: demo_entry_def demo_st_def mk_sym_def)
  have "list_ok demo_entry [1]"
    unfolding list_ok_def e entry_ok_def select_ok_def
    by (simp add: m v p e del: One_nat_def)
  from finalise_conditions [OF demo_entry_steady _ this, of "Some (ESymbol (SymPtr 1))"] v
  show ?thesis by (auto simp: finalised_def m)
qed

text \<open>\<open>m\<close> in a condition counts as \<open>m && MODULES\<close>: the rewritten condition has the value the
  given one has when the constant \<open>m\<close> is no more than the module symbol.\<close>

theorem menu_check_dep_value:
  assumes "dep_wf e" "modules_sym st = Some M" "M \<noteq> SymMod" "s_type (syms st SymMod) = S_UNKNOWN"
  shows "\<exists>e'. menu_check_dep st (Some e) = Some (Some e') \<and> dep_wf e' \<and>
    expr_val (syms st) e' = expr_val ((syms st)(SymMod := (syms st SymMod)\<lparr>s_curr :=
      \<lparr>sv_val = sv_val (s_curr (syms st SymMod)),
       sv_tri = tri_and (sym_tri (syms st) SymMod) (sym_tri (syms st) M)\<rparr>\<rparr>)) e"
  using check_dep_val [where T = "syms st", OF assms(1,3,4)] by (auto simp: assms(2))

theorem menu_check_dep_value_witness:
  "\<exists>e'. menu_check_dep (demo_st\<lparr>modules_sym := Some (SymPtr 1)\<rparr>) (Some (ENot (ESymbol SymMod))) = Some (Some e') \<and>
     expr_val (syms demo_st) e' = Yes"
proof -
  have "s_type (syms demo_st SymMod) = S_UNKNOWN" by (simp add: demo_st_def mk_sym_def)
  moreover have "sym_tri (syms demo_st) (SymPtr 1) = No" "sym_tri (syms demo_st) SymMod = Mod"
    by (simp_all add: sym_tri_def demo_st_def mk_sym_def)
  ultimately show ?thesis
    using menu_check_dep_value [of "ENot (ESymbol SymMod)" "demo_st\<lparr>modules_sym := Some (SymPtr 1)\<rparr>" "SymPtr 1"]
    by (auto simp: sym_tri_def)
qed

section \<open>Queries\<close>

text \<open>Going up to the menu an entry is in ends, at the nearest entry above it that is a menu or
  the root, whenever the entries' parents lead up to the root.\<close>

theorem menu_get_parent_menu_nearest:
  assumes "\<And>i. i \<noteq> rootmenu \<Longrightarrow> \<exists>p. m_parent (menus st i) = Some p \<and> rank p < (rank i :: nat)" "rank m < k"
  shows "\<exists>a. menu_get_parent_menu k st m = Some a \<and> is_menu st a \<and> above st m a \<and>
    (\<forall>b. above st m b \<and> is_menu st b \<longrightarrow> above st a b)"
  by (rule parent_menu_spec [OF assms])

theorem menu_get_parent_menu_nearest_witness:
  "menu_get_parent_menu 3 (demo_st\<lparr>menus := (\<lambda>m. demo_menu\<lparr>m_parent := Some (m - 1)\<rparr>)\<rparr>) 2 = Some 0"
proof -
  let ?st = "demo_st\<lparr>menus := (\<lambda>m. demo_menu\<lparr>m_parent := Some (m - 1)\<rparr>)\<rparr>"
  have "\<exists>p. m_parent (menus ?st i) = Some p \<and> id p < id i" if "i \<noteq> rootmenu" for i
    using that by (simp add: rootmenu_def)
  from menu_get_parent_menu_nearest [of ?st id 2 3, OF this] obtain a where
    a: "menu_get_parent_menu 3 ?st 2 = Some a" "is_menu ?st a" by auto
  then have "a = 0" by (simp add: is_menu_def demo_menu_def rootmenu_def)
  with a show ?thesis by simp
qed

end
