(* ===== verification/Kconfig_Confdata.thy ===== *)
theory Kconfig_Confdata
  imports Kconfig_Tree
begin

text \<open>
  Reading and writing the configuration file, \<open>package/config/confdata.c\<close>, and the list of
  source files of \<open>util.c\<close>. Files are strings; opening a file, the environment, \<open>stat\<close> and
  \<open>rename\<close> are parameters. \<open>Exited\<close> is the program's \<open>exit(1)\<close>; \<open>None\<close> is a NULL pointer that
  is followed. Messages on standard error are left out.
\<close>

datatype outcome = Exited | Done kstate

section \<open>Lines\<close>

text \<open>\<open>fgets\<close> with a buffer of 1024 bytes: up to a newline, or 1023 bytes.\<close>

definition LINE_MAX :: nat where "LINE_MAX = 1023"

definition NL :: char where "NL = CHR 0x0A"

fun fgets :: "nat \<Rightarrow> string \<Rightarrow> string \<times> string" where
  "fgets 0 s = ([], s)"
| "fgets (Suc n) [] = ([], [])"
| "fgets (Suc n) (c # s) = (if c = NL then ([c], s) else (let (l, r) = fgets n s in (c # l, r)))"

lemma fgets_length: "length (snd (fgets n s)) \<le> length s"
  by (induction n s rule: fgets.induct) (auto split: prod.splits)

lemma fgets_less: "s \<noteq> [] \<Longrightarrow> length (snd (fgets (Suc n) s)) < length s"
proof (cases s)
  case (Cons c r)
  then show ?thesis using fgets_length [of n r] by (auto split: prod.splits)
qed simp

function file_lines :: "string \<Rightarrow> string list" where
  "file_lines s = (if s = [] then [] else (let (l, r) = fgets LINE_MAX s in l # file_lines r))"
  by pat_completeness auto

termination file_lines
proof (relation "measure length")
  fix s :: string and x l r assume a: "s \<noteq> []" "x = fgets LINE_MAX s" "(l, r) = x"
  then have "r = snd (fgets LINE_MAX s)" by (metis snd_conv)
  moreover have "LINE_MAX = Suc 1022" by (simp add: LINE_MAX_def)
  ultimately show "(r, s) \<in> measure length" using fgets_less [OF a(1), of 1022] by simp
qed simp

declare file_lines.simps [simp del]

section \<open>Names of configuration files\<close>

definition isalnum :: "char \<Rightarrow> bool" where
  "isalnum c \<longleftrightarrow> isdigit c \<or> (65 \<le> (of_char c :: nat) \<and> (of_char c :: nat) \<le> 90) \<or>
     (97 \<le> (of_char c :: nat) \<and> (of_char c :: nat) \<le> 122)"

definition name_char :: "char \<Rightarrow> bool" where
  "name_char c \<longleftrightarrow> isalnum c \<or> c = CHR ''_''"

text \<open>Each \<open>$NAME\<close> is replaced by the symbol's string.\<close>

function expand_value :: "calc \<Rightarrow> string \<Rightarrow> string \<Rightarrow> kstate \<Rightarrow> (string \<times> kstate) option" where
  "expand_value calc inp res st =
     (if CHR ''$'' \<notin> set inp then Some (res @ inp, st)
      else (let pre = takeWhile (\<lambda>c. c \<noteq> CHR ''$'') inp;
                src = tl (dropWhile (\<lambda>c. c \<noteq> CHR ''$'') inp);
                nm = takeWhile name_char src;
                (r, st) = sym_lookup (Some nm) False st
            in do { st \<leftarrow> calc r st;
                    v \<leftarrow> sym_get_string_value (syms st) r;
                    expand_value calc (dropWhile name_char src) (res @ pre @ v) st }))"
  by pat_completeness auto

lemma tl_dropWhile_less: "c \<in> set s \<Longrightarrow> length (tl (dropWhile (\<lambda>x. x \<noteq> c) s)) < length s"
proof (induction s)
  case (Cons a s)
  then show ?case by (cases "a = c") auto
qed simp

termination expand_value
proof (relation "measure (\<lambda>(calc, inp, res, st). length inp)", simp, goal_cases)
  case (1 calc inp res st pre src nm x r st1 st2 v)
  then have "length src < length inp" using tl_dropWhile_less [of "CHR ''$''" inp] by simp
  then show ?case using le_less_trans [OF length_dropWhile_le [of name_char src]] by simp
qed

declare expand_value.simps [simp del]

definition conf_expand_value :: "calc \<Rightarrow> string \<Rightarrow> kstate \<Rightarrow> (string \<times> kstate) option" where
  "conf_expand_value calc inp st = expand_value calc inp [] st"

definition conf_def_filename :: string where "conf_def_filename = ''.config''"
definition conf_defname :: string where "conf_defname = ''.defconfig''"
definition conf_confnames :: "string list" where "conf_confnames = [''.config'', conf_defname]"

definition conf_get_default_confname ::
  "(string \<Rightarrow> string option) \<Rightarrow> (string \<Rightarrow> bool) \<Rightarrow> calc \<Rightarrow> kstate \<Rightarrow> (string \<times> kstate) option" where
  "conf_get_default_confname getenv exists calc st =
     do { (name, st) \<leftarrow> conf_expand_value calc conf_defname st;
          Some (case getenv ''srctree'' of
                  None \<Rightarrow> name
                | Some env \<Rightarrow> (let fullname = env @ ''/'' @ name in if exists fullname then fullname else name),
                st) }"

section \<open>Reading\<close>

definition reset_user :: "symref \<Rightarrow> kstate \<Rightarrow> kstate" where
  "reset_user r st =
     upd_sym r (s_user_update (\<lambda>_. \<lparr>sv_val = VNull, sv_tri = No\<rparr>))
       (clr_flags r {SYMBOL_VALID} (set_flags r {SYMBOL_NEW, SYMBOL_CHANGED} st))"

text \<open>A line is a symbol that is not set, an assignment, an empty line, or is passed over.\<close>

datatype conf_line = NotSet string | Assign string string | Empty | Ignored

definition strchr :: "string \<Rightarrow> char \<Rightarrow> (string \<times> string) option" where
  "strchr s c = (if c \<in> set s then Some (takeWhile (\<lambda>x. x \<noteq> c) s, tl (dropWhile (\<lambda>x. x \<noteq> c) s)) else None)"

definition is_upper :: "char \<Rightarrow> bool" where
  "is_upper c \<longleftrightarrow> 65 \<le> (of_char c :: nat) \<and> (of_char c :: nat) \<le> 90"

definition parse_line :: "string \<Rightarrow> conf_line" where
  "parse_line line =
     (if cstr_at line 0 = CHR ''#'' then
        (if cstr_at line 1 \<noteq> CHR '' '' then Ignored
         else (case strchr (drop 2 line) (CHR '' '') of
                 None \<Rightarrow> Ignored
               | Some (nm, p) \<Rightarrow> if take 10 p \<noteq> ''is not set'' then Ignored else NotSet nm))
      else if is_upper (cstr_at line 0) then
        (case strchr line (CHR ''='') of
           None \<Rightarrow> Ignored
         | Some (nm, p) \<Rightarrow> Assign nm (takeWhile (\<lambda>c. c \<noteq> NL) p))
      else if cstr_at line 0 = NL then Empty
      else Ignored)"

text \<open>The string between quotes: a backslash takes the next character as it is.\<close>

fun unescape :: "string \<Rightarrow> string option" where
  "unescape [] = None"
| "unescape (c # s) =
     (if c = CHR 0x22 then Some []
      else if c = CHR 0x5C then
        (case s of [] \<Rightarrow> None | d # s' \<Rightarrow> map_option ((#) d) (unescape s'))
      else map_option ((#) c) (unescape s))"

definition set_user_tri :: "symref \<Rightarrow> tristate \<Rightarrow> kstate \<Rightarrow> kstate" where
  "set_user_tri r t st = clr_flags r {SYMBOL_NEW} (upd_sym r (s_user_update (sv_tri_update (\<lambda>_. t))) st)"

definition set_user_val :: "symref \<Rightarrow> string \<Rightarrow> kstate \<Rightarrow> outcome" where
  "set_user_val r p st =
     (if sym_string_valid st r p then Done (clr_flags r {SYMBOL_NEW} (store_user_string r p st)) else Exited)"

definition assign_value :: "symref \<Rightarrow> string \<Rightarrow> kstate \<Rightarrow> outcome" where
  "assign_value r p st =
     (let ty = s_type (syms st r); c = cstr_at p 0 in
      if ty = S_TRISTATE \<and> c = CHR ''m'' then Done (set_user_tri r Mod st)
      else if ty \<in> {S_TRISTATE, S_BOOLEAN} then
        Done (if c = CHR ''y'' then set_user_tri r Yes st
              else if c = CHR ''n'' then set_user_tri r No st else st)
      else if ty = S_STRING then
        (if c \<noteq> CHR 0x22 then Done st
         else (case unescape (tl p) of None \<Rightarrow> Exited | Some v \<Rightarrow> set_user_val r v st))
      else if ty \<in> {S_INT, S_HEX} then set_user_val r p st
      else Done st)"

text \<open>The choice a member belongs to takes over its value.\<close>

definition update_choice :: "symref \<Rightarrow> kstate \<Rightarrow> kstate option" where
  "update_choice r st =
     (if \<not> sym_is_choice_value st r then Some st
      else do { p \<leftarrow> sym_get_choice_prop st r;
                cs \<leftarrow> prop_get_symbol st p;
                cs \<leftarrow> cs;
                let t = sv_tri (s_user (syms st r));
                let st = (if t = Yes then upd_sym cs (s_user_update (sv_val_update (\<lambda>_. VSym r))) st else st);
                Some (clr_flags cs {SYMBOL_NEW}
                        (upd_sym cs (s_user_update (sv_tri_update (\<lambda>u. tri_or u t))) st)) })"

definition read_line :: "string \<Rightarrow> kstate \<Rightarrow> outcome option" where
  "read_line line st =
     (let target = (case parse_line line of
            NotSet nm \<Rightarrow> sym_find (Some nm) st | Assign nm p \<Rightarrow> sym_find (Some nm) st | _ \<Rightarrow> None) in
      case target of
        None \<Rightarrow> Some (Done st)
      | Some r \<Rightarrow>
          (let res = (case parse_line line of
                 Assign nm p \<Rightarrow> assign_value r p st
               | _ \<Rightarrow> Done (if s_type (syms st r) \<in> {S_BOOLEAN, S_TRISTATE} then set_user_tri r No st else st))
           in case res of Exited \<Rightarrow> Some Exited | Done st \<Rightarrow> map_option Done (update_choice r st)))"

fun read_lines :: "string list \<Rightarrow> kstate \<Rightarrow> outcome option" where
  "read_lines [] st = Some (Done st)"
| "read_lines (l # ls) st =
     do { res \<leftarrow> read_line l st;
          (case res of Exited \<Rightarrow> Some Exited | Done st \<Rightarrow> read_lines ls st) }"

text \<open>After the file: a value that is not visible or not in range does not count.\<close>

definition user_in_range :: "calc \<Rightarrow> symref \<Rightarrow> kstate \<Rightarrow> (bool \<times> kstate) option" where
  "user_in_range calc r st =
     (case cstr_of (sv_val (s_user (syms st r))) of
        Some v \<Rightarrow> sym_string_within_range calc r v st
      | None \<Rightarrow> if s_type (syms st r) = S_STRING then Some (True, st) else None)"

definition check_user :: "calc \<Rightarrow> symref \<Rightarrow> kstate \<Rightarrow> kstate option" where
  "check_user calc r st =
     (if sym_has_value st r \<and> \<not> sym_is_choice_value st r then
        do { let st = (if s_visible (syms st r) = No then set_flags r {SYMBOL_NEW} st else st);
             if s_type (syms st r) \<in> {S_STRING, S_INT, S_HEX} then
               do { (ok, st) \<leftarrow> user_in_range calc r st;
                    Some (if ok then st else set_flags r {SYMBOL_NEW} st) }
             else Some st }
      else Some st)"

fun members_new :: "symref \<Rightarrow> expr option \<Rightarrow> kstate \<Rightarrow> kstate option" where
  "members_new r None st = Some st"
| "members_new r (Some (EChoice l d)) st =
     members_new r l (if s_visible (syms st d) \<noteq> No
                      then set_flags r (s_flags (syms st d) \<inter> {SYMBOL_NEW}) st else st)"
| "members_new r (Some e) st = None"

definition settle :: "calc \<Rightarrow> symref \<Rightarrow> kstate \<Rightarrow> kstate option" where
  "settle calc r st =
     do { st \<leftarrow> calc r st;
          st \<leftarrow> check_user calc r st;
          if sym_is_choice st r then
            do { p \<leftarrow> sym_get_choice_prop st r; members_new r (p_expr (props st p)) st }
          else Some st }"

fun settle_all :: "calc \<Rightarrow> symref list \<Rightarrow> kstate \<Rightarrow> kstate option" where
  "settle_all calc [] st = Some st"
| "settle_all calc (r # rs) st = do { st \<leftarrow> settle calc r st; settle_all calc rs st }"

text \<open>The first of the default names that can be opened, and its contents.\<close>

fun open_default ::
  "(string \<Rightarrow> string option) \<Rightarrow> calc \<Rightarrow> string list \<Rightarrow> kstate \<Rightarrow> (string option \<times> kstate) option" where
  "open_default fopen calc [] st = Some (None, st)"
| "open_default fopen calc (n # ns) st =
     do { (nm, st) \<leftarrow> conf_expand_value calc n st;
          (case fopen nm of Some s \<Rightarrow> Some (Some s, st) | None \<Rightarrow> open_default fopen calc ns st) }"

definition read_file :: "calc \<Rightarrow> string \<Rightarrow> kstate \<Rightarrow> outcome option" where
  "read_file calc contents st =
     do { let st = foldl (\<lambda>st r. reset_user r st) st (all_symbols st);
          res \<leftarrow> read_lines (file_lines contents) st;
          (case res of
             Exited \<Rightarrow> Some Exited
           | Done st \<Rightarrow>
               do { st \<leftarrow> (case modules_sym st of None \<Rightarrow> Some st | Some m \<Rightarrow> calc m st);
                    st \<leftarrow> settle_all calc (all_symbols st) st;
                    Some (Done (st\<lparr>sym_change_count := 1\<rparr>)) }) }"

text \<open>The result is 1, with the state as it was but for names looked up, when no file opens.\<close>

definition conf_read ::
  "(string \<Rightarrow> string option) \<Rightarrow> calc \<Rightarrow> string option \<Rightarrow> kstate \<Rightarrow> (int \<times> outcome) option" where
  "conf_read fopen calc name st =
     do { (inp, st) \<leftarrow> (case name of Some n \<Rightarrow> Some (fopen n, st)
                                    | None \<Rightarrow> open_default fopen calc conf_confnames st);
          (case inp of
             None \<Rightarrow> Some (1, Done st)
           | Some contents \<Rightarrow> do { res \<leftarrow> read_file calc contents st; Some (0, res) }) }"

section \<open>Writing\<close>

definition escape :: "string \<Rightarrow> string" where
  "escape s = concat (map (\<lambda>c. if c = CHR 0x22 \<or> c = CHR 0x5C then [CHR 0x5C, c] else [c]) s)"

text \<open>The line for a symbol whose value is to be written.\<close>

definition sym_line :: "symbol_type \<Rightarrow> kstate \<Rightarrow> symref \<Rightarrow> string option" where
  "sym_line type st r =
     do { nm \<leftarrow> s_name (syms st r);
          (case type of
             S_BOOLEAN \<Rightarrow> Some (case sym_get_tristate_value st r of
                 No \<Rightarrow> ''# '' @ nm @ '' is not set'' @ [NL]
               | Mod \<Rightarrow> nm @ ''=m'' @ [NL]
               | Yes \<Rightarrow> nm @ ''=y'' @ [NL])
           | S_TRISTATE \<Rightarrow> Some (case sym_get_tristate_value st r of
                 No \<Rightarrow> ''# '' @ nm @ '' is not set'' @ [NL]
               | Mod \<Rightarrow> nm @ ''=m'' @ [NL]
               | Yes \<Rightarrow> nm @ ''=y'' @ [NL])
           | S_STRING \<Rightarrow>
               do { str \<leftarrow> sym_get_string_value (syms st) r;
                    Some (nm @ ''='' @ [CHR 0x22] @ escape str @ [CHR 0x22, NL]) }
           | S_HEX \<Rightarrow> do { str \<leftarrow> sym_get_string_value (syms st) r; Some (nm @ ''='' @ str @ [NL]) }
           | S_INT \<Rightarrow> do { str \<leftarrow> sym_get_string_value (syms st) r; Some (nm @ ''='' @ str @ [NL]) }
           | _ \<Rightarrow> Some []) }"

definition write_sym :: "calc \<Rightarrow> symref \<Rightarrow> kstate \<Rightarrow> (string \<times> kstate) option" where
  "write_sym calc r st =
     do { st \<leftarrow> calc r st;
          if SYMBOL_WRITE \<notin> s_flags (syms st r) then Some ([], st)
          else do {
            let st = clr_flags r {SYMBOL_WRITE} st;
            let type = s_type (syms st r);
            (type, st) \<leftarrow>
              (if type = S_TRISTATE then
                 do { m \<leftarrow> modules_sym st;
                      st \<leftarrow> calc m st;
                      Some (if sv_tri (s_curr (syms st m)) = No then S_BOOLEAN else type, st) }
               else Some (type, st));
            line \<leftarrow> sym_line type st r;
            Some (line, st) } }"

definition write_entry :: "nat \<Rightarrow> calc \<Rightarrow> nat \<Rightarrow> kstate \<Rightarrow> (string \<times> kstate) option" where
  "write_entry k calc m st =
     (case m_sym (menus st m) of
        None \<Rightarrow>
          do { (v, st) \<leftarrow> menu_is_visible calc k m st;
               if \<not> v then Some ([], st)
               else do { str \<leftarrow> menu_get_prompt st m;
                         Some ([NL] @ ''#'' @ [NL] @ ''# '' @ str @ [NL] @ ''#'' @ [NL], st) } }
      | Some r \<Rightarrow>
          if SYMBOL_CHOICE \<in> s_flags (syms st r) then Some ([], st) else write_sym calc r st)"

text \<open>The entry after \<open>m\<close> in the file: its own list, the next one, or the next of one above.\<close>

fun climb :: "nat \<Rightarrow> kstate \<Rightarrow> nat \<Rightarrow> nat option option" where
  "climb 0 st m = None"
| "climb (Suc k) st m =
     (case m_next (menus st m) of
        Some n \<Rightarrow> Some (Some n)
      | None \<Rightarrow> (case m_parent (menus st m) of None \<Rightarrow> Some None | Some p \<Rightarrow> climb k st p))"

definition next_entry :: "nat \<Rightarrow> kstate \<Rightarrow> nat \<Rightarrow> nat option option" where
  "next_entry k st m = (case m_list (menus st m) of Some l \<Rightarrow> Some (Some l) | None \<Rightarrow> climb k st m)"

fun write_entries :: "nat \<Rightarrow> nat \<Rightarrow> calc \<Rightarrow> nat option \<Rightarrow> kstate \<Rightarrow> (string \<times> kstate) option" where
  "write_entries k d calc None st = Some ([], st)"
| "write_entries 0 d calc (Some m) st = None"
| "write_entries (Suc k) d calc (Some m) st =
     do { (s, st) \<leftarrow> write_entry d calc m st;
          n \<leftarrow> next_entry d st m;
          (s', st) \<leftarrow> write_entries k d calc n st;
          Some (s @ s', st) }"

text \<open>
  The directory and the file name, from the name given, and whether the file name is the
  default one (the code compares the pointers, so a name that reads the same is not).
\<close>

definition split_name :: "(string \<Rightarrow> bool) \<Rightarrow> string option \<Rightarrow> string \<times> string \<times> bool" where
  "split_name isdir name =
     (case name of
        None \<Rightarrow> ([], conf_def_filename, True)
      | Some n \<Rightarrow>
          if n = [] then ([], conf_def_filename, True)
          else if isdir n then (n @ ''/'', conf_def_filename, True)
          else if CHR ''/'' \<in> set n then
            (let base = rev (takeWhile (\<lambda>c. c \<noteq> CHR ''/'') (rev n));
                 dir = take (length n - length base) n
             in if base \<noteq> [] then (dir, base, False) else (dir, conf_def_filename, True))
          else ([], n, False))"

definition file_header :: string where
  "file_header = ''#'' @ [NL] @ ''# Automatically generated make config: don't edit'' @ [NL] @ ''#'' @ [NL]"

record write_result =
  wr_ret :: int
  wr_new :: string
  wr_contents :: string
  wr_backup :: "(string \<times> string) option"
  wr_target :: string

text \<open>
  \<open>can_write\<close> says whether the temporary file opens, \<open>can_rename\<close> whether the last rename
  succeeds. The old file is renamed unless the name is that of the default file.
\<close>

definition conf_write ::
  "(string \<Rightarrow> bool) \<Rightarrow> (string \<Rightarrow> bool) \<Rightarrow> (string \<Rightarrow> string \<Rightarrow> bool) \<Rightarrow> string \<Rightarrow> nat \<Rightarrow> calc \<Rightarrow>
     string option \<Rightarrow> kstate \<Rightarrow> (write_result \<times> kstate) option" where
  "conf_write isdir can_write can_rename pid k calc name st =
     (let (dirname, base, dflt) = split_name isdir name;
          newname = dirname @ ''.tmpconfig.'' @ pid;
          target = dirname @ base;
          backup = (if name = None \<or> \<not> dflt
                    then (let n = (case name of None \<Rightarrow> conf_def_filename | Some n \<Rightarrow> n) in Some (n, n @ ''.old''))
                    else None)
      in if \<not> can_write newname then
           Some (\<lparr>wr_ret = 1, wr_new = newname, wr_contents = [], wr_backup = None, wr_target = target\<rparr>, st)
         else do {
           st \<leftarrow> (if sym_change_count st = 0 then sym_clear_all_valid calc st else Some st);
           (s, st) \<leftarrow> write_entries k k calc (m_list (menus st rootmenu)) st;
           let res = \<lparr>wr_ret = 0, wr_new = newname, wr_contents = file_header @ s, wr_backup = backup, wr_target = target\<rparr>;
           if can_rename newname target then Some (res, st\<lparr>sym_change_count := 0\<rparr>)
           else Some (res\<lparr>wr_ret := 1\<rparr>, st) })"

section \<open>The source files\<close>

definition file_lookup :: "string \<Rightarrow> string list \<Rightarrow> string list" where
  "file_lookup name files = (if name \<in> set files then files else name # files)"

fun dep_lines :: "string list \<Rightarrow> string" where
  "dep_lines [] = []"
| "dep_lines [f] = [CHR 0x09] @ f @ [NL]"
| "dep_lines (f # fs) = [CHR 0x09] @ f @ '' '' @ [CHR 0x5C, NL] @ dep_lines fs"

definition file_write_dep :: "string list \<Rightarrow> string" where
  "file_write_dep files =
     ''deps_config := '' @ [CHR 0x5C, NL] @ dep_lines files @
     [NL] @ ''.config include/config.h: $(deps_config)'' @ [NL, NL] @ ''$(deps_config):'' @ [NL]"

end
