(* ===== verification/Kconfig_Confdata_Proof.thy ===== *)
theory Kconfig_Confdata_Proof
  imports Kconfig_Confdata
begin

text \<open>
  What is written can be read back, line by line and as a file; when reading ends the program;
  and the order in which the entries of the menu tree are written.
\<close>

section \<open>Strings and lines\<close>

lemma unescape_escape: "unescape (escape s @ CHR 0x22 # rest) = Some s"
  by (induction s) (auto simp: escape_def)

lemma escape_NL: "NL \<notin> set s \<Longrightarrow> NL \<notin> set (escape s)"
  by (induction s) (auto simp: escape_def NL_def)

definition is_line :: "string \<Rightarrow> bool" where
  "is_line l \<longleftrightarrow> (\<exists>b. l = b @ [NL] \<and> NL \<notin> set b) \<and> length l \<le> LINE_MAX"

lemma fgets_line: "NL \<notin> set b \<Longrightarrow> length b < n \<Longrightarrow> fgets n (b @ NL # rest) = (b @ [NL], rest)"
proof (induction n "b @ NL # rest" arbitrary: b rule: fgets.induct)
  case (3 n c s)
  then show ?case by (cases b) (auto simp: Let_def)
qed auto

lemma file_lines_Cons: "is_line l \<Longrightarrow> file_lines (l @ rest) = l # file_lines rest"
proof -
  assume "is_line l"
  then obtain b where b: "l = b @ [NL]" "NL \<notin> set b" "length b < LINE_MAX" by (auto simp: is_line_def)
  then show ?thesis by (subst file_lines.simps) (simp add: fgets_line)
qed

lemma file_lines_concat: "\<forall>l \<in> set ls. is_line l \<Longrightarrow> file_lines (concat ls @ rest) = ls @ file_lines rest"
  by (induction ls) (simp_all add: file_lines_Cons)

lemma file_lines_Nil [simp]: "file_lines [] = []"
  by (simp add: file_lines.simps)

definition header_lines :: "string list" where
  "header_lines = [''#'' @ [NL], ''# Automatically generated make config: don't edit'' @ [NL], ''#'' @ [NL]]"

lemma file_header_lines: "file_header = concat header_lines"
  by (simp add: file_header_def header_lines_def)

lemma header_is_line: "\<forall>l \<in> set header_lines. is_line l"
  by (simp add: header_lines_def is_line_def LINE_MAX_def NL_def)

lemma header_ignored: "l \<in> set header_lines \<Longrightarrow> read_line l st = Some (Done st)"
  by (auto simp: header_lines_def read_line_def parse_line_def NL_def strchr_def)

section \<open>The lines of symbols\<close>

definition plain_name :: "string \<Rightarrow> bool" where
  "plain_name nm \<longleftrightarrow> nm \<noteq> [] \<and> is_upper (hd nm) \<and> (\<forall>c \<in> set nm. name_char c)"

lemma plain_name_chars:
  assumes "plain_name nm"
  shows "CHR '' '' \<notin> set nm" "CHR ''='' \<notin> set nm" "NL \<notin> set nm" "cstr_at nm 0 \<noteq> CHR ''#''"
    "is_upper (cstr_at nm 0)"
proof -
  have "\<not> name_char (CHR '' '')" "\<not> name_char (CHR ''='')" "\<not> name_char NL" "\<not> is_upper (CHR ''#'')"
    by (simp_all add: name_char_def isalnum_def isdigit_def is_upper_def NL_def)
  moreover have "cstr_at nm 0 = hd nm" using assms by (cases nm) (simp_all add: plain_name_def)
  ultimately show "CHR '' '' \<notin> set nm" "CHR ''='' \<notin> set nm" "NL \<notin> set nm" "cstr_at nm 0 \<noteq> CHR ''#''"
    "is_upper (cstr_at nm 0)" using assms by (auto simp: plain_name_def)
qed

lemma strchr_append: "c \<notin> set s \<Longrightarrow> strchr (s @ c # t) c = Some (s, t)"
proof -
  assume "c \<notin> set s"
  then have "takeWhile (\<lambda>x. x \<noteq> c) (s @ c # t) = s" "dropWhile (\<lambda>x. x \<noteq> c) (s @ c # t) = c # t"
    by (induction s) auto
  then show ?thesis by (simp add: strchr_def)
qed

lemma takeWhile_line: "NL \<notin> set v \<Longrightarrow> takeWhile (\<lambda>c. c \<noteq> NL) (v @ [NL]) = v"
  by (induction v) auto

lemma parse_not_set: "plain_name nm \<Longrightarrow> parse_line (''# '' @ nm @ '' is not set'' @ [NL]) = NotSet nm"
  using strchr_append [of "CHR '' ''" nm "''is not set'' @ [NL]"] plain_name_chars(1) [of nm]
  by (simp add: parse_line_def)

lemma parse_assign:
  assumes "plain_name nm" "NL \<notin> set v"
  shows "parse_line (nm @ ''='' @ v @ [NL]) = Assign nm v"
proof -
  obtain a s where nm: "nm = a # s" using assms(1) by (cases nm) (auto simp: plain_name_def)
  note c = plain_name_chars [OF assms(1)]
  have "strchr (nm @ ''='' @ v @ [NL]) (CHR ''='') = Some (nm, v @ [NL])"
    using strchr_append [OF c(2)] by simp
  moreover have "cstr_at (nm @ ''='' @ v @ [NL]) 0 = cstr_at nm 0" by (simp add: nm)
  ultimately show ?thesis using c(4,5) takeWhile_line [OF assms(2)] by (simp add: parse_line_def)
qed

text \<open>A symbol whose value the file can hold.\<close>

definition storable :: "kstate \<Rightarrow> symref \<Rightarrow> bool" where
  "storable st r \<longleftrightarrow> (\<exists>nm. s_name (syms st r) = Some nm \<and> plain_name nm) \<and>
     (s_type (syms st r) = S_BOOLEAN \<longrightarrow> sym_tri (syms st) r \<noteq> Mod) \<and>
     (s_type (syms st r) \<in> {S_STRING, S_INT, S_HEX} \<longrightarrow>
        (\<exists>v. sym_get_string_value (syms st) r = Some v \<and> sym_string_valid st r v \<and> NL \<notin> set v)) \<and>
     s_type (syms st r) \<notin> {S_UNKNOWN, S_OTHER}"

text \<open>The user's value of the symbol is its value in \<open>st\<close>.\<close>

definition restored :: "kstate \<Rightarrow> symref \<Rightarrow> kstate \<Rightarrow> bool" where
  "restored st r st' \<longleftrightarrow> sym_has_value st' r \<and>
     (s_type (syms st r) \<in> {S_BOOLEAN, S_TRISTATE} \<longrightarrow> sv_tri (s_user (syms st' r)) = sym_tri (syms st) r) \<and>
     (s_type (syms st r) \<in> {S_STRING, S_INT, S_HEX} \<longrightarrow>
        cstr_of (sv_val (s_user (syms st' r))) = sym_get_string_value (syms st) r)"

text \<open>Reading the value of \<open>r\<close> changes nothing but that, and makes the symbol have a value.\<close>

definition user_only :: "symref \<Rightarrow> kstate \<Rightarrow> kstate \<Rightarrow> bool" where
  "user_only r st st' \<longleftrightarrow> symbol_hash st' = symbol_hash st \<and> props st' = props st \<and> menus st' = menus st \<and>
     modules_sym st' = modules_sym st \<and> (\<forall>s. s \<noteq> r \<longrightarrow> syms st' s = syms st s) \<and>
     s_name (syms st' r) = s_name (syms st r) \<and> s_type (syms st' r) = s_type (syms st r) \<and>
     s_prop (syms st' r) = s_prop (syms st r) \<and>
     s_flags (syms st' r) - {SYMBOL_NEW} = s_flags (syms st r) - {SYMBOL_NEW}"

lemma user_only_set:
  "user_only r st (set_user_tri r t st)" "sym_has_value (set_user_tri r t st) r"
  "sv_tri (s_user (syms (set_user_tri r t st) r)) = t"
  "user_only r st (clr_flags r {SYMBOL_NEW} (store_user_string r v st))"
  "sym_has_value (clr_flags r {SYMBOL_NEW} (store_user_string r v st)) r"
  "cstr_of (sv_val (s_user (syms (clr_flags r {SYMBOL_NEW} (store_user_string r v st)) r))) = Some v"
  by (auto simp: user_only_def set_user_tri_def store_user_string_def clr_flags_def upd_sym_def sym_has_value_def)

definition reads_to :: "kstate \<Rightarrow> symref \<Rightarrow> kstate \<Rightarrow> bool" where
  "reads_to st r st0 \<longleftrightarrow> (\<forall>nm. s_name (syms st r) = Some nm \<longrightarrow> sym_find (Some nm) st0 = Some r) \<and>
     s_type (syms st0 r) = s_type (syms st r) \<and> \<not> sym_is_choice_value st0 r"

lemma sym_string_valid_type: "s_type (syms st0 r) = s_type (syms st r) \<Longrightarrow> sym_string_valid st0 r v = sym_string_valid st r v"
  by (simp add: sym_string_valid_def)

lemma read_found:
  assumes "parse_line line = Assign nm v" "sym_find (Some nm) st0 = Some r" "\<not> sym_is_choice_value st0 r"
    "assign_value r v st0 = Done st1" "user_only r st0 st1"
  shows "read_line line st0 = Some (Done st1)"
proof -
  have "\<not> sym_is_choice_value st1 r"
    using assms(3,5) unfolding user_only_def sym_is_choice_value_def by (metis Diff_iff insertE emptyE symbol_flag.distinct)
  then show ?thesis using assms by (simp add: read_line_def update_choice_def)
qed

lemma sym_line_bool:
  assumes "s_name (syms st r) = Some nm" "type \<in> {S_BOOLEAN, S_TRISTATE}"
  shows "sym_line type st r = Some (case sym_tri (syms st) r of
      No \<Rightarrow> ''# '' @ nm @ '' is not set'' @ [NL] | Mod \<Rightarrow> nm @ ''=m'' @ [NL] | Yes \<Rightarrow> nm @ ''=y'' @ [NL])"
  using assms by (auto simp: sym_line_def sym_tri_def sym_get_tristate_value_def)

lemma read_back_bool:
  assumes nm: "s_name (syms st r) = Some nm" "plain_name nm" "sym_find (Some nm) st0 = Some r"
    and ty: "s_type (syms st0 r) \<in> {S_BOOLEAN, S_TRISTATE}" "\<not> sym_is_choice_value st0 r"
    and t: "s_type (syms st0 r) = S_BOOLEAN \<Longrightarrow> sym_tri (syms st) r \<noteq> Mod"
    and l: "sym_line type st r = Some line" "type \<in> {S_BOOLEAN, S_TRISTATE}"
  shows "read_line line st0 = Some (Done (set_user_tri r (sym_tri (syms st) r) st0))"
proof -
  note u = user_only_set(1) [of r st0]
  have c: "\<not> sym_is_choice_value (set_user_tri r No st0) r"
    using ty(2) by (auto simp: sym_is_choice_value_def set_user_tri_def clr_flags_def upd_sym_def)
  note nl = parse_assign [OF nm(2), where v = "''m''"] parse_assign [OF nm(2), where v = "''y''"]
  show ?thesis
  proof (cases "sym_tri (syms st) r")
    case No
    then have "line = ''# '' @ nm @ '' is not set'' @ [NL]" using sym_line_bool [OF nm(1) l(2)] l(1) by simp
    then show ?thesis using parse_not_set [OF nm(2)] nm(3) ty c No
      by (simp add: read_line_def update_choice_def)
  next
    case Mod
    then have p: "parse_line line = Assign nm ''m''" using sym_line_bool [OF nm(1) l(2)] l(1) nl(1) by (simp add: NL_def)
    have "assign_value r ''m'' st0 = Done (set_user_tri r Mod st0)" using ty(1) t Mod by (auto simp: assign_value_def)
    from read_found [OF p nm(3) ty(2) this u] Mod show ?thesis by simp
  next
    case Yes
    then have p: "parse_line line = Assign nm ''y''" using sym_line_bool [OF nm(1) l(2)] l(1) nl(2) by (simp add: NL_def)
    have "assign_value r ''y'' st0 = Done (set_user_tri r Yes st0)" using ty(1) by (auto simp: assign_value_def Let_def)
    from read_found [OF p nm(3) ty(2) this u] Yes show ?thesis by simp
  qed
qed

lemma read_back_string:
  assumes nm: "s_name (syms st r) = Some nm" "plain_name nm" "sym_find (Some nm) st0 = Some r"
    and ty: "s_type (syms st0 r) \<in> {S_STRING, S_INT, S_HEX}" "\<not> sym_is_choice_value st0 r"
    and v: "sym_get_string_value (syms st) r = Some v" "sym_string_valid st0 r v" "NL \<notin> set v"
    and l: "sym_line (s_type (syms st0 r)) st r = Some line"
  shows "read_line line st0 = Some (Done (clr_flags r {SYMBOL_NEW} (store_user_string r v st0)))"
proof (cases "s_type (syms st0 r) = S_STRING")
  case True
  have e: "line = nm @ ''='' @ (CHR 0x22 # escape v @ [CHR 0x22]) @ [NL]"
    using l True nm(1) v(1) by (simp add: sym_line_def)
  have "NL \<notin> set (CHR 0x22 # escape v @ [CHR 0x22])" using escape_NL [OF v(3)] by (simp add: NL_def)
  from parse_assign [OF nm(2) this] have p: "parse_line line = Assign nm (CHR 0x22 # escape v @ [CHR 0x22])"
    by (simp add: e)
  have "assign_value r (CHR 0x22 # escape v @ [CHR 0x22]) st0 =
      Done (clr_flags r {SYMBOL_NEW} (store_user_string r v st0))"
    using True v(2) unescape_escape [of v "[]"] by (simp add: assign_value_def Let_def set_user_val_def)
  from read_found [OF p nm(3) ty(2) this user_only_set(4)] show ?thesis .
next
  case False
  then have "line = nm @ ''='' @ v @ [NL]" using l ty(1) nm(1) v(1) by (auto simp: sym_line_def)
  then have p: "parse_line line = Assign nm v" using parse_assign [OF nm(2) v(3)] by simp
  have "assign_value r v st0 = Done (clr_flags r {SYMBOL_NEW} (store_user_string r v st0))"
    using False ty(1) v(2) by (auto simp: assign_value_def Let_def set_user_val_def)
  from read_found [OF p nm(3) ty(2) this user_only_set(4)] show ?thesis .
qed

definition line_type :: "kstate \<Rightarrow> symref \<Rightarrow> symbol_type \<Rightarrow> bool" where
  "line_type st r type \<longleftrightarrow> type = s_type (syms st r) \<or> s_type (syms st r) = S_TRISTATE \<and> type = S_BOOLEAN"

lemma read_back:
  assumes "storable st r" "reads_to st r st0" "sym_line type st r = Some line" "line_type st r type"
  shows "\<exists>st1. read_line line st0 = Some (Done st1) \<and> user_only r st0 st1 \<and> restored st r st1"
proof -
  from assms(1) obtain nm where nm: "s_name (syms st r) = Some nm" "plain_name nm" by (auto simp: storable_def)
  from assms(2) nm have f: "sym_find (Some nm) st0 = Some r" "s_type (syms st0 r) = s_type (syms st r)"
    "\<not> sym_is_choice_value st0 r" by (auto simp: reads_to_def)
  consider (b) "s_type (syms st r) \<in> {S_BOOLEAN, S_TRISTATE}" | (s) "s_type (syms st r) \<in> {S_STRING, S_INT, S_HEX}"
    using assms(1) by (cases "s_type (syms st r)") (auto simp: storable_def)
  then show ?thesis
  proof cases
    case b
    then have "type \<in> {S_BOOLEAN, S_TRISTATE}" using assms(4) by (auto simp: line_type_def)
    moreover have "s_type (syms st0 r) = S_BOOLEAN \<Longrightarrow> sym_tri (syms st) r \<noteq> Mod"
      using assms(1) f(2) by (simp add: storable_def)
    ultimately have "read_line line st0 = Some (Done (set_user_tri r (sym_tri (syms st) r) st0))"
      using read_back_bool [OF nm f(1) _ f(3)] b f(2) assms(3) by metis
    then show ?thesis using b user_only_set(1-3) by (auto simp: restored_def)
  next
    case s
    then have ty: "type = s_type (syms st r)" using assms(4) by (auto simp: line_type_def)
    from s assms(1) obtain v where v: "sym_get_string_value (syms st) r = Some v" "sym_string_valid st r v"
      "NL \<notin> set v" by (auto simp: storable_def)
    then have "sym_string_valid st0 r v" using sym_string_valid_type [OF f(2)] by simp
    then have "read_line line st0 = Some (Done (clr_flags r {SYMBOL_NEW} (store_user_string r v st0)))"
      using read_back_string [OF nm f(1) _ f(3) v(1) _ v(3)] s f(2) assms(3) ty by simp
    then show ?thesis using s v(1) user_only_set(4-6) [where r = r and st = st0 and v = v] by (auto simp: restored_def)
  qed
qed

section \<open>The whole file\<close>

lemma user_only_find:
  assumes "user_only r st st'"
  shows "sym_find nm st' = sym_find nm st"
proof -
  have n: "s_name (syms st' s) = s_name (syms st s)" for s using assms by (cases "s = r") (auto simp: user_only_def)
  have "s_flags (syms st' s) - {SYMBOL_NEW} = s_flags (syms st s) - {SYMBOL_NEW}" for s
    using assms by (cases "s = r") (auto simp: user_only_def)
  then have "x \<noteq> SYMBOL_NEW \<Longrightarrow> x \<in> s_flags (syms st' s) \<longleftrightarrow> x \<in> s_flags (syms st s)" for x s by blast
  then have c: "is_const_sym st' s = is_const_sym st s" for s
    by (auto simp: is_const_sym_def is_const_def SYMBOL_CONST_def)
  have "symbol_hash st' = symbol_hash st" using assms by (simp add: user_only_def)
  then show ?thesis by (simp add: sym_find_def n c cong: option.case_cong)
qed

lemma user_only_reads:
  assumes "user_only r st0 st1" "s \<noteq> r" "reads_to st s st0"
  shows "reads_to st s st1"
proof -
  have "syms st1 s = syms st0 s" using assms(1,2) by (simp add: user_only_def)
  then show ?thesis using assms(3) user_only_find [OF assms(1)] by (simp add: reads_to_def sym_is_choice_value_def)
qed

text \<open>A list of symbols with the lines that were written for them.\<close>

definition written :: "kstate \<Rightarrow> (symref \<times> string) list \<Rightarrow> bool" where
  "written st ws \<longleftrightarrow> distinct (map fst ws) \<and> (\<forall>(r, l) \<in> set ws. storable st r \<and> length l \<le> LINE_MAX \<and>
     (\<exists>type. line_type st r type \<and> sym_line type st r = Some l))"

lemma written_lines:
  assumes "storable st r" "sym_line type st r = Some l" "line_type st r type" "length l \<le> LINE_MAX"
  shows "is_line l"
proof -
  from assms(1) obtain nm where nm: "s_name (syms st r) = Some nm" "plain_name nm" by (auto simp: storable_def)
  have "NL \<notin> set (''# '' @ nm @ '' is not set'')" "NL \<notin> set (nm @ ''=y'')" "NL \<notin> set (nm @ ''=m'')"
    using plain_name_chars(3) [OF nm(2)] by (simp_all add: NL_def)
  moreover have "NL \<notin> set (nm @ ''='' @ v)" "NL \<notin> set (nm @ ''='' @ [CHR 0x22] @ escape v @ [CHR 0x22])"
    if "NL \<notin> set v" for v
    using that escape_NL [OF that] plain_name_chars(3) [OF nm(2)] by (simp_all add: NL_def)
  ultimately have "\<exists>b. l = b @ [NL] \<and> NL \<notin> set b"
    using assms(1-3) nm(1)
    by (cases "s_type (syms st r)") (fastforce simp: storable_def line_type_def sym_line_def split: tristate.splits)+
  with assms(4) show ?thesis by (simp add: is_line_def)
qed

lemma read_written:
  assumes "written st ws" "\<forall>(r, l) \<in> set ws. reads_to st r st0"
  shows "\<exists>st1. read_lines (map snd ws) st0 = Some (Done st1) \<and> (\<forall>(r, l) \<in> set ws. restored st r st1) \<and>
    (\<forall>s. s \<notin> fst ` set ws \<longrightarrow> syms st1 s = syms st0 s)"
  using assms
proof (induction ws arbitrary: st0)
  case (Cons w ws)
  obtain r l where w: "w = (r, l)" by (cases w)
  with Cons.prems obtain type where "storable st r" "reads_to st r st0" "sym_line type st r = Some l" "line_type st r type"
    by (auto simp: written_def)
  from read_back [OF this] obtain st1 where 1: "read_line l st0 = Some (Done st1)" "user_only r st0 st1" "restored st r st1"
    by blast
  have nr: "s \<noteq> r" if "(s, k) \<in> set ws" for s k
    using that Cons.prems(1) w by (force simp: written_def)
  have "written st ws" using Cons.prems(1) by (simp add: written_def)
  moreover have "\<forall>(s, k) \<in> set ws. reads_to st s st1"
    using Cons.prems(2) user_only_reads [OF 1(2)] nr by auto
  ultimately obtain st2 where 2: "read_lines (map snd ws) st1 = Some (Done st2)" "\<forall>(r, l) \<in> set ws. restored st r st2"
    "\<forall>s. s \<notin> fst ` set ws \<longrightarrow> syms st2 s = syms st1 s" using Cons.IH by blast
  have "r \<notin> fst ` set ws" using nr by fastforce
  then have "restored st r st2" using 1(3) 2(3) by (simp add: restored_def sym_has_value_def)
  moreover have "syms st2 s = syms st0 s" if "s \<notin> fst ` set (w # ws)" for s
    using that 1(2) 2(3) w by (simp add: user_only_def)
  ultimately show ?case using 1(1) 2(1,2) w by auto
qed simp

lemma read_lines_ignored: "\<forall>l \<in> set ls. \<forall>st. read_line l st = Some (Done st) \<Longrightarrow> read_lines (ls @ ms) st = read_lines ms st"
  by (induction ls) simp_all

lemma file_round_trip:
  assumes "written st ws" "\<forall>(r, l) \<in> set ws. reads_to st r st0"
  shows "\<exists>st1. read_lines (file_lines (file_header @ concat (map snd ws))) st0 = Some (Done st1) \<and>
    (\<forall>(r, l) \<in> set ws. restored st r st1) \<and> (\<forall>s. s \<notin> fst ` set ws \<longrightarrow> syms st1 s = syms st0 s)"
proof -
  have "\<forall>l \<in> set (map snd ws). is_line l"
    using assms(1) written_lines by (fastforce simp: written_def)
  then have "file_lines (file_header @ concat (map snd ws)) = header_lines @ map snd ws"
    using file_lines_concat [OF header_is_line] file_lines_concat [of "map snd ws" "[]"]
    by (simp add: file_header_lines)
  then show ?thesis
    using read_lines_ignored [of header_lines "map snd ws" st0] header_ignored read_written [OF assms] by simp
qed

section \<open>When reading ends the program\<close>

lemma read_line_exit:
  "read_line line st = Some Exited \<longleftrightarrow>
     (\<exists>nm p r. parse_line line = Assign nm p \<and> sym_find (Some nm) st = Some r \<and>
        (s_type (syms st r) = S_STRING \<and> cstr_at p 0 = CHR 0x22 \<and> unescape (tl p) = None \<or>
         s_type (syms st r) \<in> {S_INT, S_HEX} \<and> \<not> sym_string_valid st r p))"
  (is "_ \<longleftrightarrow> ?E")
proof -
  have a: "assign_value r p st = Exited \<longleftrightarrow>
      (s_type (syms st r) = S_STRING \<and> cstr_at p 0 = CHR 0x22 \<and> unescape (tl p) = None \<or>
       s_type (syms st r) \<in> {S_INT, S_HEX} \<and> \<not> sym_string_valid st r p)" for r p
    by (auto simp: assign_value_def Let_def set_user_val_def sym_string_valid_def split: option.splits)
  have "read_line line st = Some Exited \<longleftrightarrow>
      (\<exists>nm p r. parse_line line = Assign nm p \<and> sym_find (Some nm) st = Some r \<and> assign_value r p st = Exited)"
    by (cases "parse_line line") (auto simp: read_line_def Let_def split: option.splits outcome.splits)
  then show ?thesis unfolding a .
qed

end
