(* ===== verification/Kconfig_Walk.thy ===== *)
theory Kconfig_Walk
  imports Kconfig_Confdata_Proof
begin

text \<open>
  Walking the menu tree as \<open>conf_write\<close> does, through the links of the entries, visits the
  entries of the tree once each, an entry before its own list and a list in order.
\<close>

section \<open>The order of the walk\<close>

fun preorder :: "(nat \<Rightarrow> menu) \<Rightarrow> nat option \<Rightarrow> entry list \<Rightarrow> nat list" where
  "preorder M p [] = []"
| "preorder M None (e # es) = []"
| "preorder M (Some m) (Entry s # es) = m # preorder M (m_next (M m)) es"
| "preorder M (Some m) (Block s fs # es) = m # preorder M (m_list (M m)) fs @ preorder M (m_next (M m)) es"

lemma preorder_Cons:
  "preorder M (Some m) (e # es) = m # preorder M (m_list (M m)) (entry_list e) @ preorder M (m_next (M m)) es"
  by (cases e) auto

fun walk :: "nat \<Rightarrow> nat \<Rightarrow> kstate \<Rightarrow> nat option \<Rightarrow> nat list option" where
  "walk k d st None = Some []"
| "walk 0 d st (Some m) = None"
| "walk (Suc k) d st (Some m) =
     do { n \<leftarrow> next_entry d st m; ms \<leftarrow> walk k d st n; Some (m # ms) }"

text \<open>\<open>depth m\<close> bounds how far an entry is from the root, where the climb ends.\<close>

definition depth_ok :: "kstate \<Rightarrow> (nat \<Rightarrow> nat) \<Rightarrow> bool" where
  "depth_ok st depth \<longleftrightarrow> (\<forall>m p. m_parent (menus st m) = Some p \<longrightarrow> depth p < depth m)"

lemma climb_total:
  assumes "depth_ok st depth"
  shows "depth m < k \<Longrightarrow> \<exists>x. climb k st m = Some x \<and> (\<forall>j \<ge> k. climb j st m = Some x)"
proof (induction k arbitrary: m)
  case (Suc k)
  show ?case
  proof (cases "m_next (menus st m)")
    case (Some n)
    have "climb j st m = Some (Some n)" if "j \<ge> Suc k" for j using that Some by (cases j) auto
    then show ?thesis by blast
  next
    case None
    show ?thesis
    proof (cases "m_parent (menus st m)")
      case np: None
      have "climb j st m = Some None" if "j \<ge> Suc k" for j using that None np by (cases j) auto
      then show ?thesis by blast
    next
      case (Some p)
      then have "depth p < k" using assms Suc.prems by (fastforce simp: depth_ok_def)
      from Suc.IH [OF this] obtain x where x: "climb k st p = Some x" "\<forall>j \<ge> k. climb j st p = Some x" by blast
      have "climb j st m = Some x" if "j \<ge> Suc k" for j using that None Some x by (cases j) auto
      then show ?thesis by blast
    qed
  qed
qed simp

lemma climb_parent:
  assumes "depth_ok st depth" "depth m < d" "m_next (menus st m) = None" "m_parent (menus st m) = Some p"
  shows "climb d st m = climb d st p"
proof (cases d)
  case (Suc k)
  have "depth p < k" using assms Suc by (fastforce simp: depth_ok_def)
  from climb_total [OF assms(1) this] have "climb (Suc k) st p = climb k st p" by (metis le_Suc_eq order_refl)
  moreover have "climb (Suc k) st m = climb k st p" using assms(3,4) by simp
  ultimately show ?thesis unfolding Suc by metis
qed (use assms(2) in simp)

text \<open>Walking a list, and then on from the entry it belongs to.\<close>

lemma walk_tree:
  assumes "depth_ok st depth" "\<And>m. depth m < d" "climb d st par = Some up" "tree (menus st) A par p es" "es \<noteq> []"
  shows "walk (length (preorder (menus st) p es) + k) d st p =
    map_option (\<lambda>ms. preorder (menus st) p es @ ms) (walk k d st up)"
  using assms(3-5)
proof (induction "length (preorder (menus st) p es)" arbitrary: p es par up k rule: less_induct)
  case less
  let ?M = "menus st"
  from less.prems(3) obtain e fs where es: "es = e # fs" by (cases es) auto
  with less.prems(2) obtain m where m: "p = Some m" "m_parent (?M m) = Some par"
    "tree ?M A m (m_list (?M m)) (entry_list e)" "tree ?M A par (m_next (?M m)) fs"
    by (auto simp: tree_Cons)
  let ?own = "preorder ?M (m_list (?M m)) (entry_list e)" and ?rest = "preorder ?M (m_next (?M m)) fs"
  have pre: "preorder ?M p es = m # ?own @ ?rest" by (simp add: es m(1) preorder_Cons)
  obtain u where u: "climb d st m = Some u" using climb_total [OF assms(1,2)] by blast
  have rest: "walk (length ?rest + j) d st u = map_option (\<lambda>ms. ?rest @ ms) (walk j d st up)" for j
  proof (cases "fs = []")
    case True
    then have n: "m_next (?M m) = None" using m(4) by simp
    then have "climb d st m = climb d st par" using climb_parent [OF assms(1,2) _ m(2)] by blast
    then have "u = up" using u less.prems(1) by simp
    with True n show ?thesis by (cases "walk j d st up") auto
  next
    case False
    then obtain n where n: "m_next (?M m) = Some n" using m(4) by (cases fs) (auto simp: tree_Cons)
    then have "u = Some n" using u by (cases d) auto
    moreover have "length ?rest < length (preorder ?M p es)" by (simp add: pre)
    ultimately show ?thesis using less.hyps [of "m_next (?M m)" fs par up] less.prems(1) m(4) False n by simp
  qed
  have own: "\<exists>x. next_entry d st m = Some x \<and> walk (length ?own + length ?rest + j) d st x =
      map_option (\<lambda>ms. ?own @ ?rest @ ms) (walk j d st up)" for j
  proof (cases "entry_list e = []")
    case True
    then have "m_list (?M m) = None" using m(3) by simp
    then show ?thesis using u rest [of j] True by (simp add: next_entry_def)
  next
    case False
    then obtain l where l: "m_list (?M m) = Some l" using m(3) by (cases "entry_list e") (auto simp: tree_Cons)
    have "length ?own < length (preorder ?M p es)" by (simp add: pre)
    from less.hyps [OF this u m(3) False, of "length ?rest + j"] rest [of j]
    have "walk (length ?own + length ?rest + j) d st (Some l) =
        map_option (\<lambda>ms. ?own @ ?rest @ ms) (walk j d st up)"
      by (simp add: l add.assoc option.map_comp o_def)
    then show ?thesis using l by (simp add: next_entry_def)
  qed
  from own [of k] obtain x where x: "next_entry d st m = Some x"
    "walk (length ?own + length ?rest + k) d st x = map_option (\<lambda>ms. ?own @ ?rest @ ms) (walk k d st up)" by blast
  then show ?case
    by (cases "walk k d st up") (simp_all add: pre [unfolded m(1)] m(1))
qed

lemma walk_root:
  assumes "depth_ok st depth" "\<And>m. depth m < d" "tree (menus st) A rootmenu (m_list (menus st rootmenu)) es"
    "m_next (menus st rootmenu) = None" "m_parent (menus st rootmenu) = None"
  shows "walk (length (preorder (menus st) (m_list (menus st rootmenu)) es)) d st (m_list (menus st rootmenu)) =
    Some (preorder (menus st) (m_list (menus st rootmenu)) es)"
proof (cases "es = []")
  case True
  then show ?thesis using assms(3) by simp
next
  case False
  have "climb d st rootmenu = Some None"
    using assms(2) [of rootmenu] assms(4,5) by (cases d) auto
  from walk_tree [OF assms(1,2) this assms(3) False, of 0] show ?thesis by simp
qed

section \<open>Evaluation does not change the links\<close>

definition links :: "kstate \<Rightarrow> nat \<Rightarrow> nat option \<times> nat option \<times> nat option" where
  "links st m = (m_next (menus st m), m_parent (menus st m), m_list (menus st m))"

lemma frame_links: "frame X st st' \<Longrightarrow> links st' = links st"
proof
  fix m assume "frame X st st'"
  then have "menu_static (menus st' m) = menu_static (menus st m)" by (simp add: frame_def)
  then have "m_next (menu_static (menus st' m)) = m_next (menu_static (menus st m))"
    "m_parent (menu_static (menus st' m)) = m_parent (menu_static (menus st m))"
    "m_list (menu_static (menus st' m)) = m_list (menu_static (menus st m))" by simp_all
  then show "links st' m = links st m" by (simp add: links_def menu_static_def)
qed

lemma links_fields:
  assumes "links st' = links st"
  shows "m_next (menus st' m) = m_next (menus st m)" "m_parent (menus st' m) = m_parent (menus st m)"
    "m_list (menus st' m) = m_list (menus st m)"
  using fun_cong [OF assms, of m] by (simp_all add: links_def)

lemma links_climb: "links st' = links st \<Longrightarrow> climb k st' m = climb k st m"
proof (induction k arbitrary: m)
  case (Suc k)
  show ?case unfolding climb.simps links_fields [OF Suc.prems] Suc.IH [OF Suc.prems] ..
qed simp

lemma links_next: "links st' = links st \<Longrightarrow> next_entry k st' m = next_entry k st m"
proof -
  assume l: "links st' = links st"
  show ?thesis unfolding next_entry_def links_fields [OF l] links_climb [OF l] ..
qed

lemma links_upd_sym [simp]: "links (upd_sym r f st) = links st"
  by (simp add: fun_eq_iff links_def upd_sym_def)

lemma links_walk: "links st' = links st \<Longrightarrow> walk k d st' m = walk k d st m"
proof (induction k arbitrary: m)
  case (Suc k)
  then show ?case by (cases m) (simp_all add: links_next [OF Suc.prems])
next
  case 0
  then show ?case by (cases m) simp_all
qed

context evaluator
begin

lemma menu_is_visible_step:
  assumes any: "\<And>c st v st'. any_visible calc k c st = Some (v, st') \<Longrightarrow> links st' = links st"
    and v: "menu_is_visible calc (Suc k) m st = Some (v, st')"
  shows "links st' = links st"
proof -
  show ?thesis
  proof (cases "m_prompt (menus st m)")
    case None
    then show ?thesis using v by simp
  next
    case (Some p)
    with v obtain vis st1 where 1:
      "(case m_sym (menus st m) of
          Some r \<Rightarrow> do { st \<leftarrow> calc r st; Some (ev_tri (p_visible (props st p)), st) }
        | None \<Rightarrow> prop_calc_visible calc p st) = Some (vis, st1)"
      and 2: "(if vis \<noteq> No then Some (True, st1)
          else (case m_sym (menus st1 m) of None \<Rightarrow> Some (False, st1)
                | Some r \<Rightarrow> if sym_get_tristate_value st1 r = No then Some (False, st1)
                    else any_visible calc k (m_list (menus st1 m)) st1)) = Some (v, st')"
      by (auto simp: bind_Some_iff)
    have l1: "links st1 = links st"
    proof (cases "m_sym (menus st m)")
      case None
      then have "prop_calc_visible calc p st = Some (vis, st1)" using 1 by simp
      then show ?thesis by (rule frame_links [OF prop_calc_visible_frame])
    next
      case (Some r)
      then have "calc r st = Some st1" using 1 by (auto simp: bind_Some_iff)
      then show ?thesis by (rule frame_links [OF calc_frame])
    qed
    have "links st' = links st1"
    proof (cases "st' = st1")
      case False
      with 2 obtain r where "vis = No" "m_sym (menus st1 m) = Some r" "sym_get_tristate_value st1 r \<noteq> No"
        "any_visible calc k (m_list (menus st1 m)) st1 = Some (v, st')"
        by (auto split: if_splits option.splits)
      then show ?thesis using any by blast
    qed simp
    with l1 show ?thesis by simp
  qed
qed

lemma menu_is_visible_links:
  "(menu_is_visible calc k m st = Some (v, st') \<longrightarrow> links st' = links st) \<and>
   (any_visible calc k c st = Some (w, st2) \<longrightarrow> links st2 = links st)"
proof (induction k arbitrary: m c st v st' w st2)
  case 0
  show ?case by (cases c) auto
next
  case (Suc k)
  have "links st' = links st" if "menu_is_visible calc (Suc k) m st = Some (v, st')"
    by (rule menu_is_visible_step [OF _ that]) (use Suc.IH in blast)
  moreover have "links st2 = links st" if "any_visible calc (Suc k) c st = Some (w, st2)"
  proof (cases c)
    case None
    then show ?thesis using that by simp
  next
    case (Some x)
    with that obtain b st1 where b: "menu_is_visible calc k x st = Some (b, st1)"
      "b \<and> st2 = st1 \<or> any_visible calc k (m_next (menus st1 x)) st1 = Some (w, st2)"
      by (auto simp: bind_Some_iff split: if_splits)
    have "links st1 = links st" using b(1) Suc.IH by blast
    moreover have "links st2 = links st1" using b(2) Suc.IH by blast
    ultimately show ?thesis by simp
  qed
  ultimately show ?case by blast
qed

lemma write_sym_links: "write_sym calc r st = Some (s, st') \<Longrightarrow> links st' = links st"
proof -
  assume w: "write_sym calc r st = Some (s, st')"
  then obtain st1 where 1: "calc r st = Some st1" by (auto simp: write_sym_def bind_Some_iff)
  show ?thesis
  proof (cases "SYMBOL_WRITE \<in> s_flags (syms st1 r)")
    case False
    with w 1 show ?thesis using frame_links [OF calc_frame [OF 1]] by (simp add: write_sym_def)
  next
    case True
    let ?st2 = "clr_flags r {SYMBOL_WRITE} st1"
    from w 1 True obtain ty where
      "(if s_type (syms ?st2 r) = S_TRISTATE then
          do { m \<leftarrow> modules_sym ?st2; st \<leftarrow> calc m ?st2;
               Some (if sv_tri (s_curr (syms st m)) = No then S_BOOLEAN else s_type (syms ?st2 r), st) }
        else Some (s_type (syms ?st2 r), ?st2)) = Some (ty, st')"
      by (auto simp: write_sym_def bind_Some_iff Let_def)
    then have "links st' = links ?st2"
      using frame_links [OF calc_frame] by (auto simp: bind_Some_iff split: if_splits)
    then show ?thesis using frame_links [OF calc_frame [OF 1]] by (simp add: clr_flags_def)
  qed
qed

lemma write_entry_links: "write_entry k calc m st = Some (s, st') \<Longrightarrow> links st' = links st"
  by (auto simp: write_entry_def bind_Some_iff write_sym_links split: option.splits if_splits dest: menu_is_visible_links [THEN conjunct1, rule_format])

end

text \<open>The text of a list of entries, one after the other.\<close>

fun write_list :: "nat \<Rightarrow> calc \<Rightarrow> nat list \<Rightarrow> kstate \<Rightarrow> (string \<times> kstate) option" where
  "write_list d calc [] st = Some ([], st)"
| "write_list d calc (m # ms) st =
     do { (s, st) \<leftarrow> write_entry d calc m st;
          (s', st) \<leftarrow> write_list d calc ms st;
          Some (s @ s', st) }"

context evaluator
begin

lemma write_entries_walk:
  "walk k d st p = Some ms \<Longrightarrow> write_entries k d calc p st = write_list d calc ms st"
proof (induction k arbitrary: p ms st)
  case 0
  then show ?case by (cases p) auto
next
  case (Suc k)
  show ?case
  proof (cases p)
    case None
    then show ?thesis using Suc.prems by simp
  next
    case (Some m)
    with Suc.prems obtain n ns where w: "next_entry d st m = Some n" "walk k d st n = Some ns" "ms = m # ns"
      by (auto simp: bind_Some_iff)
    show ?thesis
    proof (cases "write_entry d calc m st")
      case None
      then show ?thesis by (simp add: Some w(3))
    next
      case e: (Some r)
      obtain s st1 where r: "r = (s, st1)" by (cases r)
      have l: "links st1 = links st" using e r write_entry_links by blast
      have "next_entry d st1 m = Some n" "walk k d st1 n = Some ns"
        using w links_next [OF l] links_walk [OF l] by simp_all
      with Suc.IH [OF this(2)] show ?thesis by (simp add: Some w(3) e r)
    qed
  qed
qed

end

end
