(* ===== verification/Kconfig_Confdata_Props.thy ===== *)
theory Kconfig_Confdata_Props
  imports Kconfig_Walk Kconfig_Props
begin

text \<open>The properties of reading and writing configuration files.\<close>

text \<open>C12: What is written is read back: a file with the header and the lines \<open>conf_write\<close> makes for
  some symbols (whose values fit on a line) is read without an error, gives each of them its
  value again as the user's value (strings with quotes and backslashes included), and touches
  no other symbol.\<close>

theorem config_file_roundtrip:
  assumes "written st ws" "\<forall>(r, l) \<in> set ws. reads_to st r st0"
  shows "\<exists>st1. read_lines (file_lines (file_header @ concat (map snd ws))) st0 = Some (Done st1) \<and>
    (\<forall>(r, l) \<in> set ws. restored st r st1) \<and> (\<forall>s. s \<notin> fst ` set ws \<longrightarrow> syms st1 s = syms st0 s)"
  by (rule file_round_trip [OF assms])

definition demo_conf :: kstate where
  "demo_conf = demo_st\<lparr>syms := demo_tab(SymPtr 0 := mk_sym ''A'' S_BOOLEAN ''n'' Yes {},
       SymPtr 1 := mk_sym ''S'' S_STRING [CHR ''a'', CHR 0x22, CHR 0x5C] No {}),
     symbol_hash := (\<lambda>h. if h = 65 then [SymPtr 0] else if h = 83 then [SymPtr 1] else [])\<rparr>"

definition demo_lines :: "(symref \<times> string) list" where
  "demo_lines = [(SymPtr 0, ''A=y'' @ [NL]),
     (SymPtr 1, ''S='' @ [CHR 0x22, CHR ''a'', CHR 0x5C, CHR 0x22, CHR 0x5C, CHR 0x5C, CHR 0x22, NL])]"

lemma demo_conf_find: "sym_find (Some ''A'') demo_conf = Some (SymPtr 0)" "sym_find (Some ''S'') demo_conf = Some (SymPtr 1)"
  by code_simp+

lemma demo_conf_line:
  "sym_line S_BOOLEAN demo_conf (SymPtr 0) = Some (snd (demo_lines ! 0))"
  "sym_line S_STRING demo_conf (SymPtr 1) = Some (snd (demo_lines ! 1))"
  by code_simp+

lemma demo_written: "written demo_conf demo_lines"
proof -
  have n: "s_name (syms demo_conf (SymPtr 0)) = Some ''A''" "s_name (syms demo_conf (SymPtr 1)) = Some ''S''"
    "s_type (syms demo_conf (SymPtr 0)) = S_BOOLEAN" "s_type (syms demo_conf (SymPtr 1)) = S_STRING"
    "sym_tri (syms demo_conf) (SymPtr 0) = Yes"
    "sym_get_string_value (syms demo_conf) (SymPtr 1) = Some [CHR ''a'', CHR 0x22, CHR 0x5C]"
    by (simp_all add: demo_conf_def mk_sym_def sym_tri_def sym_get_string_value_def)
  have p: "plain_name ''A''" "plain_name ''S''"
    by (simp_all add: plain_name_def is_upper_def name_char_def isalnum_def)
  have "storable demo_conf (SymPtr 0)" "storable demo_conf (SymPtr 1)"
    using n p by (simp_all add: storable_def sym_string_valid_def NL_def)
  then show ?thesis using demo_conf_line n(3,4)
    by (auto simp: written_def demo_lines_def LINE_MAX_def line_type_def)
qed

theorem config_file_roundtrip_witness:
  "\<exists>st1. read_lines (file_lines (file_header @ concat (map snd demo_lines))) demo_conf = Some (Done st1) \<and>
     cstr_of (sv_val (s_user (syms st1 (SymPtr 1)))) = Some [CHR ''a'', CHR 0x22, CHR 0x5C]"
proof -
  have "s_name (syms demo_conf (SymPtr 0)) = Some ''A''" "s_name (syms demo_conf (SymPtr 1)) = Some ''S''"
    "\<not> sym_is_choice_value demo_conf (SymPtr 0)" "\<not> sym_is_choice_value demo_conf (SymPtr 1)"
    "s_type (syms demo_conf (SymPtr 1)) = S_STRING"
    "sym_get_string_value (syms demo_conf) (SymPtr 1) = Some [CHR ''a'', CHR 0x22, CHR 0x5C]"
    by (simp_all add: demo_conf_def mk_sym_def sym_is_choice_value_def sym_get_string_value_def)
  note f = this
  then have "\<forall>(r, l) \<in> set demo_lines. reads_to demo_conf r demo_conf"
    using demo_conf_find by (simp add: demo_lines_def reads_to_def)
  from config_file_roundtrip [OF demo_written this] f show ?thesis
    by (auto simp: demo_lines_def restored_def)
qed

text \<open>Reading a line ends the program exactly for an assignment to a known symbol whose value
  is a string with no closing quote, or is not a number of the symbol's type.\<close>

theorem read_line_exits:
  "read_line line st = Some Exited \<longleftrightarrow>
     (\<exists>nm p r. parse_line line = Assign nm p \<and> sym_find (Some nm) st = Some r \<and>
        (s_type (syms st r) = S_STRING \<and> cstr_at p 0 = CHR 0x22 \<and> unescape (tl p) = None \<or>
         s_type (syms st r) \<in> {S_INT, S_HEX} \<and> \<not> sym_string_valid st r p))"
  by (rule read_line_exit)

theorem read_line_exits_witness:
  "read_line (''S='' @ [CHR 0x22, CHR ''a'', NL]) demo_conf = Some Exited"
proof -
  have "parse_line (''S='' @ [CHR 0x22, CHR ''a'', NL]) = Assign ''S'' [CHR 0x22, CHR ''a'']" by code_simp
  moreover have "s_type (syms demo_conf (SymPtr 1)) = S_STRING" by (simp add: demo_conf_def mk_sym_def)
  ultimately show ?thesis using demo_conf_find(2) by (subst read_line_exits) simp
qed

text \<open>C13: The walk of \<open>conf_write\<close> through the links of the menu entries ends and writes the
  entries of the tree once each, in the order of the source files: an entry, then its own list,
  then the next entry. Evaluating symbols on the way does not change it.\<close>

theorem conf_write_order:
  assumes "depth_ok st depth" "\<And>m. depth m < d" "tree (menus st) A rootmenu (m_list (menus st rootmenu)) es"
    "m_next (menus st rootmenu) = None" "m_parent (menus st rootmenu) = None"
  shows "write_entries (length (preorder (menus st) (m_list (menus st rootmenu)) es)) d (sym_calc_value k)
      (m_list (menus st rootmenu)) st =
    write_list d (sym_calc_value k) (preorder (menus st) (m_list (menus st rootmenu)) es) st"
  by (rule calc.write_entries_walk [OF walk_root [OF assms]])

definition demo_menus :: "nat \<Rightarrow> menu" where
  "demo_menus = (\<lambda>_. demo_menu)(0 := demo_menu\<lparr>m_list := Some 1\<rparr>,
     1 := demo_menu\<lparr>m_sym := Some (SymPtr 0), m_parent := Some 0, m_list := Some 2, m_next := Some 3\<rparr>,
     2 := demo_menu\<lparr>m_sym := Some (SymPtr 1), m_parent := Some 1\<rparr>, 3 := demo_menu\<lparr>m_parent := Some 0\<rparr>)"

theorem conf_write_order_witness:
  "write_entries 3 4 (sym_calc_value 2) (Some 1) (demo_conf\<lparr>menus := demo_menus\<rparr>) =
   write_list 4 (sym_calc_value 2) [1, 2, 3] (demo_conf\<lparr>menus := demo_menus\<rparr>)"
proof -
  let ?st = "demo_conf\<lparr>menus := demo_menus\<rparr>"
  let ?es = "[Block (Some (SymPtr 0)) [Entry (Some (SymPtr 1))], Entry None]"
  have t: "tree (menus ?st) UNIV rootmenu (m_list (menus ?st rootmenu)) ?es"
    by (simp add: demo_menus_def demo_menu_def rootmenu_def)
  have d: "depth_ok ?st (\<lambda>m. if m \<le> 3 then m else 0)"
    by (auto simp: depth_ok_def demo_menus_def demo_menu_def split: if_splits)
  have r: "m_next (menus ?st rootmenu) = None" "m_parent (menus ?st rootmenu) = None"
    "m_list (menus ?st rootmenu) = Some 1" by (simp_all add: demo_menus_def demo_menu_def rootmenu_def)
  have p: "preorder (menus ?st) (Some 1) ?es = [1, 2, 3]"
    by (simp add: demo_menus_def demo_menu_def numeral_eq_Suc)
  have len: "length [1, 2, 3 :: nat] = 3" by simp
  have "(if m \<le> 3 then m else 0) < 4" for m :: nat by simp
  from conf_write_order [OF d this t r(1,2), of 2] show ?thesis
    unfolding r(3) p len .
qed

end
