(* ===== verification/Kconfig_Conf.thy ===== *)
theory Kconfig_Conf
  imports Kconfig_Walk
begin

text \<open>
  The line-oriented front end, \<open>package/config/conf.c\<close>: asking for every symbol that is new or
  for all of them, or answering by a rule, then writing the configuration.

  The state holds the symbol engine, the program's globals, the text still to be read from
  standard input and what was printed. \<open>Exit n\<close> is \<open>exit(n)\<close>; the outer \<open>None\<close> is a NULL pointer that
  is followed, a division by zero, or an exhausted bound (asking again has no bound in the
  code). \<open>random()\<close> is a given sequence; \<open>before_line\<close> is the byte of memory before \<open>line\<close>,
  which \<open>conf_choice\<close> reads after an empty answer.
\<close>

datatype input_mode = ask_all | ask_new | ask_silent | set_default | set_yes | set_mod | set_no | set_random

record cstate =
  kst :: kstate
  mode :: input_mode
  valid_stdin :: bool
  indent :: nat
  conf_cnt :: nat
  line :: string
  before_line :: char
  rootEntry :: nat
  stdin_text :: string
  random_seq :: "nat \<Rightarrow> nat"
  random_pos :: nat
  out :: string

datatype 'a res = Exit int | Val 'a cstate

type_synonym 'a cm = "cstate \<Rightarrow> 'a res option"

definition cbind :: "'a cm \<Rightarrow> ('a \<Rightarrow> 'b cm) \<Rightarrow> 'b cm" where
  "cbind m f s = (case m s of None \<Rightarrow> None | Some (Exit n) \<Rightarrow> Some (Exit n) | Some (Val x s') \<Rightarrow> f x s')"

definition cret :: "'a \<Rightarrow> 'a cm" where
  "cret x s = Some (Val x s)"

definition cfail :: "'a cm" where
  "cfail s = None"

definition cget :: "(cstate \<Rightarrow> 'a) \<Rightarrow> 'a cm" where
  "cget f s = Some (Val (f s) s)"

definition cmod :: "(cstate \<Rightarrow> cstate) \<Rightarrow> unit cm" where
  "cmod f s = Some (Val () (f s))"

definition cseq :: "'a cm \<Rightarrow> 'b cm \<Rightarrow> 'b cm" where
  "cseq m n = cbind m (\<lambda>_. n)"

definition say :: "string \<Rightarrow> unit cm" where
  "say t = cmod (\<lambda>s. s\<lparr>out := out s @ t\<rparr>)"

text \<open>A computation of the symbol engine.\<close>

definition kst_run :: "(kstate \<Rightarrow> ('a \<times> kstate) option) \<Rightarrow> 'a cm" where
  "kst_run f s = (case f (kst s) of None \<Rightarrow> None | Some (x, st) \<Rightarrow> Some (Val x (s\<lparr>kst := st\<rparr>)))"

definition need :: "'a option \<Rightarrow> 'a cm" where
  "need x = (case x of None \<Rightarrow> cfail | Some y \<Rightarrow> cret y)"

definition spaces :: "nat \<Rightarrow> string" where
  "spaces n = replicate n (CHR '' '')"

text \<open>\<open>%s\<close> of a NULL pointer, as the C library prints it.\<close>

definition str_or_null :: "string option \<Rightarrow> string" where
  "str_or_null x = (case x of None \<Rightarrow> ''(null)'' | Some t \<Rightarrow> t)"

definition nohelp_text :: string where
  "nohelp_text = ''Sorry, no help available for this option yet.'' @ [NL]"

section \<open>Input\<close>

definition strip :: "string \<Rightarrow> string" where
  "strip str = rev (dropWhile isspace (rev (dropWhile isspace str)))"

definition check_stdin :: "unit cm" where
  "check_stdin s =
     (if \<not> valid_stdin s \<and> mode s = ask_silent then Some (Exit 1) else Some (Val () s))"

text \<open>\<open>fgets(line, 128, stdin)\<close>; at the end of the input the line stays as it is.\<close>

definition read_stdin :: "unit cm" where
  "read_stdin s =
     (let (l, rest) = fgets 127 (stdin_text s) in
      Some (Val () (if stdin_text s = [] then s else s\<lparr>line := l, stdin_text := rest\<rparr>)))"

definition next_random :: "nat cm" where
  "next_random s = Some (Val (random_seq s (random_pos s)) (s\<lparr>random_pos := Suc (random_pos s)\<rparr>))"

fun tri_of_num :: "nat \<Rightarrow> tristate" where
  "tri_of_num n = (if n = 0 then No else if n = 1 then Mod else Yes)"

definition tri_char :: "tristate \<Rightarrow> char" where
  "tri_char t = (case t of No \<Rightarrow> CHR ''n'' | Mod \<Rightarrow> CHR ''m'' | Yes \<Rightarrow> CHR ''y'')"

text \<open>The first random value in range; the bound is on the number of tries.\<close>

fun random_tri :: "nat \<Rightarrow> symref \<Rightarrow> tristate cm" where
  "random_tri 0 r = cfail"
| "random_tri (Suc k) r =
     cbind next_random (\<lambda>n.
       let val = tri_of_num (n mod 3) in
       cbind (cget (\<lambda>s. sym_tristate_within_range (kst s) r val)) (\<lambda>ok.
         if ok then cret val else random_tri k r))"

definition set_line :: "string \<Rightarrow> unit cm" where
  "set_line t = cmod (\<lambda>s. s\<lparr>line := t\<rparr>)"

definition answer :: "tristate \<Rightarrow> unit cm" where
  "answer t = set_line [tri_char t, NL]"

text \<open>The answers by rule: each rule falls through to the next one when its value is out of range.\<close>

definition rule_random :: "nat \<Rightarrow> symref \<Rightarrow> unit cm" where
  "rule_random k r = cbind (random_tri k r) answer"

definition rule_no :: "nat \<Rightarrow> symref \<Rightarrow> unit cm" where
  "rule_no k r s =
     (if sym_tristate_within_range (kst s) r No then answer No s else rule_random k r s)"

definition rule_mod :: "nat \<Rightarrow> symbol_type \<Rightarrow> symref \<Rightarrow> unit cm" where
  "rule_mod k type r s =
     (let t = (if type = S_TRISTATE then Mod else Yes) in
      if sym_tristate_within_range (kst s) r t then answer t s else rule_no k r s)"

definition rule_yes :: "nat \<Rightarrow> symbol_type \<Rightarrow> symref \<Rightarrow> unit cm" where
  "rule_yes k type r s =
     (if sym_tristate_within_range (kst s) r Yes then answer Yes s else rule_mod k type r s)"

definition by_rule :: "nat \<Rightarrow> symbol_type \<Rightarrow> symref \<Rightarrow> unit cm" where
  "by_rule k type r s =
     (case mode s of
        set_yes \<Rightarrow> rule_yes k type r s
      | set_mod \<Rightarrow> rule_mod k type r s
      | set_no \<Rightarrow> rule_no k r s
      | set_random \<Rightarrow> rule_random k r s
      | _ \<Rightarrow> Some (Val () s))"

definition show_line :: "unit cm" where
  "show_line = cbind (cget line) say"

definition conf_askvalue :: "nat \<Rightarrow> symref \<Rightarrow> string option \<Rightarrow> unit cm" where
  "conf_askvalue k r def =
     cbind (cget (\<lambda>s. sym_get_type (kst s) r)) (\<lambda>type.
     cbind (cget (\<lambda>s. sym_has_value (kst s) r)) (\<lambda>has.
     cseq (if \<not> has then say ''(NEW) '' else cret ()) (
     cseq (set_line [NL]) (
     cbind (cget (\<lambda>s. sym_is_changable (kst s) r)) (\<lambda>ch.
     cbind (cget mode) (\<lambda>md.
       if \<not> ch then say (str_or_null def @ [NL])
       else if md \<in> {ask_new, ask_silent} \<and> has then say (str_or_null def @ [NL])
       else if md \<in> {ask_new, ask_silent} then cseq check_stdin read_stdin
       else if md = ask_all then read_stdin
       else if md = set_default then say (str_or_null def @ [NL])
       else if type \<in> {S_INT, S_HEX, S_STRING} then say (str_or_null def @ [NL])
       else cseq (by_rule k type r) show_line))))))"

section \<open>Asking for a string, asking for a boolean\<close>

definition prompt_text :: "nat \<Rightarrow> string cm" where
  "prompt_text m s =
     (case m_prompt (menus (kst s) m) of
        None \<Rightarrow> None
      | Some p \<Rightarrow> Some (Val (str_or_null (p_text (props (kst s) p))) s))"

definition menu_symbol :: "nat \<Rightarrow> symref cm" where
  "menu_symbol m s = need (m_sym (menus (kst s) m)) s"

text \<open>What \<open>conf_string\<close> makes of the answer: the value to set, or none after the help text.\<close>

definition string_answer :: "nat \<Rightarrow> symref \<Rightarrow> string option \<Rightarrow> string option cm" where
  "string_answer m r def =
     cbind (cget line) (\<lambda>l.
       if cstr_at l 0 = NL then cret def
       else if cstr_at l 0 = CHR ''?'' \<and> cstr_at l 1 = NL then
         cbind (cget (\<lambda>s. s_help (syms (kst s) r))) (\<lambda>help.
           cseq (say ([NL] @ str_or_null help @ [NL])) (cret None))
       else cseq (set_line (butlast l)) (cret (Some (butlast l))))"

fun conf_string :: "nat \<Rightarrow> calc \<Rightarrow> nat \<Rightarrow> unit cm" where
  "conf_string 0 calc m = cfail"
| "conf_string (Suc k) calc m =
     cbind (menu_symbol m) (\<lambda>r.
     cbind (prompt_text m) (\<lambda>txt.
     cbind (cget indent) (\<lambda>ind.
     cbind (cget (\<lambda>s. s_name (syms (kst s) r))) (\<lambda>nm.
     cseq (say (spaces (ind - 1) @ txt @ '' '' @ ''('' @ str_or_null nm @ '') '')) (
     cbind (cget (\<lambda>s. sym_get_string_value (syms (kst s)) r)) (\<lambda>def.
     cseq (case def of None \<Rightarrow> cret () | Some d \<Rightarrow> say (''['' @ d @ ''] '')) (
     cseq (conf_askvalue k r def) (
     cbind (string_answer m r def) (\<lambda>def.
       case def of
         None \<Rightarrow> conf_string k calc m
       | Some d \<Rightarrow>
           cbind (kst_run (sym_set_string_value calc r d)) (\<lambda>ok.
             if ok then cret () else conf_string k calc m))))))))))"

text \<open>The meaning of a stripped answer: a value, help, or neither.\<close>

datatype tri_answer = Tri tristate | Help | Again

definition parse_answer :: "tristate \<Rightarrow> string \<Rightarrow> tri_answer" where
  "parse_answer oldval l =
     (let c = cstr_at l 0 in
      if c \<in> set ''nN'' then (if tl l = [] \<or> tl l = ''o'' then Tri No else Again)
      else if c \<in> set ''mM'' then (if tl l = [] then Tri Mod else Again)
      else if c \<in> set ''yY'' then (if tl l = [] \<or> tl l = ''es'' then Tri Yes else Again)
      else if c = NUL then Tri oldval
      else if c = CHR ''?'' then Help
      else Again)"

definition show_range :: "symref \<Rightarrow> tristate \<Rightarrow> unit cm" where
  "show_range r oldval =
     cbind (cget (\<lambda>s t. t \<noteq> oldval \<and> sym_tristate_within_range (kst s) r t)) (\<lambda>may.
     cbind (cget (\<lambda>s. s_help (syms (kst s) r))) (\<lambda>help.
       say ((case oldval of No \<Rightarrow> ''N'' | Mod \<Rightarrow> ''M'' | Yes \<Rightarrow> ''Y'') @
            (if may No then ''/n'' else []) @ (if may Mod then ''/m'' else []) @
            (if may Yes then ''/y'' else []) @ (if help \<noteq> None then ''/?'' else []) @ ''] '')))"

definition show_help :: "symref \<Rightarrow> unit cm" where
  "show_help r =
     cbind (cget (\<lambda>s. s_help (syms (kst s) r))) (\<lambda>help.
       say ([NL] @ (case help of None \<Rightarrow> nohelp_text | Some h \<Rightarrow> h) @ [NL]))"

definition strip_line :: "unit cm" where
  "strip_line = cmod (\<lambda>s. s\<lparr>line := strip (line s)\<rparr>)"

fun conf_sym :: "nat \<Rightarrow> calc \<Rightarrow> nat \<Rightarrow> unit cm" where
  "conf_sym 0 calc m = cfail"
| "conf_sym (Suc k) calc m =
     cbind (menu_symbol m) (\<lambda>r.
     cbind (prompt_text m) (\<lambda>txt.
     cbind (cget indent) (\<lambda>ind.
     cbind (cget (\<lambda>s. s_name (syms (kst s) r))) (\<lambda>nm.
     cseq (say (spaces (ind - 1) @ txt @ '' '' @
        (case nm of None \<Rightarrow> [] | Some n \<Rightarrow> ''('' @ n @ '') '') @ ''['')) (
     cbind (cget (\<lambda>s. sym_get_tristate_value (kst s) r)) (\<lambda>oldval.
     cseq (show_range r oldval) (
     cbind (cget (\<lambda>s. sym_get_string_value (syms (kst s)) r)) (\<lambda>def.
     cseq (conf_askvalue k r def) (
     cseq strip_line (
     cbind (cget (\<lambda>s. parse_answer oldval (line s))) (\<lambda>a.
       case a of
         Again \<Rightarrow> conf_sym k calc m
       | Help \<Rightarrow> cseq (show_help r) (conf_sym k calc m)
       | Tri newval \<Rightarrow>
           cbind (kst_run (sym_set_tristate_value calc r newval)) (\<lambda>ok.
             if ok then cret () else cseq (show_help r) (conf_sym k calc m)))))))))))))"

section \<open>Choices\<close>

definition visible_now :: "nat \<Rightarrow> calc \<Rightarrow> nat \<Rightarrow> bool cm" where
  "visible_now k calc m = kst_run (menu_is_visible calc k m)"

text \<open>Decimal output.\<close>

fun decimal :: "nat \<Rightarrow> string" where
  "decimal n = (if n < 10 then [char_of (48 + n)] else decimal (n div 10) @ [char_of (48 + n mod 10)])"

declare decimal.simps [simp del]

definition get_prompt :: "nat \<Rightarrow> string cm" where
  "get_prompt m = cget (\<lambda>s. str_or_null (menu_get_prompt (kst s) m))"

text \<open>The menu of a choice: how many members are shown, and which of them is chosen now.\<close>

fun show_children :: "nat \<Rightarrow> calc \<Rightarrow> cval \<Rightarrow> nat option \<Rightarrow> nat \<Rightarrow> nat \<Rightarrow> (nat \<times> nat) cm" where
  "show_children k calc dsym None cnt def = cret (cnt, def)"
| "show_children 0 calc dsym (Some c) cnt def = cfail"
| "show_children (Suc k) calc dsym (Some c) cnt def =
     cbind (visible_now k calc c) (\<lambda>vis.
     cbind (cget (\<lambda>s. menus (kst s) c)) (\<lambda>x.
     cbind (cget indent) (\<lambda>ind.
     cbind (get_prompt c) (\<lambda>txt.
       if \<not> vis then show_children k calc dsym (m_next x) cnt def
       else (case m_sym x of
           None \<Rightarrow> cseq (say (spaces (ind - 1) @ ''* '' @ txt @ [NL])) (show_children k calc dsym (m_next x) cnt def)
         | Some r \<Rightarrow>
             (let cnt = Suc cnt; here = (dsym = VSym r) in
              cbind (cget (\<lambda>s. s_name (syms (kst s) r))) (\<lambda>nm.
              cbind (cget (\<lambda>s. sym_has_value (kst s) r)) (\<lambda>has.
              cseq (say (spaces (ind - 1) @ (if here then ''>'' else '' '') @ '' '' @ decimal cnt @ ''. '' @ txt @
                 (case nm of None \<Rightarrow> [] | Some n \<Rightarrow> '' ('' @ n @ '')'') @
                 (if \<not> has then '' (NEW)'' else []) @ [NL]))
                (show_children k calc dsym (m_next x) cnt (if here then cnt else def))))))))))"

text \<open>The member with the given number; \<open>--cnt\<close> runs below zero when it was not positive.\<close>

fun pick_child :: "nat \<Rightarrow> calc \<Rightarrow> nat option \<Rightarrow> int \<Rightarrow> nat option cm" where
  "pick_child k calc None cnt = cret None"
| "pick_child 0 calc (Some c) cnt = cfail"
| "pick_child (Suc k) calc (Some c) cnt =
     cbind (cget (\<lambda>s. menus (kst s) c)) (\<lambda>x.
       if m_sym x = None then pick_child k calc (m_next x) cnt
       else cbind (visible_now k calc c) (\<lambda>vis.
         if \<not> vis then pick_child k calc (m_next x) cnt
         else if cnt - 1 = 0 then cret (Some c)
         else pick_child k calc (m_next x) (cnt - 1)))"

text \<open>The number of the answer, or \<open>None\<close> to ask again.\<close>

definition choice_ask :: "nat \<Rightarrow> symref \<Rightarrow> int option cm" where
  "choice_ask def r =
     cseq read_stdin (
     cseq strip_line (
     cbind (cget line) (\<lambda>l.
       if cstr_at l 0 = CHR ''?'' then cseq (show_help r) (cret None)
       else if l = [] then cret (Some (int def))
       else if isdigit (cstr_at l 0) then cret (Some (to_int (strtol 10 l)))
       else cret None)))"

definition choice_number :: "bool \<Rightarrow> nat \<Rightarrow> nat \<Rightarrow> symref \<Rightarrow> int option cm" where
  "choice_number is_new cnt def r =
     cbind (cget mode) (\<lambda>md.
       if md \<in> {ask_new, ask_silent} \<and> \<not> is_new then cseq (say (decimal def @ [NL])) (cret (Some (int def)))
       else if md \<in> {ask_new, ask_silent} then cseq check_stdin (choice_ask def r)
       else if md = ask_all then choice_ask def r
       else cbind (if md = set_random then
                     (if cnt = 0 then cfail else cbind next_random (\<lambda>n. cret (n mod cnt + 1)))
                   else cret def) (\<lambda>def.
              cseq (say (decimal def @ [NL])) (cret (Some (int def)))))"

text \<open>The last character of the line, which is before its start when the line is empty.\<close>

definition last_of_line :: "cstate \<Rightarrow> char" where
  "last_of_line s = (if line s = [] then before_line s else last (line s))"

text \<open>Whether the choice is to be made, after its own value was asked for.\<close>

definition choice_open :: "nat \<Rightarrow> calc \<Rightarrow> nat \<Rightarrow> symref \<Rightarrow> bool cm" where
  "choice_open k calc m r =
     cbind (cget (\<lambda>s. sym_is_changable (kst s) r)) (\<lambda>ch.
       if ch then
         cseq (conf_sym k calc m) (
         cseq (kst_run (\<lambda>st. map_option (\<lambda>st. ((), st)) (calc r st))) (
         cget (\<lambda>s. sym_get_tristate_value (kst s) r = Yes)))
       else
         cbind (cget (\<lambda>s. sym_get_tristate_value (kst s) r)) (\<lambda>t.
         cbind (cget indent) (\<lambda>ind.
         cbind (get_prompt m) (\<lambda>txt.
           cseq (if t = Mod then say (spaces (ind - 1) @ txt @ [NL]) else cret ()) (cret (t = Yes))))))"

text \<open>The number that counts down to the member: from the list just shown.\<close>

definition choice_count :: "nat \<Rightarrow> calc \<Rightarrow> nat \<Rightarrow> symref \<Rightarrow> bool \<Rightarrow> int option cm" where
  "choice_count k calc m r is_new =
     cbind (cget indent) (\<lambda>ind.
     cbind (get_prompt m) (\<lambda>txt.
     cseq (say (spaces (ind - 1) @ txt @ [NL])) (
     cbind (cget (\<lambda>s. sv_val (s_curr (syms (kst s) r)))) (\<lambda>dsym.
     cseq (set_line ''0'') (
     cbind (cget (\<lambda>s. m_list (menus (kst s) m))) (\<lambda>l.
     cbind (show_children k calc dsym l 0 0) (\<lambda>(cnt, def).
     cbind (cget (\<lambda>s. s_help (syms (kst s) r))) (\<lambda>help.
     cseq (say (spaces (ind - 1) @ ''choice'')) (
       if cnt = 1 then cseq (say (''[1]: 1'' @ [NL])) (cret (Some 1))
       else cseq (say (''[1-'' @ decimal cnt @ (if help \<noteq> None then ''?'' else []) @ '']: ''))
              (choice_number is_new cnt def r))))))))))"

section \<open>The walk through the menus\<close>

text \<open>
  \<open>conf\<close>, the lists it visits, \<open>conf_choice\<close> and its loop, and \<open>check_conf\<close> call each other. The
  loop of \<open>conf_choice\<close> repeats until a member is picked.
\<close>

definition show_heading :: "nat \<Rightarrow> unit cm" where
  "show_heading m =
     cbind (cget indent) (\<lambda>ind.
     cbind (cget (\<lambda>s. menu_get_prompt (kst s) m)) (\<lambda>txt.
       case txt of
         None \<Rightarrow> cret ()
       | Some t \<Rightarrow> say (spaces (ind - 1) @ ''*'' @ [NL] @ spaces (ind - 1) @ ''* '' @ t @ [NL] @
                       spaces (ind - 1) @ ''*'' @ [NL])))"

definition prompt_type :: "kstate \<Rightarrow> nat \<Rightarrow> prop_type" where
  "prompt_type st m = (case m_prompt (menus st m) of None \<Rightarrow> P_UNKNOWN | Some p \<Rightarrow> p_type (props st p))"

definition add_indent :: "int \<Rightarrow> unit cm" where
  "add_indent d = cmod (\<lambda>s. s\<lparr>indent := nat (int (indent s) + d)\<rparr>)"

function conf :: "nat \<Rightarrow> calc \<Rightarrow> nat \<Rightarrow> unit cm"
  and conf_list :: "nat \<Rightarrow> calc \<Rightarrow> nat option \<Rightarrow> unit cm"
  and conf_choice :: "nat \<Rightarrow> calc \<Rightarrow> nat \<Rightarrow> bool \<Rightarrow> unit cm"
  and check_conf :: "nat \<Rightarrow> calc \<Rightarrow> nat \<Rightarrow> unit cm"
  and check_list :: "nat \<Rightarrow> calc \<Rightarrow> nat option \<Rightarrow> unit cm" where
  "conf 0 calc m = cfail"
| "conf (Suc k) calc m =
     cbind (visible_now k calc m) (\<lambda>vis.
       if \<not> vis then cret ()
       else
         cbind (cget (\<lambda>s. menus (kst s) m)) (\<lambda>x.
         cbind (cget (\<lambda>s. prompt_type (kst s) m)) (\<lambda>pt.
         cbind (cget (\<lambda>s. mode s = ask_silent \<and> rootEntry s \<noteq> m)) (\<lambda>silent.
           if pt = P_MENU \<and> silent then check_conf k calc m
           else
             cseq (if pt \<in> {P_MENU, P_COMMENT} then show_heading m else cret ()) (
             case m_sym x of
               None \<Rightarrow> conf_list k calc (m_list x)
             | Some r \<Rightarrow>
                 cbind (cget (\<lambda>s. sym_is_choice (kst s) r)) (\<lambda>choice.
                   if choice then
                     cbind (cget (\<lambda>s. \<not> sym_has_value (kst s) r)) (\<lambda>is_new.
                     cbind (choice_open k calc m r) (\<lambda>opn.
                     cseq (if opn then conf_choice k calc m is_new else cret ()) (
                     cbind (cget (\<lambda>s. sym_get_tristate_value (kst s) r)) (\<lambda>t.
                       if t \<noteq> Mod then cret ()
                       else cseq (add_indent 2) (cseq (conf_list k calc (m_list x)) (add_indent (- 2)))))))
                   else
                     cbind (cget (\<lambda>s. s_type (syms (kst s) r))) (\<lambda>ty.
                     cseq (if ty \<in> {S_INT, S_HEX, S_STRING} then conf_string k calc m else conf_sym k calc m) (
                     cbind (cget (\<lambda>s. m_list (menus (kst s) m))) (\<lambda>l.
                     cseq (add_indent 2) (cseq (conf_list k calc l) (add_indent (- 2))))))))))))"
| "conf_list k calc None = cret ()"
| "conf_list 0 calc (Some m) = cfail"
| "conf_list (Suc k) calc (Some m) =
     cseq (conf k calc m) (cbind (cget (\<lambda>s. m_next (menus (kst s) m))) (conf_list k calc))"
| "conf_choice 0 calc m is_new = cfail"
| "conf_choice (Suc k) calc m is_new =
     cbind (menu_symbol m) (\<lambda>r.
     cbind (choice_count k calc m r is_new) (\<lambda>cnt.
       case cnt of
         None \<Rightarrow> conf_choice k calc m is_new
       | Some n \<Rightarrow>
           cbind (cget (\<lambda>s. m_list (menus (kst s) m))) (\<lambda>l.
           cbind (pick_child k calc l n) (\<lambda>c.
             case c of
               None \<Rightarrow> conf_choice k calc m is_new
             | Some chd \<Rightarrow>
                 cbind (menu_symbol chd) (\<lambda>cr.
                 cbind (cget last_of_line) (\<lambda>z.
                   if z = CHR ''?'' then cseq (show_help cr) (conf_choice k calc m is_new)
                   else
                     cseq (kst_run (sym_set_choice_value calc r cr)) (
                     cbind (cget (\<lambda>s. m_list (menus (kst s) chd))) (\<lambda>cl.
                       case cl of
                         None \<Rightarrow> cret ()
                       | Some y \<Rightarrow>
                           cseq (add_indent 2) (cseq (conf k calc y) (add_indent (- 2)))))))))))"
| "check_conf 0 calc m = cfail"
| "check_conf (Suc k) calc m =
     cbind (visible_now k calc m) (\<lambda>vis.
       if \<not> vis then cret ()
       else
         cbind (cget (\<lambda>s. m_sym (menus (kst s) m))) (\<lambda>sr.
           case sr of
             None \<Rightarrow> cbind (cget (\<lambda>s. m_list (menus (kst s) m))) (check_list k calc)
           | Some r \<Rightarrow>
               cbind (cget (\<lambda>s. sym_is_changable (kst s) r \<and> \<not> sym_has_value (kst s) r)) (\<lambda>new.
               cseq (if new then
                       cbind (cget conf_cnt) (\<lambda>n.
                       cseq (cmod (\<lambda>s. s\<lparr>conf_cnt := Suc n\<rparr>)) (
                       cseq (if n = 0 then say (''*'' @ [NL] @ ''* Restart config...'' @ [NL] @ ''*'' @ [NL]) else cret ()) (
                       cbind (cget (\<lambda>s. menu_get_parent_menu k (kst s) m)) (\<lambda>p.
                       cbind (need p) (\<lambda>p.
                       cseq (cmod (\<lambda>s. s\<lparr>rootEntry := p\<rparr>)) (conf k calc p))))))
                     else cret ()) (
               cbind (cget (\<lambda>s. sym_is_choice (kst s) r \<and> sym_get_tristate_value (kst s) r \<noteq> Mod)) (\<lambda>stop.
                 if stop then cret ()
                 else cbind (cget (\<lambda>s. m_list (menus (kst s) m))) (check_list k calc))))))"
| "check_list k calc None = cret ()"
| "check_list 0 calc (Some m) = cfail"
| "check_list (Suc k) calc (Some m) =
     cseq (check_conf k calc m) (cbind (cget (\<lambda>s. m_next (menus (kst s) m))) (check_list k calc))"
  by pat_completeness auto

termination conf
  by (relation "measure (\<lambda>x. case x of
      Inl (Inl (k, calc, m)) \<Rightarrow> k | Inl (Inr (k, calc, l)) \<Rightarrow> k | Inr (Inl (k, calc, m, new)) \<Rightarrow> k
    | Inr (Inr (Inl (k, calc, m))) \<Rightarrow> k | Inr (Inr (Inr (k, calc, l))) \<Rightarrow> k)") simp_all

section \<open>The program\<close>

text \<open>The options: a mode, and the file of \<open>-D\<close>; what is left of the arguments is the source file.\<close>

record options =
  opt_mode :: input_mode
  opt_tty :: bool
  opt_defconfig :: "string option"
  opt_rest :: "string list"

datatype args = Usage int | Options options

definition parse_args :: "string list \<Rightarrow> args" where
  "parse_args av =
     (case av of
        [] \<Rightarrow> Options \<lparr>opt_mode = ask_all, opt_tty = False, opt_defconfig = None, opt_rest = []\<rparr>
      | a # rest \<Rightarrow>
          if cstr_at a 0 \<noteq> CHR ''-'' then Options \<lparr>opt_mode = ask_all, opt_tty = False, opt_defconfig = None, opt_rest = av\<rparr>
          else
            (let c = cstr_at a 1;
                 o0 = \<lparr>opt_mode = ask_all, opt_tty = False, opt_defconfig = None, opt_rest = rest\<rparr> in
             if c = CHR ''o'' then Options (o0\<lparr>opt_mode := ask_new\<rparr>)
             else if c = CHR ''s'' then Options (o0\<lparr>opt_mode := ask_silent, opt_tty := True\<rparr>)
             else if c = CHR ''d'' then Options (o0\<lparr>opt_mode := set_default\<rparr>)
             else if c = CHR ''D'' then
               (case rest of [] \<Rightarrow> Usage 1
                | f # rest \<Rightarrow> Options (o0\<lparr>opt_mode := set_default, opt_defconfig := Some f, opt_rest := rest\<rparr>))
             else if c = CHR ''n'' then Options (o0\<lparr>opt_mode := set_no\<rparr>)
             else if c = CHR ''m'' then Options (o0\<lparr>opt_mode := set_mod\<rparr>)
             else if c = CHR ''y'' then Options (o0\<lparr>opt_mode := set_yes\<rparr>)
             else if c = CHR ''r'' then Options (o0\<lparr>opt_mode := set_random\<rparr>)
             else if c \<in> set ''h?'' then Usage 0
             else Options o0))"

record conf_env =
  ce_open :: "string \<Rightarrow> string option"
  ce_getenv :: "string \<Rightarrow> string option"
  ce_exists :: "string \<Rightarrow> bool"
  ce_isdir :: "string \<Rightarrow> bool"
  ce_can_write :: "string \<Rightarrow> bool"
  ce_can_rename :: "string \<Rightarrow> string \<Rightarrow> bool"
  ce_pid :: string
  ce_tty :: bool
  ce_parse :: "string option \<Rightarrow> kstate"

text \<open>Reading the configuration to start from; \<open>ce_parse\<close> is the parser of the source files.\<close>

definition read_config :: "conf_env \<Rightarrow> calc \<Rightarrow> string option \<Rightarrow> int cm" where
  "read_config env calc name s =
     (case conf_read (ce_open env) calc name (kst s) of
        None \<Rightarrow> None
      | Some (n, Exited) \<Rightarrow> Some (Exit 1)
      | Some (n, Done st) \<Rightarrow> Some (Val n (s\<lparr>kst := st\<rparr>)))"

definition load_config :: "conf_env \<Rightarrow> calc \<Rightarrow> options \<Rightarrow> unit cm" where
  "load_config env calc opts =
     (if opt_mode opts = set_default then
        cbind (case opt_defconfig opts of
                 Some f \<Rightarrow> cret f
               | None \<Rightarrow> kst_run (conf_get_default_confname (ce_getenv env) (ce_exists env) calc)) (\<lambda>f.
        cbind (read_config env calc (Some f)) (\<lambda>n. if n \<noteq> 0 then (\<lambda>s. Some (Exit 1)) else cret ()))
      else if opt_mode opts = ask_silent \<and> \<not> ce_exists env ''.config'' then (\<lambda>s. Some (Exit 1))
      else if opt_mode opts \<in> {ask_silent, ask_all, ask_new} then
        cbind (read_config env calc None) (\<lambda>_. cret ())
      else cret ())"

text \<open>\<open>do { conf_cnt = 0; check_conf(&rootmenu); } while (conf_cnt)\<close>, bounded.\<close>

fun check_loop :: "nat \<Rightarrow> calc \<Rightarrow> unit cm" where
  "check_loop 0 calc = cfail"
| "check_loop (Suc k) calc =
     cseq (cmod (\<lambda>s. s\<lparr>conf_cnt := 0\<rparr>)) (
     cseq (check_conf k calc rootmenu) (
     cbind (cget conf_cnt) (\<lambda>n. if n \<noteq> 0 then check_loop k calc else cret ())))"

definition ask_everything :: "nat \<Rightarrow> calc \<Rightarrow> unit cm" where
  "ask_everything k calc =
     cbind (cget mode) (\<lambda>md.
       if md = ask_silent then cret ()
       else cseq (cmod (\<lambda>s. s\<lparr>rootEntry := rootmenu\<rparr>)) (
            cseq (conf k calc rootmenu) (
            if md = ask_all then cmod (\<lambda>s. s\<lparr>mode := ask_silent, valid_stdin := True\<rparr>) else cret ())))"

definition write_config :: "nat \<Rightarrow> conf_env \<Rightarrow> calc \<Rightarrow> int cm" where
  "write_config k env calc s =
     (case conf_write (ce_isdir env) (ce_can_write env) (ce_can_rename env) (ce_pid env) k calc None (kst s) of
        None \<Rightarrow> None
      | Some (r, st) \<Rightarrow> Some (Val (if wr_ret r \<noteq> 0 then 1 else 0) (s\<lparr>kst := st\<rparr>)))"

definition conf_main :: "nat \<Rightarrow> conf_env \<Rightarrow> string list \<Rightarrow> int cm" where
  "conf_main k env av s =
     (case parse_args av of
        Usage n \<Rightarrow> Some (Exit n)
      | Options opts \<Rightarrow>
          (let s = s\<lparr>mode := opt_mode opts, valid_stdin := (if opt_tty opts then ce_tty env else True),
                     kst := ce_parse env (case opt_rest opts of [] \<Rightarrow> None | n # _ \<Rightarrow> Some n)\<rparr>;
               calc = sym_calc_value k
           in cseq (load_config env calc opts)
                (cseq (ask_everything k calc) (cseq (check_loop k calc) (write_config k env calc))) s))"

end
