(* ===== verification/Kconfig_Conf_Props.thy ===== *)
theory Kconfig_Conf_Props
  imports Kconfig_Conf Kconfig_Props
begin

text \<open>
  Asking for a boolean or tristate symbol: the rule modes answer in one round, and with typed
  answers every line that is no acceptable answer costs one round and changes nothing.
\<close>

section \<open>The monad and one round\<close>

lemma cbind_simps [simp]:
  "cbind (cret x) f s = f x s" "cbind (cget g) f s = f (g s) s" "cbind (cmod h) fu s = fu () (h s)"
  "cbind cfail f s = None" "cbind (say t) fu s = fu () (s\<lparr>out := out s @ t\<rparr>)"
  "cbind (set_line l) fu s = fu () (s\<lparr>line := l\<rparr>)"
  "cbind strip_line fu s = fu () (s\<lparr>line := strip (line s)\<rparr>)"
  by (simp_all add: cbind_def cret_def cget_def cmod_def cfail_def say_def set_line_def strip_line_def)

lemma cbind_assoc [simp]: "cbind (cbind m f) g s = cbind m (\<lambda>x. cbind (f x) g) s"
  by (simp add: cbind_def split: option.splits res.splits)

lemma cbind_val: "m s = Some (Val x s') \<Longrightarrow> cbind m f s = f x s'"
  by (simp add: cbind_def)

lemma cseq_eq: "cseq m n s = cbind m (\<lambda>_. n) s"
  by (simp add: cseq_def)

lemma set_tri_refused:
  "sym_tri (syms st) r \<noteq> v \<Longrightarrow> \<not> sym_tristate_within_range st r v \<Longrightarrow>
     sym_set_tristate_value calc r v st = Some (False, st)"
  by (simp add: sym_set_tristate_value_def sym_get_tristate_value_def sym_tri_def Let_def)

lemma set_tri_taken:
  assumes "sym_tri (syms st) r = v \<or> sym_tristate_within_range st r v"
    "sym_set_tristate_value calc r v st = Some (ok, st')"
  shows ok
  using assms by (auto simp: sym_set_tristate_value_def sym_get_tristate_value_def sym_tri_def Let_def
      bind_Some_iff split: if_splits)

text \<open>The text of the question and of its help, and what follows the answer.\<close>

definition question :: "cstate \<Rightarrow> nat \<Rightarrow> symref \<Rightarrow> string" where
  "question s m r =
     spaces (indent s - 1) @ str_or_null (p_text (props (kst s) (the (m_prompt (menus (kst s) m))))) @ '' '' @
     (case s_name (syms (kst s) r) of None \<Rightarrow> [] | Some n \<Rightarrow> ''('' @ n @ '') '') @ ''['' @
     (let oldval = sym_tri (syms (kst s)) r; may = (\<lambda>t. t \<noteq> oldval \<and> sym_tristate_within_range (kst s) r t) in
      (case oldval of No \<Rightarrow> ''N'' | Mod \<Rightarrow> ''M'' | Yes \<Rightarrow> ''Y'') @
      (if may No then ''/n'' else []) @ (if may Mod then ''/m'' else []) @
      (if may Yes then ''/y'' else []) @ (if s_help (syms (kst s) r) \<noteq> None then ''/?'' else []) @ ''] '')"

definition help_text :: "cstate \<Rightarrow> symref \<Rightarrow> string" where
  "help_text s r = [NL] @ (case s_help (syms (kst s) r) of None \<Rightarrow> nohelp_text | Some h \<Rightarrow> h) @ [NL]"

lemma show_help_val [simp]: "cbind (show_help r) f s = f () (s\<lparr>out := out s @ help_text s r\<rparr>)"
  by (simp add: show_help_def help_text_def)

definition asks :: "cstate \<Rightarrow> nat \<Rightarrow> symref \<Rightarrow> bool" where
  "asks s m r \<longleftrightarrow> m_sym (menus (kst s) m) = Some r \<and> m_prompt (menus (kst s) m) \<noteq> None"

definition act :: "nat \<Rightarrow> calc \<Rightarrow> nat \<Rightarrow> symref \<Rightarrow> tri_answer \<Rightarrow> unit cm" where
  "act k calc m r a =
     (case a of
        Again \<Rightarrow> conf_sym k calc m
      | Help \<Rightarrow> cseq (show_help r) (conf_sym k calc m)
      | Tri newval \<Rightarrow>
          cbind (kst_run (sym_set_tristate_value calc r newval)) (\<lambda>ok.
            if ok then cret () else cseq (show_help r) (conf_sym k calc m)))"

lemma conf_sym_round:
  assumes "asks s m r"
    "conf_askvalue k r (sym_get_string_value (syms (kst s)) r) (s\<lparr>out := out s @ question s m r\<rparr>) = Some (Val () s')"
  shows "conf_sym (Suc k) calc m s =
    act k calc m r (parse_answer (sym_tri (syms (kst s)) r) (strip (line s'))) (s'\<lparr>line := strip (line s')\<rparr>)"
proof -
  obtain p where p: "m_prompt (menus (kst s) m) = Some p" using assms(1) by (auto simp: asks_def)
  have q: "out s @ question s m r = ((out s @ (spaces (indent s - 1) @ str_or_null (p_text (props (kst s) p)) @ '' '' @
      (case s_name (syms (kst s) r) of None \<Rightarrow> [] | Some n \<Rightarrow> ''('' @ n @ '') '') @ ''['')) @
     ((case sym_tri (syms (kst s)) r of No \<Rightarrow> ''N'' | Mod \<Rightarrow> ''M'' | Yes \<Rightarrow> ''Y'') @
      (if No \<noteq> sym_tri (syms (kst s)) r \<and> sym_tristate_within_range (kst s) r No then ''/n'' else []) @
      (if Mod \<noteq> sym_tri (syms (kst s)) r \<and> sym_tristate_within_range (kst s) r Mod then ''/m'' else []) @
      (if Yes \<noteq> sym_tri (syms (kst s)) r \<and> sym_tristate_within_range (kst s) r Yes then ''/y'' else []) @
      (if s_help (syms (kst s) r) \<noteq> None then ''/?'' else []) @ ''] ''))"
    by (simp add: question_def p Let_def)
  show ?thesis
    using assms unfolding q
    by (simp add: asks_def menu_symbol_def need_def prompt_text_def p show_range_def cseq_eq act_def
        cbind_val [of "menu_symbol m" s r s] cbind_val [of "prompt_text m" s _ s] sym_get_tristate_value_def
        sym_tri_def cret_def cbind_val [where m = "conf_askvalue _ _ _"])
qed


declare conf_sym.simps [simp del]

section \<open>Answers by rule\<close>

definition rule_wants :: "input_mode \<Rightarrow> bool \<Rightarrow> tristate list" where
  "rule_wants md tri =
     (let weak = (if tri then Mod else Yes) in
      case md of set_yes \<Rightarrow> [Yes, weak, No] | set_mod \<Rightarrow> [weak, No] | set_no \<Rightarrow> [No] | _ \<Rightarrow> [])"

definition rule_value :: "kstate \<Rightarrow> symref \<Rightarrow> input_mode \<Rightarrow> tristate option" where
  "rule_value st r md =
     (if md = set_default \<or> \<not> sym_is_changable st r then Some (sym_tri (syms st) r)
      else find (sym_tristate_within_range st r) (rule_wants md (sym_get_type st r = S_TRISTATE)))"

lemma parse_tri [simp]: "parse_answer old (strip [tri_char v, NL]) = Tri v" "parse_answer old (strip [NL]) = Tri old"
  by (cases v; simp add: parse_answer_def strip_def tri_char_def isspace_def NL_def cstr_at_def Let_def NUL_def)+

lemma rule_value_ok:
  assumes "rule_value st r md = Some v"
  shows "sym_tri (syms st) r = v \<or> sym_tristate_within_range st r v"
  using assms by (auto simp: rule_value_def find_Some_iff split: if_splits)

lemma by_rule_wants:
  assumes "find (sym_tristate_within_range (kst s) r) (rule_wants (mode s) (type = S_TRISTATE)) = Some v"
  shows "by_rule k type r s = answer v s"
proof (cases "mode s")
  case set_yes
  then show ?thesis using assms
    by (auto simp: rule_wants_def by_rule_def rule_yes_def rule_mod_def rule_no_def Let_def split: if_splits)
next
  case set_mod
  then show ?thesis using assms
    by (auto simp: rule_wants_def by_rule_def rule_mod_def rule_no_def Let_def split: if_splits)
next
  case set_no
  then show ?thesis using assms by (auto simp: rule_wants_def by_rule_def rule_no_def split: if_splits)
qed (use assms in \<open>simp_all add: rule_wants_def\<close>)

lemma range_type: "sym_tristate_within_range st r v \<Longrightarrow> sym_get_type st r \<in> {S_BOOLEAN, S_TRISTATE}"
  by (auto simp: sym_tristate_within_range_def Let_def split: if_splits)

lemma askvalue_rule:
  assumes "mode s \<notin> {ask_all, ask_new, ask_silent}" "rule_value (kst s) r (mode s) = Some v"
  shows "\<exists>l t. conf_askvalue k r def s = Some (Val () (s\<lparr>line := l, out := out s @ t\<rparr>)) \<and>
    parse_answer (sym_tri (syms (kst s)) r) (strip l) = Tri v"
proof (cases "mode s = set_default \<or> \<not> sym_is_changable (kst s) r")
  case True
  then have "\<exists>t. conf_askvalue k r def s = Some (Val () (s\<lparr>line := [NL], out := out s @ t\<rparr>))"
    using assms(1) by (auto simp: conf_askvalue_def cseq_eq say_def cmod_def)
  then show ?thesis using True assms(2) by (auto simp: rule_value_def)
next
  case False
  then have f: "find (sym_tristate_within_range (kst s) r)
      (rule_wants (mode s) (sym_get_type (kst s) r = S_TRISTATE)) = Some v"
    using assms(2) by (simp add: rule_value_def)
  then have "sym_get_type (kst s) r \<in> {S_BOOLEAN, S_TRISTATE}"
    by (auto simp: find_Some_iff dest: range_type)
  then have "\<exists>t. conf_askvalue k r def s = Some (Val () (s\<lparr>line := [tri_char v, NL], out := out s @ t\<rparr>))"
    using assms(1) False f
    by (auto simp: conf_askvalue_def cseq_eq cbind_def by_rule_wants answer_def set_line_def show_line_def
        say_def cmod_def cget_def cret_def)
  then show ?thesis by fastforce
qed

definition demo_ask :: "input_mode \<Rightarrow> string \<Rightarrow> cstate" where
  "demo_ask md inp =
     \<lparr>kst = demo_st\<lparr>syms := demo_tab(SymPtr 0 := (mk_sym ''A'' S_BOOLEAN ''n'' No {SYMBOL_NEW})\<lparr>s_visible := Yes\<rparr>),
        menus := (\<lambda>_. demo_menu\<lparr>m_sym := Some (SymPtr 0), m_prompt := Some 0\<rparr>)\<rparr>,
      mode = md, valid_stdin = True, indent = 1, conf_cnt = 0, line = [], before_line = NUL, rootEntry = 0,
      stdin_text = inp, random_seq = (\<lambda>_. 0), random_pos = 0, out = []\<rparr>"

lemma demo_ask_sym:
  "s_name (syms (kst (demo_ask md inp)) (SymPtr 0)) = Some ''A''" "sym_tri (syms (kst (demo_ask md inp))) (SymPtr 0) = No"
  "asks (demo_ask md inp) 0 (SymPtr 0)" "sym_is_changable (kst (demo_ask md inp)) (SymPtr 0)"
  "sym_tristate_within_range (kst (demo_ask md inp)) (SymPtr 0) Yes"
  "\<not> sym_tristate_within_range (kst (demo_ask md inp)) (SymPtr 0) Mod"
  by (simp_all add: demo_ask_def mk_sym_def sym_tri_def asks_def demo_menu_def demo_st_def sym_is_changable_def
      sym_tristate_within_range_def sym_get_type_def sym_is_choice_value_def Let_def less_tristate_def less_eq_tristate_def)

lemma demo_ask_set:
  "map_option (\<lambda>(ok, st'). sv_tri (s_user (syms st' (SymPtr 0))))
     (sym_set_tristate_value (sym_calc_value 1) (SymPtr 0) Yes (kst (demo_ask md inp))) = Some Yes"
  by code_simp

text \<open>C14: With \<open>-d\<close>, \<open>-y\<close>, \<open>-m\<close> or \<open>-n\<close>, asking for a boolean or tristate symbol takes one round:
  whatever the engine is, the answer is the first value of the rule that is in range (the present
  one for \<open>-d\<close> and for a symbol that cannot be changed), it is not refused, and besides the
  symbol engine only the line and the output change.\<close>

theorem conf_sym_by_rule:
  assumes "asks s m r" "mode s \<notin> {ask_all, ask_new, ask_silent}" "rule_value (kst s) r (mode s) = Some v"
  shows "\<exists>l t. conf_sym (Suc k) calc m s =
    map_option (\<lambda>(_, st'). Val () (s\<lparr>kst := st', line := l, out := out s @ t\<rparr>))
      (sym_set_tristate_value calc r v (kst s))"
proof -
  let ?s = "s\<lparr>out := out s @ question s m r\<rparr>"
  obtain l t where a: "conf_askvalue k r (sym_get_string_value (syms (kst s)) r) ?s =
      Some (Val () (?s\<lparr>line := l, out := out ?s @ t\<rparr>))" "parse_answer (sym_tri (syms (kst s)) r) (strip l) = Tri v"
    using askvalue_rule [of ?s r v k "sym_get_string_value (syms (kst s)) r"] assms(2,3) by auto
  have "conf_sym (Suc k) calc m s = act k calc m r (Tri v) (s\<lparr>line := strip l, out := out s @ question s m r @ t\<rparr>)"
    using conf_sym_round [OF assms(1) a(1), of calc] a(2) by (cases s) simp
  also have "\<dots> = map_option (\<lambda>(_, st'). Val () (s\<lparr>kst := st', line := strip l, out := out s @ question s m r @ t\<rparr>))
      (sym_set_tristate_value calc r v (kst s))"
    using set_tri_taken [OF rule_value_ok [OF assms(3)]]
    by (auto simp: act_def cbind_def kst_run_def cret_def split: option.splits)
  finally show ?thesis by blast
qed

theorem conf_sym_by_rule_witness:
  "\<exists>s'. conf_sym 1 (sym_calc_value 1) 0 (demo_ask set_yes []) = Some (Val () s') \<and>
     sv_tri (s_user (syms (kst s') (SymPtr 0))) = Yes"
proof -
  have v: "rule_value (kst (demo_ask set_yes [])) (SymPtr 0) (mode (demo_ask set_yes [])) = Some Yes"
    using demo_ask_sym(4,5) [of set_yes] by (simp add: rule_value_def rule_wants_def demo_ask_def)
  have m: "mode (demo_ask set_yes []) \<notin> {ask_all, ask_new, ask_silent}" by (simp add: demo_ask_def)
  from conf_sym_by_rule [OF demo_ask_sym(3) m v, of 0 "sym_calc_value 1"] demo_ask_set [of set_yes "[]"]
  show ?thesis by (auto simp: split_beta)
qed

section \<open>Typed answers\<close>

text \<open>A line of input that does not end the question: no answer, a cry for help, or a value out of range.\<close>

definition rejected :: "kstate \<Rightarrow> symref \<Rightarrow> string \<Rightarrow> bool" where
  "rejected st r l \<longleftrightarrow>
     (case parse_answer (sym_tri (syms st) r) (strip l) of
        Tri v \<Rightarrow> v \<noteq> sym_tri (syms st) r \<and> \<not> sym_tristate_within_range st r v | _ \<Rightarrow> True)"

definition input_line :: "string \<Rightarrow> bool" where
  "input_line l \<longleftrightarrow> (\<exists>b. l = b @ [NL] \<and> NL \<notin> set b \<and> length b < 127)"

definition awaits :: "cstate \<Rightarrow> symref \<Rightarrow> bool" where
  "awaits s r \<longleftrightarrow> sym_is_changable (kst s) r \<and>
     (mode s = ask_all \<or>
      mode s \<in> {ask_new, ask_silent} \<and> \<not> sym_has_value (kst s) r \<and> (valid_stdin s \<or> mode s \<noteq> ask_silent))"

lemma fgets_input:
  assumes "input_line l"
  shows "fgets 127 (l @ rest) = (l, rest)"
proof -
  obtain b where b: "l = b @ [NL]" "NL \<notin> set b" "length b < 127" using assms by (auto simp: input_line_def)
  show ?thesis using fgets_line [OF b(2,3), of rest] b(1) by simp
qed

lemma read_input: "input_line l \<Longrightarrow> stdin_text s = l @ rest \<Longrightarrow>
    read_stdin s = Some (Val () (s\<lparr>line := l, stdin_text := rest\<rparr>))"
  by (auto simp: read_stdin_def fgets_input Let_def) (auto simp: input_line_def)

lemma askvalue_input:
  assumes "awaits s r" "input_line l" "stdin_text s = l @ rest"
  shows "\<exists>t. conf_askvalue k r def s = Some (Val () (s\<lparr>line := l, out := out s @ t, stdin_text := rest\<rparr>))"
proof -
  define s1 where "s1 = s\<lparr>out := out s @ (if sym_has_value (kst s) r then [] else ''(NEW) ''), line := [NL]\<rparr>"
  have "stdin_text s1 = l @ rest" using assms(3) by (simp add: s1_def)
  note i = read_input [OF assms(2) this]
  have "conf_askvalue k r def s = read_stdin s1"
    using assms(1) i by (auto simp: awaits_def conf_askvalue_def cseq_eq check_stdin_def s1_def cbind_def [of check_stdin])
  then have "conf_askvalue k r def s = Some (Val () (s1\<lparr>line := l, stdin_text := rest\<rparr>))" unfolding i .
  then show ?thesis unfolding s1_def
    by (intro exI [of _ "if sym_has_value (kst s) r then [] else ''(NEW) ''"]) (cases s, simp)
qed


lemma typed_round:
  assumes "asks s m r" "awaits s r" "input_line l" "stdin_text s = l @ rest"
  shows "\<exists>t. conf_sym (Suc k) calc m s = act k calc m r (parse_answer (sym_tri (syms (kst s)) r) (strip l))
    (s\<lparr>line := strip l, out := out s @ t, stdin_text := rest\<rparr>)"
proof -
  let ?s = "s\<lparr>out := out s @ question s m r\<rparr>"
  obtain t where "conf_askvalue k r (sym_get_string_value (syms (kst s)) r) ?s =
      Some (Val () (?s\<lparr>line := l, out := out ?s @ t, stdin_text := rest\<rparr>))"
    using askvalue_input [of ?s r l rest k "sym_get_string_value (syms (kst s)) r"] assms(2-4)
    by (auto simp: awaits_def)
  from conf_sym_round [OF assms(1) this] show ?thesis
    by (intro exI [of _ "question s m r @ t"]) (cases s, simp)
qed

lemma act_rejected:
  assumes "rejected (kst s) r l"
  shows "\<exists>t. act k calc m r (parse_answer (sym_tri (syms (kst s)) r) (strip l)) s =
    conf_sym k calc m (s\<lparr>out := out s @ t\<rparr>)"
proof (cases "parse_answer (sym_tri (syms (kst s)) r) (strip l)")
  case (Tri v)
  then have "sym_set_tristate_value calc r v (kst s) = Some (False, kst s)"
    using assms by (intro set_tri_refused) (auto simp: rejected_def)
  then have "cbind (kst_run (sym_set_tristate_value calc r v)) g s = g False s" for g :: "bool \<Rightarrow> unit cm"
    by (simp add: cbind_def kst_run_def)
  then show ?thesis using Tri by (auto simp: act_def cseq_eq)
next
  case Help
  then show ?thesis by (auto simp: act_def cseq_eq)
next
  case Again
  then have "act k calc m r (parse_answer (sym_tri (syms (kst s)) r) (strip l)) s =
      conf_sym k calc m (s\<lparr>out := out s @ []\<rparr>)" by (simp add: act_def)
  then show ?thesis by blast
qed

text \<open>Typed answers: lines that are no answer, ask for help, or name a value out of range are
  asked again, one round each, and leave the configuration as it is; the first acceptable line ends
  the question, with its value set, and the rest of the input is left unread.\<close>

theorem conf_sym_typed:
  assumes "asks s m r" "awaits s r" "stdin_text s = concat ls @ l @ rest"
    "\<forall>x \<in> set ls. input_line x \<and> rejected (kst s) r x" "input_line l"
    "parse_answer (sym_tri (syms (kst s)) r) (strip l) = Tri v"
    "v = sym_tri (syms (kst s)) r \<or> sym_tristate_within_range (kst s) r v" "length ls < k"
  shows "\<exists>x t. conf_sym k calc m s =
    map_option (\<lambda>(_, st'). Val () (s\<lparr>kst := st', line := x, out := out s @ t, stdin_text := rest\<rparr>))
      (sym_set_tristate_value calc r v (kst s))"
  using assms
proof (induction ls arbitrary: s k)
  case Nil
  then obtain k' where k: "k = Suc k'" by (cases k) auto
  from Nil have "stdin_text s = l @ rest" by simp
  from typed_round [OF Nil.prems(1,2,5) this, of k' calc] obtain t where
    "conf_sym k calc m s = act k' calc m r (Tri v) (s\<lparr>line := strip l, out := out s @ t, stdin_text := rest\<rparr>)"
    using Nil.prems(6) k by auto
  also have "\<dots> = map_option (\<lambda>(_, st'). Val () (s\<lparr>kst := st', line := strip l, out := out s @ t, stdin_text := rest\<rparr>))
      (sym_set_tristate_value calc r v (kst s))"
    using set_tri_taken [of "kst s" r v calc] Nil.prems(7)
    by (auto simp: act_def cbind_def kst_run_def cret_def split: option.splits)
  finally show ?case by blast
next
  case (Cons x ls)
  then obtain k' where k: "k = Suc k'" by (cases k) auto
  let ?rest = "concat ls @ l @ rest"
  have x: "input_line x" "rejected (kst s) r x" "stdin_text s = x @ ?rest" using Cons.prems by auto
  from typed_round [OF Cons.prems(1,2) x(1,3), of k' calc] obtain t where
    1: "conf_sym k calc m s = act k' calc m r (parse_answer (sym_tri (syms (kst s)) r) (strip x))
      (s\<lparr>line := strip x, out := out s @ t, stdin_text := ?rest\<rparr>)" using k by blast
  from act_rejected [of "s\<lparr>line := strip x, out := out s @ t, stdin_text := ?rest\<rparr>" r x k' calc m] x(2)
  obtain t' where "act k' calc m r (parse_answer (sym_tri (syms (kst s)) r) (strip x))
      (s\<lparr>line := strip x, out := out s @ t, stdin_text := ?rest\<rparr>) =
      conf_sym k' calc m (s\<lparr>line := strip x, out := out s @ t @ t', stdin_text := ?rest\<rparr>)"
    by (cases s) auto
  with 1 have 2: "conf_sym k calc m s =
      conf_sym k' calc m (s\<lparr>line := strip x, out := out s @ t @ t', stdin_text := ?rest\<rparr>)" by simp
  let ?s = "s\<lparr>line := strip x, out := out s @ t @ t', stdin_text := ?rest\<rparr>"
  have "\<exists>y u. conf_sym k' calc m ?s =
    map_option (\<lambda>(_, st'). Val () (?s\<lparr>kst := st', line := y, out := out ?s @ u, stdin_text := rest\<rparr>))
      (sym_set_tristate_value calc r v (kst ?s))"
    by (rule Cons.IH) (use Cons.prems k in \<open>auto simp: asks_def awaits_def\<close>)
  then show ?case unfolding 2 by (auto intro: exI [of _ "t @ t' @ _"])
qed

theorem conf_sym_typed_witness:
  "\<exists>s'. conf_sym 3 (sym_calc_value 1) 0 (demo_ask ask_all (''what'' @ [NL] @ ''m'' @ [NL] @ ''yes'' @ [NL] @ ''n'')) =
       Some (Val () s') \<and> sv_tri (s_user (syms (kst s') (SymPtr 0))) = Yes \<and> stdin_text s' = ''n''"
proof -
  let ?s = "demo_ask ask_all (''what'' @ [NL] @ ''m'' @ [NL] @ ''yes'' @ [NL] @ ''n'')"
  have p: "parse_answer No (strip (''what'' @ [NL])) = Again" "parse_answer No (strip (''m'' @ [NL])) = Tri Mod"
    "parse_answer No (strip (''yes'' @ [NL])) = Tri Yes" by code_simp+
  have "input_line (b @ [NL])" if "NL \<notin> set b" "length b < 127" for b using that by (auto simp: input_line_def)
  note i = this [of "''what''"] this [of "''m''"] this [of "''yes''"]
  have r: "\<forall>x \<in> set [''what'' @ [NL], ''m'' @ [NL]]. input_line x \<and> rejected (kst ?s) (SymPtr 0) x"
    using p(1,2) i(1,2) demo_ask_sym(2,6) by (simp add: rejected_def NL_def)
  have a: "awaits ?s (SymPtr 0)" "stdin_text ?s = concat [''what'' @ [NL], ''m'' @ [NL]] @ (''yes'' @ [NL]) @ ''n''"
    using demo_ask_sym(4) by (simp_all add: awaits_def demo_ask_def)
  have l: "length [''what'' @ [NL], ''m'' @ [NL]] < 3" "input_line (''yes'' @ [NL])" using i(3) by (simp_all add: NL_def)
  have y: "parse_answer (sym_tri (syms (kst ?s)) (SymPtr 0)) (strip (''yes'' @ [NL])) = Tri Yes"
    using p(3) demo_ask_sym(2) by simp
  have w: "Yes = sym_tri (syms (kst ?s)) (SymPtr 0) \<or> sym_tristate_within_range (kst ?s) (SymPtr 0) Yes"
    using demo_ask_sym(5) by simp
  from conf_sym_typed [OF demo_ask_sym(3) a r l(2) y w l(1), of "sym_calc_value 1"]
    demo_ask_set [of ask_all "''what'' @ [NL] @ ''m'' @ [NL] @ ''yes'' @ [NL] @ ''n''"]
  show ?thesis by (auto simp: split_beta)
qed

end
