(* ===== verification/Bytes.thy ===== *)
theory Bytes
  imports Prelude
begin

text \<open>
  Memory as lists of bytes: words in little and big endian order, copying into a buffer, and
  cutting a list into blocks of a fixed length.
\<close>

unbundle bit_operations_syntax

section \<open>Words as signed numbers\<close>

lemma sint_small: "unat (w :: u32) < 2 ^ 31 \<Longrightarrow> sint w = int (unat w)"
proof -
  assume a: "unat w < 2 ^ 31"
  have u: "uint w = int (unat w)" by simp
  have "uint w < 2 ^ 31" unfolding u using a by (metis of_nat_less_iff of_nat_numeral of_nat_power)
  moreover have "0 \<le> uint w" by simp
  ultimately have "signed_take_bit 31 (uint w) = uint w" by (intro signed_take_bit_int_eq_self) linarith+
  then show ?thesis unfolding sint_uint u by simp
qed

lemma sint_diff_small:
  assumes "unat (a :: u32) < 2 ^ 31" "unat b < 2 ^ 31"
  shows "sint (a - b) = int (unat a) - int (unat b)"
proof -
  have s: "sint a = int (unat a)" "sint b = int (unat b)" using assms sint_small by blast+
  have "sint a < 2 ^ 31" "sint b < 2 ^ 31" "0 \<le> sint a" "0 \<le> sint b"
    using sint_lt [of a] sint_lt [of b] s by simp_all
  then have "- (2 ^ 31) \<le> sint a - sint b" "sint a - sint b < 2 ^ 31" by linarith+
  then have "sint (a - b) = sint a - sint b" by (simp add: sint_word_ariths signed_take_bit_int_eq_self)
  then show ?thesis by (simp only: s)
qed

section \<open>Words as bytes\<close>

text \<open>The word of a list of bytes, least significant byte first, and its bytes.\<close>

fun le_word :: "u8 list \<Rightarrow> 'a::len word" where
  "le_word [] = 0"
| "le_word (b # bs) = ucast b OR push_bit 8 (le_word bs)"

fun le_bytes :: "nat \<Rightarrow> 'a::len word \<Rightarrow> u8 list" where
  "le_bytes 0 w = []"
| "le_bytes (Suc n) w = ucast w # le_bytes n (drop_bit 8 w)"

definition be_word :: "u8 list \<Rightarrow> 'a::len word" where
  "be_word bs = le_word (rev bs)"

definition be_bytes :: "nat \<Rightarrow> 'a::len word \<Rightarrow> u8 list" where
  "be_bytes n w = rev (le_bytes n w)"

lemma length_le_bytes [simp]: "length (le_bytes n w) = n"
  by (induction n arbitrary: w) auto

lemma length_be_bytes [simp]: "length (be_bytes n w) = n"
  by (simp add: be_bytes_def)

lemma bit_le_word: "bit (le_word bs :: 'a::len word) k \<longleftrightarrow>
    k < LENGTH('a) \<and> k div 8 < length bs \<and> bit (bs ! (k div 8)) (k mod 8)"
proof (induction bs arbitrary: k)
  case (Cons b bs)
  show ?case
  proof (cases "k < 8")
    case True
    then show ?thesis by (auto simp: bit_or_iff bit_ucast_iff bit_push_bit_iff)
  next
    case False
    then obtain j where j: "k = j + 8" by (metis le_add_diff_inverse2 not_less)
    have d: "(j + 8) div 8 = Suc (j div 8)" by simp
    have "\<not> bit b k" using False by (auto simp: bit_imp_le_length dest: bit_imp_le_length)
    then show ?thesis
      by (auto simp: j d Cons.IH bit_or_iff bit_ucast_iff bit_push_bit_iff)
  qed
qed simp

lemma bit_le_bytes: "i < n \<Longrightarrow> bit (le_bytes n (w :: 'a::len word) ! i) k \<longleftrightarrow> k < 8 \<and> bit w (8 * i + k)"
proof (induction n arbitrary: w i)
  case (Suc n)
  then show ?case
    by (cases i) (auto simp: bit_ucast_iff bit_drop_bit_eq add_ac)
qed simp

lemma le_word_bytes: "LENGTH('a) \<le> 8 * n \<Longrightarrow> le_word (le_bytes n w) = (w :: 'a::len word)"
  by (rule bit_word_eqI) (auto simp: bit_le_word bit_le_bytes)

lemma le_bytes_word: "8 * length bs \<le> LENGTH('a) \<Longrightarrow> le_bytes (length bs) (le_word bs :: 'a::len word) = bs"
  by (rule nth_equalityI) (auto intro!: bit_word_eqI simp: bit_le_bytes bit_le_word)

lemma be_word_bytes: "LENGTH('a) \<le> 8 * n \<Longrightarrow> be_word (be_bytes n w) = (w :: 'a::len word)"
  by (simp add: be_word_def be_bytes_def le_word_bytes)

lemma be_bytes_word: "8 * length bs \<le> LENGTH('a) \<Longrightarrow> be_bytes (length bs) (be_word bs :: 'a::len word) = bs"
  using le_bytes_word [of "rev bs", where ?'a = 'a] by (simp add: be_word_def be_bytes_def)

section \<open>Buffers\<close>

text \<open>\<open>memcpy\<close> of a list to an offset of a buffer.\<close>

definition memcpy_at :: "'a list \<Rightarrow> nat \<Rightarrow> 'a list \<Rightarrow> 'a list" where
  "memcpy_at buf off bs = take off buf @ bs @ drop (off + length bs) buf"

lemma length_memcpy_at [simp]: "off + length bs \<le> length buf \<Longrightarrow> length (memcpy_at buf off bs) = length buf"
  by (simp add: memcpy_at_def)

lemma take_memcpy_at: "off \<le> length buf \<Longrightarrow> take (off + length bs) (memcpy_at buf off bs) = take off buf @ bs"
  by (simp add: memcpy_at_def)

section \<open>Blocks\<close>

text \<open>The full blocks of \<open>n\<close> elements of a list; a shorter rest is left out.\<close>

function blocks :: "nat \<Rightarrow> 'a list \<Rightarrow> 'a list list" where
  "blocks n xs = (if n = 0 \<or> length xs < n then [] else take n xs # blocks n (drop n xs))"
  by pat_completeness auto

termination blocks
  by (relation "measure (\<lambda>(n, xs). length xs)") auto

declare blocks.simps [simp del]

lemma blocks_short [simp]: "length xs < n \<Longrightarrow> blocks n xs = []"
  by (simp add: blocks.simps)

lemma blocks_step: "0 < n \<Longrightarrow> length xs = n \<Longrightarrow> blocks n (xs @ ys) = xs # blocks n ys"
  by (subst blocks.simps) simp

lemma blocks_append:
  assumes "0 < n" "n dvd length xs"
  shows "blocks n (xs @ ys) = blocks n xs @ blocks n ys"
  using assms
proof (induction "length xs" arbitrary: xs rule: less_induct)
  case less
  show ?case
  proof (cases "xs = []")
    case False
    then have n: "n \<le> length xs" using less.prems by (auto dest: dvd_imp_le)
    then have "n dvd length (drop n xs)" using less.prems by simp
    then have "blocks n (drop n xs @ ys) = blocks n (drop n xs) @ blocks n ys"
      using less.hyps [of "drop n xs"] less.prems n by simp
    then show ?thesis using n less.prems(1)
      by (subst (1 2) blocks.simps) simp
  qed (use assms in simp)
qed

lemma blocks_take: "0 < n \<Longrightarrow> blocks n (take (n * (length xs div n)) xs) = blocks n xs"
proof -
  assume n: "0 < n"
  let ?k = "n * (length xs div n)"
  have k: "?k \<le> length xs" by simp
  have "length (drop ?k xs) < n" using n by (simp add: minus_mult_div_eq_mod)
  then have "blocks n (take ?k xs @ drop ?k xs) = blocks n (take ?k xs)"
    using blocks_append [OF n, of "take ?k xs" "drop ?k xs"] k by simp
  then show ?thesis by simp
qed

end
