(* ===== verification/Mcookie.thy ===== *)
theory Mcookie
  imports Bytes
begin

text \<open>
  \<open>package/xorg/mcookie.c\<close>: the MD5 digest (\<open>MD5Init\<close>, \<open>MD5Update\<close>, \<open>MD5Final\<close>,
  \<open>MD5Transform\<close>) and the program that digests what it can gather of random data into an
  authentication cookie. \<open>uint32\<close> is the 32-bit word the code means; the array \<open>in\<close> is the
  list of its 64 bytes, read as little-endian words (what \<open>byteReverse\<close> arranges on other
  machines). The files, the clock and the process numbers are the input of \<open>mcookie\<close>.
\<close>

unbundle bit_operations_syntax

section \<open>The transformation of a block\<close>

type_synonym regs = "u32 \<times> u32 \<times> u32 \<times> u32"

definition F1 :: "u32 \<Rightarrow> u32 \<Rightarrow> u32 \<Rightarrow> u32" where
  "F1 x y z = z XOR (x AND (y XOR z))"

definition F2 :: "u32 \<Rightarrow> u32 \<Rightarrow> u32 \<Rightarrow> u32" where
  "F2 x y z = F1 z x y"

definition F3 :: "u32 \<Rightarrow> u32 \<Rightarrow> u32 \<Rightarrow> u32" where
  "F3 x y z = x XOR y XOR z"

definition F4 :: "u32 \<Rightarrow> u32 \<Rightarrow> u32 \<Rightarrow> u32" where
  "F4 x y z = y XOR (x OR NOT z)"

definition MD5STEP :: "(u32 \<Rightarrow> u32 \<Rightarrow> u32 \<Rightarrow> u32) \<Rightarrow> u32 \<Rightarrow> u32 \<Rightarrow> u32 \<Rightarrow> u32 \<Rightarrow> u32 \<Rightarrow> nat \<Rightarrow> u32" where
  "MD5STEP f w x y z data s =
     (let w = w + (f x y z + data);
          w = push_bit s w OR drop_bit (32 - s) w
      in w + x)"

text \<open>The four ways the macro is called: the register it assigns is the first one named.\<close>

type_synonym md5step = "(u32 \<Rightarrow> u32 \<Rightarrow> u32 \<Rightarrow> u32) \<Rightarrow> u32 \<Rightarrow> nat \<Rightarrow> regs \<Rightarrow> regs"

definition step_a :: md5step where
  "step_a f data s r = (case r of (a, b, c, d) \<Rightarrow> (MD5STEP f a b c d data s, b, c, d))"

definition step_d :: md5step where
  "step_d f data s r = (case r of (a, b, c, d) \<Rightarrow> (a, b, c, MD5STEP f d a b c data s))"

definition step_c :: md5step where
  "step_c f data s r = (case r of (a, b, c, d) \<Rightarrow> (a, b, MD5STEP f c d a b data s, d))"

definition step_b :: md5step where
  "step_b f data s r = (case r of (a, b, c, d) \<Rightarrow> (a, MD5STEP f b c d a data s, c, d))"

definition round1 :: "u32 list \<Rightarrow> regs \<Rightarrow> regs" where
  "round1 inp r =
     (let r = step_a F1 (inp ! 0 + 0xd76aa478) 7 r;
          r = step_d F1 (inp ! 1 + 0xe8c7b756) 12 r;
          r = step_c F1 (inp ! 2 + 0x242070db) 17 r;
          r = step_b F1 (inp ! 3 + 0xc1bdceee) 22 r;
          r = step_a F1 (inp ! 4 + 0xf57c0faf) 7 r;
          r = step_d F1 (inp ! 5 + 0x4787c62a) 12 r;
          r = step_c F1 (inp ! 6 + 0xa8304613) 17 r;
          r = step_b F1 (inp ! 7 + 0xfd469501) 22 r;
          r = step_a F1 (inp ! 8 + 0x698098d8) 7 r;
          r = step_d F1 (inp ! 9 + 0x8b44f7af) 12 r;
          r = step_c F1 (inp ! 10 + 0xffff5bb1) 17 r;
          r = step_b F1 (inp ! 11 + 0x895cd7be) 22 r;
          r = step_a F1 (inp ! 12 + 0x6b901122) 7 r;
          r = step_d F1 (inp ! 13 + 0xfd987193) 12 r;
          r = step_c F1 (inp ! 14 + 0xa679438e) 17 r;
          r = step_b F1 (inp ! 15 + 0x49b40821) 22 r
      in r)"

definition round2 :: "u32 list \<Rightarrow> regs \<Rightarrow> regs" where
  "round2 inp r =
     (let r = step_a F2 (inp ! 1 + 0xf61e2562) 5 r;
          r = step_d F2 (inp ! 6 + 0xc040b340) 9 r;
          r = step_c F2 (inp ! 11 + 0x265e5a51) 14 r;
          r = step_b F2 (inp ! 0 + 0xe9b6c7aa) 20 r;
          r = step_a F2 (inp ! 5 + 0xd62f105d) 5 r;
          r = step_d F2 (inp ! 10 + 0x02441453) 9 r;
          r = step_c F2 (inp ! 15 + 0xd8a1e681) 14 r;
          r = step_b F2 (inp ! 4 + 0xe7d3fbc8) 20 r;
          r = step_a F2 (inp ! 9 + 0x21e1cde6) 5 r;
          r = step_d F2 (inp ! 14 + 0xc33707d6) 9 r;
          r = step_c F2 (inp ! 3 + 0xf4d50d87) 14 r;
          r = step_b F2 (inp ! 8 + 0x455a14ed) 20 r;
          r = step_a F2 (inp ! 13 + 0xa9e3e905) 5 r;
          r = step_d F2 (inp ! 2 + 0xfcefa3f8) 9 r;
          r = step_c F2 (inp ! 7 + 0x676f02d9) 14 r;
          r = step_b F2 (inp ! 12 + 0x8d2a4c8a) 20 r
      in r)"

definition round3 :: "u32 list \<Rightarrow> regs \<Rightarrow> regs" where
  "round3 inp r =
     (let r = step_a F3 (inp ! 5 + 0xfffa3942) 4 r;
          r = step_d F3 (inp ! 8 + 0x8771f681) 11 r;
          r = step_c F3 (inp ! 11 + 0x6d9d6122) 16 r;
          r = step_b F3 (inp ! 14 + 0xfde5380c) 23 r;
          r = step_a F3 (inp ! 1 + 0xa4beea44) 4 r;
          r = step_d F3 (inp ! 4 + 0x4bdecfa9) 11 r;
          r = step_c F3 (inp ! 7 + 0xf6bb4b60) 16 r;
          r = step_b F3 (inp ! 10 + 0xbebfbc70) 23 r;
          r = step_a F3 (inp ! 13 + 0x289b7ec6) 4 r;
          r = step_d F3 (inp ! 0 + 0xeaa127fa) 11 r;
          r = step_c F3 (inp ! 3 + 0xd4ef3085) 16 r;
          r = step_b F3 (inp ! 6 + 0x04881d05) 23 r;
          r = step_a F3 (inp ! 9 + 0xd9d4d039) 4 r;
          r = step_d F3 (inp ! 12 + 0xe6db99e5) 11 r;
          r = step_c F3 (inp ! 15 + 0x1fa27cf8) 16 r;
          r = step_b F3 (inp ! 2 + 0xc4ac5665) 23 r
      in r)"

definition round4 :: "u32 list \<Rightarrow> regs \<Rightarrow> regs" where
  "round4 inp r =
     (let r = step_a F4 (inp ! 0 + 0xf4292244) 6 r;
          r = step_d F4 (inp ! 7 + 0x432aff97) 10 r;
          r = step_c F4 (inp ! 14 + 0xab9423a7) 15 r;
          r = step_b F4 (inp ! 5 + 0xfc93a039) 21 r;
          r = step_a F4 (inp ! 12 + 0x655b59c3) 6 r;
          r = step_d F4 (inp ! 3 + 0x8f0ccc92) 10 r;
          r = step_c F4 (inp ! 10 + 0xffeff47d) 15 r;
          r = step_b F4 (inp ! 1 + 0x85845dd1) 21 r;
          r = step_a F4 (inp ! 8 + 0x6fa87e4f) 6 r;
          r = step_d F4 (inp ! 15 + 0xfe2ce6e0) 10 r;
          r = step_c F4 (inp ! 6 + 0xa3014314) 15 r;
          r = step_b F4 (inp ! 13 + 0x4e0811a1) 21 r;
          r = step_a F4 (inp ! 4 + 0xf7537e82) 6 r;
          r = step_d F4 (inp ! 11 + 0xbd3af235) 10 r;
          r = step_c F4 (inp ! 2 + 0x2ad7d2bb) 15 r;
          r = step_b F4 (inp ! 9 + 0xeb86d391) 21 r
      in r)"

definition MD5Transform :: "regs \<Rightarrow> u32 list \<Rightarrow> regs" where
  "MD5Transform buf inp =
     (case round4 inp (round3 inp (round2 inp (round1 inp buf))) of (a, b, c, d) \<Rightarrow>
      case buf of (b0, b1, b2, b3) \<Rightarrow> (b0 + a, b1 + b, b2 + c, b3 + d))"

section \<open>The context\<close>

record md5_ctx =
  buf :: regs
  bits0 :: u32
  bits1 :: u32
  inb :: "u8 list"

text \<open>\<open>MD5Init\<close> leaves the input buffer as it is.\<close>

definition MD5Init :: "md5_ctx \<Rightarrow> md5_ctx" where
  "MD5Init ctx = ctx\<lparr>buf := (0x67452301, 0xefcdab89, 0x98badcfe, 0x10325476), bits0 := 0, bits1 := 0\<rparr>"

text \<open>The buffer as sixteen words, and the transformation of the context's buffer.\<close>

definition in_words :: "u8 list \<Rightarrow> u32 list" where
  "in_words bs = map le_word (blocks 4 bs)"

definition transform_in :: "md5_ctx \<Rightarrow> md5_ctx" where
  "transform_in ctx = ctx\<lparr>buf := MD5Transform (buf ctx) (in_words (inb ctx))\<rparr>"

text \<open>The \<open>while (len >= 64)\<close> loop and the copy of the rest.\<close>

function update_blocks :: "md5_ctx \<Rightarrow> u8 list \<Rightarrow> md5_ctx" where
  "update_blocks ctx data =
     (if 64 \<le> length data
      then update_blocks (transform_in (ctx\<lparr>inb := memcpy_at (inb ctx) 0 (take 64 data)\<rparr>)) (drop 64 data)
      else ctx\<lparr>inb := memcpy_at (inb ctx) 0 data\<rparr>)"
  by pat_completeness auto

termination update_blocks
  by (relation "measure (\<lambda>(ctx, data). length data)") auto

declare update_blocks.simps [simp del]

definition MD5Update :: "md5_ctx \<Rightarrow> u8 list \<Rightarrow> md5_ctx" where
  "MD5Update ctx data =
     (let len = of_nat (length data) :: u32;
          t = bits0 ctx;
          b0 = t + push_bit 3 len;
          b1 = (if b0 < t then bits1 ctx + 1 else bits1 ctx) + drop_bit 29 len;
          ctx = ctx\<lparr>bits0 := b0, bits1 := b1\<rparr>;
          t = unat (drop_bit 3 t AND 0x3f)
      in if t \<noteq> 0 then
           (let k = 64 - t in
            if length data < k then ctx\<lparr>inb := memcpy_at (inb ctx) t data\<rparr>
            else update_blocks (transform_in (ctx\<lparr>inb := memcpy_at (inb ctx) t (take k data)\<rparr>))
                   (drop k data))
         else update_blocks ctx data)"

text \<open>
  \<open>MD5Final\<close> gives the digest and the context it leaves: \<open>memset(ctx, 0, sizeof(ctx))\<close>
  clears as many bytes as a pointer has, two words on a 64-bit host.
\<close>

definition final_pad :: "md5_ctx \<Rightarrow> md5_ctx" where
  "final_pad ctx =
     (let count = unat (drop_bit 3 (bits0 ctx) AND 0x3f);
          ctx = ctx\<lparr>inb := memcpy_at (inb ctx) count [0x80]\<rparr>;
          p = count + 1;
          count = 64 - 1 - count
      in if count < 8 then
           (let ctx = transform_in (ctx\<lparr>inb := memcpy_at (inb ctx) p (replicate count 0)\<rparr>)
            in ctx\<lparr>inb := memcpy_at (inb ctx) 0 (replicate 56 0)\<rparr>)
         else ctx\<lparr>inb := memcpy_at (inb ctx) p (replicate (count - 8) 0)\<rparr>)"

definition regs_bytes :: "regs \<Rightarrow> u8 list" where
  "regs_bytes r = (case r of (a, b, c, d) \<Rightarrow> le_bytes 4 a @ le_bytes 4 b @ le_bytes 4 c @ le_bytes 4 d)"

definition MD5Final :: "md5_ctx \<Rightarrow> u8 list \<times> md5_ctx" where
  "MD5Final ctx =
     (let ctx = final_pad ctx;
          ctx = ctx\<lparr>inb := memcpy_at (inb ctx) 56 (le_bytes 4 (bits0 ctx))\<rparr>;
          ctx = ctx\<lparr>inb := memcpy_at (inb ctx) 60 (le_bytes 4 (bits1 ctx))\<rparr>;
          ctx = transform_in ctx
      in (regs_bytes (buf ctx), case buf ctx of (a, b, c, d) \<Rightarrow> ctx\<lparr>buf := (0, 0, c, d)\<rparr>))"

section \<open>The program\<close>

text \<open>
  What \<open>read\<close> returns, call by call, until end of file or an error; a separating zero byte
  is added after the file.
\<close>

definition hash_file :: "md5_ctx \<Rightarrow> u8 list list \<Rightarrow> md5_ctx \<times> nat" where
  "hash_file ctx reads =
     (let ctx = foldl MD5Update ctx reads;
          count = sum_list (map length reads)
      in (MD5Update ctx [0], count))"

record rng =
  rng_path :: string
  minlength :: nat
  maxlength :: nat

definition rngs :: "rng list" where
  "rngs = [\<lparr>rng_path = ''/dev/random'', minlength = 16, maxlength = 16\<rparr>,
     \<lparr>rng_path = ''/proc/interrupts'', minlength = 0, maxlength = 0\<rparr>,
     \<lparr>rng_path = ''/proc/slabinfo'', minlength = 0, maxlength = 0\<rparr>,
     \<lparr>rng_path = ''/proc/stat'', minlength = 0, maxlength = 0\<rparr>,
     \<lparr>rng_path = ''/dev/urandom'', minlength = 32, maxlength = 64\<rparr>]"

definition BUFFERSIZE :: nat where "BUFFERSIZE = 4096"

text \<open>
  A source that cannot be opened is \<open>None\<close>; otherwise it yields the bytes a \<open>read\<close> of at
  most \<open>count\<close> bytes returns (none on an error). The loop ends at the first source with a
  minimum length that gives as much.
\<close>

type_synonym source = "nat \<Rightarrow> u8 list"

fun gather :: "(string \<Rightarrow> source option) \<Rightarrow> rng list \<Rightarrow> md5_ctx \<Rightarrow> md5_ctx" where
  "gather fs [] ctx = ctx"
| "gather fs (g # gs) ctx =
     (case fs (rng_path g) of
        None \<Rightarrow> gather fs gs ctx
      | Some rd \<Rightarrow>
         (let count = (if maxlength g \<noteq> 0 \<and> maxlength g < BUFFERSIZE then maxlength g else BUFFERSIZE);
              data = rd count;
              ctx = (if data \<noteq> [] then MD5Update ctx data else ctx)
          in if minlength g \<noteq> 0 \<and> minlength g \<le> length data then ctx else gather fs gs ctx))"

definition hex_digit :: "nat \<Rightarrow> char" where
  "hex_digit n = ''0123456789abcdef'' ! n"

definition hex_byte :: "u8 \<Rightarrow> string" where
  "hex_byte b = [hex_digit (unat b div 16), hex_digit (unat b mod 16)]"

record mcookie_env =
  env_tv :: "u8 list"
  env_ppid :: "u8 list"
  env_pid :: "u8 list"
  env_file :: "u8 list list option option"
  env_fs :: "string \<Rightarrow> source option"
  env_ctx :: md5_ctx

text \<open>
  \<open>env_file\<close> is the file of the option \<open>-f\<close>: not given, given and not readable, or given with
  what its reads return. \<open>env_ctx\<close> is the context before \<open>MD5Init\<close>.
\<close>

definition mcookie :: "mcookie_env \<Rightarrow> string" where
  "mcookie env =
     (let ctx = MD5Init (env_ctx env);
          ctx = MD5Update ctx (env_tv env);
          ctx = MD5Update ctx (env_ppid env);
          ctx = MD5Update ctx (env_pid env);
          ctx = (case env_file env of Some (Some reads) \<Rightarrow> fst (hash_file ctx reads) | _ \<Rightarrow> ctx);
          ctx = gather (env_fs env) rngs ctx;
          digest = fst (MD5Final ctx)
      in concat (map hex_byte digest) @ [CHR 0x0A])"

section \<open>The algorithm of RFC 1321\<close>

text \<open>The round functions, the order of the words, the shifts and the table of constants.\<close>

definition md5_T :: "u32 list" where
  "md5_T =
     [0xd76aa478, 0xe8c7b756, 0x242070db, 0xc1bdceee, 0xf57c0faf, 0x4787c62a, 0xa8304613,
      0xfd469501, 0x698098d8, 0x8b44f7af, 0xffff5bb1, 0x895cd7be, 0x6b901122, 0xfd987193,
      0xa679438e, 0x49b40821, 0xf61e2562, 0xc040b340, 0x265e5a51, 0xe9b6c7aa, 0xd62f105d,
      0x02441453, 0xd8a1e681, 0xe7d3fbc8, 0x21e1cde6, 0xc33707d6, 0xf4d50d87, 0x455a14ed,
      0xa9e3e905, 0xfcefa3f8, 0x676f02d9, 0x8d2a4c8a, 0xfffa3942, 0x8771f681, 0x6d9d6122,
      0xfde5380c, 0xa4beea44, 0x4bdecfa9, 0xf6bb4b60, 0xbebfbc70, 0x289b7ec6, 0xeaa127fa,
      0xd4ef3085, 0x04881d05, 0xd9d4d039, 0xe6db99e5, 0x1fa27cf8, 0xc4ac5665, 0xf4292244,
      0x432aff97, 0xab9423a7, 0xfc93a039, 0x655b59c3, 0x8f0ccc92, 0xffeff47d, 0x85845dd1,
      0x6fa87e4f, 0xfe2ce6e0, 0xa3014314, 0x4e0811a1, 0xf7537e82, 0xbd3af235, 0x2ad7d2bb,
      0xeb86d391]"

definition md5_f :: "nat \<Rightarrow> u32 \<Rightarrow> u32 \<Rightarrow> u32 \<Rightarrow> u32" where
  "md5_f i x y z =
     (if i < 16 then (x AND y) OR (NOT x AND z)
      else if i < 32 then (x AND z) OR (y AND NOT z)
      else if i < 48 then x XOR y XOR z
      else y XOR (x OR NOT z))"

definition md5_k :: "nat \<Rightarrow> nat" where
  "md5_k i =
     (if i < 16 then i
      else if i < 32 then (5 * i + 1) mod 16
      else if i < 48 then (3 * i + 5) mod 16
      else (7 * i) mod 16)"

definition md5_s :: "nat \<Rightarrow> nat" where
  "md5_s i =
     (if i < 16 then [7, 12, 17, 22]
      else if i < 32 then [5, 9, 14, 20]
      else if i < 48 then [4, 11, 16, 23]
      else [6, 10, 15, 21]) ! (i mod 4)"

definition md5_round :: "u32 list \<Rightarrow> regs \<Rightarrow> nat \<Rightarrow> regs" where
  "md5_round X r i =
     (case r of (a, b, c, d) \<Rightarrow>
        (d, b + word_rotl (md5_s i) (a + md5_f i b c d + X ! md5_k i + md5_T ! i), b, c))"

definition md5_compress :: "regs \<Rightarrow> u8 list \<Rightarrow> regs" where
  "md5_compress r block =
     (case foldl (md5_round (in_words block)) r [0..<64] of (a, b, c, d) \<Rightarrow>
      case r of (a0, b0, c0, d0) \<Rightarrow> (a0 + a, b0 + b, c0 + c, d0 + d))"

definition md5_iv :: regs where
  "md5_iv = (0x67452301, 0xefcdab89, 0x98badcfe, 0x10325476)"

text \<open>A one bit, zeros up to 56 modulo 64 bytes, and the length in bits modulo \<open>2^64\<close>.\<close>

definition md5_pad :: "u8 list \<Rightarrow> u8 list" where
  "md5_pad m = m @ [0x80] @ replicate ((119 - length m mod 64) mod 64) 0 @
     le_bytes 8 (of_nat (8 * length m) :: u64)"

definition md5 :: "u8 list \<Rightarrow> u8 list" where
  "md5 m = regs_bytes (foldl md5_compress md5_iv (blocks 64 (md5_pad m)))"

end
