(* ===== verification/Mcookie_Proof.thy ===== *)
theory Mcookie_Proof
  imports Mcookie
begin

text \<open>
  \<open>MD5Transform\<close> is the compression function of RFC 1321, the context represents the bytes
  it has taken in (whatever the pieces), and the digest and the cookie follow from that.
\<close>

unbundle bit_operations_syntax

section \<open>One block\<close>

lemma rotl_shift: "0 < s \<Longrightarrow> s < 32 \<Longrightarrow> push_bit s w OR drop_bit (32 - s) w = word_rotl s (w :: u32)"
proof (rule bit_word_eqI)
  fix n assume s: "0 < s" "s < 32" and n: "n < LENGTH(32)"
  show "bit (push_bit s w OR drop_bit (32 - s) w) n = bit (word_rotl s w) n"
  proof (cases "n < s")
    case True
    then have "(n + (32 - s)) mod 32 = n + (32 - s)" using s by simp
    moreover have "32 - s + n = n + (32 - s)" by simp
    ultimately show ?thesis using True s n
      by (simp only: bit_or_iff bit_push_bit_iff bit_drop_bit_eq bit_word_rotl_iff o_def) simp
  next
    case False
    then have "n + (32 - s) = (n - s) + 32" using s by simp
    then have "(n + (32 - s)) mod 32 = n - s" using n by (simp only: mod_add_self2) simp
    moreover have "\<not> bit w (n + (32 - s))" using False s by (auto dest: bit_imp_le_length)
    moreover have "32 - s + n = n + (32 - s)" by simp
    ultimately show ?thesis using False s n
      by (simp only: bit_or_iff bit_push_bit_iff bit_drop_bit_eq bit_word_rotl_iff o_def) simp
  qed
qed

lemma MD5STEP_rotl:
  "0 < s \<Longrightarrow> s < 32 \<Longrightarrow> MD5STEP f w x y z (p + q) s = x + word_rotl s (w + f x y z + p + q)"
  by (simp add: MD5STEP_def rotl_shift add_ac)

lemma F_bits:
  "F1 x y z = (x AND y) OR (NOT x AND z)" "F2 x y z = (x AND z) OR (y AND NOT z)"
  by (rule bit_word_eqI, auto simp: F1_def F2_def bit_or_iff bit_and_iff bit_xor_iff bit_not_iff)+

lemma md5_f_eq:
  "i < 16 \<Longrightarrow> md5_f i = F1"
  "16 \<le> i \<Longrightarrow> i < 32 \<Longrightarrow> md5_f i = F2"
  "32 \<le> i \<Longrightarrow> i < 48 \<Longrightarrow> md5_f i = F3"
  "48 \<le> i \<Longrightarrow> md5_f i = F4"
  by (auto simp: md5_f_def fun_eq_iff F_bits F3_def F4_def)

definition quad_step :: "(u32 \<Rightarrow> u32 \<Rightarrow> u32 \<Rightarrow> u32) \<Rightarrow> u32 list \<Rightarrow> nat \<Rightarrow> regs \<Rightarrow> regs" where
  "quad_step f X i r =
     step_b f (X ! md5_k (i + 3) + md5_T ! (i + 3)) (md5_s (i + 3))
      (step_c f (X ! md5_k (i + 2) + md5_T ! (i + 2)) (md5_s (i + 2))
       (step_d f (X ! md5_k (i + 1) + md5_T ! (i + 1)) (md5_s (i + 1))
        (step_a f (X ! md5_k i + md5_T ! i) (md5_s i) r)))"

lemma md5_s_range: "0 < md5_s i \<and> md5_s i < 32"
proof -
  have "i mod 4 = 0 \<or> i mod 4 = 1 \<or> i mod 4 = 2 \<or> i mod 4 = 3" by arith
  then show ?thesis by (auto simp: md5_s_def)
qed

lemma foldl_quad:
  assumes "md5_f i = f" "md5_f (i + 1) = f" "md5_f (i + 2) = f" "md5_f (i + 3) = f"
  shows "foldl (md5_round X) r [i, i + 1, i + 2, i + 3] = quad_step f X i r"
  using assms md5_s_range
  by (cases r) (simp add: quad_step_def md5_round_def step_a_def step_b_def step_c_def step_d_def MD5STEP_rotl)

lemma foldl_round:
  assumes f: "\<And>j. i \<le> j \<Longrightarrow> j < i + 16 \<Longrightarrow> md5_f j = f"
  shows "foldl (md5_round X) r [i..<i + 16] =
    quad_step f X (i + 12) (quad_step f X (i + 8) (quad_step f X (i + 4) (quad_step f X i r)))"
proof -
  have q: "foldl (md5_round X) r [j, j + 1, j + 2, j + 3] = quad_step f X j r"
    if "i \<le> j" "j + 3 < i + 16" for j r
    by (rule foldl_quad) (use f that in auto)
  have l: "[i..<i + 16] = [i, i + 1, i + 2, i + 3] @ [i + 4, i + 4 + 1, i + 4 + 2, i + 4 + 3] @
      [i + 8, i + 8 + 1, i + 8 + 2, i + 8 + 3] @ [i + 12, i + 12 + 1, i + 12 + 2, i + 12 + 3]"
    by (simp add: upt_conv_Cons numeral_eq_Suc)
  show ?thesis unfolding l foldl_append
    by (subst q, simp, simp)+ (rule refl)
qed

lemmas md5_tables = quad_step_def md5_k_def md5_s_def md5_T_def

lemma round1_eq: "foldl (md5_round X) r [0..<0 + 16] = round1 X r"
  by (subst foldl_round [of 0 F1]) (simp_all add: md5_f_eq round1_def md5_tables numeral_2_eq_2)

lemma round2_eq: "foldl (md5_round X) r [16..<16 + 16] = round2 X r"
  by (subst foldl_round [of 16 F2]) (simp_all add: md5_f_eq round2_def md5_tables)

lemma round3_eq: "foldl (md5_round X) r [32..<32 + 16] = round3 X r"
  by (subst foldl_round [of 32 F3]) (simp_all add: md5_f_eq round3_def md5_tables)

lemma round4_eq: "foldl (md5_round X) r [48..<48 + 16] = round4 X r"
  by (subst foldl_round [of 48 F4]) (simp_all add: md5_f_eq round4_def md5_tables)

lemma MD5Transform_eq: "MD5Transform r (in_words block) = md5_compress r block"
proof -
  have "[0..<64] = [0..<0+16] @ [16..<16+16] @ [32..<32+16] @ [48..<48+(16::nat)]"
    by code_simp
  then show ?thesis
    unfolding MD5Transform_def md5_compress_def by (simp only: foldl_append round1_eq round2_eq round3_eq round4_eq)
qed

section \<open>Streams of bytes\<close>

text \<open>
  A consumer of a stream: \<open>absorbed c m\<close> says that the state \<open>c\<close> has taken in the bytes \<open>m\<close>.
  The one law says what an update adds; what is fed in pieces is then taken in as a whole.
\<close>

locale absorber =
  fixes upd :: "'c \<Rightarrow> 'b list \<Rightarrow> 'c"
    and absorbed :: "'c \<Rightarrow> 'b list \<Rightarrow> bool"
    and piece :: "'b list \<Rightarrow> bool"
  assumes upd_absorbed: "absorbed c m \<Longrightarrow> piece b \<Longrightarrow> absorbed (upd c b) (m @ b)"
begin

lemma foldl_absorbed: "absorbed c m \<Longrightarrow> \<forall>b \<in> set bs. piece b \<Longrightarrow> absorbed (foldl upd c bs) (m @ concat bs)"
proof (induction bs arbitrary: c m)
  case (Cons b bs)
  from Cons.IH [OF upd_absorbed [OF Cons.prems(1), of b]] Cons.prems(2) show ?case by simp
qed simp

lemma split_absorbed:
  "absorbed c m \<Longrightarrow> piece b1 \<Longrightarrow> piece b2 \<Longrightarrow> absorbed (upd (upd c b1) b2) (m @ b1 @ b2)"
  using foldl_absorbed [of c m "[b1, b2]"] by simp

end

section \<open>The context and the bytes it has taken in\<close>

definition absorbed :: "md5_ctx \<Rightarrow> u8 list \<Rightarrow> bool" where
  "absorbed c m \<longleftrightarrow>
     length (inb c) = 64 \<and>
     bits0 c = of_nat (8 * length m) \<and> bits1 c = of_nat (8 * length m div 2 ^ 32) \<and>
     (\<exists>m0 rest. m = m0 @ rest \<and> 64 dvd length m0 \<and> length rest < 64 \<and>
        buf c = foldl md5_compress md5_iv (blocks 64 m0) \<and> take (length rest) (inb c) = rest)"

lemma count_bits: "unat (drop_bit 3 w AND 0x3f) = unat (w :: u32) div 8 mod 64"
proof -
  have "drop_bit 3 w AND 0x3f = take_bit 6 (drop_bit 3 w)"
    by (simp add: take_bit_eq_mask mask_eq_exp_minus_1)
  then show ?thesis
    by (simp add: take_bit_eq_mod drop_bit_eq_div unat_div_distrib unat_mod_distrib)
qed

lemma unat_u32: "unat (of_nat n :: u32) = n mod 2 ^ 32"
  by (simp only: unsigned_of_nat take_bit_eq_mod) simp

lemma bytes_in_buffer: "unat (drop_bit 3 (of_nat (8 * L) :: u32) AND 0x3f) = L mod 64"
proof -
  have "8 * L mod 2 ^ 32 = 8 * (L mod 2 ^ 29)" by (simp add: mult_mod_right)
  moreover have "L mod 2 ^ 29 mod 64 = L mod 64" by (rule mod_mod_cancel) simp
  ultimately show ?thesis by (simp only: count_bits unat_u32) simp
qed

lemma bitcount0: "of_nat (8 * L) + push_bit 3 (of_nat n) = (of_nat (8 * (L + n)) :: u32)"
  by (simp add: push_bit_eq_mult algebra_simps)

lemma shift29: "n < 2 ^ 32 \<Longrightarrow> drop_bit 29 (of_nat n :: u32) = of_nat (n div 2 ^ 29)"
  by (rule unsigned_word_eqI [where ?'a = nat])
    (simp add: drop_bit_eq_div unat_div_distrib unat_u32)

lemma bitcount1:
  assumes "n < 2 ^ 32"
  shows "(if (of_nat (8 * (L + n)) :: u32) < of_nat (8 * L)
          then of_nat (8 * L div 2 ^ 32) + 1 else of_nat (8 * L div 2 ^ 32)) + drop_bit 29 (of_nat n) =
    (of_nat (8 * (L + n) div 2 ^ 32) :: u32)"
proof -
  let ?M = "2 ^ 32 :: nat"
  have less: "(of_nat (8 * (L + n)) :: u32) < of_nat (8 * L) \<longleftrightarrow> 8 * (L + n) mod ?M < 8 * L mod ?M"
    by (simp only: word_less_nat_alt unat_u32)
  have q: "8 * n div ?M = n div 2 ^ 29" by simp
  have sum: "8 * (L + n) div ?M = 8 * L div ?M + n div 2 ^ 29 + (8 * L mod ?M + 8 * n mod ?M) div ?M"
    using div_add1_eq [of "8 * L" "8 * n" ?M] q by (simp add: distrib_left)
  have m: "8 * (L + n) mod ?M = (8 * L mod ?M + 8 * n mod ?M) mod ?M"
    by (simp add: distrib_left mod_add_eq)
  have lt: "8 * L mod ?M < ?M" "8 * n mod ?M < ?M" by simp_all
  have carry: "(8 * L mod ?M + 8 * n mod ?M) div ?M = (if 8 * (L + n) mod ?M < 8 * L mod ?M then 1 else 0)"
  proof (cases "8 * L mod ?M + 8 * n mod ?M < ?M")
    case True
    then show ?thesis using m by simp
  next
    case False
    then have "(8 * L mod ?M + 8 * n mod ?M) div ?M = 1" "8 * (L + n) mod ?M = 8 * L mod ?M + 8 * n mod ?M - ?M"
      using lt m by (simp_all add: div_nat_eqI le_mod_geq)
    moreover from this(2) have "8 * (L + n) mod ?M < 8 * L mod ?M" using lt False by linarith
    ultimately show ?thesis by simp
  qed
  show ?thesis unfolding less shift29 [OF assms] sum carry by simp
qed

lemma memcpy_at_0: "length bs \<le> length b \<Longrightarrow> memcpy_at b 0 bs = bs @ drop (length bs) b"
  by (simp add: memcpy_at_def)

lemma transform_in_simps [simp]:
  "inb (transform_in c) = inb c" "bits0 (transform_in c) = bits0 c" "bits1 (transform_in c) = bits1 c"
  "buf (transform_in c) = md5_compress (buf c) (inb c)"
  by (simp_all add: transform_in_def MD5Transform_eq)

lemma update_blocks_props:
  "length (inb c) = 64 \<Longrightarrow>
     (let c' = update_blocks c d; k = 64 * (length d div 64) in
        length (inb c') = 64 \<and> bits0 c' = bits0 c \<and> bits1 c' = bits1 c \<and>
        buf c' = foldl md5_compress (buf c) (blocks 64 (take k d)) \<and>
        take (length d mod 64) (inb c') = drop k d)"
proof (induction c d rule: update_blocks.induct)
  case (1 c d)
  show ?case
  proof (cases "64 \<le> length d")
    case True
    let ?c = "transform_in (c\<lparr>inb := memcpy_at (inb c) 0 (take 64 d)\<rparr>)"
    have i: "inb ?c = take 64 d" using True "1.prems" by (simp add: memcpy_at_0)
    have k: "64 * (length d div 64) = 64 + 64 * (length (drop 64 d) div 64)" "length d mod 64 = length (drop 64 d) mod 64"
      using True by (simp_all add: le_div_geq le_mod_geq)
    have "take (64 + j) d = take 64 d @ take j (drop 64 d)" for j by (simp add: take_add)
    then have b: "blocks 64 (take (64 + j) d) = take 64 d # blocks 64 (take j (drop 64 d))" for j
      using True by (simp add: blocks_step)
    have u: "update_blocks c d = update_blocks ?c (drop 64 d)" using True by (subst update_blocks.simps) simp
    have "length (inb ?c) = 64" using i True by simp
    from "1.IH" [OF True this] i show ?thesis
      unfolding Let_def u k b by (simp add: drop_drop add.commute)
  next
    case False
    then show ?thesis using "1.prems" by (simp add: update_blocks.simps [of c d] Let_def memcpy_at_0)
  qed
qed

lemma MD5Update_absorbed:
  assumes "absorbed c m" "length d < 2 ^ 32"
  shows "absorbed (MD5Update c d) (m @ d)"
proof -
  from assms(1) obtain m0 rest where m: "m = m0 @ rest" "64 dvd length m0" "length rest < 64"
    "buf c = foldl md5_compress md5_iv (blocks 64 m0)" "take (length rest) (inb c) = rest"
    and c: "length (inb c) = 64" "bits0 c = of_nat (8 * length m)" "bits1 c = of_nat (8 * length m div 2 ^ 32)"
    unfolding absorbed_def by blast
  have t: "length m mod 64 = length rest" using m(1-3) by (auto simp: dvd_def)
  define c0 where "c0 = c\<lparr>bits0 := of_nat (8 * length (m @ d)), bits1 := of_nat (8 * length (m @ d) div 2 ^ 32)\<rparr>"
  have upd: "MD5Update c d =
      (if length rest \<noteq> 0 then
         (if length d < 64 - length rest then c0\<lparr>inb := memcpy_at (inb c) (length rest) d\<rparr>
          else update_blocks (transform_in (c0\<lparr>inb := memcpy_at (inb c) (length rest) (take (64 - length rest) d)\<rparr>))
                 (drop (64 - length rest) d))
       else update_blocks c0 d)"
    unfolding MD5Update_def c bytes_in_buffer t bitcount0 bitcount1 [OF assms(2)] Let_def c0_def length_append
    by simp
  have c0: "bits0 c0 = of_nat (8 * length (m @ d))" "bits1 c0 = of_nat (8 * length (m @ d) div 2 ^ 32)"
    "inb c0 = inb c" "buf c0 = buf c" by (simp_all add: c0_def)
  have blk: "absorbed (update_blocks c1 e) (m @ d)"
    if "m @ d = m1 @ e" "64 dvd length m1" "length (inb c1) = 64" "bits0 c1 = bits0 c0" "bits1 c1 = bits1 c0"
      "buf c1 = foldl md5_compress md5_iv (blocks 64 m1)" for c1 m1 e
  proof -
    let ?k = "64 * (length e div 64)"
    note u = update_blocks_props [OF that(3), of e, unfolded Let_def]
    have "blocks 64 (m1 @ take ?k e) = blocks 64 m1 @ blocks 64 (take ?k e)"
      using that(2) by (simp add: blocks_append)
    then have "buf (update_blocks c1 e) = foldl md5_compress md5_iv (blocks 64 (m1 @ take ?k e))"
      using u that(6) by simp
    moreover have "m @ d = (m1 @ take ?k e) @ drop ?k e" using that(1) by simp
    moreover have "length (drop ?k e) = length e mod 64" by (simp add: minus_mult_div_eq_mod)
    ultimately show ?thesis unfolding absorbed_def using u that(2,4,5) c0
      by (intro conjI exI [of _ "m1 @ take ?k e"] exI [of _ "drop ?k e"]) simp_all
  qed
  show ?thesis
  proof (cases "rest = []")
    case True
    then show ?thesis unfolding upd using blk [of m d c0] m c c0 by simp
  next
    case ne: False
    let ?k = "64 - length rest"
    show ?thesis
    proof (cases "length d < ?k")
      case True
      then have "take (length rest + length d) (memcpy_at (inb c) (length rest) d) = rest @ d"
        using m(3,5) c(1) by (simp add: take_memcpy_at)
      then show ?thesis using True ne m c c0 unfolding upd absorbed_def
        by (intro conjI exI [of _ m0] exI [of _ "rest @ d"]) (simp_all add: add.commute)
    next
      case False
      let ?c = "transform_in (c0\<lparr>inb := memcpy_at (inb c) (length rest) (take ?k d)\<rparr>)"
      have i: "memcpy_at (inb c) (length rest) (take ?k d) = rest @ take ?k d"
        using False m(3,5) c(1) by (simp add: memcpy_at_def)
      have "blocks 64 (m0 @ rest @ take ?k d) = blocks 64 m0 @ [rest @ take ?k d]"
        using False m(2,3) blocks_step [of 64 "rest @ take ?k d" "[]"] by (simp add: blocks_append)
      then have "absorbed (update_blocks ?c (drop ?k d)) (m @ d)"
        using blk [of "m0 @ rest @ take ?k d" "drop ?k d" ?c] False m c c0 i by simp
      then show ?thesis using ne False unfolding upd by simp
    qed
  qed
qed

interpretation md5_stream: absorber MD5Update absorbed "\<lambda>d. length d < 2 ^ 32"
  by unfold_locales (rule MD5Update_absorbed)

lemma MD5Init_absorbed: "length (inb c) = 64 \<Longrightarrow> absorbed (MD5Init c) []"
  by (simp add: absorbed_def MD5Init_def md5_iv_def)

section \<open>The digest\<close>

lemma le_bytes_halves: "le_bytes 8 (w :: u64) = le_bytes 4 (ucast w :: u32) @ le_bytes 4 (ucast (drop_bit 32 w) :: u32)"
proof (rule nth_equalityI)
  fix i assume "i < length (le_bytes 8 w)"
  then have i: "i < 8" by simp
  show "le_bytes 8 w ! i = (le_bytes 4 (ucast w :: u32) @ le_bytes 4 (ucast (drop_bit 32 w) :: u32)) ! i"
  proof (rule bit_word_eqI)
    fix n assume "n < LENGTH(8)"
    then show "bit (le_bytes 8 w ! i) n = bit ((le_bytes 4 (ucast w :: u32) @ le_bytes 4 (ucast (drop_bit 32 w) :: u32)) ! i) n"
    proof (cases "i < 4")
      case False
      then have "8 * i + n = 32 + (8 * (i - 4) + n)" by simp
      moreover have "i - 4 < 4" using i by simp
      ultimately show ?thesis using i False \<open>n < LENGTH(8)\<close>
        by (simp add: nth_append bit_le_bytes bit_ucast_iff bit_drop_bit_eq add.assoc)
    qed (auto simp: nth_append bit_le_bytes bit_ucast_iff)
  qed
qed simp

lemma le_bytes_count: "le_bytes 8 (of_nat n :: u64) = le_bytes 4 (of_nat n :: u32) @ le_bytes 4 (of_nat (n div 2 ^ 32) :: u32)"
proof -
  have "ucast (of_nat n :: u64) = (of_nat n :: u32)"
    by (rule bit_word_eqI) (simp add: bit_ucast_iff bit_of_nat_iff)
  moreover have "ucast (drop_bit 32 (of_nat n :: u64)) = (of_nat (drop_bit 32 n) :: u32)"
    by (rule bit_word_eqI) (auto simp: bit_ucast_iff bit_of_nat_iff bit_drop_bit_eq)
  ultimately show ?thesis unfolding le_bytes_halves by (simp add: drop_bit_eq_div)
qed

lemma final_pad_props:
  assumes "absorbed c m"
  obtains m1 p where "md5_pad m = m1 @ p @ le_bytes 4 (bits0 c) @ le_bytes 4 (bits1 c)" "64 dvd length m1"
    "length p = 56" "take 56 (inb (final_pad c)) = p" "length (inb (final_pad c)) = 64"
    "buf (final_pad c) = foldl md5_compress md5_iv (blocks 64 m1)"
    "bits0 (final_pad c) = bits0 c" "bits1 (final_pad c) = bits1 c"
proof -
  from assms obtain m0 rest where m: "m = m0 @ rest" "64 dvd length m0" "length rest < 64"
    "buf c = foldl md5_compress md5_iv (blocks 64 m0)" "take (length rest) (inb c) = rest"
    and c: "length (inb c) = 64" "bits0 c = of_nat (8 * length m)" "bits1 c = of_nat (8 * length m div 2 ^ 32)"
    unfolding absorbed_def by blast
  have t: "length m mod 64 = length rest" using m(1-3) by (auto simp: dvd_def)
  let ?r = "length rest"
  have pad: "md5_pad m = m0 @ rest @ [0x80] @ replicate ((119 - ?r) mod 64) 0 @ le_bytes 4 (bits0 c) @ le_bytes 4 (bits1 c)"
    unfolding md5_pad_def le_bytes_count t c by (simp add: m(1))
  define c1 where "c1 = c\<lparr>inb := memcpy_at (inb c) ?r [0x80]\<rparr>"
  have c1: "length (inb c1) = 64" "take (Suc ?r) (inb c1) = rest @ [0x80]"
    "buf c1 = buf c" "bits0 c1 = bits0 c" "bits1 c1 = bits1 c"
    using m(3,5) c(1) by (simp_all add: c1_def memcpy_at_def)
  have fp: "final_pad c =
     (if 63 - ?r < 8 then
        (let ctx = transform_in (c1\<lparr>inb := memcpy_at (inb c1) (Suc ?r) (replicate (63 - ?r) 0)\<rparr>)
         in ctx\<lparr>inb := memcpy_at (inb ctx) 0 (replicate 56 0)\<rparr>)
      else c1\<lparr>inb := memcpy_at (inb c1) (Suc ?r) (replicate (55 - ?r) 0)\<rparr>)"
    unfolding final_pad_def c(2) bytes_in_buffer t Let_def c1_def [symmetric] by simp
  show ?thesis
  proof (cases "63 - ?r < 8")
    case True
    let ?b = "rest @ [0x80] @ replicate (63 - ?r) 0"
    have i: "memcpy_at (inb c1) (Suc ?r) (replicate (63 - ?r) 0) = ?b"
      using c1 m(3) by (simp add: memcpy_at_def)
    have z: "replicate ((119 - ?r) mod 64) 0 = replicate (63 - ?r) 0 @ replicate 56 (0 :: u8)"
      using True m(3) by (simp add: replicate_add [symmetric])
    note pad = pad [unfolded z]
    have bl: "blocks 64 (m0 @ ?b) = blocks 64 m0 @ [?b]"
      using m(2,3) blocks_step [of 64 ?b "[]"] by (simp add: blocks_append)
    show ?thesis
      by (rule that [of "m0 @ ?b" "replicate 56 0"])
        (use True pad i bl m(1-4) c1 in \<open>simp_all add: fp memcpy_at_0 Let_def\<close>)
  next
    case False
    let ?p = "rest @ [0x80] @ replicate (55 - ?r) 0"
    have i: "take 56 (memcpy_at (inb c1) (Suc ?r) (replicate (55 - ?r) 0)) = ?p"
      using c1(1,2) False by (simp add: memcpy_at_def Suc_diff_le [symmetric] take_Cons')
    have z: "(119 - ?r) mod 64 = 55 - ?r" using False by (simp add: mod_if)
    show ?thesis
      by (rule that [of m0 ?p])
        (use False pad z i m(1-4) c1 in \<open>simp_all add: fp\<close>)
  qed
qed

lemma MD5Final_digest:
  assumes "absorbed c m"
  shows "fst (MD5Final c) = md5 m"
proof -
  from final_pad_props [OF assms] obtain m1 p where
    p: "md5_pad m = m1 @ p @ le_bytes 4 (bits0 c) @ le_bytes 4 (bits1 c)" "64 dvd length m1"
    "length p = 56" "take 56 (inb (final_pad c)) = p" "length (inb (final_pad c)) = 64"
    "buf (final_pad c) = foldl md5_compress md5_iv (blocks 64 m1)"
    "bits0 (final_pad c) = bits0 c" "bits1 (final_pad c) = bits1 c" .
  let ?b = "p @ le_bytes 4 (bits0 c) @ le_bytes 4 (bits1 c)"
  have i: "memcpy_at (memcpy_at (inb (final_pad c)) 56 (le_bytes 4 (bits0 c))) 60 (le_bytes 4 (bits1 c)) = ?b"
    using p(3-5) by (simp add: memcpy_at_def)
  have "blocks 64 (md5_pad m) = blocks 64 m1 @ [?b]"
    unfolding p(1) using p(2,3) blocks_step [of 64 ?b "[]"] by (simp add: blocks_append)
  then show ?thesis
    by (simp add: MD5Final_def md5_def Let_def p i)
qed

section \<open>The program\<close>

text \<open>The bytes the sources add, in order.\<close>

fun gathered :: "(string \<Rightarrow> source option) \<Rightarrow> rng list \<Rightarrow> u8 list" where
  "gathered fs [] = []"
| "gathered fs (g # gs) =
     (case fs (rng_path g) of
        None \<Rightarrow> gathered fs gs
      | Some rd \<Rightarrow>
         (let data = rd (if maxlength g = 0 \<or> BUFFERSIZE \<le> maxlength g then BUFFERSIZE else maxlength g)
          in data @ (if minlength g \<noteq> 0 \<and> minlength g \<le> length data then [] else gathered fs gs)))"

text \<open>A read returns no more than it was asked for.\<close>

definition reads_ok :: "(string \<Rightarrow> source option) \<Rightarrow> bool" where
  "reads_ok fs \<longleftrightarrow> (\<forall>p rd n. fs p = Some rd \<longrightarrow> length (rd n) \<le> n)"

lemma update_nonempty_absorbed:
  "absorbed c m \<Longrightarrow> length d < 2 ^ 32 \<Longrightarrow> absorbed (if d \<noteq> [] then MD5Update c d else c) (m @ d)"
  by (cases d) (simp_all add: MD5Update_absorbed)

lemma gather_absorbed:
  assumes "reads_ok fs"
  shows "absorbed c m \<Longrightarrow> absorbed (gather fs gs c) (m @ gathered fs gs)"
proof (induction gs arbitrary: c m)
  case (Cons g gs)
  show ?case
  proof (cases "fs (rng_path g)")
    case None
    then show ?thesis using Cons by simp
  next
    case (Some rd)
    let ?n = "if maxlength g \<noteq> 0 \<and> maxlength g < BUFFERSIZE then maxlength g else BUFFERSIZE"
    have n: "(if maxlength g = 0 \<or> BUFFERSIZE \<le> maxlength g then BUFFERSIZE else maxlength g) = ?n" by auto
    let ?c = "if rd ?n \<noteq> [] then MD5Update c (rd ?n) else c"
    have "length (rd ?n) \<le> ?n" using assms Some by (simp add: reads_ok_def)
    also have "?n \<le> 4096" by (simp add: BUFFERSIZE_def)
    finally have "length (rd ?n) < 2 ^ 32" by simp
    then have c: "absorbed ?c (m @ rd ?n)" by (rule update_nonempty_absorbed [OF Cons.prems])
    show ?thesis
      unfolding gather.simps gathered.simps Some option.case Let_def n
      using c Cons.IH [OF c] by simp
  qed
qed simp

lemma hash_file_absorbed:
  "absorbed c m \<Longrightarrow> \<forall>d \<in> set reads. length d \<le> BUFFERSIZE \<Longrightarrow>
     absorbed (fst (hash_file c reads)) (m @ concat reads @ [0])"
  using MD5Update_absorbed [OF md5_stream.foldl_absorbed, of c m reads "[0]"]
  by (fastforce simp: hash_file_def BUFFERSIZE_def)

text \<open>What the program has taken in when it makes the digest.\<close>

definition cookie_data :: "mcookie_env \<Rightarrow> u8 list" where
  "cookie_data env = env_tv env @ env_ppid env @ env_pid env @
     (case env_file env of Some (Some reads) \<Rightarrow> concat reads @ [0] | _ \<Rightarrow> []) @ gathered (env_fs env) rngs"

definition env_ok :: "mcookie_env \<Rightarrow> bool" where
  "env_ok env \<longleftrightarrow> length (inb (env_ctx env)) = 64 \<and> reads_ok (env_fs env) \<and>
     length (env_tv env) < 2 ^ 32 \<and> length (env_ppid env) < 2 ^ 32 \<and> length (env_pid env) < 2 ^ 32 \<and>
     (\<forall>reads. env_file env = Some (Some reads) \<longrightarrow> (\<forall>d \<in> set reads. length d \<le> BUFFERSIZE))"

lemma hex_bytes_length: "length (concat (map hex_byte bs)) = 2 * length bs"
  by (induction bs) (simp_all add: hex_byte_def)

lemma length_md5: "length (md5 m) = 16"
  by (simp add: md5_def regs_bytes_def split: prod.splits)

lemma mcookie_digest:
  assumes "env_ok env"
  shows "mcookie env = concat (map hex_byte (md5 (cookie_data env))) @ [CHR 0x0A]"
proof -
  let ?c = "MD5Update (MD5Update (MD5Update (MD5Init (env_ctx env)) (env_tv env)) (env_ppid env)) (env_pid env)"
  let ?m = "env_tv env @ env_ppid env @ env_pid env"
  let ?f = "case env_file env of Some (Some reads) \<Rightarrow> concat reads @ [0] | _ \<Rightarrow> []"
  let ?c1 = "case env_file env of Some (Some reads) \<Rightarrow> fst (hash_file ?c reads) | _ \<Rightarrow> ?c"
  have "absorbed ?c ?m"
    using md5_stream.foldl_absorbed [OF MD5Init_absorbed, of "env_ctx env" "[env_tv env, env_ppid env, env_pid env]"]
      assms by (simp add: env_ok_def)
  then have "absorbed ?c1 (?m @ ?f)"
    using hash_file_absorbed [of ?c ?m] assms by (auto simp: env_ok_def split: option.splits)
  then have "absorbed (gather (env_fs env) rngs ?c1) ((?m @ ?f) @ gathered (env_fs env) rngs)"
    using gather_absorbed assms unfolding env_ok_def by blast
  then have "absorbed (gather (env_fs env) rngs ?c1) (cookie_data env)"
    by (simp add: cookie_data_def)
  from MD5Final_digest [OF this] show ?thesis by (simp add: mcookie_def Let_def)
qed

text \<open>Clearing the context leaves the second half of the digest in it.\<close>

lemma MD5Final_leaves_digest:
  "\<exists>x y. buf (snd (MD5Final c)) = (0, 0, x, y) \<and> drop 8 (fst (MD5Final c)) = le_bytes 4 x @ le_bytes 4 y"
  by (simp add: MD5Final_def Let_def regs_bytes_def split: prod.splits)

end
