(* ===== verification/Mcookie_Props.thy ===== *)
theory Mcookie_Props
  imports Mcookie_Proof
begin

text \<open>The properties of the MD5 digest and of the cookie program.\<close>

text \<open>C15: The program's MD5 is the algorithm of RFC 1321, whatever the pieces the message is fed
  in: initialising, updating with each piece and finishing gives the digest of the whole.\<close>

theorem md5_pieces_digest:
  assumes "length (inb c) = 64" "\<forall>d \<in> set ds. length d < 2 ^ 32"
  shows "fst (MD5Final (foldl MD5Update (MD5Init c) ds)) = md5 (concat ds)"
  using MD5Final_digest [OF md5_stream.foldl_absorbed [OF MD5Init_absorbed [OF assms(1)] assms(2)]] by simp

definition demo_ctx :: md5_ctx where
  "demo_ctx = \<lparr>buf = (0, 0, 0, 0), bits0 = 0, bits1 = 0, inb = replicate 64 7\<rparr>"

lemma md5_abc: "md5 [0x61, 0x62, 0x63] =
    [0x90, 0x01, 0x50, 0x98, 0x3c, 0xd2, 0x4f, 0xb0, 0xd6, 0x96, 0x3f, 0x7d, 0x28, 0xe1, 0x7f, 0x72]"
  by code_simp

theorem md5_pieces_digest_witness:
  "fst (MD5Final (MD5Update (MD5Update (MD5Init demo_ctx) [0x61, 0x62]) [0x63])) =
     [0x90, 0x01, 0x50, 0x98, 0x3c, 0xd2, 0x4f, 0xb0, 0xd6, 0x96, 0x3f, 0x7d, 0x28, 0xe1, 0x7f, 0x72]"
  using md5_pieces_digest [of demo_ctx "[[0x61, 0x62], [0x63]]"] by (simp add: demo_ctx_def md5_abc)

text \<open>The cookie is 32 hexadecimal digits and a newline: the digest of the time, the process
  numbers, the file of the option \<open>-f\<close> with a zero byte, and what the random sources gave.\<close>

theorem mcookie_output:
  assumes "env_ok env"
  shows "mcookie env = concat (map hex_byte (md5 (cookie_data env))) @ [CHR 0x0A] \<and>
    length (mcookie env) = 33"
  by (simp add: mcookie_digest [OF assms] hex_bytes_length length_md5)

definition demo_env :: mcookie_env where
  "demo_env = \<lparr>env_tv = [0x61], env_ppid = [0x62], env_pid = [0x63], env_file = Some None,
     env_fs = (\<lambda>_. None), env_ctx = demo_ctx\<rparr>"

theorem mcookie_output_witness:
  "mcookie demo_env = ''900150983cd24fb0d6963f7d28e17f72'' @ [CHR 0x0A]"
proof -
  have "env_ok demo_env" by (simp add: env_ok_def demo_env_def demo_ctx_def reads_ok_def)
  moreover have "cookie_data demo_env = [0x61, 0x62, 0x63]"
    by (simp add: cookie_data_def demo_env_def rngs_def)
  moreover have "concat (map hex_byte
    [0x90, 0x01, 0x50, 0x98, 0x3c, 0xd2, 0x4f, 0xb0, 0xd6, 0x96, 0x3f, 0x7d, 0x28, 0xe1, 0x7f, 0x72]) =
      ''900150983cd24fb0d6963f7d28e17f72''" by code_simp
  ultimately show ?thesis using mcookie_output [of demo_env] by (simp add: md5_abc)
qed

end
