(* ===== verification/Makedevs.thy ===== *)
theory Makedevs
  imports Bytes
begin

text \<open>
  \<open>target/makedevs/makedevs.c\<close>: making the device nodes of a root file system from a table.

  The operating system is an environment that answers every call, given the calls so far: a
  negative number is \<open>-1\<close> with that \<open>errno\<close>, \<open>stat\<close> gives the mode, \<open>getpwnam\<close> and \<open>getgrnam\<close> the
  number. Functions thread the list of calls made. An access outside a buffer is \<open>None\<close>; \<open>Died\<close> is
  \<open>exit(1)\<close>. Arrays that are read before they are written have the contents \<open>junk\<close> gives. Reading
  the table does not fail. \<open>long\<close> and pointers have 64 bits.
\<close>


datatype call = Umask u32 | Mkdir string u32 | Stat string | Chmod string u32 | Chown string u32 u32
  | Mknod string u32 u32 u32 | Getpwnam string | Getgrnam string | Getuid | Getgid | Chdir string | Sync

type_synonym env = "call list \<Rightarrow> call \<Rightarrow> int"

definition sys :: "env \<Rightarrow> call \<Rightarrow> call list \<Rightarrow> int \<times> call list" where
  "sys e c h = (e h c, h @ [c])"

definition EEXIST :: int where "EEXIST = 17"

definition EISDIR :: int where "EISDIR = 21"

definition S_IFMT :: u32 where "S_IFMT = 0xF000"

definition S_IFIFO :: u32 where "S_IFIFO = 0x1000"

definition S_IFCHR :: u32 where "S_IFCHR = 0x2000"

definition S_IFDIR :: u32 where "S_IFDIR = 0x4000"

definition S_IFBLK :: u32 where "S_IFBLK = 0x6000"

definition S_IFREG :: u32 where "S_IFREG = 0x8000"

definition is_fmt :: "u32 \<Rightarrow> int \<Rightarrow> bool" where
  "is_fmt f st \<longleftrightarrow> 0 \<le> st \<and> word_of_int st AND S_IFMT = f"

section \<open>Making a directory and its parents\<close>

text \<open>Where the next parent ends: after the slashes that follow the next component.\<close>

definition next_stop :: "string \<Rightarrow> nat \<Rightarrow> nat" where
  "next_stop path s =
     (let r = drop s path; a = length (takeWhile (\<lambda>c. c \<noteq> CHR ''/'') r);
          b = length (takeWhile (\<lambda>c. c = CHR ''/'') (drop a r))
      in s + a + b)"

lemma next_stop_le: "s \<le> length path \<Longrightarrow> next_stop path s \<le> length path"
proof -
  assume s: "s \<le> length path"
  let ?r = "drop s path"
  let ?a = "length (takeWhile (\<lambda>c. c \<noteq> CHR ''/'') ?r)"
  have "?a \<le> length ?r" "length (takeWhile (\<lambda>c. c = CHR ''/'') (drop ?a ?r)) \<le> length (drop ?a ?r)"
    by (rule length_takeWhile_le)+
  then show ?thesis using s by (simp add: next_stop_def Let_def)
qed

lemma next_stop_gt: "s < length path \<Longrightarrow> s < next_stop path s"
  by (cases "drop s path") (auto simp: next_stop_def Let_def)

text \<open>
  The loop, with \<open>s\<close> the place in \<open>path\<close> that was reached. The path handed to the system is cut
  at the stop; \<open>c\<close> is the character there, a NUL for the full path.
\<close>

definition stop :: "bool \<Rightarrow> string \<Rightarrow> nat \<Rightarrow> nat" where
  "stop recur path s = (if recur then next_stop path s else length path)"

function make_dirs :: "env \<Rightarrow> bool \<Rightarrow> int \<Rightarrow> u32 \<Rightarrow> string \<Rightarrow> nat \<Rightarrow> call list \<Rightarrow> int \<times> call list" where
  "make_dirs e recur mode um path s h =
     (let s' = stop recur path s; c = cstr_at path s'; p = take s' path;
          (r, h1) = sys e (Mkdir p 0x1FF) h;
          exists = (r < 0 \<and> (- r = EEXIST \<or> - r = EISDIR) \<and> recur);
          (st, h2) = (if exists then sys e (Stat p) h1 else (0, h1))
      in
        if r < 0 \<and> \<not> (exists \<and> is_fmt S_IFDIR st) then (- 1, snd (sys e (Umask um) h2))
        else if r < 0 \<and> c = NUL then (0, snd (sys e (Umask um) h2))
        else if c = NUL then
          (let (_, h3) = sys e (Umask um) h2 in
           if mode \<noteq> - 1 then
             (let (r, h4) = sys e (Chmod p (word_of_int mode)) h3 in (if r < 0 then - 1 else 0, h4))
           else (0, h3))
        else make_dirs e recur mode um path s' h2)"
  by pat_completeness auto

lemma cstr_at_end: "cstr_at path n \<noteq> NUL \<Longrightarrow> n < length path"
  by (cases "n < length path") (auto simp: cstr_at_def)

lemma stop_progress: "cstr_at path (stop recur path s) \<noteq> NUL \<Longrightarrow> s < stop recur path s \<and> stop recur path s < length path"
proof -
  assume "cstr_at path (stop recur path s) \<noteq> NUL"
  then have a: "stop recur path s < length path" by (rule cstr_at_end)
  then have "recur" "next_stop path s < length path" by (auto simp: stop_def split: if_splits)
  moreover from this have "s < length path"
    by (cases "s < length path") (auto simp: next_stop_def Let_def)
  ultimately show ?thesis using a next_stop_gt [of s path] by (simp add: stop_def)
qed

termination make_dirs
  by (relation "measure (\<lambda>(e, recur, mode, um, path, s, h). length path - s)")
    (auto dest!: stop_progress)

declare make_dirs.simps [simp del]

text \<open>With \<open>mode = -1\<close> the mode is what the mask leaves of \<open>0777\<close>, and is set explicitly then.\<close>

definition bb_make_directory :: "env \<Rightarrow> string \<Rightarrow> int \<Rightarrow> bool \<Rightarrow> call list \<Rightarrow> int \<times> call list" where
  "bb_make_directory e path mode recur h =
     (let (r, h) = sys e (Umask 0) h; um = word_of_int r :: u32;
          (mode, h) = (if mode = - 1 then (uint (0x1FF AND NOT um), snd (sys e (Umask um) h))
                       else (mode, snd (sys e (Umask (um AND NOT 0xC0)) h)))
      in make_dirs e recur mode um path 0 h)"

section \<open>Lines, numbers and names\<close>

text \<open>
  Reading a line into a buffer that grows by \<open>GROWBY\<close> bytes: \<open>cs\<close> are the bytes stored, \<open>sz\<close> the size
  allocated. A store at or beyond \<open>sz\<close> is \<open>None\<close>; the first result is NULL at the end of the file.
\<close>

definition GROWBY :: nat where "GROWBY = 80"

definition end_line :: "string \<Rightarrow> nat \<Rightarrow> string \<Rightarrow> (string option \<times> string) option" where
  "end_line cs sz rest =
     (if sz = 0 then Some (None, rest) else if length cs < sz then Some (Some cs, rest) else None)"

fun get_line_loop :: "nat \<Rightarrow> string \<Rightarrow> string \<Rightarrow> nat \<Rightarrow> (string option \<times> string) option" where
  "get_line_loop c [] cs sz = end_line cs sz []"
| "get_line_loop c (ch # rest) cs sz =
     (let sz = (if int (length cs) > int sz - 2 then sz + GROWBY else sz) in
      if \<not> length cs < sz then None
      else if ch = NUL then Some (Some cs, rest)
      else if c < 2 \<and> ch = CHR 0x0A then end_line (if c \<noteq> 0 then cs else cs @ [ch]) sz rest
      else get_line_loop c rest (cs @ [ch]) sz)"

definition private_get_line_from_file :: "string \<Rightarrow> nat \<Rightarrow> (string option \<times> string) option" where
  "private_get_line_from_file file c = get_line_loop c file [] 0"

definition bb_get_chomped_line_from_file :: "string \<Rightarrow> (string option \<times> string) option" where
  "bb_get_chomped_line_from_file file = private_get_line_from_file file 1"

text \<open>
  \<open>strtoul\<close>: white space, a sign, digits; the value saturates, a minus sign negates it in the 64 bits.
  The second result is what follows, all of the string when there are no digits.
\<close>

definition base_char :: "nat \<Rightarrow> char \<Rightarrow> bool" where
  "base_char base c \<longleftrightarrow> isdigit c \<and> digit_val c < base"

definition strtoul :: "nat \<Rightarrow> string \<Rightarrow> 64 word \<times> string" where
  "strtoul base str =
     (let s = dropWhile isspace str;
          neg = (cstr_at s 0 = CHR ''-'');
          s = (if neg \<or> cstr_at s 0 = CHR ''+'' then tl s else s);
          ds = takeWhile (base_char base) s;
          v = foldl (\<lambda>a c. a * base + digit_val c) 0 ds;
          w = (if 2 ^ 64 \<le> v then - 1 else if neg then - of_nat v else of_nat v)
      in if ds = [] then (0, str) else (w, drop (length ds) s))"

definition get_ug_id :: "env \<Rightarrow> (string \<Rightarrow> call) \<Rightarrow> string \<Rightarrow> call list \<Rightarrow> 64 word option \<times> call list" where
  "get_ug_id e getxxnam s h =
     (let (r, p) = strtoul 10 s in
      if p \<noteq> [] \<or> p = s then
        (let (r, h) = sys e (getxxnam s) h in (if r < 0 then None else Some (word_of_int r), h))
      else (Some r, h))"

definition last_char_is :: "string \<Rightarrow> char \<Rightarrow> bool" where
  "last_char_is s c \<longleftrightarrow> s \<noteq> [] \<and> last s = c"

definition concat_path_file :: "string option \<Rightarrow> string \<Rightarrow> string" where
  "concat_path_file path filename =
     (let path = (case path of None \<Rightarrow> [] | Some p \<Rightarrow> p) in
      path @ (if last_char_is path CHR ''/'' then [] else ''/'') @ dropWhile (\<lambda>c. c = CHR ''/'') filename)"


section \<open>A line of the table\<close>

text \<open>
  \<open>sscanf\<close> with the conversions used: each skips white space; numbers are read as \<open>unsigned long\<close> and
  stored as \<open>unsigned int\<close>. The values converted before the first failure are returned.
\<close>

datatype conv = Cstr nat | Cchr | Cnum nat

datatype conv_val = Vstr string | Vchr char | Vnum u32

definition scan_one :: "conv \<Rightarrow> string \<Rightarrow> (conv_val \<times> string) option" where
  "scan_one d str =
     (let s = dropWhile isspace str in
      case d of
        Cstr n \<Rightarrow> (let t = take n (takeWhile (\<lambda>c. \<not> isspace c) s) in
                   if t = [] then None else Some (Vstr t, drop (length t) s))
      | Cchr \<Rightarrow> (case s of [] \<Rightarrow> None | c # r \<Rightarrow> Some (Vchr c, r))
      | Cnum base \<Rightarrow> (let (v, r) = strtoul base s in if r = s then None else Some (Vnum (ucast v), r)))"

fun sscanf :: "conv list \<Rightarrow> string \<Rightarrow> conv_val list" where
  "sscanf [] s = []"
| "sscanf (d # ds) s = (case scan_one d s of None \<Rightarrow> [] | Some (v, r) \<Rightarrow> v # sscanf ds r)"

record dev =
  d_name :: string
  d_type :: char
  d_mode :: u32
  d_user :: string
  d_group :: string
  d_major :: u32
  d_minor :: u32
  d_start :: u32
  d_increment :: u32
  d_count :: u32

definition table_format :: "conv list" where
  "table_format = [Cstr 40, Cchr, Cnum 8, Cstr 40, Cstr 40, Cnum 10, Cnum 10, Cnum 10, Cnum 10, Cnum 10]"

definition num_field :: "conv_val list \<Rightarrow> nat \<Rightarrow> u32 \<Rightarrow> u32" where
  "num_field vs i d = (if i < length vs then (case vs ! i of Vnum n \<Rightarrow> n | _ \<Rightarrow> d) else d)"

definition str_field :: "conv_val list \<Rightarrow> nat \<Rightarrow> string \<Rightarrow> string" where
  "str_field vs i d = (if i < length vs then (case vs ! i of Vstr t \<Rightarrow> t | _ \<Rightarrow> d) else d)"

definition chr_field :: "conv_val list \<Rightarrow> nat \<Rightarrow> char" where
  "chr_field vs i = (case vs ! i of Vchr c \<Rightarrow> c | _ \<Rightarrow> NUL)"

definition parse_device :: "string \<times> string \<Rightarrow> string \<Rightarrow> dev option" where
  "parse_device junk l =
     (let vs = sscanf table_format l;
          d = \<lparr>d_name = str_field vs 0 [], d_type = chr_field vs 1, d_mode = num_field vs 2 0x1ED,
               d_user = str_field vs 3 (fst junk), d_group = str_field vs 4 (snd junk),
               d_major = num_field vs 5 0, d_minor = num_field vs 6 0, d_start = num_field vs 7 0,
               d_increment = num_field vs 8 0, d_count = num_field vs 9 0\<rparr>
      in if length vs < 2 \<or>
            0xFF < (d_major d OR d_minor d OR d_start d OR d_count d OR d_increment d) then None
         else Some d)"

definition comment_line :: "string \<Rightarrow> bool" where
  "comment_line l \<longleftrightarrow> cstr_at l 0 = NUL \<or> cstr_at l 0 = CHR ''#'' \<or> isspace (cstr_at l 0)"

section \<open>Making what a line asks for\<close>

text \<open>Decimal output of a number that is not negative.\<close>

fun itoa :: "nat \<Rightarrow> string" where
  "itoa n = (if n < 10 then [char_of (48 + n)] else itoa (n div 10) @ [char_of (48 + n mod 10)])"

declare itoa.simps [simp del]

definition set_mode :: "env \<Rightarrow> string \<Rightarrow> u32 \<Rightarrow> call list \<Rightarrow> bool \<times> call list" where
  "set_mode e path mode h =
     (if mode \<noteq> - 1 then (let (r, h) = sys e (Chmod path mode) h in (\<not> r < 0, h)) else (True, h))"

text \<open>A node: no owner when it was not made, but the mode is set in any case.\<close>

definition make_node :: "env \<Rightarrow> string \<Rightarrow> u32 \<Rightarrow> u32 \<Rightarrow> u32 \<Rightarrow> u32 \<Rightarrow> u32 \<Rightarrow> call list \<Rightarrow> bool \<times> call list" where
  "make_node e path mode uid gid major minor h =
     (let (r, h) = sys e (Mknod path mode major minor) h;
          (made, h) = (if r < 0 then (False, h)
                       else (let (r, h) = sys e (Chown path uid gid) h in (\<not> r < 0, h)));
          (ok, h) = set_mode e path mode h
      in (made \<and> ok, h))"

text \<open>\<open>sprintf\<close> into an array of \<open>sz\<close> bytes, the terminating NUL included.\<close>

definition sprintf_into :: "nat \<Rightarrow> string \<Rightarrow> string option" where
  "sprintf_into sz t = (if length t < sz then Some t else None)"

fun make_nodes :: "env \<Rightarrow> string \<Rightarrow> dev \<Rightarrow> u32 \<Rightarrow> u32 \<Rightarrow> u32 \<Rightarrow> nat list \<Rightarrow> call list \<Rightarrow> (bool \<times> call list) option" where
  "make_nodes e full_name d mode uid gid [] h = Some (True, h)"
| "make_nodes e full_name d mode uid gid (i # is) h =
     (case sprintf_into (length full_name + 4) (full_name @ itoa i) of
        None \<Rightarrow> None
      | Some p \<Rightarrow>
          (let (ok, h) = make_node e p mode uid gid (d_major d)
                 (d_minor d + (of_nat i * d_increment d - d_start d)) h
           in map_option (\<lambda>(oks, h). (ok \<and> oks, h)) (make_nodes e full_name d mode uid gid is h)))"

definition owner_and_mode :: "env \<Rightarrow> string \<Rightarrow> dev \<Rightarrow> u32 \<Rightarrow> u32 \<Rightarrow> call list \<Rightarrow> bool \<times> call list" where
  "owner_and_mode e full_name d uid gid h =
     (let (r, h) = sys e (Chown full_name uid gid) h in
      if r < 0 then (False, h) else set_mode e full_name (d_mode d) h)"

definition make_directory :: "env \<Rightarrow> string \<Rightarrow> dev \<Rightarrow> u32 \<Rightarrow> u32 \<Rightarrow> call list \<Rightarrow> bool \<times> call list" where
  "make_directory e full_name d uid gid h =
     owner_and_mode e full_name d uid gid
       (snd (bb_make_directory e full_name (uint (d_mode d OR S_IFDIR)) True h))"

definition make_regular :: "env \<Rightarrow> string \<Rightarrow> dev \<Rightarrow> u32 \<Rightarrow> u32 \<Rightarrow> call list \<Rightarrow> bool \<times> call list" where
  "make_regular e full_name d uid gid h =
     (let (st, h) = sys e (Stat full_name) h in
      if \<not> is_fmt S_IFREG st then (False, h) else owner_and_mode e full_name d uid gid h)"

definition node_format :: "char \<Rightarrow> u32 option" where
  "node_format type =
     (if type = CHR ''p'' then Some S_IFIFO else if type = CHR ''c'' then Some S_IFCHR
      else if type = CHR ''b'' then Some S_IFBLK else None)"

definition make_device :: "env \<Rightarrow> string \<Rightarrow> dev \<Rightarrow> u32 \<Rightarrow> u32 \<Rightarrow> call list \<Rightarrow> (bool \<times> call list) option" where
  "make_device e full_name d uid gid h =
     (if d_type d = CHR ''d'' then Some (make_directory e full_name d uid gid h)
      else if d_type d = CHR ''f'' then Some (make_regular e full_name d uid gid h)
      else case node_format (d_type d) of
          None \<Rightarrow> Some (False, h)
        | Some f \<Rightarrow>
            (let mode = d_mode d OR f in
             if 0 < d_count d then
               make_nodes e full_name d mode uid gid [unat (d_start d)..<unat (d_count d)] h
             else Some (make_node e full_name mode uid gid (d_major d) (d_minor d) h)))"

section \<open>The program\<close>

datatype status = Died | Alive int

definition get_id :: "env \<Rightarrow> (string \<Rightarrow> call) \<Rightarrow> call \<Rightarrow> string \<Rightarrow> call list \<Rightarrow> 64 word option \<times> call list" where
  "get_id e getxxnam mine s h =
     (if s \<noteq> [] then get_ug_id e getxxnam s h
      else (let (r, h) = sys e mine h in (Some (word_of_int r), h)))"

definition do_line :: "env \<Rightarrow> string \<Rightarrow> string \<times> string \<Rightarrow> string \<Rightarrow> int \<Rightarrow> call list \<Rightarrow> (status \<times> call list) option" where
  "do_line e rootdir junk l ret h =
     (case parse_device junk l of
        None \<Rightarrow> Some (Alive (if comment_line l then ret else 1), h)
      | Some d \<Rightarrow>
          if cstr_at (d_name d) 0 = CHR ''#'' then Some (Alive ret, h)
          else
            (let (gid, h) = get_id e Getgrnam Getgid (d_group d) h in
             case gid of
               None \<Rightarrow> Some (Died, h)
             | Some gid \<Rightarrow>
                 (let (uid, h) = get_id e Getpwnam Getuid (d_user d) h in
                  case uid of
                    None \<Rightarrow> Some (Died, h)
                  | Some uid \<Rightarrow>
                      map_option (\<lambda>(ok, h). (Alive (if ok then ret else 1), h))
                        (make_device e (concat_path_file (Some rootdir) (d_name d)) d (ucast uid) (ucast gid) h))))"

text \<open>The lines of the table, the arrays before line \<open>n\<close> holding \<open>junk n\<close>; the bound is on the lines.\<close>

fun do_table :: "nat \<Rightarrow> env \<Rightarrow> string \<Rightarrow> (nat \<Rightarrow> string \<times> string) \<Rightarrow> nat \<Rightarrow> string \<Rightarrow> int \<Rightarrow> call list \<Rightarrow>
    (status \<times> call list) option" where
  "do_table 0 e rootdir junk n file ret h = None"
| "do_table (Suc k) e rootdir junk n file ret h =
     (case bb_get_chomped_line_from_file file of
        None \<Rightarrow> None
      | Some (None, rest) \<Rightarrow> Some (Alive ret, h)
      | Some (Some l, rest) \<Rightarrow>
          (case do_line e rootdir (junk n) l ret h of
             None \<Rightarrow> None
           | Some (Died, h) \<Rightarrow> Some (Died, h)
           | Some (Alive ret, h) \<Rightarrow> do_table k e rootdir junk (Suc n) rest ret h))"

text \<open>After the options: the exit status is 0 whatever became of the lines.\<close>

definition makedevs :: "nat \<Rightarrow> env \<Rightarrow> string option \<Rightarrow> (nat \<Rightarrow> string \<times> string) \<Rightarrow> string \<Rightarrow> (int \<times> call list) option" where
  "makedevs k e rootdir junk table =
     (case rootdir of
        None \<Rightarrow> Some (1, [])
      | Some rootdir \<Rightarrow>
          (let (r, h) = sys e (Chdir rootdir) [] in
           if r < 0 then Some (1, h)
           else
             (let (_, h) = sys e (Umask 0) h in
              case do_table k e rootdir junk 0 table 0 h of
                None \<Rightarrow> None
              | Some (Died, h) \<Rightarrow> Some (1, h)
              | Some (Alive _, h) \<Rightarrow> Some (0, snd (sys e Sync h)))))"

end
