(* ===== verification/Makedevs_Props.thy ===== *)
theory Makedevs_Props
  imports Makedevs
begin

text \<open>The properties of \<open>makedevs\<close>, for every behaviour of the operating system.\<close>

section \<open>Lines\<close>

definition line_char :: "char \<Rightarrow> bool" where
  "line_char c \<longleftrightarrow> c \<noteq> CHR 0x0A \<and> c \<noteq> NUL"

text \<open>The line buffer is never overrun, and a call gives the text up to the next newline or NUL.\<close>

lemma get_line_loop_spec:
  "length cs \<le> sz - 1 \<Longrightarrow> (sz = 0 \<Longrightarrow> inp \<noteq> []) \<Longrightarrow>
     get_line_loop 1 inp cs sz =
       Some (Some (cs @ takeWhile line_char inp), drop (Suc (length (takeWhile line_char inp))) inp)"
proof (induction "1 :: nat" inp cs sz rule: get_line_loop.induct)
  case (1 cs sz)
  then show ?case by (cases sz) (auto simp: end_line_def)
next
  case (2 ch rest cs sz)
  let ?sz = "if int (length cs) > int sz - 2 then sz + GROWBY else sz"
  have sz: "length cs < ?sz" "Suc (length cs) \<le> ?sz - 1" "?sz \<noteq> 0"
    using 2(2) by (auto simp: GROWBY_def)
  show ?case
  proof (cases "line_char ch")
    case True
    have "get_line_loop 1 rest (cs @ [ch]) ?sz =
      Some (Some ((cs @ [ch]) @ takeWhile line_char rest), drop (Suc (length (takeWhile line_char rest))) rest)"
      by (rule 2(1)) (use True sz in \<open>auto simp: line_char_def\<close>)
    then show ?thesis using True sz(1) by (simp add: Let_def line_char_def)
  next
    case False
    then show ?thesis using sz by (auto simp: Let_def line_char_def end_line_def)
  qed
qed

lemma get_line_spec:
  "bb_get_chomped_line_from_file inp =
     Some (if inp = [] then (None, [])
           else (Some (takeWhile line_char inp), drop (Suc (length (takeWhile line_char inp))) inp))"
  using get_line_loop_spec [of "[]" 0 inp]
  by (auto simp: bb_get_chomped_line_from_file_def private_get_line_from_file_def end_line_def)

section \<open>Nodes\<close>

lemma or_le_255: "(a OR b :: u32) \<le> 0xFF \<longleftrightarrow> a \<le> 0xFF \<and> b \<le> 0xFF"
proof -
  have m: "x \<le> 0xFF \<longleftrightarrow> drop_bit 8 x = 0" for x :: u32
  proof -
    have "drop_bit 8 x = 0 \<longleftrightarrow> unat x div 256 = 0"
      by (simp add: drop_bit_eq_div unat_eq_zero [symmetric] unat_div)
    then show ?thesis by (simp add: word_le_nat_alt) linarith
  qed
  show ?thesis unfolding m by (auto simp: drop_bit_or or_eq_0_iff)
qed

lemma parse_device_small:
  assumes "parse_device junk l = Some d"
  shows "unat (d_major d) \<le> 255" "unat (d_minor d) \<le> 255" "unat (d_start d) \<le> 255"
    "unat (d_count d) \<le> 255" "unat (d_increment d) \<le> 255"
proof -
  have "d_major d OR d_minor d OR d_start d OR d_count d OR d_increment d \<le> 0xFF"
    using assms by (auto simp: parse_device_def Let_def not_less split: if_splits)
  then show "unat (d_major d) \<le> 255" "unat (d_minor d) \<le> 255" "unat (d_start d) \<le> 255"
    "unat (d_count d) \<le> 255" "unat (d_increment d) \<le> 255"
    unfolding or_le_255 by (simp_all add: word_le_nat_alt)
qed

lemma itoa_short: "n < 1000 \<Longrightarrow> length (itoa n) \<le> 3"
  by (subst itoa.simps, simp, subst itoa.simps, simp, subst itoa.simps) simp

definition mknods :: "call list \<Rightarrow> call list" where
  "mknods h = filter (\<lambda>c. case c of Mknod _ _ _ _ \<Rightarrow> True | _ \<Rightarrow> False) h"

definition node_call :: "string \<Rightarrow> dev \<Rightarrow> u32 \<Rightarrow> nat \<Rightarrow> call" where
  "node_call p d mode i = Mknod (p @ itoa i) mode (d_major d) (d_minor d + (of_nat i * d_increment d - d_start d))"

lemma mknods_append [simp]: "mknods (a @ b) = mknods a @ mknods b"
  by (simp add: mknods_def)

lemma make_node_calls:
  obtains ok t where "make_node e path mode uid gid major minor h = (ok, h @ t)"
    "mknods t = [Mknod path mode major minor]"
proof -
  have "\<exists>ok t. make_node e path mode uid gid major minor h = (ok, h @ t) \<and> mknods t = [Mknod path mode major minor]"
    by (auto simp: make_node_def set_mode_def sys_def mknods_def Let_def)
  then show ?thesis using that by blast
qed

lemma make_nodes_calls:
  assumes "\<forall>i \<in> set is. i < 1000"
  shows "\<exists>ok t. make_nodes e p d mode uid gid is h = Some (ok, h @ t) \<and> mknods t = map (node_call p d mode) is"
  using assms
proof (induction "is" arbitrary: h)
  case Nil
  then show ?case by (auto simp: mknods_def)
next
  case (Cons i "is")
  have s: "sprintf_into (length p + 4) (p @ itoa i) = Some (p @ itoa i)"
    using itoa_short [of i] Cons.prems by (simp add: sprintf_into_def)
  obtain ok t where 1: "make_node e (p @ itoa i) mode uid gid (d_major d)
      (d_minor d + (of_nat i * d_increment d - d_start d)) h = (ok, h @ t)" "mknods t = [node_call p d mode i]"
    by (rule make_node_calls [of e "p @ itoa i" mode uid gid "d_major d"
          "d_minor d + (of_nat i * d_increment d - d_start d)" h]) (auto simp: node_call_def)
  from Cons.IH [of "h @ t"] Cons.prems obtain oks u where
    2: "make_nodes e p d mode uid gid is (h @ t) = Some (oks, h @ t @ u)" "mknods u = map (node_call p d mode) is"
    by auto
  show ?case using 1 2 by (auto simp: s intro!: exI [of _ "t @ u"])
qed


text \<open>C16: A line for several nodes makes, whatever the system answers, exactly the nodes from \<open>start\<close>
  up to but not including \<open>count\<close>, in order, the number appended to the name, with the minor number
  of the line plus \<open>i * increment - start\<close>; the name never overruns its buffer.\<close>

theorem makedevs_node_range:
  assumes "parse_device junk l = Some d" "node_format (d_type d) = Some f" "0 < d_count d"
  shows "\<exists>ok t. make_device e p d uid gid h = Some (ok, h @ t) \<and>
    mknods t = map (node_call p d (d_mode d OR f)) [unat (d_start d)..<unat (d_count d)]"
proof -
  have "\<forall>i \<in> set [unat (d_start d)..<unat (d_count d)]. i < 1000"
    using parse_device_small(4) [OF assms(1)] by auto
  moreover have "d_type d \<noteq> CHR ''d''" "d_type d \<noteq> CHR ''f''"
    using assms(2) by (auto simp: node_format_def)
  ultimately show ?thesis
    using make_nodes_calls [of "[unat (d_start d)..<unat (d_count d)]" e p d "d_mode d OR f" uid gid h] assms(2,3)
    by (simp add: make_device_def Let_def)
qed

definition demo_hda :: string where
  "demo_hda = ''/dev/hda b 640 0 0 3 1 1 1 4''"

definition demo_dev :: dev where
  "demo_dev = \<lparr>d_name = ''/dev/hda'', d_type = CHR ''b'', d_mode = 0x1A0, d_user = ''0'', d_group = ''0'',
     d_major = 3, d_minor = 1, d_start = 1, d_increment = 1, d_count = 4\<rparr>"

lemma demo_parse: "parse_device ([], []) demo_hda = Some demo_dev"
  by (simp add: parse_device_def demo_hda_def demo_dev_def table_format_def scan_one_def strtoul_def
      isspace_def base_char_def isdigit_def digit_val_def Let_def num_field_def str_field_def chr_field_def
      cstr_at_def)

theorem makedevs_node_range_witness:
  "\<exists>ok t. make_device (\<lambda>_ _. 0) ''/r/dev/hda'' demo_dev 0 0 [] = Some (ok, t) \<and>
     mknods t = [Mknod ''/r/dev/hda1'' 0x61A0 3 1, Mknod ''/r/dev/hda2'' 0x61A0 3 2, Mknod ''/r/dev/hda3'' 0x61A0 3 3]"
proof -
  have f: "node_format (d_type demo_dev) = Some S_IFBLK" "0 < d_count demo_dev"
    by (simp_all add: demo_dev_def node_format_def)
  have m: "map (node_call ''/r/dev/hda'' demo_dev (d_mode demo_dev OR S_IFBLK))
      [unat (d_start demo_dev)..<unat (d_count demo_dev)] =
     [Mknod ''/r/dev/hda1'' 0x61A0 3 1, Mknod ''/r/dev/hda2'' 0x61A0 3 2, Mknod ''/r/dev/hda3'' 0x61A0 3 3]"
    by code_simp
  from makedevs_node_range [OF demo_parse f, of "\<lambda>_ _. 0" "''/r/dev/hda''" 0 0 "[]"] show ?thesis
    unfolding m by simp
qed

section \<open>The program ends\<close>

lemma make_device_total:
  assumes "parse_device junk l = Some d"
  shows "\<exists>r. make_device e p d uid gid h = Some r"
proof (cases "node_format (d_type d)")
  case (Some f)
  have "\<forall>i \<in> set [unat (d_start d)..<unat (d_count d)]. i < 1000"
    using parse_device_small(4) [OF assms(1)] by auto
  from make_nodes_calls [OF this, of e p d "d_mode d OR f" uid gid h] Some show ?thesis
    by (auto simp: make_device_def Let_def)
qed (auto simp: make_device_def)

lemma do_line_total: "\<exists>r. do_line e rootdir junk l ret h = Some r"
proof (cases "parse_device junk l")
  case (Some d)
  show ?thesis
    using make_device_total [OF Some] Some by (fastforce simp: do_line_def split_beta Let_def split: option.splits)
qed (simp add: do_line_def)

lemma do_table_total: "length table < k \<Longrightarrow> \<exists>r. do_table k e rootdir junk n table ret h = Some r"
proof (induction k arbitrary: n table ret h)
  case (Suc k)
  show ?case
  proof (cases "table = []")
    case False
    let ?rest = "drop (Suc (length (takeWhile line_char table))) table"
    obtain st h' where l: "do_line e rootdir (junk n) (takeWhile line_char table) ret h = Some (st, h')"
      using do_line_total by fastforce
    have "length ?rest < k" using False Suc.prems by (cases table) auto
    from Suc.IH [OF this] l False show ?thesis by (cases st) (auto simp: get_line_spec)
  qed (simp add: get_line_spec)
qed simp

text \<open>Whatever the table holds and the system answers, the program ends without touching memory
  outside its buffers (the line buffer, the number appended to a name), and with status 0 or 1.
  A bound of one more than the length of the table is enough.\<close>

theorem makedevs_ends:
  "\<exists>code calls. makedevs (Suc (length table)) e rootdir junk table = Some (code, calls) \<and> code \<in> {0, 1}"
proof (cases rootdir)
  case (Some dir)
  have "\<exists>st h'. do_table (Suc (length table)) e dir junk 0 table 0 h = Some (st, h')" for h
    using do_table_total [of table "Suc (length table)" e dir junk 0 0 h] by auto
  then obtain st h' where "do_table (Suc (length table)) e dir junk 0 table 0
      (snd (sys e (Umask 0) (snd (sys e (Chdir dir) [])))) = Some (st, h')" by blast
  then show ?thesis using Some by (cases st) (simp_all add: makedevs_def split_beta Let_def del: do_table.simps)
qed (simp add: makedevs_def)

section \<open>Directories\<close>

definition umasks :: "call list \<Rightarrow> call list" where
  "umasks h = filter (\<lambda>c. case c of Umask _ \<Rightarrow> True | _ \<Rightarrow> False) h"

definition mkdirs :: "call list \<Rightarrow> call list" where
  "mkdirs h = filter (\<lambda>c. case c of Mkdir _ _ \<Rightarrow> True | _ \<Rightarrow> False) h"

lemma call_filters [simp]: "umasks (a @ b) = umasks a @ umasks b" "mkdirs (a @ b) = mkdirs a @ mkdirs b"
  by (simp_all add: umasks_def mkdirs_def)

text \<open>The places where a path is cut: its end, and after a group of slashes.\<close>

definition cut :: "string \<Rightarrow> nat \<Rightarrow> bool" where
  "cut path n \<longleftrightarrow> n = length path \<or> 0 < n \<and> path ! (n - 1) = CHR ''/'' \<and> path ! n \<noteq> CHR ''/''"

definition parents :: "string \<Rightarrow> nat \<Rightarrow> nat list" where
  "parents path s = filter (cut path) [Suc s..<Suc (length path)]"

lemma takeWhile_drop_at: "i < length (takeWhile P (drop k xs)) \<Longrightarrow> P (xs ! (k + i))"
proof -
  assume i: "i < length (takeWhile P (drop k xs))"
  have "P (takeWhile P (drop k xs) ! i)" using nth_mem [OF i] by (auto dest: set_takeWhileD)
  moreover have "i < length (drop k xs)" using i length_takeWhile_le [of P "drop k xs"] by linarith
  ultimately show ?thesis using takeWhile_nth [OF i] by simp
qed

lemma next_stop_cut:
  assumes "s < length path"
  shows "cut path (next_stop path s)" "\<And>m. s < m \<Longrightarrow> m < next_stop path s \<Longrightarrow> \<not> cut path m"
proof -
  define a where "a = length (takeWhile (\<lambda>c. c \<noteq> CHR ''/'') (drop s path))"
  define b where "b = length (takeWhile (\<lambda>c. c = CHR ''/'') (drop (s + a) path))"
  have n: "next_stop path s = s + a + b" by (simp add: next_stop_def Let_def a_def b_def add.commute)
  have A: "path ! (s + i) \<noteq> CHR ''/''" if "i < a" for i
    using takeWhile_drop_at [OF that [unfolded a_def]] .
  have B: "path ! (s + a + i) = CHR ''/''" if "i < b" for i
    using takeWhile_drop_at [OF that [unfolded b_def]] .
  show "cut path (next_stop path s)"
  proof (cases "next_stop path s = length path")
    case False
    then have lt: "s + a + b < length path" using next_stop_le [of s path] assms n by simp
    then have "path ! (s + a) = CHR ''/''"
      using nth_length_takeWhile [of "\<lambda>c. c \<noteq> CHR ''/''" "drop s path"] by (simp add: a_def [symmetric])
    moreover have e: "path ! (s + a + b) \<noteq> CHR ''/''"
      using nth_length_takeWhile [of "\<lambda>c. c = CHR ''/''" "drop (s + a) path"] lt by (simp add: b_def [symmetric])
    ultimately have "0 < b" by (cases b) auto
    then show ?thesis using B [of "b - 1"] e n by (simp add: cut_def)
  qed (simp add: cut_def)
  show "\<not> cut path m" if "s < m" "m < next_stop path s" for m
  proof -
    have m: "m < length path" using that next_stop_le [of s path] assms by simp
    show ?thesis
    proof (cases "m - 1 < s + a")
      case True
      then show ?thesis using A [of "m - 1 - s"] that m by (simp add: cut_def)
    next
      case False
      then show ?thesis using B [of "m - s - a"] that m n by (simp add: cut_def)
    qed
  qed
qed

lemma parents_step:
  assumes "s < length path"
  shows "parents path s = next_stop path s # parents path (next_stop path s)"
proof -
  let ?n = "next_stop path s"
  have "[Suc s..<Suc (length path)] = [Suc s..<?n] @ ?n # [Suc ?n..<Suc (length path)]"
    using next_stop_gt [OF assms] next_stop_le [of s path] assms
      upt_add_eq_append [of "Suc s" ?n "Suc (length path) - ?n"] upt_conv_Cons [of ?n "Suc (length path)"] by auto
  moreover have "filter (cut path) [Suc s..<?n] = []"
    using next_stop_cut(2) [OF assms] by (auto simp: filter_empty_conv)
  ultimately show ?thesis using next_stop_cut(1) [OF assms] by (simp add: parents_def)
qed

lemma parents_end [simp]: "parents path (length path) = []"
  by (simp add: parents_def)

lemma filter_calls [simp]:
  "umasks [] = []" "mkdirs [] = []"
  "umasks (Mkdir p m # t) = umasks t" "umasks (Stat p # t) = umasks t" "umasks (Umask u # t) = Umask u # umasks t"
  "umasks (Chmod p m # t) = umasks t" "mkdirs (Mkdir p m # t) = Mkdir p m # mkdirs t" "mkdirs (Stat p # t) = mkdirs t"
  "mkdirs (Umask u # t) = mkdirs t" "mkdirs (Chmod p m # t) = mkdirs t"
  by (simp_all add: umasks_def mkdirs_def)

text \<open>One round: it is the last one, or the path is cut before its end and the loop goes on.\<close>

lemma make_dirs_round:
  obtains r t where "make_dirs e recur mode um path s h = (r, h @ Mkdir (take (stop recur path s) path) 0x1FF # t)"
      "umasks t = [Umask um]" "mkdirs t = []" "r = 0 \<longrightarrow> cstr_at path (stop recur path s) = NUL" "r = 0 \<or> r = - 1"
  | t where "cstr_at path (stop recur path s) \<noteq> NUL" "umasks t = []" "mkdirs t = []"
      "make_dirs e recur mode um path s h =
         make_dirs e recur mode um path (stop recur path s) (h @ Mkdir (take (stop recur path s) path) 0x1FF # t)"
proof -
  let ?s = "stop recur path s"
  let ?p = "take ?s path"
  let ?c = "cstr_at path ?s"
  define a where "a = e h (Mkdir ?p 0x1FF)"
  define ex where "ex \<longleftrightarrow> a < 0 \<and> (- a = EEXIST \<or> - a = EISDIR) \<and> recur"
  define st where "st = e (h @ [Mkdir ?p 0x1FF]) (Stat ?p)"
  define t where "t = (if ex then [Stat ?p] else [])"
  have t: "umasks t = []" "mkdirs t = []" by (simp_all add: t_def)
  note step = make_dirs.simps [of e recur mode um path s h]
  note defs = sys_def Let_def ex_def a_def st_def t_def
  consider "a < 0" "\<not> (ex \<and> is_fmt S_IFDIR st)" | "a < 0" "ex \<and> is_fmt S_IFDIR st" "?c = NUL" | "\<not> a < 0" "?c = NUL"
    | "\<not> (a < 0 \<and> \<not> (ex \<and> is_fmt S_IFDIR st))" "?c \<noteq> NUL" by blast
  then show ?thesis
  proof cases
    case 1
    then have "make_dirs e recur mode um path s h = (- 1, h @ Mkdir ?p 0x1FF # t @ [Umask um])"
      by (subst step, cases recur) (auto simp: defs)
    then show ?thesis using t by (intro that(1) [of "- 1" "t @ [Umask um]"]) auto
  next
    case 2
    then have "make_dirs e recur mode um path s h = (0, h @ Mkdir ?p 0x1FF # t @ [Umask um])"
      by (subst step, cases recur) (auto simp: defs)
    then show ?thesis using t 2 by (intro that(1) [of 0 "t @ [Umask um]"]) auto
  next
    case 3
    then have "\<not> ex" by (simp add: ex_def)
    with 3 have "\<exists>r u. make_dirs e recur mode um path s h = (r, h @ Mkdir ?p 0x1FF # t @ Umask um # u) \<and>
        umasks u = [] \<and> mkdirs u = [] \<and> (r = 0 \<or> r = - 1)"
      by (subst step, cases recur) (auto simp: defs)
    then show ?thesis using t 3 that(1) by (metis append_Cons call_filters filter_calls(5,9) append_Nil)
  next
    case 4
    then have "make_dirs e recur mode um path s h = make_dirs e recur mode um path ?s (h @ Mkdir ?p 0x1FF # t)"
      by (subst step, cases recur) (auto simp: defs)
    then show ?thesis using t 4 by (intro that(2)) auto
  qed
qed

lemma make_dirs_umask:
  "\<exists>r t. make_dirs e recur mode um path s h = (r, h @ t) \<and> umasks t = [Umask um]"
proof (induction "length path - s" arbitrary: s h rule: less_induct)
  case less
  show ?case
  proof (rule make_dirs_round [of e recur mode um path s h])
    fix t assume c: "cstr_at path (stop recur path s) \<noteq> NUL" and t: "umasks t = []" "mkdirs t = []" and
      e: "make_dirs e recur mode um path s h =
         make_dirs e recur mode um path (stop recur path s) (h @ Mkdir (take (stop recur path s) path) 0x1FF # t)"
    have lt: "length path - stop recur path s < length path - s" using stop_progress [OF c] by arith
    obtain r u where "make_dirs e recur mode um path (stop recur path s) (h @ Mkdir (take (stop recur path s) path) 0x1FF # t) =
        (r, (h @ Mkdir (take (stop recur path s) path) 0x1FF # t) @ u)" "umasks u = [Umask um]"
      using less [OF lt] by blast
    then show ?thesis using t unfolding e
      by (intro exI [of _ r] exI [of _ "Mkdir (take (stop recur path s) path) 0x1FF # t @ u"]) simp
  qed auto
qed

lemma make_dirs_parents:
  assumes "NUL \<notin> set path"
  shows "s < length path \<Longrightarrow> \<exists>r t n. make_dirs e True mode um path s h = (r, h @ t) \<and> (r = 0 \<or> r = - 1) \<and>
    mkdirs t = map (\<lambda>n. Mkdir (take n path) 0x1FF) (take n (parents path s)) \<and>
    (r = 0 \<longrightarrow> length (parents path s) \<le> n)"
proof (induction "length path - s" arbitrary: s h rule: less_induct)
  case less
  have stop: "stop True path s = next_stop path s" by (simp add: stop_def)
  note p = parents_step [OF less.prems]
  show ?case
  proof (rule make_dirs_round [of e True mode um path s h])
    fix r t assume a: "make_dirs e True mode um path s h = (r, h @ Mkdir (take (stop True path s) path) 0x1FF # t)"
      "umasks t = [Umask um]" "mkdirs t = []" "r = 0 \<longrightarrow> cstr_at path (stop True path s) = NUL" "r = 0 \<or> r = - 1"
    have "next_stop path s = length path" if "cstr_at path (next_stop path s) = NUL"
      using that assms next_stop_le [of s path] less.prems by (fastforce simp: cstr_at_def dest: nth_mem split: if_splits)
    then show ?thesis using a by (auto simp: stop p intro!: exI [of _ "Suc 0"])
  next
    fix t assume c: "cstr_at path (stop True path s) \<noteq> NUL" and t: "umasks t = []" "mkdirs t = []" and
      e: "make_dirs e True mode um path s h =
         make_dirs e True mode um path (stop True path s) (h @ Mkdir (take (stop True path s) path) 0x1FF # t)"
    have "length path - stop True path s < length path - s" "stop True path s < length path"
      using stop_progress [OF c] by arith+
    from less.hyps [OF this] obtain r u n where
      "make_dirs e True mode um path s h = (r, (h @ Mkdir (take (stop True path s) path) 0x1FF # t) @ u)"
      "r = 0 \<or> r = - 1" "mkdirs u = map (\<lambda>n. Mkdir (take n path) 0x1FF) (take n (parents path (stop True path s)))"
      "r = 0 \<longrightarrow> length (parents path (stop True path s)) \<le> n"
      unfolding e by blast
    then show ?thesis using t by (auto simp: stop p intro!: exI [of _ "Suc n"])
  qed
qed

text \<open>Making a directory with its parents asks the system for the parents in order, each path cut
  after a group of slashes, then for the path itself, and stops at the first failure; on success
  all of them were asked for, none twice.\<close>

theorem bb_make_directory_parents:
  assumes "NUL \<notin> set path" "path \<noteq> []"
  shows "\<exists>r t n. bb_make_directory e path mode True h = (r, h @ t) \<and> (r = 0 \<or> r = - 1) \<and>
    mkdirs t = map (\<lambda>n. Mkdir (take n path) 0x1FF) (take n (parents path 0)) \<and>
    (r = 0 \<longrightarrow> length (parents path 0) \<le> n)"
proof -
  have "0 < length path" using assms(2) by simp
  let ?um = "word_of_int (e h (Umask 0)) :: u32"
  define u where "u = (if mode = - 1 then ?um else ?um AND NOT 0xC0)"
  define m where "m = (if mode = - 1 then uint (0x1FF AND NOT ?um) else mode)"
  obtain r t n where "make_dirs e True m ?um path 0 (h @ [Umask 0, Umask u]) = (r, (h @ [Umask 0, Umask u]) @ t)"
    "r = 0 \<or> r = - 1" "mkdirs t = map (\<lambda>n. Mkdir (take n path) 0x1FF) (take n (parents path 0))"
    "r = 0 \<longrightarrow> length (parents path 0) \<le> n"
    using make_dirs_parents [OF assms(1) \<open>0 < length path\<close>] by blast
  then show ?thesis
    by (intro exI [of _ r] exI [of _ "Umask 0 # Umask u # t"] exI [of _ n])
      (auto simp: bb_make_directory_def sys_def Let_def u_def m_def)
qed

lemma demo_parents: "parents ''/a//b'' 0 = [1, 4, 5]"
  by code_simp

theorem bb_make_directory_parents_witness:
  "\<exists>r t n. bb_make_directory (\<lambda>_ _. 0) ''/a//b'' 0x1ED True [] = (r, t) \<and>
    mkdirs t = map (\<lambda>n. Mkdir (take n ''/a//b'') 0x1FF) (take n [1, 4, 5])"
proof -
  have "NUL \<notin> set ''/a//b''" "''/a//b'' \<noteq> []" by (simp_all add: NUL_def)
  from bb_make_directory_parents [OF this, where e = "\<lambda>_ _. 0" and mode = "0x1ED" and h = "[]"] show ?thesis
    unfolding demo_parents append_Nil by blast
qed

text \<open>Whatever the system answers, the last call of \<open>umask\<close> gives the process back the mask it had.\<close>

theorem bb_make_directory_umask:
  "\<exists>r t u. bb_make_directory e path mode recur h = (r, h @ t) \<and>
    umasks t = [Umask 0, Umask u, Umask (word_of_int (e h (Umask 0)))]"
proof -
  let ?um = "word_of_int (e h (Umask 0)) :: u32"
  define u where "u = (if mode = - 1 then ?um else ?um AND NOT 0xC0)"
  define m where "m = (if mode = - 1 then uint (0x1FF AND NOT ?um) else mode)"
  obtain r t where "make_dirs e recur m ?um path 0 (h @ [Umask 0, Umask u]) = (r, (h @ [Umask 0, Umask u]) @ t)"
    "umasks t = [Umask ?um]" using make_dirs_umask by blast
  then show ?thesis
    by (intro exI [of _ r] exI [of _ "Umask 0 # Umask u # t"] exI [of _ u])
      (auto simp: bb_make_directory_def sys_def Let_def u_def m_def)
qed

end
