(* ===== verification/Sstrip.thy ===== *)
theory Sstrip
  imports Bytes
begin

text \<open>
  \<open>toolchain/sstrip/sstrip.c\<close>: discarding what an executable does not need at its end. The host is
  little endian with 64-bit \<open>unsigned long\<close>. A structure of \<open><elf.h>\<close> is its bytes, and a field the
  place and the size of its bytes; the class gives the two layouts \<open>HEADER_FUNCTIONS\<close> is expanded for.
  A file is its bytes and the position; reading it does not fail other than at its end, writing and
  resizing it can (\<open>disk\<close>).
\<close>

type_synonym field = "nat \<times> nat"

record elf_class =
  ehdr_size :: nat
  phdr_size :: nat
  e_type :: field
  e_phoff :: field
  e_shoff :: field
  e_ehsize :: field
  e_phentsize :: field
  e_phnum :: field
  e_shentsize :: field
  e_shnum :: field
  e_shstrndx :: field
  p_type :: field
  p_offset :: field
  p_filesz :: field

definition class32 :: elf_class where
  "class32 = \<lparr>ehdr_size = 52, phdr_size = 32, e_type = (16, 2), e_phoff = (28, 4), e_shoff = (32, 4),
     e_ehsize = (40, 2), e_phentsize = (42, 2), e_phnum = (44, 2), e_shentsize = (46, 2), e_shnum = (48, 2),
     e_shstrndx = (50, 2), p_type = (0, 4), p_offset = (4, 4), p_filesz = (16, 4)\<rparr>"

definition class64 :: elf_class where
  "class64 = \<lparr>ehdr_size = 64, phdr_size = 56, e_type = (16, 2), e_phoff = (32, 8), e_shoff = (40, 8),
     e_ehsize = (52, 2), e_phentsize = (54, 2), e_phnum = (56, 2), e_shentsize = (58, 2), e_shnum = (60, 2),
     e_shstrndx = (62, 2), p_type = (0, 4), p_offset = (8, 8), p_filesz = (32, 8)\<rparr>"

section \<open>Fields\<close>

text \<open>Reversing the low bytes of a word (\<open>bswap_16\<close>, \<open>bswap_32\<close>, \<open>bswap_64\<close>).\<close>

definition bswap :: "nat \<Rightarrow> u64 \<Rightarrow> u64" where
  "bswap n x = le_word (rev (le_bytes n x))"

definition field_value :: "field \<Rightarrow> u8 list \<Rightarrow> u64" where
  "field_value f bs = le_word (take (snd f) (drop (fst f) bs))"

definition EGET :: "bool \<Rightarrow> field \<Rightarrow> u8 list \<Rightarrow> u64" where
  "EGET do_reverse_endian f bs =
     (let x = field_value f bs in
      if \<not> do_reverse_endian then x else if snd f = 1 then x else bswap (snd f) x)"

definition ESET :: "bool \<Rightarrow> field \<Rightarrow> u64 \<Rightarrow> u8 list \<Rightarrow> u8 list" where
  "ESET do_reverse_endian f x bs =
     memcpy_at bs (fst f) (le_bytes (snd f)
       (if \<not> do_reverse_endian then x else if snd f = 1 then x else bswap (snd f) x))"

section \<open>Files\<close>

record elf_file =
  bytes :: "u8 list"
  pos :: nat

record disk =
  can_write :: "nat \<Rightarrow> nat \<Rightarrow> bool"
  can_resize :: "nat \<Rightarrow> bool"

definition read_file :: "nat \<Rightarrow> elf_file \<Rightarrow> u8 list \<times> elf_file" where
  "read_file n fd = (let bs = take n (drop (pos fd) (bytes fd)) in (bs, fd\<lparr>pos := pos fd + length bs\<rparr>))"

text \<open>An offset or size from this on is negative as an \<open>off_t\<close>, which the system refuses.\<close>

definition off_limit :: u64 where "off_limit = 0x8000000000000000"

definition lseek :: "u64 \<Rightarrow> elf_file \<Rightarrow> elf_file option" where
  "lseek off fd = (if off_limit \<le> off then None else Some (fd\<lparr>pos := unat off\<rparr>))"

definition write_file :: "disk \<Rightarrow> u8 list \<Rightarrow> elf_file \<Rightarrow> elf_file option" where
  "write_file d bs fd =
     (if can_write d (pos fd) (length bs) then
        (let old = bytes fd @ replicate (pos fd - length (bytes fd)) 0 in
         Some (fd\<lparr>bytes := memcpy_at old (pos fd) bs, pos := pos fd + length bs\<rparr>))
      else None)"

definition ftruncate :: "disk \<Rightarrow> u64 \<Rightarrow> elf_file \<Rightarrow> elf_file option" where
  "ftruncate d n fd =
     (if n < off_limit \<and> can_resize d (unat n) then
        Some (fd\<lparr>bytes := take (unat n) (bytes fd @ replicate (unat n - length (bytes fd)) 0)\<rparr>)
      else None)"

section \<open>Reading the headers\<close>

definition ELFMAG :: "u8 list" where "ELFMAG = [0x7F, 0x45, 0x4C, 0x46]"

text \<open>The class and whether the bytes of a field are reversed; \<open>None\<close> for every failure.\<close>

definition readelfheaderident :: "elf_file \<Rightarrow> (u8 list \<times> bool \<times> u8) option \<times> elf_file" where
  "readelfheaderident fd =
     (let (ident, fd) = read_file 16 fd in
      if length ident \<noteq> 16 then (None, fd)
      else if take 4 ident \<noteq> ELFMAG then (None, fd)
      else if ident ! 5 = 1 then (Some (ident, False, ident ! 4), fd)
      else if ident ! 5 = 2 then (Some (ident, True, ident ! 4), fd)
      else (None, fd))"

definition readelfheader :: "elf_class \<Rightarrow> bool \<Rightarrow> u8 list \<Rightarrow> elf_file \<Rightarrow> u8 list option \<times> elf_file" where
  "readelfheader c r ident fd =
     (let (bs, fd) = read_file (ehdr_size c - 16) fd; ehdr = ident @ bs in
      if length bs \<noteq> ehdr_size c - 16 then (None, fd)
      else if EGET r (e_ehsize c) ehdr \<noteq> of_nat (ehdr_size c) then (None, fd)
      else if EGET r (e_phentsize c) ehdr \<noteq> of_nat (phdr_size c) then (None, fd)
      else if EGET r (e_type c) ehdr \<noteq> 2 \<and> EGET r (e_type c) ehdr \<noteq> 3 then (None, fd)
      else (Some ehdr, fd))"

fun cut_phdrs :: "nat \<Rightarrow> nat \<Rightarrow> u8 list \<Rightarrow> u8 list list" where
  "cut_phdrs 0 sz bs = []"
| "cut_phdrs (Suc n) sz bs = take sz bs # cut_phdrs n sz (drop sz bs)"

text \<open>The table is read at the position of the file: right after the header, whatever \<open>e_phoff\<close> is.\<close>

definition readphdrtable :: "elf_class \<Rightarrow> bool \<Rightarrow> u8 list \<Rightarrow> elf_file \<Rightarrow> u8 list list option \<times> elf_file" where
  "readphdrtable c r ehdr fd =
     (if EGET r (e_phoff c) ehdr = 0 \<or> EGET r (e_phnum c) ehdr = 0 then (None, fd)
      else
        (let n = unat (EGET r (e_phnum c) ehdr); (bs, fd) = read_file (n * phdr_size c) fd in
         if length bs \<noteq> n * phdr_size c then (None, fd) else (Some (cut_phdrs n (phdr_size c) bs), fd)))"

section \<open>Sizes\<close>

definition getmemorysize :: "elf_class \<Rightarrow> bool \<Rightarrow> u8 list \<Rightarrow> u8 list list \<Rightarrow> u64" where
  "getmemorysize c r ehdr phdrs =
     (let sz = EGET r (e_phoff c) ehdr + EGET r (e_phnum c) ehdr * of_nat (phdr_size c);
          sz = (if sz < of_nat (ehdr_size c) then of_nat (ehdr_size c) else sz)
      in foldl (\<lambda>sz phdr.
           if EGET r (p_type c) phdr \<noteq> 0 then
             (let n = EGET r (p_offset c) phdr + EGET r (p_filesz c) phdr in if n > sz then n else sz)
           else sz) sz phdrs)"

text \<open>The inner loop over a block: the index it stops at, and the size.\<close>

fun skip_zeros :: "u8 list \<Rightarrow> nat \<Rightarrow> u64 \<Rightarrow> nat \<times> u64" where
  "skip_zeros contents 0 sz = (0, sz)"
| "skip_zeros contents (Suc n) sz = (if contents ! n = 0 then skip_zeros contents n (sz - 1) else (n, sz))"

text \<open>The outer loop, with a bound on its rounds; the inner \<open>None\<close> is a failure.\<close>

fun truncate_loop :: "nat \<Rightarrow> elf_file \<Rightarrow> u64 \<Rightarrow> (u64 option \<times> elf_file) option" where
  "truncate_loop 0 fd sz = None"
| "truncate_loop (Suc k) fd sz =
     (let n = (if 1024 > sz then sz else 1024) in
      case lseek (sz - n) fd of
        None \<Rightarrow> Some (None, fd)
      | Some fd \<Rightarrow>
          (let (contents, fd) = read_file (unat n) fd in
           if length contents \<noteq> unat n then Some (None, fd)
           else
             (let (n, sz) = skip_zeros contents (unat n) sz in
              if sz \<noteq> 0 \<and> n = 0 then truncate_loop k fd sz
              else Some (if sz = 0 then None else Some sz, fd))))"

definition truncatezeros :: "nat \<Rightarrow> elf_file \<Rightarrow> u64 \<Rightarrow> (u64 option \<times> elf_file) option" where
  "truncatezeros k fd newsize = truncate_loop k fd newsize"

section \<open>Changing the headers\<close>

definition modify_ehdr :: "elf_class \<Rightarrow> bool \<Rightarrow> u64 \<Rightarrow> u8 list \<Rightarrow> u8 list" where
  "modify_ehdr c r newsize ehdr =
     (if EGET r (e_shoff c) ehdr \<ge> newsize then
        ESET r (e_shstrndx c) 0 (ESET r (e_shentsize c) 0 (ESET r (e_shnum c) 0 (ESET r (e_shoff c) 0 ehdr)))
      else ehdr)"

fun modify_phdrs :: "elf_class \<Rightarrow> bool \<Rightarrow> u64 \<Rightarrow> u8 list list \<Rightarrow> u8 list list" where
  "modify_phdrs c r newsize [] = []"
| "modify_phdrs c r newsize (phdr # phdrs) =
     (if EGET r (p_offset c) phdr \<ge> newsize then
        ESET r (p_filesz c) 0 (ESET r (p_offset c) newsize phdr) # modify_phdrs c r newsize phdrs
      else if EGET r (p_offset c) phdr + EGET r (p_filesz c) phdr > newsize then
        (let newsize = newsize - EGET r (p_offset c) phdr in
         ESET r (p_filesz c) newsize phdr # modify_phdrs c r newsize phdrs)
      else phdr # modify_phdrs c r newsize phdrs)"

definition modifyheaders :: "elf_class \<Rightarrow> bool \<Rightarrow> u8 list \<Rightarrow> u8 list list \<Rightarrow> u64 \<Rightarrow> u8 list \<times> u8 list list" where
  "modifyheaders c r ehdr phdrs newsize = (modify_ehdr c r newsize ehdr, modify_phdrs c r newsize phdrs)"

section \<open>Writing back\<close>

definition write_table :: "disk \<Rightarrow> elf_class \<Rightarrow> bool \<Rightarrow> u8 list \<Rightarrow> u8 list list \<Rightarrow> u64 \<Rightarrow> elf_file \<Rightarrow> bool \<times> elf_file" where
  "write_table d c r ehdr phdrs newsize fd =
     (let off = EGET r (e_phoff c) ehdr; n = EGET r (e_phnum c) ehdr * of_nat (phdr_size c) in
      case lseek off fd of
        None \<Rightarrow> (False, fd)
      | Some fd \<Rightarrow>
          (case write_file d (concat phdrs) fd of
             None \<Rightarrow> (False, fd)
           | Some fd \<Rightarrow>
               (case ftruncate d (if newsize < off + n then off + n else newsize) fd of
                  None \<Rightarrow> (False, fd)
                | Some fd \<Rightarrow> (True, fd))))"

definition commitchanges :: "disk \<Rightarrow> elf_class \<Rightarrow> bool \<Rightarrow> u8 list \<Rightarrow> u8 list list \<Rightarrow> u64 \<Rightarrow> elf_file \<Rightarrow> bool \<times> elf_file" where
  "commitchanges d c r ehdr phdrs newsize fd =
     (case write_file d ehdr (fd\<lparr>pos := 0\<rparr>) of
        None \<Rightarrow> (False, fd\<lparr>pos := 0\<rparr>)
      | Some fd \<Rightarrow> write_table d c r ehdr phdrs newsize fd)"

section \<open>The program\<close>

definition strip_class :: "nat \<Rightarrow> disk \<Rightarrow> elf_class \<Rightarrow> bool \<Rightarrow> u8 list \<Rightarrow> elf_file \<Rightarrow> (bool \<times> elf_file) option" where
  "strip_class k d c r ident fd =
     (case readelfheader c r ident fd of
        (None, fd) \<Rightarrow> Some (False, fd)
      | (Some ehdr, fd) \<Rightarrow>
          (case readphdrtable c r ehdr fd of
             (None, fd) \<Rightarrow> Some (False, fd)
           | (Some phdrs, fd) \<Rightarrow>
               (case truncatezeros k fd (getmemorysize c r ehdr phdrs) of
                  None \<Rightarrow> None
                | Some (None, fd) \<Rightarrow> Some (False, fd)
                | Some (Some newsize, fd) \<Rightarrow>
                    (let (ehdr, phdrs) = modifyheaders c r ehdr phdrs newsize in
                     Some (commitchanges d c r ehdr phdrs newsize fd)))))"

text \<open>One file of the command line: whether it succeeded, and the bytes it has then.\<close>

definition strip_file :: "nat \<Rightarrow> disk \<Rightarrow> u8 list \<Rightarrow> (bool \<times> u8 list) option" where
  "strip_file k d bs =
     (case readelfheaderident \<lparr>bytes = bs, pos = 0\<rparr> of
        (None, fd) \<Rightarrow> Some (False, bytes fd)
      | (Some (ident, r, cls), fd) \<Rightarrow>
          (if cls = 1 then map_option (\<lambda>(ok, fd). (ok, bytes fd)) (strip_class k d class32 r ident fd)
           else if cls = 2 then map_option (\<lambda>(ok, fd). (ok, bytes fd)) (strip_class k d class64 r ident fd)
           else Some (False, bytes fd)))"

text \<open>The files in turn; one that cannot be opened counts as a failure. The result is the exit status.\<close>

fun sstrip_files :: "nat \<Rightarrow> (string \<Rightarrow> disk) \<Rightarrow> string list \<Rightarrow> nat \<Rightarrow> (string \<Rightarrow> u8 list option) \<Rightarrow>
    (nat \<times> (string \<Rightarrow> u8 list option)) option" where
  "sstrip_files k d [] failures fs = Some (if failures \<noteq> 0 then 1 else 0, fs)"
| "sstrip_files k d (a # as) failures fs =
     (case fs a of
        None \<Rightarrow> sstrip_files k d as (Suc failures) fs
      | Some bs \<Rightarrow>
          (case strip_file k (d a) bs of
             None \<Rightarrow> None
           | Some (ok, bs) \<Rightarrow> sstrip_files k d as (if ok then failures else Suc failures) (fs(a \<mapsto> bs))))"

definition sstrip :: "nat \<Rightarrow> (string \<Rightarrow> disk) \<Rightarrow> string list \<Rightarrow> (string \<Rightarrow> u8 list option) \<Rightarrow>
    (nat \<times> (string \<Rightarrow> u8 list option)) option" where
  "sstrip k d args fs =
     (case args of
        [] \<Rightarrow> Some (0, fs)
      | a # _ \<Rightarrow> if cstr_at a 0 = CHR ''-'' then Some (0, fs) else sstrip_files k d args 0 fs)"

end
