(* ===== verification/Sstrip_Props.thy ===== *)
theory Sstrip_Props
  imports Sstrip
begin

text \<open>
  What stripping keeps of a file, that it ends, and what happens to the program headers.
\<close>

section \<open>Trailing zeros\<close>

lemma skip_zeros_spec:
  assumes "skip_zeros cs n sz = (m, sz')" "n \<le> length cs" "n \<le> unat sz"
  shows "m = 0 \<and> (\<forall>i < n. cs ! i = 0) \<and> unat sz' = unat sz - n \<or>
    m < n \<and> cs ! m \<noteq> 0 \<and> (\<forall>i. m < i \<and> i < n \<longrightarrow> cs ! i = 0) \<and> unat sz' = unat sz - (n - Suc m)"
  using assms
proof (induction n arbitrary: sz)
  case (Suc n)
  show ?case
  proof (cases "cs ! n = 0")
    case True
    have "unat (sz - 1) = unat sz - 1" using Suc.prems(3) by (intro unat_minus_one) auto
    moreover from this Suc.prems have "n \<le> unat (sz - 1)" "n \<le> length cs" by auto
    moreover have "skip_zeros cs n (sz - 1) = (m, sz')" using Suc.prems(1) True by simp
    ultimately consider "m = 0" "\<forall>i < n. cs ! i = 0" "unat sz' = unat sz - Suc n"
      | "m < n" "cs ! m \<noteq> 0" "\<forall>i. m < i \<and> i < n \<longrightarrow> cs ! i = 0" "unat sz' = unat sz - 1 - (n - Suc m)"
      using Suc.IH [of "sz - 1"] by fastforce
    then show ?thesis
    proof cases
      case 1
      then show ?thesis using True by (auto simp: less_Suc_eq)
    next
      case 2
      moreover from this have "unat sz - 1 - (n - Suc m) = unat sz - (Suc n - Suc m)" by arith
      ultimately show ?thesis using True by (auto simp: less_Suc_eq)
    qed
  next
    case False
    then show ?thesis using Suc.prems by auto
  qed
qed auto

definition zero_from :: "u8 list \<Rightarrow> nat \<Rightarrow> nat \<Rightarrow> bool" where
  "zero_from bs a b \<longleftrightarrow> (\<forall>i. a \<le> i \<and> i < b \<longrightarrow> bs ! i = 0)"

lemma zero_from_trans: "zero_from bs a b \<Longrightarrow> zero_from bs b c \<Longrightarrow> zero_from bs a c"
  by (auto simp: zero_from_def not_less) (meson not_le)

text \<open>One round of the outer loop, on a file that has the bytes.\<close>

lemma truncate_round:
  assumes "unat sz \<le> length (bytes fd)" "2 \<le> unat sz" "bytes fd ! 1 \<noteq> 0"
  obtains fd' where "truncate_loop (Suc k) fd sz = Some (None, fd')" "bytes fd' = bytes fd" "2 ^ 63 \<le> unat sz"
  | fd' sz' where "truncate_loop (Suc k) fd sz = Some (Some sz', fd')" "bytes fd' = bytes fd"
      "unat sz' \<le> unat sz" "0 < unat sz'" "zero_from (bytes fd) (unat sz') (unat sz)" "bytes fd ! (unat sz' - 1) \<noteq> 0"
  | fd' sz' where "truncate_loop (Suc k) fd sz = truncate_loop k fd' sz'" "bytes fd' = bytes fd"
      "unat sz' < unat sz" "2 \<le> unat sz'" "zero_from (bytes fd) (unat sz') (unat sz)"
proof -
  define n where "n = (if 1024 > sz then sz else 1024)"
  have n: "n \<le> sz" "2 \<le> unat n" using assms(2) by (auto simp: n_def word_less_nat_alt not_less word_le_nat_alt)
  then have d: "unat (sz - n) = unat sz - unat n" "unat n \<le> unat sz" by (auto simp: unat_sub word_le_nat_alt)
  show ?thesis
  proof (cases "lseek (sz - n) fd")
    case None
    then have "2 ^ 63 \<le> unat (sz - n)" by (auto simp: lseek_def off_limit_def word_le_nat_alt split: if_splits)
    then have "2 ^ 63 \<le> unat sz" using d by linarith
    then show ?thesis using that(1) None by (auto simp: n_def Let_def)
  next
    case (Some fd1)
    define cs where "cs = take (unat n) (drop (unat sz - unat n) (bytes fd))"
    define fd2 where "fd2 = fd\<lparr>pos := unat sz - unat n + length cs\<rparr>"
    have l: "length cs = unat n" using assms(1) d by (simp add: cs_def)
    have cs: "cs ! i = bytes fd ! (unat sz - unat n + i)" if "i < unat n" for i
      using that assms(1) d by (simp add: cs_def)
    have rd: "read_file (unat n) fd1 = (cs, fd2)"
      using Some d by (auto simp: read_file_def lseek_def cs_def fd2_def Let_def split: if_splits)
    obtain m sz' where sk: "skip_zeros cs (unat n) sz = (m, sz')" by (cases "skip_zeros cs (unat n) sz")
    have run: "truncate_loop (Suc k) fd sz =
        (if sz' \<noteq> 0 \<and> m = 0 then truncate_loop k fd2 sz' else Some (if sz' = 0 then None else Some sz', fd2))"
      using Some by (simp add: n_def [symmetric] Let_def rd l sk)
    have b: "bytes fd2 = bytes fd" by (simp add: fd2_def)
    have zero: "zero_from (bytes fd) (unat sz - unat n + a) (unat sz)" if "\<forall>i. a \<le> i \<and> i < unat n \<longrightarrow> cs ! i = 0" for a
    proof (unfold zero_from_def, intro allI impI)
      fix i assume i: "unat sz - unat n + a \<le> i \<and> i < unat sz"
      let ?j = "i - (unat sz - unat n)"
      have "a \<le> ?j" "?j < unat n" "unat sz - unat n + ?j = i" using i d by arith+
      then show "bytes fd ! i = 0" using that cs [of ?j] by simp
    qed
    from skip_zeros_spec [OF sk] l d consider
        "m = 0" "\<forall>i. 0 \<le> i \<and> i < unat n \<longrightarrow> cs ! i = 0" "unat sz' = unat sz - unat n + 0"
      | "m < unat n" "cs ! m \<noteq> 0" "\<forall>i. Suc m \<le> i \<and> i < unat n \<longrightarrow> cs ! i = 0" "unat sz' = unat sz - unat n + Suc m"
      by fastforce
    then show ?thesis
    proof cases
      case 1
      then have z: "zero_from (bytes fd) (unat sz') (unat sz)" using zero [of 0] by simp
      have two: "2 \<le> unat sz'"
      proof (rule ccontr)
        assume "\<not> 2 \<le> unat sz'"
        then show False using z assms(2,3) by (auto simp: zero_from_def)
      qed
      then have "sz' \<noteq> 0" by auto
      then show ?thesis using that(3) [of fd2 sz'] run b z 1 two n d by simp
    next
      case 2
      then have z: "zero_from (bytes fd) (unat sz') (unat sz)" using zero [of "Suc m"] by simp
      have two: "2 \<le> unat sz'"
      proof (rule ccontr)
        assume "\<not> 2 \<le> unat sz'"
        then show False using z assms(2,3) by (auto simp: zero_from_def)
      qed
      then have nz: "sz' \<noteq> 0" by auto
      show ?thesis
      proof (cases "m = 0")
        case True
        then show ?thesis using that(3) [of fd2 sz'] run nz b z 2 two n d by simp
      next
        case False
        have "bytes fd ! (unat sz' - 1) \<noteq> 0" using 2 cs [of m] by simp
        then show ?thesis using that(2) [of sz' fd2] run nz b z 2 False d by simp
      qed
    qed
  qed
qed


definition last_byte :: "elf_file \<Rightarrow> u64 \<Rightarrow> u64 option \<Rightarrow> bool" where
  "last_byte fd sz res \<longleftrightarrow>
     (case res of None \<Rightarrow> 2 ^ 63 \<le> unat sz
      | Some n \<Rightarrow> 0 < unat n \<and> unat n \<le> unat sz \<and> zero_from (bytes fd) (unat n) (unat sz) \<and> bytes fd ! (unat n - 1) \<noteq> 0)"

lemma truncate_loop_spec:
  "unat sz \<le> length (bytes fd) \<Longrightarrow> 2 \<le> unat sz \<Longrightarrow> bytes fd ! 1 \<noteq> 0 \<Longrightarrow>
   truncate_loop k fd sz = None \<and> k < unat sz \<or>
   (\<exists>res fd'. truncate_loop k fd sz = Some (res, fd') \<and> bytes fd' = bytes fd \<and> last_byte fd sz res)"
proof (induction k arbitrary: fd sz)
  case (Suc k)
  show ?case
  proof (rule truncate_round [OF Suc.prems, of k], goal_cases)
    case (3 fd' sz')
    have p: "unat sz' \<le> length (bytes fd')" "2 \<le> unat sz'" "bytes fd' ! 1 \<noteq> 0"
      using 3 Suc.prems by auto
    have "last_byte fd sz res" if "last_byte fd' sz' res" for res
      using that 3(2,3) zero_from_trans [OF _ 3(5)] by (auto simp: last_byte_def split: option.splits)
    then show ?case using Suc.IH [OF p] 3(1,2,3) by fastforce
  qed (auto simp: last_byte_def)
qed simp

lemma truncate_too_big:
  assumes "length (bytes fd) < unat sz"
  shows "\<exists>fd'. truncate_loop (Suc k) fd sz = Some (None, fd') \<and> bytes fd' = bytes fd"
proof -
  define n where "n = (if 1024 > sz then sz else 1024)"
  have n: "n \<le> sz" "0 < unat n" using assms by (auto simp: n_def word_less_nat_alt not_less word_le_nat_alt)
  then have d: "unat (sz - n) = unat sz - unat n" "unat n \<le> unat sz" by (auto simp: unat_sub word_le_nat_alt)
  show ?thesis
  proof (cases "lseek (sz - n) fd")
    case None
    then show ?thesis by (auto simp: n_def Let_def)
  next
    case (Some fd1)
    then have "bytes fd1 = bytes fd" "pos fd1 = unat sz - unat n" using d by (auto simp: lseek_def split: if_splits)
    then have "length (fst (read_file (unat n) fd1)) < unat n" "bytes (snd (read_file (unat n) fd1)) = bytes fd"
      using assms n d by (auto simp: read_file_def Let_def)
    then show ?thesis using Some by (auto simp: n_def [symmetric] Let_def split_beta)
  qed
qed

text \<open>Looking for trailing zeros ends, and gives the size up to the last byte that is not zero, for
  any size within a file whose second byte is not zero (an ELF file's is \<open>E\<close>); the only failure is
  an offset that does not fit in \<open>off_t\<close>. As many rounds as the size are enough.\<close>

theorem truncatezeros_last_byte:
  assumes "unat sz \<le> length (bytes fd)" "2 \<le> unat sz" "bytes fd ! 1 \<noteq> 0" "unat sz < 2 ^ 63"
  shows "\<exists>n fd'. truncatezeros (unat sz) fd sz = Some (Some n, fd') \<and> bytes fd' = bytes fd \<and>
    0 < unat n \<and> unat n \<le> unat sz \<and> bytes fd ! (unat n - 1) \<noteq> 0 \<and> (\<forall>i. unat n \<le> i \<and> i < unat sz \<longrightarrow> bytes fd ! i = 0)"
  using truncate_loop_spec [OF assms(1-3), of "unat sz"] assms(4)
  by (fastforce simp: truncatezeros_def zero_from_def last_byte_def split: option.splits)

theorem truncatezeros_last_byte_witness:
  "\<exists>n fd'. truncatezeros 6 \<lparr>bytes = [0x7F, 0x45, 0, 7, 0, 0, 9], pos = 0\<rparr> 6 = Some (Some n, fd') \<and> unat n = 4"
proof -
  let ?fd = "\<lparr>bytes = [0x7F, 0x45, 0, 7, 0, 0, 9], pos = 0\<rparr> :: elf_file"
  have p: "unat (6 :: u64) \<le> length (bytes ?fd)" "2 \<le> unat (6 :: u64)" "bytes ?fd ! 1 \<noteq> 0" "unat (6 :: u64) < 2 ^ 63"
    by simp_all
  from truncatezeros_last_byte [OF p] obtain n fd' where n: "truncatezeros 6 ?fd 6 = Some (Some n, fd')"
    "0 < unat n" "unat n \<le> 6" "bytes ?fd ! (unat n - 1) \<noteq> 0" "\<forall>i. unat n \<le> i \<and> i < 6 \<longrightarrow> bytes ?fd ! i = 0" by auto
  from n(2,3) have "unat n \<in> {1, 2, 3, 4, 5, 6}" by auto
  moreover have "\<not> unat n \<le> 3" using n(5) by (auto dest: spec [of _ 3])
  ultimately have "unat n = 4" using n(4) by auto
  then show ?thesis using n(1) by blast
qed

section \<open>Fields\<close>

definition field_in :: "field \<Rightarrow> nat \<Rightarrow> bool" where
  "field_in f n \<longleftrightarrow> fst f + snd f \<le> n"

definition disjoint_fields :: "field \<Rightarrow> field \<Rightarrow> bool" where
  "disjoint_fields f g \<longleftrightarrow> fst f + snd f \<le> fst g \<or> fst g + snd g \<le> fst f"

lemma length_ESET [simp]: "field_in f (length bs) \<Longrightarrow> length (ESET r f x bs) = length bs"
  by (simp add: ESET_def field_in_def)

lemma EGET_other:
  assumes "disjoint_fields f g" "field_in g (length bs)" "field_in f (length bs)"
  shows "EGET r f (ESET r g x bs) = EGET r f bs"
proof -
  have "take (snd f) (drop (fst f) (memcpy_at bs (fst g) (le_bytes (snd g) y))) = take (snd f) (drop (fst f) bs)" for y :: u64
    using assms by (intro nth_equalityI) (auto simp: memcpy_at_def disjoint_fields_def field_in_def nth_append)
  then show ?thesis by (simp add: EGET_def ESET_def field_value_def)
qed

lemma bswap_bytes: "n \<le> 8 \<Longrightarrow> le_bytes n (bswap n x) = rev (le_bytes n x)"
  using le_bytes_word [of "rev (le_bytes n x)", where ?'a = 64] by (simp add: bswap_def)

lemma bswap_bswap: "n \<le> 8 \<Longrightarrow> bswap n (bswap n x) = le_word (le_bytes n x)"
  by (simp add: bswap_def [of n "bswap n x"] bswap_bytes)

text \<open>A field that is set is read back, in either order of the bytes, as far as it fits.\<close>

lemma le_word_take_bit: "n \<le> 8 \<Longrightarrow> le_word (le_bytes n x) = (take_bit (8 * n) x :: u64)"
proof (rule bit_word_eqI)
  fix k assume n: "n \<le> 8" "k < LENGTH(64)"
  have "k div 8 < n \<longleftrightarrow> k < 8 * n" by arith
  moreover have "8 * (k div 8) + k mod 8 = k" by simp
  ultimately show "bit (le_word (le_bytes n x) :: u64) k \<longleftrightarrow> bit (take_bit (8 * n) x) k"
    using n by (auto simp: bit_le_word bit_le_bytes bit_take_bit_iff)
qed

lemma EGET_ESET:
  assumes "field_in f (length bs)" "snd f \<le> 8"
  shows "EGET r f (ESET r f x bs) = take_bit (8 * snd f) x"
proof -
  have "field_value f (memcpy_at bs (fst f) (le_bytes (snd f) y)) = le_word (le_bytes (snd f) y)" for y :: u64
    using assms(1) by (simp add: field_value_def memcpy_at_def field_in_def)
  moreover have "bswap (snd f) (le_word (le_bytes (snd f) (bswap (snd f) x))) = le_word (le_bytes (snd f) x)"
  proof -
    have "le_bytes (snd f) (le_word (le_bytes (snd f) (bswap (snd f) x)) :: u64) = rev (le_bytes (snd f) x)"
      using le_bytes_word [of "le_bytes (snd f) (bswap (snd f) x)", where ?'a = 64] assms(2)
      by (simp add: bswap_bytes)
    then show ?thesis by (simp add: bswap_def [of _ "le_word _"])
  qed
  ultimately show ?thesis using assms(2) by (simp add: EGET_def ESET_def le_word_take_bit)
qed

section \<open>Headers\<close>

definition headers :: "u8 list \<Rightarrow> (elf_class \<times> bool \<times> u8 list \<times> u8 list list) option" where
  "headers bs =
     (case readelfheaderident \<lparr>bytes = bs, pos = 0\<rparr> of
        (Some (ident, r, cls), fd) \<Rightarrow>
          (if cls = 1 \<or> cls = 2 then
             (let c = (if cls = 1 then class32 else class64) in
              case readelfheader c r ident fd of
                (Some ehdr, fd) \<Rightarrow>
                  (case readphdrtable c r ehdr fd of (Some phdrs, fd) \<Rightarrow> Some (c, r, ehdr, phdrs) | _ \<Rightarrow> None)
              | _ \<Rightarrow> None)
           else None)
      | _ \<Rightarrow> None)"

lemma concat_cut_phdrs: "length bs = n * sz \<Longrightarrow> concat (cut_phdrs n sz bs) = bs"
  by (induction n sz bs rule: cut_phdrs.induct) auto

lemma length_cut_phdrs [simp]: "length (cut_phdrs n sz bs) = n"
  by (induction n sz bs rule: cut_phdrs.induct) auto

lemma cut_phdrs_length: "length bs = n * sz \<Longrightarrow> x \<in> set (cut_phdrs n sz bs) \<Longrightarrow> length x = sz"
  by (induction n sz bs rule: cut_phdrs.induct) auto

lemma class_fields:
  assumes "c = class32 \<or> c = class64"
  shows "\<forall>f \<in> {e_type c, e_phoff c, e_shoff c, e_ehsize c, e_phentsize c, e_phnum c, e_shentsize c, e_shnum c, e_shstrndx c}.
      field_in f (ehdr_size c) \<and> snd f \<le> 8"
    "\<forall>f \<in> {p_type c, p_offset c, p_filesz c}. field_in f (phdr_size c) \<and> snd f \<le> 8"
    "16 \<le> ehdr_size c" "0 < phdr_size c" "phdr_size c \<le> 56" "ehdr_size c \<le> 64"
    "\<forall>f \<in> {e_phoff c, e_phnum c}. \<forall>g \<in> {e_shoff c, e_shentsize c, e_shnum c, e_shstrndx c}. disjoint_fields f g"
    "disjoint_fields (p_offset c) (p_filesz c)" "disjoint_fields (p_filesz c) (p_offset c)"
    "snd (e_phnum c) = 2"
  using assms by (auto simp: class32_def class64_def field_in_def disjoint_fields_def)

lemma headers_run:
  assumes "headers bs = Some (c, r, ehdr, phdrs)"
  obtains ident cls fd fd2 fd3 where "readelfheaderident \<lparr>bytes = bs, pos = 0\<rparr> = (Some (ident, r, cls), fd)"
    "readelfheader c r ident fd = (Some ehdr, fd2)" "readphdrtable c r ehdr fd2 = (Some phdrs, fd3)"
    "c = (if cls = 1 then class32 else class64)" "cls = 1 \<or> cls = 2"
proof -
  obtain x fd where a: "readelfheaderident \<lparr>bytes = bs, pos = 0\<rparr> = (x, fd)" by (cases "readelfheaderident \<lparr>bytes = bs, pos = 0\<rparr>")
  with assms obtain ident r' cls where x: "x = Some (ident, r', cls)" by (cases x) (auto simp: headers_def)
  define c' where "c' = (if cls = 1 then class32 else class64)"
  obtain y fd2 where b: "readelfheader c' r' ident fd = (y, fd2)" by (cases "readelfheader c' r' ident fd")
  with assms obtain ehdr' where y: "y = Some ehdr'"
    by (cases y) (auto simp: headers_def a x c'_def [symmetric] Let_def split: if_splits)
  obtain z fd3 where z: "readphdrtable c' r' ehdr' fd2 = (z, fd3)" by (cases "readphdrtable c' r' ehdr' fd2")
  with assms obtain phdrs' where "z = Some phdrs'"
    by (cases z) (auto simp: headers_def a b x y c'_def [symmetric] Let_def split: if_splits)
  then have e: "c' = c" "r' = r" "ehdr' = ehdr" "z = Some phdrs"
    using assms by (auto simp: headers_def a b x y z c'_def [symmetric] Let_def split: if_splits)
  moreover have "cls = 1 \<or> cls = 2" using assms by (auto simp: headers_def a x split: if_splits)
  ultimately show ?thesis using a b x y z c'_def by (intro that [of ident cls fd fd2 fd3]) simp_all
qed

lemma headers_parts:
  assumes "headers bs = Some (c, r, ehdr, phdrs)"
  shows "c = class32 \<or> c = class64" "ehdr = take (ehdr_size c) bs" "ehdr_size c \<le> length bs" "bs ! 1 \<noteq> 0"
    "length phdrs = unat (EGET r (e_phnum c) ehdr)" "\<forall>x \<in> set phdrs. length x = phdr_size c"
proof -
  obtain ident cls fd fd2 fd3 where h: "readelfheaderident \<lparr>bytes = bs, pos = 0\<rparr> = (Some (ident, r, cls), fd)"
    "readelfheader c r ident fd = (Some ehdr, fd2)" "readphdrtable c r ehdr fd2 = (Some phdrs, fd3)"
    "c = (if cls = 1 then class32 else class64)"
    using headers_run [OF assms] .
  show c: "c = class32 \<or> c = class64" using h(4) by auto
  from h(1) have i: "ident = take 16 bs" "length ident = 16" "take 4 ident = ELFMAG" "fd = \<lparr>bytes = bs, pos = 16\<rparr>"
    by (auto simp: readelfheaderident_def read_file_def Let_def split: if_splits)
  then have "bs ! 1 = ELFMAG ! 1" by (metis nth_take one_less_numeral_iff semiring_norm(76) take_take min_def numeral_less_iff semiring_norm(77) less_trans)
  then show "bs ! 1 \<noteq> 0" by (simp add: ELFMAG_def)
  from h(2) i have e: "ehdr = take 16 bs @ take (ehdr_size c - 16) (drop 16 bs)" "ehdr_size c - 16 \<le> length (drop 16 bs)"
    by (auto simp: readelfheader_def read_file_def Let_def split: if_splits)
  then show "ehdr = take (ehdr_size c) bs" using class_fields(3) [OF c] by (metis le_add_diff_inverse take_add)
  show "ehdr_size c \<le> length bs" using e(2) class_fields(3,4) [OF c] i(1,2) by auto
  from h(3) show "length phdrs = unat (EGET r (e_phnum c) ehdr)" "\<forall>x \<in> set phdrs. length x = phdr_size c"
    by (auto simp: readphdrtable_def read_file_def Let_def dest: cut_phdrs_length [rotated] split: if_splits)
qed


lemma bytes_readelfheaderident [simp]: "bytes (snd (readelfheaderident fd)) = bytes fd"
  by (simp add: readelfheaderident_def read_file_def Let_def)

lemma bytes_readelfheader [simp]: "bytes (snd (readelfheader c r ident fd)) = bytes fd"
  by (simp add: readelfheader_def read_file_def Let_def)

lemma bytes_readphdrtable [simp]: "bytes (snd (readphdrtable c r ehdr fd)) = bytes fd"
  by (simp add: readphdrtable_def read_file_def Let_def)

lemma strip_file_no_headers:
  assumes "headers bs = None"
  shows "strip_file k d bs = Some (False, bs)"
proof -
  obtain x fd where a: "readelfheaderident \<lparr>bytes = bs, pos = 0\<rparr> = (x, fd)" by (cases "readelfheaderident \<lparr>bytes = bs, pos = 0\<rparr>")
  then have fd: "bytes fd = bs" using bytes_readelfheaderident [of "\<lparr>bytes = bs, pos = 0\<rparr>"] by simp
  have s: "strip_class k d c r ident fd = Some (False, fd')"
    if "readelfheader c r ident fd = (y, fd2)" "y = None \<and> fd' = fd2 \<or> (\<exists>e. y = Some e \<and> readphdrtable c r e fd2 = (None, fd'))"
    for c r ident y fd2 fd'
    using that by (auto simp: strip_class_def)
  have b: "bytes fd' = bs"
    if "readelfheader c r ident fd = (y, fd2)" "y = None \<and> fd' = fd2 \<or> (\<exists>e. y = Some e \<and> readphdrtable c r e fd2 = (None, fd'))"
    for c r ident y fd2 fd'
    using that bytes_readelfheader [of c r ident fd] fd by (auto dest: arg_cong [of _ _ "bytes \<circ> snd"])
  have "strip_class k d c r ident fd = Some (False, fd') \<and> bytes fd' = bs \<Longrightarrow>
      map_option (\<lambda>(ok, fd). (ok, bytes fd)) (strip_class k d c r ident fd) = Some (False, bs)" for c r ident fd' by simp
  show ?thesis
  proof (cases x)
    case None
    then show ?thesis using a fd by (simp add: strip_file_def)
  next
    case (Some t)
    then obtain ident r cls where x: "x = Some (ident, r, cls)" by (cases t) auto
    show ?thesis
    proof (cases "cls = 1 \<or> cls = 2")
      case True
      let ?c = "if cls = 1 then class32 else class64"
      obtain y fd2 where y: "readelfheader ?c r ident fd = (y, fd2)" by (cases "readelfheader ?c r ident fd")
      then have "\<exists>fd'. y = None \<and> fd' = fd2 \<or> (\<exists>e. y = Some e \<and> readphdrtable ?c r e fd2 = (None, fd'))"
        using assms True a x by (auto simp: headers_def Let_def split: option.splits prod.splits)
      then obtain fd' where "strip_class k d ?c r ident fd = Some (False, fd')" "bytes fd' = bs"
        using s [OF y] b [OF y] by blast
      then show ?thesis using True a x by (auto simp: strip_file_def)
    next
      case False
      then show ?thesis using a x fd by (simp add: strip_file_def)
    qed
  qed
qed

lemma strip_file_headers:
  assumes "headers bs = Some (c, r, ehdr, phdrs)"
  obtains p where "strip_file k d bs =
    (case truncatezeros k \<lparr>bytes = bs, pos = p\<rparr> (getmemorysize c r ehdr phdrs) of
       None \<Rightarrow> None
     | Some (None, fd) \<Rightarrow> Some (False, bytes fd)
     | Some (Some n, fd) \<Rightarrow>
         Some (map_prod id bytes (commitchanges d c r (modify_ehdr c r n ehdr) (modify_phdrs c r n phdrs) n fd)))"
proof -
  obtain ident cls fd fd2 fd3 where h: "readelfheaderident \<lparr>bytes = bs, pos = 0\<rparr> = (Some (ident, r, cls), fd)"
    "readelfheader c r ident fd = (Some ehdr, fd2)" "readphdrtable c r ehdr fd2 = (Some phdrs, fd3)"
    "c = (if cls = 1 then class32 else class64)" "cls = 1 \<or> cls = 2"
    using headers_run [OF assms] .
  then have "bytes fd3 = bs"
    using bytes_readelfheaderident [of "\<lparr>bytes = bs, pos = 0\<rparr>"] bytes_readelfheader [of c r ident fd]
      bytes_readphdrtable [of c r ehdr fd2] by simp
  then have f: "fd3 = \<lparr>bytes = bs, pos = pos fd3\<rparr>" by (cases fd3) simp
  have "map_option (\<lambda>(ok, fd). (ok, bytes fd)) (strip_class k d c r ident fd) =
    (case truncatezeros k fd3 (getmemorysize c r ehdr phdrs) of
       None \<Rightarrow> None
     | Some (None, fd) \<Rightarrow> Some (False, bytes fd)
     | Some (Some n, fd) \<Rightarrow>
         Some (map_prod id bytes (commitchanges d c r (modify_ehdr c r n ehdr) (modify_phdrs c r n phdrs) n fd)))"
    by (auto simp: strip_class_def h(2,3) modifyheaders_def split: option.splits prod.splits)
  moreover have "strip_file k d bs = map_option (\<lambda>(ok, fd). (ok, bytes fd)) (strip_class k d c r ident fd)"
    using h by (auto simp: strip_file_def)
  ultimately show ?thesis using that [of "pos fd3"] f by simp
qed

section \<open>What is kept\<close>



lemma foldl_mem: "sz \<le> foldl (\<lambda>sz phdr.
    if P phdr then (let n = f phdr in if n > sz then n else sz) else sz) (sz :: u64) phdrs"
  by (induction phdrs arbitrary: sz) (auto simp: Let_def intro: order_trans less_imp_le)

lemma getmemorysize_ge:
  "EGET r (e_phoff c) ehdr + EGET r (e_phnum c) ehdr * of_nat (phdr_size c) \<le> getmemorysize c r ehdr phdrs"
  "of_nat (ehdr_size c) \<le> getmemorysize c r ehdr phdrs"
  by (auto simp: getmemorysize_def Let_def not_less intro: order_trans [OF _ foldl_mem] order_trans [OF less_imp_le foldl_mem])







lemma header_size:
  assumes "headers bs = Some (c, r, ehdr, phdrs)"
  shows "ehdr_size c \<le> unat (getmemorysize c r ehdr phdrs)" "2 \<le> unat (getmemorysize c r ehdr phdrs)"
proof -
  note f = class_fields [OF headers_parts(1) [OF assms]]
  have "unat (of_nat (ehdr_size c) :: u64) = ehdr_size c" using f(6) by (simp add: unat_of_nat take_bit_nat_eq_self)
  then show "ehdr_size c \<le> unat (getmemorysize c r ehdr phdrs)"
    using getmemorysize_ge(2) [of c r ehdr phdrs] by (simp add: word_le_nat_alt)
  then show "2 \<le> unat (getmemorysize c r ehdr phdrs)" using f(3) by linarith
qed







text \<open>Stripping any file ends (as many rounds over its bytes as it has are enough), whatever its headers say.\<close>

theorem sstrip_ends:
  "\<exists>ok bs'. strip_file (Suc (length bs)) d bs = Some (ok, bs')"
proof (cases "headers bs")
  case None
  then show ?thesis using strip_file_no_headers by blast
next
  case (Some h)
  then obtain c r ehdr phdrs where h: "headers bs = Some (c, r, ehdr, phdrs)" by (cases h) auto
  let ?m = "getmemorysize c r ehdr phdrs"
  have "truncate_loop (Suc (length bs)) \<lparr>bytes = bs, pos = p\<rparr> ?m \<noteq> None" for p
  proof (cases "unat ?m \<le> length bs")
    case True
    then show ?thesis
      using truncate_loop_spec [of ?m "\<lparr>bytes = bs, pos = p\<rparr>" "Suc (length bs)"] header_size(2) [OF h] headers_parts(4) [OF h]
      by (auto simp del: truncate_loop.simps)
  next
    case False
    then show ?thesis using truncate_too_big [of "\<lparr>bytes = bs, pos = p\<rparr>" ?m "length bs"]
      by (auto simp del: truncate_loop.simps)
  qed
  note t = this
  obtain p where "strip_file (Suc (length bs)) d bs =
    (case truncatezeros (Suc (length bs)) \<lparr>bytes = bs, pos = p\<rparr> ?m of
       None \<Rightarrow> None
     | Some (None, fd) \<Rightarrow> Some (False, bytes fd)
     | Some (Some n, fd) \<Rightarrow>
         Some (map_prod id bytes (commitchanges d c r (modify_ehdr c r n ehdr) (modify_phdrs c r n phdrs) n fd)))"
    by (rule strip_file_headers [OF h])
  then show ?thesis using t [of p]
    by (auto simp: truncatezeros_def map_prod_def simp del: truncate_loop.simps split: option.splits prod.splits)
qed

section \<open>Program headers\<close>

text \<open>After one segment was cut short, the bound for the segments that follow is no longer the size of
  the file but the length the cut segment has: a later segment that still has bytes in the file
  loses all of them when its offset is not below that length.
\<close>

theorem modifyheaders_loses_segment:
  assumes "c = class32 \<or> c = class64" "length p1 = phdr_size c" "length p2 = phdr_size c"
    "EGET r (p_offset c) p1 < n" "n < EGET r (p_offset c) p1 + EGET r (p_filesz c) p1"
    "n - EGET r (p_offset c) p1 \<le> EGET r (p_offset c) p2" "EGET r (p_offset c) p2 < n"
  shows "\<exists>q1 q2. snd (modifyheaders c r ehdr [p1, p2] n) = [q1, q2] \<and>
    EGET r (p_offset c) q1 = EGET r (p_offset c) p1 \<and>
    EGET r (p_filesz c) q1 = take_bit (8 * snd (p_filesz c)) (n - EGET r (p_offset c) p1) \<and>
    EGET r (p_filesz c) q2 = 0"
proof -
  note f = class_fields [OF assms(1)]
  let ?n = "n - EGET r (p_offset c) p1"
  let ?q1 = "ESET r (p_filesz c) ?n p1"
  let ?q2 = "ESET r (p_filesz c) 0 (ESET r (p_offset c) ?n p2)"
  have "\<not> n \<le> EGET r (p_offset c) p1" using assms(4) by simp
  then have "modify_phdrs c r n [p1, p2] = [?q1, ?q2]" using assms(5,6) by (simp add: Let_def)
  moreover have "EGET r (p_filesz c) ?q2 = 0"
    using f(2) assms(3) EGET_ESET [of "p_filesz c" "ESET r (p_offset c) ?n p2" r 0] by simp
  ultimately show ?thesis
    using f(2,8) assms(2) EGET_ESET [of "p_filesz c" p1 r ?n] EGET_other [of "p_offset c" "p_filesz c" p1 r ?n]
    by (auto simp: modifyheaders_def)
qed

text \<open>Two segments, of 70 bytes at 50 and of 30 bytes at 80, in a file cut at 100.\<close>

definition demo_phdr :: "u8 \<Rightarrow> u8 \<Rightarrow> u8 list" where
  "demo_phdr off sz = [1, 0, 0, 0, off, 0, 0, 0, 0, 0, 0, 0, 0, 0, 0, 0, sz, 0, 0, 0, sz, 0, 0, 0, 4, 0, 0, 0, 0, 0, 0, 0]"

theorem modifyheaders_loses_segment_witness:
  "\<exists>q1 q2. snd (modifyheaders class32 False [] [demo_phdr 50 70, demo_phdr 80 30] 100) = [q1, q2] \<and>
     EGET False (p_filesz class32) q2 = 0"
proof -
  have v: "EGET False (p_offset class32) (demo_phdr 50 70) = 50" "EGET False (p_filesz class32) (demo_phdr 50 70) = 70"
    "EGET False (p_offset class32) (demo_phdr 80 30) = 80" by code_simp+
  have "length (demo_phdr 50 70) = phdr_size class32" "length (demo_phdr 80 30) = phdr_size class32"
    by (simp_all add: demo_phdr_def class32_def)
  from modifyheaders_loses_segment [of class32 "demo_phdr 50 70" "demo_phdr 80 30" False 100 "[]", OF _ this] v
  show ?thesis by auto
qed

end
