(* ===== verification/Flthdr.thy ===== *)
theory Flthdr
  imports Bytes
begin

text \<open>
  \<open>toolchain/elf2flt/elf2flt/flthdr.c\<close>: showing and changing the header of an executable in flat
  format (\<open>flat.h\<close>), packing and unpacking what follows it. The programs \<open>gzip\<close> and \<open>gunzip\<close>, run
  through a pipe, are parameters that map the bytes they are given to the bytes they append.
\<close>

type_synonym packer = "u8 list \<Rightarrow> u8 list"

definition HDR_SIZE :: nat where "HDR_SIZE = 64"

definition FLAT_FLAG_RAM :: u32 where "FLAT_FLAG_RAM = 0x0001"

definition FLAT_FLAG_GOTPIC :: u32 where "FLAT_FLAG_GOTPIC = 0x0002"

definition FLAT_FLAG_GZIP :: u32 where "FLAT_FLAG_GZIP = 0x0004"

definition FLAT_FLAG_GZDATA :: u32 where "FLAT_FLAG_GZDATA = 0x0008"

definition FLAT_FLAG_KTRACE :: u32 where "FLAT_FLAG_KTRACE = 0x0010"

text \<open>The fields of \<open>struct flat_hdr\<close> are big endian words; a field is its offset.\<close>

definition f_rev :: nat where "f_rev = 4"
definition f_entry :: nat where "f_entry = 8"
definition f_data_start :: nat where "f_data_start = 12"
definition f_data_end :: nat where "f_data_end = 16"
definition f_bss_end :: nat where "f_bss_end = 20"
definition f_stack_size :: nat where "f_stack_size = 24"
definition f_reloc_start :: nat where "f_reloc_start = 28"
definition f_reloc_count :: nat where "f_reloc_count = 32"
definition f_flags :: nat where "f_flags = 36"
definition f_build_date :: nat where "f_build_date = 40"

definition hdr_get :: "nat \<Rightarrow> u8 list \<Rightarrow> u32" where
  "hdr_get f hdr = be_word (take 4 (drop f hdr))"

definition hdr_set :: "nat \<Rightarrow> u32 \<Rightarrow> u8 list \<Rightarrow> u8 list" where
  "hdr_set f w hdr = memcpy_at hdr f (be_bytes 4 w)"

definition flat_magic :: "u8 list" where
  "flat_magic = [0x62, 0x46, 0x4C, 0x54]"

record flt_opts =
  o_print :: nat
  o_compress :: int
  o_ramload :: int
  o_stacksize :: int
  o_ktrace :: int

definition has :: "u32 \<Rightarrow> u32 \<Rightarrow> bool" where
  "has flags f \<longleftrightarrow> flags AND f \<noteq> 0"

section \<open>What the options make of the header\<close>

definition with_compress :: "int \<Rightarrow> u32 \<Rightarrow> u32" where
  "with_compress c flags =
     (if c = 1 then (flags OR FLAT_FLAG_GZIP) AND NOT FLAT_FLAG_GZDATA
      else if c = 2 then (flags OR FLAT_FLAG_GZDATA) AND NOT FLAT_FLAG_GZIP
      else if c < 0 then flags AND NOT (FLAT_FLAG_GZIP OR FLAT_FLAG_GZDATA)
      else flags)"

definition with_bit :: "u32 \<Rightarrow> int \<Rightarrow> u32 \<Rightarrow> u32" where
  "with_bit f c flags = (if 0 < c then flags OR f else if c < 0 then flags AND NOT f else flags)"

definition new_flags :: "flt_opts \<Rightarrow> u32 \<Rightarrow> u32" where
  "new_flags opts old_flags =
     with_bit FLAT_FLAG_KTRACE (o_ktrace opts)
       (with_bit FLAT_FLAG_RAM (o_ramload opts) (with_compress (o_compress opts) old_flags))"

definition new_stack :: "flt_opts \<Rightarrow> u32 \<Rightarrow> u32" where
  "new_stack opts old_stack = (if o_stacksize opts \<noteq> 0 then word_of_int (o_stacksize opts) else old_stack)"

section \<open>Copying\<close>

text \<open>
  \<open>transferr\<close>: all that is left for \<open>-1\<close>, \<open>count\<close> bytes when it is positive (fewer is \<open>exit(1)\<close>, \<open>None\<close>),
  nothing for other negative numbers. The results are the bytes copied and the bytes left.
\<close>

definition transferr :: "int \<Rightarrow> u8 list \<Rightarrow> (u8 list \<times> u8 list) option" where
  "transferr count inp =
     (if count = - 1 then Some (inp, [])
      else if count \<le> 0 then Some ([], inp)
      else if length inp < nat count then None
      else Some (take (nat count) inp, drop (nat count) inp))"

definition text_size :: "u8 list \<Rightarrow> int" where
  "text_size hdr = sint (hdr_get f_data_start hdr - of_nat HDR_SIZE)"

text \<open>The unpacked contents after the header; a part \<open>gunzip\<close> reads is appended to what was copied.\<close>

definition unpacked :: "packer \<Rightarrow> u8 list \<Rightarrow> u8 list \<Rightarrow> u8 list option" where
  "unpacked gunzip hdr body =
     (let flags = hdr_get f_flags hdr in
      if has flags (FLAT_FLAG_GZIP OR FLAT_FLAG_GZDATA) then
        (case (if has flags FLAT_FLAG_GZDATA then transferr (text_size hdr) body else Some ([], body)) of
           None \<Rightarrow> None
         | Some (txt, rest) \<Rightarrow> Some (txt @ gunzip rest))
      else Some body)"

definition packed :: "packer \<Rightarrow> u8 list \<Rightarrow> u8 list \<Rightarrow> u8 list option" where
  "packed gzip hdr body =
     (let flags = hdr_get f_flags hdr in
      if has flags FLAT_FLAG_GZIP then Some (gzip body)
      else if has flags FLAT_FLAG_GZDATA then
        (case transferr (text_size hdr) body of
           None \<Rightarrow> None
         | Some (txt, rest) \<Rightarrow> Some (txt @ gzip rest))
      else Some body)"

section \<open>A file\<close>

text \<open>The file is not a flat file or there is nothing to do, the program exits, or the output is written.\<close>

datatype outcome = Skipped | Quit | Written "u8 list"

definition process_file :: "packer \<Rightarrow> packer \<Rightarrow> flt_opts \<Rightarrow> u8 list \<Rightarrow> outcome" where
  "process_file gzip gunzip opts ifile =
     (if length ifile < HDR_SIZE then Skipped
      else
        (let old_hdr = take HDR_SIZE ifile; body = drop HDR_SIZE ifile;
             old_flags = hdr_get f_flags old_hdr; old_stack = hdr_get f_stack_size old_hdr in
         if take 4 old_hdr \<noteq> flat_magic then Skipped
         else if new_flags opts old_flags = old_flags \<and> new_stack opts old_stack = old_stack then Skipped
         else
           (let new_hdr = hdr_set f_stack_size (new_stack opts old_stack)
                  (hdr_set f_flags (new_flags opts old_flags) old_hdr) in
            case unpacked gunzip old_hdr body of
              None \<Rightarrow> Quit
            | Some body \<Rightarrow> (case packed gzip new_hdr body of None \<Rightarrow> Quit | Some body \<Rightarrow> Written (new_hdr @ body)))))"

text \<open>What is printed of a header: the long form and the line of the short form.\<close>

definition flag_names :: "u32 \<Rightarrow> string" where
  "flag_names flags =
     (if has flags FLAT_FLAG_RAM then ''Load-to-Ram '' else []) @
     (if has flags FLAT_FLAG_GOTPIC then ''Has-PIC-GOT '' else []) @
     (if has flags FLAT_FLAG_GZIP then ''Gzip-Compressed '' else []) @
     (if has flags FLAT_FLAG_GZDATA then ''Gzip-Data-Compressed '' else []) @
     (if has flags FLAT_FLAG_KTRACE then ''Kernel-Traced-Load '' else [])"

definition flag_letters :: "u32 \<Rightarrow> string" where
  "flag_letters flags =
     (if has flags FLAT_FLAG_KTRACE then ''k'' else []) @ (if has flags FLAT_FLAG_RAM then ''r'' else []) @
     (if has flags FLAT_FLAG_GOTPIC then ''p'' else []) @
     (if has flags FLAT_FLAG_GZIP then ''z'' else if has flags FLAT_FLAG_GZDATA then ''d'' else [])"

datatype report = Field string u32 | Flags u32 string | Short string "u32 list"

definition print_long :: "u8 list \<Rightarrow> report list" where
  "print_long hdr =
     [Field ''Rev'' (hdr_get f_rev hdr), Field ''Build Date'' (hdr_get f_build_date hdr),
      Field ''Entry'' (hdr_get f_entry hdr), Field ''Data Start'' (hdr_get f_data_start hdr),
      Field ''Data End'' (hdr_get f_data_end hdr), Field ''BSS End'' (hdr_get f_bss_end hdr),
      Field ''Stack Size'' (hdr_get f_stack_size hdr), Field ''Reloc Start'' (hdr_get f_reloc_start hdr),
      Field ''Reloc Count'' (hdr_get f_reloc_count hdr),
      Flags (hdr_get f_flags hdr) (flag_names (hdr_get f_flags hdr))]"

definition print_short :: "u8 list \<Rightarrow> report" where
  "print_short hdr =
     (let flags = hdr_get f_flags hdr;
          txt = hdr_get f_data_start hdr - of_nat HDR_SIZE;
          data = hdr_get f_data_end hdr - hdr_get f_data_start hdr;
          bss = hdr_get f_bss_end hdr - hdr_get f_data_end hdr;
          stk = hdr_get f_stack_size hdr;
          rel = hdr_get f_reloc_count hdr * 4;
          tot = data + (if has flags (FLAT_FLAG_RAM OR FLAT_FLAG_GZIP) then txt + of_nat HDR_SIZE else 0);
          tot = tot + (if bss + stk > rel then bss + stk else rel)
      in Short (take 3 (flag_letters flags)) [hdr_get f_rev hdr, txt, data, bss, stk, rel, tot])"

definition print_file :: "flt_opts \<Rightarrow> u8 list \<Rightarrow> report list" where
  "print_file opts ifile =
     (if length ifile < HDR_SIZE \<or> take 4 ifile \<noteq> flat_magic then []
      else if o_print opts = 1 then print_long (take HDR_SIZE ifile)
      else if 1 < o_print opts then [print_short (take HDR_SIZE ifile)] else [])"

section \<open>The program\<close>

text \<open>The options as \<open>getopt\<close> gives them; \<open>None\<close> is the usage message and \<open>exit(1)\<close>.\<close>

fun read_opts :: "(char \<times> string) list \<Rightarrow> flt_opts \<times> string option \<Rightarrow> (flt_opts \<times> string option) option" where
  "read_opts [] acc = Some acc"
| "read_opts ((c, arg) # rest) (opts, ofile) =
     (if c = CHR ''p'' then read_opts rest (opts\<lparr>o_print := 1\<rparr>, ofile)
      else if c = CHR ''z'' then read_opts rest (opts\<lparr>o_compress := 1\<rparr>, ofile)
      else if c = CHR ''d'' then read_opts rest (opts\<lparr>o_compress := 2\<rparr>, ofile)
      else if c = CHR ''Z'' then read_opts rest (opts\<lparr>o_compress := - 1\<rparr>, ofile)
      else if c = CHR ''r'' then read_opts rest (opts\<lparr>o_ramload := 1\<rparr>, ofile)
      else if c = CHR ''R'' then read_opts rest (opts\<lparr>o_ramload := - 1\<rparr>, ofile)
      else if c = CHR ''k'' then read_opts rest (opts\<lparr>o_ktrace := 1\<rparr>, ofile)
      else if c = CHR ''K'' then read_opts rest (opts\<lparr>o_ktrace := - 1\<rparr>, ofile)
      else if c = CHR ''s'' then read_opts rest (opts\<lparr>o_stacksize := to_int (strtol 10 arg)\<rparr>, ofile)
      else if c = CHR ''o'' then read_opts rest (opts, Some arg)
      else None)"

definition no_opts :: flt_opts where
  "no_opts = \<lparr>o_print = 0, o_compress = 0, o_ramload = 0, o_stacksize = 0, o_ktrace = 0\<rparr>"

definition default_print :: "nat \<Rightarrow> flt_opts \<Rightarrow> flt_opts" where
  "default_print n opts =
     (if o_print opts = 0 \<and> o_compress opts = 0 \<and> o_ramload opts = 0 \<and> o_stacksize opts = 0
      then opts\<lparr>o_print := n\<rparr> else opts)"

fun process_files :: "packer \<Rightarrow> packer \<Rightarrow> flt_opts \<Rightarrow> string option \<Rightarrow> string list \<Rightarrow> (string \<Rightarrow> u8 list option) \<Rightarrow>
    report list \<Rightarrow> nat \<times> report list \<times> (string \<Rightarrow> u8 list option)" where
  "process_files gzip gunzip opts ofile [] fs rs = (0, rs, fs)"
| "process_files gzip gunzip opts ofile (f # files) fs rs =
     (case fs f of
        None \<Rightarrow> process_files gzip gunzip opts None files fs rs
      | Some bs \<Rightarrow>
          (let rs = rs @ print_file opts bs in
           case process_file gzip gunzip opts bs of
             Quit \<Rightarrow> (1, rs, fs)
           | Skipped \<Rightarrow> process_files gzip gunzip opts None files fs rs
           | Written new \<Rightarrow>
               process_files gzip gunzip opts None files
                 (fs((case ofile of None \<Rightarrow> f | Some out \<Rightarrow> out) \<mapsto> new)) rs))"

definition flthdr :: "packer \<Rightarrow> packer \<Rightarrow> (char \<times> string) list \<Rightarrow> string list \<Rightarrow> (string \<Rightarrow> u8 list option) \<Rightarrow>
    nat \<times> report list \<times> (string \<Rightarrow> u8 list option)" where
  "flthdr gzip gunzip args files fs =
     (case read_opts args (no_opts, None) of
        None \<Rightarrow> (1, [], fs)
      | Some (opts, ofile) \<Rightarrow>
          if files = [] \<or> (ofile \<noteq> None \<and> 1 < length files) then (1, [], fs)
          else process_files gzip gunzip (default_print (length files) opts) ofile files fs [])"

end
