(* ===== verification/Flthdr_Props.thy ===== *)
theory Flthdr_Props
  imports Flthdr
begin

text \<open>Changing the header of a flat file: the flags, the contents, and doing it twice.\<close>

section \<open>Flags\<close>

lemma has_bit:
  "has flags FLAT_FLAG_RAM \<longleftrightarrow> bit flags 0" "has flags FLAT_FLAG_GZIP \<longleftrightarrow> bit flags 2"
  "has flags FLAT_FLAG_GZDATA \<longleftrightarrow> bit flags 3" "has flags FLAT_FLAG_KTRACE \<longleftrightarrow> bit flags 4"
  using and_exp_eq_0_iff_not_bit [of flags 0] and_exp_eq_0_iff_not_bit [of flags 2]
    and_exp_eq_0_iff_not_bit [of flags 3] and_exp_eq_0_iff_not_bit [of flags 4]
  by (simp_all add: has_def FLAT_FLAG_RAM_def FLAT_FLAG_GZIP_def FLAT_FLAG_GZDATA_def FLAT_FLAG_KTRACE_def)

lemma has_or: "has flags (a OR b) \<longleftrightarrow> has flags a \<or> has flags b"
  by (simp add: has_def bit.conj_disj_distrib or_eq_0_iff)

lemma bit_flag:
  "bit FLAT_FLAG_RAM k \<longleftrightarrow> k = 0" "bit FLAT_FLAG_GZIP k \<longleftrightarrow> k = 2"
  "bit FLAT_FLAG_GZDATA k \<longleftrightarrow> k = 3" "bit FLAT_FLAG_KTRACE k \<longleftrightarrow> k = 4"
  using bit_exp_iff [of 0 k, where ?'a = u32] bit_exp_iff [of 2 k, where ?'a = u32]
    bit_exp_iff [of 3 k, where ?'a = u32] bit_exp_iff [of 4 k, where ?'a = u32]
  by (auto simp: FLAT_FLAG_RAM_def FLAT_FLAG_GZIP_def FLAT_FLAG_GZDATA_def FLAT_FLAG_KTRACE_def)

lemma bit_new_flags:
  "bit (new_flags opts flags) k \<longleftrightarrow>
     (if k = 0 \<and> o_ramload opts \<noteq> 0 then 0 < o_ramload opts
      else if k = 4 \<and> o_ktrace opts \<noteq> 0 then 0 < o_ktrace opts
      else if k = 2 \<and> (o_compress opts < 0 \<or> o_compress opts \<in> {1, 2}) then o_compress opts = 1
      else if k = 3 \<and> (o_compress opts < 0 \<or> o_compress opts \<in> {1, 2}) then o_compress opts = 2
      else bit flags k)"
proof (cases "k < 32")
  case True
  then show ?thesis
    by (auto simp: new_flags_def with_bit_def with_compress_def bit_or_iff bit_and_iff bit_not_iff bit_flag)
next
  case False
  then show ?thesis using bit_imp_le_length [of _ k, where ?'a = 32] by fastforce
qed

text \<open>Each option decides its own bits of the flags and no other: compression the two bits for the
  packed file and the packed data (never both), the load and trace options one bit each.\<close>

theorem flthdr_new_flags:
  "bit (new_flags opts flags) k \<longleftrightarrow>
     (if k = 0 \<and> o_ramload opts \<noteq> 0 then 0 < o_ramload opts
      else if k = 4 \<and> o_ktrace opts \<noteq> 0 then 0 < o_ktrace opts
      else if k = 2 \<and> (o_compress opts < 0 \<or> o_compress opts \<in> {1, 2}) then o_compress opts = 1
      else if k = 3 \<and> (o_compress opts < 0 \<or> o_compress opts \<in> {1, 2}) then o_compress opts = 2
      else bit flags k)"
  by (rule bit_new_flags)

lemma not_both:
  assumes "\<not> (has x FLAT_FLAG_GZIP \<and> has x FLAT_FLAG_GZDATA)"
  shows "\<not> (has (new_flags opts x) FLAT_FLAG_GZIP \<and> has (new_flags opts x) FLAT_FLAG_GZDATA)"
proof -
  have "bit (new_flags opts x) 2 \<longleftrightarrow>
      (if o_compress opts < 0 \<or> o_compress opts \<in> {1, 2} then o_compress opts = 1 else bit x 2)"
    "bit (new_flags opts x) 3 \<longleftrightarrow>
      (if o_compress opts < 0 \<or> o_compress opts \<in> {1, 2} then o_compress opts = 2 else bit x 3)"
    by (simp_all add: bit_new_flags)
  then show ?thesis using assms by (simp add: has_bit)
qed

section \<open>Header fields\<close>

lemma length_hdr_set [simp]: "f + 4 \<le> length hdr \<Longrightarrow> length (hdr_set f w hdr) = length hdr"
  by (simp add: hdr_set_def)

lemma hdr_get_set [simp]: "f + 4 \<le> length hdr \<Longrightarrow> hdr_get f (hdr_set f w hdr) = w"
  by (simp add: hdr_get_def hdr_set_def memcpy_at_def be_word_bytes)

lemma hdr_get_other: "g + 4 \<le> f \<or> f + 4 \<le> g \<Longrightarrow> f + 4 \<le> length hdr \<Longrightarrow> hdr_get g (hdr_set f w hdr) = hdr_get g hdr"
proof -
  assume a: "g + 4 \<le> f \<or> f + 4 \<le> g" "f + 4 \<le> length hdr"
  have "take 4 (drop g (hdr_set f w hdr)) = take 4 (drop g hdr)"
    using a by (intro nth_equalityI) (auto simp: hdr_set_def memcpy_at_def nth_append)
  then show ?thesis by (simp add: hdr_get_def)
qed

lemma take_hdr_set: "n \<le> f \<Longrightarrow> f + 4 \<le> length hdr \<Longrightarrow> take n (hdr_set f w hdr) = take n hdr"
  by (simp add: hdr_set_def memcpy_at_def)

definition new_header :: "flt_opts \<Rightarrow> u8 list \<Rightarrow> u8 list" where
  "new_header opts hdr =
     hdr_set f_stack_size (new_stack opts (hdr_get f_stack_size hdr))
       (hdr_set f_flags (new_flags opts (hdr_get f_flags hdr)) hdr)"

lemma new_header:
  assumes "length hdr = HDR_SIZE"
  shows "length (new_header opts hdr) = HDR_SIZE" "take 4 (new_header opts hdr) = take 4 hdr"
    "hdr_get f_flags (new_header opts hdr) = new_flags opts (hdr_get f_flags hdr)"
    "hdr_get f_stack_size (new_header opts hdr) = new_stack opts (hdr_get f_stack_size hdr)"
    "g + 4 \<le> f_stack_size \<or> f_stack_size + 4 \<le> g \<and> g + 4 \<le> f_flags \<or> f_flags + 4 \<le> g \<Longrightarrow>
       hdr_get g (new_header opts hdr) = hdr_get g hdr"
proof -
  have a: "f_flags + 4 \<le> length hdr" "f_stack_size + 4 \<le> length hdr" "4 \<le> f_stack_size" "4 \<le> f_flags"
    "f_stack_size + 4 \<le> f_flags"
    using assms by (simp_all add: f_flags_def f_stack_size_def HDR_SIZE_def)
  show "length (new_header opts hdr) = HDR_SIZE" "take 4 (new_header opts hdr) = take 4 hdr"
    "hdr_get f_flags (new_header opts hdr) = new_flags opts (hdr_get f_flags hdr)"
    "hdr_get f_stack_size (new_header opts hdr) = new_stack opts (hdr_get f_stack_size hdr)"
    using assms a by (simp_all add: new_header_def take_hdr_set hdr_get_other)
  show "hdr_get g (new_header opts hdr) = hdr_get g hdr"
    if "g + 4 \<le> f_stack_size \<or> f_stack_size + 4 \<le> g \<and> g + 4 \<le> f_flags \<or> f_flags + 4 \<le> g"
    using that a by (auto simp: new_header_def hdr_get_other)
qed

lemma process_file_written:
  "process_file gzip gunzip opts f = Written g \<longleftrightarrow>
     HDR_SIZE \<le> length f \<and> take 4 f = flat_magic \<and>
     \<not> (new_flags opts (hdr_get f_flags (take HDR_SIZE f)) = hdr_get f_flags (take HDR_SIZE f) \<and>
        new_stack opts (hdr_get f_stack_size (take HDR_SIZE f)) = hdr_get f_stack_size (take HDR_SIZE f)) \<and>
     (\<exists>body new. unpacked gunzip (take HDR_SIZE f) (drop HDR_SIZE f) = Some body \<and>
        packed gzip (new_header opts (take HDR_SIZE f)) body = Some new \<and> g = new_header opts (take HDR_SIZE f) @ new)"
proof -
  have "take 4 (take HDR_SIZE f) = take 4 f" by (simp add: HDR_SIZE_def min_def)
  then show ?thesis
    by (auto simp: process_file_def Let_def new_header_def [symmetric] split: option.splits)
qed

section \<open>Contents\<close>

lemma transferr_again:
  assumes "transferr n body = Some (txt, rest)" "n \<noteq> - 1"
  shows "txt @ rest = body" "transferr n (txt @ x) = Some (txt, x)"
  using assms by (auto simp: transferr_def split: if_splits)

lemma pack_unpack:
  assumes "\<forall>x. gunzip (gzip x) = x" "packed gzip hdr body = Some new" "text_size hdr \<noteq> - 1"
    "\<not> (has (hdr_get f_flags hdr) FLAT_FLAG_GZIP \<and> has (hdr_get f_flags hdr) FLAT_FLAG_GZDATA)"
  shows "unpacked gunzip hdr new = Some body"
  using assms
  by (auto simp: packed_def unpacked_def has_or Let_def transferr_again split: if_splits option.splits prod.splits)

text \<open>The unpacked contents of a flat file.\<close>

definition contents :: "packer \<Rightarrow> u8 list \<Rightarrow> u8 list option" where
  "contents gunzip f = unpacked gunzip (take HDR_SIZE f) (drop HDR_SIZE f)"

text \<open>C18: Whatever the options, a rewritten file has the unpacked contents of the old one and the header
  of the old one but for the flags and the stack size, which are what the options say, when
  \<open>gunzip\<close> undoes \<open>gzip\<close>, the old file is not marked as packed in both ways, and its text does not
  end inside the header (one byte before the end of it, \<open>transferr\<close> would copy all).\<close>

theorem flthdr_keeps_contents:
  assumes "\<forall>x. gunzip (gzip x) = x" "process_file gzip gunzip opts f = Written g"
    "\<not> (has (hdr_get f_flags f) FLAT_FLAG_GZIP \<and> has (hdr_get f_flags f) FLAT_FLAG_GZDATA)"
    "hdr_get f_data_start f \<noteq> 63"
  shows "contents gunzip g = contents gunzip f \<and> contents gunzip f \<noteq> None \<and>
    hdr_get f_flags g = new_flags opts (hdr_get f_flags f) \<and>
    hdr_get f_stack_size g = new_stack opts (hdr_get f_stack_size f) \<and>
    (\<forall>w \<in> {f_rev, f_entry, f_data_start, f_data_end, f_bss_end, f_reloc_start, f_reloc_count, f_build_date}.
       hdr_get w g = hdr_get w f)"
proof -
  let ?h = "take HDR_SIZE f"
  let ?n = "new_header opts ?h"
  obtain body new where w: "HDR_SIZE \<le> length f" "unpacked gunzip ?h (drop HDR_SIZE f) = Some body"
    "packed gzip ?n body = Some new" "g = ?n @ new"
    using assms(2) by (auto simp: process_file_written)
  have h: "length ?h = HDR_SIZE" using w(1) by simp
  note n = new_header [OF h, where opts = opts]
  have get: "hdr_get k (take HDR_SIZE xs) = hdr_get k xs" if "k + 4 \<le> HDR_SIZE" for k xs
    using that by (simp add: hdr_get_def drop_take min_def)
  have tg: "take HDR_SIZE g = ?n" "drop HDR_SIZE g = new" using w(4) n(1) by simp_all
  have fl: "hdr_get k ?n = hdr_get k g" if "k + 4 \<le> HDR_SIZE" for k
    using get [OF that, of g] unfolding tg(1) .
  have off: "\<forall>k \<in> {f_rev, f_entry, f_data_start, f_data_end, f_bss_end, f_reloc_start, f_reloc_count, f_build_date}.
      k + 4 \<le> HDR_SIZE \<and> (k + 4 \<le> f_stack_size \<or> f_stack_size + 4 \<le> k \<and> k + 4 \<le> f_flags \<or> f_flags + 4 \<le> k)"
    "f_flags + 4 \<le> HDR_SIZE" "f_stack_size + 4 \<le> HDR_SIZE"
    by (simp_all add: f_rev_def f_entry_def f_data_start_def f_data_end_def f_bss_end_def f_reloc_start_def
        f_reloc_count_def f_build_date_def f_stack_size_def f_flags_def HDR_SIZE_def)
  have "hdr_get f_data_start ?n = hdr_get f_data_start f" using n(5) get off(1) by simp
  moreover have "sint (x - of_nat HDR_SIZE :: u32) \<noteq> - 1" if "x \<noteq> 63" for x
  proof
    assume "sint (x - of_nat HDR_SIZE :: u32) = - 1"
    then have "x - of_nat HDR_SIZE = (- 1 :: u32)" by (intro signed_word_eqI) simp
    then have "x = - 1 + of_nat HDR_SIZE" by (simp add: algebra_simps)
    then show False using that by (simp add: HDR_SIZE_def)
  qed
  ultimately have t: "text_size ?n \<noteq> - 1" using assms(4) by (simp add: text_size_def)
  have b: "\<not> (has (hdr_get f_flags ?n) FLAT_FLAG_GZIP \<and> has (hdr_get f_flags ?n) FLAT_FLAG_GZDATA)"
    using not_both [of "hdr_get f_flags f" opts] assms(3) unfolding n(3) get [OF off(2)] by blast
  have "contents gunzip g = Some body" unfolding contents_def tg by (rule pack_unpack [OF assms(1) w(3) t b])
  moreover have "hdr_get k g = hdr_get k f"
    if "k \<in> {f_rev, f_entry, f_data_start, f_data_end, f_bss_end, f_reloc_start, f_reloc_count, f_build_date}" for k
  proof -
    note o = bspec [OF off(1) that]
    show ?thesis using n(5) [OF conjunct2 [OF o]] fl [OF conjunct1 [OF o]] get [OF conjunct1 [OF o], of f]
      by (simp only:)
  qed
  ultimately show ?thesis using w(2) n(3,4) fl [OF off(2)] fl [OF off(3)] get [OF off(2), of f] get [OF off(3), of f]
    by (simp add: contents_def)
qed

text \<open>Giving the same options twice changes nothing the second time.\<close>

theorem flthdr_twice:
  assumes "process_file gzip gunzip opts f = Written g"
  shows "process_file gzip gunzip opts g = Skipped"
proof -
  let ?h = "take HDR_SIZE f"
  let ?n = "new_header opts ?h"
  obtain new where w: "HDR_SIZE \<le> length f" "take 4 f = flat_magic" "g = ?n @ new"
    using assms by (auto simp: process_file_written)
  have h: "length ?h = HDR_SIZE" using w(1) by simp
  note n = new_header [OF h, where opts = opts]
  have tg: "take HDR_SIZE g = ?n" using w(3) n(1) by simp
  have "new_flags opts (new_flags opts x) = new_flags opts x" for x
    by (rule bit_word_eqI) (auto simp: bit_new_flags)
  moreover have "new_stack opts (new_stack opts x) = new_stack opts x" for x
    by (simp add: new_stack_def)
  ultimately show ?thesis using n(3,4) by (simp add: process_file_def Let_def tg)
qed

text \<open>A file of two bytes of text and two of data, packed with \<open>-z\<close>; the packer reverses its input.\<close>

definition demo_flat :: "u8 list" where
  "demo_flat = flat_magic @ be_bytes 4 (4 :: u32) @ be_bytes 4 (64 :: u32) @ be_bytes 4 (66 :: u32) @
     be_bytes 4 (68 :: u32) @ be_bytes 4 (68 :: u32) @ be_bytes 4 (4096 :: u32) @ replicate 36 0 @ [1, 2, 3, 4]"

definition demo_zip :: flt_opts where
  "demo_zip = no_opts\<lparr>o_compress := 1\<rparr>"

lemma demo_flat_written: "map_option (drop 64) (case process_file rev rev demo_zip demo_flat of Written g \<Rightarrow> Some g | _ \<Rightarrow> None) =
    Some [4, 3, 2, 1]"
  by code_simp

lemma demo_flat_written_ex: "\<exists>g. process_file rev rev demo_zip demo_flat = Written g \<and> drop 64 g = [4, 3, 2, 1]"
  using demo_flat_written by (auto split: outcome.splits)

lemma demo_flat_words:
  "hdr_get f_flags demo_flat = 0" "hdr_get f_data_start demo_flat = 66" "contents rev demo_flat = Some [1, 2, 3, 4]"
  by code_simp+

theorem flthdr_keeps_contents_witness:
  "\<exists>g. process_file rev rev demo_zip demo_flat = Written g \<and> drop 64 g = [4, 3, 2, 1] \<and> contents rev g = Some [1, 2, 3, 4]"
proof -
  obtain g where g: "process_file rev rev demo_zip demo_flat = Written g" "drop 64 g = [4, 3, 2, 1]"
    using demo_flat_written_ex by blast
  have "\<forall>x :: u8 list. rev (rev x) = x" by simp
  moreover have "\<not> (has (hdr_get f_flags demo_flat) FLAT_FLAG_GZIP \<and> has (hdr_get f_flags demo_flat) FLAT_FLAG_GZDATA)"
    "hdr_get f_data_start demo_flat \<noteq> 63"
    by (simp_all add: demo_flat_words has_def)
  ultimately show ?thesis using flthdr_keeps_contents [of rev rev demo_zip demo_flat g] g demo_flat_words(3) by auto
qed

theorem flthdr_twice_witness:
  "\<exists>g. process_file rev rev demo_zip demo_flat = Written g \<and> process_file rev rev demo_zip g = Skipped"
  using demo_flat_written_ex flthdr_twice by blast

end
