(* ===== verification/Atmel_Ssc.thy ===== *)
theory Atmel_Ssc
  imports Prelude
begin

text \<open>
  \<open>drivers/misc/atmel-ssc.c\<close>: giving out the synchronous serial controllers, each to one user.

  A device is a structure on the list \<open>ssc_list\<close>; its state has the user count and how often its clock
  is enabled. A pointer to a device is a number. Operations hold \<open>user_lock\<close> where it matters and are
  atomic. What the platform gives to \<open>ssc_probe\<close> is a parameter.
\<close>

record ssc_device =
  ssc_id :: "32 word"
  ssc_user :: nat
  ssc_clk :: int

record ssc_state =
  ssc_list :: "nat list"
  ssc_devs :: "nat \<Rightarrow> ssc_device"

definition SSC_ENODEV :: int where "SSC_ENODEV = 19"
definition SSC_EBUSY :: int where "SSC_EBUSY = 16"
definition SSC_ENXIO :: int where "SSC_ENXIO = 6"
definition SSC_EINVAL :: int where "SSC_EINVAL = 22"
definition SSC_ENOMEM :: int where "SSC_ENOMEM = 12"

definition upd_ssc :: "nat \<Rightarrow> (ssc_device \<Rightarrow> ssc_device) \<Rightarrow> ssc_state \<Rightarrow> ssc_state" where
  "upd_ssc d f s = s\<lparr>ssc_devs := (ssc_devs s)(d := f (ssc_devs s d))\<rparr>"

text \<open>The device with the number, if it is free: an error (\<open>ERR_PTR\<close>) or the device.\<close>

definition ssc_request :: "32 word \<Rightarrow> ssc_state \<Rightarrow> (int + nat) \<times> ssc_state" where
  "ssc_request ssc_num s =
     (case find (\<lambda>d. ssc_id (ssc_devs s d) = ssc_num) (ssc_list s) of
        None \<Rightarrow> (Inl (- SSC_ENODEV), s)
      | Some d \<Rightarrow>
          if ssc_user (ssc_devs s d) \<noteq> 0 then (Inl (- SSC_EBUSY), s)
          else (Inr d, upd_ssc d (ssc_clk_update (\<lambda>n. n + 1)) (upd_ssc d (ssc_user_update Suc) s)))"

definition ssc_free :: "nat \<Rightarrow> ssc_state \<Rightarrow> ssc_state" where
  "ssc_free d s =
     (if ssc_user (ssc_devs s d) \<noteq> 0 then
        upd_ssc d (ssc_clk_update (\<lambda>n. n - 1)) (upd_ssc d (ssc_user_update (\<lambda>n. n - 1)) s)
      else s)"

record ssc_platform =
  sp_alloc :: "nat option"
  sp_id :: "32 word"
  sp_mem :: bool
  sp_clk :: bool
  sp_ioremap :: bool
  sp_irq :: int

text \<open>The clock is enabled while the interrupts are disabled and balanced again.\<close>

definition ssc_probe :: "ssc_platform \<Rightarrow> ssc_state \<Rightarrow> int \<times> ssc_state" where
  "ssc_probe pf s =
     (case sp_alloc pf of
        None \<Rightarrow> (- SSC_ENOMEM, s)
      | Some d \<Rightarrow>
          if \<not> sp_mem pf then (- SSC_ENXIO, s)
          else if \<not> sp_clk pf then (- SSC_ENXIO, s)
          else if \<not> sp_ioremap pf then (- SSC_EINVAL, s)
          else
            (let s = s\<lparr>ssc_devs := (ssc_devs s)(d := \<lparr>ssc_id = sp_id pf, ssc_user = 0, ssc_clk = 0\<rparr>)\<rparr>;
                 s = upd_ssc d (ssc_clk_update (\<lambda>n. n + 1)) s;
                 s = upd_ssc d (ssc_clk_update (\<lambda>n. n - 1)) s
             in if sp_irq pf = 0 then (- SSC_ENXIO, s) else (0, s\<lparr>ssc_list := ssc_list s @ [d]\<rparr>)))"

definition ssc_remove :: "nat \<Rightarrow> ssc_state \<Rightarrow> ssc_state" where
  "ssc_remove d s = s\<lparr>ssc_list := remove1 d (ssc_list s)\<rparr>"

end
