(* ===== verification/Atmel_Ssc_Props.thy ===== *)
theory Atmel_Ssc_Props
  imports Transition Atmel_Ssc
begin

text \<open>
  The serial controllers: what holds of every state that users and the platform can reach, and that
  a controller is given to one user at a time.
\<close>

section \<open>The invariant\<close>

text \<open>The device that a probe allocates is a new one; a user gives back a device of the list.\<close>

inductive ssc_step :: "ssc_state \<Rightarrow> ssc_state \<Rightarrow> bool" where
  ssc_step_request: "ssc_request n s = (r, s') \<Longrightarrow> ssc_step s s'"
| ssc_step_free: "d \<in> set (ssc_list s) \<Longrightarrow> ssc_free d s = s' \<Longrightarrow> ssc_step s s'"
| ssc_step_probe: "\<forall>d. sp_alloc pf = Some d \<longrightarrow> d \<notin> set (ssc_list s) \<Longrightarrow> ssc_probe pf s = (r, s') \<Longrightarrow> ssc_step s s'"
| ssc_step_remove: "ssc_remove d s = s' \<Longrightarrow> ssc_step s s'"

definition ssc_start :: "ssc_state \<Rightarrow> bool" where
  "ssc_start s \<longleftrightarrow> ssc_list s = []"

definition ssc_ok :: "ssc_state \<Rightarrow> bool" where
  "ssc_ok s \<longleftrightarrow> distinct (ssc_list s) \<and>
     (\<forall>d\<in>set (ssc_list s). ssc_user (ssc_devs s d) \<le> 1 \<and> ssc_clk (ssc_devs s d) = int (ssc_user (ssc_devs s d)))"

lemma upd_ssc_simps [simp]:
  "ssc_list (upd_ssc d f s) = ssc_list s"
  "ssc_devs (upd_ssc d f s) = (ssc_devs s)(d := f (ssc_devs s d))"
  by (simp_all add: upd_ssc_def)

interpretation ssc: invariant ssc_start ssc_step ssc_ok
proof unfold_locales
  fix s assume "ssc_start s"
  then show "ssc_ok s" by (simp add: ssc_start_def ssc_ok_def)
next
  fix s s' assume ok: "ssc_ok s" and "ssc_step s s'"
  from this(2) show "ssc_ok s'"
  proof cases
    case (ssc_step_request n r)
    then show ?thesis using ok by (auto simp: ssc_request_def ssc_ok_def split: option.splits if_splits)
  next
    case (ssc_step_free d)
    then have "ssc_user (ssc_devs s d) = 0 \<or> ssc_user (ssc_devs s d) = 1" using ok by (auto simp: ssc_ok_def)
    then show ?thesis using ssc_step_free ok by (auto simp: ssc_free_def ssc_ok_def)
  next
    case (ssc_step_probe pf r)
    then show ?thesis using ok
      by (auto simp: ssc_probe_def ssc_ok_def Let_def split: option.splits if_splits)
  next
    case (ssc_step_remove d)
    then show ?thesis using ok by (auto simp: ssc_remove_def ssc_ok_def dest: subsetD [OF set_remove1_subset])
  qed
qed

section \<open>One user at a time\<close>

text \<open>C22: In every state that users and the platform can bring about, a request that succeeds gives a
  listed controller with the number asked for, with its clock enabled once; until it is given back every
  further request for that number is refused as busy, and giving it back restores the state as it was.\<close>

theorem ssc_exclusive:
  assumes "reachable ssc_start ssc_step s" "ssc_request n s = (Inr d, s')"
  shows "d \<in> set (ssc_list s) \<and> ssc_devs s' d = \<lparr>ssc_id = n, ssc_user = 1, ssc_clk = 1\<rparr> \<and>
    ssc_request n s' = (Inl (- SSC_EBUSY), s') \<and> ssc_free d s' = s"
proof -
  have ok: "ssc_ok s" using assms(1) by (rule ssc.inv_reachable)
  obtain f: "find (\<lambda>d. ssc_id (ssc_devs s d) = n) (ssc_list s) = Some d" and u: "ssc_user (ssc_devs s d) = 0"
    and s': "s' = upd_ssc d (ssc_clk_update (\<lambda>n. n + 1)) (upd_ssc d (ssc_user_update Suc) s)"
    using assms(2) by (auto simp: ssc_request_def split: option.splits if_splits)
  have d: "d \<in> set (ssc_list s)" "ssc_id (ssc_devs s d) = n" using f by (auto simp: find_Some_iff)
  have c: "ssc_clk (ssc_devs s d) = 0" using ok d(1) u by (simp add: ssc_ok_def)
  have e: "ssc_devs s' d = \<lparr>ssc_id = n, ssc_user = 1, ssc_clk = 1\<rparr>"
    unfolding s' using d(2) u c by simp
  have ids: "ssc_id (ssc_devs s' x) = ssc_id (ssc_devs s x)" "ssc_list s' = ssc_list s" for x
    unfolding s' by simp_all
  have "ssc_request n s' = (Inl (- SSC_EBUSY), s')"
    unfolding ssc_request_def ids f by (simp add: e)
  moreover have "ssc_free d s' = s"
    unfolding ssc_free_def e using d(2) u c by (simp add: s' upd_ssc_def) (cases s; cases "ssc_devs s d"; simp add: fun_upd_idem)
  ultimately show ?thesis using d(1) e by blast
qed

definition ssc_wit_state :: ssc_state where
  "ssc_wit_state = snd (ssc_probe \<lparr>sp_alloc = Some 4, sp_id = 1, sp_mem = True, sp_clk = True, sp_ioremap = True,
     sp_irq = 9\<rparr> \<lparr>ssc_list = [], ssc_devs = (\<lambda>_. \<lparr>ssc_id = 0, ssc_user = 0, ssc_clk = 0\<rparr>)\<rparr>)"

lemma ssc_wit_run: "reachable ssc_start ssc_step ssc_wit_state"
proof (rule reach_step [OF reach_init])
  let ?s = "\<lparr>ssc_list = [], ssc_devs = (\<lambda>_. \<lparr>ssc_id = 0, ssc_user = 0, ssc_clk = 0\<rparr>)\<rparr>"
  show "ssc_start ?s" by (simp add: ssc_start_def)
  show "ssc_step ?s ssc_wit_state"
    unfolding ssc_wit_state_def by (rule ssc_step_probe [OF _ prod.collapse [symmetric]]) simp
qed

lemma ssc_exclusive_witness:
  "\<exists>s'. ssc_request 1 ssc_wit_state = (Inr 4, s') \<and> ssc_request 1 s' = (Inl (- 16), s') \<and>
        ssc_free 4 s' = ssc_wit_state"
proof -
  have "\<exists>s'. ssc_request 1 ssc_wit_state = (Inr 4, s')"
    by (simp add: ssc_request_def ssc_wit_state_def ssc_probe_def upd_ssc_def)
  then obtain s' where "ssc_request 1 ssc_wit_state = (Inr 4, s')" by blast
  then show ?thesis using ssc_exclusive [OF ssc_wit_run] by (fastforce simp: SSC_EBUSY_def)
qed

end
