(* ===== verification/Atmel_Twi.thy ===== *)
theory Atmel_Twi
  imports Bytes
begin

text \<open>
  \<open>drivers/i2c/busses/i2c-atmeltwi.c\<close>: the two-wire bus driver, an interrupt routine that moves a byte
  at a time and a transfer function that waits for it.

  Every access to a register the driver writes, and every byte taken from \<open>RHR\<close>, is logged. An interrupt
  is the value of \<open>SR\<close> it finds and the byte that \<open>RHR\<close> gives; the interrupts that come while a message
  is transferred are a parameter, and a wait that none of them completes times out. An access outside
  the buffer of the message is \<open>None\<close>, as is a division by zero.
\<close>

type_synonym twi_reg = "32 word"

definition TWI_CR :: nat where "TWI_CR = 0x00"
definition TWI_MMR :: nat where "TWI_MMR = 0x04"
definition TWI_IADR :: nat where "TWI_IADR = 0x0C"
definition TWI_CWGR :: nat where "TWI_CWGR = 0x10"
definition TWI_IER :: nat where "TWI_IER = 0x24"
definition TWI_IDR :: nat where "TWI_IDR = 0x28"
definition TWI_RHR :: nat where "TWI_RHR = 0x30"
definition TWI_THR :: nat where "TWI_THR = 0x34"

text \<open>\<open>TWI_BIT\<close> of the fields of \<open>CR\<close>, \<open>MMR\<close> and \<open>SR\<close>.\<close>

definition CR_START :: twi_reg where "CR_START = 0x01"
definition CR_STOP :: twi_reg where "CR_STOP = 0x02"
definition CR_MSEN :: twi_reg where "CR_MSEN = 0x04"
definition CR_MSDIS :: twi_reg where "CR_MSDIS = 0x08"
definition CR_SWRST :: twi_reg where "CR_SWRST = 0x80"
definition MMR_MREAD :: twi_reg where "MMR_MREAD = 0x1000"
definition SR_TXCOMP :: twi_reg where "SR_TXCOMP = 0x001"
definition SR_RXRDY :: twi_reg where "SR_RXRDY = 0x002"
definition SR_TXRDY :: twi_reg where "SR_TXRDY = 0x004"
definition SR_OVRE :: twi_reg where "SR_OVRE = 0x040"
definition SR_NACK :: twi_reg where "SR_NACK = 0x100"

text \<open>\<open>TWI_BF\<close>: a value cut to the size of a field and moved to its offset.\<close>

definition TWI_BF :: "nat \<Rightarrow> nat \<Rightarrow> twi_reg \<Rightarrow> twi_reg" where
  "TWI_BF off sz val = push_bit off (take_bit sz val)"

definition EPIPE :: int where "EPIPE = 32"
definition ENOSR :: int where "ENOSR = 63"
definition EOVERFLOW :: int where "EOVERFLOW = 75"
definition ETIMEDOUT :: int where "ETIMEDOUT = 110"

record twi =
  t_mask :: twi_reg
  t_buf :: "u8 list"
  t_len :: "16 word"
  acks_left :: "16 word"
  t_status :: int
  t_done :: bool
  t_log :: "(nat \<times> twi_reg) list"

definition twi_writel :: "nat \<Rightarrow> twi_reg \<Rightarrow> twi \<Rightarrow> twi" where
  "twi_writel off val t = t\<lparr>t_log := t_log t @ [(off, val)]\<rparr>"

section \<open>The clock\<close>

text \<open>The loop that halves the divisor; it ends since the divisor gets smaller.\<close>

function halve_div :: "twi_reg \<Rightarrow> nat \<Rightarrow> twi_reg \<times> nat" where
  "halve_div cdiv ckdiv = (if cdiv > 255 then halve_div (drop_bit 1 cdiv) (Suc ckdiv) else (cdiv, ckdiv))"
  by pat_completeness auto

termination halve_div
  by (relation "measure (\<lambda>(cdiv, ckdiv). unat cdiv)") (auto simp: drop_bit_eq_div word_less_nat_alt unat_div)

declare halve_div.simps [simp del]

definition twi_hwinit :: "twi_reg \<Rightarrow> twi_reg \<Rightarrow> twi \<Rightarrow> (int \<times> twi) option" where
  "twi_hwinit rate baudrate t =
     (let t = twi_writel TWI_CR CR_SWRST (twi_writel TWI_IDR (- 1) t) in
      if 2 * baudrate = 0 then None
      else
        (let (cdiv, ckdiv) = halve_div (rate div (2 * baudrate) - 4) 0 in
         if ckdiv > 7 then Some (- 22, t)
         else Some (0, twi_writel TWI_CWGR
                (TWI_BF 16 3 (of_nat ckdiv) OR TWI_BF 8 8 cdiv OR TWI_BF 0 8 cdiv) t)))"

section \<open>The interrupt routine\<close>

definition sr_has :: "twi_reg \<Rightarrow> twi_reg \<Rightarrow> bool" where
  "sr_has status b \<longleftrightarrow> status AND b \<noteq> 0"

text \<open>The place of the next byte; \<open>None\<close> when it is not in the buffer.\<close>

definition next_place :: "twi \<Rightarrow> nat option" where
  "next_place t =
     (if unat (acks_left t) \<le> unat (t_len t) \<and> unat (t_len t) - unat (acks_left t) < length (t_buf t)
      then Some (unat (t_len t) - unat (acks_left t)) else None)"

definition twi_finish :: "twi_reg \<Rightarrow> twi \<Rightarrow> twi" where
  "twi_finish status t =
     (let t = (if sr_has status SR_NACK then t\<lparr>t_status := - EPIPE\<rparr>
               else if acks_left t \<noteq> 0 \<and> sr_has (t_mask t) SR_TXRDY then t\<lparr>t_status := - ENOSR\<rparr>
               else t)
      in (twi_writel TWI_IDR (- 1) t)\<lparr>t_done := True\<rparr>)"

definition last_ack :: "twi \<Rightarrow> twi" where
  "last_ack t = (if acks_left t = 0 then twi_writel TWI_IDR (NOT SR_TXCOMP) t else t)"

definition rx_byte :: "twi_reg \<Rightarrow> u8 \<Rightarrow> twi \<Rightarrow> twi option" where
  "rx_byte status rhr t =
     (if sr_has status SR_OVRE \<and> acks_left t \<noteq> 0 then
        Some ((twi_writel TWI_CR CR_STOP (t\<lparr>acks_left := 0\<rparr>))\<lparr>t_status := - EOVERFLOW\<rparr>)
      else if acks_left t > 0 then
        (case next_place t of
           None \<Rightarrow> None
         | Some i \<Rightarrow>
             Some ((twi_writel TWI_RHR (ucast rhr) t)\<lparr>t_buf := (t_buf t)[i := rhr], acks_left := acks_left t - 1\<rparr>))
      else Some t)"

definition tx_byte :: "twi \<Rightarrow> twi option" where
  "tx_byte t =
     (if acks_left t > 0 then
        (case next_place t of
           None \<Rightarrow> None
         | Some i \<Rightarrow> Some ((twi_writel TWI_THR (ucast (t_buf t ! i)) t)\<lparr>acks_left := acks_left t - 1\<rparr>))
      else Some (twi_writel TWI_CR CR_STOP t))"

definition twi_interrupt :: "twi_reg \<Rightarrow> u8 \<Rightarrow> twi \<Rightarrow> twi option" where
  "twi_interrupt sr rhr t =
     (if t_mask t AND sr = 0 then Some t
      else
        (let status = sr AND t_mask t in
         if sr_has status SR_RXRDY then
           (case rx_byte status rhr t of
              None \<Rightarrow> None
            | Some t \<Rightarrow>
                if sr_has status SR_TXCOMP then Some (twi_finish status t)
                else Some (last_ack (if acks_left t = 1 then twi_writel TWI_CR CR_STOP t else t)))
         else if sr_has status (SR_NACK OR SR_TXCOMP) then Some (twi_finish status t)
         else if sr_has status SR_TXRDY then map_option last_ack (tx_byte t)
         else Some (last_ack t)))"

section \<open>Transfers\<close>

text \<open>The interrupts of a wait, up to the one that completes it.\<close>

fun twi_wait :: "(twi_reg \<times> u8) list \<Rightarrow> twi \<Rightarrow> twi option" where
  "twi_wait [] t = Some t"
| "twi_wait ((sr, rhr) # irqs) t =
     (case twi_interrupt sr rhr t of
        None \<Rightarrow> None
      | Some t \<Rightarrow> if t_done t then Some t else twi_wait irqs t)"

record twi_env =
  te_rate :: twi_reg
  te_baudrate :: twi_reg

definition twi_complete :: "twi_env \<Rightarrow> twi_reg \<Rightarrow> (twi_reg \<times> u8) list \<Rightarrow> twi \<Rightarrow> (int \<times> twi) option" where
  "twi_complete e mk irqs t =
     (let mk = mk OR SR_TXCOMP;
          t = twi_writel TWI_IER mk (t\<lparr>t_mask := mk OR SR_NACK OR SR_OVRE, t_done := False\<rparr>) in
      case twi_wait irqs t of
        None \<Rightarrow> None
      | Some t \<Rightarrow>
          if t_done t then Some (0, t)
          else
            (case twi_hwinit (te_rate e) (te_baudrate e) (twi_writel TWI_CR CR_SWRST t) of
               None \<Rightarrow> None
             | Some (_, t) \<Rightarrow> Some (- ETIMEDOUT, t)))"

record i2c_msg =
  i_addr :: twi_reg
  i_rd :: bool
  i_len :: "16 word"
  i_buf :: "u8 list"

definition start_message :: "i2c_msg \<Rightarrow> twi \<Rightarrow> twi" where
  "start_message m t =
     twi_writel TWI_CR CR_MSEN (twi_writel TWI_IADR (TWI_BF 0 24 (i_addr m))
       (twi_writel TWI_MMR (TWI_BF 16 7 (i_addr m) OR (if i_rd m then MMR_MREAD else 0))
         (t\<lparr>t_len := i_len m, t_buf := i_buf m, acks_left := i_len m\<rparr>)))"

text \<open>Bytes that an earlier overrun left in \<open>RHR\<close> are read and dropped first; that changes nothing here.\<close>

definition twi_message :: "twi_env \<Rightarrow> i2c_msg \<Rightarrow> (twi_reg \<times> u8) list \<Rightarrow> twi \<Rightarrow> (int \<times> twi) option" where
  "twi_message e m irqs t =
     (let t = start_message m t in
      case (if i_rd m then
              twi_complete e SR_RXRDY irqs
                (twi_writel TWI_CR (if t_len t = 1 then CR_START OR CR_STOP else CR_START) t)
            else if t_buf t = [] then None
            else twi_complete e SR_TXRDY irqs
                   ((twi_writel TWI_THR (ucast (t_buf t ! 0)) t)\<lparr>acks_left := acks_left t - 1\<rparr>)) of
        None \<Rightarrow> None
      | Some (ret, t) \<Rightarrow>
          if ret = - ETIMEDOUT then Some (- ETIMEDOUT, t)
          else Some (t_status t, twi_writel TWI_CR CR_MSDIS t))"

fun twi_messages :: "twi_env \<Rightarrow> (i2c_msg \<times> (twi_reg \<times> u8) list) list \<Rightarrow> int \<Rightarrow> twi \<Rightarrow> (int \<times> u8 list list \<times> twi) option" where
  "twi_messages e [] i t = Some (i, [], t)"
| "twi_messages e ((m, irqs) # ms) i t =
     (case twi_message e m irqs t of
        None \<Rightarrow> None
      | Some (ret, t) \<Rightarrow>
          if ret \<noteq> 0 then Some (ret, [t_buf t], t)
          else map_option (\<lambda>(n, bufs, t'). (n, t_buf t # bufs, t')) (twi_messages e ms (i + 1) t))"

text \<open>The number of messages or an error, and the buffers of the messages that were begun.\<close>

definition twi_xfer :: "twi_env \<Rightarrow> (i2c_msg \<times> (twi_reg \<times> u8) list) list \<Rightarrow> twi \<Rightarrow> (int \<times> u8 list list \<times> twi) option" where
  "twi_xfer e ms t = twi_messages e ms 0 (t\<lparr>t_status := 0\<rparr>)"

section \<open>Coming and going of the device\<close>

text \<open>What the platform and the kernel give: the memory resource, the clock or an error, whether memory
  can be allocated and mapped, the results of asking for the interrupt and of adding the adapter.\<close>

record twi_platform =
  tp_regs :: bool
  tp_clk :: "int option"
  tp_alloc :: bool
  tp_map :: bool
  tp_request :: int
  tp_add :: int

record twi_held =
  r_clk :: bool
  r_mem :: bool
  r_map :: bool
  r_irq :: bool
  r_data :: bool

definition new_twi :: twi where
  "new_twi = \<lparr>t_mask = 0, t_buf = [], t_len = 0, acks_left = 0, t_status = 0, t_done = False, t_log = []\<rparr>"

text \<open>The labels of the error path, from the last to the first.\<close>

definition err_alloc_twi :: "twi_held \<Rightarrow> twi_held" where
  "err_alloc_twi h = h\<lparr>r_clk := False\<rparr>"

definition err_ioremap :: "twi_held \<Rightarrow> twi_held" where
  "err_ioremap h = err_alloc_twi (h\<lparr>r_mem := False\<rparr>)"

definition err_irq :: "twi_held \<Rightarrow> twi_held" where
  "err_irq h = err_ioremap (h\<lparr>r_map := False\<rparr>)"

definition err_hw_init :: "twi_held \<Rightarrow> twi_held" where
  "err_hw_init h = err_irq (h\<lparr>r_irq := False\<rparr>)"

definition err_register :: "twi_held \<Rightarrow> twi_held" where
  "err_register h = err_hw_init (h\<lparr>r_data := False\<rparr>)"

definition twi_probe :: "twi_platform \<Rightarrow> twi_env \<Rightarrow> twi_held \<Rightarrow> (int \<times> twi_held) option" where
  "twi_probe pf e h =
     (if \<not> tp_regs pf then Some (- 6, h)
      else (case tp_clk pf of
          Some err \<Rightarrow> Some (err, h)
        | None \<Rightarrow>
            (let h = h\<lparr>r_clk := True\<rparr> in
             if \<not> tp_alloc pf then Some (- 12, err_alloc_twi h)
             else
               (let h = h\<lparr>r_mem := True\<rparr> in
                if \<not> tp_map pf then Some (- 12, err_ioremap h)
                else
                  (let h = h\<lparr>r_map := True\<rparr> in
                   if tp_request pf \<noteq> 0 then Some (tp_request pf, err_irq h)
                   else
                     (let h = h\<lparr>r_irq := True\<rparr> in
                      case twi_hwinit (te_rate e) (te_baudrate e) new_twi of
                        None \<Rightarrow> None
                      | Some (rc, _) \<Rightarrow>
                          if rc \<noteq> 0 then Some (rc, err_hw_init h)
                          else
                            (let h = h\<lparr>r_data := True\<rparr> in
                             if tp_add pf \<noteq> 0 then Some (tp_add pf, err_register h) else Some (0, h))))))))"

text \<open>\<open>res\<close>: the result of deleting the adapter, which is passed on.\<close>

definition twi_remove :: "int \<Rightarrow> twi \<Rightarrow> twi_held \<Rightarrow> int \<times> twi \<times> twi_held" where
  "twi_remove res t h = (res, twi_writel TWI_CR CR_MSDIS t,
     h\<lparr>r_data := False, r_map := False, r_clk := False, r_irq := False, r_mem := False\<rparr>)"

end
