(* ===== verification/Atmel_Twi_Props.thy ===== *)
theory Atmel_Twi_Props
  imports Transition Atmel_Twi
begin

text \<open>
  The two-wire bus driver: no interrupt makes it leave the buffer of a message, the divisor of the
  clock fits its field, and a message that is reported as written has been sent byte for byte.
\<close>

section \<open>The buffer\<close>

text \<open>An interrupt is a step; a message has begun when its buffer has the bytes it claims to have.\<close>

definition twi_irq_step :: "twi \<Rightarrow> twi \<Rightarrow> bool" where
  "twi_irq_step t t' \<longleftrightarrow> (\<exists>sr rhr. twi_interrupt sr rhr t = Some t')"

definition twi_begun :: "twi \<Rightarrow> bool" where
  "twi_begun t \<longleftrightarrow> acks_left t = t_len t \<and> unat (t_len t) \<le> length (t_buf t)"

definition twi_in :: "twi \<Rightarrow> bool" where
  "twi_in t \<longleftrightarrow> unat (acks_left t) \<le> unat (t_len t) \<and> unat (t_len t) \<le> length (t_buf t)"

lemma twi_writel_simps [simp]:
  "t_mask (twi_writel off v t) = t_mask t" "t_buf (twi_writel off v t) = t_buf t"
  "t_len (twi_writel off v t) = t_len t" "acks_left (twi_writel off v t) = acks_left t"
  "t_status (twi_writel off v t) = t_status t" "t_done (twi_writel off v t) = t_done t"
  "t_log (twi_writel off v t) = t_log t @ [(off, v)]"
  by (simp_all add: twi_writel_def)

lemma twi_in_simps [simp]:
  "twi_in (twi_writel off v t) = twi_in t" "twi_in (t\<lparr>t_status := x\<rparr>) = twi_in t"
  "twi_in (t\<lparr>t_done := b\<rparr>) = twi_in t" "twi_in (t\<lparr>t_mask := w\<rparr>) = twi_in t"
  by (simp_all add: twi_in_def)

lemma unat_pred: "(a :: 16 word) \<noteq> 0 \<Longrightarrow> unat (a - 1) = unat a - 1"
  by (simp add: unat_minus_one)

lemma acks_pos: "0 < a \<longleftrightarrow> a \<noteq> (0 :: 16 word)"
  by (simp add: word_gt_0)

lemma next_place_in:
  "twi_in t \<Longrightarrow> acks_left t \<noteq> 0 \<Longrightarrow> next_place t = Some (unat (t_len t) - unat (acks_left t)) \<and>
     unat (t_len t) - unat (acks_left t) < unat (t_len t)"
  using unat_gt_0 [of "acks_left t"] by (auto simp: next_place_def twi_in_def)

lemma twi_in_fewer: "twi_in t \<Longrightarrow> acks_left t \<noteq> 0 \<Longrightarrow> twi_in (t\<lparr>acks_left := acks_left t - 1\<rparr>)"
  by (auto simp: twi_in_def unat_pred)

lemma twi_in_finish [simp]: "twi_in (twi_finish st t) = twi_in t"
  by (simp add: twi_finish_def Let_def)

lemma twi_in_last_ack [simp]: "twi_in (last_ack t) = twi_in t"
  by (simp add: last_ack_def)

lemma rx_byte_in: "twi_in t \<Longrightarrow> \<exists>t'. rx_byte st rhr t = Some t' \<and> twi_in t'"
  using next_place_in [of t] by (auto simp: rx_byte_def acks_pos twi_in_def unat_pred)

lemma tx_byte_in: "twi_in t \<Longrightarrow> \<exists>t'. tx_byte t = Some t' \<and> twi_in t'"
  using next_place_in [of t] by (auto simp: tx_byte_def acks_pos twi_in_def unat_pred)

lemma interrupt_in: "twi_in t \<Longrightarrow> \<exists>t'. twi_interrupt sr rhr t = Some t' \<and> twi_in t'"
  using rx_byte_in [of t "sr AND t_mask t" rhr] tx_byte_in [of t] by (auto simp: twi_interrupt_def Let_def)

interpretation twi: invariant twi_begun twi_irq_step twi_in
proof unfold_locales
  fix t assume "twi_begun t"
  then show "twi_in t" by (simp add: twi_begun_def twi_in_def)
next
  fix t t' assume "twi_in t" "twi_irq_step t t'"
  then show "twi_in t'" using interrupt_in unfolding twi_irq_step_def by (metis option.inject)
qed

lemma wait_in: "twi_in t \<Longrightarrow> \<exists>t'. twi_wait irqs t = Some t' \<and> twi_irq_step\<^sup>*\<^sup>* t t'"
proof (induction irqs arbitrary: t)
  case (Cons i irqs)
  obtain t' where t': "twi_interrupt (fst i) (snd i) t = Some t'" "twi_in t'" using interrupt_in Cons.prems by blast
  then have "twi_irq_step t t'" by (auto simp: twi_irq_step_def)
  then show ?case using t' Cons.IH [OF t'(2)] by (cases i) (auto intro: converse_rtranclp_into_rtranclp)
qed simp

lemma hwinit_some: "2 * b \<noteq> 0 \<Longrightarrow> \<exists>r t'. twi_hwinit rate b t = Some (r, t')"
  by (simp add: twi_hwinit_def Let_def split: prod.split)

lemma complete_some:
  assumes "2 * te_baudrate e \<noteq> 0" "twi_in t"
  shows "\<exists>r t'. twi_complete e mk irqs t = Some (r, t')"
proof -
  let ?mk = "mk OR SR_TXCOMP"
  have "twi_in (twi_writel TWI_IER ?mk (t\<lparr>t_mask := ?mk OR SR_NACK OR SR_OVRE, t_done := False\<rparr>))"
    using assms(2) by simp
  then obtain t' where w: "twi_wait irqs (twi_writel TWI_IER ?mk (t\<lparr>t_mask := ?mk OR SR_NACK OR SR_OVRE,
      t_done := False\<rparr>)) = Some t'" using wait_in by blast
  obtain r u where "twi_hwinit (te_rate e) (te_baudrate e) (twi_writel TWI_CR CR_SWRST t') = Some (r, u)"
    using hwinit_some [OF assms(1)] by blast
  then show ?thesis unfolding twi_complete_def Let_def w option.case by simp
qed

lemma start_in: "unat (i_len m) \<le> length (i_buf m) \<Longrightarrow> twi_in (start_message m t)"
  by (simp add: start_message_def twi_in_def)

lemma start_simps [simp]:
  "acks_left (start_message m t) = i_len m" "t_len (start_message m t) = i_len m" "t_buf (start_message m t) = i_buf m"
  "t_status (start_message m t) = t_status t"
  by (simp_all add: start_message_def)

definition good_msg :: "i2c_msg \<Rightarrow> bool" where
  "good_msg m \<longleftrightarrow> 0 < i_len m \<and> unat (i_len m) \<le> length (i_buf m)"

lemma message_some:
  assumes "2 * te_baudrate e \<noteq> 0" "good_msg m"
  shows "\<exists>r t'. twi_message e m irqs t = Some (r, t')"
proof -
  have n: "i_len m \<noteq> 0" and l: "unat (i_len m) \<le> length (i_buf m)" using assms(2) by (simp_all add: good_msg_def acks_pos)
  then have i: "twi_in (start_message m t)" "i_buf m \<noteq> []"
    using unat_gt_0 [of "i_len m"] by (auto intro: start_in)
  have j: "twi_in ((twi_writel TWI_THR v (start_message m t))\<lparr>acks_left := i_len m - 1\<rparr>)" for v
    using twi_in_fewer [of "twi_writel TWI_THR v (start_message m t)"] i n by simp
  have r: "\<exists>r t'. twi_complete e SR_RXRDY irqs (twi_writel TWI_CR v (start_message m t)) = Some (r, t')" for v
    by (rule complete_some [OF assms(1)]) (simp add: i)
  have w: "\<exists>r t'. twi_complete e SR_TXRDY irqs ((twi_writel TWI_THR v (start_message m t))\<lparr>acks_left := i_len m - 1\<rparr>)
      = Some (r, t')" for v
    by (rule complete_some [OF assms(1) j])
  show ?thesis
  proof (cases "i_rd m")
    case True
    obtain r t' where "twi_complete e SR_RXRDY irqs (twi_writel TWI_CR (if i_len m = 1 then CR_START OR CR_STOP
        else CR_START) (start_message m t)) = Some (r, t')" using r by blast
    then show ?thesis using True by (simp add: twi_message_def)
  next
    case False
    obtain r t' where "twi_complete e SR_TXRDY irqs ((twi_writel TWI_THR (ucast (i_buf m ! 0)) (start_message m t))
        \<lparr>acks_left := i_len m - 1\<rparr>) = Some (r, t')" using w by blast
    then show ?thesis using False i(2) by (simp add: twi_message_def)
  qed
qed

text \<open>C20: Whatever the status register shows and however many interrupts come, a transfer of messages
  that each have at least one byte and a buffer of their length never leaves a buffer: it returns.\<close>

theorem twi_xfer_in_bounds:
  assumes "2 * te_baudrate e \<noteq> 0" "\<forall>(m, irqs)\<in>set ms. good_msg m"
  shows "\<exists>r bufs t'. twi_xfer e ms t = Some (r, bufs, t')"
proof -
  have "\<exists>r bufs t'. twi_messages e ms i t = Some (r, bufs, t')" for i t
    using assms(2)
  proof (induction ms arbitrary: i t)
    case (Cons x ms)
    obtain m irqs where x: "x = (m, irqs)" by force
    then obtain r t' where "twi_message e m irqs t = Some (r, t')" using message_some assms(1) Cons.prems by fastforce
    moreover obtain r' bufs u where "twi_messages e ms (i + 1) t' = Some (r', bufs, u)" using Cons by fastforce
    ultimately show ?case using x by (cases "r = 0") auto
  qed simp
  then show ?thesis by (simp add: twi_xfer_def)
qed


definition twi_wit_env :: twi_env where
  "twi_wit_env = \<lparr>te_rate = 20000000, te_baudrate = 100000\<rparr>"

definition twi_wit_write :: i2c_msg where
  "twi_wit_write = \<lparr>i_addr = 0x50, i_rd = False, i_len = 2, i_buf = [7, 9]\<rparr>"

definition twi_wit_read :: i2c_msg where
  "twi_wit_read = \<lparr>i_addr = 0x50, i_rd = True, i_len = 1, i_buf = [0]\<rparr>"

definition twi_wit_start :: twi where
  "twi_wit_start = \<lparr>t_mask = 0, t_buf = [], t_len = 0, acks_left = 0, t_status = 0, t_done = False, t_log = []\<rparr>"

definition twi_wit_ms :: "(i2c_msg \<times> (twi_reg \<times> u8) list) list" where
  "twi_wit_ms = [(twi_wit_write, [(4, 0), (4, 0), (1, 0)]), (twi_wit_read, [(2, 42), (1, 0)])]"

lemma twi_wit_good: "\<forall>(m, irqs)\<in>set twi_wit_ms. good_msg m"
  by (simp add: twi_wit_ms_def good_msg_def twi_wit_write_def twi_wit_read_def)

lemma twi_xfer_in_bounds_witness: "\<exists>r bufs t'. twi_xfer twi_wit_env twi_wit_ms twi_wit_start = Some (r, bufs, t')"
  by (rule twi_xfer_in_bounds [OF _ twi_wit_good]) (simp add: twi_wit_env_def)

section \<open>The bytes\<close>

definition logged :: "nat \<Rightarrow> twi \<Rightarrow> twi_reg list" where
  "logged off t = map snd (filter (\<lambda>e. fst e = off) (t_log t))"

lemma logged_simps [simp]:
  "logged off (twi_writel r v t) = logged off t @ (if r = off then [v] else [])"
  "logged off (t\<lparr>t_status := x\<rparr>) = logged off t" "logged off (t\<lparr>t_done := b\<rparr>) = logged off t"
  "logged off (t\<lparr>t_mask := w\<rparr>) = logged off t" "logged off (t\<lparr>acks_left := a\<rparr>) = logged off t"
  "logged off (t\<lparr>t_buf := l\<rparr>) = logged off t" "logged off (t\<lparr>t_len := a\<rparr>) = logged off t"
  by (simp_all add: logged_def)

lemmas twi_offsets = TWI_CR_def TWI_MMR_def TWI_IADR_def TWI_CWGR_def TWI_IER_def TWI_IDR_def TWI_RHR_def TWI_THR_def

definition moved :: "twi \<Rightarrow> nat" where
  "moved t = unat (t_len t) - unat (acks_left t)"

definition wr_mask :: twi_reg where "wr_mask = (SR_TXRDY OR SR_TXCOMP) OR SR_NACK OR SR_OVRE"
definition rd_mask :: twi_reg where "rd_mask = (SR_RXRDY OR SR_TXCOMP) OR SR_NACK OR SR_OVRE"

lemma masks: "sr_has wr_mask SR_TXRDY" "\<not> sr_has (sr AND wr_mask) SR_RXRDY" "\<not> sr_has (sr AND rd_mask) SR_TXRDY"
  "\<not> sr_has rd_mask SR_TXRDY"
proof -
  have "wr_mask AND SR_RXRDY = 0" "rd_mask AND SR_TXRDY = 0" "wr_mask AND SR_TXRDY \<noteq> 0" by code_simp+
  then show "sr_has wr_mask SR_TXRDY" "\<not> sr_has (sr AND wr_mask) SR_RXRDY" "\<not> sr_has (sr AND rd_mask) SR_TXRDY"
    "\<not> sr_has rd_mask SR_TXRDY"
    by (simp_all add: sr_has_def and.assoc)
qed

text \<open>A message that is being written: so far the first bytes of the buffer went to \<open>THR\<close>.\<close>

definition writing :: "twi_reg list \<Rightarrow> twi_reg list \<Rightarrow> u8 list \<Rightarrow> nat \<Rightarrow> twi \<Rightarrow> bool" where
  "writing sent got buf n t \<longleftrightarrow> twi_in t \<and> t_mask t = wr_mask \<and> t_buf t = buf \<and> unat (t_len t) = n \<and>
     logged TWI_RHR t = got \<and> logged TWI_THR t = sent @ map ucast (take (moved t) buf) \<and> t_status t \<le> 0"

lemma moved_simps [simp]:
  "moved (twi_writel off v t) = moved t" "moved (t\<lparr>t_status := x\<rparr>) = moved t" "moved (t\<lparr>t_done := b\<rparr>) = moved t"
  "moved (t\<lparr>t_mask := w\<rparr>) = moved t" "moved (t\<lparr>t_buf := l\<rparr>) = moved t"
  by (simp_all add: moved_def)

lemma moved_next:
  "twi_in t \<Longrightarrow> acks_left t \<noteq> 0 \<Longrightarrow> moved (t\<lparr>acks_left := acks_left t - 1\<rparr>) = Suc (moved t) \<and>
     next_place t = Some (moved t) \<and> moved t < length (t_buf t)"
  using unat_gt_0 [of "acks_left t"] by (auto simp: moved_def next_place_def twi_in_def unat_pred)

lemma writing_finish:
  "writing sent got buf n t \<Longrightarrow> writing sent got buf n (twi_finish st t)"
  "writing sent got buf n t \<Longrightarrow> t_status (twi_finish st t) = 0 \<Longrightarrow> acks_left (twi_finish st t) = 0"
  using masks by (auto simp: twi_finish_def writing_def Let_def twi_offsets EPIPE_def ENOSR_def split: if_splits)

lemma writel_acks: "(twi_writel off v t)\<lparr>acks_left := a\<rparr> = twi_writel off v (t\<lparr>acks_left := a\<rparr>)"
  by (simp add: twi_writel_def)

lemma writing_last: "writing sent got buf n t \<Longrightarrow> writing sent got buf n (last_ack t)"
  by (auto simp: last_ack_def writing_def twi_offsets)

lemma writing_byte: "writing sent got buf n t \<Longrightarrow> tx_byte t = Some t' \<Longrightarrow> writing sent got buf n t'"
  using moved_next [of t] twi_in_fewer [of t]
  by (auto simp: tx_byte_def writing_def acks_pos take_Suc_conv_app_nth twi_offsets writel_acks split: if_splits)

lemma done_simps [simp]: "t_done (last_ack t) = t_done t" "t_status (last_ack t) = t_status t"
  by (simp_all add: last_ack_def)

lemma tx_byte_done: "tx_byte t = Some t' \<Longrightarrow> t_done t' = t_done t"
  by (auto simp: tx_byte_def split: if_splits option.splits)

lemma writing_interrupt:
  assumes "writing sent got buf n t" "twi_interrupt sr rhr t = Some t'" "\<not> t_done t"
  shows "writing sent got buf n t' \<and> (t_done t' \<longrightarrow> t_status t' = 0 \<longrightarrow> acks_left t' = 0)"
proof -
  have m: "\<not> sr_has (sr AND t_mask t) SR_RXRDY" using assms(1) masks by (simp add: writing_def)
  consider "t' = t" | "t' = twi_finish (sr AND t_mask t) t" | u where "tx_byte t = Some u" "t' = last_ack u"
    | "t' = last_ack t"
    using assms(2) m by (auto simp: twi_interrupt_def Let_def split: if_splits)
  then show ?thesis using assms(1,3) writing_finish writing_last writing_byte tx_byte_done by cases auto
qed

lemma writing_wait:
  "writing sent got buf n t \<Longrightarrow> \<not> t_done t \<Longrightarrow> twi_wait irqs t = Some t' \<Longrightarrow>
     writing sent got buf n t' \<and> (t_done t' \<longrightarrow> t_status t' = 0 \<longrightarrow> acks_left t' = 0)"
proof (induction irqs arbitrary: t)
  case (Cons i irqs)
  obtain sr rhr where i: "i = (sr, rhr)" by force
  from Cons.prems(3) obtain u where u: "twi_interrupt sr rhr t = Some u" by (auto simp: i split: option.splits)
  note w = writing_interrupt [OF Cons.prems(1) u Cons.prems(2)]
  then show ?case using Cons.IH [of u] Cons.prems(3) u i by (cases "t_done u") auto
qed simp

text \<open>A message that is being read: as long as nothing went wrong, the bytes taken from \<open>RHR\<close> are the
  first of the buffer, and the rest of it is as it was.\<close>

definition reading :: "twi_reg list \<Rightarrow> twi_reg list \<Rightarrow> u8 list \<Rightarrow> nat \<Rightarrow> twi \<Rightarrow> bool" where
  "reading sent got buf n t \<longleftrightarrow> twi_in t \<and> t_mask t = rd_mask \<and> unat (t_len t) = n \<and> n \<le> length buf \<and>
     logged TWI_THR t = sent \<and> t_status t \<le> 0 \<and>
     (t_status t = 0 \<longrightarrow> (\<exists>rs. length rs = moved t \<and> logged TWI_RHR t = got @ map ucast rs \<and>
        t_buf t = rs @ drop (moved t) buf))"

lemma reading_finish: "reading sent got buf n t \<Longrightarrow> reading sent got buf n (twi_finish st t)"
  by (auto simp: twi_finish_def reading_def Let_def twi_offsets EPIPE_def ENOSR_def)

lemma reading_last: "reading sent got buf n t \<Longrightarrow> reading sent got buf n (last_ack t)"
  by (auto simp: last_ack_def reading_def twi_offsets)

lemma reading_stop: "reading sent got buf n t \<Longrightarrow> reading sent got buf n (twi_writel TWI_CR v t)"
  by (auto simp: reading_def twi_offsets)

lemma upd_next: "k < length buf \<Longrightarrow> length rs = k \<Longrightarrow> (rs @ drop k buf)[k := b] = rs @ b # drop (Suc k) buf"
  by (simp add: list_update_append Cons_nth_drop_Suc [symmetric])

lemma reading_byte:
  assumes "reading sent got buf n t" "rx_byte st rhr t = Some t'"
  shows "reading sent got buf n t'"
proof (cases "acks_left t = 0 \<or> sr_has st SR_OVRE")
  case True
  then show ?thesis using assms
    by (auto simp: rx_byte_def reading_def twi_in_def twi_offsets EOVERFLOW_def acks_pos split: if_splits)
next
  case False
  let ?b = "(t_buf t)[moved t := rhr]"
  have i: "twi_in t" using assms(1) by (simp add: reading_def)
  note m = moved_next [OF i]
  have t': "t' = (twi_writel TWI_RHR (ucast rhr) t)\<lparr>t_buf := ?b, acks_left := acks_left t - 1\<rparr>"
    using assms(2) False m by (simp add: rx_byte_def acks_pos)
  have k: "moved t' = Suc (moved t)" using m False unfolding t' by (simp add: moved_def)
  have l: "moved t < length buf"
    using assms(1) i False unat_gt_0 [of "acks_left t"] by (auto simp: reading_def twi_in_def moved_def)
  have in': "twi_in t'" using i False unfolding t' by (auto simp: twi_in_def unat_pred)
  have "\<exists>rs. length rs = moved t' \<and> logged TWI_RHR t' = got @ map ucast rs \<and> t_buf t' = rs @ drop (moved t') buf"
    if st: "t_status t = 0"
  proof -
    obtain rs where rs: "length rs = moved t" "logged TWI_RHR t = got @ map ucast rs" "t_buf t = rs @ drop (moved t) buf"
      using assms(1) st by (auto simp: reading_def)
    have "t_buf t' = (rs @ [rhr]) @ drop (moved t') buf"
      unfolding k using upd_next [OF l rs(1)] rs(3) by (simp add: t')
    moreover have "logged TWI_RHR t' = got @ map ucast (rs @ [rhr])" using rs(2) by (simp add: t')
    moreover have "length (rs @ [rhr]) = moved t'" using rs(1) k by simp
    ultimately show ?thesis by blast
  qed
  then show ?thesis using assms(1) in' by (auto simp: reading_def t' twi_offsets)
qed

lemma reading_interrupt:
  assumes "reading sent got buf n t" "twi_interrupt sr rhr t = Some t'"
  shows "reading sent got buf n t'"
proof -
  have m: "\<not> sr_has (sr AND t_mask t) SR_TXRDY" using assms(1) masks by (simp add: reading_def)
  show ?thesis
  proof (cases "t_mask t AND sr \<noteq> 0 \<and> sr_has (sr AND t_mask t) SR_RXRDY")
    case True
    then obtain u where u: "rx_byte (sr AND t_mask t) rhr t = Some u"
      using assms(2) by (auto simp: twi_interrupt_def Let_def split: option.splits)
    have "reading sent got buf n u" using assms(1) u by (rule reading_byte)
    then show ?thesis
      using assms(2) True u by (auto simp: twi_interrupt_def Let_def intro: reading_finish reading_last reading_stop split: if_splits)
  next
    case False
    then show ?thesis
      using assms m by (auto simp: twi_interrupt_def Let_def intro: reading_finish reading_last split: if_splits)
  qed
qed

lemma reading_wait: "reading sent got buf n t \<Longrightarrow> twi_wait irqs t = Some t' \<Longrightarrow> reading sent got buf n t'"
proof (induction irqs arbitrary: t)
  case (Cons i irqs)
  obtain sr rhr where i: "i = (sr, rhr)" by force
  from Cons.prems(2) obtain u where u: "twi_interrupt sr rhr t = Some u" by (auto simp: i split: option.splits)
  note r = reading_interrupt [OF Cons.prems(1) u]
  then show ?case using Cons.IH [OF r] Cons.prems(2) u i by (cases "t_done u") auto
qed simp

text \<open>A message that completes without an error.\<close>

lemma complete_ok:
  assumes "twi_complete e mk irqs t = Some (r, t')" "r \<noteq> - ETIMEDOUT"
  shows "twi_wait irqs (twi_writel TWI_IER (mk OR SR_TXCOMP)
      (t\<lparr>t_mask := (mk OR SR_TXCOMP) OR SR_NACK OR SR_OVRE, t_done := False\<rparr>)) = Some t' \<and> t_done t'"
  using assms by (auto simp: twi_complete_def Let_def ETIMEDOUT_def split: option.splits if_splits)

lemma msg_length: "good_msg m \<Longrightarrow> 0 < unat (i_len m) \<and> unat (i_len m) \<le> length (i_buf m)"
  using unat_gt_0 [of "i_len m"] by (auto simp: good_msg_def acks_pos)

lemma start_log [simp]: "logged TWI_THR (start_message m t) = logged TWI_THR t" "logged TWI_RHR (start_message m t) = logged TWI_RHR t"
  by (auto simp: start_message_def logged_def twi_writel_def twi_offsets)

lemma message_write:
  assumes "good_msg m" "\<not> i_rd m" "t_status t \<le> 0" "twi_message e m irqs t = Some (r, t')" "r \<noteq> - ETIMEDOUT"
  shows "r \<le> 0 \<and> t_status t' = r \<and> (r = 0 \<longrightarrow> t_buf t' = i_buf m \<and> logged TWI_RHR t' = logged TWI_RHR t \<and>
    logged TWI_THR t' = logged TWI_THR t @ map ucast (take (unat (i_len m)) (i_buf m)))"
proof -
  let ?t = "(twi_writel TWI_THR (ucast (i_buf m ! 0)) (start_message m t))\<lparr>acks_left := i_len m - 1\<rparr>"
  let ?w = "twi_writel TWI_IER (SR_TXRDY OR SR_TXCOMP) (?t\<lparr>t_mask := (SR_TXRDY OR SR_TXCOMP) OR SR_NACK OR SR_OVRE, t_done := False\<rparr>)"
  note l = msg_length [OF assms(1)]
  have b: "i_buf m \<noteq> []" and n: "i_len m \<noteq> 0" using l by auto
  obtain r0 u where u: "twi_complete e SR_TXRDY irqs ?t = Some (r0, u)" "r0 \<noteq> - ETIMEDOUT" "t' = twi_writel TWI_CR CR_MSDIS u"
    "r = t_status u"
    using assms(2,4,5) b by (auto simp: twi_message_def split: option.splits if_splits)
  have w: "twi_wait irqs ?w = Some u" "t_done u" using complete_ok [OF u(1,2)] by auto
  have "writing (logged TWI_THR t) (logged TWI_RHR t) (i_buf m) (unat (i_len m)) ?w"
    using twi_in_fewer [OF start_in, of m t] l b n assms(3) unat_pred [OF n]
    by (auto simp: writing_def moved_def writel_acks wr_mask_def twi_offsets take_Suc_conv_app_nth
        start_log [unfolded twi_offsets])
  then have "writing (logged TWI_THR t) (logged TWI_RHR t) (i_buf m) (unat (i_len m)) u \<and> (t_status u = 0 \<longrightarrow> acks_left u = 0)"
    using writing_wait w by fastforce
  then show ?thesis using u by (auto simp: writing_def moved_def twi_offsets)
qed

lemma message_read:
  assumes "good_msg m" "i_rd m" "t_status t \<le> 0" "twi_message e m irqs t = Some (r, t')" "r \<noteq> - ETIMEDOUT"
  shows "r \<le> 0 \<and> t_status t' = r \<and> (r = 0 \<longrightarrow> logged TWI_THR t' = logged TWI_THR t \<and>
    (\<exists>rs. length rs \<le> unat (i_len m) \<and> logged TWI_RHR t' = logged TWI_RHR t @ map ucast rs \<and>
      t_buf t' = rs @ drop (length rs) (i_buf m)))"
proof -
  let ?t = "twi_writel TWI_CR (if i_len m = 1 then CR_START OR CR_STOP else CR_START) (start_message m t)"
  let ?w = "twi_writel TWI_IER (SR_RXRDY OR SR_TXCOMP) (?t\<lparr>t_mask := (SR_RXRDY OR SR_TXCOMP) OR SR_NACK OR SR_OVRE, t_done := False\<rparr>)"
  note l = msg_length [OF assms(1)]
  obtain r0 u where u: "twi_complete e SR_RXRDY irqs ?t = Some (r0, u)" "r0 \<noteq> - ETIMEDOUT" "t' = twi_writel TWI_CR CR_MSDIS u"
    "r = t_status u"
    using assms(2,4,5) by (auto simp: twi_message_def Let_def split: option.splits if_splits)
  have w: "twi_wait irqs ?w = Some u" using complete_ok [OF u(1,2)] by auto
  have "reading (logged TWI_THR t) (logged TWI_RHR t) (i_buf m) (unat (i_len m)) ?w"
    using start_in [of m t] l assms(3)
    by (auto simp: reading_def moved_def rd_mask_def twi_offsets start_log [unfolded twi_offsets])
  then have "reading (logged TWI_THR t) (logged TWI_RHR t) (i_buf m) (unat (i_len m)) u"
    using reading_wait w by blast
  then have r: "t_status u \<le> 0" "logged TWI_THR u = logged TWI_THR t" "moved u \<le> unat (i_len m)"
    "t_status u = 0 \<longrightarrow> (\<exists>rs. length rs = moved u \<and> logged TWI_RHR u = logged TWI_RHR t @ map ucast rs \<and>
       t_buf u = rs @ drop (moved u) (i_buf m))"
    by (auto simp: reading_def moved_def)
  have eq: "t_status t' = t_status u" "t_buf t' = t_buf u" "logged TWI_THR t' = logged TWI_THR u"
    "logged TWI_RHR t' = logged TWI_RHR u" by (simp_all add: u(3) twi_offsets)
  show ?thesis unfolding eq u(4) using r by metis
qed

text \<open>The bytes a list of messages sends.\<close>

definition to_send :: "(i2c_msg \<times> (twi_reg \<times> u8) list) list \<Rightarrow> u8 list" where
  "to_send ms = concat (map (\<lambda>(m, _). if i_rd m then [] else take (unat (i_len m)) (i_buf m)) ms)"

text \<open>What was read belongs to the messages in turn, and is at the front of their buffers.\<close>

inductive received :: "(i2c_msg \<times> (twi_reg \<times> u8) list) list \<Rightarrow> u8 list \<Rightarrow> u8 list list \<Rightarrow> bool" where
  received_nil: "received [] [] []"
| received_write: "\<not> i_rd m \<Longrightarrow> received ms bytes bufs \<Longrightarrow> received ((m, irqs) # ms) bytes (i_buf m # bufs)"
| received_read: "i_rd m \<Longrightarrow> length rs \<le> unat (i_len m) \<Longrightarrow> received ms bytes bufs \<Longrightarrow>
    received ((m, irqs) # ms) (rs @ bytes) ((rs @ drop (length rs) (i_buf m)) # bufs)"

inductive_simps received_simps: "received [] bytes bufs" "received ((m, irqs) # ms) bytes bufs"

lemma messages_bytes:
  assumes "\<forall>(m, irqs)\<in>set ms. good_msg m" "t_status t \<le> 0" "twi_messages e ms i t = Some (r, bufs, t')" "0 \<le> i" "0 \<le> r"
  shows "r = i + int (length ms) \<and> logged TWI_THR t' = logged TWI_THR t @ map ucast (to_send ms) \<and>
    (\<exists>bytes. logged TWI_RHR t' = logged TWI_RHR t @ map ucast bytes \<and> received ms bytes bufs)"
  using assms
proof (induction ms arbitrary: i t bufs)
  case Nil
  then show ?case by (auto simp: to_send_def intro: received_nil)
next
  case (Cons x ms)
  obtain m irqs where x: "x = (m, irqs)" by force
  have g: "good_msg m" using Cons.prems(1) x by simp
  obtain r1 u where u: "twi_message e m irqs t = Some (r1, u)"
    using Cons.prems(3) x by (auto split: option.splits)
  have nt: "r1 \<noteq> - ETIMEDOUT" using Cons.prems(3,5) x u by (auto simp: ETIMEDOUT_def split: if_splits)
  have le: "r1 \<le> 0" "t_status u = r1"
    using message_write [OF g _ Cons.prems(2) u nt] message_read [OF g _ Cons.prems(2) u nt] by blast+
  have r1: "r1 = 0" using le Cons.prems(3,5) x u by (auto split: if_splits)
  obtain bufs' where rest: "twi_messages e ms (i + 1) u = Some (r, bufs', t')" "bufs = t_buf u # bufs'"
    using Cons.prems(3) x u r1 by auto
  have ih: "r = i + 1 + int (length ms) \<and> logged TWI_THR t' = logged TWI_THR u @ map ucast (to_send ms) \<and>
      (\<exists>bytes. logged TWI_RHR t' = logged TWI_RHR u @ map ucast bytes \<and> received ms bytes bufs')"
    using Cons.prems le r1 rest by (intro Cons.IH) auto
  then obtain bytes where bytes: "logged TWI_RHR t' = logged TWI_RHR u @ map ucast bytes" "received ms bytes bufs'" by blast
  show ?case
  proof (cases "i_rd m")
    case True
    then obtain rs where rs: "logged TWI_THR u = logged TWI_THR t" "length rs \<le> unat (i_len m)"
      "logged TWI_RHR u = logged TWI_RHR t @ map ucast rs" "t_buf u = rs @ drop (length rs) (i_buf m)"
      using message_read [OF g True Cons.prems(2) u nt] r1 by blast
    have "received (x # ms) (rs @ bytes) bufs" using received_read True rs bytes rest x by simp
    moreover have "logged TWI_RHR t' = logged TWI_RHR t @ map ucast (rs @ bytes)" using bytes rs by simp
    moreover have "to_send (x # ms) = to_send ms" using True x by (simp add: to_send_def)
    ultimately show ?thesis using conjunct1 [OF ih] conjunct1 [OF conjunct2 [OF ih]] rs(1) by fastforce
  next
    case False
    note w = message_write [OF g False Cons.prems(2) u nt]
    have "received (x # ms) bytes bufs" using received_write [OF False bytes(2)] w rest(2) r1 x by simp
    moreover have "to_send (x # ms) = take (unat (i_len m)) (i_buf m) @ to_send ms" using False x by (simp add: to_send_def)
    ultimately show ?thesis using conjunct1 [OF ih] conjunct1 [OF conjunct2 [OF ih]] w r1 bytes(1) by fastforce
  qed
qed

text \<open>C19: When a transfer reports that its messages were done, it reports their number, \<open>THR\<close> was
  written with exactly the bytes of the messages to be written, in order, whatever the interrupts were,
  and what was read from \<open>RHR\<close> is, message by message and in order, at the front of the buffers of the
  messages to be read.\<close>

theorem twi_xfer_bytes:
  assumes "\<forall>(m, irqs)\<in>set ms. good_msg m" "twi_xfer e ms t = Some (r, bufs, t')" "0 \<le> r"
  shows "r = int (length ms) \<and> logged TWI_THR t' = logged TWI_THR t @ map ucast (to_send ms) \<and>
    (\<exists>bytes. logged TWI_RHR t' = logged TWI_RHR t @ map ucast bytes \<and> received ms bytes bufs)"
  using messages_bytes [OF assms(1), of "t\<lparr>t_status := 0\<rparr>" e 0 r bufs t'] assms(2,3) by (simp add: twi_xfer_def)

lemma twi_wit_run:
  "map_option (\<lambda>(r, bufs, _). (r, bufs)) (twi_xfer twi_wit_env twi_wit_ms twi_wit_start) = Some (2, [[7, 9], [42]])"
  by code_simp

lemma twi_xfer_bytes_witness:
  "\<exists>t'. twi_xfer twi_wit_env twi_wit_ms twi_wit_start = Some (2, [[7, 9], [42]], t') \<and>
        logged TWI_THR t' = [7, 9] \<and> logged TWI_RHR t' = [42]"
proof -
  obtain t' where t': "twi_xfer twi_wit_env twi_wit_ms twi_wit_start = Some (2, [[7, 9], [42]], t')"
    using twi_wit_run by auto
  have s: "to_send twi_wit_ms = [7, 9]"
    by (simp add: to_send_def twi_wit_ms_def twi_wit_write_def twi_wit_read_def)
  have e: "logged TWI_THR twi_wit_start = []" "logged TWI_RHR twi_wit_start = []"
    by (simp_all add: logged_def twi_wit_start_def)
  have r: "bytes = [42]" if rc: "received twi_wit_ms bytes [[7, 9], [42]]" for bytes
  proof -
    obtain rs where rs: "length rs \<le> 1" "bytes = rs" "[42] = rs @ drop (length rs) [0 :: u8]"
      using rc by (auto simp: twi_wit_ms_def twi_wit_write_def twi_wit_read_def received_simps)
    then show ?thesis by (cases rs) auto
  qed
  obtain bytes where "logged TWI_THR t' = map ucast (to_send twi_wit_ms)" "logged TWI_RHR t' = map ucast bytes"
    "received twi_wit_ms bytes [[7, 9], [42]]"
    using twi_xfer_bytes [OF twi_wit_good t'] unfolding e by auto
  then show ?thesis using t' r unfolding s by fastforce
qed

text \<open>A read whose transmission completes before a byte has come is reported as done.\<close>

lemma twi_short_read:
  assumes "good_msg m" "i_rd m" "t_status t = 0"
  shows "\<exists>t'. twi_message e m [(SR_TXCOMP, b)] t = Some (0, t') \<and> t_buf t' = i_buf m"
proof -
  have "SR_TXCOMP AND SR_RXRDY = 0" "SR_TXCOMP AND (SR_NACK OR SR_TXCOMP) \<noteq> 0" "SR_TXCOMP AND SR_NACK = 0"
    "rd_mask AND SR_TXCOMP = SR_TXCOMP" "SR_TXCOMP AND rd_mask = SR_TXCOMP" "SR_TXCOMP \<noteq> 0" "rd_mask AND SR_TXRDY = 0" by code_simp+
  then show ?thesis using assms
    by (auto simp: twi_message_def twi_complete_def twi_interrupt_def twi_finish_def sr_has_def Let_def ETIMEDOUT_def
        rd_mask_def)
qed

section \<open>Resources\<close>

text \<open>A probe that fails leaves nothing behind; one that succeeds holds everything, until the device goes.\<close>

abbreviation nothing_held :: twi_held where
  "nothing_held \<equiv> \<lparr>r_clk = False, r_mem = False, r_map = False, r_irq = False, r_data = False\<rparr>"

lemma twi_probe_resources:
  assumes "twi_probe pf e nothing_held = Some (rc, h)"
  shows "if rc = 0 \<and> tp_clk pf \<noteq> Some 0 then h = \<lparr>r_clk = True, r_mem = True, r_map = True, r_irq = True, r_data = True\<rparr>
         else h = nothing_held"
  using assms
  by (auto simp: twi_probe_def err_alloc_twi_def err_ioremap_def err_irq_def err_hw_init_def err_register_def
      Let_def split: if_splits option.splits)

lemma twi_probe_remove:
  "twi_probe pf e nothing_held = Some (0, h) \<Longrightarrow> snd (snd (twi_remove res t h)) = nothing_held"
  using twi_probe_resources [of pf e 0 h] by (auto simp: twi_remove_def split: if_splits)

end
