(* ===== verification/Ltv350qv.thy ===== *)
theory Ltv350qv
  imports Bytes
begin

text \<open>
  \<open>drivers/video/backlight/ltv350qv.c\<close>: the power control of the LCD panel of the board.

  The state is the power the driver believes in and a log of what was done: the messages on the serial
  bus, as the bytes of their two transfers, and the pauses. Whether a message gets through is decided by
  a parameter that sees the log. The numbers of the blanking states come from a header that is not part
  of the repository and are a parameter.
\<close>

record fb_blank =
  blank_unblank :: int
  blank_normal :: int
  blank_powerdown :: int

datatype ltv_event = Spi "u8 list" "u8 list" | Sleep nat

record ltv =
  l_power :: int
  l_log :: "ltv_event list"

definition LTV_OPC_INDEX :: u8 where "LTV_OPC_INDEX = 0x74"
definition LTV_OPC_DATA :: u8 where "LTV_OPC_DATA = 0x76"

definition LTV_IFCTL :: u8 where "LTV_IFCTL = 0x01"
definition LTV_DATACTL :: u8 where "LTV_DATACTL = 0x02"
definition LTV_ENTRY_MODE :: u8 where "LTV_ENTRY_MODE = 0x03"
definition LTV_GATECTL1 :: u8 where "LTV_GATECTL1 = 0x04"
definition LTV_GATECTL2 :: u8 where "LTV_GATECTL2 = 0x05"
definition LTV_VBP :: u8 where "LTV_VBP = 0x06"
definition LTV_HBP :: u8 where "LTV_HBP = 0x07"
definition LTV_SOTCTL :: u8 where "LTV_SOTCTL = 0x08"
definition LTV_PWRCTL1 :: u8 where "LTV_PWRCTL1 = 0x09"
definition LTV_PWRCTL2 :: u8 where "LTV_PWRCTL2 = 0x0a"
definition LTV_GAMMA :: "u8 \<Rightarrow> u8" where "LTV_GAMMA x = 0x10 + x"

definition LTV_NMD :: u16 where "LTV_NMD = 0x4000"
definition LTV_REV :: u16 where "LTV_REV = 0x80"
definition LTV_NL :: "u16 \<Rightarrow> u16" where "LTV_NL x = push_bit 0 (x AND 0x001f)"
definition LTV_DS_SAME :: u16 where "LTV_DS_SAME = push_bit 12 0"
definition LTV_CHS_480 :: u16 where "LTV_CHS_480 = push_bit 9 1"
definition LTV_DF_RGB :: u16 where "LTV_DF_RGB = push_bit 6 0"
definition LTV_RGB_BGR :: u16 where "LTV_RGB_BGR = push_bit 2 1"
definition LTV_VSPL_ACTIVE_LOW :: u16 where "LTV_VSPL_ACTIVE_LOW = push_bit 15 0"
definition LTV_HSPL_ACTIVE_LOW :: u16 where "LTV_HSPL_ACTIVE_LOW = push_bit 14 0"
definition LTV_DPL_SAMPLE_RISING :: u16 where "LTV_DPL_SAMPLE_RISING = push_bit 13 0"
definition LTV_EPL_ACTIVE_LOW :: u16 where "LTV_EPL_ACTIVE_LOW = push_bit 12 0"
definition LTV_SS_RIGHT_TO_LEFT :: u16 where "LTV_SS_RIGHT_TO_LEFT = push_bit 8 1"
definition LTV_CLW :: "u16 \<Rightarrow> u16" where "LTV_CLW x = push_bit 12 (x AND 0x0007)"
definition LTV_NW_INV_1LINE :: u16 where "LTV_NW_INV_1LINE = push_bit 14 1"
definition LTV_DSC :: u16 where "LTV_DSC = push_bit 12 1"
definition LTV_FWI :: "u16 \<Rightarrow> u16" where "LTV_FWI x = push_bit 0 (x AND 0x0003)"
definition LTV_SDT :: "u16 \<Rightarrow> u16" where "LTV_SDT x = push_bit 10 (x AND 0x0007)"
definition LTV_EQ :: "u16 \<Rightarrow> u16" where "LTV_EQ x = push_bit 2 (x AND 0x0007)"
definition LTV_VCOM_DISABLE :: u16 where "LTV_VCOM_DISABLE = push_bit 14 1"
definition LTV_VCOMOUT_ENABLE :: u16 where "LTV_VCOMOUT_ENABLE = push_bit 11 1"
definition LTV_POWER_ON :: u16 where "LTV_POWER_ON = push_bit 9 1"
definition LTV_DRIVE_CURRENT :: "u16 \<Rightarrow> u16" where "LTV_DRIVE_CURRENT x = push_bit 4 (x AND 0x0007)"
definition LTV_SUPPLY_CURRENT :: "u16 \<Rightarrow> u16" where "LTV_SUPPLY_CURRENT x = push_bit 0 (x AND 0x0007)"
definition LTV_VCOML_ENABLE :: u16 where "LTV_VCOML_ENABLE = push_bit 13 1"

type_synonym spi_sync = "ltv_event list \<Rightarrow> int"

definition ltv_event :: "ltv_event \<Rightarrow> ltv \<Rightarrow> ltv" where
  "ltv_event e l = l\<lparr>l_log := l_log l @ [e]\<rparr>"

definition ltv350qv_write_reg :: "spi_sync \<Rightarrow> u8 \<Rightarrow> u16 \<Rightarrow> ltv \<Rightarrow> int \<times> ltv" where
  "ltv350qv_write_reg spi reg val l =
     (let l = ltv_event (Spi [LTV_OPC_INDEX, 0x00, reg AND 0x7f] [LTV_OPC_DATA, ucast (drop_bit 8 val), ucast val]) l
      in (spi (l_log l), l))"

definition msleep :: "nat \<Rightarrow> ltv \<Rightarrow> ltv" where
  "msleep n l = ltv_event (Sleep n) l"

text \<open>A run of writes whose results are collected with \<open>|=\<close>.\<close>

fun write_all :: "spi_sync \<Rightarrow> (u8 \<times> u16) list \<Rightarrow> ltv \<Rightarrow> int \<times> ltv" where
  "write_all spi [] l = (0, l)"
| "write_all spi ((reg, val) # rs) l =
     (let (a, l) = ltv350qv_write_reg spi reg val l; (b, l) = write_all spi rs l in (a OR b, l))"

definition standby :: u16 where
  "standby = LTV_VCOM_DISABLE OR LTV_DRIVE_CURRENT 5 OR LTV_SUPPLY_CURRENT 5"

definition instruction_setting :: "(u8 \<times> u16) list" where
  "instruction_setting =
    [(LTV_IFCTL, LTV_NMD OR LTV_REV OR LTV_NL 0x1d),
     (LTV_DATACTL, LTV_DS_SAME OR LTV_CHS_480 OR LTV_DF_RGB OR LTV_RGB_BGR),
     (LTV_ENTRY_MODE, LTV_VSPL_ACTIVE_LOW OR LTV_HSPL_ACTIVE_LOW OR LTV_DPL_SAMPLE_RISING
        OR LTV_EPL_ACTIVE_LOW OR LTV_SS_RIGHT_TO_LEFT),
     (LTV_GATECTL1, LTV_CLW 3),
     (LTV_GATECTL2, LTV_NW_INV_1LINE OR LTV_FWI 3),
     (LTV_VBP, 0x000a),
     (LTV_HBP, 0x0021),
     (LTV_SOTCTL, LTV_SDT 3 OR LTV_EQ 0),
     (LTV_GAMMA 0, 0x0103),
     (LTV_GAMMA 1, 0x0301),
     (LTV_GAMMA 2, 0x1f0f),
     (LTV_GAMMA 3, 0x1f0f),
     (LTV_GAMMA 4, 0x0707),
     (LTV_GAMMA 5, 0x0307),
     (LTV_GAMMA 6, 0x0707),
     (LTV_GAMMA 7, 0x0000),
     (LTV_GAMMA 8, 0x0004),
     (LTV_GAMMA 9, 0x0000)]"

definition display_on :: "(u8 \<times> u16) list" where
  "display_on =
    [(LTV_PWRCTL1, LTV_VCOM_DISABLE OR LTV_VCOMOUT_ENABLE OR LTV_POWER_ON OR LTV_DRIVE_CURRENT 5
        OR LTV_SUPPLY_CURRENT 5),
     (LTV_GATECTL2, LTV_NW_INV_1LINE OR LTV_DSC OR LTV_FWI 3)]"

definition display_off :: "(u8 \<times> u16) list" where
  "display_off = [(LTV_PWRCTL1, standby), (LTV_GATECTL2, LTV_NW_INV_1LINE OR LTV_FWI 3)]"

text \<open>The labels of the error path; results are not looked at there.\<close>

definition ltv_err :: "spi_sync \<Rightarrow> ltv \<Rightarrow> int \<times> ltv" where
  "ltv_err spi l = (- 5, snd (ltv350qv_write_reg spi LTV_PWRCTL1 LTV_VCOM_DISABLE l))"

definition err_power1 :: "spi_sync \<Rightarrow> ltv \<Rightarrow> int \<times> ltv" where
  "err_power1 spi l = ltv_err spi (msleep 1 (snd (ltv350qv_write_reg spi LTV_PWRCTL2 0x0000 l)))"

definition err_disp_on :: "spi_sync \<Rightarrow> ltv \<Rightarrow> int \<times> ltv" where
  "err_disp_on spi l = err_power1 spi (snd (write_all spi display_off l))"

definition ltv350qv_power_on :: "spi_sync \<Rightarrow> ltv \<Rightarrow> int \<times> ltv" where
  "ltv350qv_power_on spi l =
     (let (r, l) = ltv350qv_write_reg spi LTV_PWRCTL1 0x0000 l in
      if r \<noteq> 0 then ltv_err spi l
      else let l = msleep 15 l; (r, l) = ltv350qv_write_reg spi LTV_PWRCTL1 LTV_VCOM_DISABLE l in
      if r \<noteq> 0 then ltv_err spi l
      else let (r, l) = ltv350qv_write_reg spi LTV_PWRCTL2 LTV_VCOML_ENABLE l in
      if r \<noteq> 0 then err_power1 spi l
      else let (r, l) = ltv350qv_write_reg spi LTV_PWRCTL1 standby l in
      if r \<noteq> 0 then err_power1 spi l
      else let l = msleep 55 l; (r, l) = write_all spi instruction_setting l in
      if r \<noteq> 0 then err_power1 spi l
      else let l = msleep 20 l; (r, l) = write_all spi display_on l in
      if r \<noteq> 0 then err_disp_on spi l
      else (0, l))"

definition ltv350qv_power_off :: "spi_sync \<Rightarrow> ltv \<Rightarrow> int \<times> ltv" where
  "ltv350qv_power_off spi l =
     (let (a, l) = write_all spi (display_off @ [(LTV_PWRCTL2, 0x0000)]) l;
          l = msleep 1 l;
          (b, l) = ltv350qv_write_reg spi LTV_PWRCTL1 LTV_VCOM_DISABLE l
      in if a OR b \<noteq> 0 then (- 5, l) else (0, l))"

definition POWER_IS_ON :: "fb_blank \<Rightarrow> int \<Rightarrow> bool" where
  "POWER_IS_ON fb pwr \<longleftrightarrow> pwr \<le> blank_normal fb"

definition ltv350qv_power :: "fb_blank \<Rightarrow> spi_sync \<Rightarrow> int \<Rightarrow> ltv \<Rightarrow> int \<times> ltv" where
  "ltv350qv_power fb spi pwr l =
     (let (ret, l) =
        (if POWER_IS_ON fb pwr \<and> \<not> POWER_IS_ON fb (l_power l) then ltv350qv_power_on spi l
         else if \<not> POWER_IS_ON fb pwr \<and> POWER_IS_ON fb (l_power l) then ltv350qv_power_off spi l
         else (0, l))
      in (ret, if ret = 0 then l\<lparr>l_power := pwr\<rparr> else l))"

definition ltv350qv_set_power :: "fb_blank \<Rightarrow> spi_sync \<Rightarrow> ltv \<Rightarrow> int \<Rightarrow> int \<times> ltv" where
  "ltv350qv_set_power fb spi l pwr = ltv350qv_power fb spi pwr l"

definition ltv350qv_get_power :: "ltv \<Rightarrow> int" where
  "ltv350qv_get_power l = l_power l"

text \<open>The results of the allocations and of registering the device; the state that is left on success.\<close>

definition ltv350qv_probe :: "fb_blank \<Rightarrow> spi_sync \<Rightarrow> bool \<Rightarrow> int \<Rightarrow> ltv_event list \<Rightarrow> int \<times> ltv option" where
  "ltv350qv_probe fb spi alloc register lg =
     (if \<not> alloc then (- 12, None)
      else if register \<noteq> 0 then (register, None)
      else
        (let (ret, l) = ltv350qv_power fb spi (blank_unblank fb) \<lparr>l_power = blank_powerdown fb, l_log = lg\<rparr>
         in if ret \<noteq> 0 then (ret, None) else (0, Some l)))"

text \<open>What is left of a device that is removed is the log.\<close>

definition ltv350qv_remove :: "fb_blank \<Rightarrow> spi_sync \<Rightarrow> ltv \<Rightarrow> int \<times> ltv_event list" where
  "ltv350qv_remove fb spi l = (0, l_log (snd (ltv350qv_power fb spi (blank_powerdown fb) l)))"

definition ltv350qv_suspend :: "fb_blank \<Rightarrow> spi_sync \<Rightarrow> ltv \<Rightarrow> int \<times> ltv" where
  "ltv350qv_suspend fb spi l = ltv350qv_power fb spi (blank_powerdown fb) l"

definition ltv350qv_resume :: "fb_blank \<Rightarrow> spi_sync \<Rightarrow> ltv \<Rightarrow> int \<times> ltv" where
  "ltv350qv_resume fb spi l = ltv350qv_power fb spi (blank_unblank fb) l"

definition ltv350qv_shutdown :: "fb_blank \<Rightarrow> spi_sync \<Rightarrow> ltv \<Rightarrow> ltv" where
  "ltv350qv_shutdown fb spi l = snd (ltv350qv_power fb spi (blank_powerdown fb) l)"

end
