(* ===== verification/Ltv350qv_Props.thy ===== *)
theory Ltv350qv_Props
  imports Transition Ltv350qv
begin

text \<open>
  The LCD panel: what each change of power sends, what is left after a failure, and that the panel, as it
  decodes the bytes on its bus, is on exactly when the driver says so.
\<close>

section \<open>What is sent\<close>

definition reg_event :: "u8 \<times> u16 \<Rightarrow> ltv_event" where
  "reg_event rv = Spi [LTV_OPC_INDEX, 0x00, fst rv AND 0x7f] [LTV_OPC_DATA, ucast (drop_bit 8 (snd rv)), ucast (snd rv)]"

definition on_events :: "ltv_event list" where
  "on_events = map reg_event [(LTV_PWRCTL1, 0)] @ [Sleep 15] @
     map reg_event [(LTV_PWRCTL1, LTV_VCOM_DISABLE), (LTV_PWRCTL2, LTV_VCOML_ENABLE), (LTV_PWRCTL1, standby)] @ [Sleep 55] @
     map reg_event instruction_setting @ [Sleep 20] @ map reg_event display_on"

definition off_events :: "ltv_event list" where
  "off_events = map reg_event (display_off @ [(LTV_PWRCTL2, 0)]) @ [Sleep 1] @ map reg_event [(LTV_PWRCTL1, LTV_VCOM_DISABLE)]"

lemma write_reg_snd [simp]: "snd (ltv350qv_write_reg spi reg val l) = l\<lparr>l_log := l_log l @ [reg_event (reg, val)]\<rparr>"
  by (simp add: ltv350qv_write_reg_def reg_event_def ltv_event_def Let_def)

lemma write_reg_eq: "ltv350qv_write_reg spi reg val l =
    (spi (l_log l @ [reg_event (reg, val)]), l\<lparr>l_log := l_log l @ [reg_event (reg, val)]\<rparr>)"
  by (simp add: ltv350qv_write_reg_def reg_event_def ltv_event_def Let_def)

lemma write_all_snd [simp]: "snd (write_all spi rs l) = l\<lparr>l_log := l_log l @ map reg_event rs\<rparr>"
  by (induction spi rs l rule: write_all.induct) (auto simp: write_reg_eq Let_def split: prod.split)

lemma msleep_eq [simp]: "msleep n l = l\<lparr>l_log := l_log l @ [Sleep n]\<rparr>"
  by (simp add: msleep_def ltv_event_def)

text \<open>Whatever the bus does, a failure ends with the command that switches the panel's supply off.\<close>

definition failed :: "int \<times> ltv \<Rightarrow> ltv \<Rightarrow> bool" where
  "failed x l \<longleftrightarrow> fst x = - 5 \<and> l_power (snd x) = l_power l \<and>
     (\<exists>es. l_log (snd x) = l_log l @ es @ [reg_event (LTV_PWRCTL1, LTV_VCOM_DISABLE)])"

lemma failed_err:
  "failed (ltv_err spi (l\<lparr>l_log := l_log l @ es\<rparr>)) l"
  "failed (err_power1 spi (l\<lparr>l_log := l_log l @ es\<rparr>)) l"
  "failed (err_disp_on spi (l\<lparr>l_log := l_log l @ es\<rparr>)) l"
  by (auto simp: failed_def ltv_err_def err_power1_def err_disp_on_def)

lemma write_all_case: "(case write_all spi rs l of (r, l') \<Rightarrow> f r l') =
    f (fst (write_all spi rs l)) (l\<lparr>l_log := l_log l @ map reg_event rs\<rparr>)"
  by (metis (no_types, lifting) write_all_snd case_prod_beta)

lemma power_on_cases:
  "ltv350qv_power_on spi l = (0, l\<lparr>l_log := l_log l @ on_events\<rparr>) \<or> failed (ltv350qv_power_on spi l) l"
proof -
  have f: "failed (ltv_err spi (l\<lparr>l_log := xs\<rparr>)) l" "failed (err_power1 spi (l\<lparr>l_log := xs\<rparr>)) l"
    "failed (err_disp_on spi (l\<lparr>l_log := xs\<rparr>)) l" if "xs = l_log l @ es" for xs es
    using failed_err that by auto
  show ?thesis
    unfolding ltv350qv_power_on_def Let_def write_reg_eq prod.case write_all_case
    by (simp add: on_events_def f)
qed

lemma power_off_cases:
  "ltv350qv_power_off spi l = (0, l\<lparr>l_log := l_log l @ off_events\<rparr>) \<or> failed (ltv350qv_power_off spi l) l"
  unfolding ltv350qv_power_off_def Let_def write_reg_eq prod.case write_all_case
  by (auto simp: off_events_def failed_def)

lemma power_cases:
  "ltv350qv_power fb spi pwr l = (0, l\<lparr>l_power := pwr, l_log := l_log l @
      (if POWER_IS_ON fb pwr = POWER_IS_ON fb (l_power l) then []
       else if POWER_IS_ON fb pwr then on_events else off_events)\<rparr>) \<or>
   POWER_IS_ON fb pwr \<noteq> POWER_IS_ON fb (l_power l) \<and> failed (ltv350qv_power fb spi pwr l) l"
  using power_on_cases [of spi l] power_off_cases [of spi l]
  by (auto simp: ltv350qv_power_def failed_def Let_def split: prod.splits)

text \<open>A change of power that succeeds records the new power and sends the whole sequence for it,
  with its pauses, when it turns the panel on or off, and nothing otherwise; one that fails reports
  \<open>EIO\<close>, leaves the recorded power alone and ends with the command that disables the panel's supply.\<close>

theorem ltv_power_result:
  "case ltv350qv_power fb spi pwr l of (r, l') \<Rightarrow>
     (if r = 0 then
        l' = l\<lparr>l_power := pwr, l_log := l_log l @
          (if POWER_IS_ON fb pwr = POWER_IS_ON fb (l_power l) then []
           else if POWER_IS_ON fb pwr then on_events else off_events)\<rparr>
      else r = - 5 \<and> l_power l' = l_power l \<and> POWER_IS_ON fb pwr \<noteq> POWER_IS_ON fb (l_power l) \<and>
        last (l_log l') = reg_event (LTV_PWRCTL1, LTV_VCOM_DISABLE))"
  using power_cases [of fb spi pwr l] by (auto simp: failed_def)

section \<open>What the panel makes of it\<close>

text \<open>The panel's registers, from the bytes: an index, then the value for it, high byte first.\<close>

fun panel :: "(u8 \<Rightarrow> u16) \<Rightarrow> ltv_event list \<Rightarrow> u8 \<Rightarrow> u16" where
  "panel regs [] = regs"
| "panel regs (Spi [i, z, r] [d, hi, lo] # es) =
     (if i = LTV_OPC_INDEX \<and> d = LTV_OPC_DATA then panel (regs(r := push_bit 8 (ucast hi) OR ucast lo)) es else panel regs es)"
| "panel regs (e # es) = panel regs es"

lemma word_bytes: "push_bit 8 (ucast (ucast (drop_bit 8 v) :: u8)) OR ucast (ucast v :: u8) = (v :: u16)"
  by (rule bit_word_eqI) (auto simp: bit_simps)

lemma panel_reg_event [simp]: "panel regs (reg_event (r, v) # es) = panel (regs(r AND 0x7f := v)) es"
  by (simp add: reg_event_def word_bytes)

lemma panel_append: "panel regs (xs @ ys) = panel (panel regs xs) ys"
  by (induction regs xs rule: panel.induct) (simp_all del: fun_upd_apply)

definition panel_on :: "(u8 \<Rightarrow> u16) \<Rightarrow> bool" where
  "panel_on regs \<longleftrightarrow> regs LTV_PWRCTL1 AND LTV_POWER_ON \<noteq> 0 \<and> regs LTV_PWRCTL1 AND LTV_VCOMOUT_ENABLE \<noteq> 0 \<and>
     regs LTV_GATECTL2 AND LTV_DSC \<noteq> 0"

lemma panel_on_events: "panel_on (panel regs on_events)"
proof -
  have r: "LTV_PWRCTL1 AND 0x7f = LTV_PWRCTL1" "LTV_GATECTL2 AND 0x7f = LTV_GATECTL2" by code_simp+
  have e: "on_events = (map reg_event [(LTV_PWRCTL1, 0)] @ [Sleep 15] @
     map reg_event [(LTV_PWRCTL1, LTV_VCOM_DISABLE), (LTV_PWRCTL2, LTV_VCOML_ENABLE), (LTV_PWRCTL1, standby)] @ [Sleep 55] @
     map reg_event instruction_setting @ [Sleep 20]) @ map reg_event display_on" by (simp add: on_events_def)
  have n: "LTV_PWRCTL1 \<noteq> LTV_GATECTL2" by code_simp
  show ?thesis unfolding e panel_append using n
    by (simp add: display_on_def panel_on_def r) code_simp
qed

lemma panel_off_events: "\<not> panel_on (panel regs off_events)"
proof -
  have r: "LTV_PWRCTL1 AND 0x7f = LTV_PWRCTL1" by code_simp
  have e: "off_events = (map reg_event (display_off @ [(LTV_PWRCTL2, 0)]) @ [Sleep 1]) @ map reg_event [(LTV_PWRCTL1, LTV_VCOM_DISABLE)]"
    by (simp add: off_events_def)
  have v: "LTV_VCOM_DISABLE AND LTV_POWER_ON = 0" by code_simp
  show ?thesis unfolding e panel_append by (simp add: panel_on_def r v)
qed

text \<open>The life of a device that is there: changes of power that succeed.\<close>

definition ltv_start :: "fb_blank \<Rightarrow> ltv \<Rightarrow> bool" where
  "ltv_start fb l \<longleftrightarrow> (\<exists>spi. ltv350qv_probe fb spi True 0 [] = (0, Some l))"

inductive ltv_step :: "fb_blank \<Rightarrow> ltv \<Rightarrow> ltv \<Rightarrow> bool" for fb where
  ltv_step_set_power: "ltv350qv_set_power fb spi l pwr = (0, l') \<Longrightarrow> ltv_step fb l l'"
| ltv_step_suspend: "ltv350qv_suspend fb spi l = (0, l') \<Longrightarrow> ltv_step fb l l'"
| ltv_step_resume: "ltv350qv_resume fb spi l = (0, l') \<Longrightarrow> ltv_step fb l l'"

definition ltv_agrees :: "fb_blank \<Rightarrow> ltv \<Rightarrow> bool" where
  "ltv_agrees fb l \<longleftrightarrow> (\<forall>regs. panel_on (panel regs (l_log l)) \<longleftrightarrow> POWER_IS_ON fb (l_power l))"

lemma power_agrees:
  assumes "ltv350qv_power fb spi pwr l = (0, l')" "POWER_IS_ON fb pwr \<noteq> POWER_IS_ON fb (l_power l) \<or> ltv_agrees fb l"
  shows "ltv_agrees fb l'"
proof -
  have l': "l' = l\<lparr>l_power := pwr, l_log := l_log l @
          (if POWER_IS_ON fb pwr = POWER_IS_ON fb (l_power l) then []
           else if POWER_IS_ON fb pwr then on_events else off_events)\<rparr>"
    using power_cases [of fb spi pwr l] assms(1) by (auto simp: failed_def)
  show ?thesis using assms(2) panel_on_events panel_off_events
    by (auto simp: l' ltv_agrees_def panel_append)
qed

text \<open>Two blanking states that count as on, and one that counts as off.\<close>

definition blank_order :: "fb_blank \<Rightarrow> bool" where
  "blank_order fb \<longleftrightarrow> blank_unblank fb \<le> blank_normal fb \<and> blank_normal fb < blank_powerdown fb"

definition ltv_begins :: "fb_blank \<Rightarrow> ltv \<Rightarrow> bool" where
  "ltv_begins fb l \<longleftrightarrow> blank_order fb \<and> ltv_start fb l"

lemma start_agrees:
  assumes "ltv_begins fb l"
  shows "ltv_agrees fb l"
proof -
  obtain spi where "ltv350qv_probe fb spi True 0 [] = (0, Some l)" using assms by (auto simp: ltv_begins_def ltv_start_def)
  then have "ltv350qv_power fb spi (blank_unblank fb) \<lparr>l_power = blank_powerdown fb, l_log = []\<rparr> = (0, l)"
    by (auto simp: ltv350qv_probe_def Let_def split: prod.splits if_splits)
  then show ?thesis using assms
    by (intro power_agrees) (auto simp: ltv_begins_def blank_order_def POWER_IS_ON_def)
qed

interpretation ltv: invariant "ltv_begins fb" "ltv_step fb" "ltv_agrees fb" for fb
proof unfold_locales
  fix l assume "ltv_begins fb l"
  then show "ltv_agrees fb l" by (rule start_agrees)
next
  fix l l' assume "ltv_agrees fb l" "ltv_step fb l l'"
  from this(2,1) show "ltv_agrees fb l'"
    by cases (auto intro: power_agrees simp: ltv350qv_set_power_def ltv350qv_suspend_def ltv350qv_resume_def)
qed

text \<open>C23: From a successful probe on, through any changes of power, suspends and resumes that succeed, the
  panel, decoding the bytes of the bus, has its display switched on exactly when the power that the
  driver has recorded is one of the states that count as on.\<close>

theorem ltv_panel_agrees:
  assumes "reachable (ltv_begins fb) (ltv_step fb) l"
  shows "panel_on (panel regs (l_log l)) \<longleftrightarrow> POWER_IS_ON fb (ltv350qv_get_power l)"
  using ltv.inv_reachable [OF assms] by (simp add: ltv_agrees_def ltv350qv_get_power_def)

definition ltv_wit_fb :: fb_blank where
  "ltv_wit_fb = \<lparr>blank_unblank = 0, blank_normal = 1, blank_powerdown = 4\<rparr>"

lemma ltv_panel_agrees_witness:
  "\<exists>l. reachable (ltv_begins ltv_wit_fb) (ltv_step ltv_wit_fb) l \<and> l_power l = 4 \<and> \<not> panel_on (panel (\<lambda>_. 0) (l_log l))"
proof -
  let ?spi = "\<lambda>_. 0"
  have o: "blank_order ltv_wit_fb" by (simp add: blank_order_def ltv_wit_fb_def)
  have w0: "fst (write_all ?spi rs l) = 0" for rs l
    by (induction rs arbitrary: l) (auto simp: write_reg_eq Let_def split: prod.split)
  have on: "ltv350qv_power_on ?spi l = (0, l\<lparr>l_log := l_log l @ on_events\<rparr>)" for l
    unfolding ltv350qv_power_on_def Let_def write_reg_eq prod.case write_all_case
    by (simp add: on_events_def w0)
  have off: "ltv350qv_power_off ?spi l = (0, l\<lparr>l_log := l_log l @ off_events\<rparr>)" for l
    unfolding ltv350qv_power_off_def Let_def write_reg_eq prod.case write_all_case
    by (simp add: off_events_def w0)
  have "ltv_begins ltv_wit_fb \<lparr>l_power = 0, l_log = on_events\<rparr>"
    unfolding ltv_begins_def ltv_start_def using o
    by (intro conjI exI [of _ ?spi])
      (simp_all add: ltv350qv_probe_def ltv350qv_power_def on ltv_wit_fb_def POWER_IS_ON_def)
  moreover have "ltv_step ltv_wit_fb \<lparr>l_power = 0, l_log = on_events\<rparr> \<lparr>l_power = 4, l_log = on_events @ off_events\<rparr>"
    by (rule ltv_step_set_power [of _ ?spi _ 4]) (simp add: ltv350qv_set_power_def ltv350qv_power_def off ltv_wit_fb_def POWER_IS_ON_def)
  ultimately have r: "reachable (ltv_begins ltv_wit_fb) (ltv_step ltv_wit_fb) \<lparr>l_power = 4, l_log = on_events @ off_events\<rparr>"
    by (meson reach_init reach_step)
  show ?thesis using ltv_panel_agrees [OF r] r by (auto simp: POWER_IS_ON_def ltv_wit_fb_def ltv350qv_get_power_def)
qed

end
