(* ===== verification/Atmel_Pwm.thy ===== *)
theory Atmel_Pwm
  imports Bytes
begin

text \<open>
  \<open>drivers/misc/atmel_pwm.c\<close>: the driver for the pulse width controller of the AVR32 board.

  The state holds the driver's controller, the channel structures of its clients (a pointer is a
  number), how often the clock is enabled, the register \<open>MR\<close>, the other register writes, the handlers
  that were called, and what the driver holds of the kernel's resources. Operations run under the
  driver's lock and are atomic. A dereferenced NULL pointer, an array access out of bounds and a shift
  by a count that is not below 32 are \<open>None\<close>. The codes of the two clocks come from a header that is
  not part of the repository and are parameters, as is what a handler does.
\<close>

definition PWM_NCHAN :: int where "PWM_NCHAN = 4"

definition PWM_ENA :: nat where "PWM_ENA = 0x04"
definition PWM_DIS :: nat where "PWM_DIS = 0x08"
definition PWM_IER :: nat where "PWM_IER = 0x10"
definition PWM_IDR :: nat where "PWM_IDR = 0x14"

definition ENODEV :: int where "ENODEV = 19"
definition EINVAL :: int where "EINVAL = 22"
definition EBUSY :: int where "EBUSY = 16"
definition EIO :: int where "EIO = 5"

type_synonym reg = "32 word"

record pwm_channel =
  ch_index :: int
  ch_regs :: nat
  ch_mck :: nat

record pwm_ctrl =
  pw_mask :: reg
  pw_channel :: "nat \<Rightarrow> nat option"
  pw_handler :: "nat \<Rightarrow> nat option"

record pwm_held =
  h_map :: bool
  h_clk :: bool
  h_irq :: bool

record pwm_state =
  ctrl :: "pwm_ctrl option"
  chans :: "nat \<Rightarrow> pwm_channel"
  clk_users :: int
  pwm_mr :: reg
  reg_log :: "(nat \<times> reg) list"
  called :: "(nat \<times> nat) list"
  held :: pwm_held

definition pwm_writel :: "nat \<Rightarrow> reg \<Rightarrow> pwm_state \<Rightarrow> pwm_state" where
  "pwm_writel off val s = s\<lparr>reg_log := reg_log s @ [(off, val)]\<rparr>"

definition pwmc_regs :: "nat \<Rightarrow> nat" where
  "pwmc_regs index = 0x200 + index * 0x20"

definition chan_bit :: "nat \<Rightarrow> reg" where
  "chan_bit i = push_bit i 1"

section \<open>Channels\<close>

text \<open>The structure is cleared before the channel is known to be free.\<close>

definition pwm_channel_alloc :: "nat \<Rightarrow> int \<Rightarrow> nat option \<Rightarrow> pwm_state \<Rightarrow> (int \<times> pwm_state) option" where
  "pwm_channel_alloc clk_rate index ch s =
     (case ctrl s of
        None \<Rightarrow> Some (- ENODEV, s)
      | Some p \<Rightarrow>
          if index < 0 \<or> 32 \<le> index then None
          else if \<not> bit (pw_mask p) (nat index) then Some (- ENODEV, s)
          else if index \<ge> PWM_NCHAN then Some (- EINVAL, s)
          else (case ch of
              None \<Rightarrow> Some (- EINVAL, s)
            | Some c \<Rightarrow>
                (let i = nat index;
                     s = s\<lparr>chans := (chans s)(c := \<lparr>ch_index = 0, ch_regs = 0, ch_mck = 0\<rparr>)\<rparr> in
                 if pw_channel p i \<noteq> None then Some (- EBUSY, s)
                 else
                   Some (0, pwm_writel PWM_IDR (chan_bit i) (pwm_writel PWM_DIS (chan_bit i)
                     (s\<lparr>clk_users := clk_users s + 1,
                        chans := (chans s)(c := \<lparr>ch_index = index, ch_regs = pwmc_regs i, ch_mck = clk_rate\<rparr>),
                        ctrl := Some (p\<lparr>pw_channel := (pw_channel p)(i \<mapsto> c),
                                        pw_handler := (pw_handler p)(i := None)\<rparr>)\<rparr>))))))"

definition pwmcheck :: "pwm_ctrl \<Rightarrow> nat option \<Rightarrow> pwm_state \<Rightarrow> int" where
  "pwmcheck p ch s =
     (case ch of
        None \<Rightarrow> - EINVAL
      | Some c \<Rightarrow>
          (let index = ch_index (chans s c) in
           if index < 0 \<or> index \<ge> PWM_NCHAN \<or> pw_channel p (nat index) \<noteq> Some c then - EINVAL else index))"

text \<open>The lock of the controller is taken before the controller is known to exist.\<close>

definition pwm_channel_free :: "nat option \<Rightarrow> pwm_state \<Rightarrow> (int \<times> pwm_state) option" where
  "pwm_channel_free ch s =
     (case ctrl s of
        None \<Rightarrow> None
      | Some p \<Rightarrow>
          (let t = pwmcheck p ch s in
           if t \<ge> 0 then
             Some (0, pwm_writel PWM_IDR (chan_bit (nat t)) (pwm_writel PWM_DIS (chan_bit (nat t))
               (s\<lparr>ctrl := Some (p\<lparr>pw_channel := (pw_channel p)(nat t := None),
                                  pw_handler := (pw_handler p)(nat t := None)\<rparr>),
                  clk_users := clk_users s - 1\<rparr>)))
           else Some (t, s)))"

definition pwm_channel_onoff :: "nat option \<Rightarrow> bool \<Rightarrow> pwm_state \<Rightarrow> (int \<times> pwm_state) option" where
  "pwm_channel_onoff ch enabled s =
     (case ctrl s of
        None \<Rightarrow> None
      | Some p \<Rightarrow>
          (let t = pwmcheck p ch s in
           if t \<ge> 0 then Some (0, pwm_writel (if enabled then PWM_ENA else PWM_DIS) (chan_bit (nat t)) s)
           else Some (t, s)))"

definition pwm_channel_handler :: "nat option \<Rightarrow> nat option \<Rightarrow> pwm_state \<Rightarrow> (int \<times> pwm_state) option" where
  "pwm_channel_handler ch handler s =
     (case ctrl s of
        None \<Rightarrow> None
      | Some p \<Rightarrow>
          (let t = pwmcheck p ch s in
           if t \<ge> 0 then
             Some (0, pwm_writel (if handler \<noteq> None then PWM_IER else PWM_IDR) (chan_bit (nat t))
               (s\<lparr>ctrl := Some (p\<lparr>pw_handler := (pw_handler p)(nat t := handler)\<rparr>)\<rparr>))
           else Some (t, s)))"

section \<open>The two clocks\<close>

definition pwm_clk_alloc :: "int \<Rightarrow> int \<Rightarrow> reg \<Rightarrow> reg \<Rightarrow> pwm_state \<Rightarrow> (int \<times> pwm_state) option" where
  "pwm_clk_alloc clka clkb prescale dv s =
     (let val = push_bit 8 prescale OR dv in
      if prescale \<ge> 10 \<or> dv = 0 \<or> dv > 255 then Some (- EINVAL, s)
      else (case ctrl s of
          None \<Rightarrow> None
        | Some p \<Rightarrow>
            (let mr = pwm_mr s; ret = - EBUSY;
                 (mr, ret) = (if mr AND 0xFFFF = 0 then (mr OR val, clka) else (mr, ret));
                 (mr, ret) = (if mr AND 0xFFFF0000 = 0 then (mr OR push_bit 16 val, clkb) else (mr, ret))
             in Some (ret, if ret > 0 then s\<lparr>pwm_mr := mr\<rparr> else s))))"

definition pwm_clk_free :: "int \<Rightarrow> int \<Rightarrow> int \<Rightarrow> pwm_state \<Rightarrow> pwm_state option" where
  "pwm_clk_free clka clkb clk s =
     (case ctrl s of
        None \<Rightarrow> None
      | Some p \<Rightarrow>
          (let mr = pwm_mr s;
               s = (if clk = clka then s\<lparr>pwm_mr := mr AND NOT 0xFFFF\<rparr> else s);
               s = (if clk = clkb then s\<lparr>pwm_mr := mr AND NOT 0xFFFF0000\<rparr> else s)
           in Some s))"

section \<open>Interrupts\<close>

text \<open>The lowest bit that is set, in a word that is not zero.\<close>

definition lowest_bit :: "reg \<Rightarrow> nat" where
  "lowest_bit w = hd (filter (bit w) [0..<32] @ [32])"

text \<open>The loop over the pending channels, with a bound on its rounds; \<open>run\<close> is what a handler does.\<close>

fun irq_loop :: "nat \<Rightarrow> (nat \<Rightarrow> nat \<Rightarrow> pwm_state \<Rightarrow> pwm_state) \<Rightarrow> reg \<Rightarrow> bool \<Rightarrow> pwm_state \<Rightarrow> (bool \<times> pwm_state) option" where
  "irq_loop 0 run irqstat handled s = None"
| "irq_loop (Suc k) run irqstat handled s =
     (if irqstat = 0 then Some (handled, s)
      else
        (let index = lowest_bit irqstat; irqstat = irqstat AND NOT (push_bit index 1) in
         if int index \<ge> PWM_NCHAN then None
         else (case ctrl s of
             None \<Rightarrow> None
           | Some p \<Rightarrow>
               (case (pw_handler p index, pw_channel p index) of
                  (Some h, Some ch) \<Rightarrow> irq_loop k run irqstat True (run h ch (s\<lparr>called := called s @ [(h, ch)]\<rparr>))
                | _ \<Rightarrow> irq_loop k run irqstat handled s))))"

definition pwm_irq :: "(nat \<Rightarrow> nat \<Rightarrow> pwm_state \<Rightarrow> pwm_state) \<Rightarrow> reg \<Rightarrow> pwm_state \<Rightarrow> (bool \<times> pwm_state) option" where
  "pwm_irq run isr s = (case ctrl s of None \<Rightarrow> None | Some _ \<Rightarrow> irq_loop 33 run isr False s)"

section \<open>Coming and going of the device\<close>

text \<open>What the platform and the kernel give: the memory resource, the interrupt, the mask, whether the
  controller can be allocated and mapped, the clock or an error, the result of asking for the interrupt.\<close>

record pwm_platform =
  pf_mem :: bool
  pf_irq :: int
  pf_mask :: "reg option"
  pf_alloc :: bool
  pf_ioremap :: bool
  pf_clk :: "int option"
  pf_request :: int

definition ENOMEM :: int where "ENOMEM = 12"

definition pwm_fail :: "int \<Rightarrow> pwm_state \<Rightarrow> int \<times> pwm_state" where
  "pwm_fail status s = (status, s\<lparr>held := \<lparr>h_map = False, h_clk = False, h_irq = False\<rparr>\<rparr>)"

definition pwm_probe :: "pwm_platform \<Rightarrow> pwm_state \<Rightarrow> int \<times> pwm_state" where
  "pwm_probe pf s =
     (if ctrl s \<noteq> None then (- EBUSY, s)
      else case (if \<not> pf_mem pf \<or> pf_irq pf < 0 then None else pf_mask pf) of
          None \<Rightarrow> (- ENODEV, s)
        | Some mp \<Rightarrow>
            if mp = 0 then (- ENODEV, s)
            else if mp AND NOT 0xF \<noteq> 0 then (- EINVAL, s)
            else if \<not> pf_alloc pf then (- ENOMEM, s)
            else if \<not> pf_ioremap pf then pwm_fail (- EIO) s
            else
              (let s = s\<lparr>held := \<lparr>h_map = True, h_clk = False, h_irq = False\<rparr>\<rparr> in
               case pf_clk pf of
                 Some err \<Rightarrow> pwm_fail err s
               | None \<Rightarrow>
                   (let s = s\<lparr>held := (held s)\<lparr>h_clk := True\<rparr>\<rparr> in
                    if pf_request pf < 0 then pwm_fail (pf_request pf) s
                    else (0, s\<lparr>held := (held s)\<lparr>h_irq := True\<rparr>,
                       ctrl := Some \<lparr>pw_mask = mp, pw_channel = (\<lambda>_. None), pw_handler = (\<lambda>_. None)\<rparr>\<rparr>))))"

text \<open>\<open>own\<close>: whether the controller is the data of the device that goes.\<close>

definition pwm_remove :: "bool \<Rightarrow> pwm_state \<Rightarrow> (int \<times> pwm_state) option" where
  "pwm_remove own s =
     (if \<not> own then Some (- EINVAL, s)
      else if ctrl s = None then None
      else Some (0, pwm_writel PWM_IDR 0xF (pwm_writel PWM_DIS 0xF s)
        \<lparr>ctrl := None, held := \<lparr>h_map = False, h_clk = False, h_irq = False\<rparr>\<rparr>))"

end
