(* ===== verification/Atmel_Pwm_Props.thy ===== *)
theory Atmel_Pwm_Props
  imports Transition Atmel_Pwm
begin

text \<open>
  The clients of the driver: what they may call, and what holds in every state they can reach.
\<close>

section \<open>Channels and the clock\<close>

definition allocated :: "pwm_ctrl \<Rightarrow> nat set" where
  "allocated p = {i. pw_channel p i \<noteq> None}"

definition in_use :: "nat \<Rightarrow> pwm_state \<Rightarrow> bool" where
  "in_use c s \<longleftrightarrow> (\<exists>p i. ctrl s = Some p \<and> pw_channel p i = Some c)"

text \<open>
  A step is a call that returns. A client asks for a channel with a structure that is not in use, a
  handler changes nothing the driver keeps, and the device goes only when no channel is allocated.
\<close>

inductive pwm_step :: "pwm_state \<Rightarrow> pwm_state \<Rightarrow> bool" where
  step_alloc: "\<not> in_use c s \<Longrightarrow> pwm_channel_alloc rate i (Some c) s = Some (r, s') \<Longrightarrow> pwm_step s s'"
| step_free: "pwm_channel_free ch s = Some (r, s') \<Longrightarrow> pwm_step s s'"
| step_onoff: "pwm_channel_onoff ch on s = Some (r, s') \<Longrightarrow> pwm_step s s'"
| step_handler: "pwm_channel_handler ch h s = Some (r, s') \<Longrightarrow> pwm_step s s'"
| step_clk_alloc: "pwm_clk_alloc clka clkb ps dv s = Some (r, s') \<Longrightarrow> pwm_step s s'"
| step_clk_free: "pwm_clk_free clka clkb clk s = Some s' \<Longrightarrow> pwm_step s s'"
| step_irq: "pwm_irq (\<lambda>_ _ t. t) isr s = Some (b, s') \<Longrightarrow> pwm_step s s'"
| step_probe: "pwm_probe pf s = (r, s') \<Longrightarrow> pwm_step s s'"
| step_remove: "\<forall>p. ctrl s = Some p \<longrightarrow> allocated p = {} \<Longrightarrow> pwm_remove own s = Some (r, s') \<Longrightarrow> pwm_step s s'"

definition pwm_start :: "pwm_state \<Rightarrow> bool" where
  "pwm_start s \<longleftrightarrow> ctrl s = None \<and> clk_users s = 0 \<and> held s = \<lparr>h_map = False, h_clk = False, h_irq = False\<rparr>"

text \<open>
  A slot of the table holds a channel with that index and the registers of that index, which the
  board has wired; handlers belong to allocated channels; the clock is enabled once for each
  allocated channel; the driver holds its resources exactly while the device is there.
\<close>

definition pwm_ok :: "pwm_state \<Rightarrow> bool" where
  "pwm_ok s \<longleftrightarrow>
     (case ctrl s of
        None \<Rightarrow> clk_users s = 0 \<and> held s = \<lparr>h_map = False, h_clk = False, h_irq = False\<rparr>
      | Some p \<Rightarrow>
          (\<forall>i c. pw_channel p i = Some c \<longrightarrow>
             i < 4 \<and> bit (pw_mask p) i \<and> ch_index (chans s c) = int i \<and> ch_regs (chans s c) = pwmc_regs i) \<and>
          (\<forall>i. pw_handler p i \<noteq> None \<longrightarrow> pw_channel p i \<noteq> None) \<and>
          clk_users s = int (card (allocated p)) \<and>
          held s = \<lparr>h_map = True, h_clk = True, h_irq = True\<rparr>)"

lemma allocated_finite: "pwm_ok s \<Longrightarrow> ctrl s = Some p \<Longrightarrow> finite (allocated p)"
  by (rule finite_subset [of _ "{..<4}"]) (auto simp: pwm_ok_def allocated_def)

lemma writel_simps [simp]:
  "ctrl (pwm_writel off v s) = ctrl s" "chans (pwm_writel off v s) = chans s"
  "clk_users (pwm_writel off v s) = clk_users s" "held (pwm_writel off v s) = held s"
  "pwm_mr (pwm_writel off v s) = pwm_mr s"
  by (simp_all add: pwm_writel_def)

lemma pwm_ok_writel [simp]: "pwm_ok (pwm_writel off v s) = pwm_ok s"
  by (cases "ctrl s") (simp_all add: pwm_ok_def)

lemma pwm_ok_upd [simp]: "pwm_ok (s\<lparr>called := x\<rparr>) = pwm_ok s" "pwm_ok (s\<lparr>pwm_mr := y\<rparr>) = pwm_ok s"
  by (cases "ctrl s"; simp add: pwm_ok_def)+

lemma pwmcheck_nonneg:
  assumes "0 \<le> pwmcheck p ch s"
  obtains c where "ch = Some c" "pw_channel p (nat (pwmcheck p ch s)) = Some c"
    "pwmcheck p ch s < 4"
  using assms by (auto simp: pwmcheck_def Let_def EINVAL_def PWM_NCHAN_def split: option.splits if_splits)

lemma allocated_upd:
  "allocated (p\<lparr>pw_channel := (pw_channel p)(i \<mapsto> c)\<rparr>) = insert i (allocated p)"
  "allocated (p\<lparr>pw_channel := (pw_channel p)(i := None)\<rparr>) = allocated p - {i}"
  "allocated (p\<lparr>pw_handler := h\<rparr>) = allocated p"
  by (auto simp: allocated_def)

lemma alloc_ok:
  assumes "pwm_ok s" "\<not> in_use c s" "pwm_channel_alloc rate i (Some c) s = Some (r, s')"
  shows "pwm_ok s'"
proof (cases "ctrl s")
  case None
  then show ?thesis using assms by (simp add: pwm_channel_alloc_def)
next
  case (Some p)
  have other: "d \<noteq> c" if "pw_channel p j = Some d" for j d using that assms(2) Some by (auto simp: in_use_def)
  have card: "card (insert (nat i) (allocated p)) = Suc (card (allocated p))" if "pw_channel p (nat i) = None"
    using that allocated_finite [OF assms(1) Some] by (simp add: allocated_def)
  have "nat i < 4" if "\<not> 4 \<le> i" using that by linarith
  then show ?thesis using assms(1,3) Some other card
    by (auto simp: pwm_channel_alloc_def pwm_ok_def Let_def PWM_NCHAN_def allocated_upd split: if_splits)
qed

lemma free_ok:
  assumes "pwm_ok s" "pwm_channel_free ch s = Some (r, s')"
  shows "pwm_ok s'"
proof (cases "ctrl s")
  case None
  then show ?thesis using assms by (simp add: pwm_channel_free_def)
next
  case (Some p)
  show ?thesis
  proof (cases "0 \<le> pwmcheck p ch s")
    case True
    define t where "t = nat (pwmcheck p ch s)"
    from True obtain c where c: "pw_channel p t = Some c" unfolding t_def by (rule pwmcheck_nonneg)
    then have "t \<in> allocated p" by (simp add: allocated_def)
    then have n: "int (card (allocated p - {t})) = int (card (allocated p)) - 1"
      using card.remove [OF allocated_finite [OF assms(1) Some]] by (metis add_diff_cancel_left' of_nat_Suc)
    define p' where "p' = p\<lparr>pw_channel := (pw_channel p)(t := None), pw_handler := (pw_handler p)(t := None)\<rparr>"
    have "allocated p' = allocated p - {t}" by (auto simp: p'_def allocated_def)
    then have "pwm_ok (s\<lparr>ctrl := Some p', clk_users := clk_users s - 1\<rparr>)"
      using assms(1) Some n by (simp add: pwm_ok_def) (simp add: p'_def)
    moreover have "s' = pwm_writel PWM_IDR (chan_bit t) (pwm_writel PWM_DIS (chan_bit t)
        (s\<lparr>ctrl := Some p', clk_users := clk_users s - 1\<rparr>))"
      using assms(2) Some True by (simp add: pwm_channel_free_def Let_def t_def p'_def)
    ultimately show ?thesis by simp
  next
    case False
    then show ?thesis using assms Some by (simp add: pwm_channel_free_def Let_def)
  qed
qed

lemma handler_ok:
  assumes "pwm_ok s" "pwm_channel_handler ch h s = Some (r, s')"
  shows "pwm_ok s'"
proof (cases "ctrl s")
  case None
  then show ?thesis using assms by (simp add: pwm_channel_handler_def)
next
  case (Some p)
  show ?thesis
  proof (cases "0 \<le> pwmcheck p ch s")
    case True
    then obtain c where "pw_channel p (nat (pwmcheck p ch s)) = Some c" by (rule pwmcheck_nonneg)
    then show ?thesis using assms Some True
      by (auto simp: pwm_channel_handler_def pwm_ok_def Let_def allocated_upd)
  next
    case False
    then show ?thesis using assms Some by (simp add: pwm_channel_handler_def Let_def)
  qed
qed

lemma irq_loop_ok: "irq_loop k (\<lambda>_ _ t. t) isr b s = Some (b', s') \<Longrightarrow> pwm_ok s \<Longrightarrow> pwm_ok s'"
proof (induction k arbitrary: isr b s)
  case (Suc k)
  then show ?case using Suc by (auto simp: Let_def split: if_splits option.splits)
qed simp

lemma probe_ok: "pwm_probe pf s = (r, s') \<Longrightarrow> pwm_ok s \<Longrightarrow> pwm_ok s'"
  by (cases "ctrl s"; cases "pf_mask pf"; cases "pf_clk pf")
    (auto simp: pwm_probe_def pwm_fail_def pwm_ok_def allocated_def Let_def split: if_splits)

text \<open>The invariant holds of the driver's steps.\<close>

interpretation pwm: invariant pwm_start pwm_step pwm_ok
proof unfold_locales
  fix s assume "pwm_start s"
  then show "pwm_ok s" by (simp add: pwm_start_def pwm_ok_def)
next
  fix s s' assume ok: "pwm_ok s" and "pwm_step s s'"
  from this(2) show "pwm_ok s'"
  proof cases
    case (step_onoff ch on r)
    then show ?thesis using ok by (auto simp: pwm_channel_onoff_def Let_def split: option.splits if_splits)
  next
    case (step_clk_alloc clka clkb ps dv r)
    then show ?thesis using step_clk_alloc ok
      by (auto simp: pwm_clk_alloc_def Let_def split: option.splits if_splits)
  next
    case (step_clk_free clka clkb clk)
    then show ?thesis using step_clk_free ok
      by (auto simp: pwm_clk_free_def Let_def split: option.splits if_splits)
  next
    case (step_irq isr b)
    then show ?thesis using irq_loop_ok ok by (auto simp: pwm_irq_def split: option.splits)
  next
    case (step_remove own r)
    then show ?thesis using ok by (auto simp: pwm_remove_def pwm_ok_def split: if_splits option.splits)
  qed (use ok in \<open>auto intro: alloc_ok free_ok handler_ok probe_ok\<close>)
qed


section \<open>Handlers\<close>

text \<open>The calls for a list of channels: a channel without a handler or a client is passed over.\<close>

definition calls_of :: "pwm_ctrl \<Rightarrow> nat list \<Rightarrow> (nat \<times> nat) list" where
  "calls_of p is = concat (map (\<lambda>i. case (pw_handler p i, pw_channel p i) of
                                     (Some h, Some ch) \<Rightarrow> [(h, ch)] | _ \<Rightarrow> []) is)"

lemma bits_nonempty: "(w :: reg) \<noteq> 0 \<Longrightarrow> filter (bit w) [0..<32] \<noteq> []"
  by (auto simp: filter_empty_conv bit_eq_iff dest: bit_imp_le_length)

lemma lowest_bit_hd: "filter (bit w) [0..<32] = i # is \<Longrightarrow> lowest_bit w = i"
  by (simp add: lowest_bit_def)

lemma bit_clear: "bit (w AND NOT (push_bit i 1)) j \<longleftrightarrow> bit (w :: reg) j \<and> i \<noteq> j"
  by (auto simp: bit_simps dest: bit_imp_le_length)

lemma bits_tl:
  assumes "filter (bit w) [0..<32] = i # is"
  shows "filter (bit (w AND NOT (push_bit i (1 :: reg)))) [0..<32] = is"
proof -
  have "i \<notin> set is" using distinct_filter [of "[0..<32]" "bit w"] assms by simp
  then have "filter (\<lambda>j. i \<noteq> j) (i # is) = is" by (auto simp: filter_id_conv)
  moreover have "filter (bit (w AND NOT (push_bit i 1))) [0..<32] = filter (\<lambda>j. i \<noteq> j) (filter (bit w) [0..<32])"
    unfolding filter_filter by (rule filter_cong) (auto simp only: bit_clear)
  ultimately show ?thesis using assms by simp
qed

lemma irq_loop_calls:
  assumes "filter (bit w) [0..<32] = is" "length is < k" "\<forall>i\<in>set is. i < 4" "ctrl s = Some p"
    and run: "\<And>h ch t. ctrl (run h ch t) = ctrl t \<and> called (run h ch t) = called t"
  shows "\<exists>s'. irq_loop k run w b s = Some (b \<or> calls_of p is \<noteq> [], s') \<and>
              called s' = called s @ calls_of p is \<and> ctrl s' = Some p"
  using assms(1-4)
proof (induction "is" arbitrary: k w b s)
  case Nil
  then have "w = 0" using bits_nonempty by blast
  then show ?case using Nil by (cases k) (auto simp: calls_of_def)
next
  case (Cons i "is")
  then obtain n where k: "k = Suc n" by (cases k) auto
  have w: "w \<noteq> 0" using Cons.prems(1) by auto
  let ?w = "w AND NOT (push_bit i 1)"
  have tl: "filter (bit ?w) [0..<32] = is" using bits_tl Cons.prems(1) .
  have i: "\<not> PWM_NCHAN \<le> int i" using Cons.prems(3) by (simp add: PWM_NCHAN_def)
  have n: "length is < n" "\<forall>i\<in>set is. i < 4" using Cons.prems k by auto
  show ?case
  proof (cases "\<exists>h ch. pw_handler p i = Some h \<and> pw_channel p i = Some ch")
    case True
    then obtain h ch where h: "pw_handler p i = Some h" "pw_channel p i = Some ch" by blast
    let ?s = "run h ch (s\<lparr>called := called s @ [(h, ch)]\<rparr>)"
    have s: "ctrl ?s = Some p" "called ?s = called s @ [(h, ch)]" using run Cons.prems(4) by auto
    from Cons.IH [OF tl n s(1), of True] show ?thesis
      using k w i h Cons.prems(4) lowest_bit_hd [OF Cons.prems(1)] s(2) by (auto simp: Let_def calls_of_def)
  next
    case False
    then have "irq_loop k run w b s = irq_loop n run ?w b s" "calls_of p (i # is) = calls_of p is"
      using k w i Cons.prems(4) lowest_bit_hd [OF Cons.prems(1)]
      by (auto simp: Let_def calls_of_def split: option.splits)
    then show ?thesis using Cons.IH [OF tl n Cons.prems(4), of b] by simp
  qed
qed

lemma take_small: "w < 2 ^ n \<Longrightarrow> take_bit n (w :: reg) = w"
  by (simp add: take_bit_eq_mod mod_word_less)

lemma low_bits: "isr < 16 \<Longrightarrow> filter (bit (isr :: reg)) [0..<32] = filter (bit isr) [0..<4]"
proof -
  assume "isr < 16"
  then have "take_bit 4 isr = isr" using take_small [of isr 4] by simp
  then have "\<not> bit isr j" if "4 \<le> j" for j using that by (metis bit_take_bit_iff linorder_not_less)
  then have "filter (bit isr) [4..<32] = []" by (auto simp: filter_empty_conv)
  moreover have "[0..<32] = [0..<4] @ [4..<32]" using upt_add_eq_append [of 0 4 28] by simp
  ultimately show ?thesis by simp
qed

text \<open>The interrupt routine calls, once and in ascending order, the handler of each pending channel
  that has a handler and a client, and returns: the bound of the loop is enough. Handlers may do what
  they like apart from changing the channel table (and the ghost list of calls).\<close>

theorem pwm_irq_calls:
  assumes "ctrl s = Some p" "isr < 16"
    and "\<And>h ch t. ctrl (run h ch t) = ctrl t \<and> called (run h ch t) = called t"
  shows "\<exists>s'. pwm_irq run isr s = Some (calls_of p (filter (bit isr) [0..<4]) \<noteq> [], s') \<and>
              called s' = called s @ calls_of p (filter (bit isr) [0..<4])"
proof -
  have "length (filter (bit isr) [0..<4]) < 33" using length_filter_le [of "bit isr" "[0..<4]"] by simp
  then have "\<exists>s'. irq_loop 33 run isr False s = Some (False \<or> calls_of p (filter (bit isr) [0..<4]) \<noteq> [], s') \<and>
      called s' = called s @ calls_of p (filter (bit isr) [0..<4]) \<and> ctrl s' = Some p"
    by (intro irq_loop_calls [OF low_bits [OF assms(2)] _ _ assms(1,3)]) simp_all
  then show ?thesis unfolding pwm_irq_def assms(1) option.case simp_thms by blast
qed

definition pwm_wit_ctrl :: pwm_ctrl where
  "pwm_wit_ctrl = \<lparr>pw_mask = 0xF, pw_channel = [0 \<mapsto> 10, 2 \<mapsto> 12, 3 \<mapsto> 13], pw_handler = [0 \<mapsto> 5, 3 \<mapsto> 6]\<rparr>"

definition pwm_wit_state :: pwm_state where
  "pwm_wit_state = \<lparr>ctrl = None, chans = (\<lambda>_. \<lparr>ch_index = 0, ch_regs = 0, ch_mck = 0\<rparr>), clk_users = 0,
     pwm_mr = 0, reg_log = [], called = [], held = \<lparr>h_map = False, h_clk = False, h_irq = False\<rparr>\<rparr>"

lemma pwm_irq_calls_witness:
  "\<exists>s'. pwm_irq (\<lambda>_ _ t. t) 0xD (pwm_wit_state\<lparr>ctrl := Some pwm_wit_ctrl\<rparr>) = Some (True, s') \<and>
        called s' = [(5, 10), (6, 13)]"
proof -
  have "filter (bit (0xD :: reg)) [0..<4] = [0, 2, 3]" by code_simp
  moreover have "calls_of pwm_wit_ctrl [0, 2, 3] = [(5, 10), (6, 13)]"
    by (simp add: calls_of_def pwm_wit_ctrl_def)
  ultimately show ?thesis
    using pwm_irq_calls [of "pwm_wit_state\<lparr>ctrl := Some pwm_wit_ctrl\<rparr>" pwm_wit_ctrl "0xD" "\<lambda>_ _ t. t"]
    by (simp add: pwm_wit_state_def)
qed

section \<open>What the invariant gives\<close>

text \<open>C21: In every state that the clients, the interrupts and the platform can bring about, the clock is
  enabled once for each allocated channel, an allocated channel is one that the board has wired and
  knows its own number and registers, no structure stands for two channels, and a handler is only there
  for an allocated channel.\<close>

theorem pwm_reachable:
  assumes "reachable pwm_start pwm_step s" "ctrl s = Some p"
  shows "clk_users s = int (card {i. pw_channel p i \<noteq> None}) \<and>
    (\<forall>i c. pw_channel p i = Some c \<longrightarrow> i < 4 \<and> bit (pw_mask p) i \<and>
        ch_index (chans s c) = int i \<and> ch_regs (chans s c) = pwmc_regs i \<and>
        (\<forall>j. pw_channel p j = Some c \<longrightarrow> i = j)) \<and>
    (\<forall>i. pw_handler p i \<noteq> None \<longrightarrow> pw_channel p i \<noteq> None)"
proof -
  have ok: "pwm_ok s" using assms(1) by (rule pwm.inv_reachable)
  then have slot: "i < 4 \<and> bit (pw_mask p) i \<and> ch_index (chans s c) = int i \<and> ch_regs (chans s c) = pwmc_regs i"
    if "pw_channel p i = Some c" for i c using that assms(2) by (simp add: pwm_ok_def)
  have "i = j" if "pw_channel p i = Some c" "pw_channel p j = Some c" for i j c
    using slot [OF that(1)] slot [OF that(2)] by simp
  then show ?thesis using ok assms(2) slot by (auto simp: pwm_ok_def allocated_def)
qed

definition pwm_wit_probed :: pwm_state where
  "pwm_wit_probed = snd (pwm_probe \<lparr>pf_mem = True, pf_irq = 1, pf_mask = Some 0xF, pf_alloc = True,
     pf_ioremap = True, pf_clk = None, pf_request = 0\<rparr> pwm_wit_state)"

lemma pwm_channel_alloc_free:
  assumes "ctrl s = Some p" "i < 4" "bit (pw_mask p) i" "pw_channel p i = None"
  shows "\<exists>s'. pwm_channel_alloc r (int i) (Some c) s = Some (0, s') \<and>
    ctrl s' = Some (p\<lparr>pw_channel := (pw_channel p)(i \<mapsto> c), pw_handler := (pw_handler p)(i := None)\<rparr>)"
  using assms by (simp add: pwm_channel_alloc_def PWM_NCHAN_def Let_def)

lemma pwm_wit_probed: "pwm_wit_probed = pwm_wit_state\<lparr>held := \<lparr>h_map = True, h_clk = True, h_irq = True\<rparr>,
    ctrl := Some \<lparr>pw_mask = 0xF, pw_channel = (\<lambda>_. None), pw_handler = (\<lambda>_. None)\<rparr>\<rparr>"
  by (simp add: pwm_wit_probed_def pwm_probe_def pwm_wit_state_def)

lemma pwm_wit_run:
  "\<exists>s p. reachable pwm_start pwm_step s \<and> ctrl s = Some p \<and> pw_channel p = [2 \<mapsto> 7]"
proof -
  let ?p = "\<lparr>pw_mask = 0xF, pw_channel = (\<lambda>_. None), pw_handler = (\<lambda>_. None)\<rparr>"
  have "bit (pw_mask ?p) 2" by code_simp
  moreover have "ctrl pwm_wit_probed = Some ?p" by (simp add: pwm_wit_probed)
  ultimately obtain s where a: "pwm_channel_alloc 100 (int 2) (Some 7) pwm_wit_probed = Some (0, s)"
    and c: "ctrl s = Some (?p\<lparr>pw_channel := (pw_channel ?p)(2 \<mapsto> 7), pw_handler := (pw_handler ?p)(2 := None)\<rparr>)"
    using pwm_channel_alloc_free [of pwm_wit_probed ?p 2 100 7] by fastforce
  have s: "\<exists>p. ctrl s = Some p \<and> pw_channel p = [2 \<mapsto> 7]" unfolding c by simp
  have "pwm_start pwm_wit_state" by (simp add: pwm_start_def pwm_wit_state_def)
  moreover have "pwm_step pwm_wit_state pwm_wit_probed"
    unfolding pwm_wit_probed_def by (rule step_probe) (rule prod.collapse [symmetric])
  moreover have "pwm_step pwm_wit_probed s"
    using a by (rule step_alloc [rotated]) (simp add: in_use_def pwm_wit_probed)
  ultimately show ?thesis using s by (meson reach_init reach_step)
qed

lemma pwm_reachable_witness:
  "\<exists>s. reachable pwm_start pwm_step s \<and> clk_users s = 1 \<and> ch_index (chans s 7) = 2"
proof -
  obtain s p where s: "reachable pwm_start pwm_step s" "ctrl s = Some p" "pw_channel p = [2 \<mapsto> 7]"
    using pwm_wit_run by blast
  note r = pwm_reachable [OF s(1,2)]
  have "{i. pw_channel p i \<noteq> None} = {2}" unfolding s(3) by auto
  then have "clk_users s = 1" using conjunct1 [OF r] by simp
  moreover have "pw_channel p 2 = Some 7" using s(3) by simp
  then have "ch_index (chans s 7) = int 2" using r by blast
  then have "ch_index (chans s 7) = 2" by simp
  ultimately show ?thesis using s(1) by blast
qed

section \<open>The two clocks\<close>

lemma clk_val_low:
  assumes "prescale < 10" "dv \<le> 255"
  shows "take_bit 12 (push_bit 8 prescale OR dv :: reg) = push_bit 8 prescale OR dv"
proof -
  have d: "take_bit 12 dv = dv" using assms(2) by (intro take_small) (simp add: word_less_nat_alt word_le_nat_alt)
  have p: "take_bit 4 prescale = prescale" using assms(1) by (intro take_small) (simp add: word_less_nat_alt)
  have "take_bit 12 (push_bit 8 prescale) = push_bit 8 (take_bit 4 prescale)" by (simp add: take_bit_push_bit)
  then show ?thesis using d p by (simp add: take_bit_or)
qed

lemma val_halves:
  assumes "take_bit 12 (v :: reg) = v"
  shows "v AND 0xFFFF = v" "v AND 0xFFFF0000 = 0" "(v OR push_bit 16 v) AND NOT 0xFFFF0000 = v"
proof -
  have v: "\<not> bit v j" if "12 \<le> j" for j using that assms by (metis bit_take_bit_iff linorder_not_less)
  have m: "(0xFFFF :: reg) = mask 16" "(0xFFFF0000 :: reg) = push_bit 16 (mask 16)" by code_simp+
  show "v AND 0xFFFF = v" "v AND 0xFFFF0000 = 0" "(v OR push_bit 16 v) AND NOT 0xFFFF0000 = v"
    unfolding m using v by (auto simp: bit_eq_iff bit_simps not_le intro: ccontr)
qed

text \<open>When both clocks are free, asking for one sets up both halves of the mode register and returns
  the second clock only; giving that clock back leaves the first half configured, so the first clock,
  which nobody was given, stays taken.\<close>

theorem pwm_clk_first_lost:
  assumes "ctrl s = Some p" "prescale < 10" "dv \<noteq> 0" "dv \<le> 255" "pwm_mr s = 0"
    and "0 < clka" "0 < clkb" "clka \<noteq> clkb"
  defines "val \<equiv> push_bit 8 prescale OR dv"
  shows "\<exists>s1 s2. pwm_clk_alloc clka clkb prescale dv s = Some (clkb, s1) \<and>
    pwm_clk_free clka clkb clkb s1 = Some s2 \<and> pwm_mr s2 = val \<and> val \<noteq> 0 \<and>
    (\<exists>s3. pwm_clk_alloc clka clkb prescale dv s2 = Some (clkb, s3))"
proof -
  have v: "take_bit 12 val = val" unfolding val_def by (rule clk_val_low [OF assms(2,4)])
  note h = val_halves [OF v]
  have n: "val \<noteq> 0" using assms(3) by (simp add: val_def or_eq_0_iff)
  have ok: "\<not> (10 \<le> prescale \<or> dv = 0 \<or> 255 < dv)" using assms(2-4) by (auto simp: not_le)
  let ?s1 = "s\<lparr>pwm_mr := val OR push_bit 16 val\<rparr>"
  let ?s2 = "s\<lparr>pwm_mr := val\<rparr>"
  have a: "pwm_clk_alloc clka clkb prescale dv s = Some (clkb, ?s1)"
    using assms ok h n by (simp add: pwm_clk_alloc_def val_def [symmetric])
  have f: "pwm_clk_free clka clkb clkb ?s1 = Some ?s2"
    using assms h by (simp add: pwm_clk_free_def)
  have "pwm_clk_alloc clka clkb prescale dv ?s2 = Some (clkb, ?s1)"
    using assms ok h n by (simp add: pwm_clk_alloc_def val_def [symmetric])
  then show ?thesis using a f n by fastforce
qed

lemma pwm_clk_first_lost_witness:
  "\<exists>s1 s2. pwm_clk_alloc 1 2 3 4 (pwm_wit_state\<lparr>ctrl := Some pwm_wit_ctrl\<rparr>) = Some (2, s1) \<and>
    pwm_clk_free 1 2 2 s1 = Some s2 \<and> pwm_mr s2 = 0x304"
proof -
  have v: "push_bit 8 3 OR 4 = (0x304 :: reg)" by code_simp
  show ?thesis
    using pwm_clk_first_lost [of "pwm_wit_state\<lparr>ctrl := Some pwm_wit_ctrl\<rparr>" pwm_wit_ctrl 3 4 1 2]
    unfolding v by (auto simp: pwm_wit_state_def)
qed

end
