(* ===== verification/Leds_Atmel_Pwm.thy ===== *)
theory Leds_Atmel_Pwm
  imports Atmel_Pwm
begin

text \<open>
  \<open>drivers/leds/leds-atmel-pwm.c\<close>: LEDs whose brightness is the duty cycle of a channel of the pulse
  width controller, a client of \<open>atmel_pwm.c\<close>.

  The structures of the LEDs are allocated together, so the channel structure of LED \<open>i\<close> is \<open>base + i\<close>.
  Writes to the registers of a channel are logged with the channel's structure. The numbers of those
  registers, of the polarity bit and of the brightness of an LED that is off or fully on come from headers
  that are not part of the repository and are a parameter; so are the results of registering an LED.
\<close>

record led_consts =
  k_CMR :: nat
  k_CDTY :: nat
  k_CPRD :: nat
  k_CUPD :: nat
  k_CPOL :: reg
  k_LED_OFF :: reg
  k_LED_FULL :: reg

record led_desc =
  d_gpio :: int
  d_active_low :: bool

record leds_state =
  l_pwm :: pwm_state
  l_writes :: "(nat \<times> nat \<times> reg) list"
  l_up :: "nat list"
  l_mult :: "nat \<Rightarrow> reg"

definition pwm_channel_writel :: "nat \<Rightarrow> nat \<Rightarrow> reg \<Rightarrow> leds_state \<Rightarrow> leds_state" where
  "pwm_channel_writel ch off val l = l\<lparr>l_writes := l_writes l @ [(ch, off, val)]\<rparr>"

definition pwmled_brightness :: "led_consts \<Rightarrow> nat \<Rightarrow> nat \<Rightarrow> reg \<Rightarrow> leds_state \<Rightarrow> leds_state" where
  "pwmled_brightness k base i b l = pwm_channel_writel (base + i) (k_CUPD k) (l_mult l i * b) l"

text \<open>The error path: the LEDs before \<open>i\<close>, the last first.\<close>

fun pwmled_err :: "nat \<Rightarrow> nat \<Rightarrow> leds_state \<Rightarrow> leds_state option" where
  "pwmled_err base 0 l = Some l"
| "pwmled_err base (Suc i) l =
     (let l = l\<lparr>l_up := remove1 i (l_up l)\<rparr> in
      case pwm_channel_free (Some (base + i)) (l_pwm l) of
        None \<Rightarrow> None
      | Some (_, p) \<Rightarrow> pwmled_err base i (l\<lparr>l_pwm := p\<rparr>))"

text \<open>What is set in the registers of a channel that was allocated.\<close>

definition pwmled_setup :: "led_consts \<Rightarrow> nat \<Rightarrow> nat \<Rightarrow> led_desc \<Rightarrow> leds_state \<Rightarrow> leds_state" where
  "pwmled_setup k base i dat l =
     (let tmp = (if d_active_low dat then 5 else 5 OR k_CPOL k);
          l = pwm_channel_writel (base + i) (k_CMR k) tmp l;
          tmp = of_nat (ch_mck (chans (l_pwm l) (base + i))) div push_bit 5 1 div 100;
          tmp = tmp div 255;
          l = l\<lparr>l_mult := (l_mult l)(i := tmp)\<rparr>;
          l = pwm_channel_writel (base + i) (k_CDTY k) (k_LED_OFF k * 255) l
      in pwm_channel_writel (base + i) (k_CPRD k) (k_LED_FULL k * tmp) l)"

fun pwmled_loop :: "led_consts \<Rightarrow> nat \<Rightarrow> (nat \<Rightarrow> int) \<Rightarrow> nat \<Rightarrow> nat \<Rightarrow> led_desc list \<Rightarrow> leds_state \<Rightarrow> (int \<times> leds_state) option" where
  "pwmled_loop k rate register base i [] l = Some (0, l)"
| "pwmled_loop k rate register base i (dat # dats) l =
     (case pwm_channel_alloc rate (d_gpio dat) (Some (base + i)) (l_pwm l) of
        None \<Rightarrow> None
      | Some (status, p) \<Rightarrow>
          (let l = l\<lparr>l_pwm := p\<rparr> in
           if status < 0 then map_option (\<lambda>l. (status, l)) (pwmled_err base i l)
           else
             (let l = pwmled_setup k base i dat l in
              case pwm_channel_onoff (Some (base + i)) True (l_pwm l) of
                None \<Rightarrow> None
              | Some (_, p) \<Rightarrow>
                  (let l = l\<lparr>l_pwm := p\<rparr>; status = register i in
                   if status < 0 then
                     (case pwm_channel_free (Some (base + i)) (l_pwm l) of
                        None \<Rightarrow> None
                      | Some (_, p) \<Rightarrow> map_option (\<lambda>l. (status, l)) (pwmled_err base i (l\<lparr>l_pwm := p\<rparr>)))
                   else pwmled_loop k rate register base (Suc i) dats (l\<lparr>l_up := l_up l @ [i]\<rparr>)))))"

text \<open>\<open>mem\<close>: the memory for the LEDs, if there is any.\<close>

definition pwmled_probe :: "led_consts \<Rightarrow> nat \<Rightarrow> (nat \<Rightarrow> int) \<Rightarrow> nat option \<Rightarrow> led_desc list \<Rightarrow> leds_state \<Rightarrow> (int \<times> leds_state) option" where
  "pwmled_probe k rate register mem dats l =
     (if dats = [] then Some (- ENODEV, l)
      else (case mem of None \<Rightarrow> Some (- ENOMEM, l) | Some base \<Rightarrow> pwmled_loop k rate register base 0 dats l))"

fun pwmled_remove_loop :: "nat \<Rightarrow> nat \<Rightarrow> nat \<Rightarrow> leds_state \<Rightarrow> leds_state option" where
  "pwmled_remove_loop base 0 i l = Some l"
| "pwmled_remove_loop base (Suc n) i l =
     (let l = l\<lparr>l_up := remove1 i (l_up l)\<rparr> in
      case pwm_channel_free (Some (base + i)) (l_pwm l) of
        None \<Rightarrow> None
      | Some (_, p) \<Rightarrow> pwmled_remove_loop base n (Suc i) (l\<lparr>l_pwm := p\<rparr>))"

definition pwmled_remove :: "nat \<Rightarrow> led_desc list \<Rightarrow> leds_state \<Rightarrow> leds_state option" where
  "pwmled_remove base dats l = pwmled_remove_loop base (length dats) 0 l"

end
