(* ===== verification/Leds_Atmel_Pwm_Props.thy ===== *)
theory Leds_Atmel_Pwm_Props
  imports Atmel_Pwm_Props Leds_Atmel_Pwm
begin

text \<open>
  The LEDs over the controller: what a probe that fails or a remove gives back, and the range of the
  brightness.
\<close>

section \<open>Channels held by LEDs\<close>

text \<open>The LEDs \<open>K\<close> hold the channels \<open>g\<close> of a controller that was \<open>p0\<close> before.\<close>

definition leds_hold :: "nat \<Rightarrow> nat set \<Rightarrow> (nat \<Rightarrow> nat) \<Rightarrow> pwm_ctrl \<Rightarrow> int \<Rightarrow> pwm_state \<Rightarrow> bool" where
  "leds_hold base K g p0 c0 t \<longleftrightarrow> finite K \<and> inj_on g K \<and> clk_users t = c0 + int (card K) \<and>
     (\<forall>k\<in>K. g k < 4 \<and> ch_index (chans t (base + k)) = int (g k) \<and> pw_channel p0 (g k) = None) \<and>
     ctrl t = Some (p0\<lparr>pw_channel := (\<lambda>j. if j \<in> g ` K then Some (base + inv_into K g j) else pw_channel p0 j)\<rparr>)"

text \<open>Before: no structure of an LED is in the table, and handlers belong to allocated channels.\<close>

definition leds_free :: "nat \<Rightarrow> pwm_ctrl \<Rightarrow> bool" where
  "leds_free base p0 \<longleftrightarrow> (\<forall>j. pw_handler p0 j \<noteq> None \<longrightarrow> pw_channel p0 j \<noteq> None) \<and>
     (\<forall>j c. pw_channel p0 j = Some c \<longrightarrow> c < base)"

lemma hold_none: "ctrl t = Some p0 \<Longrightarrow> leds_hold base {} g p0 (clk_users t) t"
  by (simp add: leds_hold_def)

lemma hold_empty: "leds_hold base {} g p0 c0 t \<Longrightarrow> ctrl t = Some p0 \<and> clk_users t = c0"
  by (simp add: leds_hold_def)

lemma hold_upd [simp]:
  "leds_hold base K g p0 c0 (pwm_writel off v t) = leds_hold base K g p0 c0 t"
  by (simp add: leds_hold_def)

lemma hold_channel:
  assumes "leds_hold base K g p0 c0 t" "k \<in> K"
  shows "\<exists>p. ctrl t = Some p \<and> pw_channel p (g k) = Some (base + k)"
  using assms by (auto simp: leds_hold_def inv_into_f_f)

lemma hold_free:
  assumes "leds_hold base K g p0 c0 t" "leds_free base p0" "k \<in> K"
  shows "\<exists>t'. pwm_channel_free (Some (base + k)) t = Some (0, t') \<and> leds_hold base (K - {k}) g p0 c0 t'"
proof -
  note h = assms(1) [unfolded leds_hold_def]
  let ?ch = "\<lambda>K j. if j \<in> g ` K then Some (base + inv_into K g j) else pw_channel p0 j"
  let ?p = "p0\<lparr>pw_channel := ?ch K\<rparr>"
  have k: "g k < 4" "ch_index (chans t (base + k)) = int (g k)" "pw_channel p0 (g k) = None" "ctrl t = Some ?p"
    using h assms(3) by auto
  have "pw_channel ?p (g k) = Some (base + k)" using h assms(3) by (simp add: inv_into_f_f)
  then have chk: "pwmcheck ?p (Some (base + k)) t = int (g k)"
    unfolding pwmcheck_def option.case Let_def k(2) PWM_NCHAN_def using k(1) by (simp del: pwm_ctrl.simps)
  have "pw_handler p0 (g k) = None" using assms(2) k(3) by (auto simp: leds_free_def)
  then have hd: "(pw_handler p0)(g k := None) = pw_handler p0" by (simp add: fun_upd_idem)
  have im: "g ` (K - {k}) = g ` K - {g k}" using h assms(3) by (auto simp: inj_on_def)
  have inj: "inj_on g (K - {k})" using h by (auto simp: inj_on_def)
  have "inv_into (K - {k}) g j = inv_into K g j" if j: "j \<in> g ` K - {g k}" for j
  proof -
    obtain i where i: "i \<in> K - {k}" "j = g i" using j by auto
    then show ?thesis using h inv_into_f_f [OF inj i(1)] inv_into_f_f [of g K i] by auto
  qed
  then have tb: "(?ch K)(g k := None) = ?ch (K - {k})" using k(3) by (auto simp: im fun_eq_iff)
  have c: "int (card (K - {k})) = int (card K) - 1"
    using h assms(3) card_gt_0_iff [of K] by (auto simp: card_Diff_singleton)
  define t' where "t' = t\<lparr>ctrl := Some (p0\<lparr>pw_channel := ?ch (K - {k})\<rparr>), clk_users := clk_users t - 1\<rparr>"
  have "pwm_channel_free (Some (base + k)) t = Some (0, pwm_writel PWM_IDR (chan_bit (g k)) (pwm_writel PWM_DIS (chan_bit (g k)) t'))"
    using k(4) chk hd tb by (simp add: pwm_channel_free_def t'_def)
  moreover have "leds_hold base (K - {k}) g p0 c0 t'"
    using h inj c by (simp add: leds_hold_def t'_def)
  ultimately show ?thesis by simp
qed

lemma hold_alloc:
  assumes "leds_hold base K g p0 c0 t" "leds_free base p0" "k \<notin> K" "pwm_channel_alloc rate i (Some (base + k)) t = Some (r, t')"
  shows "if r < 0 then leds_hold base K g p0 c0 t' else r = 0 \<and> leds_hold base (insert k K) (g(k := nat i)) p0 c0 t'"
proof -
  note h = assms(1) [unfolded leds_hold_def]
  let ?ch = "\<lambda>K g j. if j \<in> g ` K then Some (base + inv_into K g j) else pw_channel p0 j"
  let ?p = "p0\<lparr>pw_channel := ?ch K g\<rparr>"
  have p: "ctrl t = Some ?p" using h by simp
  have oth: "leds_hold base K g p0 c0 (t\<lparr>chans := (chans t)(base + k := x)\<rparr>)" for x
    using h assms(3) by (auto simp: leds_hold_def)
  define p' where "p' = ?p"
  have p': "ctrl t = Some p'" using p by (simp add: p'_def)
  show ?thesis
  proof (cases "r < 0")
    case True
    then have "t' = t \<or> (\<exists>x. t' = t\<lparr>chans := (chans t)(base + k := x)\<rparr>)"
      using assms(4) p' by (auto simp: pwm_channel_alloc_def Let_def split: if_splits)
    then show ?thesis using True assms(1) oth by auto
  next
    case False
    then have a: "0 \<le> i" "i < 4" "pw_channel p' (nat i) = None" "r = 0"
      and t': "t' = pwm_writel PWM_IDR (chan_bit (nat i)) (pwm_writel PWM_DIS (chan_bit (nat i))
         (t\<lparr>clk_users := clk_users t + 1,
            chans := (chans t)(base + k := \<lparr>ch_index = i, ch_regs = pwmc_regs (nat i), ch_mck = rate\<rparr>),
            ctrl := Some (p'\<lparr>pw_channel := (pw_channel p')(nat i \<mapsto> base + k), pw_handler := (pw_handler p')(nat i := None)\<rparr>)\<rparr>))"
      using assms(4) p'
      by (auto simp: pwm_channel_alloc_def Let_def PWM_NCHAN_def ENODEV_def EINVAL_def EBUSY_def split: if_splits)
    have ni: "nat i \<notin> g ` K" "pw_channel p0 (nat i) = None" using a(3) by (auto simp: p'_def split: if_splits)
    then have "pw_handler p0 (nat i) = None" using assms(2) by (auto simp: leds_free_def)
    then have hd: "(pw_handler p0)(nat i := None) = pw_handler p0" by (simp add: fun_upd_idem)
    let ?g = "g(k := nat i)"
    have im: "?g ` insert k K = insert (nat i) (g ` K)" "?g ` K = g ` K" using assms(3) by auto
    have inj: "inj_on ?g (insert k K)" 
    proof -
      have "inj_on ?g K" using h assms(3) by (subst inj_on_cong [of K _ g]) auto
      then show ?thesis using ni(1) assms(3) im(2) by (simp add: inj_on_insert)
    qed
    have inv: "inv_into (insert k K) ?g (nat i) = k" using inv_into_f_f [OF inj, of k] by simp
    have "inv_into (insert k K) ?g j = inv_into K g j" if j: "j \<in> g ` K" for j
    proof -
      obtain m where m: "m \<in> K" "j = g m" using j by auto
      have "j = ?g m" using m assms(3) by auto
      then have "inv_into (insert k K) ?g j = m" using inv_into_f_f [OF inj, of m] m(1) by simp
      moreover have "inv_into K g j = m" using inv_into_f_f [of g K m] h m by simp
      ultimately show ?thesis by simp
    qed
    then have "(?ch K g)(nat i \<mapsto> base + k) = (\<lambda>j. if j \<in> insert (nat i) (g ` K)
        then Some (base + inv_into (insert k K) ?g j) else pw_channel p0 j)" using inv by (auto simp: fun_eq_iff)
    then have tb: "(?ch K g)(nat i \<mapsto> base + k) = ?ch (insert k K) ?g" unfolding im(1) .
    have "leds_hold base (insert k K) ?g p0 c0 t'"
    proof -
      have "ch_index (chans t (base + m)) = int (g m)" "g m < 4" "pw_channel p0 (g m) = None" if "m \<in> K" for m
        using h that by auto
      moreover have "card (insert k K) = Suc (card K)" using h assms(3) by simp
      moreover have "m \<noteq> k" if "m \<in> K" for m using that assms(3) by auto
      ultimately show ?thesis
        using h a(1,2) ni(2) inj hd tb
        unfolding t' hold_upd leds_hold_def p'_def by simp
    qed
    then show ?thesis using a(4) by simp
  qed
qed

section \<open>Probe and remove\<close>

text \<open>Everything is as it was: the table of the controller, its clock, the LEDs that are registered.\<close>

definition given_back :: "leds_state \<Rightarrow> leds_state \<Rightarrow> bool" where
  "given_back l l' \<longleftrightarrow> ctrl (l_pwm l') = ctrl (l_pwm l) \<and> clk_users (l_pwm l') = clk_users (l_pwm l) \<and> l_up l' = l_up l"

definition leds_up :: "nat \<Rightarrow> nat \<Rightarrow> (nat \<Rightarrow> nat) \<Rightarrow> pwm_ctrl \<Rightarrow> int \<Rightarrow> leds_state \<Rightarrow> bool" where
  "leds_up base i g p0 c0 l \<longleftrightarrow> leds_hold base {..<i} g p0 c0 (l_pwm l) \<and> l_up l = [0..<i]"

definition leds_down :: "pwm_ctrl \<Rightarrow> int \<Rightarrow> leds_state \<Rightarrow> bool" where
  "leds_down p0 c0 l \<longleftrightarrow> ctrl (l_pwm l) = Some p0 \<and> clk_users (l_pwm l) = c0 \<and> l_up l = []"

lemma writel_pwm [simp]: "l_pwm (pwm_channel_writel ch off v l) = l_pwm l" "l_up (pwm_channel_writel ch off v l) = l_up l"
  "l_mult (pwm_channel_writel ch off v l) = l_mult l"
  by (simp_all add: pwm_channel_writel_def)

lemma setup_pwm [simp]: "l_pwm (pwmled_setup k base i dat l) = l_pwm l" "l_up (pwmled_setup k base i dat l) = l_up l"
  by (simp_all add: pwmled_setup_def Let_def)

lemma err_unwinds:
  "leds_up base i g p0 c0 l \<Longrightarrow> leds_free base p0 \<Longrightarrow> \<exists>l'. pwmled_err base i l = Some l' \<and> leds_down p0 c0 l'"
proof (induction i arbitrary: l)
  case 0
  then show ?case by (auto simp: leds_up_def leds_down_def dest: hold_empty)
next
  case (Suc i)
  have "leds_hold base {..<Suc i} g p0 c0 (l_pwm l)" "l_up l = [0..<Suc i]" using Suc.prems(1) by (simp_all add: leds_up_def)
  then obtain t where t: "pwm_channel_free (Some (base + i)) (l_pwm l) = Some (0, t)" "leds_hold base ({..<Suc i} - {i}) g p0 c0 t"
    using hold_free [OF _ Suc.prems(2), of "{..<Suc i}" g c0 "l_pwm l" i] by auto
  have "{..<Suc i} - {i} = {..<i}" by auto
  then have "leds_up base i g p0 c0 (l\<lparr>l_up := [0..<i], l_pwm := t\<rparr>)" using t(2) by (simp add: leds_up_def)
  moreover have "remove1 i (l_up l) = [0..<i]" using \<open>l_up l = [0..<Suc i]\<close> by (simp add: remove1_append)
  ultimately show ?case using Suc.IH [OF _ Suc.prems(2)] t(1) by simp
qed

lemma remove_unwinds:
  "leds_hold base {i..<i + n} g p0 c0 (l_pwm l) \<Longrightarrow> l_up l = [i..<i + n] \<Longrightarrow> leds_free base p0 \<Longrightarrow>
     \<exists>l'. pwmled_remove_loop base n i l = Some l' \<and> leds_down p0 c0 l'"
proof (induction n arbitrary: i l)
  case 0
  then show ?case by (auto simp: leds_down_def dest: hold_empty)
next
  case (Suc n)
  obtain t where t: "pwm_channel_free (Some (base + i)) (l_pwm l) = Some (0, t)" "leds_hold base ({i..<i + Suc n} - {i}) g p0 c0 t"
    using hold_free [OF Suc.prems(1,3), of i] by auto
  have s: "{i..<i + Suc n} - {i} = {Suc i..<Suc i + n}" by auto
  have u: "remove1 i (l_up l) = [Suc i..<Suc i + n]" using Suc.prems(2) by (simp add: upt_rec)
  have "leds_hold base {Suc i..<Suc i + n} g p0 c0 (l_pwm (l\<lparr>l_up := [Suc i..<Suc i + n], l_pwm := t\<rparr>))"
    using t(2) unfolding s by simp
  from Suc.IH [OF this _ Suc.prems(3)] show ?case using t(1) u by simp
qed

lemma onoff_hold:
  "leds_hold base K g p0 c0 t \<Longrightarrow> \<exists>r t'. pwm_channel_onoff ch on t = Some (r, t') \<and> leds_hold base K g p0 c0 t'"
  by (cases "ctrl t") (auto simp: leds_hold_def pwm_channel_onoff_def Let_def)

lemma alloc_some: "ctrl t = Some p \<Longrightarrow> 0 \<le> i \<Longrightarrow> i < 32 \<Longrightarrow> \<exists>r t'. pwm_channel_alloc rate i ch t = Some (r, t')"
  by (simp add: pwm_channel_alloc_def Let_def split: option.split)

lemma loop_result:
  assumes "leds_up base i g p0 c0 l" "leds_free base p0" "\<forall>d\<in>set dats. 0 \<le> d_gpio d \<and> d_gpio d < 32"
  shows "\<exists>r l'. pwmled_loop k rate register base i dats l = Some (r, l') \<and>
    (if r < 0 then leds_down p0 c0 l'
     else r = 0 \<and> (\<exists>g'. leds_up base (i + length dats) g' p0 c0 l' \<and> (\<forall>j<i. g' j = g j) \<and>
       (\<forall>j<length dats. g' (i + j) = nat (d_gpio (dats ! j)))))"
  using assms(1,3)
proof (induction dats arbitrary: i g l)
  case Nil
  then show ?case by auto
next
  case (Cons d dats)
  have up: "leds_hold base {..<i} g p0 c0 (l_pwm l)" "l_up l = [0..<i]" using Cons.prems(1) by (simp_all add: leds_up_def)
  obtain r t where a: "pwm_channel_alloc rate (d_gpio d) (Some (base + i)) (l_pwm l) = Some (r, t)"
    using alloc_some [of "l_pwm l"] up(1) Cons.prems(2) by (fastforce simp: leds_hold_def)
  note h = hold_alloc [OF up(1) assms(2) _ a]
  show ?case
  proof (cases "r < 0")
    case True
    then have "leds_up base i g p0 c0 (l\<lparr>l_pwm := t\<rparr>)" using h up(2) by (simp add: leds_up_def)
    from err_unwinds [OF this assms(2)] show ?thesis using a True by auto
  next
    case False
    let ?g = "g(i := nat (d_gpio d))"
    have g: "leds_hold base {..<Suc i} ?g p0 c0 t" using h False by (simp add: lessThan_Suc)
    then obtain r1 t1 where t1: "pwm_channel_onoff (Some (base + i)) True t = Some (r1, t1)" "leds_hold base {..<Suc i} ?g p0 c0 t1"
      using onoff_hold by blast
    let ?l = "(pwmled_setup k base i d (l\<lparr>l_pwm := t\<rparr>))\<lparr>l_pwm := t1\<rparr>"
    show ?thesis
    proof (cases "register i < 0")
      case True
      obtain t2 where t2: "pwm_channel_free (Some (base + i)) t1 = Some (0, t2)" "leds_hold base ({..<Suc i} - {i}) ?g p0 c0 t2"
        using hold_free [OF t1(2) assms(2), of i] by auto
      have "{..<Suc i} - {i} = {..<i}" by auto
      then have "leds_up base i ?g p0 c0 (?l\<lparr>l_pwm := t2\<rparr>)" using t2(2) up(2) by (simp add: leds_up_def)
      from err_unwinds [OF this assms(2)] show ?thesis using a False t1(1) t2(1) True by (auto simp: Let_def)
    next
      case reg: False
      have "leds_up base (Suc i) ?g p0 c0 (?l\<lparr>l_up := l_up ?l @ [i]\<rparr>)" using t1(2) up(2) by (simp add: leds_up_def)
      from Cons.IH [OF this] Cons.prems(2) obtain r' l' where
        ih: "pwmled_loop k rate register base (Suc i) dats (?l\<lparr>l_up := l_up ?l @ [i]\<rparr>) = Some (r', l')"
        "if r' < 0 then leds_down p0 c0 l' else r' = 0 \<and> (\<exists>g'. leds_up base (Suc i + length dats) g' p0 c0 l' \<and>
          (\<forall>j<Suc i. g' j = ?g j) \<and> (\<forall>j<length dats. g' (Suc i + j) = nat (d_gpio (dats ! j))))" by auto
      have e: "pwmled_loop k rate register base i (d # dats) l = Some (r', l')"
        using a False t1(1) reg ih(1) by (simp add: Let_def)
      show ?thesis
      proof (cases "r' < 0")
        case True
        then show ?thesis using e ih(2) by auto
      next
        case nn: False
        then obtain g' where g': "r' = 0" "leds_up base (Suc i + length dats) g' p0 c0 l'" "\<forall>j<Suc i. g' j = ?g j"
          "\<forall>j<length dats. g' (Suc i + j) = nat (d_gpio (dats ! j))" using ih(2) by auto
        have "g' (i + j) = nat (d_gpio ((d # dats) ! j))" if "j < length (d # dats)" for j
          using g'(3,4) that by (cases j) auto
        moreover have "\<forall>j<i. g' j = g j" using g'(3) by auto
        ultimately show ?thesis using e g'(1,2) by auto
      qed
    qed
  qed
qed

text \<open>C24: A probe of LEDs on channels the code can test either fails, and then the controller's table, its
  clock and the registered LEDs are as they were before, whichever step failed; or every LED has its
  channel and is registered, and removing the device gives everything back.\<close>

theorem pwmled_probe_gives_back:
  assumes "ctrl (l_pwm l) = Some p0" "leds_free base p0" "l_up l = []" "dats \<noteq> []"
    and "\<forall>d\<in>set dats. 0 \<le> d_gpio d \<and> d_gpio d < 32"
  shows "\<exists>r l'. pwmled_probe k rate register (Some base) dats l = Some (r, l') \<and>
    (if r < 0 then given_back l l'
     else r = 0 \<and> l_up l' = [0..<length dats] \<and>
       (\<forall>i<length dats. \<exists>p. ctrl (l_pwm l') = Some p \<and> pw_channel p (nat (d_gpio (dats ! i))) = Some (base + i)) \<and>
       (\<exists>l''. pwmled_remove base dats l' = Some l'' \<and> given_back l l''))"
proof -
  let ?c = "clk_users (l_pwm l)"
  have "leds_up base 0 undefined p0 ?c l" using hold_none [OF assms(1)] assms(3) by (simp add: leds_up_def)
  from loop_result [OF this assms(2,5), where k = k and rate = rate and register = register] obtain r l' where
    r: "pwmled_loop k rate register base 0 dats l = Some (r, l')" and
    c: "if r < 0 then leds_down p0 ?c l' else r = 0 \<and> (\<exists>g. leds_up base (length dats) g p0 ?c l' \<and>
      (\<forall>j<0. g j = undefined j) \<and> (\<forall>j<length dats. g j = nat (d_gpio (dats ! j))))" unfolding add_0 by blast
  have gb: "leds_down p0 ?c x \<Longrightarrow> given_back l x" for x using assms(1,3) by (simp add: leds_down_def given_back_def)
  have e: "pwmled_probe k rate register (Some base) dats l = Some (r, l')" using r assms(4) by (simp add: pwmled_probe_def)
  show ?thesis
  proof (cases "r < 0")
    case True
    then show ?thesis using e c gb by auto
  next
    case False
    then obtain g where g: "r = 0" "leds_hold base {..<length dats} g p0 ?c (l_pwm l')" "l_up l' = [0..<length dats]"
      "\<forall>j<length dats. g j = nat (d_gpio (dats ! j))" using c by (auto simp: leds_up_def)
    obtain l'' where l'': "pwmled_remove base dats l' = Some l''" "leds_down p0 ?c l''"
      using remove_unwinds [of base 0 "length dats" g p0 ?c l'] g(2,3) assms(2) by (auto simp: pwmled_remove_def lessThan_atLeast0)
    have "\<exists>p. ctrl (l_pwm l') = Some p \<and> pw_channel p (nat (d_gpio (dats ! i))) = Some (base + i)" if "i < length dats" for i
      using hold_channel [OF g(2), of i] g(4) that by auto
    then show ?thesis using e g(1,3) l'' gb by auto
  qed
qed

definition led_wit :: "led_consts" where
  "led_wit = \<lparr>k_CMR = 0, k_CDTY = 4, k_CPRD = 8, k_CUPD = 16, k_CPOL = 0x200, k_LED_OFF = 0, k_LED_FULL = 255\<rparr>"

definition led_wit_state :: leds_state where
  "led_wit_state = \<lparr>l_pwm = pwm_wit_state\<lparr>ctrl := Some \<lparr>pw_mask = 0xF, pw_channel = [0 \<mapsto> 10], pw_handler = [0 \<mapsto> 5]\<rparr>\<rparr>,
     l_writes = [], l_up = [], l_mult = (\<lambda>_. 0)\<rparr>"

definition led_wit_descs :: "led_desc list" where
  "led_wit_descs = [\<lparr>d_gpio = 1, d_active_low = True\<rparr>, \<lparr>d_gpio = 2, d_active_low = False\<rparr>]"

lemma pwmled_probe_gives_back_witness:
  "\<exists>r l'. pwmled_probe led_wit 100 (\<lambda>i. if i = 1 then - 5 else 0) (Some 20) led_wit_descs led_wit_state = Some (r, l') \<and>
     l_up l' = (if r < 0 then [] else [0, 1])"
proof -
  let ?p = "\<lparr>pw_mask = 0xF, pw_channel = [0 \<mapsto> 10], pw_handler = [0 \<mapsto> 5]\<rparr>"
  have "ctrl (l_pwm led_wit_state) = Some ?p" "leds_free 20 ?p" "l_up led_wit_state = []" "led_wit_descs \<noteq> []"
    "\<forall>d\<in>set led_wit_descs. 0 \<le> d_gpio d \<and> d_gpio d < 32"
    by (auto simp: led_wit_state_def leds_free_def led_wit_descs_def)
  from pwmled_probe_gives_back [OF this, of led_wit 100 "\<lambda>i. if i = 1 then - 5 else 0"] obtain r l' where
    r: "pwmled_probe led_wit 100 (\<lambda>i. if i = 1 then - 5 else 0) (Some 20) led_wit_descs led_wit_state = Some (r, l')"
    "if r < 0 then given_back led_wit_state l' else l_up l' = [0..<length led_wit_descs]" by (metis (full_types))
  moreover have "[0..<length led_wit_descs] = [0, 1]" by (simp add: led_wit_descs_def upt_rec)
  moreover have "given_back led_wit_state l' \<Longrightarrow> l_up l' = []" by (simp add: given_back_def led_wit_state_def)
  ultimately show ?thesis by auto
qed

section \<open>Brightness\<close>

lemma unat_32: "unat (w :: reg) < 2 ^ 32"
  using unsigned_less [of w] by simp

text \<open>For every brightness up to the full one the duty cycle does not wrap around and does not exceed the
  period that the probe has set.\<close>

theorem pwmled_duty_in_period:
  fixes l :: leds_state and dat :: led_desc and base i :: nat
  assumes "k_LED_FULL k = 255" "b \<le> 255"
  defines "l' \<equiv> pwmled_setup k base i dat l"
  shows "\<exists>ws p d. l_writes l' = ws @ [(base + i, k_CPRD k, p)] \<and>
    l_writes (pwmled_brightness k base i b l') = l_writes l' @ [(base + i, k_CUPD k, d)] \<and>
    d \<le> p \<and> unat d = unat (l_mult l' i) * unat b"
proof -
  define m :: reg where "m = of_nat (ch_mck (chans (l_pwm l) (base + i))) div push_bit 5 1 div 100 div 255"
  have m: "l_mult l' i = m" "\<exists>ws. l_writes l' = ws @ [(base + i, k_CPRD k, 255 * m)]"
    by (simp_all add: l'_def pwmled_setup_def pwm_channel_writel_def Let_def m_def assms(1))
  have "unat m \<le> unat (of_nat (ch_mck (chans (l_pwm l) (base + i))) div push_bit 5 1 div 100 :: reg) div 255"
    unfolding m_def by (simp add: unat_div)
  also have "\<dots> \<le> 2 ^ 32 div 255"
    by (rule div_le_mono) (rule order.strict_implies_order, rule unat_32)
  finally have lt: "unat m * 255 < 2 ^ 32" by simp
  have b: "unat b \<le> 255" using assms(2) by (simp add: word_le_nat_alt)
  have "unat m * unat b < 2 ^ 32" by (rule le_less_trans [OF mult_le_mono2 [OF b] lt])
  then have d: "unat (m * b) = unat m * unat b" by (intro unat_mult_lem [THEN iffD1]) simp
  have p: "unat (255 * m) = 255 * unat m" using lt by (subst unat_mult_lem [THEN iffD1]) (simp_all add: mult.commute)
  have "m * b \<le> 255 * m" using d p b by (simp add: word_le_nat_alt mult.commute)
  then show ?thesis using m d by (auto simp: pwmled_brightness_def pwm_channel_writel_def)
qed

lemma pwmled_duty_in_period_witness:
  "\<exists>ws p d. l_writes (pwmled_setup led_wit 20 1 \<lparr>d_gpio = 1, d_active_low = True\<rparr> led_wit_state) = ws @ [(21, 8, p)] \<and>
     d \<le> p \<and> unat d = unat (l_mult (pwmled_setup led_wit 20 1 \<lparr>d_gpio = 1, d_active_low = True\<rparr> led_wit_state) 1) * 200"
proof -
  have "k_LED_FULL led_wit = 255" "(200 :: reg) \<le> 255" "k_CPRD led_wit = 8" "20 + 1 = (21 :: nat)" "unat (200 :: reg) = 200"
    by (simp_all add: led_wit_def)
  then show ?thesis
    using pwmled_duty_in_period [of led_wit 200 20 1 "\<lparr>d_gpio = 1, d_active_low = True\<rparr>" led_wit_state] by metis
qed

end
