(* ===== verification/Fb_Draw.thy ===== *)
theory Fb_Draw
  imports Bytes
begin

text \<open>
  \<open>drivers/video/fb_draw.h\<close> and the screen memory of a packed-pixel frame buffer, for \<open>cfbfillrect.c\<close>
  and \<open>cfbcopyarea.c\<close> on a processor with 32-bit words.

  The screen is a map from word addresses (an address is the byte address divided by 4) to words; an
  access to an address that is not mapped is \<open>None\<close>. \<open>FB_SHIFT_HIGH(~0UL, i)\<close> comes from a header that is
  not part of the repository and depends on the byte order: it is a parameter \<open>sh\<close>, and the contract
  \<open>fb_order\<close> says what the drawing code relies on. The reversed order of pixels in a byte is an option
  that the board does not set.
\<close>

type_synonym vmem = "int \<Rightarrow> u32 option"

definition fb_comp :: "u32 \<Rightarrow> u32 \<Rightarrow> u32 \<Rightarrow> u32" where
  "fb_comp a b m = ((a XOR b) AND m) XOR b"

text \<open>A pattern with the pixel in every place; \<open>None\<close> is the panic.\<close>

definition pixel_to_pat :: "u32 \<Rightarrow> u32 \<Rightarrow> u32 option" where
  "pixel_to_pat bpp pixel =
     (if bpp = 1 then Some (0xffffffff * pixel)
      else if bpp = 2 then Some (0x55555555 * pixel)
      else if bpp = 4 then Some (0x11111111 * pixel)
      else if bpp = 8 then Some (0x01010101 * pixel)
      else if bpp = 12 then Some (0x00001001 * pixel)
      else if bpp = 16 then Some (0x00010001 * pixel)
      else if bpp = 24 then Some (0x00000001 * pixel)
      else if bpp = 32 then Some (0x00000001 * pixel)
      else None)"

text \<open>A word is read, changed under a mask and written back; a word is replaced.\<close>

definition wr_masked :: "(u32 \<Rightarrow> u32) \<Rightarrow> u32 \<Rightarrow> int \<Rightarrow> vmem \<Rightarrow> vmem option" where
  "wr_masked f m a v = (case v a of None \<Rightarrow> None | Some w \<Rightarrow> Some (v(a \<mapsto> fb_comp (f w) w m)))"

definition wr_word :: "(u32 \<Rightarrow> u32) \<Rightarrow> int \<Rightarrow> vmem \<Rightarrow> vmem option" where
  "wr_word f a v = (case v a of None \<Rightarrow> None | Some w \<Rightarrow> Some (v(a \<mapsto> f w)))"

section \<open>The order of the pixels\<close>

text \<open>
  \<open>pos j\<close> is the place of the \<open>j\<close>th bit of a word on the screen. \<open>sh k\<close> has the bits from the \<open>k\<close>th on.
\<close>

locale fb_order =
  fixes sh :: "nat \<Rightarrow> u32" and pos :: "nat \<Rightarrow> nat"
  assumes sh_bit: "k < 32 \<Longrightarrow> j < 32 \<Longrightarrow> bit (sh k) (pos j) \<longleftrightarrow> k \<le> j"
    and pos_range: "pos ` {..<32} = {..<32}"
begin

lemma pos_less: "j < 32 \<Longrightarrow> pos j < 32"
  using pos_range by blast

lemma pos_inj: "i < 32 \<Longrightarrow> j < 32 \<Longrightarrow> pos i = pos j \<longleftrightarrow> i = j"
proof -
  have "inj_on pos {..<32}" by (rule eq_card_imp_inj_on) (simp_all add: pos_range)
  then show "i < 32 \<Longrightarrow> j < 32 \<Longrightarrow> pos i = pos j \<longleftrightarrow> i = j" by (auto simp: inj_on_def)
qed

lemma word_eq_pos: "(a :: u32) = b \<longleftrightarrow> (\<forall>j<32. bit a (pos j) = bit b (pos j))"
proof
  assume h: "\<forall>j<32. bit a (pos j) = bit b (pos j)"
  show "a = b"
  proof (rule bit_word_eqI)
    fix n assume "n < LENGTH(32)"
    then obtain j where "j < 32" "n = pos j" using pos_range by auto
    then show "bit a n = bit b n" using h by simp
  qed
qed simp

lemma sh_0: "sh 0 = - 1"
  using sh_bit [of 0] pos_less by (auto simp: word_eq_pos)

lemma sh_not_ones: "0 < k \<Longrightarrow> k < 32 \<Longrightarrow> sh k \<noteq> - 1"
  using sh_bit [of k 0] pos_less [of 0] by (auto simp: word_eq_pos intro!: exI [of _ 0])

lemma sh_not_zero: "k < 32 \<Longrightarrow> sh k \<noteq> 0"
  using sh_bit [of k 31] by (auto simp: word_eq_pos intro!: exI [of _ 31])

end

text \<open>A processor with the most significant byte first, such as the AVR32, and one with it last.\<close>

definition sh_be :: "nat \<Rightarrow> u32" where "sh_be k = drop_bit k (- 1)"
definition sh_le :: "nat \<Rightarrow> u32" where "sh_le k = push_bit k (- 1)"

lemma rev_image: "(\<lambda>j. 31 - j) ` {..<32} = {..<(32 :: nat)}"
proof
  show "{..<32} \<subseteq> (\<lambda>j. 31 - j) ` {..<(32 :: nat)}"
  proof
    fix x :: nat assume "x \<in> {..<32}"
    then have "x = 31 - (31 - x)" "31 - x \<in> {..<32}" by auto
    then show "x \<in> (\<lambda>j. 31 - j) ` {..<32}" by blast
  qed
qed auto

interpretation be: fb_order sh_be "\<lambda>j. 31 - j"
  by unfold_locales (auto simp: sh_be_def bit_simps rev_image)

interpretation le: fb_order sh_le "\<lambda>j. j"
  by unfold_locales (auto simp: sh_le_def bit_simps)

section \<open>Painting\<close>

lemma bit_comp: "bit (fb_comp a b m) k \<longleftrightarrow> (if bit m k then bit a k else bit b k)"
  by (auto simp: fb_comp_def bit_simps)

text \<open>The screen with each word changed under its mask.\<close>

definition paint :: "(int \<Rightarrow> u32 \<Rightarrow> u32) \<Rightarrow> (int \<Rightarrow> u32) \<Rightarrow> vmem \<Rightarrow> vmem" where
  "paint f m v a = map_option (\<lambda>w. fb_comp (f a w) w (m a)) (v a)"

definition fbit :: "(nat \<Rightarrow> nat) \<Rightarrow> vmem \<Rightarrow> int \<Rightarrow> bool" where
  "fbit pos v b = (case v (b div 32) of None \<Rightarrow> False | Some w \<Rightarrow> bit w (pos (nat (b mod 32))))"

text \<open>The mask of the bits from \<open>s\<close> up to \<open>e\<close>, of a word that lies at \<open>a\<close>.\<close>

definition covers :: "(nat \<Rightarrow> nat) \<Rightarrow> (int \<Rightarrow> u32) \<Rightarrow> int \<Rightarrow> int \<Rightarrow> bool" where
  "covers pos m s e \<longleftrightarrow> (\<forall>a. \<forall>j<32. bit (m a) (pos j) \<longleftrightarrow> s \<le> 32 * a + int j \<and> 32 * a + int j < e)"

lemma dom_paint [simp]: "dom (paint f m v) = dom v"
  by (auto simp: paint_def dom_def)

lemma fbit_paint:
  assumes "covers pos m s e" "v (b div 32) = Some w"
  shows "fbit pos (paint f m v) b = (if s \<le> b \<and> b < e then bit (f (b div 32) w) (pos (nat (b mod 32))) else fbit pos v b)"
proof -
  have "32 * (b div 32) + int (nat (b mod 32)) = b" by simp
  then have "bit (m (b div 32)) (pos (nat (b mod 32))) \<longleftrightarrow> s \<le> b \<and> b < e"
    using assms(1) unfolding covers_def by (metis nat_less_iff pos_mod_bound pos_mod_sign zero_less_numeral of_nat_numeral)
  then show ?thesis using assms(2) by (simp add: fbit_def paint_def bit_comp)
qed

lemma fbit_paint_other: "v (b div 32) = None \<Longrightarrow> fbit pos (paint f m v) b = fbit pos v b"
  by (simp add: fbit_def paint_def)

end
