(* ===== verification/Fb_Fillrect.thy ===== *)
theory Fb_Fillrect
  imports Fb_Draw
begin

text \<open>
  \<open>drivers/video/cfbfillrect.c\<close>: filling a rectangle, aligned and unaligned, by copying or by inverting.

  \<open>f\<close> is the function of the old word that the writes of a run apply: a pattern, or an exclusive or with
  one. Counts and bit indices are 32-bit words as in the code; \<open>dst\<close> is a word address.
\<close>

definition BITS :: u32 where "BITS = 32"

section \<open>Runs of whole words\<close>

fun run_words :: "(u32 \<Rightarrow> u32) \<Rightarrow> nat \<Rightarrow> int \<Rightarrow> vmem \<Rightarrow> vmem option" where
  "run_words f 0 dst v = Some v"
| "run_words f (Suc n) dst v = (case wr_word f dst v of None \<Rightarrow> None | Some v \<Rightarrow> run_words f n (dst + 1) v)"

text \<open>The loop that is unrolled eight times; what is left of the count, and the address.\<close>

function run_eights :: "(u32 \<Rightarrow> u32) \<Rightarrow> u32 \<Rightarrow> int \<Rightarrow> vmem \<Rightarrow> (u32 \<times> int \<times> vmem) option" where
  "run_eights f n dst v =
     (if n \<ge> 8 then (case run_words f 8 dst v of None \<Rightarrow> None | Some v \<Rightarrow> run_eights f (n - 8) (dst + 8) v)
      else Some (n, dst, v))"
  by pat_completeness auto

lemma less_minus_8: "8 \<le> n \<Longrightarrow> unat (n - 8 :: u32) = unat n - 8"
  by (simp add: unat_sub)

termination run_eights
  by (relation "measure (\<lambda>(f, n, dst, v). unat n)") (auto simp: less_minus_8 word_le_nat_alt)

declare run_eights.simps [simp del]

definition main_chunk :: "(u32 \<Rightarrow> u32) \<Rightarrow> u32 \<Rightarrow> int \<Rightarrow> vmem \<Rightarrow> (int \<times> vmem) option" where
  "main_chunk f n dst v =
     (case run_eights f n dst v of
        None \<Rightarrow> None
      | Some (n, dst, v) \<Rightarrow> map_option (\<lambda>v. (dst + int (unat n), v)) (run_words f (unat n) dst v))"

section \<open>A line\<close>

definition bitfill_aligned :: "(nat \<Rightarrow> u32) \<Rightarrow> int \<Rightarrow> u32 \<Rightarrow> u32 \<Rightarrow> u32 \<Rightarrow> vmem \<Rightarrow> vmem option" where
  "bitfill_aligned sh dst dst_idx pat n v =
     (if n = 0 then Some v
      else
        (let first = sh (unat dst_idx); last = NOT (sh (unat ((dst_idx + n) mod BITS))) in
         if dst_idx + n \<le> BITS then
           wr_masked (\<lambda>_. pat) (if last \<noteq> 0 then first AND last else first) dst v
         else
           (case (if first \<noteq> - 1 then
                    map_option (\<lambda>v. (dst + 1, n - (BITS - dst_idx), v)) (wr_masked (\<lambda>_. pat) first dst v)
                  else Some (dst, n, v)) of
              None \<Rightarrow> None
            | Some (dst, n, v) \<Rightarrow>
                (case main_chunk (\<lambda>_. pat) (n div BITS) dst v of
                   None \<Rightarrow> None
                 | Some (dst, v) \<Rightarrow> if last \<noteq> 0 then wr_masked (\<lambda>_. pat) last dst v else Some v))))"

definition bitfill_aligned_rev :: "(nat \<Rightarrow> u32) \<Rightarrow> int \<Rightarrow> u32 \<Rightarrow> u32 \<Rightarrow> u32 \<Rightarrow> vmem \<Rightarrow> vmem option" where
  "bitfill_aligned_rev sh dst dst_idx pat n v =
     (if n = 0 then Some v
      else
        (let first = sh (unat dst_idx); last = NOT (sh (unat ((dst_idx + n) mod BITS))) in
         if dst_idx + n \<le> BITS then
           wr_masked (\<lambda>dat. dat XOR pat) (if last \<noteq> 0 then first AND last else first) dst v
         else
           (case (if first \<noteq> 0 then
                    map_option (\<lambda>v. (dst + 1, n - (BITS - dst_idx), v)) (wr_masked (\<lambda>dat. dat XOR pat) first dst v)
                  else Some (dst, n, v)) of
              None \<Rightarrow> None
            | Some (dst, n, v) \<Rightarrow>
                (case main_chunk (\<lambda>dat. dat XOR pat) (n div BITS) dst v of
                   None \<Rightarrow> None
                 | Some (dst, v) \<Rightarrow> if last \<noteq> 0 then wr_masked (\<lambda>dat. dat XOR pat) last dst v else Some v))))"

text \<open>The unaligned forms turn the pattern on after each word.\<close>

definition rot_pat :: "nat \<Rightarrow> nat \<Rightarrow> u32 \<Rightarrow> u32" where
  "rot_pat left right pat = push_bit left pat OR drop_bit right pat"

fun turn_words :: "(u32 \<Rightarrow> u32 \<Rightarrow> u32) \<Rightarrow> nat \<Rightarrow> nat \<Rightarrow> nat \<Rightarrow> int \<Rightarrow> u32 \<Rightarrow> vmem \<Rightarrow> (u32 \<times> vmem) option" where
  "turn_words f left right 0 dst pat v = Some (pat, v)"
| "turn_words f left right (Suc n) dst pat v =
     (case wr_word (f pat) dst v of
        None \<Rightarrow> None
      | Some v \<Rightarrow> turn_words f left right n (dst + 1) (rot_pat left right pat) v)"

function turn_fours :: "(u32 \<Rightarrow> u32 \<Rightarrow> u32) \<Rightarrow> nat \<Rightarrow> nat \<Rightarrow> u32 \<Rightarrow> int \<Rightarrow> u32 \<Rightarrow> vmem \<Rightarrow> (u32 \<times> int \<times> u32 \<times> vmem) option" where
  "turn_fours f left right n dst pat v =
     (if n \<ge> 4 then
        (case turn_words f left right 4 dst pat v of
           None \<Rightarrow> None
         | Some (pat, v) \<Rightarrow> turn_fours f left right (n - 4) (dst + 4) pat v)
      else Some (n, dst, pat, v))"
  by pat_completeness auto

lemma less_minus_4: "4 \<le> n \<Longrightarrow> unat (n - 4 :: u32) = unat n - 4"
  by (simp add: unat_sub)

termination turn_fours
  by (relation "measure (\<lambda>(f, left, right, n, dst, pat, v). unat n)") (auto simp: less_minus_4 word_le_nat_alt)

declare turn_fours.simps [simp del]

definition turn_chunk :: "(u32 \<Rightarrow> u32 \<Rightarrow> u32) \<Rightarrow> nat \<Rightarrow> nat \<Rightarrow> u32 \<Rightarrow> int \<Rightarrow> u32 \<Rightarrow> vmem \<Rightarrow> (int \<times> u32 \<times> vmem) option" where
  "turn_chunk f left right n dst pat v =
     (case turn_fours f left right n dst pat v of
        None \<Rightarrow> None
      | Some (n, dst, pat, v) \<Rightarrow>
          map_option (\<lambda>(pat, v). (dst + int (unat n), pat, v)) (turn_words f left right (unat n) dst pat v))"

definition bitfill_unaligned :: "(nat \<Rightarrow> u32) \<Rightarrow> int \<Rightarrow> u32 \<Rightarrow> u32 \<Rightarrow> nat \<Rightarrow> nat \<Rightarrow> u32 \<Rightarrow> vmem \<Rightarrow> vmem option" where
  "bitfill_unaligned sh dst dst_idx pat left right n v =
     (if n = 0 then Some v
      else
        (let first = sh (unat dst_idx); last = NOT (sh (unat ((dst_idx + n) mod BITS))) in
         if dst_idx + n \<le> BITS then
           wr_masked (\<lambda>_. pat) (if last \<noteq> 0 then first AND last else first) dst v
         else
           (case (if first \<noteq> 0 then
                    map_option (\<lambda>v. (dst + 1, rot_pat left right pat, n - (BITS - dst_idx), v))
                      (wr_masked (\<lambda>_. pat) first dst v)
                  else Some (dst, pat, n, v)) of
              None \<Rightarrow> None
            | Some (dst, pat, n, v) \<Rightarrow>
                (case turn_chunk (\<lambda>pat _. pat) left right (n div BITS) dst pat v of
                   None \<Rightarrow> None
                 | Some (dst, pat, v) \<Rightarrow> if last \<noteq> 0 then wr_masked (\<lambda>_. pat) first dst v else Some v))))"

definition bitfill_unaligned_rev :: "(nat \<Rightarrow> u32) \<Rightarrow> int \<Rightarrow> u32 \<Rightarrow> u32 \<Rightarrow> nat \<Rightarrow> nat \<Rightarrow> u32 \<Rightarrow> vmem \<Rightarrow> vmem option" where
  "bitfill_unaligned_rev sh dst dst_idx pat left right n v =
     (if n = 0 then Some v
      else
        (let first = sh (unat dst_idx); last = NOT (sh (unat ((dst_idx + n) mod BITS))) in
         if dst_idx + n \<le> BITS then
           wr_masked (\<lambda>dat. dat XOR pat) (if last \<noteq> 0 then first AND last else first) dst v
         else
           (case (if first \<noteq> 0 then
                    map_option (\<lambda>v. (dst + 1, rot_pat left right pat, n - (BITS - dst_idx), v))
                      (wr_masked (\<lambda>dat. dat XOR pat) first dst v)
                  else Some (dst, pat, n, v)) of
              None \<Rightarrow> None
            | Some (dst, pat, n, v) \<Rightarrow>
                (case turn_chunk (\<lambda>pat dat. dat XOR pat) left right (n div BITS) dst pat v of
                   None \<Rightarrow> None
                 | Some (dst, pat, v) \<Rightarrow> if last \<noteq> 0 then wr_masked (\<lambda>dat. dat XOR pat) last dst v else Some v))))"

section \<open>The rectangle\<close>

datatype rop = ROP_COPY | ROP_XOR | ROP_other

record fb_fillrect =
  fr_dx :: u32
  fr_dy :: u32
  fr_width :: u32
  fr_height :: u32
  fr_color :: u32
  fr_rop :: rop

text \<open>\<open>fi_palette_visual\<close>: the visual is a true or direct colour one, whose colours go through the palette.\<close>

record fb_info =
  fi_running :: bool
  fi_palette_visual :: bool
  fi_palette :: "u32 list"
  fi_bpp :: u32
  fi_screen_base :: u32
  fi_line_length :: u32

text \<open>\<open>dst += dst_idx >> (ffs(bits) - 1)\<close>, with \<open>dst_idx\<close> signed, and \<open>dst_idx &= bits - 1\<close>.\<close>

definition dst_move :: "int \<Rightarrow> u32 \<Rightarrow> int" where
  "dst_move dst dst_idx = dst + sint dst_idx div 32"

fun fill_lines :: "(int \<Rightarrow> u32 \<Rightarrow> vmem \<Rightarrow> vmem option) \<Rightarrow> u32 \<Rightarrow> nat \<Rightarrow> int \<Rightarrow> u32 \<Rightarrow> vmem \<Rightarrow> vmem option" where
  "fill_lines op line_bits 0 dst dst_idx v = Some v"
| "fill_lines op line_bits (Suc h) dst dst_idx v =
     (let dst = dst_move dst dst_idx; dst_idx = dst_idx AND (BITS - 1) in
      case op dst dst_idx v of
        None \<Rightarrow> None
      | Some v \<Rightarrow> fill_lines op line_bits h dst (dst_idx + line_bits) v)"

fun turn_lines :: "(u32 \<Rightarrow> int \<Rightarrow> u32 \<Rightarrow> vmem \<Rightarrow> vmem option) \<Rightarrow> u32 \<Rightarrow> u32 \<Rightarrow> nat \<Rightarrow> u32 \<Rightarrow> int \<Rightarrow> u32 \<Rightarrow> vmem \<Rightarrow> vmem option" where
  "turn_lines op line_bits bpp 0 pat dst dst_idx v = Some v"
| "turn_lines op line_bits bpp (Suc h) pat dst dst_idx v =
     (let dst = dst_move dst dst_idx; dst_idx = dst_idx AND (BITS - 1) in
      case op pat dst dst_idx v of
        None \<Rightarrow> None
      | Some v \<Rightarrow>
          (let r = line_bits mod bpp
           in turn_lines op line_bits bpp h (push_bit (unat (bpp - r)) pat OR drop_bit (unat r) pat) dst
                (dst_idx + line_bits) v))"

definition fill_color :: "fb_info \<Rightarrow> fb_fillrect \<Rightarrow> u32 option" where
  "fill_color p rect =
     (if fi_palette_visual p then
        (if unat (fr_color rect) < length (fi_palette p) then Some (fi_palette p ! unat (fr_color rect)) else None)
      else Some (fr_color rect))"

definition cfb_fillrect :: "(nat \<Rightarrow> u32) \<Rightarrow> fb_info \<Rightarrow> fb_fillrect \<Rightarrow> vmem \<Rightarrow> vmem option" where
  "cfb_fillrect sh p rect v =
     (if \<not> fi_running p then Some v
      else case (case fill_color p rect of None \<Rightarrow> None | Some fg \<Rightarrow> pixel_to_pat (fi_bpp p) fg) of
        None \<Rightarrow> None
      | Some pat \<Rightarrow>
          (let bpp = fi_bpp p;
               dst = int (unat (fi_screen_base p AND NOT 3)) div 4;
               dst_idx = (fi_screen_base p AND 3) * 8 + (fr_dy rect * fi_line_length p * 8 + fr_dx rect * bpp);
               n = fr_width rect * bpp;
               line_bits = fi_line_length p * 8;
               left = BITS mod bpp
           in if left = 0 then
                fill_lines (\<lambda>dst idx v.
                    if fr_rop rect = ROP_XOR then bitfill_aligned_rev sh dst idx pat n v
                    else bitfill_aligned sh dst idx pat n v)
                  line_bits (unat (fr_height rect)) dst dst_idx v
              else
                (let rot = (left - dst_idx) mod bpp;
                     pat = push_bit (unat rot) pat OR drop_bit (unat (bpp - rot)) pat;
                     right = bpp - left
                 in turn_lines (\<lambda>pat dst idx v.
                      if fr_rop rect = ROP_XOR then bitfill_unaligned_rev sh dst idx pat (unat left) (unat right) n v
                      else bitfill_unaligned sh dst idx pat (unat left) (unat right) n v)
                    line_bits bpp (unat (fr_height rect)) pat dst dst_idx v)))"

end
