(* ===== verification/Fb_Fillrect_Props.thy ===== *)
theory Fb_Fillrect_Props
  imports Fb_Fillrect
begin

text \<open>
  Filling: a line operation paints exactly the bits it is given, whatever the byte order; a rectangle
  gets its colour, or is inverted with it, and nothing else on the screen changes.
\<close>

section \<open>Runs of whole words\<close>

definition mapped :: "vmem \<Rightarrow> int \<Rightarrow> int \<Rightarrow> bool" where
  "mapped v lo hi \<longleftrightarrow> (\<forall>a. lo \<le> a \<and> a < hi \<longrightarrow> v a \<noteq> None)"

lemma run_words_eq:
  "mapped v dst (dst + int n) \<Longrightarrow>
     run_words f n dst v = Some (\<lambda>a. if dst \<le> a \<and> a < dst + int n then map_option f (v a) else v a)"
proof (induction n arbitrary: dst v)
  case (Suc n)
  have "v dst \<noteq> None" using Suc.prems by (auto simp: mapped_def)
  then obtain w where w: "v dst = Some w" by blast
  have "mapped (v(dst \<mapsto> f w)) (dst + 1) (dst + 1 + int n)" using Suc.prems by (auto simp: mapped_def)
  note ih = Suc.IH [OF this]
  have "run_words f (Suc n) dst v = run_words f n (dst + 1) (v(dst \<mapsto> f w))" using w by (simp add: wr_word_def)
  then show ?case unfolding ih using w by (auto intro!: ext)
qed (auto intro!: ext)

lemma run_words_add:
  "run_words f (m + n) dst v = (case run_words f m dst v of None \<Rightarrow> None | Some v \<Rightarrow> run_words f n (dst + int m) v)"
  by (induction m arbitrary: dst v) (auto simp: add.assoc split: option.split)

lemma main_chunk_eq: "main_chunk f n dst v = map_option (\<lambda>v. (dst + int (unat n), v)) (run_words f (unat n) dst v)"
proof (induction f n dst v rule: run_eights.induct)
  case (1 f n dst v)
  show ?case
  proof (cases "8 \<le> n")
    case True
    then have n: "unat n = 8 + unat (n - 8)" by (simp add: less_minus_8 word_le_nat_alt)
    have "main_chunk f n dst v = (case run_words f 8 dst v of None \<Rightarrow> None | Some v \<Rightarrow> main_chunk f (n - 8) (dst + 8) v)"
      unfolding main_chunk_def run_eights.simps [of f n dst v] using True by (simp split: option.split)
    also have "\<dots> = map_option (\<lambda>v. (dst + int (unat n), v)) (run_words f (unat n) dst v)"
      using 1 True unfolding n run_words_add by (auto simp: algebra_simps split: option.split)
    finally show ?thesis .
  next
    case False
    then show ?thesis by (simp add: main_chunk_def run_eights.simps [of f n dst v])
  qed
qed

section \<open>A line\<close>

text \<open>The two aligned forms differ in the function and in the test for a leading part of a word.\<close>

definition bitfill :: "(nat \<Rightarrow> u32) \<Rightarrow> (u32 \<Rightarrow> bool) \<Rightarrow> (u32 \<Rightarrow> u32) \<Rightarrow> int \<Rightarrow> u32 \<Rightarrow> u32 \<Rightarrow> vmem \<Rightarrow> vmem option" where
  "bitfill sh lead f dst dst_idx n v =
     (if n = 0 then Some v
      else
        (let first = sh (unat dst_idx); last = NOT (sh (unat ((dst_idx + n) mod BITS))) in
         if dst_idx + n \<le> BITS then wr_masked f (if last \<noteq> 0 then first AND last else first) dst v
         else
           (case (if lead first then map_option (\<lambda>v. (dst + 1, n - (BITS - dst_idx), v)) (wr_masked f first dst v)
                  else Some (dst, n, v)) of
              None \<Rightarrow> None
            | Some (dst, n, v) \<Rightarrow>
                (case main_chunk f (n div BITS) dst v of
                   None \<Rightarrow> None
                 | Some (dst, v) \<Rightarrow> if last \<noteq> 0 then wr_masked f last dst v else Some v))))"

lemma bitfill_forms:
  "bitfill_aligned sh dst idx pat n v = bitfill sh (\<lambda>w. w \<noteq> - 1) (\<lambda>_. pat) dst idx n v"
  "bitfill_aligned_rev sh dst idx pat n v = bitfill sh (\<lambda>w. w \<noteq> 0) (\<lambda>w. w XOR pat) dst idx n v"
  by (simp_all add: bitfill_aligned_def bitfill_aligned_rev_def bitfill_def)

lemma comp_ones [simp]: "fb_comp a b (- 1) = a" "fb_comp a b 0 = b"
  by (simp_all add: fb_comp_def xor.assoc)

lemma wr_masked_eq:
  "v a \<noteq> None \<Longrightarrow> wr_masked f m a v = Some (\<lambda>x. if x = a then map_option (\<lambda>w. fb_comp (f w) w m) (v x) else v x)"
  by (auto simp: wr_masked_def fun_eq_iff)

definition bits_mapped :: "vmem \<Rightarrow> int \<Rightarrow> int \<Rightarrow> bool" where
  "bits_mapped v s e \<longleftrightarrow> (\<forall>b. s \<le> b \<and> b < e \<longrightarrow> v (b div 32) \<noteq> None)"

definition in_lines :: "int \<Rightarrow> int \<Rightarrow> int \<Rightarrow> nat \<Rightarrow> int \<Rightarrow> bool" where
  "in_lines p len w h b \<longleftrightarrow> (\<exists>y<h. p + int y * len \<le> b \<and> b < p + int y * len + w)"

lemma in_lines_Suc:
  "in_lines p len w (Suc h) b \<longleftrightarrow> (p \<le> b \<and> b < p + w) \<or> in_lines (p + len) len w h b"
proof -
  have "in_lines p len w (Suc h) b \<longleftrightarrow> (\<exists>y<Suc h. p + int y * len \<le> b \<and> b < p + int y * len + w)" by (simp add: in_lines_def)
  also have "\<dots> \<longleftrightarrow> (p \<le> b \<and> b < p + w) \<or> (\<exists>y<h. p + int (Suc y) * len \<le> b \<and> b < p + int (Suc y) * len + w)"
    unfolding Ex_less_Suc2 by simp
  also have "\<dots> \<longleftrightarrow> (p \<le> b \<and> b < p + w) \<or> in_lines (p + len) len w h b"
    by (simp add: in_lines_def algebra_simps)
  finally show ?thesis .
qed

lemma in_lines_above: "0 \<le> len \<Longrightarrow> in_lines p len w h b \<Longrightarrow> p \<le> b"
  unfolding in_lines_def by (metis add_increasing2 mult_nonneg_nonneg of_nat_0_le_iff order_trans order_refl)

lemma unat_low: "unat ((w :: u32) AND (BITS - 1)) = unat w mod 32"
proof -
  have "BITS - 1 = mask 5" by code_simp
  then have "w AND (BITS - 1) = take_bit 5 w" by (simp add: take_bit_eq_mask)
  then show ?thesis by (simp add: take_bit_eq_mod unat_mod)
qed

context fb_order
begin

lemma above: "dst < (x :: int) \<Longrightarrow> \<exists>k>0. x = dst + int k"
  by (intro exI [of _ "nat (x - dst)"]) simp

lemma paint_zero: "(\<And>a. m a = 0) \<Longrightarrow> paint f m v = v"
  by (auto simp: paint_def fun_eq_iff intro!: option.map_ident)

text \<open>The masks of the bits from \<open>s\<close> up to \<open>e\<close>.\<close>

definition sh' :: "int \<Rightarrow> u32" where
  "sh' x = (if x \<le> 0 then - 1 else if x < 32 then sh (nat x) else 0)"

definition rmask :: "int \<Rightarrow> int \<Rightarrow> int \<Rightarrow> u32" where
  "rmask s e a = sh' (s - 32 * a) AND NOT (sh' (e - 32 * a))"

lemma bit_sh': "j < 32 \<Longrightarrow> bit (sh' x) (pos j) \<longleftrightarrow> x \<le> int j"
  using sh_bit [of "nat x" j] pos_less [of j] by (auto simp: sh'_def)

lemma covers_rmask: "covers pos (rmask s e) s e"
  using pos_less by (auto simp: covers_def rmask_def bit_simps bit_sh')

lemma sh'_simps:
  "x \<le> 0 \<Longrightarrow> sh' x = - 1" "32 \<le> x \<Longrightarrow> sh' x = 0" "k < 32 \<Longrightarrow> sh' (int k) = sh k"
  by (auto simp: sh'_def sh_0)

lemma rmask_at:
  fixes dst :: int and I E k :: nat
  assumes "I < 32" "0 < E"
  defines "s \<equiv> 32 * dst + int I" and "e \<equiv> 32 * dst + int E"
  shows "a < dst \<Longrightarrow> rmask s e a = 0"
    and "rmask s e dst = sh I AND NOT (sh' (int E))"
    and "0 < k \<Longrightarrow> 32 * k + 32 \<le> E \<Longrightarrow> rmask s e (dst + int k) = - 1"
    and "0 < k \<Longrightarrow> E div 32 = k \<Longrightarrow> rmask s e (dst + int k) = NOT (sh (E mod 32))"
    and "0 < k \<Longrightarrow> E div 32 < k \<Longrightarrow> rmask s e (dst + int k) = 0"
proof -
  have d: "s - 32 * (dst + int k) = int I - 32 * int k" "e - 32 * (dst + int k) = int E - 32 * int k" for k
    by (simp_all add: s_def e_def)
  show "rmask s e a = 0" if "a < dst"
  proof -
    have "32 \<le> s - 32 * a" using that by (simp add: s_def)
    then show ?thesis by (simp add: rmask_def sh'_simps)
  qed
  show "rmask s e dst = sh I AND NOT (sh' (int E))"
    using d [of 0] assms(1) by (simp add: rmask_def sh'_simps)
  assume k: "0 < k"
  then have "sh' (int I - 32 * int k) = - 1" using assms(1) by (intro sh'_simps) auto
  then have r: "rmask s e (dst + int k) = NOT (sh' (int E - 32 * int k))" unfolding rmask_def d by simp
  show "rmask s e (dst + int k) = - 1" if "32 * k + 32 \<le> E"
  proof -
    have "32 \<le> int E - 32 * int k" using that by simp
    then show ?thesis unfolding r by (simp add: sh'_simps)
  qed
  show "rmask s e (dst + int k) = NOT (sh (E mod 32))" if "E div 32 = k"
  proof -
    have "int E - 32 * int k = int (E mod 32)" using that by (metis add_diff_cancel_left' mult_div_mod_eq of_nat_add of_nat_mult of_nat_numeral)
    then show ?thesis unfolding r by (simp add: sh'_simps)
  qed
  show "rmask s e (dst + int k) = 0" if "E div 32 < k"
  proof -
    have "int E - 32 * int k \<le> 0" using that by (simp add: div_less_iff_less_mult)
    then show ?thesis unfolding r by (simp add: sh'_simps)
  qed
qed

lemma bitfill_paint:
  assumes idx: "unat dst_idx < 32" "unat dst_idx + unat n < 2 ^ 32"
    and lead: "\<not> lead (sh (unat dst_idx)) \<Longrightarrow> unat dst_idx = 0"
    and m: "mapped v dst (dst + int ((unat dst_idx + unat n + 31) div 32))"
  defines "s \<equiv> 32 * dst + int (unat dst_idx)"
  shows "bitfill sh lead f dst dst_idx n v = Some (paint (\<lambda>_. f) (rmask s (s + int (unat n))) v)"
proof (cases "n = 0")
  case True
  have "rmask s (s + int (unat n)) a = 0" for a using True by (simp add: rmask_def)
  then show ?thesis using True by (simp add: bitfill_def paint_zero)
next
  case False
  define I N E where "I = unat dst_idx" and "N = unat n" and "E = I + N"
  have N: "0 < N" using False by (simp add: N_def unat_gt_0)
  have add: "unat (dst_idx + n) = E"
    using idx(2) by (simp add: E_def I_def N_def unat_word_ariths)
  have rem: "unat ((dst_idx + n) mod BITS) = E mod 32" by (simp add: unat_mod add BITS_def)
  have le: "dst_idx + n \<le> BITS \<longleftrightarrow> E \<le> 32" by (simp add: word_le_nat_alt add BITS_def)
  have s: "s = 32 * dst + int I" "s + int N = 32 * dst + int E" by (simp_all add: s_def I_def E_def)
  have I: "I < 32" "0 < E" using idx(1) N by (simp_all add: I_def E_def)
  note r = rmask_at [OF I, where dst = dst, folded s]
  note False_n = False
  define first last where "first = sh I" and "last = NOT (sh (E mod 32))"
  show ?thesis
  proof (cases "E \<le> 32")
    case True
    have "(E + 31) div 32 = 1" using True N E_def by (cases "E = 32") (auto simp: div_eq_dividend_iff intro: div_nat_eqI)
    then have d: "v dst \<noteq> None" using m by (simp add: mapped_def I_def [symmetric] N_def [symmetric] E_def [symmetric])
    define mk where "mk = (if last \<noteq> 0 then first AND last else first)"
    have r0: "rmask s (s + int N) dst = mk"
    proof (cases "E = 32")
      case True
      then show ?thesis using r(2) by (simp add: mk_def first_def last_def sh_0 sh'_simps)
    next
      case False
      then have lt: "E < 32" "0 < E" using True N E_def by auto
      then have "last = NOT (sh E)" "last \<noteq> 0" using sh_not_ones [of E] by (auto simp: last_def) (metis bit.double_compl bit.compl_zero)
      then show ?thesis using r(2) lt by (simp add: mk_def first_def sh'_simps)
    qed
    have rx: "rmask s (s + int N) x = 0" if nx: "x \<noteq> dst" for x
    proof (cases "x < dst")
      case False
      then obtain k where k: "x = dst + int k" "0 < k" using nx above [of dst x] by auto
      show ?thesis
      proof (cases "E div 32 = k")
        case True
        then have "E = 32" using \<open>E \<le> 32\<close> k(2) by auto
        then show ?thesis using r(4) [OF k(2) True] by (simp add: k(1) sh_0)
      next
        case False
        then have "E div 32 < k" using \<open>E \<le> 32\<close> k(2) by (cases "E = 32") auto
        then show ?thesis using r(5) [OF k(2)] by (simp add: k(1))
      qed
    qed (rule r(1))
    have "bitfill sh lead f dst dst_idx n v = wr_masked f mk dst v"
      using False_n True le rem by (simp add: bitfill_def mk_def first_def last_def I_def)
    also have "\<dots> = Some (paint (\<lambda>_. f) (rmask s (s + int N)) v)"
      unfolding wr_masked_eq [of v dst, OF d] using r0 rx by (auto simp: paint_def fun_eq_iff option.map_ident)
    finally show ?thesis by (simp add: N_def)
  next
    case False
    define q where "q = E div 32"
    have q: "0 < q" using False by (simp add: q_def div_greater_zero_iff)
    define fin where "fin = (\<lambda>a. if a = dst then map_option (\<lambda>w. fb_comp (f w) w first) (v a)
      else if dst < a \<and> a < dst + int q then map_option f (v a)
      else if a = dst + int q then map_option (\<lambda>w. fb_comp (f w) w last) (v a) else v a)"
    have fin: "fin = paint (\<lambda>_. f) (rmask s (s + int N)) v"
    proof
      fix a
      consider "a < dst" | "a = dst" | k where "0 < k" "a = dst + int k" "k < q" | "a = dst + int q"
        | k where "a = dst + int k" "q < k"
        using above [of dst a] by (metis linorder_neqE not_less_iff_gr_or_eq)
      then show "fin a = paint (\<lambda>_. f) (rmask s (s + int N)) v a"
      proof cases
        case 1
        then show ?thesis using r(1) by (simp add: fin_def paint_def option.map_ident)
      next
        case 2
        have "sh' (int E) = 0" using False by (simp add: sh'_simps)
        then show ?thesis using r(2) 2 by (simp add: fin_def paint_def first_def)
      next
        case (3 k)
        then have "32 * k + 32 \<le> E" by (simp add: q_def)
        then show ?thesis using r(3) [of k] 3 by (simp add: fin_def paint_def)
      next
        case 4
        then show ?thesis using r(4) [OF q q_def [symmetric]] 4 q by (simp add: fin_def paint_def last_def)
      next
        case (5 k)
        then have "rmask s (s + int N) a = 0" using r(5) [of k] q by (simp add: q_def)
        then show ?thesis using 5 q by (simp add: fin_def paint_def option.map_ident)
      qed
    qed
    have mp: "mapped v dst (dst + int q)" "last \<noteq> 0 \<Longrightarrow> v (dst + int q) \<noteq> None"
    proof -
      have "q \<le> (E + 31) div 32" by (simp add: q_def div_le_mono)
      then show "mapped v dst (dst + int q)" using m by (simp add: mapped_def I_def [symmetric] N_def [symmetric] E_def [symmetric])
      assume "last \<noteq> 0"
      then have "E mod 32 \<noteq> 0" using sh_0 by (cases "E mod 32 = 0") (auto simp: last_def)
      moreover obtain r where "E mod 32 = r" "E = 32 * q + r" unfolding q_def by (metis mult_div_mod_eq)
      ultimately have "32 * Suc q \<le> E + 31" by simp
      then have "q < (E + 31) div 32" by (simp add: less_eq_div_iff_mult_less_eq Suc_le_eq [symmetric] mult.commute)
      then show "v (dst + int q) \<noteq> None" using m by (simp add: mapped_def I_def [symmetric] N_def [symmetric] E_def [symmetric])
    qed
    have d: "v dst \<noteq> None" using mp(1) q by (simp add: mapped_def)
    define mid where "mid = (\<lambda>a. if a = dst then map_option (\<lambda>w. fb_comp (f w) w first) (v a)
      else if dst < a \<and> a < dst + int q then map_option f (v a) else v a)"
    have chunk: "(case (if lead first then map_option (\<lambda>v. (dst + 1, n - (BITS - dst_idx), v)) (wr_masked f first dst v)
                  else Some (dst, n, v)) of None \<Rightarrow> None | Some (dst, n, v) \<Rightarrow> main_chunk f (n div BITS) dst v) =
        Some (dst + int q, mid)"
    proof (cases "lead first")
      case True
      define v1 where "v1 = (\<lambda>x. if x = dst then map_option (\<lambda>w. fb_comp (f w) w first) (v x) else v x)"
      have u: "unat (BITS - dst_idx) = 32 - I" using I(1) by (simp add: BITS_def I_def unat_sub word_le_nat_alt)
      then have "unat (n - (BITS - dst_idx)) = E - 32"
        using False I(1) by (simp add: unat_sub word_le_nat_alt N_def [symmetric] E_def)
      then have c: "unat ((n - (BITS - dst_idx)) div BITS) = q - 1" using False by (simp add: unat_div BITS_def q_def)
      have dst: "dst + 1 + int (q - 1) = dst + int q" using q by simp
      have "mapped v1 (dst + 1) (dst + 1 + int (q - 1))" unfolding dst using mp(1) by (auto simp: mapped_def v1_def)
      from run_words_eq [OF this, of f] have "main_chunk f ((n - (BITS - dst_idx)) div BITS) (dst + 1) v1 =
          Some (dst + int q, \<lambda>a. if dst + 1 \<le> a \<and> a < dst + int q then map_option f (v1 a) else v1 a)"
        unfolding main_chunk_eq c dst by simp
      moreover have "(\<lambda>a. if dst + 1 \<le> a \<and> a < dst + int q then map_option f (v1 a) else v1 a) = mid"
        by (auto simp: mid_def v1_def fun_eq_iff)
      ultimately show ?thesis using True by (simp add: wr_masked_eq [of v dst, OF d] v1_def [symmetric])
    next
      case no: False
      then have I0: "I = 0" using lead by (simp add: first_def I_def)
      then have c: "unat (n div BITS) = q" by (simp add: unat_div BITS_def q_def E_def N_def)
      have "main_chunk f (n div BITS) dst v =
          Some (dst + int q, \<lambda>a. if dst \<le> a \<and> a < dst + int q then map_option f (v a) else v a)"
        unfolding main_chunk_eq c run_words_eq [OF mp(1)] by simp
      moreover have "(\<lambda>a. if dst \<le> a \<and> a < dst + int q then map_option f (v a) else v a) = mid"
        using q by (auto simp: mid_def fun_eq_iff first_def I0 sh_0)
      ultimately show ?thesis using no by simp
    qed
    have "bitfill sh lead f dst dst_idx n v = (case (case (if lead first then map_option (\<lambda>v. (dst + 1, n - (BITS - dst_idx), v))
          (wr_masked f first dst v) else Some (dst, n, v)) of None \<Rightarrow> None | Some (dst, n, v) \<Rightarrow> main_chunk f (n div BITS) dst v) of
        None \<Rightarrow> None | Some (dst, v) \<Rightarrow> if last \<noteq> 0 then wr_masked f last dst v else Some v)"
      using False_n False le rem by (auto simp: bitfill_def first_def last_def I_def Let_def split: option.split)
    also have "\<dots> = (if last \<noteq> 0 then wr_masked f last (dst + int q) mid else Some mid)" unfolding chunk by simp
    also have "\<dots> = Some fin"
    proof (cases "last = 0")
      case True
      then show ?thesis by (auto simp: fin_def mid_def fun_eq_iff option.map_ident)
    next
      case False
      have "mid (dst + int q) = v (dst + int q)" using q by (simp add: mid_def)
      then show ?thesis using False mp(2) q by (auto simp: wr_masked_eq fin_def mid_def fun_eq_iff)
    qed
    finally show ?thesis using fin by (simp add: N_def)
  qed
qed

text \<open>The bits of a line, and of the lines of a rectangle.\<close>

lemma line_bits:
  assumes idx: "unat dst_idx < 32" "unat dst_idx + unat n < 2 ^ 32"
    and lead: "\<not> lead (sh (unat dst_idx)) \<Longrightarrow> unat dst_idx = 0"
    and m: "bits_mapped v s (s + int (unat n))"
    and f: "\<And>w k. k < 32 \<Longrightarrow> bit (f w) k = g (bit w k) k"
    and s: "s = 32 * dst + int (unat dst_idx)"
  shows "\<exists>v'. bitfill sh lead f dst dst_idx n v = Some v' \<and> dom v' = dom v \<and>
    (\<forall>b. fbit pos v' b = (if s \<le> b \<and> b < s + int (unat n) then g (fbit pos v b) (pos (nat (b mod 32))) else fbit pos v b))"
proof (cases "n = 0")
  case True
  then show ?thesis by (auto simp: bitfill_def)
next
  case False
  then have N: "0 < unat n" by (simp add: unat_gt_0)
  have "mapped v dst (dst + int ((unat dst_idx + unat n + 31) div 32))"
    unfolding mapped_def
  proof (intro allI impI)
    fix a assume a: "dst \<le> a \<and> a < dst + int ((unat dst_idx + unat n + 31) div 32)"
    let ?b = "max s (32 * a)"
    define k where "k = (unat dst_idx + unat n + 31) div 32"
    have "32 * k \<le> unat dst_idx + unat n + 31" by (simp add: k_def)
    then have "32 * int k \<le> int (unat dst_idx) + int (unat n) + 31" by linarith
    moreover have "a < dst + int k" using a by (simp add: k_def)
    ultimately have "32 * a < s + int (unat n)" unfolding s by linarith
    moreover have "s < s + int (unat n)" using N by linarith
    ultimately have "s \<le> ?b \<and> ?b < s + int (unat n)" by (simp only: max_less_iff_conj max.cobounded1 simp_thms)
    moreover have "?b div 32 = a"
    proof -
      define I where "I = unat dst_idx"
      have "I < 32" "dst \<le> a" using idx(1) a by (simp_all add: I_def)
      then have "32 * a \<le> max (32 * dst + int I) (32 * a) \<and> max (32 * dst + int I) (32 * a) < 32 * a + 32" by simp
      then show ?thesis unfolding s I_def by linarith
    qed
    ultimately show "v a \<noteq> None" using m unfolding bits_mapped_def by metis
  qed
  note p = bitfill_paint [OF idx lead this, where f = f, folded s]
  have "fbit pos (paint (\<lambda>_. f) (rmask s (s + int (unat n))) v) b =
      (if s \<le> b \<and> b < s + int (unat n) then g (fbit pos v b) (pos (nat (b mod 32))) else fbit pos v b)" for b
  proof (cases "v (b div 32)")
    case None
    then show ?thesis using m by (auto simp: fbit_paint_other bits_mapped_def)
  next
    case (Some w)
    have "pos (nat (b mod 32)) < 32" by (rule pos_less) (simp add: nat_less_iff)
    then show ?thesis using fbit_paint [OF covers_rmask, of v b w] Some f by (simp add: fbit_def)
  qed
  then show ?thesis using p by simp
qed

lemma lines_bits:
  assumes n: "31 + unat n < 2 ^ 32" "unat line_bits < 2 ^ 31 - 32" "unat n \<le> unat line_bits"
    and lead: "\<And>i. i < 32 \<Longrightarrow> \<not> lead (sh i) \<Longrightarrow> i = 0"
    and f: "\<And>w k. k < 32 \<Longrightarrow> bit (f w) k = g (bit w k) k"
    and idx: "unat dst_idx < 2 ^ 31"
    and p: "p = 32 * dst + int (unat dst_idx)"
    and m: "\<forall>b. in_lines p (int (unat line_bits)) (int (unat n)) h b \<longrightarrow> v (b div 32) \<noteq> None"
  shows "\<exists>v'. fill_lines (\<lambda>dst idx v. bitfill sh lead f dst idx n v) line_bits h dst dst_idx v = Some v' \<and> dom v' = dom v \<and>
    (\<forall>b. fbit pos v' b = (if in_lines p (int (unat line_bits)) (int (unat n)) h b
       then g (fbit pos v b) (pos (nat (b mod 32))) else fbit pos v b))"
  using idx p m
proof (induction h arbitrary: dst dst_idx v p)
  case 0
  then show ?case by (auto simp: in_lines_def)
next
  case (Suc h)
  let ?L = "int (unat line_bits)" and ?N = "int (unat n)"
  let ?d = "dst_move dst dst_idx" and ?i = "dst_idx AND (BITS - 1)"
  have i: "unat ?i = unat dst_idx mod 32" by (rule unat_low)
  have d: "32 * ?d + int (unat ?i) = p"
    using Suc.prems(1,2) by (simp add: dst_move_def sint_small i zmod_int)
  have "bits_mapped v p (p + ?N)" using Suc.prems(3) by (auto simp: bits_mapped_def in_lines_Suc)
  have l: "\<not> lead (sh (unat ?i)) \<Longrightarrow> unat ?i = 0" using lead [of "unat ?i"] i by simp
  have c: "unat ?i < 32" "unat ?i + unat n < 2 ^ 32" using i n(1) by simp_all
  from line_bits [where lead = lead and f = f and g = g and s = p, OF c l \<open>bits_mapped v p (p + ?N)\<close> f d [symmetric]] obtain v1 where
    v1: "bitfill sh lead f ?d ?i n v = Some v1" "dom v1 = dom v"
    "\<forall>b. fbit pos v1 b = (if p \<le> b \<and> b < p + ?N then g (fbit pos v b) (pos (nat (b mod 32))) else fbit pos v b)"
    by blast
  have i': "unat (?i + line_bits) = unat ?i + unat line_bits"
    using i n(2) by (simp add: unat_word_ariths)
  have "unat (?i + line_bits) < 2 ^ 31" "p + ?L = 32 * ?d + int (unat (?i + line_bits))"
    using i n(2) d unfolding i' by simp_all
  moreover have "\<forall>b. in_lines (p + ?L) ?L ?N h b \<longrightarrow> v1 (b div 32) \<noteq> None"
    using Suc.prems(3) v1(2) by (auto simp: in_lines_Suc dom_def set_eq_iff)
  ultimately obtain v' where v': "fill_lines (\<lambda>dst idx v. bitfill sh lead f dst idx n v) line_bits h ?d (?i + line_bits) v1 = Some v'"
    "dom v' = dom v1" "\<forall>b. fbit pos v' b = (if in_lines (p + ?L) ?L ?N h b
       then g (fbit pos v1 b) (pos (nat (b mod 32))) else fbit pos v1 b)"
    using Suc.IH [of "?i + line_bits" "p + ?L" ?d v1] by blast
  have dis: "\<not> (p \<le> b \<and> b < p + ?N)" if ln: "in_lines (p + ?L) ?L ?N h b" for b
  proof -
    have "p + ?L \<le> b" by (rule in_lines_above [OF _ ln]) simp
    moreover have "?N \<le> ?L" using n(3) by (simp only: of_nat_le_iff)
    ultimately show ?thesis by linarith
  qed
  have "fbit pos v' b = (if in_lines p ?L ?N (Suc h) b then g (fbit pos v b) (pos (nat (b mod 32))) else fbit pos v b)" for b
    using v'(3) v1(3) dis [of b] by (auto simp: in_lines_Suc)
  then show ?case using v1(1,2) v'(1,2) by (simp add: Let_def)
qed

end

section \<open>The pattern\<close>

text \<open>The low \<open>m\<close> bits of a word are copies of the low \<open>p\<close> bits of the colour, and there are no more.\<close>

definition repeats :: "u32 \<Rightarrow> nat \<Rightarrow> nat \<Rightarrow> u32 \<Rightarrow> bool" where
  "repeats fg p m w \<longleftrightarrow> p dvd m \<and> (\<forall>k. bit w k \<longleftrightarrow> k < m \<and> k < 32 \<and> bit fg (k mod p))"

lemma repeats_double:
  assumes "repeats fg p m w" "w' = w * (1 + 2 ^ m)"
  shows "repeats fg p (2 * m) w'"
proof -
  have b: "bit w k \<longleftrightarrow> k < m \<and> k < 32 \<and> bit fg (k mod p)" for k using assms(1) by (simp add: repeats_def)
  have dvd: "p dvd m" using assms(1) by (simp add: repeats_def)
  have "w' = w + push_bit m w" using assms(2) by (simp add: push_bit_eq_mult distrib_left)
  also have "\<dots> = w OR push_bit m w" by (rule disjunctive_add) (auto simp: b bit_simps)
  finally have w': "w' = w OR push_bit m w" .
  have "(k - m) mod p = k mod p" if "m \<le> k" for k using dvd that by (metis mod_add_self2 dvd_def le_add_diff_inverse2 mod_mult_self1 mult.commute)
  then show ?thesis using dvd by (auto simp: repeats_def w' bit_simps b not_less)
qed

lemma repeats_start: "unat fg < 2 ^ p \<Longrightarrow> repeats fg p p fg"
proof -
  assume a: "unat fg < 2 ^ p"
  have "take_bit p (unat fg) = unat fg" using a by (simp add: take_bit_nat_eq_self_iff)
  then have "take_bit p fg = fg" by (metis unsigned_take_bit_eq word_unat_eq_iff)
  then have "bit fg k \<Longrightarrow> k < p" for k by (metis bit_take_bit_iff)
  then show ?thesis by (auto simp: repeats_def dest: bit_imp_le_length)
qed

definition whole_bpp :: "u32 \<Rightarrow> bool" where
  "whole_bpp bpp \<longleftrightarrow> bpp \<in> {1, 2, 4, 8, 16, 32}"

lemma pat_repeats:
  assumes "whole_bpp bpp" "unat fg < 2 ^ unat bpp"
  shows "\<exists>pat. pixel_to_pat bpp fg = Some pat \<and> repeats fg (unat bpp) 32 pat"
proof -
  note d = repeats_double
  have f16: "repeats fg q 16 w \<Longrightarrow> repeats fg q 32 (w * 0x10001)" for q w using d [of fg q 16 w] by simp
  have f8: "repeats fg q 8 w \<Longrightarrow> repeats fg q 32 (w * 0x1010101)" for q w
    using d [of fg q 8 w] f16 [of q "w * 0x101"] by (simp add: mult.assoc)
  have f4: "repeats fg q 4 w \<Longrightarrow> repeats fg q 32 (w * 0x11111111)" for q w
    using d [of fg q 4 w] f8 [of q "w * 0x11"] by (simp add: mult.assoc)
  have f2: "repeats fg q 2 w \<Longrightarrow> repeats fg q 32 (w * 0x55555555)" for q w
    using d [of fg q 2 w] f4 [of q "w * 5"] by (simp add: mult.assoc)
  have f1: "repeats fg q 1 w \<Longrightarrow> repeats fg q 32 (w * 0xFFFFFFFF)" for q w
    using d [of fg q 1 w] f2 [of q "w * 3"] by (simp add: mult.assoc)
  have st: "repeats fg (unat bpp) (unat bpp) fg" using assms(2) by (rule repeats_start)
  show ?thesis using assms(1) st f1 f2 f4 f8 f16
    unfolding whole_bpp_def by (auto simp: pixel_to_pat_def mult.commute)
qed

end
