(* ===== verification/Fb_Rect_Props.thy ===== *)
theory Fb_Rect_Props
  imports Fb_Fillrect_Props
begin

text \<open>
  Filling a rectangle of the screen: its bits, its pixels, and where the unaligned form goes wrong.
\<close>

section \<open>A rectangle\<close>

text \<open>
  The screen as the caller sees it: it begins at the byte address \<open>fi_screen_base\<close>, and a line has
  \<open>fi_line_length\<close> bytes. The rectangle lies inside the lines and its indices fit the \<open>int\<close> of the code.
\<close>

definition line_width :: "fb_info \<Rightarrow> int" where
  "line_width p = 8 * int (unat (fi_line_length p))"

definition screen_bit :: "fb_info \<Rightarrow> int" where
  "screen_bit p = 8 * int (unat (fi_screen_base p))"

definition rect_fits :: "fb_info \<Rightarrow> fb_fillrect \<Rightarrow> bool" where
  "rect_fits p r \<longleftrightarrow>
     (unat (fr_dx r) + unat (fr_width r)) * unat (fi_bpp p) \<le> 8 * unat (fi_line_length p) \<and>
     32 + unat (fr_dy r) * (8 * unat (fi_line_length p)) + 8 * unat (fi_line_length p) < 2 ^ 31 - 32"

definition rect_start :: "fb_info \<Rightarrow> fb_fillrect \<Rightarrow> int" where
  "rect_start p r = screen_bit p + int (unat (fr_dy r)) * line_width p + int (unat (fr_dx r) * unat (fi_bpp p))"

definition rect_bit :: "fb_info \<Rightarrow> fb_fillrect \<Rightarrow> int \<Rightarrow> bool" where
  "rect_bit p r b \<longleftrightarrow> in_lines (rect_start p r) (line_width p) (int (unat (fr_width r) * unat (fi_bpp p)))
     (unat (fr_height r)) b"

lemma unat_mult_small: "unat (a :: u32) * unat b < 2 ^ 32 \<Longrightarrow> unat (a * b) = unat a * unat b"
  by (simp add: unat_word_ariths)

lemma unat_add_small: "unat (a :: u32) + unat b < 2 ^ 32 \<Longrightarrow> unat (a + b) = unat a + unat b"
  by (simp add: unat_word_ariths)

text \<open>The indices of the code under these bounds.\<close>

lemma fill_indices:
  assumes "rect_fits p r"
  shows "unat (fi_line_length p * 8) = 8 * unat (fi_line_length p)"
    and "unat (fr_width r * fi_bpp p) = unat (fr_width r) * unat (fi_bpp p)"
    and "unat (fr_width r) * unat (fi_bpp p) \<le> 8 * unat (fi_line_length p)"
    and "8 * unat (fi_line_length p) < 2 ^ 31 - 32"
    and "32 * (int (unat (fi_screen_base p AND NOT 3)) div 4) + int (unat ((fi_screen_base p AND 3) * 8 +
        (fr_dy r * fi_line_length p * 8 + fr_dx r * fi_bpp p))) = rect_start p r"
    and "unat ((fi_screen_base p AND 3) * 8 + (fr_dy r * fi_line_length p * 8 + fr_dx r * fi_bpp p)) < 2 ^ 31"
proof -
  define L Y X W B where "L = unat (fi_line_length p)" and "Y = unat (fr_dy r)" and "X = unat (fr_dx r)"
    and "W = unat (fr_width r)" and "B = unat (fi_bpp p)"
  note nm = L_def [symmetric] Y_def [symmetric] X_def [symmetric] W_def [symmetric] B_def [symmetric]
  have f: "(X + W) * B \<le> 8 * L" "32 + Y * (8 * L) + 8 * L < 2 ^ 31 - 32" using assms by (simp_all add: rect_fits_def nm)
  then have XB: "X * B \<le> 8 * L" and WB: "W * B \<le> 8 * L" by (auto simp: distrib_right)
  show l: "unat (fi_line_length p * 8) = 8 * unat (fi_line_length p)"
    using unat_mult_small [of "fi_line_length p" 8] f(2) by (simp add: nm)
  show "unat (fr_width r * fi_bpp p) = unat (fr_width r) * unat (fi_bpp p)"
    using unat_mult_small [of "fr_width r" "fi_bpp p"] WB f(2) by (simp add: nm)
  show "unat (fr_width r) * unat (fi_bpp p) \<le> 8 * unat (fi_line_length p)" using WB by (simp add: nm)
  show "8 * unat (fi_line_length p) < 2 ^ 31 - 32" using f(2) by (simp add: nm)
  have yl: "unat (fr_dy r * fi_line_length p * 8) = Y * (8 * L)"
  proof -
    have "unat (fr_dy r * fi_line_length p) = Y * L"
      using unat_mult_small [of "fr_dy r" "fi_line_length p"] f(2) by (simp add: nm)
    moreover have "Y * L * 8 < 2 ^ 32" using f(2) by (simp add: mult.commute mult.left_commute)
    ultimately show ?thesis using unat_mult_small [of "fr_dy r * fi_line_length p" 8] by simp
  qed
  have xb: "unat (fr_dx r * fi_bpp p) = X * B"
    using unat_mult_small [of "fr_dx r" "fi_bpp p"] XB f(2) by (simp add: nm)
  have sum: "unat (fr_dy r * fi_line_length p * 8 + fr_dx r * fi_bpp p) = Y * (8 * L) + X * B"
    using unat_add_small [of "fr_dy r * fi_line_length p * 8" "fr_dx r * fi_bpp p"] yl xb XB f(2) by simp
  let ?b = "fi_screen_base p"
  have m: "(3 :: u32) = mask 2" by code_simp
  have a3: "unat (?b AND 3) = unat ?b mod 4"
    unfolding m take_bit_eq_mask [symmetric] by (simp add: take_bit_eq_mod unat_mod)
  have pw: "(2 :: nat) ^ 32 = 4294967296" "(2 :: nat) ^ 31 = 2147483648" by simp_all
  have n3: "unat (?b AND NOT 3) = 4 * (unat ?b div 4)"
  proof -
    have e: "2 \<le> n \<Longrightarrow> Suc (Suc (n - 2)) = n" for n :: nat by simp
    have "?b AND NOT 3 = push_bit 2 (drop_bit 2 ?b)"
      unfolding m by (rule bit_word_eqI) (auto simp: bit_simps not_less e)
    moreover have "unat ?b < 2 ^ 32" using unsigned_less [of ?b] by simp
    then have "4 * (unat ?b div 4) < 2 ^ 32" by simp
    ultimately show ?thesis by (simp add: push_bit_eq_mult drop_bit_eq_div unat_word_ariths unat_div)
  qed
  have b8: "unat ((?b AND 3) * 8) = unat ?b mod 4 * 8"
    using unat_mult_small [of "?b AND 3" 8] a3 by simp
  have i: "unat ((?b AND 3) * 8 + (fr_dy r * fi_line_length p * 8 + fr_dx r * fi_bpp p)) =
      unat ?b mod 4 * 8 + (Y * (8 * L) + X * B)"
  proof -
    have "unat ?b mod 4 < 4" by simp
    then have "unat ?b mod 4 * 8 + (Y * (8 * L) + X * B) < 2 ^ 32" using XB f(2) pw by linarith
    then show ?thesis using unat_add_small [of "(?b AND 3) * 8"] b8 sum by metis
  qed
  have "unat ?b mod 4 < 4" by simp
  then show "unat ((?b AND 3) * 8 + (fr_dy r * fi_line_length p * 8 + fr_dx r * fi_bpp p)) < 2 ^ 31"
    unfolding i using XB f(2) pw by linarith
  show "32 * (int (unat (?b AND NOT 3)) div 4) + int (unat ((?b AND 3) * 8 +
        (fr_dy r * fi_line_length p * 8 + fr_dx r * fi_bpp p))) = rect_start p r"
  proof -
    have "int (unat (?b AND NOT 3)) div 4 = int (unat ?b div 4)" unfolding n3 by (simp del: of_nat_unat)
    moreover have "8 * int (unat ?b) = 32 * int (unat ?b div 4) + int (unat ?b mod 4 * 8)"
      using mult_div_mod_eq [of 4 "unat ?b"] by linarith
    ultimately show ?thesis
      unfolding i rect_start_def line_width_def screen_bit_def by (simp add: nm algebra_simps del: of_nat_unat)
  qed
qed

section \<open>The whole fill\<close>

text \<open>The bits of the lines of the rectangle become those of the colour, or are inverted with them.\<close>

context fb_order
begin

lemma fillrect_bits:
  assumes run: "fi_running p" and bpp: "whole_bpp (fi_bpp p)" and fits: "rect_fits p r"
    and fg: "fill_color p r = Some fg" "unat fg < 2 ^ unat (fi_bpp p)"
    and m: "\<forall>b. rect_bit p r b \<longrightarrow> v (b div 32) \<noteq> None"
  shows "\<exists>v'. cfb_fillrect sh p r v = Some v' \<and> dom v' = dom v \<and>
    (\<forall>b. fbit pos v' b =
       (if rect_bit p r b
        then (if fr_rop r = ROP_XOR then fbit pos v b \<noteq> bit fg (pos (nat (b mod 32)) mod unat (fi_bpp p))
              else bit fg (pos (nat (b mod 32)) mod unat (fi_bpp p)))
        else fbit pos v b))"
proof -
  obtain pat where pat: "pixel_to_pat (fi_bpp p) fg = Some pat" "repeats fg (unat (fi_bpp p)) 32 pat"
    using pat_repeats [OF bpp fg(2)] by blast
  have bitp: "bit pat k = bit fg (k mod unat (fi_bpp p))" if "k < 32" for k
    using pat(2) that by (simp add: repeats_def)
  have left: "BITS mod fi_bpp p = 0"
    using bpp by (auto simp: whole_bpp_def BITS_def)
  note ix = fill_indices [OF fits]
  define n lb dst idx where "n = fr_width r * fi_bpp p" and "lb = fi_line_length p * 8"
    and "dst = int (unat (fi_screen_base p AND NOT 3)) div 4"
    and "idx = (fi_screen_base p AND 3) * 8 + (fr_dy r * fi_line_length p * 8 + fr_dx r * fi_bpp p)"
  have h: "31 + unat n < 2 ^ 32" "unat lb < 2 ^ 31 - 32" "unat n \<le> unat lb" "unat idx < 2 ^ 31"
    "rect_start p r = 32 * dst + int (unat idx)"
    using ix by (simp_all add: n_def lb_def idx_def dst_def)
  have lines: "in_lines (rect_start p r) (int (unat lb)) (int (unat n)) (unat (fr_height r)) b = rect_bit p r b" for b
    using ix(1,2) by (simp add: rect_bit_def line_width_def n_def lb_def del: of_nat_unat)
  have m': "\<forall>b. in_lines (rect_start p r) (int (unat lb)) (int (unat n)) (unat (fr_height r)) b \<longrightarrow> v (b div 32) \<noteq> None"
    using m unfolding lines .
  show ?thesis
  proof (cases "fr_rop r = ROP_XOR")
    case True
    have e: "cfb_fillrect sh p r v = fill_lines (\<lambda>dst idx v. bitfill sh (\<lambda>w. w \<noteq> 0) (\<lambda>w. w XOR pat) dst idx n v) lb
        (unat (fr_height r)) dst idx v"
      using run fg(1) pat(1) left True
      by (simp add: cfb_fillrect_def bitfill_forms n_def lb_def dst_def idx_def Let_def)
    have "\<not> sh i \<noteq> 0 \<Longrightarrow> i = 0" if "i < 32" for i using sh_not_zero [OF that] by simp
    moreover have "bit (w XOR pat) k = (bit w k \<noteq> bit fg (k mod unat (fi_bpp p)))" if "k < 32" for w k
      using bitp [OF that] by (simp add: bit_simps)
    ultimately show ?thesis
      using lines_bits [of n lb "\<lambda>w. w \<noteq> 0" "\<lambda>w. w XOR pat" "\<lambda>c k. c \<noteq> bit fg (k mod unat (fi_bpp p))" idx, OF h(1-3) _ _ h(4,5) m']
      unfolding e lines using True by auto
  next
    case False
    have e: "cfb_fillrect sh p r v = fill_lines (\<lambda>dst idx v. bitfill sh (\<lambda>w. w \<noteq> - 1) (\<lambda>_. pat) dst idx n v) lb
        (unat (fr_height r)) dst idx v"
      using run fg(1) pat(1) left False
      by (simp add: cfb_fillrect_def bitfill_forms n_def lb_def dst_def idx_def Let_def)
    have "\<not> sh i \<noteq> - 1 \<Longrightarrow> i = 0" if "i < 32" for i using sh_not_ones [of i] that by auto
    then show ?thesis
      using lines_bits [of n lb "\<lambda>w. w \<noteq> - 1" "\<lambda>_. pat" "\<lambda>_ k. bit fg (k mod unat (fi_bpp p))" idx, OF h(1-3) _ _ h(4,5) m'] bitp
      unfolding e lines using False by auto
  qed
qed

end


section \<open>Pixels\<close>

text \<open>On a processor that has the first pixel in the high bits of a word: the pixel at a bit of the screen.\<close>

definition be_pos :: "nat \<Rightarrow> nat" where
  "be_pos j = 31 - j"

definition fb_pixel :: "nat \<Rightarrow> vmem \<Rightarrow> int \<Rightarrow> u32 option" where
  "fb_pixel bpp v b = map_option (\<lambda>w. take_bit bpp (drop_bit (32 - bpp - nat (b mod 32)) w)) (v (b div 32))"

definition pixel_bit :: "fb_info \<Rightarrow> nat \<Rightarrow> nat \<Rightarrow> int" where
  "pixel_bit p x y = screen_bit p + int y * line_width p + int (x * unat (fi_bpp p))"

definition in_rect :: "fb_fillrect \<Rightarrow> nat \<Rightarrow> nat \<Rightarrow> bool" where
  "in_rect r x y \<longleftrightarrow> unat (fr_dx r) \<le> x \<and> x < unat (fr_dx r) + unat (fr_width r) \<and>
     unat (fr_dy r) \<le> y \<and> y < unat (fr_dy r) + unat (fr_height r)"

lemma in_word:
  assumes "p dvd 32" "int p dvd b" "i < p"
  shows "(b + int i) div 32 = b div 32" "nat ((b + int i) mod 32) = nat (b mod 32) + i" "nat (b mod 32) + p \<le> 32"
    "p dvd nat (b mod 32)"
proof -
  have "int p dvd 32" using assms(1) by (metis int_dvd_int_iff of_nat_numeral)
  then have d: "int p dvd b mod 32" using assms(2) by (simp add: dvd_mod_iff)
  then show dn: "p dvd nat (b mod 32)" by (metis int_dvd_int_iff int_nat_eq pos_mod_sign zero_less_numeral)
  have "p dvd 32 - nat (b mod 32)" using assms(1) dn by (rule dvd_diff_nat)
  moreover have "0 < 32 - nat (b mod 32)" by (simp add: nat_less_iff)
  ultimately show le: "nat (b mod 32) + p \<le> 32" using dvd_imp_le [of p "32 - nat (b mod 32)"] by linarith
  have r: "0 \<le> int i" "b mod 32 + int i < 32" using le assms(3) by linarith+
  have e: "b + int i = 32 * (b div 32) + (b mod 32 + int i)" by simp
  have nn: "0 \<le> b mod 32 + int i" using r(1) by (intro add_nonneg_nonneg) simp_all
  show "(b + int i) div 32 = b div 32" by (rule int_div_pos_eq [OF e nn r(2)])
  have "(b + int i) mod 32 = b mod 32 + int i" by (rule int_mod_pos_eq [OF e nn r(2)])
  then show "nat ((b + int i) mod 32) = nat (b mod 32) + i" by (simp add: nat_add_distrib)
qed

lemma pixel_bit_at:
  assumes "p dvd 32" "int p dvd b" "j < p" "v (b div 32) = Some w"
  shows "bit (the (fb_pixel p v b)) j = fbit be_pos v (b + int (p - 1 - j))"
    and "be_pos (nat ((b + int (p - 1 - j)) mod 32)) mod p = j"
proof -
  have i: "p - 1 - j < p" using assms(3) by simp
  note w = in_word [OF assms(1,2) i]
  have e: "be_pos (nat (b mod 32) + (p - 1 - j)) = 32 - p - nat (b mod 32) + j"
    using w(3) assms(3) by (simp add: be_pos_def)
  show "bit (the (fb_pixel p v b)) j = fbit be_pos v (b + int (p - 1 - j))"
    unfolding fb_pixel_def fbit_def w(1,2) e assms(4) option.case option.map option.sel
    using assms(3) by (simp only: bit_take_bit_iff bit_drop_bit_eq o_def add.commute diff_diff_left simp_thms)
  have "p dvd 32 - p - nat (b mod 32)" using assms(1) w(4) by (intro dvd_diff_nat) auto
  then obtain q where q: "32 - p - nat (b mod 32) = p * q" by (elim dvdE)
  then show "be_pos (nat ((b + int (p - 1 - j)) mod 32)) mod p = j"
    unfolding w(2) e q using assms(3) by simp
qed

lemma pixel_eqI:
  assumes "\<And>j. j < p \<Longrightarrow> bit (the (fb_pixel p v b)) j = bit x j" "v (b div 32) \<noteq> None" "take_bit p x = x"
  shows "fb_pixel p v b = Some x"
proof -
  obtain w0 where w0: "v (b div 32) = Some w0" using assms(2) by blast
  define w where "w = drop_bit (32 - p - nat (b mod 32)) w0"
  have w: "fb_pixel p v b = Some (take_bit p w)" unfolding fb_pixel_def w0 w_def option.map ..
  have hi: "\<not> bit x j" if "\<not> j < p" for j using assms(3) that by (metis bit_take_bit_iff)
  have "take_bit p w = x"
  proof (rule bit_word_eqI)
    fix j
    show "bit (take_bit p w) j = bit x j"
    proof (cases "j < p")
      case True
      then show ?thesis using assms(1) [OF True] by (simp only: w option.sel)
    next
      case False
      then show ?thesis using hi by (simp add: bit_take_bit_iff)
    qed
  qed
  then show ?thesis using w by simp
qed

text \<open>A pixel of the rectangle is one whose bits are.\<close>

lemma rect_pixel:
  assumes "rect_fits p r" "(x + 1) * unat (fi_bpp p) \<le> 8 * unat (fi_line_length p)" "i < unat (fi_bpp p)"
  shows "rect_bit p r (pixel_bit p x y + int i) \<longleftrightarrow> in_rect r x y"
proof -
  define L B X W where "L = 8 * unat (fi_line_length p)" and "B = unat (fi_bpp p)" and "X = unat (fr_dx r)" and "W = unat (fr_width r)"
  define Y where "Y = unat (fr_dy r)"
  have f: "(X + W) * B \<le> L" using assms(1) by (simp add: rect_fits_def X_def W_def B_def L_def)
  have c: "x * B + i < L" using assms(2,3) by (simp add: B_def L_def)
  have i: "i < B" using assms(3) by (simp add: B_def)
  have lw: "line_width p = int L" by (simp add: line_width_def L_def del: of_nat_unat)
  have lt: "(Y + k) * L + X * B \<le> y * L + x * B + i \<and> y * L + x * B + i < (Y + k) * L + X * B + W * B \<longleftrightarrow>
      y = Y + k \<and> X * B \<le> x * B + i \<and> x * B + i < (X + W) * B" for k
  proof
    assume a: "(Y + k) * L + X * B \<le> y * L + x * B + i \<and> y * L + x * B + i < (Y + k) * L + X * B + W * B"
    have "(Y + k) * L < (y + 1) * L" using a c by simp
    then have "Y + k < y + 1" by (simp only: mult_less_cancel2)
    moreover have "y * L < (Y + k + 1) * L" using a f by (simp add: distrib_right)
    then have "y < Y + k + 1" by (simp only: mult_less_cancel2)
    ultimately have "y = Y + k" by simp
    then show "y = Y + k \<and> X * B \<le> x * B + i \<and> x * B + i < (X + W) * B" using a by (simp add: distrib_right)
  qed (simp add: distrib_right)
  have "rect_bit p r (pixel_bit p x y + int i) \<longleftrightarrow>
      (\<exists>k<unat (fr_height r). (Y + k) * L + X * B \<le> y * L + x * B + i \<and> y * L + x * B + i < (Y + k) * L + X * B + W * B)"
  proof -
    have "(screen_bit p + int Y * int L + int (X * B) + int k * int L \<le> screen_bit p + int y * int L + int (x * B) + int i \<and>
        screen_bit p + int y * int L + int (x * B) + int i < screen_bit p + int Y * int L + int (X * B) + int k * int L + int (W * B)) =
      (int ((Y + k) * L + X * B) \<le> int (y * L + x * B + i) \<and> int (y * L + x * B + i) < int ((Y + k) * L + X * B + W * B))" for k
      by (simp add: distrib_right add_ac)
    then show ?thesis
      unfolding rect_bit_def in_lines_def rect_start_def pixel_bit_def lw X_def [symmetric] W_def [symmetric] B_def [symmetric]
        Y_def [symmetric] of_nat_le_iff of_nat_less_iff by simp
  qed
  also have "\<dots> \<longleftrightarrow> (\<exists>k<unat (fr_height r). y = Y + k \<and> X * B \<le> x * B + i \<and> x * B + i < (X + W) * B)"
    unfolding lt ..
  also have "\<dots> \<longleftrightarrow> in_rect r x y"
  proof -
    have "X * B \<le> x * B + i \<longleftrightarrow> X \<le> x"
    proof
      assume "X * B \<le> x * B + i"
      then have "X * B < (x + 1) * B" using i by simp
      then have "X < x + 1" by (simp only: mult_less_cancel2)
      then show "X \<le> x" by simp
    qed (simp add: trans_le_add1)
    moreover have "x * B + i < (X + W) * B \<longleftrightarrow> x < X + W"
    proof
      assume "x * B + i < (X + W) * B"
      then have "x * B < (X + W) * B" by linarith
      then show "x < X + W" by auto
    next
      assume "x < X + W"
      then have "(x + 1) * B \<le> (X + W) * B" by (intro mult_le_mono1) simp
      then show "x * B + i < (X + W) * B" using i by simp
    qed
    moreover have "(\<exists>k<unat (fr_height r). y = Y + k) \<longleftrightarrow> Y \<le> y \<and> y < Y + unat (fr_height r)"
      by (auto intro: exI [of _ "y - Y"])
    ultimately show ?thesis by (auto simp: in_rect_def X_def W_def Y_def)
  qed
  finally show ?thesis .
qed

text \<open>C25: On a processor with the first pixel in the high bits of a word, filling a rectangle that lies inside
  the lines of the screen returns, and then every pixel of the rectangle has the colour, or is inverted
  with it, and every other pixel of the screen is as it was. The depth divides a word, the colour fits
  the depth, the lines begin at whole pixels and the words of the rectangle are mapped.\<close>

theorem fillrect_pixels:
  assumes order: "fb_order sh be_pos" and run: "fi_running p" and bpp: "whole_bpp (fi_bpp p)" and fits: "rect_fits p r"
    and fg: "fill_color p r = Some fg" "unat fg < 2 ^ unat (fi_bpp p)"
    and m: "\<forall>b. rect_bit p r b \<longrightarrow> v (b div 32) \<noteq> None"
    and lines: "int (unat (fi_bpp p)) dvd screen_bit p" "int (unat (fi_bpp p)) dvd line_width p"
  shows "\<exists>v'. cfb_fillrect sh p r v = Some v' \<and>
    (\<forall>x y. (x + 1) * unat (fi_bpp p) \<le> 8 * unat (fi_line_length p) \<longrightarrow>
      fb_pixel (unat (fi_bpp p)) v' (pixel_bit p x y) =
        (if in_rect r x y then
           (if fr_rop r = ROP_XOR then map_option (\<lambda>old. old XOR fg) (fb_pixel (unat (fi_bpp p)) v (pixel_bit p x y))
            else Some fg)
         else fb_pixel (unat (fi_bpp p)) v (pixel_bit p x y)))"
proof -
  define B where "B = unat (fi_bpp p)"
  have B: "B dvd 32" "0 < B" using bpp by (auto simp: whole_bpp_def B_def)
  obtain v' where v': "cfb_fillrect sh p r v = Some v'" "dom v' = dom v" and bits:
    "\<forall>b. fbit be_pos v' b = (if rect_bit p r b then (if fr_rop r = ROP_XOR then fbit be_pos v b \<noteq> bit fg (be_pos (nat (b mod 32)) mod B)
        else bit fg (be_pos (nat (b mod 32)) mod B)) else fbit be_pos v b)"
    using fb_order.fillrect_bits [OF order run bpp fits fg m] unfolding B_def by blast
  have "fb_pixel B v' (pixel_bit p x y) =
        (if in_rect r x y then (if fr_rop r = ROP_XOR then map_option (\<lambda>old. old XOR fg) (fb_pixel B v (pixel_bit p x y)) else Some fg)
         else fb_pixel B v (pixel_bit p x y))" if xy: "(x + 1) * B \<le> 8 * unat (fi_line_length p)" for x y
  proof -
    define o' where "o' = pixel_bit p x y"
    have al: "int B dvd o'" using lines unfolding o'_def pixel_bit_def B_def [symmetric]
      by (intro dvd_add dvd_mult) (simp_all add: B_def)
    have inr: "rect_bit p r (o' + int i) \<longleftrightarrow> in_rect r x y" if "i < B" for i
      using rect_pixel [OF fits, of x i y] xy that by (simp add: B_def o'_def)
    show ?thesis
    proof (cases "v (o' div 32)")
      case None
      moreover have "\<not> in_rect r x y" using inr [OF B(2)] m None by auto
      moreover have "v' (o' div 32) = None" using None v'(2) by (metis domIff)
      ultimately show ?thesis by (simp add: fb_pixel_def o'_def)
    next
      case (Some w)
      then obtain w' where w': "v' (o' div 32) = Some w'" using v'(2) by (metis domD domI)
      define x0 where "x0 = the (fb_pixel B v o')"
      have px: "fb_pixel B v o' = Some x0" using Some by (simp add: x0_def fb_pixel_def)
      have tx: "take_bit B x0 = x0" using Some by (simp add: x0_def fb_pixel_def)
      have tf: "take_bit B fg = fg"
        using repeats_start [of fg B] fg(2) unfolding B_def repeats_def by (intro bit_word_eqI) (metis bit_take_bit_iff)
      have bit': "bit (the (fb_pixel B v' o')) j = (if in_rect r x y then (if fr_rop r = ROP_XOR then bit x0 j \<noteq> bit fg j else bit fg j)
          else bit x0 j)" if j: "j < B" for j
      proof -
        have k: "B - 1 - j < B" using j by simp
        show ?thesis
          unfolding pixel_bit_at(1) [where v = v', OF B(1) al j w'] x0_def pixel_bit_at(1) [where v = v, OF B(1) al j Some] bits [rule_format]
            inr [OF k] pixel_bit_at(2) [where v = v, OF B(1) al j Some] ..
      qed
      define x1 where "x1 = (if in_rect r x y then (if fr_rop r = ROP_XOR then x0 XOR fg else fg) else x0)"
      have "fb_pixel B v' o' = Some x1"
      proof (rule pixel_eqI)
        show "bit (the (fb_pixel B v' o')) j = bit x1 j" if "j < B" for j
          using bit' [OF that] by (simp add: x1_def bit_xor_iff)
        show "v' (o' div 32) \<noteq> None" using w' by simp
        show "take_bit B x1 = x1" using tx tf by (simp add: x1_def take_bit_xor)
      qed
      then show ?thesis using px by (simp add: x1_def o'_def)
    qed
  qed
  then show ?thesis using v'(1) unfolding B_def by blast
qed

lemma be_order: "fb_order sh_be be_pos"
  using be.fb_order_axioms by (simp add: be_pos_def [abs_def])

definition fill_wit_info :: fb_info where
  "fill_wit_info = \<lparr>fi_running = True, fi_palette_visual = False, fi_palette = [], fi_bpp = 8, fi_screen_base = 0, fi_line_length = 8\<rparr>"

definition fill_wit_rect :: fb_fillrect where
  "fill_wit_rect = \<lparr>fr_dx = 1, fr_dy = 1, fr_width = 2, fr_height = 2, fr_color = 0x5A, fr_rop = ROP_COPY\<rparr>"

lemma fillrect_pixels_witness:
  "\<exists>v'. cfb_fillrect sh_be fill_wit_info fill_wit_rect (\<lambda>_. Some 0) = Some v' \<and>
     fb_pixel 8 v' (pixel_bit fill_wit_info 1 1) = Some 0x5A \<and> fb_pixel 8 v' (pixel_bit fill_wit_info 3 1) = Some 0"
proof -
  have "fi_running fill_wit_info" "whole_bpp (fi_bpp fill_wit_info)" "rect_fits fill_wit_info fill_wit_rect"
    "fill_color fill_wit_info fill_wit_rect = Some 0x5A" "unat (0x5A :: u32) < 2 ^ unat (fi_bpp fill_wit_info)"
    "\<forall>b. rect_bit fill_wit_info fill_wit_rect b \<longrightarrow> (\<lambda>_. Some 0 :: u32 option) (b div 32) \<noteq> None"
    "int (unat (fi_bpp fill_wit_info)) dvd screen_bit fill_wit_info" "int (unat (fi_bpp fill_wit_info)) dvd line_width fill_wit_info"
    by (simp_all add: fill_wit_info_def fill_wit_rect_def whole_bpp_def rect_fits_def fill_color_def screen_bit_def line_width_def)
  from fillrect_pixels [OF be_order this] obtain v' where v': "cfb_fillrect sh_be fill_wit_info fill_wit_rect (\<lambda>_. Some 0) = Some v'"
    "\<forall>x y. (x + 1) * 8 \<le> 8 * unat (fi_line_length fill_wit_info) \<longrightarrow> fb_pixel 8 v' (pixel_bit fill_wit_info x y) =
       (if in_rect fill_wit_rect x y then Some 0x5A else fb_pixel 8 (\<lambda>_. Some 0) (pixel_bit fill_wit_info x y))"
    by (auto simp: fill_wit_info_def fill_wit_rect_def)
  have "in_rect fill_wit_rect 1 1" "\<not> in_rect fill_wit_rect 3 1" by (simp_all add: in_rect_def fill_wit_rect_def)
  then have "fb_pixel 8 v' (pixel_bit fill_wit_info 1 1) = Some 0x5A" "fb_pixel 8 v' (pixel_bit fill_wit_info 3 1) = Some 0"
    using v'(2) [rule_format, of 1 1] v'(2) [rule_format, of 3 1] by (simp_all add: fill_wit_info_def fb_pixel_def)
  then show ?thesis using v'(1) by blast
qed

section \<open>The unaligned fill\<close>

lemma turn_chunk_0: "turn_chunk f left right 0 dst pat v = Some (dst, pat, v)"
  by (simp add: turn_chunk_def turn_fours.simps)

context fb_order
begin

lemma unaligned_overruns:
  assumes n: "32 < unat n" "unat n < 64" and v: "v dst \<noteq> None" "v (dst + 1) \<noteq> None"
  shows "bitfill_unaligned sh dst 0 pat left right n v = Some (v(dst \<mapsto> pat, dst + 1 \<mapsto> rot_pat left right pat))"
proof -
  have u: "unat BITS = 32" by (simp add: BITS_def)
  have le: "\<not> n \<le> BITS" using n(1) by (simp add: word_le_nat_alt u)
  then have "unat (n - BITS) = unat n - 32" by (simp add: unat_sub u)
  then have "unat ((n - BITS) div BITS) = 0" using n(2) by (simp add: unat_div u)
  then have d: "(n - BITS) div BITS = 0" by (simp add: unat_eq_zero)
  have r: "unat (n mod BITS) = unat n mod 32" by (simp add: unat_mod u)
  have "0 < unat n mod 32 \<and> unat n mod 32 < 32" using n by (simp add: mod_if)
  then have last: "NOT (sh (unat (n mod BITS))) \<noteq> 0" unfolding r using sh_not_ones by (metis bit.double_compl bit.compl_zero)
  obtain w0 w1 where w: "v dst = Some w0" "v (dst + 1) = Some w1" using v by blast
  have nz: "n \<noteq> 0" using n(1) by auto
  show ?thesis
    unfolding bitfill_unaligned_def Let_def add_0 diff_zero
    using le nz last d w by (simp add: sh_0 wr_masked_def turn_chunk_0)
qed

end

text \<open>The unaligned fill of a line that begins at a word and ends inside the next one overwrites the whole
  of that word: the mask of the first word is used where the mask of the last is meant.\<close>

theorem bitfill_unaligned_overruns:
  assumes "fb_order sh pos" "32 < unat n" "unat n < 64" "v dst \<noteq> None" "v (dst + 1) \<noteq> None"
  shows "bitfill_unaligned sh dst 0 pat left right n v = Some (v(dst \<mapsto> pat, dst + 1 \<mapsto> rot_pat left right pat))"
  using assms by (rule fb_order.unaligned_overruns)

lemma bitfill_unaligned_overruns_witness:
  "bitfill_unaligned sh_be 0 0 0x00FF00FF 8 16 48 (\<lambda>_. Some 0) = Some ((\<lambda>_. Some 0)(0 \<mapsto> 0x00FF00FF, 1 \<mapsto> 0xFF00FFFF))"
proof -
  have "rot_pat 8 16 0x00FF00FF = 0xFF00FFFF" by code_simp
  then show ?thesis
    using bitfill_unaligned_overruns [OF be_order, of 48 "\<lambda>_. Some 0" 0 "0x00FF00FF" 8 16] by simp
qed

end
