(* ===== verification/Fb_Copyarea.thy ===== *)
theory Fb_Copyarea
  imports Fb_Fillrect "HOL-Library.Monad_Syntax"
begin

text \<open>
  \<open>drivers/video/cfbcopyarea.c\<close>: moving an area of the screen, forwards or backwards through memory.

  As for filling, a read or a write of a word that is not mapped is \<open>None\<close>; \<open>fb_rev_pixels_in_long\<close>, which
  changes nothing without the option for reversed pixels, is left out. Indices of bits are 32-bit words;
  \<open>shift\<close> is signed.
\<close>

section \<open>Forwards\<close>

text \<open>Whole words, the unrolled loop, and both together.\<close>

fun copy_words :: "nat \<Rightarrow> int \<Rightarrow> int \<Rightarrow> vmem \<Rightarrow> vmem option" where
  "copy_words 0 dst src v = Some v"
| "copy_words (Suc n) dst src v = do { s \<leftarrow> v src; v \<leftarrow> wr_word (\<lambda>_. s) dst v; copy_words n (dst + 1) (src + 1) v }"

function copy_eights :: "u32 \<Rightarrow> int \<Rightarrow> int \<Rightarrow> vmem \<Rightarrow> (u32 \<times> int \<times> int \<times> vmem) option" where
  "copy_eights n dst src v =
     (if n \<ge> 8 then
        (case copy_words 8 dst src v of None \<Rightarrow> None | Some v \<Rightarrow> copy_eights (n - 8) (dst + 8) (src + 8) v)
      else Some (n, dst, src, v))"
  by pat_completeness auto

termination copy_eights
  by (relation "measure (\<lambda>(n, dst, src, v). unat n)") (auto simp: less_minus_8 word_le_nat_alt)

declare copy_eights.simps [simp del]

definition copy_chunk :: "u32 \<Rightarrow> int \<Rightarrow> int \<Rightarrow> vmem \<Rightarrow> (int \<times> int \<times> vmem) option" where
  "copy_chunk n dst src v = do {
     (n, dst, src, v) \<leftarrow> copy_eights n dst src v;
     v \<leftarrow> copy_words (unat n) dst src v;
     Some (dst + int (unat n), src + int (unat n), v) }"

text \<open>Words put together from the word that was read last and the next one.\<close>

definition joined :: "nat \<Rightarrow> nat \<Rightarrow> u32 \<Rightarrow> u32 \<Rightarrow> u32" where
  "joined left right d0 d1 = push_bit left d0 OR drop_bit right d1"

fun shift_words :: "nat \<Rightarrow> nat \<Rightarrow> nat \<Rightarrow> u32 \<Rightarrow> int \<Rightarrow> int \<Rightarrow> vmem \<Rightarrow> (u32 \<times> vmem) option" where
  "shift_words left right 0 d0 dst src v = Some (d0, v)"
| "shift_words left right (Suc n) d0 dst src v = do {
     d1 \<leftarrow> v src;
     v \<leftarrow> wr_word (\<lambda>_. joined left right d0 d1) dst v;
     shift_words left right n d1 (dst + 1) (src + 1) v }"

function shift_fours :: "nat \<Rightarrow> nat \<Rightarrow> u32 \<Rightarrow> u32 \<Rightarrow> int \<Rightarrow> int \<Rightarrow> vmem \<Rightarrow> (u32 \<times> u32 \<times> int \<times> int \<times> vmem) option" where
  "shift_fours left right n d0 dst src v =
     (if n \<ge> 4 then
        (case shift_words left right 4 d0 dst src v of
           None \<Rightarrow> None
         | Some (d0, v) \<Rightarrow> shift_fours left right (n - 4) d0 (dst + 4) (src + 4) v)
      else Some (n, d0, dst, src, v))"
  by pat_completeness auto

termination shift_fours
  by (relation "measure (\<lambda>(left, right, n, d0, dst, src, v). unat n)") (auto simp: less_minus_4 word_le_nat_alt)

declare shift_fours.simps [simp del]

definition shift_chunk :: "nat \<Rightarrow> nat \<Rightarrow> u32 \<Rightarrow> u32 \<Rightarrow> int \<Rightarrow> int \<Rightarrow> vmem \<Rightarrow> (u32 \<times> int \<times> int \<times> vmem) option" where
  "shift_chunk left right n d0 dst src v = do {
     (n, d0, dst, src, v) \<leftarrow> shift_fours left right n d0 dst src v;
     (d0, v) \<leftarrow> shift_words left right (unat n) d0 dst src v;
     Some (d0, dst + int (unat n), src + int (unat n), v) }"

definition bitcpy_same :: "u32 \<Rightarrow> u32 \<Rightarrow> int \<Rightarrow> u32 \<Rightarrow> int \<Rightarrow> u32 \<Rightarrow> vmem \<Rightarrow> vmem option" where
  "bitcpy_same first lst dst dst_idx src n v =
     (if dst_idx + n \<le> BITS then do {
        s \<leftarrow> v src;
        wr_masked (\<lambda>_. s) (if lst \<noteq> 0 then first AND lst else first) dst v }
      else do {
        (dst, src, n, v) \<leftarrow>
          (if first \<noteq> - 1 then do {
             s \<leftarrow> v src;
             v \<leftarrow> wr_masked (\<lambda>_. s) first dst v;
             Some (dst + 1, src + 1, n - (BITS - dst_idx), v) }
           else Some (dst, src, n, v));
        (dst, src, v) \<leftarrow> copy_chunk (n div BITS) dst src v;
        if lst \<noteq> 0 then do { s \<leftarrow> v src; wr_masked (\<lambda>_. s) lst dst v } else Some v })"

definition bitcpy_shift :: "u32 \<Rightarrow> u32 \<Rightarrow> u32 \<Rightarrow> int \<Rightarrow> u32 \<Rightarrow> int \<Rightarrow> u32 \<Rightarrow> u32 \<Rightarrow> vmem \<Rightarrow> vmem option" where
  "bitcpy_shift shift first lst dst dst_idx src src_idx n v =
     (let right = unat (shift AND (BITS - 1)); left = unat (- shift AND (BITS - 1)) in
      if dst_idx + n \<le> BITS then do {
        d0 \<leftarrow> v src;
        d0 \<leftarrow> (if sint shift > 0 then Some (drop_bit right d0)
               else if src_idx + n \<le> BITS then Some (push_bit left d0)
               else do { d1 \<leftarrow> v (src + 1); Some (joined left right d0 d1) });
        wr_masked (\<lambda>_. d0) (if lst \<noteq> 0 then first AND lst else first) dst v }
      else do {
        d0 \<leftarrow> v src;
        (d0, d1, src) \<leftarrow>
          (if sint shift > 0 then Some (drop_bit right d0, d0, src + 1)
           else do { d1 \<leftarrow> v (src + 1); Some (joined left right d0 d1, d1, src + 2) });
        let dst = dst + 1;
        let n = n - (BITS - dst_idx);
        v \<leftarrow> wr_masked (\<lambda>_. d0) first dst v;
        (d0, dst, src, v) \<leftarrow> shift_chunk left right (n div BITS) d1 dst src v;
        if lst \<noteq> 0 then
          (if unat (n mod BITS) \<le> right then wr_masked (\<lambda>_. push_bit left d0) lst dst v
           else do { d1 \<leftarrow> v src; wr_masked (\<lambda>_. joined left right d0 d1) lst dst v })
        else Some v })"

definition bitcpy :: "(nat \<Rightarrow> u32) \<Rightarrow> int \<Rightarrow> u32 \<Rightarrow> int \<Rightarrow> u32 \<Rightarrow> u32 \<Rightarrow> vmem \<Rightarrow> vmem option" where
  "bitcpy sh dst dst_idx src src_idx n v =
     (let first = sh (unat dst_idx); last = NOT (sh (unat ((dst_idx + n) mod BITS))); shift = dst_idx - src_idx in
      if shift = 0 then bitcpy_same first last dst dst_idx src n v
      else bitcpy_shift shift first last dst dst_idx src src_idx n v)"

section \<open>Backwards\<close>

fun copy_words_rev :: "nat \<Rightarrow> int \<Rightarrow> int \<Rightarrow> vmem \<Rightarrow> vmem option" where
  "copy_words_rev 0 dst src v = Some v"
| "copy_words_rev (Suc n) dst src v = do { s \<leftarrow> v src; v \<leftarrow> wr_word (\<lambda>_. s) dst v; copy_words_rev n (dst - 1) (src - 1) v }"

function copy_eights_rev :: "u32 \<Rightarrow> int \<Rightarrow> int \<Rightarrow> vmem \<Rightarrow> (u32 \<times> int \<times> int \<times> vmem) option" where
  "copy_eights_rev n dst src v =
     (if n \<ge> 8 then
        (case copy_words_rev 8 dst src v of None \<Rightarrow> None | Some v \<Rightarrow> copy_eights_rev (n - 8) (dst - 8) (src - 8) v)
      else Some (n, dst, src, v))"
  by pat_completeness auto

termination copy_eights_rev
  by (relation "measure (\<lambda>(n, dst, src, v). unat n)") (auto simp: less_minus_8 word_le_nat_alt)

declare copy_eights_rev.simps [simp del]

definition copy_chunk_rev :: "u32 \<Rightarrow> int \<Rightarrow> int \<Rightarrow> vmem \<Rightarrow> (int \<times> int \<times> vmem) option" where
  "copy_chunk_rev n dst src v = do {
     (n, dst, src, v) \<leftarrow> copy_eights_rev n dst src v;
     v \<leftarrow> copy_words_rev (unat n) dst src v;
     Some (dst - int (unat n), src - int (unat n), v) }"

definition joined_rev :: "nat \<Rightarrow> nat \<Rightarrow> u32 \<Rightarrow> u32 \<Rightarrow> u32" where
  "joined_rev left right d0 d1 = drop_bit right d0 OR push_bit left d1"

fun shift_words_rev :: "nat \<Rightarrow> nat \<Rightarrow> nat \<Rightarrow> u32 \<Rightarrow> int \<Rightarrow> int \<Rightarrow> vmem \<Rightarrow> (u32 \<times> vmem) option" where
  "shift_words_rev left right 0 d0 dst src v = Some (d0, v)"
| "shift_words_rev left right (Suc n) d0 dst src v = do {
     d1 \<leftarrow> v src;
     v \<leftarrow> wr_word (\<lambda>_. joined_rev left right d0 d1) dst v;
     shift_words_rev left right n d1 (dst - 1) (src - 1) v }"

function shift_fours_rev :: "nat \<Rightarrow> nat \<Rightarrow> u32 \<Rightarrow> u32 \<Rightarrow> int \<Rightarrow> int \<Rightarrow> vmem \<Rightarrow> (u32 \<times> u32 \<times> int \<times> int \<times> vmem) option" where
  "shift_fours_rev left right n d0 dst src v =
     (if n \<ge> 4 then
        (case shift_words_rev left right 4 d0 dst src v of
           None \<Rightarrow> None
         | Some (d0, v) \<Rightarrow> shift_fours_rev left right (n - 4) d0 (dst - 4) (src - 4) v)
      else Some (n, d0, dst, src, v))"
  by pat_completeness auto

termination shift_fours_rev
  by (relation "measure (\<lambda>(left, right, n, d0, dst, src, v). unat n)") (auto simp: less_minus_4 word_le_nat_alt)

declare shift_fours_rev.simps [simp del]

definition shift_chunk_rev :: "nat \<Rightarrow> nat \<Rightarrow> u32 \<Rightarrow> u32 \<Rightarrow> int \<Rightarrow> int \<Rightarrow> vmem \<Rightarrow> (u32 \<times> int \<times> int \<times> vmem) option" where
  "shift_chunk_rev left right n d0 dst src v = do {
     (n, d0, dst, src, v) \<leftarrow> shift_fours_rev left right n d0 dst src v;
     (d0, v) \<leftarrow> shift_words_rev left right (unat n) d0 dst src v;
     Some (d0, dst - int (unat n), src - int (unat n), v) }"

definition bitcpy_same_rev :: "u32 \<Rightarrow> u32 \<Rightarrow> int \<Rightarrow> u32 \<Rightarrow> int \<Rightarrow> u32 \<Rightarrow> vmem \<Rightarrow> vmem option" where
  "bitcpy_same_rev first lst dst dst_idx src n v =
     (if dst_idx + 1 \<ge> n then do {
        s \<leftarrow> v src;
        wr_masked (\<lambda>_. s) (if lst \<noteq> 0 then first AND lst else first) dst v }
      else do {
        (dst, src, n, v) \<leftarrow>
          (if first \<noteq> - 1 then do {
             s \<leftarrow> v src;
             v \<leftarrow> wr_masked (\<lambda>_. s) first dst v;
             Some (dst - 1, src - 1, n - (dst_idx + 1), v) }
           else Some (dst, src, n, v));
        (dst, src, v) \<leftarrow> copy_chunk_rev (n div BITS) dst src v;
        if lst \<noteq> 0 then do { s \<leftarrow> v src; wr_masked (\<lambda>_. s) lst dst v } else Some v })"

definition bitcpy_shift_rev :: "u32 \<Rightarrow> u32 \<Rightarrow> u32 \<Rightarrow> int \<Rightarrow> u32 \<Rightarrow> int \<Rightarrow> u32 \<Rightarrow> u32 \<Rightarrow> vmem \<Rightarrow> vmem option" where
  "bitcpy_shift_rev shift first lst dst dst_idx src src_idx n v =
     (let left = unat (- shift AND (BITS - 1)); right = unat (shift AND (BITS - 1)) in
      if dst_idx + 1 \<ge> n then do {
        d0 \<leftarrow> v src;
        d0 \<leftarrow> (if sint shift < 0 then Some (push_bit left d0)
               else if 1 + src_idx \<ge> n then Some (drop_bit right d0)
               else do { d1 \<leftarrow> v (src - 1); Some (joined_rev left right d0 d1) });
        wr_masked (\<lambda>_. d0) (if lst \<noteq> 0 then first AND lst else first) dst v }
      else do {
        d0 \<leftarrow> v src;
        (d0, d1, src) \<leftarrow>
          (if sint shift < 0 then Some (push_bit left d0, d0, src - 1)
           else do { d1 \<leftarrow> v (src - 1); Some (joined_rev left right d0 d1, d1, src - 2) });
        v \<leftarrow> wr_masked (\<lambda>_. d0) first dst v;
        let n = n - (dst_idx + 1);
        (d0, dst, src, v) \<leftarrow> shift_chunk_rev left right (n div BITS) d1 (dst - 1) src v;
        if lst \<noteq> 0 then
          (if unat (n mod BITS) \<le> left then wr_masked (\<lambda>_. drop_bit right d0) lst dst v
           else do { d1 \<leftarrow> v src; wr_masked (\<lambda>_. joined_rev left right d0 d1) lst dst v })
        else Some v })"

text \<open>The step to the lst word of the line.\<close>

definition rev_start :: "u32 \<Rightarrow> int \<Rightarrow> u32 \<Rightarrow> int \<times> u32" where
  "rev_start n a idx =
     (let a = a + int (unat ((n - 1) div BITS)) in
      if (n - 1) mod BITS \<noteq> 0 then
        (let idx = idx + (n - 1) mod BITS in (dst_move a idx, idx AND (BITS - 1)))
      else (a, idx))"

definition bitcpy_rev :: "(nat \<Rightarrow> u32) \<Rightarrow> int \<Rightarrow> u32 \<Rightarrow> int \<Rightarrow> u32 \<Rightarrow> u32 \<Rightarrow> vmem \<Rightarrow> vmem option" where
  "bitcpy_rev sh dst dst_idx src src_idx n v =
     (let (dst, dst_idx) = rev_start n dst dst_idx;
          (src, src_idx) = rev_start n src src_idx;
          shift = dst_idx - src_idx;
          first = sh (unat (BITS - 1 - dst_idx));
          last = NOT (sh (unat (BITS - 1 - (dst_idx - n) mod BITS))) in
      if shift = 0 then bitcpy_same_rev first last dst dst_idx src n v
      else bitcpy_shift_rev shift first last dst dst_idx src src_idx n v)"

section \<open>The area\<close>

record fb_copyarea =
  ca_dx :: u32
  ca_dy :: u32
  ca_width :: u32
  ca_height :: u32
  ca_sx :: u32
  ca_sy :: u32

text \<open>The loops over the lines; the mask for the index of a bit is the number of bytes of a word.\<close>

fun copy_lines :: "(int \<Rightarrow> u32 \<Rightarrow> int \<Rightarrow> u32 \<Rightarrow> vmem \<Rightarrow> vmem option) \<Rightarrow> u32 \<Rightarrow> nat \<Rightarrow> int \<Rightarrow> u32 \<Rightarrow> int \<Rightarrow> u32 \<Rightarrow> vmem \<Rightarrow> vmem option" where
  "copy_lines cpy line_bits 0 dst dst_idx src src_idx v = Some v"
| "copy_lines cpy line_bits (Suc h) dst dst_idx src src_idx v =
     (let dst = dst_move dst dst_idx; dst_idx = dst_idx AND 3;
          src = dst_move src src_idx; src_idx = src_idx AND 3 in
      case cpy dst dst_idx src src_idx v of
        None \<Rightarrow> None
      | Some v \<Rightarrow> copy_lines cpy line_bits h dst (dst_idx + line_bits) src (src_idx + line_bits) v)"

fun copy_lines_rev :: "(int \<Rightarrow> u32 \<Rightarrow> int \<Rightarrow> u32 \<Rightarrow> vmem \<Rightarrow> vmem option) \<Rightarrow> u32 \<Rightarrow> nat \<Rightarrow> int \<Rightarrow> u32 \<Rightarrow> int \<Rightarrow> u32 \<Rightarrow> vmem \<Rightarrow> vmem option" where
  "copy_lines_rev cpy line_bits 0 dst dst_idx src src_idx v = Some v"
| "copy_lines_rev cpy line_bits (Suc h) dst dst_idx src src_idx v =
     (let dst_idx = dst_idx - line_bits; src_idx = src_idx - line_bits;
          dst = dst_move dst dst_idx; dst_idx = dst_idx AND 3;
          src = dst_move src src_idx; src_idx = src_idx AND 3 in
      case cpy dst dst_idx src src_idx v of
        None \<Rightarrow> None
      | Some v \<Rightarrow> copy_lines_rev cpy line_bits h dst dst_idx src src_idx v)"

definition cfb_copyarea :: "(nat \<Rightarrow> u32) \<Rightarrow> fb_info \<Rightarrow> fb_copyarea \<Rightarrow> vmem \<Rightarrow> vmem option" where
  "cfb_copyarea sh p area v =
     (if \<not> fi_running p then Some v
      else
        (let line_bits = fi_line_length p * 8;
             rev_copy = (ca_dy area = ca_sy area \<and> ca_dx area > ca_sx area \<or> ca_dy area > ca_sy area);
             dy = (if rev_copy then ca_dy area + ca_height area else ca_dy area);
             sy = (if rev_copy then ca_sy area + ca_height area else ca_sy area);
             a = int (unat (fi_screen_base p AND NOT 3)) div 4;
             idx = 8 * (fi_screen_base p AND 3);
             dst_idx = idx + (dy * line_bits + ca_dx area * fi_bpp p);
             src_idx = idx + (sy * line_bits + ca_sx area * fi_bpp p);
             n = ca_width area * fi_bpp p;
             h = unat (ca_height area)
         in if rev_copy then
              copy_lines_rev (\<lambda>dst di src si v. bitcpy_rev sh dst di src si n v) line_bits h a dst_idx a src_idx v
            else
              copy_lines (\<lambda>dst di src si v. bitcpy sh dst di src si n v) line_bits h a dst_idx a src_idx v))"

end
