(* ===== verification/Fb_Move_Props.thy ===== *)
theory Fb_Move_Props
  imports Fb_Rect_Props Fb_Copyarea
begin

text \<open>
  Moving an area whose lines begin and end at words: every pixel arrives, overlapping or not. Elsewhere
  the code goes wrong in two ways, which are shown too.
\<close>

section \<open>Runs of words\<close>

text \<open>The words of a run come from those \<open>\<delta>\<close> further on.\<close>

definition moved_run :: "int \<Rightarrow> nat \<Rightarrow> int \<Rightarrow> vmem \<Rightarrow> vmem" where
  "moved_run d k \<delta> v a = (if d \<le> a \<and> a < d + int k then v (a + \<delta>) else v a)"

definition run_mapped :: "int \<Rightarrow> nat \<Rightarrow> int \<Rightarrow> vmem \<Rightarrow> bool" where
  "run_mapped d k \<delta> v \<longleftrightarrow> (\<forall>a. d \<le> a \<and> a < d + int k \<longrightarrow> v a \<noteq> None \<and> v (a + \<delta>) \<noteq> None)"

lemma copy_words_add:
  "copy_words (m + n) dst src v = copy_words m dst src v \<bind> copy_words n (dst + int m) (src + int m)"
  by (induction m arbitrary: dst src v) (auto simp: add.assoc split: bind_splits)

lemma copy_words_rev_add:
  "copy_words_rev (m + n) dst src v = copy_words_rev m dst src v \<bind> copy_words_rev n (dst - int m) (src - int m)"
  by (induction m arbitrary: dst src v) (auto simp: diff_diff_eq split: bind_splits)

lemma copy_chunk_eq:
  "copy_chunk n dst src v = map_option (\<lambda>v. (dst + int (unat n), src + int (unat n), v)) (copy_words (unat n) dst src v)"
proof (induction n dst src v rule: copy_eights.induct)
  case (1 n dst src v)
  show ?case
  proof (cases "8 \<le> n")
    case True
    then have n: "unat n = 8 + unat (n - 8)" by (simp add: less_minus_8 word_le_nat_alt)
    have "copy_chunk n dst src v = (case copy_words 8 dst src v of None \<Rightarrow> None | Some v \<Rightarrow> copy_chunk (n - 8) (dst + 8) (src + 8) v)"
      unfolding copy_chunk_def copy_eights.simps [of n dst src v] using True by (simp split: option.split)
    also have "\<dots> = map_option (\<lambda>v. (dst + int (unat n), src + int (unat n), v)) (copy_words (unat n) dst src v)"
      using 1 True unfolding n copy_words_add by (auto simp: algebra_simps split: option.split)
    finally show ?thesis .
  next
    case False
    then show ?thesis by (auto simp: copy_chunk_def copy_eights.simps [of n dst src v] split: bind_splits)
  qed
qed

lemma copy_chunk_rev_eq:
  "copy_chunk_rev n dst src v = map_option (\<lambda>v. (dst - int (unat n), src - int (unat n), v)) (copy_words_rev (unat n) dst src v)"
proof (induction n dst src v rule: copy_eights_rev.induct)
  case (1 n dst src v)
  show ?case
  proof (cases "8 \<le> n")
    case True
    then have n: "unat n = 8 + unat (n - 8)" by (simp add: less_minus_8 word_le_nat_alt)
    have "copy_chunk_rev n dst src v = (case copy_words_rev 8 dst src v of None \<Rightarrow> None | Some v \<Rightarrow> copy_chunk_rev (n - 8) (dst - 8) (src - 8) v)"
      unfolding copy_chunk_rev_def copy_eights_rev.simps [of n dst src v] using True by (simp split: option.split)
    also have "\<dots> = map_option (\<lambda>v. (dst - int (unat n), src - int (unat n), v)) (copy_words_rev (unat n) dst src v)"
      using 1 True unfolding n copy_words_rev_add by (auto simp: algebra_simps split: option.split)
    finally show ?thesis .
  next
    case False
    then show ?thesis by (auto simp: copy_chunk_rev_def copy_eights_rev.simps [of n dst src v] split: bind_splits)
  qed
qed

lemma copy_words_eq:
  "0 \<le> \<delta> \<Longrightarrow> run_mapped dst n \<delta> v \<Longrightarrow> copy_words n dst (dst + \<delta>) v = Some (moved_run dst n \<delta> v)"
proof (induction n arbitrary: dst v)
  case 0
  then show ?case by (auto simp: moved_run_def fun_eq_iff)
next
  case (Suc n)
  obtain s w where w: "v (dst + \<delta>) = Some s" "v dst = Some w" using Suc.prems(2) by (force simp: run_mapped_def)
  have "run_mapped (dst + 1) n \<delta> (v(dst \<mapsto> s))" using Suc.prems by (auto simp: run_mapped_def)
  note ih = Suc.IH [OF Suc.prems(1) this]
  have "copy_words (Suc n) dst (dst + \<delta>) v = copy_words n (dst + 1) (dst + 1 + \<delta>) (v(dst \<mapsto> s))"
    using w by (simp add: wr_word_def algebra_simps)
  also have "\<dots> = Some (moved_run dst (Suc n) \<delta> v)"
    unfolding ih using w(1) Suc.prems(1) by (auto simp: moved_run_def fun_eq_iff)
  finally show ?case .
qed

lemma copy_words_rev_eq:
  "\<delta> \<le> 0 \<Longrightarrow> run_mapped (dst - int n) n \<delta> v \<Longrightarrow>
     copy_words_rev n (dst - 1) (dst - 1 + \<delta>) v = Some (moved_run (dst - int n) n \<delta> v)"
proof (induction n arbitrary: dst v)
  case 0
  then show ?case by (auto simp: moved_run_def fun_eq_iff)
next
  case (Suc n)
  obtain s w where w: "v (dst - 1 + \<delta>) = Some s" "v (dst - 1) = Some w"
    using Suc.prems(2) [unfolded run_mapped_def, rule_format, of "dst - 1"] by auto
  have "run_mapped (dst - 1 - int n) n \<delta> (v(dst - 1 \<mapsto> s))" using Suc.prems by (auto simp: run_mapped_def)
  note ih = Suc.IH [OF Suc.prems(1) this]
  have "copy_words_rev (Suc n) (dst - 1) (dst - 1 + \<delta>) v =
      copy_words_rev n (dst - 1 - 1) (dst - 1 - 1 + \<delta>) (v(dst - 1 \<mapsto> s))"
    using w by (simp add: wr_word_def algebra_simps)
  also have "\<dots> = Some (moved_run (dst - int (Suc n)) (Suc n) \<delta> v)"
    unfolding ih using w(1) Suc.prems(1) by (auto simp: moved_run_def fun_eq_iff)
  finally show ?case .
qed

section \<open>A line of whole words\<close>

lemma word_line:
  assumes "unat n = 32 * k" "0 < k"
  shows "n \<noteq> 0" "n mod BITS = 0" "unat (n div BITS) = k" "n \<le> BITS \<longleftrightarrow> k = 1" "1 \<le> n"
    "unat ((n - 1) div BITS) = k - 1" "(n - 1) mod BITS = 31" "(31 - n) mod BITS = 31" "32 \<ge> n \<longleftrightarrow> k = 1"
proof -
  have u: "unat BITS = 32" by (simp add: BITS_def)
  show n0: "n \<noteq> 0" using assms by auto
  show "n mod BITS = 0" using assms by (simp add: unat_eq_zero [symmetric] unat_mod u)
  show "unat (n div BITS) = k" using assms by (simp add: unat_div u)
  show "n \<le> BITS \<longleftrightarrow> k = 1" "32 \<ge> n \<longleftrightarrow> k = 1" using assms by (auto simp: word_le_nat_alt u)
  show le: "1 \<le> n" using n0 by (simp add: word_le_nat_alt Suc_le_eq unat_gt_0)
  have p: "unat (n - 1) = 32 * (k - 1) + 31" using assms le by (simp add: unat_sub algebra_simps)
  show "unat ((n - 1) div BITS) = k - 1" unfolding unat_div u p by simp
  have "unat ((n - 1) mod BITS) = 31" unfolding unat_mod u p by simp
  then show "(n - 1) mod BITS = 31" by (simp add: word_unat_eq_iff)
  have "uint n = 32 * int k" using assms(1) by (metis of_nat_mult of_nat_numeral of_nat_unat)
  then have "uint (31 - n) = (31 - 32 * int k) mod 2 ^ 32" by (simp add: uint_word_ariths)
  then have "uint ((31 - n) mod BITS) = (31 - 32 * int k) mod 2 ^ 32 mod 32" by (simp add: uint_mod BITS_def)
  also have "\<dots> = (31 - 32 * int k) mod 32" by (rule mod_mod_cancel) simp
  also have "31 - 32 * int k = 31 + 32 * - int k" by simp
  also have "\<dots> mod 32 = 31" by (simp only: mod_mult_self2) simp
  finally show "(31 - n) mod BITS = 31" by (simp add: word_uint_eq_iff)
qed

context fb_order
begin

lemma bitcpy_words:
  assumes n: "unat n = 32 * k" "0 < k" and m: "run_mapped dst k \<delta> v" and d: "0 \<le> \<delta>"
  shows "bitcpy sh dst 0 (dst + \<delta>) 0 n v = Some (moved_run dst k \<delta> v)"
proof -
  note w = word_line [OF n]
  obtain s where s: "v (dst + \<delta>) = Some s" "v dst \<noteq> None" using m n(2) by (force simp: run_mapped_def)
  show ?thesis
  proof (cases "k = 1")
    case True
    then show ?thesis using w s by (auto simp: bitcpy_def bitcpy_same_def sh_0 wr_masked_def moved_run_def fun_eq_iff)
  next
    case False
    then show ?thesis using w copy_words_eq [OF d m]
      by (simp add: bitcpy_def bitcpy_same_def sh_0 copy_chunk_eq)
  qed
qed

lemma bitcpy_rev_words:
  assumes n: "unat n = 32 * k" "0 < k" and m: "run_mapped dst k \<delta> v" and d: "\<delta> \<le> 0"
  shows "bitcpy_rev sh dst 0 (dst + \<delta>) 0 n v = Some (moved_run dst k \<delta> v)"
proof -
  note w = word_line [OF n]
  have s31: "sint (31 :: u32) = 31" by simp
  have a31: "31 AND (BITS - 1) = 31" by code_simp
  have r: "rev_start n a 0 = (a + int (k - 1), 31)" for a
    using w by (simp add: rev_start_def Let_def dst_move_def a31)
  have b: "BITS - 1 - 31 = 0" by (simp add: BITS_def)
  have e: "dst + int (k - Suc 0) = dst + int k - 1" "dst + \<delta> + int (k - Suc 0) = dst + int k - 1 + \<delta>" using n(2) by simp_all
  show ?thesis
  proof (cases "k = 1")
    case True
    obtain s where s: "v (dst + \<delta>) = Some s" "v dst \<noteq> None" using m n(2) by (force simp: run_mapped_def)
    show ?thesis using True w s r b
      by (auto simp: bitcpy_rev_def bitcpy_same_rev_def sh_0 wr_masked_def moved_run_def fun_eq_iff)
  next
    case False
    have "run_mapped (dst + int k - int k) k \<delta> v" using m by simp
    from copy_words_rev_eq [OF d this] show ?thesis using False w r b
      by (simp add: bitcpy_rev_def bitcpy_same_rev_def sh_0 copy_chunk_rev_eq e)
  qed
qed

end

section \<open>The lines of an area\<close>

text \<open>The words of the lines of an area, and the screen with the area moved.\<close>

definition in_area :: "int \<Rightarrow> nat \<Rightarrow> nat \<Rightarrow> nat \<Rightarrow> int \<Rightarrow> bool" where
  "in_area d lw k h a \<longleftrightarrow> (\<exists>y<h. d + int (y * lw) \<le> a \<and> a < d + int (y * lw) + int k)"

definition moved_area :: "int \<Rightarrow> nat \<Rightarrow> nat \<Rightarrow> nat \<Rightarrow> int \<Rightarrow> vmem \<Rightarrow> vmem" where
  "moved_area d lw k h \<delta> v a = (if in_area d lw k h a then v (a + \<delta>) else v a)"

definition area_mapped :: "int \<Rightarrow> nat \<Rightarrow> nat \<Rightarrow> nat \<Rightarrow> int \<Rightarrow> vmem \<Rightarrow> bool" where
  "area_mapped d lw k h \<delta> v \<longleftrightarrow> (\<forall>a. in_area d lw k h a \<longrightarrow> v a \<noteq> None \<and> v (a + \<delta>) \<noteq> None)"

lemma in_area_first:
  "in_area d lw k (Suc h) a \<longleftrightarrow> (d \<le> a \<and> a < d + int k) \<or> in_area (d + int lw) lw k h a"
proof -
  have "in_area d lw k (Suc h) a \<longleftrightarrow> (\<exists>y<Suc h. d + int (y * lw) \<le> a \<and> a < d + int (y * lw) + int k)" by (simp add: in_area_def)
  also have "\<dots> \<longleftrightarrow> (d \<le> a \<and> a < d + int k) \<or> (\<exists>y<h. d + int (Suc y * lw) \<le> a \<and> a < d + int (Suc y * lw) + int k)"
    unfolding Ex_less_Suc2 by simp
  also have "\<dots> \<longleftrightarrow> (d \<le> a \<and> a < d + int k) \<or> in_area (d + int lw) lw k h a"
    by (simp add: in_area_def algebra_simps)
  finally show ?thesis .
qed

lemma in_area_last:
  "in_area d lw k (Suc h) a \<longleftrightarrow> in_area d lw k h a \<or> (d + int (h * lw) \<le> a \<and> a < d + int (h * lw) + int k)"
  unfolding in_area_def by (metis less_Suc_eq)

lemma in_area_ge: "in_area d lw k h a \<Longrightarrow> d \<le> a"
  unfolding in_area_def by (metis add_increasing2 of_nat_0_le_iff order_trans order_refl)

lemma in_area_less:
  assumes "in_area d lw k h a" "k \<le> lw"
  shows "a < d + int (h * lw)"
proof -
  obtain y where y: "y < h" "a < d + int (y * lw) + int k" using assms(1) by (auto simp: in_area_def)
  have "y * lw + k \<le> Suc y * lw" using assms(2) by simp
  also have "\<dots> \<le> h * lw" using y(1) by (intro mult_le_mono1) simp
  finally have "int (y * lw) + int k \<le> int (h * lw)" by (simp only: of_nat_add [symmetric] of_nat_le_iff)
  then show ?thesis using y(2) by linarith
qed

text \<open>An index that is a multiple of 32.\<close>

lemma word_index:
  assumes "sint (i :: u32) = 32 * j"
  shows "dst_move d i = d + j" "i AND 3 = 0"
proof -
  show "dst_move d i = d + j" using assms by (simp add: dst_move_def)
  have "take_bit 2 i = 0"
  proof -
    have "take_bit 5 (sint i) = 0" using assms by (simp add: take_bit_eq_mod)
    then have "\<not> bit (sint i) n" if "n < 5" for n using that by (metis bit_0_eq bit_take_bit_iff bot_apply bot_bool_def)
    then have "\<not> bit i n" if "n < 2" for n using that by (simp add: bit_sint_iff)
    then show ?thesis by (intro bit_word_eqI) (simp add: bit_take_bit_iff)
  qed
  moreover have "(3 :: u32) = mask 2" by code_simp
  ultimately show "i AND 3 = 0" by (simp add: take_bit_eq_mask)
qed

lemma copy_lines_words:
  assumes line: "\<And>d v. run_mapped d k \<delta> v \<Longrightarrow> cpy d 0 (d + \<delta>) 0 v = Some (moved_run d k \<delta> v)"
    and k: "k \<le> lw" and d: "0 \<le> \<delta>" and lb: "sint line_bits = 32 * int lw"
    and i: "sint dst_idx = 32 * j" "sint src_idx = 32 * j'" "src + j' = dst + j + \<delta>"
    and m: "area_mapped (dst + j) lw k h \<delta> v"
  shows "copy_lines cpy line_bits h dst dst_idx src src_idx v = Some (moved_area (dst + j) lw k h \<delta> v)"
  using i m
proof (induction h arbitrary: dst dst_idx src src_idx v j j')
  case 0
  then show ?case by (simp add: moved_area_def in_area_def fun_eq_iff)
next
  case (Suc h)
  let ?P = "dst + j"
  note wi = word_index [OF Suc.prems(1)] word_index [OF Suc.prems(2)]
  have "run_mapped ?P k \<delta> v" using Suc.prems(4) by (auto simp: area_mapped_def run_mapped_def in_area_first)
  then have l: "cpy ?P 0 (src + j') 0 v = Some (moved_run ?P k \<delta> v)" unfolding Suc.prems(3) by (rule line)
  have m1: "area_mapped (?P + int lw) lw k h \<delta> (moved_run ?P k \<delta> v)"
    using Suc.prems(4) k d in_area_ge [of "?P + int lw" lw k h]
    by (fastforce simp: area_mapped_def moved_run_def in_area_first)
  have "copy_lines cpy line_bits h ?P line_bits (?P + \<delta>) line_bits (moved_run ?P k \<delta> v) =
      Some (moved_area (?P + int lw) lw k h \<delta> (moved_run ?P k \<delta> v))"
    using Suc.IH [of line_bits "int lw" line_bits "int lw" "?P + \<delta>" ?P "moved_run ?P k \<delta> v"] lb m1 by (simp add: algebra_simps)
  moreover have "moved_area (?P + int lw) lw k h \<delta> (moved_run ?P k \<delta> v) = moved_area ?P lw k (Suc h) \<delta> v"
  proof
    fix a
    show "moved_area (?P + int lw) lw k h \<delta> (moved_run ?P k \<delta> v) a = moved_area ?P lw k (Suc h) \<delta> v a"
      using in_area_ge [of "?P + int lw" lw k h a] k d by (auto simp: moved_area_def moved_run_def in_area_first)
  qed
  ultimately show ?case using l wi Suc.prems(3) by (simp add: Let_def)
qed

lemma sint_diff_back:
  assumes "sint (i :: u32) = 32 * j" "sint (lb :: u32) = 32 * int lw" "0 \<le> j"
  shows "sint (i - lb) = 32 * (j - int lw)"
proof -
  have "sint i < 2 ^ 31" "sint lb < 2 ^ 31" using sint_lt [of i] sint_lt [of lb] by simp_all
  then have "- (2 ^ 31) \<le> sint i - sint lb" "sint i - sint lb < 2 ^ 31" using assms by linarith+
  then have "sint (i - lb) = sint i - sint lb"
    by (simp add: sint_word_ariths signed_take_bit_int_eq_self)
  then show ?thesis using assms by (simp add: right_diff_distrib)
qed

lemma copy_lines_rev_words:
  assumes line: "\<And>d v. run_mapped d k \<delta> v \<Longrightarrow> cpy d 0 (d + \<delta>) 0 v = Some (moved_run d k \<delta> v)"
    and k: "k \<le> lw" and d: "\<delta> \<le> 0" and lb: "sint line_bits = 32 * int lw"
    and i: "sint dst_idx = 32 * j" "sint src_idx = 32 * j'" "src + j' = dst + j + \<delta>" "0 \<le> j" "0 \<le> j'"
    and m: "area_mapped (dst + j - int (h * lw)) lw k h \<delta> v"
  shows "copy_lines_rev cpy line_bits h dst dst_idx src src_idx v = Some (moved_area (dst + j - int (h * lw)) lw k h \<delta> v)"
  using i m
proof (induction h arbitrary: dst dst_idx src src_idx v j j')
  case 0
  then show ?case by (simp add: moved_area_def in_area_def fun_eq_iff)
next
  case (Suc h)
  let ?P = "dst + j - int lw"
  let ?d = "?P - int (h * lw)"
  have e: "dst + j - int (Suc h * lw) = ?d" by simp
  note wi = word_index [OF sint_diff_back [OF Suc.prems(1) lb Suc.prems(4)]]
    word_index [OF sint_diff_back [OF Suc.prems(2) lb Suc.prems(5)]]
  have P: "dst + (j - int lw) = ?P" "src + (j' - int lw) = ?P + \<delta>" using Suc.prems(3) by simp_all
  have la: "in_area ?d lw k (Suc h) a \<longleftrightarrow> in_area ?d lw k h a \<or> (?P \<le> a \<and> a < ?P + int k)" for a
    unfolding in_area_last by simp
  have lt: "a < ?P" if "in_area ?d lw k h a" for a using in_area_less [OF that k] by simp
  have "run_mapped ?P k \<delta> v" using Suc.prems(6) unfolding e area_mapped_def la run_mapped_def by auto
  then have l: "cpy ?P 0 (?P + \<delta>) 0 v = Some (moved_run ?P k \<delta> v)" by (rule line)
  have m1: "area_mapped ?d lw k h \<delta> (moved_run ?P k \<delta> v)"
    using Suc.prems(6) lt d unfolding e area_mapped_def la moved_run_def by fastforce
  have "copy_lines_rev cpy line_bits h ?P 0 (?P + \<delta>) 0 (moved_run ?P k \<delta> v) =
      Some (moved_area ?d lw k h \<delta> (moved_run ?P k \<delta> v))"
    using Suc.IH [of 0 0 0 0 "?P + \<delta>" ?P "moved_run ?P k \<delta> v"] m1 by simp
  moreover have "moved_area ?d lw k h \<delta> (moved_run ?P k \<delta> v) = moved_area ?d lw k (Suc h) \<delta> v"
  proof
    fix a
    show "moved_area ?d lw k h \<delta> (moved_run ?P k \<delta> v) a = moved_area ?d lw k (Suc h) \<delta> v a"
      using lt [of a] d unfolding moved_area_def moved_run_def la by auto
  qed
  ultimately have "copy_lines_rev cpy line_bits h ?P 0 (?P + \<delta>) 0 (moved_run ?P k \<delta> v) = Some (moved_area ?d lw k (Suc h) \<delta> v)" by metis
  moreover have "dst_move dst (dst_idx - line_bits) = ?P" "dst_move src (src_idx - line_bits) = ?P + \<delta>" using wi(1,3) P by simp_all
  ultimately show ?case unfolding e copy_lines_rev.simps Let_def wi(2,4) using l by simp
qed

section \<open>The area\<close>

text \<open>An area of the screen whose lines are made of whole words, for the source and for the target.\<close>

definition area_fits :: "fb_info \<Rightarrow> fb_copyarea \<Rightarrow> bool" where
  "area_fits p c \<longleftrightarrow>
     0 < unat (ca_width c) * unat (fi_bpp p) \<and>
     (unat (ca_dx c) + unat (ca_width c)) * unat (fi_bpp p) \<le> 8 * unat (fi_line_length p) \<and>
     (unat (ca_sx c) + unat (ca_width c)) * unat (fi_bpp p) \<le> 8 * unat (fi_line_length p) \<and>
     (unat (ca_dy c) + unat (ca_height c) + 2) * (8 * unat (fi_line_length p)) < 2 ^ 31 - 64 \<and>
     (unat (ca_sy c) + unat (ca_height c) + 2) * (8 * unat (fi_line_length p)) < 2 ^ 31 - 64"

definition area_words :: "fb_info \<Rightarrow> fb_copyarea \<Rightarrow> bool" where
  "area_words p c \<longleftrightarrow> 4 dvd unat (fi_screen_base p) \<and> 4 dvd unat (fi_line_length p) \<and>
     32 dvd unat (ca_dx c) * unat (fi_bpp p) \<and> 32 dvd unat (ca_sx c) * unat (fi_bpp p) \<and>
     32 dvd unat (ca_width c) * unat (fi_bpp p)"

text \<open>Where a pixel of the target comes from.\<close>

definition in_target :: "fb_copyarea \<Rightarrow> nat \<Rightarrow> nat \<Rightarrow> bool" where
  "in_target c x y \<longleftrightarrow> unat (ca_dx c) \<le> x \<and> x < unat (ca_dx c) + unat (ca_width c) \<and>
     unat (ca_dy c) \<le> y \<and> y < unat (ca_dy c) + unat (ca_height c)"

text \<open>In words: the length of a line of the screen and of the area, where the target is, and how far the
  source is from it.\<close>

definition line_words :: "fb_info \<Rightarrow> nat" where
  "line_words p = unat (fi_line_length p) div 4"

definition area_line :: "fb_info \<Rightarrow> fb_copyarea \<Rightarrow> nat" where
  "area_line p c = unat (ca_width c) * unat (fi_bpp p) div 32"

definition at_word :: "fb_info \<Rightarrow> nat \<Rightarrow> nat \<Rightarrow> int" where
  "at_word p x y = int (unat (fi_screen_base p) div 4 + (y * line_words p + x * unat (fi_bpp p) div 32))"

definition area_delta :: "fb_info \<Rightarrow> fb_copyarea \<Rightarrow> int" where
  "area_delta p c = at_word p (unat (ca_sx c)) (unat (ca_sy c)) - at_word p (unat (ca_dx c)) (unat (ca_dy c))"

lemma base_words:
  assumes "4 dvd unat (b :: u32)"
  shows "b AND 3 = 0" "int (unat (b AND NOT 3)) div 4 = int (unat b div 4)"
proof -
  have m: "(3 :: u32) = mask 2" by code_simp
  have "unat (b AND 3) = unat b mod 4"
    unfolding m take_bit_eq_mask [symmetric] by (simp add: take_bit_eq_mod unat_mod)
  then show z: "b AND 3 = 0" using assms by (simp add: unat_eq_zero)
  have "b AND NOT 3 = b"
  proof (rule bit_word_eqI)
    fix n
    have "\<not> bit (b AND 3) n" unfolding z by simp
    then show "bit (b AND NOT 3) n = bit b n" if "n < LENGTH(32)" using that by (auto simp: bit_simps)
  qed
  then show "int (unat (b AND NOT 3)) div 4 = int (unat b div 4)" by (simp add: zdiv_int)
qed

lemma area_sint:
  assumes base: "4 dvd unat (fi_screen_base p)"
    and x: "unat x * unat (fi_bpp p) \<le> 8 * unat (fi_line_length p)"
    and y: "(unat y + 2) * (8 * unat (fi_line_length p)) < 2 ^ 31 - 64"
  shows "sint (8 * (fi_screen_base p AND 3) + (y * (fi_line_length p * 8) + x * fi_bpp p)) =
      int (unat y * (8 * unat (fi_line_length p)) + unat x * unat (fi_bpp p))"
    and "sint (fi_line_length p * 8) = int (8 * unat (fi_line_length p))"
proof -
  define L X Y B where "L = unat (fi_line_length p)" and "X = unat x" and "Y = unat y" and "B = unat (fi_bpp p)"
  note nm = L_def [symmetric] X_def [symmetric] Y_def [symmetric] B_def [symmetric]
  have yl: "Y * (8 * L) + 2 * (8 * L) < 2 ^ 31 - 64" using y by (simp add: nm distrib_right)
  have l: "unat (fi_line_length p * 8) = 8 * L"
    using unat_mult_small [of "fi_line_length p" 8] yl by (simp add: nm)
  have "unat (fi_line_length p * 8) < 2 ^ 31" using yl unfolding l by simp
  then have "sint (fi_line_length p * 8) = int (8 * L)" using sint_small l by metis
  then show "sint (fi_line_length p * 8) = int (8 * unat (fi_line_length p))" by (simp add: nm)
  have z: "fi_screen_base p AND 3 = 0" using base base_words by simp
  have yy: "unat (y * (fi_line_length p * 8)) = Y * (8 * L)"
  proof -
    have "(2 :: nat) ^ 31 - 64 < 2 ^ 32" by simp
    then have "Y * (8 * L) < 2 ^ 32" using yl by linarith
    then show ?thesis using unat_mult_small [of y "fi_line_length p * 8"] unfolding l nm by blast
  qed
  have xb: "unat (x * fi_bpp p) = X * B" using unat_mult_small [of x "fi_bpp p"] x yl by (simp add: nm)
  have XB: "X * B \<le> 8 * L" using x by (simp add: nm)
  have s: "unat (y * (fi_line_length p * 8) + x * fi_bpp p) = Y * (8 * L) + X * B"
    using unat_add_small [of "y * (fi_line_length p * 8)" "x * fi_bpp p"] yy xb XB yl by simp
  have "unat (y * (fi_line_length p * 8) + x * fi_bpp p) < 2 ^ 31" unfolding s using XB yl by simp
  then have "sint (y * (fi_line_length p * 8) + x * fi_bpp p) = int (Y * (8 * L) + X * B)" using sint_small s by metis
  then show "sint (8 * (fi_screen_base p AND 3) + (y * (fi_line_length p * 8) + x * fi_bpp p)) =
      int (unat y * (8 * unat (fi_line_length p)) + unat x * unat (fi_bpp p))" by (simp add: z nm)
qed

lemma area_index:
  assumes f: "area_fits p c" and w: "area_words p c"
    and x: "32 dvd unat x * unat (fi_bpp p)" "unat x * unat (fi_bpp p) \<le> 8 * unat (fi_line_length p)"
    and y: "(unat y + 2) * (8 * unat (fi_line_length p)) < 2 ^ 31 - 64"
  shows "sint (8 * (fi_screen_base p AND 3) + (y * (fi_line_length p * 8) + x * fi_bpp p)) =
      32 * int (unat y * line_words p + unat x * unat (fi_bpp p) div 32)"
    and "sint (fi_line_length p * 8) = 32 * int (line_words p)"
proof -
  have base: "4 dvd unat (fi_screen_base p)" and l: "8 * unat (fi_line_length p) = 32 * line_words p"
    using w by (auto simp: area_words_def line_words_def)
  note s = area_sint [OF base x(2) y]
  show "sint (fi_line_length p * 8) = 32 * int (line_words p)" unfolding s(2) l by simp
  obtain q where "unat x * unat (fi_bpp p) = 32 * q" using x(1) by (elim dvdE)
  then have "unat y * (32 * line_words p) + unat x * unat (fi_bpp p) = 32 * (unat y * line_words p + unat x * unat (fi_bpp p) div 32)"
    by (simp add: distrib_left)
  then show "sint (8 * (fi_screen_base p AND 3) + (y * (fi_line_length p * 8) + x * fi_bpp p)) =
      32 * int (unat y * line_words p + unat x * unat (fi_bpp p) div 32)"
    unfolding s(1) l by (simp only: of_nat_mult of_nat_numeral)
qed

context fb_order
begin

lemma copyarea_words:
  assumes run: "fi_running p" and f: "area_fits p c" and w: "area_words p c"
  defines "D \<equiv> at_word p (unat (ca_dx c)) (unat (ca_dy c))" and "\<delta> \<equiv> area_delta p c"
  assumes m: "area_mapped D (line_words p) (area_line p c) (unat (ca_height c)) \<delta> v"
  shows "cfb_copyarea sh p c v = Some (moved_area D (line_words p) (area_line p c) (unat (ca_height c)) \<delta> v)"
proof -
  define L X Y B W H SX SY where "L = 8 * unat (fi_line_length p)" and "X = unat (ca_dx c)" and "Y = unat (ca_dy c)"
    and "B = unat (fi_bpp p)" and "W = unat (ca_width c)" and "H = unat (ca_height c)" and "SX = unat (ca_sx c)" and "SY = unat (ca_sy c)"
  note nm = L_def [symmetric] X_def [symmetric] Y_def [symmetric] B_def [symmetric] W_def [symmetric] H_def [symmetric]
    SX_def [symmetric] SY_def [symmetric]
  define P lw k n lb where "P = int (unat (fi_screen_base p) div 4)" and "lw = line_words p" and "k = area_line p c"
    and "n = ca_width c * fi_bpp p" and "lb = fi_line_length p * 8"
  have ff: "0 < W * B" "(X + W) * B \<le> L" "(SX + W) * B \<le> L" "(Y + H + 2) * L < 2 ^ 31 - 64" "(SY + H + 2) * L < 2 ^ 31 - 64"
    using f by (simp_all add: area_fits_def nm)
  have ww: "32 dvd X * B" "32 dvd SX * B" "32 dvd W * B" "4 dvd unat (fi_screen_base p)" "4 dvd unat (fi_line_length p)"
    using w by (simp_all add: area_words_def nm)
  have B: "0 < B" using ff(1) by simp
  have L: "L = 32 * lw" using ww(5) by (auto simp: L_def lw_def line_words_def)
  have WB: "W * B = 32 * k" using ww(3) by (simp add: k_def area_line_def nm)
  have k: "0 < k" "k \<le> lw" using ff(1,2) WB L by (auto simp: distrib_right)
  have XB: "X * B \<le> L" "SX * B \<le> L" "W * B \<le> L" using ff by (auto simp: distrib_right)
  have yb: "(y + 2) * L < 2 ^ 31 - 64" if "y \<le> Y + H \<or> y \<le> SY + H" for y
    using that ff(4,5) by (metis (no_types, lifting) add_le_mono1 le_less_trans mult_le_mono1)
  have n: "unat n = 32 * k"
  proof -
    have "L < 2 ^ 32" using yb [of 0] by simp
    then have "W * B < 2 ^ 32" using XB(3) by linarith
    then show ?thesis using unat_mult_small [of "ca_width c" "fi_bpp p"] unfolding n_def nm WB by blast
  qed
  have base: "int (unat (fi_screen_base p AND NOT 3)) div 4 = P" using base_words [OF ww(4)] by (simp add: P_def)
  have ix: "sint (8 * (fi_screen_base p AND 3) + (y * lb + x * fi_bpp p)) = 32 * int (unat y * lw + unat x * B div 32)"
    if "x = ca_dx c \<or> x = ca_sx c" "unat y \<le> Y + H \<or> unat y \<le> SY + H" for x y
  proof -
    have "32 dvd unat x * B" "unat x * B \<le> L" using that(1) ww(1,2) XB by (auto simp: X_def SX_def)
    then show ?thesis using area_index(1) [OF f w, of x y] yb [OF that(2)] unfolding lb_def lw_def L_def B_def by blast
  qed
  have lbs: "sint lb = 32 * int lw"
  proof -
    have "32 dvd unat (ca_dx c) * B" "unat (ca_dx c) * B \<le> L" "(unat (0 :: u32) + 2) * L < 2 ^ 31 - 64"
      using ww(1) XB(1) yb [of 0] by (auto simp: X_def)
    then show ?thesis using area_index(2) [OF f w, of "ca_dx c" 0] unfolding lb_def lw_def L_def B_def by blast
  qed
  have D: "D = P + int (Y * lw + X * B div 32)" by (simp add: D_def at_word_def P_def lw_def nm)
  have S: "D + \<delta> = P + int (SY * lw + SX * B div 32)" by (simp add: D_def \<delta>_def area_delta_def at_word_def P_def lw_def nm)
  have xw: "X * B div 32 + k \<le> lw" "SX * B div 32 + k \<le> lw"
    using ff(2,3) ww(1,2) WB L by (auto simp: distrib_right)
  have fwd: "cfb_copyarea sh p c v =
      copy_lines (\<lambda>dst di src si v. bitcpy sh dst di src si n v) lb H P
        (8 * (fi_screen_base p AND 3) + (ca_dy c * lb + ca_dx c * fi_bpp p)) P
        (8 * (fi_screen_base p AND 3) + (ca_sy c * lb + ca_sx c * fi_bpp p)) v"
    if "\<not> (ca_dy c = ca_sy c \<and> ca_dx c > ca_sx c \<or> ca_dy c > ca_sy c)"
    unfolding cfb_copyarea_def base n_def [symmetric] lb_def [symmetric] H_def [symmetric] Let_def
    using run that by (simp only: not_True_eq_False if_False)
  have bwd: "cfb_copyarea sh p c v =
      copy_lines_rev (\<lambda>dst di src si v. bitcpy_rev sh dst di src si n v) lb H P
        (8 * (fi_screen_base p AND 3) + ((ca_dy c + ca_height c) * lb + ca_dx c * fi_bpp p)) P
        (8 * (fi_screen_base p AND 3) + ((ca_sy c + ca_height c) * lb + ca_sx c * fi_bpp p)) v"
    if "ca_dy c = ca_sy c \<and> ca_dx c > ca_sx c \<or> ca_dy c > ca_sy c"
    unfolding cfb_copyarea_def base n_def [symmetric] lb_def [symmetric] H_def [symmetric] Let_def
    using run that by (simp only: not_True_eq_False if_False if_True)
  have order: "Y * lw + X * B div 32 \<le> SY * lw + SX * B div 32" if "Y < SY \<or> Y = SY \<and> X \<le> SX"
    using that
  proof
    assume "Y < SY"
    then have "Y * lw + lw \<le> SY * lw" by (metis Suc_leI add.commute mult_Suc mult_le_mono1)
    then show ?thesis using xw(1) by linarith
  next
    assume "Y = SY \<and> X \<le> SX"
    then show ?thesis by (simp add: div_le_mono)
  qed
  have order': "SY * lw + SX * B div 32 \<le> Y * lw + X * B div 32" if "SY < Y \<or> SY = Y \<and> SX \<le> X"
    using that
  proof
    assume "SY < Y"
    then have "SY * lw + lw \<le> Y * lw" by (metis Suc_leI add.commute mult_Suc mult_le_mono1)
    then show ?thesis using xw(2) by linarith
  next
    assume "SY = Y \<and> SX \<le> X"
    then show ?thesis by (simp add: div_le_mono)
  qed
  show ?thesis
  proof (cases "ca_dy c = ca_sy c \<and> ca_dx c > ca_sx c \<or> ca_dy c > ca_sy c")
    case False
    then have "Y < SY \<or> Y = SY \<and> X \<le> SX"
      by (auto simp: X_def Y_def SX_def SY_def word_less_nat_alt word_unat_eq_iff not_less)
    then have d: "0 \<le> \<delta>" using order D S by linarith
    have line: "bitcpy sh d 0 (d + \<delta>) 0 n v = Some (moved_run d k \<delta> v)" if "run_mapped d k \<delta> v" for d v
      by (rule bitcpy_words [OF n k(1) that d])
    have i: "sint (8 * (fi_screen_base p AND 3) + (ca_dy c * lb + ca_dx c * fi_bpp p)) = 32 * int (Y * lw + X * B div 32)"
      "sint (8 * (fi_screen_base p AND 3) + (ca_sy c * lb + ca_sx c * fi_bpp p)) = 32 * int (SY * lw + SX * B div 32)"
      using ix [of "ca_dx c" "ca_dy c"] ix [of "ca_sx c" "ca_sy c"] by (simp_all add: nm)
    have m': "area_mapped (P + int (Y * lw + X * B div 32)) lw k H \<delta> v" using m unfolding D [symmetric] by (simp add: lw_def k_def nm)
    have "copy_lines (\<lambda>dst di src si v. bitcpy sh dst di src si n v) lb H P
        (8 * (fi_screen_base p AND 3) + (ca_dy c * lb + ca_dx c * fi_bpp p)) P
        (8 * (fi_screen_base p AND 3) + (ca_sy c * lb + ca_sx c * fi_bpp p)) v = Some (moved_area D lw k H \<delta> v)"
      unfolding D
      by (rule copy_lines_words [where cpy = "\<lambda>dst di src si v. bitcpy sh dst di src si n v", OF line k(2) d lbs i _ m'])
        (use D S in simp_all)
    then show ?thesis unfolding fwd [OF False] lw_def k_def nm .
  next
    case True
    then have le: "SY < Y \<or> SY = Y \<and> SX \<le> X"
      by (auto simp: X_def Y_def SX_def SY_def word_less_nat_alt word_unat_eq_iff)
    then have d: "\<delta> \<le> 0" using order' D S by linarith
    have line: "bitcpy_rev sh d 0 (d + \<delta>) 0 n v = Some (moved_run d k \<delta> v)" if "run_mapped d k \<delta> v" for d v
      by (rule bitcpy_rev_words [OF n k(1) that d])
    have yh: "unat (ca_dy c + ca_height c) = Y + H" "unat (ca_sy c + ca_height c) = SY + H"
    proof -
      have "1 \<le> L" using L k by simp
      then have "Y + H < 2 ^ 31" "SY + H < 2 ^ 31"
        using ff(4,5) mult_le_mono2 [of 1 L "Y + H + 2"] mult_le_mono2 [of 1 L "SY + H + 2"] by simp_all
      then show "unat (ca_dy c + ca_height c) = Y + H" "unat (ca_sy c + ca_height c) = SY + H"
        using unat_add_small [of "ca_dy c" "ca_height c"] unat_add_small [of "ca_sy c" "ca_height c"] by (simp_all add: nm)
    qed
    have i: "sint (8 * (fi_screen_base p AND 3) + ((ca_dy c + ca_height c) * lb + ca_dx c * fi_bpp p)) = 32 * int ((Y + H) * lw + X * B div 32)"
      "sint (8 * (fi_screen_base p AND 3) + ((ca_sy c + ca_height c) * lb + ca_sx c * fi_bpp p)) = 32 * int ((SY + H) * lw + SX * B div 32)"
      using ix [of "ca_dx c" "ca_dy c + ca_height c"] ix [of "ca_sx c" "ca_sy c + ca_height c"] unfolding yh by (simp_all add: nm)
    have e': "P + int ((Y + H) * lw + X * B div 32) - int (H * lw) = D" unfolding D by (simp add: distrib_right)
    have e2: "P + int ((SY + H) * lw + SX * B div 32) = P + int ((Y + H) * lw + X * B div 32) + \<delta>"
      using D S by (simp add: distrib_right)
    have m': "area_mapped (P + int ((Y + H) * lw + X * B div 32) - int (H * lw)) lw k H \<delta> v"
      using m unfolding e' by (simp add: lw_def k_def nm)
    have "copy_lines_rev (\<lambda>dst di src si v. bitcpy_rev sh dst di src si n v) lb H P
        (8 * (fi_screen_base p AND 3) + ((ca_dy c + ca_height c) * lb + ca_dx c * fi_bpp p)) P
        (8 * (fi_screen_base p AND 3) + ((ca_sy c + ca_height c) * lb + ca_sx c * fi_bpp p)) v = Some (moved_area D lw k H \<delta> v)"
      using copy_lines_rev_words [where cpy = "\<lambda>dst di src si v. bitcpy_rev sh dst di src si n v", OF line k(2) d lbs i e2 _ _ m']
      unfolding e' by simp
    then show ?thesis unfolding bwd [OF True] lw_def k_def nm .
  qed
qed

end

end
