(* ===== verification/Fb_Area_Props.thy ===== *)
theory Fb_Area_Props
  imports Fb_Move_Props
begin

text \<open>
  Moving an area of the screen: its pixels, and where the copying goes wrong.
\<close>

section \<open>Pixels\<close>

text \<open>Where the pixel of a target comes from.\<close>

definition source_bit :: "fb_info \<Rightarrow> fb_copyarea \<Rightarrow> nat \<Rightarrow> nat \<Rightarrow> int" where
  "source_bit p c x y =
     pixel_bit p (x - unat (ca_dx c) + unat (ca_sx c)) (y - unat (ca_dy c) + unat (ca_sy c))"

lemma pixel_word:
  assumes "area_words p c"
  shows "pixel_bit p x y div 32 = at_word p x y" "pixel_bit p x y mod 32 = int (x * unat (fi_bpp p) mod 32)"
proof -
  define S L B where "S = unat (fi_screen_base p)" and "L = unat (fi_line_length p)" and "B = unat (fi_bpp p)"
  have d: "S = 4 * (S div 4)" "L = 4 * (L div 4)" using assms by (simp_all add: area_words_def S_def L_def)
  have "8 * S + y * (8 * L) + x * B = 32 * (S div 4 + (y * (L div 4) + x * B div 32)) + x * B mod 32"
  proof -
    obtain s l where "S = 4 * s" "L = 4 * l" using d by blast
    then show ?thesis by (simp add: distrib_left)
  qed
  then have "int (8 * S + y * (8 * L) + x * B) = int (32 * (S div 4 + (y * (L div 4) + x * B div 32)) + x * B mod 32)" by simp
  moreover have "pixel_bit p x y = int (8 * S + y * (8 * L) + x * B)"
    by (simp add: pixel_bit_def screen_bit_def line_width_def S_def L_def B_def)
  moreover have "int (32 * (S div 4 + (y * (L div 4) + x * B div 32)) + x * B mod 32) = 32 * at_word p x y + int (x * B mod 32)"
    by (simp only: at_word_def line_words_def S_def L_def B_def of_nat_add of_nat_mult of_nat_numeral distrib_left add.assoc)
  ultimately have e: "pixel_bit p x y = 32 * at_word p x y + int (x * B mod 32)" by simp
  have "int (x * B mod 32) < 32" by simp
  then show "pixel_bit p x y div 32 = at_word p x y" "pixel_bit p x y mod 32 = int (x * unat (fi_bpp p) mod 32)"
    unfolding B_def [symmetric]
    by (intro int_div_pos_eq [OF e] int_mod_pos_eq [OF e]; simp)+
qed

lemma area_rows:
  assumes "x' + k \<le> lw" "i < lw"
  shows "(\<exists>h<n. (Y + h) * lw + x' \<le> y * lw + i \<and> y * lw + i < (Y + h) * lw + x' + k) \<longleftrightarrow>
    (Y \<le> y \<and> y < Y + n) \<and> x' \<le> i \<and> i < x' + (k :: nat)"
proof
  assume "\<exists>h<n. (Y + h) * lw + x' \<le> y * lw + i \<and> y * lw + i < (Y + h) * lw + x' + k"
  then obtain h where h: "h < n" "(Y + h) * lw + x' \<le> y * lw + i" "y * lw + i < (Y + h) * lw + x' + k" by blast
  have "(Y + h) * lw < (y + 1) * lw" using h(2) assms(2) by (simp add: distrib_right)
  then have "Y + h < y + 1" by (simp only: mult_less_cancel2)
  moreover have "y * lw < (Y + h + 1) * lw" using h(3) assms(1) by (simp add: distrib_right)
  then have "y < Y + h + 1" by (simp only: mult_less_cancel2)
  ultimately have "y = Y + h" by simp
  then show "(Y \<le> y \<and> y < Y + n) \<and> x' \<le> i \<and> i < x' + k" using h by simp
next
  assume "(Y \<le> y \<and> y < Y + n) \<and> x' \<le> i \<and> i < x' + k"
  then show "\<exists>h<n. (Y + h) * lw + x' \<le> y * lw + i \<and> y * lw + i < (Y + h) * lw + x' + k"
    by (intro exI [of _ "y - Y"]) auto
qed

text \<open>The words of the area are those of its pixels.\<close>

lemma in_area_pixel:
  assumes f: "area_fits p c" and w: "area_words p c" and x: "(x + 1) * unat (fi_bpp p) \<le> 8 * unat (fi_line_length p)"
  shows "in_area (at_word p (unat (ca_dx c)) (unat (ca_dy c))) (line_words p) (area_line p c) (unat (ca_height c)) (at_word p x y)
    \<longleftrightarrow> in_target c x y"
proof -
  define B X W Y H lw k where "B = unat (fi_bpp p)" and "X = unat (ca_dx c)" and "W = unat (ca_width c)" and "Y = unat (ca_dy c)"
    and "H = unat (ca_height c)" and "lw = line_words p" and "k = area_line p c"
  note nm = B_def [symmetric] X_def [symmetric] W_def [symmetric] Y_def [symmetric] H_def [symmetric] lw_def [symmetric] k_def [symmetric]
  have L: "8 * unat (fi_line_length p) = 32 * lw" using w by (auto simp: area_words_def lw_def line_words_def)
  have B: "0 < B" using f by (simp add: area_fits_def nm)
  have d: "X * B = 32 * (X * B div 32)" "W * B = 32 * k" using w by (simp_all add: area_words_def nm k_def area_line_def)
  have xw: "X * B div 32 + k \<le> lw"
  proof -
    have "X * B + W * B \<le> 32 * lw" using f by (simp add: area_fits_def nm L distrib_right)
    then show ?thesis using d by linarith
  qed
  have "x * B + B \<le> 32 * lw" using x by (simp add: nm L)
  then have xl: "x * B div 32 < lw" using B by linarith
  have xin: "X * B div 32 \<le> x * B div 32 \<and> x * B div 32 < X * B div 32 + k \<longleftrightarrow> X \<le> x \<and> x < X + W"
  proof -
    have "X * B div 32 \<le> x * B div 32 \<longleftrightarrow> X * B \<le> x * B" using d(1) by linarith
    moreover have "x * B div 32 < X * B div 32 + k \<longleftrightarrow> x * B < X * B + W * B" using d by linarith
    moreover have "x * B < X * B + W * B \<longleftrightarrow> x < X + W" using B by (simp add: distrib_right [symmetric])
    ultimately show ?thesis using B by simp
  qed
  have e: "(at_word p X Y + int (h * lw) \<le> at_word p x y \<and> at_word p x y < at_word p X Y + int (h * lw) + int k) \<longleftrightarrow>
      (Y + h) * lw + X * B div 32 \<le> y * lw + x * B div 32 \<and> y * lw + x * B div 32 < (Y + h) * lw + X * B div 32 + k" for h
  proof -
    have "at_word p X Y + int (h * lw) = int (unat (fi_screen_base p) div 4) + int ((Y + h) * lw + X * B div 32)"
      "at_word p x y = int (unat (fi_screen_base p) div 4) + int (y * lw + x * B div 32)"
      by (simp_all add: at_word_def nm distrib_right)
    then show ?thesis by linarith
  qed
  show ?thesis unfolding in_area_def nm e area_rows [OF xw xl] xin by (auto simp: in_target_def nm)
qed

lemma source_word:
  assumes w: "area_words p c" and t: "in_target c x y"
  shows "source_bit p c x y div 32 = at_word p x y + area_delta p c" "source_bit p c x y mod 32 = pixel_bit p x y mod 32"
proof -
  define B X Y SX SY lw where "B = unat (fi_bpp p)" and "X = unat (ca_dx c)" and "Y = unat (ca_dy c)"
    and "SX = unat (ca_sx c)" and "SY = unat (ca_sy c)" and "lw = line_words p"
  note nm = B_def [symmetric] X_def [symmetric] Y_def [symmetric] SX_def [symmetric] SY_def [symmetric] lw_def [symmetric]
  obtain i j where ij: "x = X + i" "y = Y + j" using t by (auto simp: in_target_def nm le_iff_add)
  obtain q r where qr: "X * B = 32 * q" "SX * B = 32 * r" using w by (auto simp: area_words_def nm elim!: dvdE)
  have xb: "x * B = 32 * q + i * B" "(i + SX) * B = i * B + 32 * r" using ij(1) qr by (simp_all add: distrib_right)
  have s: "source_bit p c x y = pixel_bit p (i + SX) (j + SY)" by (simp add: source_bit_def nm ij)
  show "source_bit p c x y div 32 = at_word p x y + area_delta p c"
    unfolding s pixel_word(1) [OF w] area_delta_def at_word_def nm xb qr using ij(2) by (simp add: distrib_right)
  show "source_bit p c x y mod 32 = pixel_bit p x y mod 32"
    unfolding s pixel_word(2) [OF w] nm xb by simp
qed

lemma area_mapped_pixels:
  assumes f: "area_fits p c" and w: "area_words p c" and b: "unat (fi_bpp p) dvd 32"
    and m: "\<forall>x y. in_target c x y \<longrightarrow> v (pixel_bit p x y div 32) \<noteq> None \<and> v (source_bit p c x y div 32) \<noteq> None"
  shows "area_mapped (at_word p (unat (ca_dx c)) (unat (ca_dy c))) (line_words p) (area_line p c) (unat (ca_height c)) (area_delta p c) v"
  unfolding area_mapped_def
proof (intro allI impI)
  define B X W Y lw k where "B = unat (fi_bpp p)" and "X = unat (ca_dx c)" and "W = unat (ca_width c)" and "Y = unat (ca_dy c)"
    and "lw = line_words p" and "k = area_line p c"
  note nm = B_def [symmetric] X_def [symmetric] W_def [symmetric] Y_def [symmetric] lw_def [symmetric] k_def [symmetric]
  fix a assume "in_area (at_word p (unat (ca_dx c)) (unat (ca_dy c))) (line_words p) (area_line p c) (unat (ca_height c)) a"
  then obtain h where h: "h < unat (ca_height c)" "at_word p X Y + int (h * lw) \<le> a" "a < at_word p X Y + int (h * lw) + int k"
    by (auto simp: in_area_def nm)
  define i where "i = nat (a - (at_word p X Y + int (h * lw)))"
  have i: "i < k" "a = at_word p X Y + int (h * lw) + int i" using h by (simp_all add: i_def)
  obtain s where s: "32 = B * s" using b unfolding nm dvd_def by blast
  obtain q where q: "X * B = 32 * q" using w by (auto simp: area_words_def nm elim!: dvdE)
  have k: "W * B = 32 * k" using w by (simp add: area_words_def nm k_def area_line_def)
  have "(X + s * i) * B = X * B + B * s * i" by (simp add: algebra_simps)
  then have xb: "(X + s * i) * B = 32 * (q + i)" unfolding q s [symmetric] by simp
  have "s * i * B < W * B" unfolding k using i(1) s by (metis mult.commute mult.left_commute mult_less_cancel1 zero_less_numeral)
  then have "s * i < W" by simp
  then have t: "in_target c (X + s * i) (Y + h)" using h(1) by (simp add: in_target_def nm)
  have "a = at_word p (X + s * i) (Y + h)" unfolding i(2) at_word_def nm xb q by (simp add: distrib_right)
  then show "v a \<noteq> None \<and> v (a + area_delta p c) \<noteq> None"
    using m [rule_format, OF t] source_word(1) [OF w t] pixel_word(1) [OF w] by simp
qed

text \<open>C26: Moving an area whose lines begin and end at words of the screen, for the source and for the target,
  returns, and then every pixel of the target is the old pixel of the source, also where source and target
  overlap, and every other pixel is as it was. The depth divides a word and the words of source and target are
  mapped.\<close>

theorem copyarea_pixels:
  assumes order: "fb_order sh pos" and run: "fi_running p" and bpp: "whole_bpp (fi_bpp p)"
    and fits: "area_fits p c" and words: "area_words p c"
    and m: "\<forall>x y. in_target c x y \<longrightarrow> v (pixel_bit p x y div 32) \<noteq> None \<and> v (source_bit p c x y div 32) \<noteq> None"
  shows "\<exists>v'. cfb_copyarea sh p c v = Some v' \<and>
    (\<forall>x y. (x + 1) * unat (fi_bpp p) \<le> 8 * unat (fi_line_length p) \<longrightarrow>
      fb_pixel (unat (fi_bpp p)) v' (pixel_bit p x y) =
        fb_pixel (unat (fi_bpp p)) v (if in_target c x y then source_bit p c x y else pixel_bit p x y))"
proof -
  have b: "unat (fi_bpp p) dvd 32" using bpp by (auto simp: whole_bpp_def)
  let ?v = "moved_area (at_word p (unat (ca_dx c)) (unat (ca_dy c))) (line_words p) (area_line p c) (unat (ca_height c)) (area_delta p c) v"
  have r: "cfb_copyarea sh p c v = Some ?v"
    by (rule fb_order.copyarea_words [OF order run fits words area_mapped_pixels [OF fits words b m]])
  have "fb_pixel B ?v (pixel_bit p x y) = fb_pixel B v (if in_target c x y then source_bit p c x y else pixel_bit p x y)"
    if x: "(x + 1) * unat (fi_bpp p) \<le> 8 * unat (fi_line_length p)" for x y B
    using source_word [OF words, of x y]
    by (simp add: fb_pixel_def pixel_word(1) [OF words] moved_area_def in_area_pixel [OF fits words x])
  then show ?thesis using r by blast
qed

definition move_wit_info :: fb_info where
  "move_wit_info = \<lparr>fi_running = True, fi_palette_visual = False, fi_palette = [], fi_bpp = 8, fi_screen_base = 0, fi_line_length = 16\<rparr>"

definition move_wit_area :: fb_copyarea where
  "move_wit_area = \<lparr>ca_dx = 4, ca_dy = 0, ca_width = 8, ca_height = 2, ca_sx = 0, ca_sy = 0\<rparr>"

lemma copyarea_pixels_witness:
  "\<exists>v'. cfb_copyarea sh_be move_wit_info move_wit_area (\<lambda>a. Some (word_of_int a)) = Some v' \<and>
     fb_pixel 8 v' (pixel_bit move_wit_info 11 1) = Some 5"
proof -
  let ?v = "\<lambda>a. Some (word_of_int a) :: u32 option"
  have "fi_running move_wit_info" "whole_bpp (fi_bpp move_wit_info)" "area_fits move_wit_info move_wit_area"
    "area_words move_wit_info move_wit_area"
    "\<forall>x y. in_target move_wit_area x y \<longrightarrow> ?v (pixel_bit move_wit_info x y div 32) \<noteq> None \<and>
       ?v (source_bit move_wit_info move_wit_area x y div 32) \<noteq> None"
    by (simp_all add: move_wit_info_def move_wit_area_def whole_bpp_def area_fits_def area_words_def)
  from copyarea_pixels [OF be_order this] obtain v' where v': "cfb_copyarea sh_be move_wit_info move_wit_area ?v = Some v'"
    "\<forall>x y. (x + 1) * 8 \<le> 8 * unat (fi_line_length move_wit_info) \<longrightarrow> fb_pixel 8 v' (pixel_bit move_wit_info x y) =
       fb_pixel 8 ?v (if in_target move_wit_area x y then source_bit move_wit_info move_wit_area x y else pixel_bit move_wit_info x y)"
    by (auto simp: move_wit_info_def)
  have "in_target move_wit_area 11 1" "pixel_bit move_wit_info 7 1 = 184" "source_bit move_wit_info move_wit_area 11 1 = 184"
    by (simp_all add: in_target_def move_wit_area_def move_wit_info_def source_bit_def pixel_bit_def screen_bit_def line_width_def)
  moreover have "take_bit 8 (5 :: u32) = 5" by code_simp
  then have "fb_pixel 8 ?v 184 = Some 5" by (simp add: fb_pixel_def)
  ultimately have "fb_pixel 8 v' (pixel_bit move_wit_info 11 1) = Some 5"
    using v'(2) [rule_format, of 11 1] by (simp add: move_wit_info_def)
  then show ?thesis using v'(1) by blast
qed

end
