(* ===== verification/Fb_Copy_Faults.thy ===== *)
theory Fb_Copy_Faults
  imports Fb_Area_Props
begin

text \<open>
  Where moving an area goes wrong: a line that is shifted loses its first word, and the pixels before the area
  in its first word count as part of it.
\<close>

section \<open>A shifted line\<close>

text \<open>The whole of the memory is mapped, and nothing below an address changes.\<close>

definition kept_below :: "int \<Rightarrow> vmem \<Rightarrow> vmem \<Rightarrow> bool" where
  "kept_below d v v' \<longleftrightarrow> (\<forall>a. v' a \<noteq> None) \<and> (\<forall>a<d. v' a = v a)"

lemma kept_wr_word:
  assumes "\<forall>a. v a \<noteq> None" "d \<le> b"
  shows "\<exists>v'. wr_word f b v = Some v' \<and> kept_below d v v'"
  using assms by (force simp: wr_word_def kept_below_def split: option.split)

lemma kept_wr_masked:
  assumes "\<forall>a. v a \<noteq> None" "d \<le> b"
  shows "\<exists>v'. wr_masked f m b v = Some v' \<and> kept_below d v v'"
  using assms by (force simp: wr_masked_def kept_below_def split: option.split)

lemma kept_below_trans: "kept_below d v v' \<Longrightarrow> kept_below d v' v'' \<Longrightarrow> kept_below d v v''"
  by (simp add: kept_below_def)

lemma kept_below_mapped: "kept_below d v v' \<Longrightarrow> \<forall>a. v' a \<noteq> None"
  by (simp add: kept_below_def)

lemma kept_shift_words:
  "\<forall>a. v a \<noteq> None \<Longrightarrow> d \<le> dst \<Longrightarrow> \<exists>r v'. shift_words left right n d0 dst src v = Some (r, v') \<and> kept_below d v v'"
proof (induction n arbitrary: d0 dst src v)
  case 0
  then show ?case by (simp add: kept_below_def)
next
  case (Suc n)
  obtain d1 where d1: "v src = Some d1" using Suc.prems(1) by blast
  obtain v1 where v1: "wr_word (\<lambda>_. joined left right d0 d1) dst v = Some v1" "kept_below d v v1"
    using kept_wr_word [OF Suc.prems] by blast
  have "d \<le> dst + 1" using Suc.prems(2) by simp
  from Suc.IH [OF kept_below_mapped [OF v1(2)] this, of d1 "src + 1"] obtain r v' where
    v': "shift_words left right n d1 (dst + 1) (src + 1) v1 = Some (r, v')" "kept_below d v1 v'" by (elim exE conjE)
  show ?case using kept_below_trans [OF v1(2) v'(2)] by (simp add: d1 v1(1) v'(1))
qed

lemma kept_shift_fours:
  "\<forall>a. v a \<noteq> None \<Longrightarrow> d \<le> dst \<Longrightarrow>
     \<exists>n' r dst' src' v'. shift_fours left right n d0 dst src v = Some (n', r, dst', src', v') \<and> d \<le> dst' \<and> kept_below d v v'"
proof (induction left right n d0 dst src v rule: shift_fours.induct)
  case (1 left right n d0 dst src v)
  show ?case
  proof (cases "4 \<le> n")
    case True
    obtain r v1 where v1: "shift_words left right 4 d0 dst src v = Some (r, v1)" "kept_below d v v1"
      using kept_shift_words [OF "1.prems"] by blast
    have "d \<le> dst + 4" using "1.prems"(2) by simp
    from "1.IH" [OF True v1(1) refl kept_below_mapped [OF v1(2)] this] obtain n' r' dst' src' v' where
      v': "shift_fours left right (n - 4) r (dst + 4) (src + 4) v1 = Some (n', r', dst', src', v')" "d \<le> dst'" "kept_below d v1 v'"
      by (elim exE conjE)
    show ?thesis using True v'(2) kept_below_trans [OF v1(2) v'(3)]
      unfolding shift_fours.simps [of left right n] by (simp add: v1(1) v'(1))
  next
    case False
    then show ?thesis using "1.prems" by (simp add: shift_fours.simps [of left right n] kept_below_def)
  qed
qed

lemma kept_shift_chunk:
  assumes "\<forall>a. v a \<noteq> None" "d \<le> dst"
  shows "\<exists>r dst' src' v'. shift_chunk left right n d0 dst src v = Some (r, dst', src', v') \<and> d \<le> dst' \<and> kept_below d v v'"
proof -
  obtain n' r dst' src' v1 where a: "shift_fours left right n d0 dst src v = Some (n', r, dst', src', v1)" "d \<le> dst'" "kept_below d v v1"
    using kept_shift_fours [OF assms] by blast
  obtain r' v' where "shift_words left right (unat n') r dst' src' v1 = Some (r', v')" "kept_below d v1 v'"
    using kept_shift_words [OF kept_below_mapped [OF a(3)] a(2)] by blast
  then show ?thesis using a(1,2) kept_below_trans [OF a(3)] by (auto simp: shift_chunk_def intro: add_increasing2)
qed

text \<open>Copying forwards a line that does not begin at the same bit of a word as its source and that ends beyond the
  first word of the target never writes that first word: the address is moved on before the leading bits are
  written. All of the memory is mapped.\<close>

theorem bitcpy_loses_first_word:
  assumes "dst_idx \<noteq> src_idx" "BITS < dst_idx + n" "\<forall>a. v a \<noteq> None"
  shows "\<exists>v'. bitcpy sh dst dst_idx src src_idx n v = Some v' \<and> v' dst = v dst"
proof -
  let ?right = "unat (dst_idx - src_idx AND (BITS - 1))" and ?left = "unat (- (dst_idx - src_idx) AND (BITS - 1))"
  let ?first = "sh (unat dst_idx)" and ?last = "NOT (sh (unat ((dst_idx + n) mod BITS)))"
  have z: "dst_idx - src_idx \<noteq> 0" "\<not> dst_idx + n \<le> BITS" using assms by simp_all
  obtain w where w: "v src = Some w" using assms(3) by blast
  obtain w' where w': "v (src + 1) = Some w'" using assms(3) by blast
  have tail: "\<exists>v'. (do {
       v \<leftarrow> wr_masked (\<lambda>_. d0) ?first (dst + 1) v;
       (d0, dst, src, v) \<leftarrow> shift_chunk ?left ?right ((n - (BITS - dst_idx)) div BITS) d1 (dst + 1) s v;
       if ?last \<noteq> 0 then
         (if unat ((n - (BITS - dst_idx)) mod BITS) \<le> ?right then wr_masked (\<lambda>_. push_bit ?left d0) ?last dst v
          else do { d1 \<leftarrow> v src; wr_masked (\<lambda>_. joined ?left ?right d0 d1) ?last dst v })
       else Some v }) = Some v' \<and> kept_below (dst + 1) v v'" for d0 d1 s
  proof -
    obtain v1 where v1: "wr_masked (\<lambda>_. d0) ?first (dst + 1) v = Some v1" "kept_below (dst + 1) v v1"
      using kept_wr_masked [OF assms(3) order_refl] by blast
    obtain r d' s' v2 where v2: "shift_chunk ?left ?right ((n - (BITS - dst_idx)) div BITS) d1 (dst + 1) s v1 = Some (r, d', s', v2)"
      "dst + 1 \<le> d'" "kept_below (dst + 1) v1 v2"
      using kept_shift_chunk [OF kept_below_mapped [OF v1(2)] order_refl] by blast
    obtain x where x: "v2 s' = Some x" using kept_below_mapped [OF v2(3)] by blast
    have k: "kept_below (dst + 1) v v2" by (rule kept_below_trans [OF v1(2) v2(3)])
    have "\<exists>v'. wr_masked (\<lambda>_. y) ?last d' v2 = Some v' \<and> kept_below (dst + 1) v v'" for y
      using kept_wr_masked [OF kept_below_mapped [OF v2(3)] v2(2)] kept_below_trans [OF k] by blast
    then show ?thesis using v1(1) v2(1) x k by auto
  qed
  have "\<exists>v'. bitcpy sh dst dst_idx src src_idx n v = Some v' \<and> kept_below (dst + 1) v v'"
  proof (cases "0 < sint (dst_idx - src_idx)")
    case True
    then show ?thesis using tail [of "drop_bit ?right w" w "src + 1"] z w
      by (simp add: bitcpy_def bitcpy_shift_def Let_def del: minus_diff_eq)
  next
    case False
    then show ?thesis using tail [of "joined ?left ?right w w'" w' "src + 2"] z w w'
      by (simp add: bitcpy_def bitcpy_shift_def Let_def del: minus_diff_eq)
  qed
  then show ?thesis by (auto simp: kept_below_def)
qed

lemma bitcpy_loses_first_word_witness:
  "\<exists>v'. bitcpy sh_be 0 4 2 0 64 (\<lambda>_. Some 7) = Some v' \<and> v' 0 = Some 7"
  using bitcpy_loses_first_word [of 4 0 64 "\<lambda>_. Some 7" sh_be 0 2] by (simp add: BITS_def)

section \<open>The first pixel\<close>

text \<open>An index that is a multiple of 4: the words it stands for, and the bit that is left.\<close>

lemma index_low_bits: "take_bit 2 (sint (i :: u32)) = 0 \<Longrightarrow> i AND 3 = 0"
proof -
  assume "take_bit 2 (sint i) = 0"
  then have "\<not> bit (sint i) n" if "n < 2" for n using that by (metis bit_0_eq bit_take_bit_iff bot_apply bot_bool_def)
  then have "take_bit 2 i = 0" by (intro bit_word_eqI) (auto simp: bit_take_bit_iff bit_sint_iff)
  moreover have "(3 :: u32) = mask 2" by code_simp
  ultimately show "i AND 3 = 0" by (simp add: take_bit_eq_mask)
qed

lemma index_step:
  assumes "sint (i :: u32) = int m" "4 dvd m"
  shows "dst_move d i = d + int (m div 32)" "i AND 3 = 0"
proof -
  show "dst_move d i = d + int (m div 32)" using assms by (simp add: dst_move_def zdiv_int)
  have "take_bit 2 (sint i) = 0" using assms by (auto simp: take_bit_eq_mod)
  then show "i AND 3 = 0" by (rule index_low_bits)
qed

lemma index_step_back:
  assumes "sint (i :: u32) = int m" "4 dvd m" "sint (lb :: u32) = int (32 * l)"
  shows "dst_move d (i - lb) = d + int (m div 32) - int l" "(i - lb) AND 3 = 0"
proof -
  have "sint i < 2 ^ 31" "sint lb < 2 ^ 31" using sint_lt [of i] sint_lt [of lb] by simp_all
  then have "- (2 ^ 31) \<le> sint i - sint lb" "sint i - sint lb < 2 ^ 31" using assms by linarith+
  then have s: "sint (i - lb) = sint i - sint lb"
    by (simp add: sint_word_ariths signed_take_bit_int_eq_self)
  have "int m - int (32 * l) = int m + 32 * - int l" by simp
  then have "(int m - int (32 * l)) div 32 = int m div 32 - int l" by (simp only: div_mult_self2)
  then show "dst_move d (i - lb) = d + int (m div 32) - int l" by (simp add: dst_move_def s assms(1,3) zdiv_int)
  have "4 dvd sint i - sint lb" unfolding assms(1,3) using assms(2)
    by (intro dvd_diff) (auto simp: int_dvd_int_iff [of 4, simplified] intro: dvd_mult2)
  then have "take_bit 2 (sint (i - lb)) = 0" unfolding s by (auto simp: take_bit_eq_mod)
  then show "(i - lb) AND 3 = 0" by (rule index_low_bits)
qed

text \<open>The loops depend on the words only.\<close>

lemma copy_lines_start:
  assumes "dst_move d i = dst_move d i'" "i AND 3 = i' AND 3" "dst_move s k = dst_move s k'" "k AND 3 = k' AND 3"
  shows "copy_lines cpy lb h d i s k v = copy_lines cpy lb h d i' s k' v"
  using assms by (cases h) simp_all

lemma copy_lines_rev_start:
  assumes "dst_move d (i - lb) = dst_move d (i' - lb)" "(i - lb) AND 3 = (i' - lb) AND 3"
    "dst_move s (k - lb) = dst_move s (k' - lb)" "(k - lb) AND 3 = (k' - lb) AND 3"
  shows "copy_lines_rev cpy lb h d i s k v = copy_lines_rev cpy lb h d i' s k' v"
  by (cases h) (simp_all only: copy_lines_rev.simps Let_def assms)

text \<open>Two columns in the same word of a line.\<close>

definition same_word :: "fb_info \<Rightarrow> u32 \<Rightarrow> u32 \<Rightarrow> bool" where
  "same_word p x x' \<longleftrightarrow> unat x * unat (fi_bpp p) div 32 = unat x' * unat (fi_bpp p) div 32 \<and>
     unat x * unat (fi_bpp p) \<le> 8 * unat (fi_line_length p) \<and> unat x' * unat (fi_bpp p) \<le> 8 * unat (fi_line_length p)"

definition first_index :: "fb_info \<Rightarrow> u32 \<Rightarrow> u32 \<Rightarrow> u32" where
  "first_index p x y = 8 * (fi_screen_base p AND 3) + (y * (fi_line_length p * 8) + x * fi_bpp p)"

lemma same_word_index:
  assumes b: "4 dvd unat (fi_screen_base p)" "4 dvd unat (fi_line_length p)" "4 dvd unat (fi_bpp p)"
    and x: "same_word p x x'" and y: "(unat y + 2) * (8 * unat (fi_line_length p)) < 2 ^ 31 - 64"
  shows "dst_move d (first_index p x y) = dst_move d (first_index p x' y)"
    "first_index p x y AND 3 = first_index p x' y AND 3"
    "dst_move d (first_index p x y - fi_line_length p * 8) = dst_move d (first_index p x' y - fi_line_length p * 8)"
    "(first_index p x y - fi_line_length p * 8) AND 3 = (first_index p x' y - fi_line_length p * 8) AND 3"
proof -
  let ?m = "\<lambda>x. unat y * (8 * unat (fi_line_length p)) + unat x * unat (fi_bpp p)"
  obtain l where l: "unat (fi_line_length p) = 4 * l" using b(2) by (elim dvdE)
  have xx: "unat x * unat (fi_bpp p) \<le> 8 * unat (fi_line_length p)" "unat x' * unat (fi_bpp p) \<le> 8 * unat (fi_line_length p)"
    using x by (simp_all add: same_word_def)
  have s: "sint (first_index p x y) = int (?m x)" "sint (first_index p x' y) = int (?m x')"
    unfolding first_index_def by (rule area_sint(1) [OF b(1) xx(1) y] area_sint(1) [OF b(1) xx(2) y])+
  have lb: "sint (fi_line_length p * 8) = int (32 * l)" using area_sint(2) [OF b(1) xx(1) y] l by simp
  have d: "4 dvd ?m x" "4 dvd ?m x'" using b(3) by simp_all
  have e: "?m x div 32 = ?m x' div 32"
  proof -
    have m: "?m z = 32 * (unat y * l) + unat z * unat (fi_bpp p)" for z :: u32 using l by simp
    have "?m z div 32 = unat y * l + unat z * unat (fi_bpp p) div 32" for z :: u32 unfolding m by simp
    then show ?thesis using x by (simp only: same_word_def)
  qed
  show "dst_move d (first_index p x y) = dst_move d (first_index p x' y)" "first_index p x y AND 3 = first_index p x' y AND 3"
    unfolding index_step [OF s(1) d(1)] index_step [OF s(2) d(2)] e by (rule refl)+
  show "dst_move d (first_index p x y - fi_line_length p * 8) = dst_move d (first_index p x' y - fi_line_length p * 8)"
    "(first_index p x y - fi_line_length p * 8) AND 3 = (first_index p x' y - fi_line_length p * 8) AND 3"
    unfolding index_step_back [OF s(1) d(1) lb] index_step_back [OF s(2) d(2) lb] e by (rule refl)+
qed

text \<open>With a depth of a multiple of 4 bits, moving an area between different lines does the same wherever in a
  word the target and the source begin: the index of the first bit is masked with the number of bytes of a word,
  so that the pixels of the word before the area are moved as if they were its first ones.\<close>

theorem copyarea_ignores_pixel:
  assumes b: "4 dvd unat (fi_screen_base p)" "4 dvd unat (fi_line_length p)" "4 dvd unat (fi_bpp p)"
    and fits: "(unat (ca_dy c) + unat (ca_height c) + 2) * (8 * unat (fi_line_length p)) < 2 ^ 31 - 64"
      "(unat (ca_sy c) + unat (ca_height c) + 2) * (8 * unat (fi_line_length p)) < 2 ^ 31 - 64"
    and other: "ca_dy c \<noteq> ca_sy c" and x: "same_word p (ca_dx c) dx" "same_word p (ca_sx c) sx"
  shows "cfb_copyarea sh p c v = cfb_copyarea sh p (c\<lparr>ca_dx := dx, ca_sx := sx\<rparr>) v"
proof (cases "fi_running p")
  case True
  have y: "(unat y + 2) * (8 * unat (fi_line_length p)) < 2 ^ 31 - 64"
    if "unat y \<le> unat (ca_dy c) + unat (ca_height c) \<or> unat y \<le> unat (ca_sy c) + unat (ca_height c)" for y :: u32
    using that fits by (metis (no_types, lifting) add_le_mono1 le_less_trans mult_le_mono1)
  have ya: "unat (a + b :: u32) \<le> unat a + unat b" for a b by (metis unat_word_ariths(1) mod_less_eq_dividend)
  note i = same_word_index [OF b x(1) y, of "ca_dy c"] same_word_index [OF b x(2) y, of "ca_sy c"]
    same_word_index [OF b x(1) y, of "ca_dy c + ca_height c"] same_word_index [OF b x(2) y, of "ca_sy c + ca_height c"]
  show ?thesis
  proof (cases "ca_dy c > ca_sy c")
    case True
    show ?thesis
      unfolding cfb_copyarea_def Let_def first_index_def [symmetric] using \<open>fi_running p\<close> True other i ya
      by (simp add: copy_lines_rev_start [of _ "first_index p (ca_dx c) (ca_dy c + ca_height c)" _ "first_index p dx (ca_dy c + ca_height c)"])
  next
    case False
    show ?thesis
      unfolding cfb_copyarea_def Let_def first_index_def [symmetric] using \<open>fi_running p\<close> False other i ya
      by (simp add: copy_lines_start [of _ "first_index p (ca_dx c) (ca_dy c)" "first_index p dx (ca_dy c)"])
  qed
qed (simp add: cfb_copyarea_def)

lemma copyarea_ignores_pixel_witness:
  "cfb_copyarea sh_be move_wit_info (move_wit_area\<lparr>ca_dx := 5, ca_sy := 1\<rparr>) (\<lambda>_. Some 7) =
   cfb_copyarea sh_be move_wit_info (move_wit_area\<lparr>ca_sy := 1\<rparr>) (\<lambda>_. Some 7)"
  using copyarea_ignores_pixel [of move_wit_info "move_wit_area\<lparr>ca_dx := 5, ca_sy := 1\<rparr>" 4 0 sh_be "\<lambda>_. Some 7"]
  by (simp add: move_wit_info_def move_wit_area_def same_word_def)

end
