(* ===== verification/Fb_Imgblt.thy ===== *)
theory Fb_Imgblt
  imports Fb_Fillrect "HOL-Library.Monad_Syntax"
begin

text \<open>
  \<open>drivers/video/cfbimgblt.c\<close>: drawing an image, of one bit a pixel or of indices of colours, on the screen.

  \<open>dst\<close> is a byte address here; a word is read or written at addresses that are divisible by 4, anything
  else is \<open>None\<close>, as is reading behind the data of the image. The order of the bytes and the shifts that
  depend on it (\<open>FB_SHIFT_HIGH\<close>, \<open>FB_SHIFT_LOW\<close>, \<open>FB_LEFT_POS\<close>) come from headers that are not part of the
  repository and are a parameter (\<open>fb_arch\<close>). The option for reversed pixels in a byte is off, so a mask is a
  shift of ones (\<open>fb_shifted_pixels_mask_u32\<close>) and \<open>bswapmask\<close> is 0.
\<close>

record fb_arch =
  a_big :: bool
  a_high :: "u32 \<Rightarrow> nat \<Rightarrow> u32"
  a_low :: "u32 \<Rightarrow> nat \<Rightarrow> u32"
  a_left :: "u32 \<Rightarrow> nat"

record fb_image =
  im_dx :: u32
  im_dy :: u32
  im_width :: u32
  im_height :: u32
  im_fg_color :: u32
  im_bg_color :: u32
  im_depth :: u8
  im_data :: "u8 list"

definition FB_READL :: "int \<Rightarrow> vmem \<Rightarrow> u32 option" where
  "FB_READL dst v = (if dst mod 4 = 0 then v (dst div 4) else None)"

definition FB_WRITEL :: "u32 \<Rightarrow> int \<Rightarrow> vmem \<Rightarrow> vmem option" where
  "FB_WRITEL val dst v = (case FB_READL dst v of None \<Rightarrow> None | Some _ \<Rightarrow> Some (v(dst div 4 \<mapsto> val)))"

section \<open>The tables\<close>

definition cfb_tab8 :: "bool \<Rightarrow> u32 list" where
  "cfb_tab8 big =
     (if big then
        [0x00000000, 0x000000ff, 0x0000ff00, 0x0000ffff, 0x00ff0000, 0x00ff00ff, 0x00ffff00, 0x00ffffff,
         0xff000000, 0xff0000ff, 0xff00ff00, 0xff00ffff, 0xffff0000, 0xffff00ff, 0xffffff00, 0xffffffff]
      else
        [0x00000000, 0xff000000, 0x00ff0000, 0xffff0000, 0x0000ff00, 0xff00ff00, 0x00ffff00, 0xffffff00,
         0x000000ff, 0xff0000ff, 0x00ff00ff, 0xffff00ff, 0x0000ffff, 0xff00ffff, 0x00ffffff, 0xffffffff])"

definition cfb_tab16 :: "bool \<Rightarrow> u32 list" where
  "cfb_tab16 big =
     (if big then [0x00000000, 0x0000ffff, 0xffff0000, 0xffffffff]
      else [0x00000000, 0xffff0000, 0x0000ffff, 0xffffffff])"

definition cfb_tab32 :: "u32 list" where
  "cfb_tab32 = [0x00000000, 0xffffffff]"

section \<open>A line, pixel by pixel\<close>

text \<open>The address, the word that is being filled, the place in it, and the screen.\<close>

type_synonym blit = "int \<times> u32 \<times> u32 \<times> vmem"

definition blit_start :: "fb_arch \<Rightarrow> u32 \<Rightarrow> int \<Rightarrow> vmem \<Rightarrow> blit option" where
  "blit_start A start_index dst v =
     (if start_index \<noteq> 0 then do {
        w \<leftarrow> FB_READL dst v;
        Some (dst, w AND NOT (a_high A (- 1) (unat start_index)), start_index, v) }
      else Some (dst, 0, 0, v))"

definition put_pixel :: "fb_arch \<Rightarrow> u32 \<Rightarrow> u32 \<Rightarrow> blit \<Rightarrow> blit option" where
  "put_pixel A bpp color st =
     (case st of (dst, val, shift, v) \<Rightarrow> do {
        let null_bits = 32 - bpp;
        let val = val OR a_high A color (unat shift);
        (dst, val, v) \<leftarrow>
          (if shift \<ge> null_bits then do {
             v \<leftarrow> FB_WRITEL val dst v;
             Some (dst + 4, if shift = null_bits then 0 else a_low A color (unat (32 - shift)), v) }
           else Some (dst, val, v));
        Some (dst, val, (shift + bpp) AND (32 - 1), v) })"

definition blit_end :: "fb_arch \<Rightarrow> blit \<Rightarrow> vmem option" where
  "blit_end A st =
     (case st of (dst, val, shift, v) \<Rightarrow>
        if shift \<noteq> 0 then do {
          w \<leftarrow> FB_READL dst v;
          FB_WRITEL ((w AND a_high A (- 1) (unat shift)) OR val) dst v }
        else Some v)"

definition data_at :: "u8 list \<Rightarrow> nat \<Rightarrow> u8 option" where
  "data_at xs i = (if i < length xs then Some (xs ! i) else None)"

definition palette_at :: "fb_info \<Rightarrow> u32 \<Rightarrow> u32 option" where
  "palette_at p c =
     (if fi_palette_visual p then (if unat c < length (fi_palette p) then Some (fi_palette p ! unat c) else None)
      else Some c)"

section \<open>Images of colours\<close>

fun color_pixels :: "fb_arch \<Rightarrow> fb_info \<Rightarrow> u8 list \<Rightarrow> nat \<Rightarrow> nat \<Rightarrow> blit \<Rightarrow> (nat \<times> blit) option" where
  "color_pixels A p data 0 src st = Some (src, st)"
| "color_pixels A p data (Suc n) src st = do {
     b \<leftarrow> data_at data src;
     color \<leftarrow> palette_at p (ucast b);
     st \<leftarrow> put_pixel A (fi_bpp p) (push_bit (a_left A (fi_bpp p)) color) st;
     color_pixels A p data n (src + 1) st }"

text \<open>
  The next line: \<open>dst2\<close> points to words, so adding the bytes of a line to it moves it on by that many words.
\<close>

definition next_line :: "fb_info \<Rightarrow> u32 \<Rightarrow> int \<Rightarrow> int \<Rightarrow> u32 \<Rightarrow> int \<times> int \<times> u32" where
  "next_line p pitch_index dst1 dst2 start_index =
     (if pitch_index \<noteq> 0 then
        (let dst2 = dst2 + 4 * int (unat (fi_line_length p))
         in (4 * (dst2 div 4), dst2, (start_index + pitch_index) AND (32 - 1)))
      else (dst1 + int (unat (fi_line_length p)), dst2, start_index))"

fun color_lines :: "fb_arch \<Rightarrow> fb_info \<Rightarrow> u32 \<Rightarrow> u8 list \<Rightarrow> nat \<Rightarrow> nat \<Rightarrow> nat \<Rightarrow> int \<Rightarrow> int \<Rightarrow> u32 \<Rightarrow> vmem \<Rightarrow> vmem option" where
  "color_lines A p pitch data width 0 src dst1 dst2 start v = Some v"
| "color_lines A p pitch data width (Suc h) src dst1 dst2 start v = do {
     st \<leftarrow> blit_start A start dst1 v;
     (src, st) \<leftarrow> color_pixels A p data width src st;
     v \<leftarrow> blit_end A st;
     let (dst1, dst2, start) = next_line p pitch dst1 dst2 start;
     color_lines A p pitch data width h src dst1 dst2 start v }"

definition color_imageblit :: "fb_arch \<Rightarrow> fb_image \<Rightarrow> fb_info \<Rightarrow> int \<Rightarrow> u32 \<Rightarrow> u32 \<Rightarrow> vmem \<Rightarrow> vmem option" where
  "color_imageblit A im p dst1 start_index pitch_index v =
     color_lines A p pitch_index (im_data im) (unat (im_width im)) (unat (im_height im)) 0 dst1 dst1 start_index v"

section \<open>Images of bits\<close>

text \<open>\<open>l\<close> bits of the byte at \<open>s\<close> are left.\<close>

fun slow_pixels :: "fb_arch \<Rightarrow> u32 \<Rightarrow> u32 \<Rightarrow> u32 \<Rightarrow> u8 list \<Rightarrow> nat \<Rightarrow> nat \<Rightarrow> nat \<Rightarrow> blit \<Rightarrow> blit option" where
  "slow_pixels A bpp fg bg data 0 l s st = Some st"
| "slow_pixels A bpp fg bg data (Suc j) l s st = do {
     let l = l - 1;
     b \<leftarrow> data_at data s;
     st \<leftarrow> put_pixel A bpp (if bit b l then fg else bg) st;
     if l = 0 then slow_pixels A bpp fg bg data j 8 (s + 1) st else slow_pixels A bpp fg bg data j l s st }"

fun slow_lines :: "fb_arch \<Rightarrow> fb_info \<Rightarrow> u32 \<Rightarrow> u32 \<Rightarrow> u32 \<Rightarrow> u8 list \<Rightarrow> nat \<Rightarrow> nat \<Rightarrow> nat \<Rightarrow> nat \<Rightarrow> int \<Rightarrow> int \<Rightarrow> u32 \<Rightarrow> vmem \<Rightarrow> vmem option" where
  "slow_lines A p pitch fg bg data spitch width 0 src dst1 dst2 start v = Some v"
| "slow_lines A p pitch fg bg data spitch width (Suc h) src dst1 dst2 start v = do {
     st \<leftarrow> blit_start A start dst1 v;
     st \<leftarrow> slow_pixels A (fi_bpp p) fg bg data width 8 src st;
     v \<leftarrow> blit_end A st;
     let (dst1, dst2, start) = next_line p pitch dst1 dst2 start;
     slow_lines A p pitch fg bg data spitch width h (src + spitch) dst1 dst2 start v }"

definition slow_imageblit :: "fb_arch \<Rightarrow> fb_image \<Rightarrow> fb_info \<Rightarrow> int \<Rightarrow> u32 \<Rightarrow> u32 \<Rightarrow> u32 \<Rightarrow> u32 \<Rightarrow> vmem \<Rightarrow> vmem option" where
  "slow_imageblit A im p dst1 fgcolor bgcolor start_index pitch_index v =
     (let left = a_left A (fi_bpp p)
      in slow_lines A p pitch_index (push_bit left fgcolor) (push_bit left bgcolor) (im_data im)
           (unat ((im_width im + 7) div 8)) (unat (im_width im)) (unat (im_height im)) 0 dst1 dst1 start_index v)"

text \<open>The fast form writes whole words, with the masks of a table.\<close>

definition blit_tab :: "fb_arch \<Rightarrow> u32 \<Rightarrow> u32 list" where
  "blit_tab A bpp = (if bpp = 8 then cfb_tab8 (a_big A) else if bpp = 16 then cfb_tab16 (a_big A) else cfb_tab32)"

fun spread :: "nat \<Rightarrow> u32 \<Rightarrow> nat \<Rightarrow> u32 \<Rightarrow> u32" where
  "spread bpp c 0 x = x"
| "spread bpp c (Suc i) x = spread bpp c i (push_bit bpp x OR c)"

fun fast_words :: "u32 list \<Rightarrow> nat \<Rightarrow> u32 \<Rightarrow> u32 \<Rightarrow> u32 \<Rightarrow> u8 list \<Rightarrow> nat \<Rightarrow> nat \<Rightarrow> nat \<Rightarrow> int \<Rightarrow> vmem \<Rightarrow> vmem option" where
  "fast_words tab ppw bit_mask eorx bgx data 0 shift src dst v = Some v"
| "fast_words tab ppw bit_mask eorx bgx data (Suc j) shift src dst v = do {
     let shift = shift - ppw;
     b \<leftarrow> data_at data src;
     let i = unat (drop_bit shift (ucast b) AND bit_mask);
     end_mask \<leftarrow> (if i < length tab then Some (tab ! i) else None);
     v \<leftarrow> FB_WRITEL ((end_mask AND eorx) XOR bgx) dst v;
     if shift = 0 then fast_words tab ppw bit_mask eorx bgx data j 8 (src + 1) (dst + 4) v
     else fast_words tab ppw bit_mask eorx bgx data j shift src (dst + 4) v }"

fun fast_lines :: "u32 list \<Rightarrow> nat \<Rightarrow> u32 \<Rightarrow> u32 \<Rightarrow> u32 \<Rightarrow> u8 list \<Rightarrow> nat \<Rightarrow> int \<Rightarrow> nat \<Rightarrow> nat \<Rightarrow> nat \<Rightarrow> int \<Rightarrow> vmem \<Rightarrow> vmem option" where
  "fast_lines tab ppw bit_mask eorx bgx data spitch len k 0 s dst1 v = Some v"
| "fast_lines tab ppw bit_mask eorx bgx data spitch len k (Suc h) s dst1 v = do {
     v \<leftarrow> fast_words tab ppw bit_mask eorx bgx data k 8 s dst1 v;
     fast_lines tab ppw bit_mask eorx bgx data spitch len k h (s + spitch) (dst1 + len) v }"

definition fast_imageblit :: "fb_arch \<Rightarrow> fb_image \<Rightarrow> fb_info \<Rightarrow> int \<Rightarrow> u32 \<Rightarrow> u32 \<Rightarrow> vmem \<Rightarrow> vmem option" where
  "fast_imageblit A im p dst1 fgcolor bgcolor v =
     (let bpp = fi_bpp p; ppw = 32 div bpp; spitch = (im_width im + 7) div 8;
          fgx = spread (unat bpp) fgcolor (unat (ppw - 1)) fgcolor;
          bgx = spread (unat bpp) bgcolor (unat (ppw - 1)) bgcolor;
          bit_mask = push_bit (unat ppw) 1 - 1; eorx = fgx XOR bgx; k = im_width im div ppw
      in fast_lines (blit_tab A bpp) (unat ppw) bit_mask eorx bgx (im_data im) (unat spitch)
           (int (unat (fi_line_length p))) (unat k) (unat (im_height im)) 0 dst1 v)"

section \<open>The image\<close>

text \<open>A depth of 0 divides by zero.\<close>

definition cfb_imageblit :: "fb_arch \<Rightarrow> fb_info \<Rightarrow> fb_image \<Rightarrow> vmem \<Rightarrow> vmem option" where
  "cfb_imageblit A p im v =
     (if \<not> fi_running p then Some v
      else
        (let bpp = fi_bpp p; bitstart = im_dy im * fi_line_length p * 8 + im_dx im * bpp;
             start_index = bitstart AND (32 - 1); pitch_index = (fi_line_length p AND (4 - 1)) * 8;
             dst1 = int (unat (fi_screen_base p)) + int (unat ((bitstart div 8) AND NOT (4 - 1)))
         in if im_depth im = 1 then do {
              fgcolor \<leftarrow> palette_at p (im_fg_color im);
              bgcolor \<leftarrow> palette_at p (im_bg_color im);
              if bpp = 0 then None
              else if 32 mod bpp = 0 \<and> start_index = 0 \<and> pitch_index = 0 \<and> im_width im AND (32 div bpp - 1) = 0 \<and>
                  bpp \<ge> 8 \<and> bpp \<le> 32 then
                fast_imageblit A im p dst1 fgcolor bgcolor v
              else slow_imageblit A im p dst1 fgcolor bgcolor start_index pitch_index v }
            else color_imageblit A im p dst1 start_index pitch_index v))"

end
