(* ===== verification/Fb_Image_Line.thy ===== *)
theory Fb_Image_Line
  imports Fb_Imgblt Fb_Rect_Props
begin

text \<open>
  Drawing an image, one line of it: whatever the byte order, the place of the line in its word and the depth,
  the bits of the line are those of the colours of its pixels, in order, and no other bit changes.
\<close>

section \<open>The shifts by the order of pixels\<close>

text \<open>
  \<open>pos j\<close> is the place of the \<open>j\<close>th bit of a word on the screen, \<open>px B j\<close> the bit of a colour of depth \<open>B\<close> that
  is the \<open>j\<close>th of its pixel.
\<close>

locale fb_shift =
  fixes A :: fb_arch and pos :: "nat \<Rightarrow> nat" and px :: "nat \<Rightarrow> nat \<Rightarrow> nat"
  assumes pos_image: "pos ` {..<32} = {..<32}"
    and high_bit: "k < 32 \<Longrightarrow> j < 32 \<Longrightarrow> bit (a_high A w k) (pos j) \<longleftrightarrow> k \<le> j \<and> bit w (pos (j - k))"
    and low_bit: "k < 32 \<Longrightarrow> j < 32 \<Longrightarrow> bit (a_low A w k) (pos j) \<longleftrightarrow> j + k < 32 \<and> bit w (pos (j + k))"
    and left_bit: "unat bpp \<le> 32 \<Longrightarrow> unat (c :: u32) < 2 ^ unat bpp \<Longrightarrow> j < 32 \<Longrightarrow>
      bit (push_bit (a_left A bpp) c) (pos j) \<longleftrightarrow> j < unat bpp \<and> bit c (px (unat bpp) j)"
    and px_mod: "0 < B \<Longrightarrow> B dvd 32 \<Longrightarrow> j < 32 \<Longrightarrow> pos j mod B = px B (j mod B)"
    and tab8_bit: "i < 16 \<Longrightarrow> j < 32 \<Longrightarrow> bit (cfb_tab8 (a_big A) ! i) (pos j) \<longleftrightarrow> bit i (3 - j div 8)"
    and tab16_bit: "i < 4 \<Longrightarrow> j < 32 \<Longrightarrow> bit (cfb_tab16 (a_big A) ! i) (pos j) \<longleftrightarrow> bit i (1 - j div 16)"

text \<open>The shifts of a word that is filled with ones are those of the other drawing routines.\<close>

sublocale fb_shift \<subseteq> ord: fb_order "a_high A (- 1)" pos
proof
  show "pos ` {..<32} = {..<32}" by (rule pos_image)
  fix k j :: nat assume kj: "k < 32" "j < 32"
  then have "pos (j - k) < 32" using pos_image by (metis imageI lessThan_iff less_imp_diff_less)
  then show "bit (a_high A (- 1) k) (pos j) \<longleftrightarrow> k \<le> j" by (simp add: high_bit [OF kj])
qed

definition be_arch :: fb_arch where
  "be_arch = \<lparr>a_big = True, a_high = (\<lambda>w k. drop_bit k w), a_low = (\<lambda>w k. push_bit k w), a_left = (\<lambda>bpp. 32 - unat bpp)\<rparr>"

definition le_arch :: fb_arch where
  "le_arch = \<lparr>a_big = False, a_high = (\<lambda>w k. push_bit k w), a_low = (\<lambda>w k. drop_bit k w), a_left = (\<lambda>bpp. 0)\<rparr>"

lemma tab8_all:
  "list_all (\<lambda>i. list_all (\<lambda>j. bit (cfb_tab8 True ! i) (31 - j) = bit i (3 - j div 8)) [0..<32]) [0..<16]"
  "list_all (\<lambda>i. list_all (\<lambda>j. bit (cfb_tab8 False ! i) j = bit i (3 - j div 8)) [0..<32]) [0..<16]"
  "list_all (\<lambda>i. list_all (\<lambda>j. bit (cfb_tab16 True ! i) (31 - j) = bit i (1 - j div 16)) [0..<32]) [0..<4]"
  "list_all (\<lambda>i. list_all (\<lambda>j. bit (cfb_tab16 False ! i) j = bit i (1 - j div 16)) [0..<32]) [0..<4]"
  by code_simp+

lemma table_bits:
  "i < 16 \<Longrightarrow> j < 32 \<Longrightarrow> bit (cfb_tab8 True ! i) (31 - j) \<longleftrightarrow> bit i (3 - j div 8)"
  "i < 16 \<Longrightarrow> j < 32 \<Longrightarrow> bit (cfb_tab8 False ! i) j \<longleftrightarrow> bit i (3 - j div 8)"
  "i < 4 \<Longrightarrow> j < 32 \<Longrightarrow> bit (cfb_tab16 True ! i) (31 - j) \<longleftrightarrow> bit i (1 - j div 16)"
  "i < 4 \<Longrightarrow> j < 32 \<Longrightarrow> bit (cfb_tab16 False ! i) j \<longleftrightarrow> bit i (1 - j div 16)"
  using tab8_all unfolding list_all_iff by simp_all

lemma high_none: "unat (c :: u32) < 2 ^ B \<Longrightarrow> B \<le> n \<Longrightarrow> \<not> bit c n"
  using repeats_start [of c B] unfolding repeats_def by (metis not_le)

interpretation be_shift: fb_shift be_arch be_pos "\<lambda>B j. B - 1 - j"
proof
  show "be_pos ` {..<32} = {..<32}" using rev_image by (simp add: be_pos_def)
  show "bit (a_high be_arch w k) (be_pos j) \<longleftrightarrow> k \<le> j \<and> bit w (be_pos (j - k))" if "k < 32" "j < 32" for w k j
  proof -
    have "k \<le> j" if "bit w (31 - j + k)" using bit_imp_le_length [OF that] \<open>j < 32\<close> by simp
    moreover have "31 - (j - k) = 31 - j + k" if "k \<le> j" using that \<open>j < 32\<close> by simp
    ultimately show ?thesis by (auto simp: be_arch_def be_pos_def bit_drop_bit_eq add.commute)
  qed
  show "bit (a_low be_arch w k) (be_pos j) \<longleftrightarrow> j + k < 32 \<and> bit w (be_pos (j + k))" if "k < 32" "j < 32" for w k j
    using that by (auto simp: be_arch_def be_pos_def bit_push_bit_iff)
  show "bit (push_bit (a_left be_arch bpp) c) (be_pos j) \<longleftrightarrow> j < unat bpp \<and> bit c (unat bpp - 1 - j)"
    if "unat bpp \<le> 32" "unat c < 2 ^ unat bpp" "j < 32" for bpp c :: u32 and j :: nat
    using that by (auto simp: be_arch_def be_pos_def bit_simps) 
  show "be_pos j mod B = B - 1 - j mod B" if B: "0 < B" "B dvd 32" "j < 32" for B j
  proof -
    obtain q where q: "32 = B * q" using B(2) by (elim dvdE)
    have "j div B < q" using B(1,3) unfolding q by (simp add: less_mult_imp_div_less mult.commute)
    then obtain r where r: "q = j div B + 1 + r" by (metis less_iff_Suc_add add.assoc add.commute plus_1_eq_Suc)
    have "31 - j = B * r + (B - 1 - j mod B)"
    proof -
      have "j = B * (j div B) + j mod B" "j mod B < B" using B(1) by simp_all
      moreover have "32 = B * (j div B) + B + B * r" using q unfolding r by (simp add: algebra_simps)
      ultimately show ?thesis by linarith
    qed
    then show ?thesis using B(1) by (simp add: be_pos_def)
  qed
qed (auto simp: be_arch_def be_pos_def bit_simps table_bits)

interpretation le_shift: fb_shift le_arch "\<lambda>j. j" "\<lambda>B j. j"
proof
  show "bit (a_low le_arch w k) j \<longleftrightarrow> j + k < 32 \<and> bit w (j + k)" for w :: u32 and k j :: nat
    using bit_imp_le_length [of w "j + k"] by (auto simp: le_arch_def bit_simps add.commute)
  show "bit (push_bit (a_left le_arch bpp) c) j \<longleftrightarrow> j < unat bpp \<and> bit c j"
    if "unat bpp \<le> 32" "unat c < 2 ^ unat bpp" "j < 32" for bpp c :: u32 and j :: nat
    using high_none [OF that(2)] by (auto simp: le_arch_def not_less [symmetric])
qed (auto simp: le_arch_def bit_simps table_bits)

section \<open>The bits of a word\<close>

context fb_shift
begin

definition wbit :: "vmem \<Rightarrow> int \<Rightarrow> nat \<Rightarrow> bool" where
  "wbit v a j = (case v a of None \<Rightarrow> False | Some w \<Rightarrow> bit w (pos j))"

lemma fbit_word: "j < 32 \<Longrightarrow> fbit pos v (32 * a + int j) = wbit v a j"
proof -
  assume "j < 32"
  then have e: "(32 * a + int j) div 32 = a" "nat ((32 * a + int j) mod 32) = j" by simp_all
  show ?thesis unfolding fbit_def wbit_def e ..
qed

lemma wbit_upd [simp]: "wbit (v(a \<mapsto> w)) x j = (if x = a then bit w (pos j) else wbit v x j)"
  by (simp add: wbit_def)

text \<open>The \<open>m\<close>th bit from the word at \<open>d\<close> on, when pixels begin at the \<open>S\<close>th: \<open>cb i k\<close> is the \<open>k\<close>th of pixel \<open>i\<close>.\<close>

definition target :: "vmem \<Rightarrow> int \<Rightarrow> nat \<Rightarrow> nat \<Rightarrow> (nat \<Rightarrow> nat \<Rightarrow> bool) \<Rightarrow> nat \<Rightarrow> bool" where
  "target v d S B cb m = (if m < S then wbit v d m else cb ((m - S) div B) ((m - S) mod B))"

lemma target_pixel: "k < B \<Longrightarrow> m = S + i * B + k \<Longrightarrow> target v d S B cb m = cb i k"
  by (simp add: target_def)

text \<open>Where the drawing of a line is after \<open>i\<close> pixels.\<close>

definition blit_at :: "vmem \<Rightarrow> int \<Rightarrow> nat \<Rightarrow> nat \<Rightarrow> (nat \<Rightarrow> nat \<Rightarrow> bool) \<Rightarrow> nat \<Rightarrow> blit \<Rightarrow> bool" where
  "blit_at v d S B cb i st \<longleftrightarrow> (case st of (dst, val, shift, v') \<Rightarrow>
     dst = 4 * (d + int ((S + i * B) div 32)) \<and> unat shift = (S + i * B) mod 32 \<and> dom v' = dom v \<and>
     (\<forall>a. \<not> (d \<le> a \<and> a < d + int ((S + i * B) div 32)) \<longrightarrow> v' a = v a) \<and>
     (\<forall>q < (S + i * B) div 32. \<forall>j<32. wbit v' (d + int q) j = target v d S B cb (32 * q + j)) \<and>
     (\<forall>j<32. bit val (pos j) \<longleftrightarrow> j < (S + i * B) mod 32 \<and> target v d S B cb (32 * ((S + i * B) div 32) + j)))"

lemma read_word [simp]: "FB_READL (4 * a) v = v a"
  by (simp add: FB_READL_def)

lemma write_word: "v a \<noteq> None \<Longrightarrow> FB_WRITEL w (4 * a) v = Some (v(a \<mapsto> w))"
  by (auto simp: FB_WRITEL_def)

lemma blit_start_at:
  assumes "unat s = S" "S < 32" "S = 0 \<or> v d \<noteq> None"
  shows "\<exists>st. blit_start A s (4 * d) v = Some st \<and> blit_at v d S B cb 0 st"
proof (cases "S = 0")
  case True
  then have "s = 0" using assms(1) by (simp add: unat_eq_zero)
  then show ?thesis using True by (simp add: blit_start_def blit_at_def)
next
  case False
  then obtain w where w: "v d = Some w" using assms(3) by blast
  have "s \<noteq> 0" using False assms(1) by auto
  moreover have "bit (w AND NOT (a_high A (- 1) S)) (pos j) \<longleftrightarrow> j < S \<and> target v d S B cb j" if "j < 32" for j
    using ord.sh_bit [OF assms(2) that] ord.pos_less [OF that] by (auto simp: bit_simps target_def wbit_def w)
  ultimately show ?thesis using assms(1,2) w by (simp add: blit_start_def blit_at_def)
qed

lemma shift_facts:
  assumes "unat (bpp :: u32) = B" "0 < B" "B \<le> 32" "unat (shift :: u32) = R" "R < 32"
  shows "shift \<ge> 32 - bpp \<longleftrightarrow> 32 \<le> R + B" "shift = 32 - bpp \<longleftrightarrow> R + B = 32" "unat (32 - shift) = 32 - R"
    "unat ((shift + bpp) AND (32 - 1)) = (R + B) mod 32"
proof -
  have b: "unat (32 - bpp) = 32 - B" using assms(1,3) by (subst unat_sub) (simp_all add: word_le_nat_alt)
  show "shift \<ge> 32 - bpp \<longleftrightarrow> 32 \<le> R + B" using assms b by (auto simp: word_le_nat_alt)
  show "shift = 32 - bpp \<longleftrightarrow> R + B = 32" using assms b by (auto simp: word_unat_eq_iff)
  show "unat (32 - shift) = 32 - R" using assms by (subst unat_sub) (simp_all add: word_le_nat_alt)
  have "unat (shift + bpp) = R + B" using assms by (simp add: unat_word_ariths)
  then show "unat ((shift + bpp) AND (32 - 1)) = (R + B) mod 32" using unat_low [of "shift + bpp"] by (simp add: BITS_def)
qed

lemma at_word: "x < 32 \<Longrightarrow> (32 * q + x) div 32 = q" "x < 32 \<Longrightarrow> (32 * q + x) mod 32 = (x :: nat)"
  by simp_all

lemma put_pixel_at:
  assumes bpp: "unat bpp = B" "0 < B" "B \<le> 32" and st: "blit_at v d S B cb i st"
    and c: "\<And>j. j < 32 \<Longrightarrow> bit c (pos j) \<longleftrightarrow> j < B \<and> cb i j"
    and m: "32 \<le> (S + i * B) mod 32 + B \<longrightarrow> v (d + int ((S + i * B) div 32)) \<noteq> None"
  shows "\<exists>st'. put_pixel A bpp c st = Some st' \<and> blit_at v d S B cb (Suc i) st'"
proof -
  define T Q R where "T = S + i * B" and "Q = T div 32" and "R = T mod 32"
  have T: "T = 32 * Q + R" "R < 32" by (simp_all add: Q_def R_def)
  obtain dst val shift v' where s: "st = (dst, val, shift, v')" by (metis prod_cases4)
  note inv = st [unfolded blit_at_def s prod.case, folded T_def, folded Q_def R_def]
  have r: "dst = 4 * (d + int Q)" "unat shift = R" "dom v' = dom v" using inv by blast+
  note sh = shift_facts [OF bpp r(2) T(2)]
  define val' where "val' = val OR a_high A c R"
  have val': "bit val' (pos j) \<longleftrightarrow> j < R + B \<and> target v d S B cb (32 * Q + j)" if j: "j < 32" for j
  proof (cases "R \<le> j")
    case True
    have "target v d S B cb (32 * Q + j) = cb i (j - R)" if "j < R + B"
      using True T that by (intro target_pixel) (auto simp: T_def)
    then show ?thesis using inv high_bit [OF T(2) j, of c] c [of "j - R"] True j by (auto simp: val'_def bit_simps)
  next
    case False
    then show ?thesis using inv high_bit [OF T(2) j, of c] j by (auto simp: val'_def bit_simps)
  qed
  show ?thesis
  proof (cases "32 \<le> R + B")
    case False
    then have q: "(S + Suc i * B) div 32 = Q" "(S + Suc i * B) mod 32 = R + B"
      using at_word [of "R + B" Q] T(1) by (simp_all add: T_def add_ac)
    have p: "put_pixel A bpp c st = Some (dst, val', (shift + bpp) AND (32 - 1), v')"
      using False sh(1) r(2) by (simp add: put_pixel_def s val'_def Let_def)
    show ?thesis unfolding p blit_at_def q using inv sh(4) val' False by simp
  next
    case True
    have "S + Suc i * B = 32 * Suc Q + (R + B - 32)" using T True by (simp add: T_def)
    then have q: "(S + Suc i * B) div 32 = Suc Q" "(S + Suc i * B) mod 32 = R + B - 32"
      using at_word [of "R + B - 32" "Suc Q"] T(2) bpp(3) by simp_all
    have "v (d + int Q) \<noteq> None" using m True by (simp add: T_def Q_def R_def)
    then have "v' (d + int Q) \<noteq> None" using r(3) by (metis domIff)
    then have w: "FB_WRITEL val' dst v' = Some (v'(d + int Q \<mapsto> val'))" unfolding r(1) by (rule write_word)
    define low where "low = (if R + B = 32 then 0 else a_low A c (32 - R))"
    have p: "put_pixel A bpp c st = Some (dst + 4, low, (shift + bpp) AND (32 - 1), v'(d + int Q \<mapsto> val'))"
      using True sh(1-3) r(2) w by (simp add: put_pixel_def s val'_def low_def Let_def)
    have low: "bit low (pos j) \<longleftrightarrow> j < R + B - 32 \<and> target v d S B cb (32 * Suc Q + j)" if j: "j < 32" for j
    proof (cases "R + B = 32")
      case True
      then show ?thesis by (simp add: low_def)
    next
      case neq: False
      have R: "0 < R" "32 - R < 32" using True neq bpp(3) by simp_all
      have tg: "target v d S B cb (32 * Suc Q + j) = cb i (j + (32 - R))" if "j < R + B - 32"
        using T True that by (intro target_pixel) (auto simp: T_def)
      have lb: "bit low (pos j) \<longleftrightarrow> j < R \<and> bit c (pos (j + (32 - R)))"
        using low_bit [OF R(2) j, of c] neq R(1) T(2) by (auto simp: low_def)
      show ?thesis
      proof (cases "j < R")
        case jR: True
        then have "bit c (pos (j + (32 - R))) \<longleftrightarrow> j + (32 - R) < B \<and> cb i (j + (32 - R))" using R(1) T(2) by (intro c) simp
        moreover have "j + (32 - R) < B \<longleftrightarrow> j < R + B - 32" using True T(2) by auto
        ultimately show ?thesis using lb tg jR by auto
      next
        case False
        then show ?thesis using lb bpp(3) by auto
      qed
    qed
    have old: "wbit (v'(d + int Q \<mapsto> val')) (d + int k) j = target v d S B cb (32 * k + j)" if "k < Suc Q" "j < 32" for k j
      using that inv val' [of j] True by (cases "k = Q") simp_all
    have d: "dom (v'(d + int Q \<mapsto> val')) = dom v" using r(3) \<open>v' (d + int Q) \<noteq> None\<close> by auto
    have o': "(v'(d + int Q \<mapsto> val')) a = v a" if "\<not> (d \<le> a \<and> a < d + int (Suc Q))" for a using that inv by auto
    show ?thesis unfolding p blit_at_def q using sh(4) True bpp(3) T(2) low old d o' r(1) by (simp add: mod_if)
  qed
qed

lemma blit_end_at:
  assumes st: "blit_at v d S B cb n st" and S: "S < 32" and B: "0 < B"
    and m: "(S + n * B) mod 32 \<noteq> 0 \<longrightarrow> v (d + int ((S + n * B) div 32)) \<noteq> None"
  shows "\<exists>v'. blit_end A st = Some v' \<and> dom v' = dom v \<and>
    (\<forall>a. \<forall>j<32. wbit v' a j =
      (if 32 * d + int S \<le> 32 * a + int j \<and> 32 * a + int j < 32 * d + int (S + n * B)
       then target v d S B cb (nat (32 * (a - d) + int j)) else wbit v a j))"
proof -
  define T Q R where "T = S + n * B" and "Q = T div 32" and "R = T mod 32"
  have T: "T = 32 * Q + R" "R < 32" by (simp_all add: Q_def R_def)
  obtain dst val shift v0 where s: "st = (dst, val, shift, v0)" by (metis prod_cases4)
  note inv = st [unfolded blit_at_def s prod.case, folded T_def, folded Q_def R_def]
  have r: "dst = 4 * (d + int Q)" "unat shift = R" "dom v0 = dom v" using inv by blast+
  define v' where "v' = (if R = 0 then v0 else v0(d + int Q \<mapsto> (the (v0 (d + int Q)) AND a_high A (- 1) R) OR val))"
  have e: "blit_end A st = Some v'" "dom v' = dom v"
  proof -
    have "shift = 0 \<longleftrightarrow> R = 0" using r(2) word_unat_eq_iff [of shift 0] by simp
    moreover have nn: "R \<noteq> 0 \<Longrightarrow> v0 (d + int Q) \<noteq> None" using m r(3) unfolding T_def [symmetric] Q_def [symmetric] R_def [symmetric] by (metis domIff)
    moreover have "FB_READL dst v0 = v0 (d + int Q)" unfolding r(1) by (rule read_word)
    moreover have "FB_WRITEL w dst v0 = Some (v0(d + int Q \<mapsto> w))" if "R \<noteq> 0" for w unfolding r(1) by (rule write_word) (use nn that in blast)
    ultimately show "blit_end A st = Some v'" "dom v' = dom v"
      using r(2,3) by (auto simp: blit_end_def s v'_def)
  qed
  have old: "target v d S B cb m = wbit v d m" if "m < S" for m using that by (simp add: target_def)
  have "wbit v' a j = (if 32 * d + int S \<le> 32 * a + int j \<and> 32 * a + int j < 32 * d + int T
       then target v d S B cb (nat (32 * (a - d) + int j)) else wbit v a j)" if j: "j < 32" for a j
  proof -
    consider "a < d" | q where "a = d + int q" "q < Q" | "a = d + int Q" | "d + int Q < a" by (metis linorder_neqE zle_iff_zadd not_le nat_int zless_iff_Suc_zadd le_less add.commute of_nat_less_iff add_less_cancel_left)
    then show ?thesis
    proof cases
      case 1
      then have "v' a = v a" using inv by (auto simp: v'_def)
      then show ?thesis using 1 j by (simp add: wbit_def)
    next
      case (2 q)
      have "wbit v' a j = target v d S B cb (32 * q + j)" using inv 2 j by (simp add: v'_def)
      moreover have "32 * a + int j < 32 * d + int T" using 2 j T(1) by simp
      moreover have "32 * d + int S \<le> 32 * a + int j \<longleftrightarrow> S \<le> 32 * q + j" using 2 by auto
      moreover have "wbit v a j = target v d S B cb (32 * q + j)" if "32 * q + j < S"
      proof -
        have "q = 0" using that S by simp
        then show ?thesis using that 2 old by simp
      qed
      ultimately show ?thesis using 2 by (simp add: nat_add_distrib nat_mult_distrib)
    next
      case 3
      have c: "32 * a + int j < 32 * d + int T \<longleftrightarrow> j < R" "32 * d + int S \<le> 32 * a + int j \<longleftrightarrow> S \<le> 32 * Q + j"
        "nat (32 * (a - d) + int j) = 32 * Q + j" using 3 T(1) by (auto simp: nat_add_distrib nat_mult_distrib)
      have lo: "wbit v a j = target v d S B cb (32 * Q + j)" if "32 * Q + j < S"
      proof -
        have "Q = 0" using that S by simp
        then show ?thesis using that 3 old by simp
      qed
      have va: "v0 a = v a" using inv 3 by simp
      show ?thesis
      proof (cases "R = 0")
        case True
        then show ?thesis using c va by (simp add: v'_def wbit_def)
      next
        case False
        have "bit (a_high A (- 1) R) (pos j) \<longleftrightarrow> R \<le> j" by (rule ord.sh_bit [OF T(2) j])
        moreover obtain w where w: "v a = Some w" using m 3 False unfolding T_def [symmetric] Q_def [symmetric] R_def [symmetric] by blast
        moreover have "bit val (pos j) \<longleftrightarrow> j < R \<and> target v d S B cb (32 * Q + j)" using inv j by blast
        ultimately have "wbit v' a j \<longleftrightarrow> (if j < R then target v d S B cb (32 * Q + j) else wbit v a j)"
          using False va 3 by (auto simp: v'_def wbit_def bit_simps)
        then show ?thesis using c lo by auto
      qed
    next
      case 4
      then have "v' a = v a" using inv by (auto simp: v'_def)
      moreover have "\<not> 32 * a + int j < 32 * d + int T" using 4 T by simp
      ultimately show ?thesis by (simp add: wbit_def)
    qed
  qed
  then show ?thesis using e unfolding T_def by blast
qed

end

end
