(* ===== verification/Fb_Image_Rows.thy ===== *)
theory Fb_Image_Rows
  imports Fb_Image_Line
begin

text \<open>
  Drawing an image: the three loops over the pixels of a line, each of which draws the colours of its pixels.
\<close>

text \<open>The colour that a bit of the data stands for.\<close>

definition bit_color :: "u8 list \<Rightarrow> nat \<Rightarrow> u32 \<Rightarrow> u32 \<Rightarrow> nat \<Rightarrow> u32" where
  "bit_color data s fg bg x = (if bit (data ! (s + x div 8)) (7 - x mod 8) then fg else bg)"

section \<open>Lines\<close>

context fb_shift
begin

definition color_bits :: "nat \<Rightarrow> (nat \<Rightarrow> u32) \<Rightarrow> nat \<Rightarrow> nat \<Rightarrow> bool" where
  "color_bits B col i k = bit (col i) (px B k)"

definition line_drawn :: "vmem \<Rightarrow> vmem \<Rightarrow> int \<Rightarrow> nat \<Rightarrow> nat \<Rightarrow> (nat \<Rightarrow> u32) \<Rightarrow> bool" where
  "line_drawn v v' s n B col \<longleftrightarrow> dom v' = dom v \<and>
     (\<forall>b. fbit pos v' b = (if s \<le> b \<and> b < s + int (n * B)
        then color_bits B col (nat (b - s) div B) (nat (b - s) mod B) else fbit pos v b))"

lemma word_of_bit:
  obtains j where "j < 32" "b = 32 * (b div 32) + int j" "fbit pos v b = wbit v (b div 32) j"
proof -
  let ?j = "nat (b mod 32)"
  have j: "?j < 32" "b = 32 * (b div 32) + int ?j" by (simp_all add: nat_less_iff)
  show thesis by (rule that [OF j]) (simp add: fbit_def wbit_def)
qed

lemma line_drawnI:
  assumes "dom v' = dom v" "\<And>a j. j < 32 \<Longrightarrow> wbit v' a j =
      (if s \<le> 32 * a + int j \<and> 32 * a + int j < s + int (n * B)
       then color_bits B col (nat (32 * a + int j - s) div B) (nat (32 * a + int j - s) mod B) else wbit v a j)"
  shows "line_drawn v v' s n B col"
proof -
  have "fbit pos v' b = (if s \<le> b \<and> b < s + int (n * B)
        then color_bits B col (nat (b - s) div B) (nat (b - s) mod B) else fbit pos v b)" for b
  proof -
    obtain j where j: "j < 32" "b = 32 * (b div 32) + int j" using word_of_bit by blast
    show ?thesis
      using assms(2) [OF j(1), of "b div 32"] unfolding fbit_word [OF j(1), symmetric] j(2) [symmetric] .
  qed
  then show ?thesis using assms(1) by (simp add: line_drawn_def)
qed

lemma blit_line:
  assumes st: "blit_at v d S B (color_bits B col) n st" and S: "S < 32" and B: "0 < B" and n: "0 < n"
    and m: "bits_mapped v (32 * d + int S) (32 * d + int S + int (n * B))"
  shows "\<exists>v'. blit_end A st = Some v' \<and> line_drawn v v' (32 * d + int S) n B col"
proof -
  have "(S + n * B) mod 32 \<noteq> 0 \<longrightarrow> v (d + int ((S + n * B) div 32)) \<noteq> None"
  proof
    assume nz: "(S + n * B) mod 32 \<noteq> 0"
    obtain T where T: "S + n * B = Suc T" using n B by (cases "S + n * B") auto
    then have "(S + n * B) div 32 = T div 32" using nz by (simp add: div_Suc mod_Suc split: if_splits)
    moreover have "v ((32 * d + int T) div 32) \<noteq> None"
    proof -
      have "0 < n * B" using n B by simp
      then have "S \<le> T" using T by linarith
      moreover have "int T < int S + int (n * B)" using T unfolding of_nat_add [symmetric] by simp
      ultimately have "32 * d + int S \<le> 32 * d + int T \<and> 32 * d + int T < 32 * d + int S + int (n * B)" by linarith
      then show ?thesis using m unfolding bits_mapped_def by blast
    qed
    moreover have "(32 * d + int T) div 32 = d + int (T div 32)" by (simp add: zdiv_int)
    ultimately show "v (d + int ((S + n * B) div 32)) \<noteq> None" by simp
  qed
  from blit_end_at [OF st S B this] obtain v' where v': "blit_end A st = Some v'" "dom v' = dom v"
    "\<forall>a. \<forall>j<32. wbit v' a j =
      (if 32 * d + int S \<le> 32 * a + int j \<and> 32 * a + int j < 32 * d + int (S + n * B)
       then target v d S B (color_bits B col) (nat (32 * (a - d) + int j)) else wbit v a j)" by blast
  have "line_drawn v v' (32 * d + int S) n B col"
  proof (rule line_drawnI [OF v'(2)])
    fix a :: int and j :: nat assume j: "j < 32"
    have t: "target v d S B (color_bits B col) (nat (32 * (a - d) + int j)) =
        color_bits B col (nat (32 * a + int j - (32 * d + int S)) div B) (nat (32 * a + int j - (32 * d + int S)) mod B)"
      if "32 * d + int S \<le> 32 * a + int j"
    proof -
      define m where "m = nat (32 * a + int j - (32 * d + int S))"
      have "int m = 32 * a + int j - (32 * d + int S)" unfolding m_def using that by (intro nat_0_le) linarith
      then have "32 * (a - d) + int j = int (S + m)" "32 * a + int j - (32 * d + int S) = int m" by (simp_all add: right_diff_distrib)
      then have e: "nat (32 * (a - d) + int j) = S + m" "nat (32 * a + int j - (32 * d + int S)) = m" by (simp_all only: nat_int)
      show ?thesis unfolding e by (simp add: target_def)
    qed
    show "wbit v' a j = (if 32 * d + int S \<le> 32 * a + int j \<and> 32 * a + int j < 32 * d + int S + int (n * B)
       then color_bits B col (nat (32 * a + int j - (32 * d + int S)) div B) (nat (32 * a + int j - (32 * d + int S)) mod B)
       else wbit v a j)"
    proof (cases "32 * d + int S \<le> 32 * a + int j")
      case True
      show ?thesis unfolding v'(3) [rule_format, OF j] t [OF True] of_nat_add add.assoc ..
    next
      case False
      then show ?thesis unfolding v'(3) [rule_format, OF j] by (simp only: simp_thms if_False)
    qed
  qed
  then show ?thesis using v'(1) by blast
qed

text \<open>The word in which a pixel begins is mapped.\<close>

lemma pixel_mapped:
  assumes "bits_mapped v (32 * d + int S) (32 * d + int S + int (n * B))" "i < n" "0 < B"
  shows "v (d + int ((S + i * B) div 32)) \<noteq> None"
proof -
  have "i * B < n * B" using assms(2,3) by simp
  then have "32 * d + int S \<le> 32 * d + int (S + i * B) \<and> 32 * d + int (S + i * B) < 32 * d + int S + int (n * B)"
    unfolding of_nat_add by (simp only: of_nat_less_iff of_nat_0_le_iff add.assoc add_left_mono add_strict_left_mono add_increasing2 le_add_same_cancel1 add_le_cancel_left add_less_cancel_left)
  then have "v ((32 * d + int (S + i * B)) div 32) \<noteq> None" using assms(1) unfolding bits_mapped_def by blast
  then show ?thesis by (simp add: zdiv_int)
qed

lemma put_color:
  assumes bpp: "unat bpp = B" "0 < B" "B \<le> 32" and st: "blit_at v d S B (color_bits B col) i st"
    and c: "unat (col i) < 2 ^ B" and m: "v (d + int ((S + i * B) div 32)) \<noteq> None"
  shows "\<exists>st'. put_pixel A bpp (push_bit (a_left A bpp) (col i)) st = Some st' \<and> blit_at v d S B (color_bits B col) (Suc i) st'"
  using put_pixel_at [OF bpp st] left_bit [of bpp "col i"] bpp c m by (simp add: color_bits_def)

section \<open>The pixels of a line\<close>

lemma color_pixels_run:
  assumes bpp: "unat (fi_bpp p) = B" "0 < B" "B \<le> 32"
    and m: "bits_mapped v (32 * d + int S) (32 * d + int S + int (W * B))"
  shows "j + n \<le> W \<Longrightarrow> blit_at v d S B (color_bits B col) j st \<Longrightarrow>
    (\<forall>i<n. src + i < length data \<and> palette_at p (ucast (data ! (src + i))) = Some (col (j + i)) \<and> unat (col (j + i)) < 2 ^ B) \<Longrightarrow>
    \<exists>st'. color_pixels A p data n src st = Some (src + n, st') \<and> blit_at v d S B (color_bits B col) (j + n) st'"
proof (induction n arbitrary: j src st)
  case 0
  then show ?case by simp
next
  case (Suc n)
  have c: "src < length data" "palette_at p (ucast (data ! src)) = Some (col j)" "unat (col j) < 2 ^ B"
    using Suc.prems(3) [rule_format, of 0] by simp_all
  have "v (d + int ((S + j * B) div 32)) \<noteq> None" using pixel_mapped [OF m _ bpp(2)] Suc.prems(1) by simp
  then obtain st1 where st1: "put_pixel A (fi_bpp p) (push_bit (a_left A (fi_bpp p)) (col j)) st = Some st1"
    "blit_at v d S B (color_bits B col) (Suc j) st1"
    using put_color [OF bpp Suc.prems(2) c(3)] by blast
  have "\<exists>st'. color_pixels A p data n (Suc src) st1 = Some (Suc src + n, st') \<and> blit_at v d S B (color_bits B col) (Suc j + n) st'"
    using Suc.prems(1) Suc.prems(3) by (intro Suc.IH [OF _ st1(2)]) (auto dest: spec [of _ "Suc _"])
  then show ?case using c st1(1) by (simp add: data_at_def)
qed

lemma slow_pixels_run:
  assumes bpp: "unat bpp = B" "0 < B" "B \<le> 32"
    and m: "bits_mapped v (32 * d + int S) (32 * d + int S + int (W * B))"
    and c: "unat fg < 2 ^ B" "unat bg < 2 ^ B" and data: "s + (W + 7) div 8 \<le> length data"
  shows "j + n \<le> W \<Longrightarrow> blit_at v d S B (color_bits B (bit_color data s fg bg)) j st \<Longrightarrow>
    \<exists>st'. slow_pixels A bpp (push_bit (a_left A bpp) fg) (push_bit (a_left A bpp) bg) data n (8 - j mod 8) (s + j div 8) st = Some st' \<and>
      blit_at v d S B (color_bits B (bit_color data s fg bg)) (j + n) st'"
proof (induction n arbitrary: j st)
  case 0
  then show ?case by simp
next
  case (Suc n)
  let ?col = "bit_color data s fg bg"
  have "j div 8 < (W + 7) div 8" using Suc.prems(1) by (simp add: less_eq_div_iff_mult_less_eq Suc_le_eq [symmetric] mult.commute)
  then have l: "s + j div 8 < length data" using data by simp
  have cj: "unat (?col j) < 2 ^ B" using c by (simp add: bit_color_def)
  have e: "(if bit (data ! (s + j div 8)) (7 - j mod 8) then push_bit (a_left A bpp) fg else push_bit (a_left A bpp) bg) =
      push_bit (a_left A bpp) (?col j)" by (simp add: bit_color_def)
  have "v (d + int ((S + j * B) div 32)) \<noteq> None" using pixel_mapped [OF m _ bpp(2)] Suc.prems(1) by simp
  then obtain st1 where st1: "put_pixel A bpp (push_bit (a_left A bpp) (?col j)) st = Some st1"
    "blit_at v d S B (color_bits B ?col) (Suc j) st1"
    using put_color [OF bpp Suc.prems(2) cj] by blast
  have ih: "\<exists>st'. slow_pixels A bpp (push_bit (a_left A bpp) fg) (push_bit (a_left A bpp) bg) data n (8 - Suc j mod 8) (s + Suc j div 8) st1 = Some st' \<and>
      blit_at v d S B (color_bits B ?col) (Suc j + n) st'"
    using Suc.prems(1) by (intro Suc.IH [OF _ st1(2)]) simp
  have d8: "8 - j mod 8 - 1 = 7 - j mod 8" by simp
  show ?case
  proof (cases "j mod 8 = 7")
    case True
    then have "Suc j mod 8 = 0" "Suc j div 8 = j div 8 + 1" by (simp_all add: mod_Suc div_Suc)
    then show ?thesis using ih True l e st1(1) by (simp add: data_at_def Let_def)
  next
    case False
    moreover have "j mod 8 < 8" by simp
    ultimately have "j mod 8 < 7" by linarith
    then have "Suc j mod 8 = Suc (j mod 8)" "Suc j div 8 = j div 8" "7 - j mod 8 \<noteq> 0" "8 - Suc (j mod 8) = 7 - j mod 8"
      by (simp_all add: mod_Suc div_Suc)
    then show ?thesis using ih l e st1(1) by (simp add: data_at_def Let_def d8)
  qed
qed

section \<open>Whole words\<close>

lemma spread_repeats:
  assumes c: "unat c < 2 ^ B" "0 < B"
  shows "repeats c B m x \<Longrightarrow> repeats c B (m + i * B) (spread B c i x)"
proof (induction i arbitrary: m x)
  case (Suc i)
  have hi: "\<not> bit c k" if "B \<le> k" for k using high_none [OF c(1) that] .
  have "repeats c B (m + B) (push_bit B x OR c)"
    unfolding repeats_def
  proof (intro conjI allI)
    show "B dvd m + B" using Suc.prems by (simp add: repeats_def)
    fix k
    show "bit (push_bit B x OR c) k \<longleftrightarrow> k < m + B \<and> k < 32 \<and> bit c (k mod B)"
    proof (cases "k < B")
      case True
      then show ?thesis using bit_imp_le_length [of c k] by (auto simp: bit_simps)
    next
      case False
      then have "k mod B = (k - B) mod B" by (simp add: le_mod_geq)
      moreover have "bit (push_bit B x OR c) k \<longleftrightarrow> k < 32 \<and> bit x (k - B)"
        using False hi [of k] by (simp add: bit_or_iff bit_push_bit_iff)
      moreover have "bit x (k - B) \<longleftrightarrow> k - B < m \<and> k - B < 32 \<and> bit c ((k - B) mod B)" using Suc.prems by (simp add: repeats_def)
      moreover have "k - B < m \<longleftrightarrow> k < m + B" using False by linarith
      ultimately show ?thesis by auto
    qed
  qed
  then show ?case using Suc.IH [of "m + B"] by (simp add: add.assoc)
qed simp

lemma spread_bit:
  assumes "unat c < 2 ^ B" "0 < B" "ppw * B = 32" "j < 32"
  shows "bit (spread B c (ppw - 1) c) (pos j) \<longleftrightarrow> bit c (px B (j mod B))"
proof -
  have "repeats c B (B + (ppw - 1) * B) (spread B c (ppw - 1) c)"
    using spread_repeats [OF assms(1,2) repeats_start [OF assms(1)]] .
  moreover have "B + (ppw - 1) * B = 32"
  proof (cases ppw)
    case (Suc q)
    then show ?thesis using assms(3) by simp
  qed (use assms(3) in simp)
  moreover have "B dvd 32" using assms(3) by (metis dvd_triv_right)
  ultimately show ?thesis using px_mod [OF assms(2) _ assms(4)] ord.pos_less [OF assms(4)] by (simp add: repeats_def)
qed

definition tab_ok :: "u32 list \<Rightarrow> nat \<Rightarrow> nat \<Rightarrow> bool" where
  "tab_ok tab ppw B \<longleftrightarrow> ppw * B = 32 \<and> ppw \<in> {1, 2, 4} \<and> length tab = 2 ^ ppw \<and>
     (\<forall>i < 2 ^ ppw. \<forall>j<32. bit (tab ! i) (pos j) \<longleftrightarrow> bit i (ppw - 1 - j div B))"

lemma blit_tab_ok: "bpp \<in> {8, 16, 32} \<Longrightarrow> tab_ok (blit_tab A bpp) (unat (32 div bpp)) (unat bpp)"
proof -
  assume "bpp \<in> {8, 16, 32}"
  then have c: "bpp = 8 \<or> bpp = 16 \<or> bpp = 32" by blast
  have lens: "length (cfb_tab8 x) = 16" "length (cfb_tab16 x) = 4" "length cfb_tab32 = 2" for x
    by (simp_all add: cfb_tab8_def cfb_tab16_def cfb_tab32_def)
  from c consider "bpp = 8" | "bpp = 16" | "bpp = 32" by blast
  then show ?thesis
  proof cases
    case 3
    have m: "(0xffffffff :: u32) = - 1" by simp
    have "bit (cfb_tab32 ! i) (pos j) \<longleftrightarrow> bit i 0" if "i < 2" "j < 32" for i j
      using that ord.pos_less unfolding cfb_tab32_def m by (auto simp: bit_Suc_0_iff dest!: less_2_cases)
    then show ?thesis using 3 by (auto simp: tab_ok_def blit_tab_def lens)
  qed (auto simp: tab_ok_def blit_tab_def tab8_bit tab16_bit lens)
qed

lemma fast_word_bit:
  fixes m s :: nat and data :: "u8 list"
  assumes tab: "tab_ok tab ppw B" and fg: "unat fg < 2 ^ B" and bg: "unat bg < 2 ^ B" and j: "j < 32"
  defines "e \<equiv> 8 div ppw" and "bgx \<equiv> spread B bg (ppw - 1) bg" and "fgx \<equiv> spread B fg (ppw - 1) fg"
  defines "i \<equiv> unat (drop_bit (8 - ppw * (m mod e) - ppw) (ucast (data ! (s + m div e))) AND (push_bit ppw 1 - 1 :: u32))"
  shows "i < length tab" "bit ((tab ! i AND (fgx XOR bgx)) XOR bgx) (pos j) \<longleftrightarrow>
    color_bits B (bit_color data s fg bg) (ppw * m + j div B) (j mod B)"
proof -
  have P: "ppw * B = 32" "ppw \<in> {1, 2, 4}" "length tab = 2 ^ ppw" using tab by (auto simp: tab_ok_def)
  have B: "0 < B" using P(1) by (cases B) auto
  have e: "ppw * e = 8" "0 < e" "0 < ppw" "ppw \<le> 4" using P(2) by (auto simp: e_def)
  have mask: "push_bit ppw 1 - 1 = (mask ppw :: u32)" by (simp add: mask_eq_exp_minus_1 push_bit_eq_mult)
  define r where "r = m mod e"
  have r: "ppw * r + ppw \<le> 8"
  proof -
    have "ppw * Suc r \<le> ppw * e" using e(2) by (intro mult_le_mono2) (simp add: r_def Suc_le_eq)
    then show ?thesis using e(1) by simp
  qed
  have it: "i = take_bit ppw (unat (drop_bit (8 - ppw * r - ppw) (ucast (data ! (s + m div e)) :: u32)))"
    unfolding i_def mask take_bit_eq_mask [symmetric] r_def [symmetric] by (simp add: unsigned_take_bit_eq)
  show il: "i < length tab" unfolding P(3) it by (rule take_bit_nat_less_exp)
  have jb: "j div B < ppw" using j P(1) B by (simp add: less_mult_imp_div_less)
  have "bit i (ppw - 1 - j div B) \<longleftrightarrow> bit (data ! (s + m div e)) (8 - ppw * r - ppw + (ppw - 1 - j div B))"
    unfolding it using jb e(3,4) r
    by (auto simp: bit_take_bit_iff bit_unsigned_iff bit_drop_bit_eq bit_ucast_iff dest: bit_imp_le_length)
  also have "8 - ppw * r - ppw + (ppw - 1 - j div B) = 7 - (ppw * r + j div B)" using r jb by linarith
  finally have bi: "bit i (ppw - 1 - j div B) \<longleftrightarrow> bit (data ! (s + m div e)) (7 - (ppw * r + j div B))" .
  have x: "ppw * m + j div B = 8 * (m div e) + (ppw * r + j div B)"
  proof -
    have "ppw * m = ppw * (e * (m div e) + r)" unfolding r_def by simp
    also have "\<dots> = 8 * (m div e) + ppw * r" unfolding distrib_left mult.assoc [symmetric] e(1) ..
    finally show ?thesis by simp
  qed
  have "ppw * r + j div B < 8" using r jb by linarith
  then have xd: "(ppw * m + j div B) div 8 = m div e" "(ppw * m + j div B) mod 8 = ppw * r + j div B" unfolding x by simp_all
  have tb: "bit (tab ! i) (pos j) \<longleftrightarrow> bit (data ! (s + m div e)) (7 - (ppw * r + j div B))"
    unfolding bi [symmetric] using tab il j P(3) by (simp add: tab_ok_def)
  have sp: "bit fgx (pos j) \<longleftrightarrow> bit fg (px B (j mod B))" "bit bgx (pos j) \<longleftrightarrow> bit bg (px B (j mod B))"
    unfolding fgx_def bgx_def by (rule spread_bit [OF fg B P(1) j], rule spread_bit [OF bg B P(1) j])
  show "bit ((tab ! i AND (fgx XOR bgx)) XOR bgx) (pos j) \<longleftrightarrow>
      color_bits B (bit_color data s fg bg) (ppw * m + j div B) (j mod B)"
    unfolding color_bits_def bit_color_def xd bit_and_iff bit_xor_iff tb sp by auto
qed

lemma fast_words_step:
  assumes "src < length data" "i = unat (drop_bit (shift - ppw) (ucast (data ! src)) AND bm)" "i < length tab"
    "FB_WRITEL ((tab ! i AND eorx) XOR bgx) dst v = Some v1"
  shows "fast_words tab ppw bm eorx bgx data (Suc n) shift src dst v =
    fast_words tab ppw bm eorx bgx data n (if shift - ppw = 0 then 8 else shift - ppw) (if shift - ppw = 0 then src + 1 else src) (dst + 4) v1"
  using assms by (simp add: data_at_def Let_def)

lemma fast_words_run:
  assumes tab: "tab_ok tab ppw B" and fg: "unat fg < 2 ^ B" and bg: "unat bg < 2 ^ B" and data: "s + (ppw * k + 7) div 8 \<le> length data"
  defines "e \<equiv> 8 div ppw" and "bgx \<equiv> spread B bg (ppw - 1) bg" and "fgx \<equiv> spread B fg (ppw - 1) fg"
  shows "m + n \<le> k \<Longrightarrow> (\<forall>q. m \<le> q \<and> q < m + n \<longrightarrow> v (d + int q) \<noteq> None) \<Longrightarrow>
    \<exists>v'. fast_words tab ppw (push_bit ppw 1 - 1) (fgx XOR bgx) bgx data n (8 - ppw * (m mod e)) (s + m div e) (4 * (d + int m)) v = Some v' \<and>
      dom v' = dom v \<and> (\<forall>a. \<forall>j<32. wbit v' a j = (if d + int m \<le> a \<and> a < d + int (m + n)
        then color_bits B (bit_color data s fg bg) (ppw * nat (a - d) + j div B) (j mod B) else wbit v a j))"
proof (induction n arbitrary: m v)
  case 0
  then show ?case by auto
next
  case (Suc n)
  have P: "ppw * B = 32" "ppw \<in> {1, 2, 4}" "length tab = 2 ^ ppw" using tab by (auto simp: tab_ok_def)
  have e: "ppw * e = 8" "0 < e" "0 < ppw" using P(2) by (auto simp: e_def)
  define i where "i = unat (drop_bit (8 - ppw * (m mod e) - ppw) (ucast (data ! (s + m div e))) AND (push_bit ppw 1 - 1 :: u32))"
  define w where "w = (tab ! i AND (fgx XOR bgx)) XOR bgx"
  note fw = fast_word_bit [OF tab fg bg, where m = m and data = data and s = s, folded e_def fgx_def bgx_def, folded i_def, folded w_def]
  have il: "i < length tab" using fw(1) [of 0] by simp
  have l: "s + m div e < length data"
  proof -
    have "8 * (m div e) = ppw * (e * (m div e))" using e(1) by (simp add: mult.assoc [symmetric])
    also have "\<dots> \<le> ppw * m" by (intro mult_le_mono2) simp
    also have "\<dots> < ppw * k" using Suc.prems(1) e(3) by simp
    finally have "8 * Suc (m div e) \<le> ppw * k + 7" by simp
    then have "Suc (m div e) \<le> (ppw * k + 7) div 8" by (simp add: less_eq_div_iff_mult_less_eq mult.commute)
    then show ?thesis using data by simp
  qed
  have vm: "v (d + int m) \<noteq> None" using Suc.prems(2) by simp
  define v1 where "v1 = v(d + int m \<mapsto> w)"
  have d1: "dom v1 = dom v" using vm by (auto simp: v1_def)
  have "\<forall>q. Suc m \<le> q \<and> q < Suc m + n \<longrightarrow> v1 (d + int q) \<noteq> None" using Suc.prems(2) by (simp add: v1_def)
  from Suc.IH [OF _ this] Suc.prems(1) obtain v' where
    v': "fast_words tab ppw (push_bit ppw 1 - 1) (fgx XOR bgx) bgx data n (8 - ppw * (Suc m mod e)) (s + Suc m div e) (4 * (d + int (Suc m))) v1 = Some v'"
      "dom v' = dom v1" "\<forall>a. \<forall>j<32. wbit v' a j = (if d + int (Suc m) \<le> a \<and> a < d + int (Suc m + n)
        then color_bits B (bit_color data s fg bg) (ppw * nat (a - d) + j div B) (j mod B) else wbit v1 a j)" by auto
  have adr: "4 * (d + int m) + 4 = 4 * (d + int (Suc m))" by simp
  have step: "fast_words tab ppw (push_bit ppw 1 - 1) (fgx XOR bgx) bgx data (Suc n) (8 - ppw * (m mod e)) (s + m div e) (4 * (d + int m)) v =
      fast_words tab ppw (push_bit ppw 1 - 1) (fgx XOR bgx) bgx data n (8 - ppw * (Suc m mod e)) (s + Suc m div e) (4 * (d + int (Suc m))) v1"
  proof -
    have wr: "FB_WRITEL w (4 * (d + int m)) v = Some v1" unfolding v1_def by (rule write_word) (rule vm)
    have r: "m mod e < e" using e(2) by simp
    show ?thesis
    proof (cases "Suc (m mod e) = e")
      case True
      then have z: "8 - ppw * (m mod e) - ppw = 0" using e(1) by (metis diff_diff_left add.commute mult_Suc_right diff_self_eq_0)
      have q: "Suc m mod e = 0" "Suc m div e = m div e + 1" using True by (simp_all add: mod_Suc div_Suc)
      show ?thesis unfolding fast_words_step [OF l i_def il wr [unfolded w_def]] adr z q by simp
    next
      case False
      have q: "Suc m mod e = Suc (m mod e)" "Suc m div e = m div e" using False by (simp_all add: mod_Suc div_Suc)
      have "ppw * Suc (m mod e) < ppw * e" using False r e(3) by (intro mult_strict_left_mono) simp_all
      then have nz: "8 - ppw * (m mod e) - ppw \<noteq> 0" "8 - ppw * Suc (m mod e) = 8 - ppw * (m mod e) - ppw" using e(1) by simp_all
      show ?thesis unfolding fast_words_step [OF l i_def il wr [unfolded w_def]] adr q nz(2) using nz(1) by simp
    qed
  qed
  have "wbit v' a j = (if d + int m \<le> a \<and> a < d + int (m + Suc n)
        then color_bits B (bit_color data s fg bg) (ppw * nat (a - d) + j div B) (j mod B) else wbit v a j)" if j: "j < 32" for a j
  proof (cases "a = d + int m")
    case True
    then show ?thesis using v'(3) [rule_format, OF j, of a] fw(2) [OF j] by (simp add: v1_def)
  next
    case False
    then have "d + int (Suc m) \<le> a \<longleftrightarrow> d + int m \<le> a" by auto
    then show ?thesis using v'(3) [rule_format, OF j, of a] False by (simp add: v1_def)
  qed
  then show ?case using v'(1,2) d1 step by auto
qed

lemma fast_line:
  assumes tab: "tab_ok tab ppw B" and fg: "unat fg < 2 ^ B" and bg: "unat bg < 2 ^ B" and data: "s + (ppw * k + 7) div 8 \<le> length data"
    and m: "bits_mapped v (32 * d) (32 * d + int (ppw * k * B))"
  defines "bgx \<equiv> spread B bg (ppw - 1) bg" and "fgx \<equiv> spread B fg (ppw - 1) fg"
  shows "\<exists>v'. fast_words tab ppw (push_bit ppw 1 - 1) (fgx XOR bgx) bgx data k 8 s (4 * d) v = Some v' \<and>
    line_drawn v v' (32 * d) (ppw * k) B (bit_color data s fg bg)"
proof -
  have P: "ppw * B = 32" using tab by (simp add: tab_ok_def)
  then have B: "0 < B" by (cases B) auto
  have N: "ppw * k * B = 32 * k" using P by (simp add: mult.commute mult.left_commute)
  have mp: "\<forall>q. 0 \<le> q \<and> q < 0 + k \<longrightarrow> v (d + int q) \<noteq> None"
  proof (intro allI impI)
    fix q assume q: "0 \<le> q \<and> q < 0 + k"
    have "32 * d \<le> 32 * (d + int q) \<and> 32 * (d + int q) < 32 * d + int (ppw * k * B)" unfolding N using q by simp
    then have "v (32 * (d + int q) div 32) \<noteq> None" using m unfolding bits_mapped_def by blast
    then show "v (d + int q) \<noteq> None" by simp
  qed
  from fast_words_run [OF tab fg bg data _ mp] obtain v' where v': "fast_words tab ppw (push_bit ppw 1 - 1) (fgx XOR bgx) bgx data k 8 s (4 * d) v = Some v'"
    "dom v' = dom v" "\<forall>a. \<forall>j<32. wbit v' a j = (if d \<le> a \<and> a < d + int k
        then color_bits B (bit_color data s fg bg) (ppw * nat (a - d) + j div B) (j mod B) else wbit v a j)"
    unfolding fgx_def bgx_def by auto
  have "line_drawn v v' (32 * d) (ppw * k) B (bit_color data s fg bg)"
  proof (rule line_drawnI [OF v'(2)])
    fix a :: int and j :: nat assume j: "j < 32"
    have in_range: "32 * d \<le> 32 * a + int j \<and> 32 * a + int j < 32 * d + int (ppw * k * B) \<longleftrightarrow> d \<le> a \<and> a < d + int k"
      unfolding N using j by auto
    have "nat (32 * a + int j - 32 * d) = B * (ppw * nat (a - d)) + j" if "d \<le> a"
    proof -
      define q where "q = nat (a - d)"
      have q: "nat (a - d) = q" "a = d + int q" using that by (simp_all add: q_def)
      have "32 * a + int j - 32 * d = int (32 * q + j)" unfolding q(2) by simp
      moreover have "32 * q = B * (ppw * q)" using P by (simp add: mult.assoc [symmetric] mult.commute)
      ultimately show ?thesis unfolding q(1) by (simp only: nat_int)
    qed
    then have "nat (32 * a + int j - 32 * d) div B = ppw * nat (a - d) + j div B" "nat (32 * a + int j - 32 * d) mod B = j mod B" if "d \<le> a"
      using that B by simp_all
    then show "wbit v' a j = (if 32 * d \<le> 32 * a + int j \<and> 32 * a + int j < 32 * d + int (ppw * k * B)
       then color_bits B (bit_color data s fg bg) (nat (32 * a + int j - 32 * d) div B) (nat (32 * a + int j - 32 * d) mod B) else wbit v a j)"
      unfolding in_range v'(3) [rule_format, OF j] by simp
  qed
  then show ?thesis using v'(1) by blast
qed

end

end
