(* ===== verification/Fb_Image_Lines.thy ===== *)
theory Fb_Image_Lines
  imports Fb_Image_Rows
begin

text \<open>
  Drawing an image: its lines, for each of the three loops, when the lines of the screen begin at words.
\<close>

section \<open>The lines of an image\<close>

context fb_shift
begin

text \<open>\<open>L\<close> is the distance of the lines in bits; \<open>col y x\<close> is a pixel of the image.\<close>

definition rows_drawn :: "vmem \<Rightarrow> vmem \<Rightarrow> int \<Rightarrow> int \<Rightarrow> nat \<Rightarrow> nat \<Rightarrow> nat \<Rightarrow> (nat \<Rightarrow> nat \<Rightarrow> u32) \<Rightarrow> bool" where
  "rows_drawn v v' b0 L W B h col \<longleftrightarrow> dom v' = dom v \<and>
     (\<forall>y<h. \<forall>m < W * B. fbit pos v' (b0 + int y * L + int m) = color_bits B (col y) (m div B) (m mod B)) \<and>
     (\<forall>b. \<not> in_lines b0 L (int (W * B)) h b \<longrightarrow> fbit pos v' b = fbit pos v b)"

lemma rows_step:
  assumes one: "line_drawn v v1 b0 W B (col 0)" and rest: "rows_drawn v1 v' (b0 + L) L W B h (\<lambda>y. col (Suc y))"
    and L: "int (W * B) \<le> L"
  shows "rows_drawn v v' b0 L W B (Suc h) col"
  unfolding rows_drawn_def
proof (intro conjI allI impI)
  show "dom v' = dom v" using one rest by (simp add: line_drawn_def rows_drawn_def)
  have out: "fbit pos v' b = fbit pos v1 b" if "\<not> in_lines (b0 + L) L (int (W * B)) h b" for b
    using rest that by (simp add: rows_drawn_def)
  have first: "fbit pos v1 b = (if b0 \<le> b \<and> b < b0 + int (W * B)
      then color_bits B (col 0) (nat (b - b0) div B) (nat (b - b0) mod B) else fbit pos v b)" for b
    using one unfolding line_drawn_def by blast
  show "fbit pos v' b = fbit pos v b" if b: "\<not> in_lines b0 L (int (W * B)) (Suc h) b" for b
    using b out first unfolding in_lines_Suc by auto
  fix y m assume y: "y < Suc h" and m: "m < W * B"
  show "fbit pos v' (b0 + int y * L + int m) = color_bits B (col y) (m div B) (m mod B)"
  proof (cases y)
    case 0
    have "int m < int (W * B)" using m by (simp only: of_nat_less_iff)
    then have lt: "b0 + int m < b0 + L" "b0 \<le> b0 + int m \<and> b0 + int m < b0 + int (W * B)" using L by linarith+
    have "0 \<le> L" using L by (meson of_nat_0_le_iff order_trans)
    then have "\<not> in_lines (b0 + L) L (int (W * B)) h (b0 + int m)" using in_lines_above lt(1) by fastforce
    then have "fbit pos v' (b0 + int m) = fbit pos v1 (b0 + int m)" by (rule out)
    also have "\<dots> = color_bits B (col 0) (m div B) (m mod B)" unfolding first using lt(2) by simp
    finally show ?thesis by (simp add: 0)
  next
    case (Suc z)
    have "fbit pos v' (b0 + L + int z * L + int m) = color_bits B (col (Suc z)) (m div B) (m mod B)"
      using rest y m Suc by (simp add: rows_drawn_def)
    moreover have "b0 + L + int z * L + int m = b0 + int y * L + int m" unfolding Suc by (simp add: distrib_right)
    ultimately show ?thesis by (simp add: Suc)
  qed
qed

text \<open>What is drawn is determined.\<close>

lemma rows_unique:
  assumes r: "rows_drawn v v1 b0 L W B h col" "rows_drawn v v2 b0 L W B h col"
  shows "v1 = v2"
proof -
  have f: "fbit pos v1 b = fbit pos v2 b" for b
  proof (cases "in_lines b0 L (int (W * B)) h b")
    case False
    then show ?thesis using r by (simp add: rows_drawn_def)
  next
    case True
    then obtain y where y: "y < h" "b0 + int y * L \<le> b" "b < b0 + int y * L + int (W * B)" by (auto simp: in_lines_def)
    define m where "m = nat (b - (b0 + int y * L))"
    have "int m = b - (b0 + int y * L)" unfolding m_def using y(2) by (intro nat_0_le) linarith
    then have m: "b = b0 + int y * L + int m" "int m < int (W * B)" using y(3) by linarith+
    then have "m < W * B" by (simp only: of_nat_less_iff)
    note m = m(1) this
    then show ?thesis using r y(1) by (simp add: rows_drawn_def)
  qed
  show ?thesis
  proof
    fix a
    have "dom v1 = dom v2" using r by (simp add: rows_drawn_def)
    then have n: "v1 a = None \<longleftrightarrow> v2 a = None" by (metis domIff)
    show "v1 a = v2 a"
    proof (cases "v1 a")
      case None
      then show ?thesis using n by simp
    next
      case (Some w1)
      then obtain w2 where w2: "v2 a = Some w2" using n by (cases "v2 a") auto
      have "bit w1 (pos j) = bit w2 (pos j)" if j: "j < 32" for j
      proof -
        have "wbit v1 a j = wbit v2 a j" using f [of "32 * a + int j"] unfolding fbit_word [OF j] .
        then show ?thesis unfolding wbit_def Some w2 by simp
      qed
      then show ?thesis using Some w2 by (simp add: ord.word_eq_pos)
    qed
  qed
qed

lemma rows_none: "rows_drawn v v b0 L W B 0 col"
  by (simp add: rows_drawn_def)

definition rows_mapped :: "vmem \<Rightarrow> int \<Rightarrow> int \<Rightarrow> int \<Rightarrow> nat \<Rightarrow> bool" where
  "rows_mapped v b0 L N h \<longleftrightarrow> (\<forall>b. in_lines b0 L N h b \<longrightarrow> v (b div 32) \<noteq> None)"

lemma rows_mapped_Suc:
  assumes "rows_mapped v b0 L N (Suc h)"
  shows "bits_mapped v b0 (b0 + N)" "dom v1 = dom v \<Longrightarrow> rows_mapped v1 (b0 + L) L N h"
  using assms by (auto simp: rows_mapped_def bits_mapped_def in_lines_Suc dom_def set_eq_iff)

text \<open>The line that follows, when the lines begin at words.\<close>

lemma next_line_word:
  "unat (fi_line_length p) = 4 * l \<Longrightarrow> next_line p 0 (4 * d) dst2 start = (4 * (d + int l), dst2, start)"
  by (simp add: next_line_def)

lemma color_line:
  assumes bpp: "unat (fi_bpp p) = B" "0 < B" "B \<le> 32" and S: "unat start = S" "S < 32" and W: "0 < W"
    and m: "bits_mapped v (32 * d + int S) (32 * d + int S + int (W * B))"
    and c: "\<forall>x<W. src + x < length data \<and> palette_at p (ucast (data ! (src + x))) = Some (col x) \<and> unat (col x) < 2 ^ B"
  shows "\<exists>st st' v1. blit_start A start (4 * d) v = Some st \<and> color_pixels A p data W src st = Some (src + W, st') \<and>
    blit_end A st' = Some v1 \<and> line_drawn v v1 (32 * d + int S) W B col"
proof -
  have "v (d + int ((S + 0 * B) div 32)) \<noteq> None" using pixel_mapped [OF m W bpp(2)] .
  then have "S = 0 \<or> v d \<noteq> None" using S(2) by simp
  from blit_start_at [where v = v and d = d, OF S this] obtain st where st: "blit_start A start (4 * d) v = Some st" "blit_at v d S B (color_bits B col) 0 st" by blast
  from c have "\<forall>i<W. src + i < length data \<and> palette_at p (ucast (data ! (src + i))) = Some (col (0 + i)) \<and> unat (col (0 + i)) < 2 ^ B"
    by simp
  from color_pixels_run [OF bpp m _ st(2) this] obtain st' where
    st': "color_pixels A p data W src st = Some (src + W, st')" "blit_at v d S B (color_bits B col) W st'" by auto
  from blit_line [OF st'(2) S(2) bpp(2) W m] show ?thesis using st(1) st'(1) by blast
qed

lemma color_lines_run:
  assumes bpp: "unat (fi_bpp p) = B" "0 < B" "B \<le> 32" and S: "unat start = S" "S < 32" and W: "0 < W"
    and l: "unat (fi_line_length p) = 4 * l" "W * B \<le> 32 * l"
  shows "rows_mapped v (32 * d + int S) (32 * int l) (int (W * B)) h \<Longrightarrow>
    (\<forall>y<h. \<forall>x<W. src + (y * W + x) < length data \<and> palette_at p (ucast (data ! (src + (y * W + x)))) = Some (col y x) \<and> unat (col y x) < 2 ^ B) \<Longrightarrow>
    \<exists>v'. color_lines A p 0 data W h src (4 * d) dst2 start v = Some v' \<and> rows_drawn v v' (32 * d + int S) (32 * int l) W B h col"
proof (induction h arbitrary: src d dst2 v col)
  case 0
  then show ?case by (simp add: rows_none)
next
  case (Suc h)
  note m = rows_mapped_Suc [OF Suc.prems(1)]
  have "\<forall>x<W. src + x < length data \<and> palette_at p (ucast (data ! (src + x))) = Some (col 0 x) \<and> unat (col 0 x) < 2 ^ B"
    using Suc.prems(2) [rule_format, of 0] by simp
  from color_line [OF bpp S W m(1) this] obtain st st' v1 where st: "blit_start A start (4 * d) v = Some st"
    "color_pixels A p data W src st = Some (src + W, st')" and v1: "blit_end A st' = Some v1" "line_drawn v v1 (32 * d + int S) W B (col 0)" by blast
  have d1: "dom v1 = dom v" using v1(2) by (simp add: line_drawn_def)
  have adr: "32 * d + int S + 32 * int l = 32 * (d + int l) + int S" by simp
  have "\<forall>y<h. \<forall>x<W. src + W + (y * W + x) < length data \<and> palette_at p (ucast (data ! (src + W + (y * W + x)))) = Some (col (Suc y) x) \<and> unat (col (Suc y) x) < 2 ^ B"
  proof (intro allI impI)
    fix y x assume "y < h" "x < W"
    then show "src + W + (y * W + x) < length data \<and> palette_at p (ucast (data ! (src + W + (y * W + x)))) = Some (col (Suc y) x) \<and> unat (col (Suc y) x) < 2 ^ B"
      using Suc.prems(2) [rule_format, of "Suc y" x] by (simp add: add_ac)
  qed
  from Suc.IH [OF m(2) [OF d1, unfolded adr] this, of dst2] obtain v' where
    v': "color_lines A p 0 data W h (src + W) (4 * (d + int l)) dst2 start v1 = Some v'"
    "rows_drawn v1 v' (32 * (d + int l) + int S) (32 * int l) W B h (\<lambda>y. col (Suc y))" by blast
  have L: "int (W * B) \<le> 32 * int l" using l(2) by linarith
  have "rows_drawn v v' (32 * d + int S) (32 * int l) W B (Suc h) col"
    by (rule rows_step [where col = col, OF v1(2) v'(2) [folded adr] L])
  then show ?case using st v1(1) v'(1) next_line_word [OF l(1), of d dst2 start] by simp
qed

lemma slow_lines_run:
  fixes data :: "u8 list"
  assumes bpp: "unat (fi_bpp p) = B" "0 < B" "B \<le> 32" and S: "unat start = S" "S < 32" and W: "0 < W"
    and l: "unat (fi_line_length p) = 4 * l" "W * B \<le> 32 * l" and c: "unat fg < 2 ^ B" "unat bg < 2 ^ B"
  defines "sp \<equiv> (W + 7) div 8" and "col \<equiv> (\<lambda>s y. bit_color data (s + y * ((W + 7) div 8)) fg bg)"
  shows "rows_mapped v (32 * d + int S) (32 * int l) (int (W * B)) h \<Longrightarrow> src + h * sp \<le> length data \<Longrightarrow>
    \<exists>v'. slow_lines A p 0 (push_bit (a_left A (fi_bpp p)) fg) (push_bit (a_left A (fi_bpp p)) bg) data sp W h src (4 * d) dst2 start v = Some v' \<and>
      rows_drawn v v' (32 * d + int S) (32 * int l) W B h (col src)"
proof (induction h arbitrary: src d dst2 v)
  case 0
  then show ?case by (simp add: rows_none)
next
  case (Suc h)
  note m = rows_mapped_Suc [OF Suc.prems(1)]
  have "v (d + int ((S + 0 * B) div 32)) \<noteq> None" using pixel_mapped [OF m(1) W bpp(2)] .
  then have "S = 0 \<or> v d \<noteq> None" using S(2) by simp
  from blit_start_at [where v = v and d = d, OF S this] obtain st where st: "blit_start A start (4 * d) v = Some st" "blit_at v d S B (color_bits B (col src 0)) 0 st" by blast
  have data: "src + (W + 7) div 8 \<le> length data" using Suc.prems(2) by (simp add: sp_def)
  have c0: "col src 0 = bit_color data src fg bg" by (simp add: col_def)
  from slow_pixels_run [OF bpp m(1) c data, of 0 W st] st(2) obtain st' where
    st': "slow_pixels A (fi_bpp p) (push_bit (a_left A (fi_bpp p)) fg) (push_bit (a_left A (fi_bpp p)) bg) data W 8 src st = Some st'"
    "blit_at v d S B (color_bits B (col src 0)) W st'" unfolding c0 by auto
  from blit_line [OF st'(2) S(2) bpp(2) W m(1)] obtain v1 where v1: "blit_end A st' = Some v1" "line_drawn v v1 (32 * d + int S) W B (col src 0)" by blast
  have d1: "dom v1 = dom v" using v1(2) by (simp add: line_drawn_def)
  have adr: "32 * d + int S + 32 * int l = 32 * (d + int l) + int S" by simp
  have "src + sp + h * sp \<le> length data" using Suc.prems(2) by simp
  from Suc.IH [OF m(2) [OF d1, unfolded adr] this, of dst2] obtain v' where
    v': "slow_lines A p 0 (push_bit (a_left A (fi_bpp p)) fg) (push_bit (a_left A (fi_bpp p)) bg) data sp W h (src + sp) (4 * (d + int l)) dst2 start v1 = Some v'"
    "rows_drawn v1 v' (32 * (d + int l) + int S) (32 * int l) W B h (col (src + sp))" by blast
  have cs: "col (src + sp) = (\<lambda>y. col src (Suc y))" by (simp add: col_def sp_def fun_eq_iff add_ac)
  have L: "int (W * B) \<le> 32 * int l" using l(2) by linarith
  have "rows_drawn v v' (32 * d + int S) (32 * int l) W B (Suc h) (col src)"
    by (rule rows_step [where col = "col src", OF v1(2) v'(2) [unfolded cs, folded adr] L])
  then show ?case using st(1) st'(1) v1(1) v'(1) next_line_word [OF l(1), of d dst2 start] by simp
qed

lemma fast_lines_run:
  fixes data :: "u8 list"
  assumes tab: "tab_ok tab ppw B" and c: "unat fg < 2 ^ B" "unat bg < 2 ^ B" and l: "ppw * k * B \<le> 32 * l"
  defines "bgx \<equiv> spread B bg (ppw - 1) bg" and "fgx \<equiv> spread B fg (ppw - 1) fg"
    and "sp \<equiv> (ppw * k + 7) div 8" and "col \<equiv> (\<lambda>s y. bit_color data (s + y * ((ppw * k + 7) div 8)) fg bg)"
  shows "rows_mapped v (32 * d) (32 * int l) (int (ppw * k * B)) h \<Longrightarrow> src + h * sp \<le> length data \<Longrightarrow>
    \<exists>v'. fast_lines tab ppw (push_bit ppw 1 - 1) (fgx XOR bgx) bgx data sp (4 * int l) k h src (4 * d) v = Some v' \<and>
      rows_drawn v v' (32 * d) (32 * int l) (ppw * k) B h (col src)"
proof (induction h arbitrary: src d v)
  case 0
  then show ?case by (simp add: rows_none)
next
  case (Suc h)
  note m = rows_mapped_Suc [OF Suc.prems(1)]
  have data: "src + (ppw * k + 7) div 8 \<le> length data" using Suc.prems(2) by (simp add: sp_def)
  have c0: "col src 0 = bit_color data src fg bg" by (simp add: col_def)
  from fast_line [OF tab c data m(1)] obtain v1 where
    v1: "fast_words tab ppw (push_bit ppw 1 - 1) (fgx XOR bgx) bgx data k 8 src (4 * d) v = Some v1"
    "line_drawn v v1 (32 * d) (ppw * k) B (col src 0)" unfolding c0 fgx_def bgx_def by blast
  have d1: "dom v1 = dom v" using v1(2) by (simp add: line_drawn_def)
  have adr: "32 * d + 32 * int l = 32 * (d + int l)" "4 * d + 4 * int l = 4 * (d + int l)" by simp_all
  have "src + sp + h * sp \<le> length data" using Suc.prems(2) by simp
  from Suc.IH [OF m(2) [OF d1, unfolded adr] this] obtain v' where
    v': "fast_lines tab ppw (push_bit ppw 1 - 1) (fgx XOR bgx) bgx data sp (4 * int l) k h (src + sp) (4 * (d + int l)) v1 = Some v'"
    "rows_drawn v1 v' (32 * (d + int l)) (32 * int l) (ppw * k) B h (col (src + sp))" by blast
  have cs: "col (src + sp) = (\<lambda>y. col src (Suc y))" by (simp add: col_def sp_def fun_eq_iff add_ac)
  have L: "int (ppw * k * B) \<le> 32 * int l" using l by linarith
  have "rows_drawn v v' (32 * d) (32 * int l) (ppw * k) B (Suc h) (col src)"
    by (rule rows_step [where col = "col src", OF v1(2) v'(2) [unfolded cs, folded adr] L])
  then show ?case using v1(1) v'(1) unfolding fast_lines.simps adr by simp
qed

end

end
