(* ===== verification/Fb_Image_Props.thy ===== *)
theory Fb_Image_Props
  imports Fb_Image_Lines
begin

text \<open>
  Drawing an image: its pixels, the fast form and the slow one, and what goes wrong when the lines of the screen
  do not begin at words.
\<close>

section \<open>The whole image\<close>

text \<open>The rectangle of an image, and the colour of its pixels.\<close>

definition image_rect :: "fb_image \<Rightarrow> fb_fillrect" where
  "image_rect im = \<lparr>fr_dx = im_dx im, fr_dy = im_dy im, fr_width = im_width im, fr_height = im_height im, fr_color = 0, fr_rop = ROP_COPY\<rparr>"

definition image_color :: "fb_info \<Rightarrow> fb_image \<Rightarrow> nat \<Rightarrow> nat \<Rightarrow> u32" where
  "image_color p im y x =
     (if im_depth im = 1
      then bit_color (im_data im) (y * ((unat (im_width im) + 7) div 8)) (the (palette_at p (im_fg_color im))) (the (palette_at p (im_bg_color im))) x
      else the (palette_at p (ucast (im_data im ! (y * unat (im_width im) + x)))))"

text \<open>An image with enough data whose colours fit the depth of the screen.\<close>

definition color_fits :: "fb_info \<Rightarrow> u32 \<Rightarrow> bool" where
  "color_fits p c \<longleftrightarrow> (\<exists>x. palette_at p c = Some x \<and> unat x < 2 ^ unat (fi_bpp p))"

definition image_ok :: "fb_info \<Rightarrow> fb_image \<Rightarrow> bool" where
  "image_ok p im \<longleftrightarrow> 0 < unat (im_width im) \<and>
     (if im_depth im = 1 then color_fits p (im_fg_color im) \<and> color_fits p (im_bg_color im) \<and>
        unat (im_height im) * ((unat (im_width im) + 7) div 8) \<le> length (im_data im)
      else unat (im_height im) * unat (im_width im) \<le> length (im_data im) \<and>
        (\<forall>b \<in> set (im_data im). color_fits p (ucast b)))"

text \<open>The screen and its lines begin at words.\<close>

definition word_lines :: "fb_info \<Rightarrow> bool" where
  "word_lines p \<longleftrightarrow> 4 dvd unat (fi_screen_base p) \<and> 4 dvd unat (fi_line_length p)"

lemma image_color_at:
  assumes ok: "image_ok p im" and yx: "y < unat (im_height im)" "x < unat (im_width im)"
  shows "unat (image_color p im y x) < 2 ^ unat (fi_bpp p)"
    "im_depth im \<noteq> 1 \<Longrightarrow> y * unat (im_width im) + x < length (im_data im) \<and>
      palette_at p (ucast (im_data im ! (y * unat (im_width im) + x))) = Some (image_color p im y x)"
proof -
  have l: "y * unat (im_width im) + x < length (im_data im)" if "im_depth im \<noteq> 1"
  proof -
    have "Suc y * unat (im_width im) \<le> unat (im_height im) * unat (im_width im)" using yx(1) by (intro mult_le_mono1) simp
    then have "y * unat (im_width im) + x < unat (im_height im) * unat (im_width im)" using yx(2) by simp
    then show ?thesis using ok that by (simp add: image_ok_def)
  qed
  have c: "color_fits p (ucast (im_data im ! (y * unat (im_width im) + x)))" if "im_depth im \<noteq> 1"
    using ok that l [OF that] by (simp add: image_ok_def)
  show "im_depth im \<noteq> 1 \<Longrightarrow> y * unat (im_width im) + x < length (im_data im) \<and>
      palette_at p (ucast (im_data im ! (y * unat (im_width im) + x))) = Some (image_color p im y x)"
    using l c by (auto simp: color_fits_def image_color_def)
  show "unat (image_color p im y x) < 2 ^ unat (fi_bpp p)"
  proof (cases "im_depth im = 1")
    case True
    then show ?thesis using ok by (auto simp: image_ok_def color_fits_def image_color_def bit_color_def)
  next
    case False
    then show ?thesis using c by (auto simp: color_fits_def image_color_def)
  qed
qed

lemma and3: "unat ((x :: u32) AND 3) = unat x mod 4"
proof -
  have m: "(3 :: u32) = mask 2" by code_simp
  show ?thesis unfolding m take_bit_eq_mask [symmetric] by (simp add: take_bit_eq_mod unat_mod)
qed

lemma and_not3: "unat ((x :: u32) AND NOT 3) = 4 * (unat x div 4)"
proof -
  have m: "(3 :: u32) = mask 2" by code_simp
  have e: "2 \<le> n \<Longrightarrow> Suc (Suc (n - 2)) = n" for n :: nat by simp
  have "x AND NOT 3 = push_bit 2 (drop_bit 2 x)"
    unfolding m by (rule bit_word_eqI) (auto simp: bit_simps not_less e)
  moreover have "unat x < 2 ^ 32" using unsigned_less [of x] by simp
  then have "4 * (unat x div 4) < 2 ^ 32" by simp
  ultimately show ?thesis by (simp add: push_bit_eq_mult drop_bit_eq_div unat_word_ariths unat_div)
qed

lemma blit_indices:
  assumes fits: "rect_fits p (image_rect im)" and al: "4 dvd unat (fi_screen_base p)"
  defines "bs \<equiv> im_dy im * fi_line_length p * 8 + im_dx im * fi_bpp p"
    and "d \<equiv> int (unat (fi_screen_base p) div 4 + unat (im_dy im * fi_line_length p * 8 + im_dx im * fi_bpp p) div 32)"
  shows "unat (bs AND (32 - 1)) = unat bs mod 32" "unat ((fi_line_length p AND (4 - 1)) * 8) = unat (fi_line_length p) mod 4 * 8"
    "int (unat (fi_screen_base p)) + int (unat ((bs div 8) AND NOT (4 - 1))) = 4 * d"
    "rect_start p (image_rect im) = 32 * d + int (unat bs mod 32)"
proof -
  have b4: "unat (fi_screen_base p) mod 4 = 0" using al by (simp add: dvd_eq_mod_eq_0)
  show "unat (bs AND (32 - 1)) = unat bs mod 32" using unat_low [of bs] by (simp add: BITS_def)
  have "unat (fi_screen_base p AND 3) = 0" using b4 by (simp add: and3)
  then have z: "fi_screen_base p AND 3 = 0" by (simp only: unat_eq_zero)
  show "unat ((fi_line_length p AND (4 - 1)) * 8) = unat (fi_line_length p) mod 4 * 8" by (simp add: unat_word_ariths and3)
  have base: "unat (fi_screen_base p) = 4 * (unat (fi_screen_base p) div 4)" using b4 by (metis mult_div_mod_eq add_0_right)
  have "unat (bs div 8 AND NOT 3) = 4 * (unat bs div 32)" unfolding and_not3 by (simp add: unat_div flip: div_mult2_eq)
  then show "int (unat (fi_screen_base p)) + int (unat ((bs div 8) AND NOT (4 - 1))) = 4 * d"
    unfolding d_def bs_def [symmetric] using base by (simp del: of_nat_unat)
  have "32 * (int (unat (fi_screen_base p AND NOT 3)) div 4) + int (unat bs) = rect_start p (image_rect im)"
    using fill_indices(5) [OF fits] by (simp add: z image_rect_def bs_def del: of_nat_unat)
  moreover have "int (unat (fi_screen_base p AND NOT 3)) div 4 = int (unat (fi_screen_base p) div 4)"
    unfolding and_not3 by (simp del: of_nat_unat)
  moreover have "int (unat bs) = 32 * int (unat bs div 32) + int (unat bs mod 32)"
    by (metis mult_div_mod_eq of_nat_add of_nat_mult of_nat_numeral)
  ultimately show "rect_start p (image_rect im) = 32 * d + int (unat bs mod 32)"
    unfolding d_def bs_def [symmetric] by (simp only: of_nat_add distrib_left add.assoc [symmetric])
qed

context fb_shift
begin

lemma fast_draws:
  assumes bpp: "fi_bpp p \<in> {8, 16, 32}" and w: "im_width im AND (32 div fi_bpp p - 1) = 0" and l: "unat (fi_line_length p) = 4 * l"
    and fit: "unat (im_width im) * unat (fi_bpp p) \<le> 32 * l" "32 * l < 2 ^ 31"
    and c: "unat fg < 2 ^ unat (fi_bpp p)" "unat bg < 2 ^ unat (fi_bpp p)"
    and data: "unat (im_height im) * ((unat (im_width im) + 7) div 8) \<le> length (im_data im)"
    and m: "rows_mapped v (32 * d) (32 * int l) (int (unat (im_width im) * unat (fi_bpp p))) (unat (im_height im))"
  shows "\<exists>v'. fast_imageblit A im p (4 * d) fg bg v = Some v' \<and>
    rows_drawn v v' (32 * d) (32 * int l) (unat (im_width im)) (unat (fi_bpp p)) (unat (im_height im))
      (\<lambda>y. bit_color (im_data im) (y * ((unat (im_width im) + 7) div 8)) fg bg)"
proof -
  define B ppw W where "B = unat (fi_bpp p)" and "ppw = unat (32 div fi_bpp p)" and "W = unat (im_width im)"
  have tab: "tab_ok (blit_tab A (fi_bpp p)) ppw B" using blit_tab_ok [OF bpp] by (simp add: B_def ppw_def)
  have P: "ppw * B = 32" "ppw \<in> {1, 2, 4}" using tab by (simp_all add: tab_ok_def)
  have p1: "unat (32 div fi_bpp p - 1) = ppw - 1" using bpp by (auto simp: ppw_def)
  have "W mod ppw = 0"
  proof -
    have low: "unat (im_width im AND mask q) = W mod 2 ^ q" for q
      unfolding take_bit_eq_mask [symmetric] unsigned_take_bit_eq W_def by (rule take_bit_eq_mod)
    have "ppw = 2 ^ 2 \<and> 32 div fi_bpp p - 1 = mask 2 \<or> ppw = 2 ^ 1 \<and> 32 div fi_bpp p - 1 = mask 1 \<or> ppw = 2 ^ 0 \<and> 32 div fi_bpp p - 1 = mask 0"
      using bpp by (auto simp: ppw_def mask_eq_exp_minus_1)
    then obtain q where q: "ppw = 2 ^ q" "32 div fi_bpp p - 1 = mask q" by blast
    show ?thesis using low [of q] w unfolding q by simp
  qed
  then obtain k where k: "W = ppw * k" by (auto simp: mod_eq_0_iff_dvd elim: dvdE)
  have ppw0: "0 < ppw" using P(2) by auto
  have "unat (im_width im div (32 div fi_bpp p)) = W div ppw" unfolding ppw_def W_def by (rule unat_div)
  then have uk: "unat (im_width im div (32 div fi_bpp p)) = k" using k ppw0 by simp
  have "W \<le> W * B" using P(1) by (cases B) auto
  then have "W < 2 ^ 31" using fit unfolding B_def [symmetric] W_def [symmetric] by linarith
  then have "unat (im_width im + 7) = W + 7" by (simp add: unat_word_ariths W_def)
  then have sp: "unat ((im_width im + 7) div 8) = (ppw * k + 7) div 8" by (simp add: unat_div k)
  have N: "W * B = ppw * k * B" by (simp add: k)
  have "ppw * k * B \<le> 32 * l" using fit(1) by (simp add: B_def [symmetric] W_def [symmetric] k)
  from fast_lines_run [OF tab c [folded B_def] this, of v d "unat (im_height im)" 0 "im_data im"] obtain v' where
    "fast_lines (blit_tab A (fi_bpp p)) ppw (push_bit ppw 1 - 1) (spread B fg (ppw - 1) fg XOR spread B bg (ppw - 1) bg) (spread B bg (ppw - 1) bg)
      (im_data im) ((ppw * k + 7) div 8) (4 * int l) k (unat (im_height im)) 0 (4 * d) v = Some v'"
    "rows_drawn v v' (32 * d) (32 * int l) (ppw * k) B (unat (im_height im)) (\<lambda>y. bit_color (im_data im) (0 + y * ((ppw * k + 7) div 8)) fg bg)"
    using m data unfolding B_def [symmetric] W_def [symmetric] N [symmetric] by (auto simp: k)
  moreover have "int (unat (fi_line_length p)) = 4 * int l" by (simp add: l del: of_nat_unat)
  ultimately show ?thesis
    unfolding fast_imageblit_def Let_def p1 uk sp ppw_def [symmetric] B_def [symmetric] W_def [symmetric] k by auto
qed

text \<open>Whichever form is used, the lines of the image are drawn with its colours.\<close>

lemma image_drawn:
  assumes run: "fi_running p" and bpp: "0 < unat (fi_bpp p)" "unat (fi_bpp p) \<le> 32"
    and fits: "rect_fits p (image_rect im)" and al: "word_lines p" and ok: "image_ok p im"
    and m: "\<forall>b. rect_bit p (image_rect im) b \<longrightarrow> v (b div 32) \<noteq> None"
  shows "\<exists>v'. cfb_imageblit A p im v = Some v' \<and>
    rows_drawn v v' (rect_start p (image_rect im)) (line_width p) (unat (im_width im)) (unat (fi_bpp p)) (unat (im_height im)) (image_color p im)"
proof -
  define bs d S where "bs = im_dy im * fi_line_length p * 8 + im_dx im * fi_bpp p"
    and "d = int (unat (fi_screen_base p) div 4 + unat (im_dy im * fi_line_length p * 8 + im_dx im * fi_bpp p) div 32)"
    and "S = unat bs mod 32"
  have wl: "4 dvd unat (fi_screen_base p)" "unat (fi_line_length p) mod 4 = 0" using al by (simp_all add: word_lines_def dvd_eq_mod_eq_0)
  note ix = blit_indices [OF fits wl(1), folded bs_def d_def, folded S_def]
  have "unat ((fi_line_length p AND (4 - 1)) * 8) = 0" using ix(2) wl(2) by simp
  then have pitch: "(fi_line_length p AND (4 - 1)) * 8 = 0" by (simp only: unat_eq_zero)
  define B W H where "B = unat (fi_bpp p)" and "W = unat (im_width im)" and "H = unat (im_height im)"
  note nm = B_def [symmetric] W_def [symmetric] H_def [symmetric]
  obtain l where l: "unat (fi_line_length p) = 4 * l" using al by (auto simp: word_lines_def elim: dvdE)
  have lw: "line_width p = 32 * int l" by (simp add: line_width_def l del: of_nat_unat)
  have fit: "W * B \<le> 32 * l" "32 * l < 2 ^ 31" using fill_indices(3,4) [OF fits] by (simp_all add: image_rect_def nm l)
  have S: "unat (bs AND (32 - 1)) = S" "S < 32" using ix(1) by (simp_all add: S_def)
  have start: "rect_start p (image_rect im) = 32 * d + int S" by (rule ix(4))
  have mp: "rows_mapped v (32 * d + int S) (32 * int l) (int (W * B)) H"
    using m unfolding rows_mapped_def rect_bit_def start lw by (simp add: image_rect_def nm)
  have W: "0 < W" using ok by (simp add: image_ok_def W_def)
  note B = bpp [unfolded nm]
  have e: "cfb_imageblit A p im v =
      (if im_depth im = 1 then do {
         fgcolor \<leftarrow> palette_at p (im_fg_color im);
         bgcolor \<leftarrow> palette_at p (im_bg_color im);
         if fi_bpp p = 0 then None
         else if 32 mod fi_bpp p = 0 \<and> bs AND (32 - 1) = 0 \<and> im_width im AND (32 div fi_bpp p - 1) = 0 \<and> fi_bpp p \<ge> 8 \<and> fi_bpp p \<le> 32 then
           fast_imageblit A im p (4 * d) fgcolor bgcolor v
         else slow_imageblit A im p (4 * d) fgcolor bgcolor (bs AND (32 - 1)) 0 v }
       else color_imageblit A im p (4 * d) (bs AND (32 - 1)) 0 v)"
    unfolding cfb_imageblit_def Let_def bs_def [symmetric] pitch ix(3) using run by (simp cong: if_cong)
  show ?thesis
  proof (cases "im_depth im = 1")
    case True
    then obtain fg bg where c: "palette_at p (im_fg_color im) = Some fg" "palette_at p (im_bg_color im) = Some bg" "unat fg < 2 ^ B" "unat bg < 2 ^ B"
      and data: "H * ((W + 7) div 8) \<le> length (im_data im)"
      using ok by (auto simp: image_ok_def color_fits_def nm)
    have col: "image_color p im = (\<lambda>y. bit_color (im_data im) (y * ((W + 7) div 8)) fg bg)"
      by (simp add: image_color_def True c(1,2) W_def fun_eq_iff)
    have b0: "fi_bpp p \<noteq> 0" using B(1) by (auto simp: B_def)
    show ?thesis
    proof (cases "32 mod fi_bpp p = 0 \<and> bs AND (32 - 1) = 0 \<and> im_width im AND (32 div fi_bpp p - 1) = 0 \<and> fi_bpp p \<ge> 8 \<and> fi_bpp p \<le> 32")
      case fast: True
      then have S0: "S = 0" using S(1) by simp
      have "unat (32 mod fi_bpp p) = 32 mod B" by (simp add: unat_mod B_def)
      then have "B dvd 32 \<and> 8 \<le> B" using fast by (simp add: B_def word_le_nat_alt dvd_eq_mod_eq_0)
      then obtain q where q: "32 = B * q" "8 \<le> B" by (elim conjE dvdE)
      then have "8 * q \<le> 32" by (metis mult_le_mono1)
      then have "q = 0 \<or> q = 1 \<or> q = 2 \<or> q = 3 \<or> q = 4" by linarith
      moreover have "q \<noteq> 3"
      proof
        assume "q = 3"
        then have "(32 :: nat) mod 3 = (B * 3) mod 3" using q(1) by simp
        then show False by simp
      qed
      ultimately have "B = 8 \<or> B = 16 \<or> B = 32" using q(1) by (elim disjE) auto
      then have "fi_bpp p \<in> {8, 16, 32}" by (auto simp: B_def word_unat_eq_iff)
      from fast_draws [OF this _ l, of im fg bg v d] show ?thesis
        using fast fit c mp data S0 unfolding e start lw col by (simp add: True b0 nm)
    next
      case slow: False
      have "W \<le> W * B" using B(1) by simp
      then have "W < 2 ^ 31" using fit by linarith
      then have "unat (im_width im + 7) = W + 7" by (simp add: unat_word_ariths W_def)
      then have sp: "unat ((im_width im + 7) div 8) = (W + 7) div 8" by (simp add: unat_div)
      have bp: "unat (fi_bpp p) = B" by (simp add: B_def)
      from slow_lines_run [where data = "im_data im" and src = "0" and ?dst2.0 = "4 * d", OF bp B S W l fit(1) c(3,4) mp] data obtain v' where
        "slow_lines A p 0 (push_bit (a_left A (fi_bpp p)) fg) (push_bit (a_left A (fi_bpp p)) bg) (im_data im) ((W + 7) div 8) W H 0 (4 * d) (4 * d)
          (bs AND (32 - 1)) v = Some v'"
        "rows_drawn v v' (32 * d + int S) (32 * int l) W B H (\<lambda>y. bit_color (im_data im) (0 + y * ((W + 7) div 8)) fg bg)" by auto
      moreover have "cfb_imageblit A p im v = slow_imageblit A im p (4 * d) fg bg (bs AND (32 - 1)) 0 v"
        unfolding e if_P [OF True] c(1,2) Option.bind.simps if_not_P [OF b0] if_not_P [OF slow] ..
      ultimately show ?thesis unfolding start lw col by (auto simp: slow_imageblit_def sp nm Let_def)
    qed
  next
    case False
    have "\<forall>y<H. \<forall>x<W. 0 + (y * W + x) < length (im_data im) \<and>
        palette_at p (ucast (im_data im ! (0 + (y * W + x)))) = Some (image_color p im y x) \<and> unat (image_color p im y x) < 2 ^ B"
      using image_color_at [OF ok] False by (auto simp: nm image_color_def)
    from color_lines_run [where ?dst2.0 = "4 * d", OF B_def [symmetric] B S W l fit(1) mp this]
    show ?thesis unfolding e start lw by (simp add: False color_imageblit_def nm)
  qed
qed

end

section \<open>Pixels\<close>

text \<open>Pixels whose bits are kept, and pixels whose bits are those of a colour.\<close>

lemma pixel_kept:
  assumes B: "B dvd 32" "0 < B" and al: "int B dvd b" and dom: "dom v' = dom v"
    and same: "\<forall>i<B. fbit be_pos v' (b + int i) = fbit be_pos v (b + int i)"
  shows "fb_pixel B v' b = fb_pixel B v b"
proof (cases "v (b div 32)")
  case None
  then have "v' (b div 32) = None" using dom by (metis domIff)
  then show ?thesis using None by (simp add: fb_pixel_def)
next
  case (Some w)
  then obtain w' where w': "v' (b div 32) = Some w'" using dom by (metis domD domI)
  have "fb_pixel B v' b = Some (the (fb_pixel B v b))"
  proof (rule pixel_eqI)
    show "bit (the (fb_pixel B v' b)) j = bit (the (fb_pixel B v b)) j" if j: "j < B" for j
      unfolding pixel_bit_at(1) [where v = v', OF B(1) al j w'] pixel_bit_at(1) [where v = v, OF B(1) al j Some]
      using same B(2) by simp
    show "v' (b div 32) \<noteq> None" using w' by simp
    show "take_bit B (the (fb_pixel B v b)) = the (fb_pixel B v b)" using Some by (simp add: fb_pixel_def)
  qed
  then show ?thesis using Some by (simp add: fb_pixel_def)
qed

lemma pixel_drawn:
  assumes B: "B dvd 32" and al: "int B dvd b" and m: "v' (b div 32) \<noteq> None" and c: "unat c < 2 ^ B"
    and bits: "\<forall>j<B. fbit be_pos v' (b + int (B - 1 - j)) = bit c j"
  shows "fb_pixel B v' b = Some c"
proof -
  obtain w' where w': "v' (b div 32) = Some w'" using m by blast
  show ?thesis
  proof (rule pixel_eqI)
    show "bit (the (fb_pixel B v' b)) j = bit c j" if j: "j < B" for j
      unfolding pixel_bit_at(1) [where v = v', OF B al j w'] using bits j by blast
    show "v' (b div 32) \<noteq> None" by (rule m)
    show "take_bit B c = c" using c high_none [of c B] by (metis bit_take_bit_iff bit_word_eqI not_le)
  qed
qed

lemma pixel_aligned:
  assumes "word_lines p" "unat (fi_bpp p) dvd 32"
  shows "int (unat (fi_bpp p)) dvd pixel_bit p x y"
proof -
  have "int (unat (fi_bpp p)) dvd 32" using assms(2) by (metis int_dvd_int_iff of_nat_numeral)
  moreover have "32 dvd screen_bit p" "32 dvd line_width p"
    using assms(1) by (auto simp: word_lines_def screen_bit_def line_width_def simp del: of_nat_unat elim!: dvdE)
  ultimately show ?thesis unfolding pixel_bit_def by (intro dvd_add dvd_mult) (auto intro: dvd_trans)
qed

lemma pixel_place:
  "pixel_bit p (unat (fr_dx r) + dx) (unat (fr_dy r) + dy) + int i =
     rect_start p r + int dy * line_width p + int (dx * unat (fi_bpp p) + i)"
  unfolding pixel_bit_def rect_start_def by (simp add: distrib_right)

text \<open>C31: On a processor with the first pixel in the high bits of a word, drawing an image that lies inside the lines
  of the screen returns, and then every pixel of its place on the screen has the colour of the image, through
  the palette where the screen has one, and every other pixel is as it was; this is so for images of bits and
  of colours, whichever of the three loops draws them. The depth divides a word, the screen and its lines begin
  at words, the image has all its data, its colours fit the depth, and the words of its place are mapped.\<close>

theorem imageblit_pixels:
  assumes arch: "fb_shift A be_pos (\<lambda>B j. B - 1 - j)" and run: "fi_running p" and bpp: "whole_bpp (fi_bpp p)"
    and fits: "rect_fits p (image_rect im)" and al: "word_lines p" and ok: "image_ok p im"
    and m: "\<forall>b. rect_bit p (image_rect im) b \<longrightarrow> v (b div 32) \<noteq> None"
  shows "\<exists>v'. cfb_imageblit A p im v = Some v' \<and>
    (\<forall>x y. (x + 1) * unat (fi_bpp p) \<le> 8 * unat (fi_line_length p) \<longrightarrow>
      fb_pixel (unat (fi_bpp p)) v' (pixel_bit p x y) =
        (if in_rect (image_rect im) x y then Some (image_color p im (y - unat (im_dy im)) (x - unat (im_dx im)))
         else fb_pixel (unat (fi_bpp p)) v (pixel_bit p x y)))"
proof -
  define B where "B = unat (fi_bpp p)"
  let ?r = "image_rect im" and ?X = "unat (im_dx im)" and ?Y = "unat (im_dy im)"
  have B: "B dvd 32" "0 < B" "B \<le> 32" using bpp by (auto simp: whole_bpp_def B_def)
  obtain v' where v': "cfb_imageblit A p im v = Some v'" and
    rows: "fb_shift.rows_drawn be_pos (\<lambda>B j. B - 1 - j) v v' (rect_start p ?r) (line_width p) (unat (im_width im)) B (unat (im_height im)) (image_color p im)"
    using fb_shift.image_drawn [OF arch run B(2,3) [unfolded B_def] fits al ok m] unfolding B_def by blast
  note rows = rows [unfolded fb_shift.rows_drawn_def [OF arch] fb_shift.color_bits_def [OF arch]]
  have dom: "dom v' = dom v" using rows by blast
  have inside: "fbit be_pos v' (rect_start p ?r + int y * line_width p + int k) = bit (image_color p im y (k div B)) (B - 1 - k mod B)"
    if "y < unat (im_height im)" "k < unat (im_width im) * B" for y k using rows that by blast
  have outside: "fbit be_pos v' b = fbit be_pos v b" if "\<not> rect_bit p ?r b" for b
    using rows that unfolding rect_bit_def image_rect_def B_def by simp
  have "fb_pixel B v' (pixel_bit p x y) = (if in_rect ?r x y then Some (image_color p im (y - ?Y) (x - ?X)) else fb_pixel B v (pixel_bit p x y))"
    if xy: "(x + 1) * B \<le> 8 * unat (fi_line_length p)" for x y
  proof -
    note al' = pixel_aligned [OF al B(1) [unfolded B_def], of x y, folded B_def]
    have inr: "rect_bit p ?r (pixel_bit p x y + int i) \<longleftrightarrow> in_rect ?r x y" if "i < B" for i
      using rect_pixel [OF fits, of x i y] xy that by (simp add: B_def)
    show ?thesis
    proof (cases "in_rect ?r x y")
      case False
      have "\<forall>i<B. fbit be_pos v' (pixel_bit p x y + int i) = fbit be_pos v (pixel_bit p x y + int i)"
        using outside inr False by blast
      from pixel_kept [OF B(1,2) al' dom this] show ?thesis using False by simp
    next
      case True
      then obtain dx dy where d: "x = ?X + dx" "y = ?Y + dy" "dx < unat (im_width im)" "dy < unat (im_height im)"
        by (auto simp: in_rect_def image_rect_def dest!: le_Suc_ex)
      have "v (pixel_bit p x y div 32) \<noteq> None" using m inr [OF B(2)] True by auto
      then have mapped: "v' (pixel_bit p x y div 32) \<noteq> None" using dom by (metis domIff)
      have "fbit be_pos v' (pixel_bit p x y + int (B - 1 - j)) = bit (image_color p im dy dx) j" if j: "j < B" for j
      proof -
        define i where "i = B - 1 - j"
        let ?k = "dx * B + i"
        have i: "i < B" "B - 1 - i = j" using j by (simp_all add: i_def)
        then have "?k < Suc dx * B" by simp
        also have "\<dots> \<le> unat (im_width im) * B" using d(3) by (intro mult_le_mono1) simp
        finally have "?k < unat (im_width im) * B" .
        moreover have "?k div B = dx" "?k mod B = i" using i(1) by simp_all
        ultimately have "fbit be_pos v' (rect_start p ?r + int dy * line_width p + int ?k) = bit (image_color p im dy dx) j"
          using inside [OF d(4), of ?k] i(2) by simp
        moreover have place: "pixel_bit p x y + int i = rect_start p ?r + int dy * line_width p + int ?k"
          using pixel_place [of p ?r dx dy i] unfolding d(1,2) B_def by (simp only: image_rect_def fb_fillrect.simps)
        ultimately show ?thesis unfolding i_def [symmetric] place by blast
      qed
      then have "fb_pixel B v' (pixel_bit p x y) = Some (image_color p im dy dx)"
        using pixel_drawn [where v' = v', OF B(1) al' mapped image_color_at(1) [OF ok d(4,3), folded B_def]] by blast
      then show ?thesis using True by (simp add: d(1,2))
    qed
  qed
  then show ?thesis using v' unfolding B_def by blast
qed

definition blit_wit_info :: fb_info where
  "blit_wit_info = \<lparr>fi_running = True, fi_palette_visual = False, fi_palette = [], fi_bpp = 8, fi_screen_base = 0, fi_line_length = 16\<rparr>"

definition blit_wit_image :: fb_image where
  "blit_wit_image = \<lparr>im_dx = 3, im_dy = 1, im_width = 4, im_height = 2, im_fg_color = 7, im_bg_color = 1, im_depth = 1, im_data = [0x50, 0xa0]\<rparr>"

lemma imageblit_pixels_witness:
  "\<exists>v'. cfb_imageblit be_arch blit_wit_info blit_wit_image (\<lambda>_. Some 0) = Some v' \<and>
     fb_pixel 8 v' (pixel_bit blit_wit_info 4 1) = Some 7 \<and> fb_pixel 8 v' (pixel_bit blit_wit_info 5 1) = Some 1"
proof -
  let ?p = blit_wit_info and ?im = blit_wit_image
  have "fi_running ?p" "whole_bpp (fi_bpp ?p)" "rect_fits ?p (image_rect ?im)" "word_lines ?p" "image_ok ?p ?im"
    by (simp_all add: blit_wit_info_def blit_wit_image_def whole_bpp_def rect_fits_def image_rect_def word_lines_def
        image_ok_def color_fits_def palette_at_def)
  from imageblit_pixels [OF be_shift.fb_shift_axioms this, of "\<lambda>_. Some 0"] obtain v' where
    v': "cfb_imageblit be_arch ?p ?im (\<lambda>_. Some 0) = Some v'"
    "\<forall>x y. (x + 1) * unat (fi_bpp ?p) \<le> 8 * unat (fi_line_length ?p) \<longrightarrow>
      fb_pixel (unat (fi_bpp ?p)) v' (pixel_bit ?p x y) =
        (if in_rect (image_rect ?im) x y then Some (image_color ?p ?im (y - unat (im_dy ?im)) (x - unat (im_dx ?im)))
         else fb_pixel (unat (fi_bpp ?p)) (\<lambda>_. Some 0) (pixel_bit ?p x y))" by auto
  have "bit (0x50 :: u8) 6" "\<not> bit (0x50 :: u8) 5" by code_simp+
  then show ?thesis using v'(1) v'(2) [rule_format, of 4 1] v'(2) [rule_format, of 5 1]
    by (simp add: blit_wit_info_def blit_wit_image_def in_rect_def image_rect_def image_color_def bit_color_def palette_at_def)
qed

section \<open>The fast form\<close>

text \<open>C32: Where the fast form of drawing an image of bits is used, at words and with a width that fills whole words,
  it draws what the slow form draws: whole words from a table of masks and the exclusive or of the two colours are the pixels that the slow
  form shifts into place one by one. This is so for both orders of the pixels in a word and the three depths the fast form has.\<close>

theorem imageblit_fast_is_slow:
  assumes arch: "fb_shift A pos px" and bpp: "fi_bpp p \<in> {8, 16, 32}" and w: "0 < unat (im_width im)" "im_width im AND (32 div fi_bpp p - 1) = 0"
    and l: "4 dvd unat (fi_line_length p)"
    and fit: "unat (im_width im) * unat (fi_bpp p) \<le> 8 * unat (fi_line_length p)" "8 * unat (fi_line_length p) < 2 ^ 31"
    and c: "unat fg < 2 ^ unat (fi_bpp p)" "unat bg < 2 ^ unat (fi_bpp p)"
    and data: "unat (im_height im) * ((unat (im_width im) + 7) div 8) \<le> length (im_data im)"
    and m: "\<forall>b. in_lines (32 * d) (line_width p) (int (unat (im_width im) * unat (fi_bpp p))) (unat (im_height im)) b \<longrightarrow> v (b div 32) \<noteq> None"
  shows "fast_imageblit A im p (4 * d) fg bg v = slow_imageblit A im p (4 * d) fg bg 0 0 v"
proof -
  define B W H where "B = unat (fi_bpp p)" and "W = unat (im_width im)" and "H = unat (im_height im)"
  note nm = B_def [symmetric] W_def [symmetric] H_def [symmetric]
  obtain n where n: "unat (fi_line_length p) = 4 * n" using l by (elim dvdE)
  have lw: "line_width p = 32 * int n" by (simp add: line_width_def n del: of_nat_unat)
  have B: "0 < B" "B \<le> 32" using bpp by (auto simp: B_def)
  have W: "0 < W" using w(1) by (simp add: W_def)
  have fit': "W * B \<le> 32 * n" "32 * n < 2 ^ 31" using fit by (simp_all add: nm n)
  have mp: "fb_shift.rows_mapped v (32 * d) (32 * int n) (int (W * B)) H"
    unfolding fb_shift.rows_mapped_def [OF arch] using m by (simp add: lw nm)
  note fast = fb_shift.fast_draws [OF arch bpp w(2) n, unfolded nm, OF fit' c [unfolded nm] data [unfolded nm] mp]
  have "W \<le> W * B" using B(1) by simp
  then have "W < 2 ^ 31" using fit' by linarith
  then have "unat (im_width im + 7) = W + 7" by (simp add: unat_word_ariths W_def)
  then have sp: "unat ((im_width im + 7) div 8) = (W + 7) div 8" by (simp add: unat_div)
  have S: "unat (0 :: u32) = 0" "(0 :: nat) < 32" by simp_all
  have mp0: "fb_shift.rows_mapped v (32 * d + int 0) (32 * int n) (int (W * B)) H" using mp by simp
  have d0: "0 + H * ((W + 7) div 8) \<le> length (im_data im)" using data by (simp add: nm)
  from fb_shift.slow_lines_run [where data = "im_data im" and src = 0 and ?dst2.0 = "4 * d", OF arch B_def [symmetric] B S W n fit'(1) c [unfolded nm] mp0 d0]
  obtain v2 where v2: "slow_imageblit A im p (4 * d) fg bg 0 0 v = Some v2"
    "fb_shift.rows_drawn pos px v v2 (32 * d) (32 * int n) W B H (\<lambda>y. bit_color (im_data im) (y * ((W + 7) div 8)) fg bg)"
    by (auto simp: slow_imageblit_def sp nm Let_def)
  from fast obtain v1 where v1: "fast_imageblit A im p (4 * d) fg bg v = Some v1"
    "fb_shift.rows_drawn pos px v v1 (32 * d) (32 * int n) W B H (\<lambda>y. bit_color (im_data im) (y * ((W + 7) div 8)) fg bg)" by blast
  have "v1 = v2" by (rule fb_shift.rows_unique [OF arch v1(2) v2(2)])
  then show ?thesis using v1(1) v2(1) by simp
qed

lemma imageblit_fast_is_slow_witness:
  "fast_imageblit le_arch blit_wit_image blit_wit_info (4 * 5) 7 1 (\<lambda>_. Some 0) =
   slow_imageblit le_arch blit_wit_image blit_wit_info (4 * 5) 7 1 0 0 (\<lambda>_. Some 0)"
  by (rule imageblit_fast_is_slow [OF le_shift.fb_shift_axioms]) (simp_all add: blit_wit_info_def blit_wit_image_def)

section \<open>Lines that do not begin at words\<close>

context fb_shift
begin

lemma color_two_lines:
  assumes bpp: "unat (fi_bpp p) = B" "0 < B" "B \<le> 32" and S: "unat start = S" "S < 32" "unat ((start + pitch) AND (32 - 1)) = S'" "S' < 32"
    and W: "0 < W" and m: "\<forall>a. v a \<noteq> None" and pitch: "pitch \<noteq> 0"
    and c: "\<forall>y<2. \<forall>x<W. y * W + x < length data \<and> palette_at p (ucast (data ! (y * W + x))) = Some (col y x) \<and> unat (col y x) < 2 ^ B"
  shows "\<exists>v1 v2. color_lines A p pitch data W 2 0 (4 * d) (4 * d) start v = Some v2 \<and> line_drawn v v1 (32 * d + int S) W B (col 0) \<and>
    line_drawn v1 v2 (32 * (d + int (unat (fi_line_length p))) + int S') W B (col 1)"
proof -
  let ?d = "d + int (unat (fi_line_length p))"
  have c0: "\<forall>x<W. 0 + x < length data \<and> palette_at p (ucast (data ! (0 + x))) = Some (col 0 x) \<and> unat (col 0 x) < 2 ^ B"
    using c [rule_format, of 0] by simp
  have "bits_mapped v (32 * d + int S) (32 * d + int S + int (W * B))" using m by (simp add: bits_mapped_def)
  from color_line [OF bpp S(1,2) W this c0] obtain st st' v1 where
    1: "blit_start A start (4 * d) v = Some st" "color_pixels A p data W 0 st = Some (0 + W, st')" "blit_end A st' = Some v1"
    "line_drawn v v1 (32 * d + int S) W B (col 0)" by blast
  have "dom v1 = dom v" using 1(4) by (simp add: line_drawn_def)
  then have "v1 a \<noteq> None" for a using m by (metis domIff)
  then have m1: "bits_mapped v1 (32 * ?d + int S') (32 * ?d + int S' + int (W * B))" by (simp add: bits_mapped_def)
  have c1: "\<forall>x<W. W + x < length data \<and> palette_at p (ucast (data ! (W + x))) = Some (col 1 x) \<and> unat (col 1 x) < 2 ^ B"
    using c [rule_format, of 1] by simp
  from color_line [OF bpp S(3,4) W m1 c1] obtain st2 st2' v2 where
    2: "blit_start A ((start + pitch) AND (32 - 1)) (4 * ?d) v1 = Some st2" "color_pixels A p data W W st2 = Some (W + W, st2')" "blit_end A st2' = Some v2"
    "line_drawn v1 v2 (32 * ?d + int S') W B (col 1)" by blast
  have "next_line p pitch (4 * d) (4 * d) start = (4 * ?d, 4 * ?d, (start + pitch) AND (32 - 1))"
    using pitch by (simp add: next_line_def Let_def distrib_left)
  then have "color_lines A p pitch data W (Suc (Suc 0)) 0 (4 * d) (4 * d) start v = Some v2"
    using 1(1-3) 2(1-3) by (auto simp: next_line_def split: if_splits)
  then show ?thesis using 1(4) 2(4) unfolding numeral_2_eq_2 by blast
qed

end

text \<open>C33: On a screen whose lines do not begin at words, an image of two lines of colours loses its second line: the
  place where it belongs keeps its bits. The code moves a pointer to words on by the length of a line in bytes, so the
  second line is drawn four line lengths below the first.\<close>

theorem imageblit_misplaces_lines:
  assumes arch: "fb_shift A pos px" and run: "fi_running p" and bpp: "0 < unat (fi_bpp p)" "unat (fi_bpp p) \<le> 32"
    and fits: "rect_fits p (image_rect im)" and base: "4 dvd unat (fi_screen_base p)"
    and len: "\<not> 4 dvd unat (fi_line_length p)" "1 < unat (fi_line_length p)"
    and two: "im_depth im \<noteq> 1" "im_height im = 2" and ok: "image_ok p im" and m: "\<forall>a. v a \<noteq> None"
  shows "\<exists>v'. cfb_imageblit A p im v = Some v' \<and>
    (\<forall>k < unat (im_width im) * unat (fi_bpp p).
       fbit pos v' (rect_start p (image_rect im) + line_width p + int k) = fbit pos v (rect_start p (image_rect im) + line_width p + int k))"
proof -
  define bs d S where "bs = im_dy im * fi_line_length p * 8 + im_dx im * fi_bpp p"
    and "d = int (unat (fi_screen_base p) div 4 + unat (im_dy im * fi_line_length p * 8 + im_dx im * fi_bpp p) div 32)"
    and "S = unat bs mod 32"
  define B W N where "B = unat (fi_bpp p)" and "W = unat (im_width im)" and "N = unat (fi_line_length p)"
  note nm = B_def [symmetric] W_def [symmetric] N_def [symmetric]
  note ix = blit_indices [OF fits base, folded bs_def d_def, folded S_def]
  define start pitch where "start = bs AND (32 - 1)" and "pitch = (fi_line_length p AND (4 - 1)) * 8"
  have "N mod 4 \<noteq> 0" using len(1) by (simp add: N_def dvd_eq_mod_eq_0)
  then have pitch: "pitch \<noteq> 0" using ix(2) by (auto simp: pitch_def nm)
  have S: "unat start = S" "S < 32" using ix(1) by (simp_all add: S_def start_def)
  define S' where "S' = unat ((start + pitch) AND (32 - 1))"
  have S': "unat ((start + pitch) AND (32 - 1)) = S'" "S' < 32" using unat_low [of "start + pitch"] by (simp_all add: S'_def BITS_def)
  have h: "unat (im_height im) = 2" using two(2) by simp
  have c: "\<forall>y<2. \<forall>x<W. y * W + x < length (im_data im) \<and>
      palette_at p (ucast (im_data im ! (y * W + x))) = Some (image_color p im y x) \<and> unat (image_color p im y x) < 2 ^ B"
    using image_color_at [OF ok, unfolded h] two(1) by (auto simp: nm)
  have W: "0 < W" using ok by (simp add: image_ok_def W_def)
  from fb_shift.color_two_lines [OF arch B_def [symmetric] bpp [unfolded nm] S S' W m pitch c, of d] obtain v1 v2 where
    v2: "color_lines A p pitch (im_data im) W 2 0 (4 * d) (4 * d) start v = Some v2"
    and l1: "fb_shift.line_drawn pos px v v1 (32 * d + int S) W B (image_color p im 0)"
    and l2: "fb_shift.line_drawn pos px v1 v2 (32 * (d + int N) + int S') W B (image_color p im 1)" unfolding nm by blast
  note out = l1 [unfolded fb_shift.line_drawn_def [OF arch]] l2 [unfolded fb_shift.line_drawn_def [OF arch]]
  have "cfb_imageblit A p im v = Some v2"
    unfolding cfb_imageblit_def Let_def bs_def [symmetric] ix(3) start_def [symmetric] pitch_def [symmetric]
    using run two(1) v2 by (simp add: color_imageblit_def h nm)
  moreover have "fbit pos v2 (rect_start p (image_rect im) + line_width p + int k) = fbit pos v (rect_start p (image_rect im) + line_width p + int k)"
    if k: "k < W * B" for k
  proof -
    let ?b = "32 * d + int S + 8 * int N + int k"
    have e: "rect_start p (image_rect im) + line_width p + int k = ?b" by (simp add: ix(4) line_width_def nm)
    have "W * B \<le> 8 * N" using fill_indices(3) [OF fits] by (simp add: image_rect_def nm)
    then have WN: "int (W * B) \<le> 8 * int N" by linarith
    have kN: "int k < int (W * B)" using k by (simp only: of_nat_less_iff)
    have "\<not> ?b < 32 * d + int S + int (W * B)" using WN by linarith
    then have 1: "fbit pos v1 ?b = fbit pos v ?b" using out(1) by simp
    have "2 \<le> N" using len(2) by (simp add: N_def)
    then have "\<not> 32 * (d + int N) + int S' \<le> ?b" using WN kN S(2) by (simp add: distrib_left)
    then have 2: "fbit pos v2 ?b = fbit pos v1 ?b" using out(2) by simp
    show ?thesis unfolding e using 1 2 by simp
  qed
  ultimately show ?thesis unfolding nm by blast
qed

definition blit_odd_image :: fb_image where
  "blit_odd_image = \<lparr>im_dx = 1, im_dy = 0, im_width = 2, im_height = 2, im_fg_color = 0, im_bg_color = 0, im_depth = 8, im_data = [1, 2, 3, 255]\<rparr>"

lemma imageblit_misplaces_lines_witness:
  "\<exists>v'. cfb_imageblit be_arch (blit_wit_info\<lparr>fi_line_length := 6\<rparr>) blit_odd_image (\<lambda>_. Some 0) = Some v' \<and>
     \<not> fbit be_pos v' 71"
proof -
  let ?p = "blit_wit_info\<lparr>fi_line_length := 6\<rparr>" and ?im = blit_odd_image
  have "fi_running ?p" "0 < unat (fi_bpp ?p)" "unat (fi_bpp ?p) \<le> 32" "rect_fits ?p (image_rect ?im)" "4 dvd unat (fi_screen_base ?p)"
    "\<not> 4 dvd unat (fi_line_length ?p)" "1 < unat (fi_line_length ?p)" "im_depth ?im \<noteq> 1" "im_height ?im = 2" "image_ok ?p ?im"
    by (simp_all add: blit_wit_info_def blit_odd_image_def rect_fits_def image_rect_def image_ok_def color_fits_def palette_at_def)
  from imageblit_misplaces_lines [OF be_shift.fb_shift_axioms this, of "\<lambda>_. Some 0"] obtain v' where
    v': "cfb_imageblit be_arch ?p ?im (\<lambda>_. Some 0) = Some v'"
    "\<forall>k < unat (im_width ?im) * unat (fi_bpp ?p).
       fbit be_pos v' (rect_start ?p (image_rect ?im) + line_width ?p + int k) = fbit be_pos (\<lambda>_. Some 0) (rect_start ?p (image_rect ?im) + line_width ?p + int k)"
    by auto
  then show ?thesis using v'(2) [rule_format, of 15]
    by (simp add: blit_wit_info_def blit_odd_image_def image_rect_def rect_start_def line_width_def screen_bit_def fbit_def)
qed

end
