(* ===== verification/Fbcmap.thy ===== *)
theory Fbcmap
  imports Bytes "HOL-Library.Monad_Syntax"
begin

text \<open>
  \<open>drivers/video/fbcmap.c\<close>: colour maps of frame buffers.

  A map is a range of indices with an array of 16-bit values for each component; an array that is not
  there is \<open>None\<close>. Offsets and sizes are \<open>int\<close>s of the code, taken from differences of 32-bit words. A copy
  that reads or writes outside an array makes the whole operation \<open>None\<close>.
\<close>

record fb_cmap =
  cm_start :: u32
  cm_len :: u32
  cm_red :: "u16 list option"
  cm_green :: "u16 list option"
  cm_blue :: "u16 list option"
  cm_transp :: "u16 list option"

definition no_cmap :: fb_cmap where
  "no_cmap = \<lparr>cm_start = 0, cm_len = 0, cm_red = None, cm_green = None, cm_blue = None, cm_transp = None\<rparr>"

section \<open>The default maps\<close>

text \<open>The tables can be inverted: they are a state. Each has a list for red, green and blue.\<close>

record cmap_tables =
  tab2 :: "u16 list \<times> u16 list \<times> u16 list"
  tab4 :: "u16 list \<times> u16 list \<times> u16 list"
  tab8 :: "u16 list \<times> u16 list \<times> u16 list"
  tab16 :: "u16 list \<times> u16 list \<times> u16 list"

definition two_colors :: "u16 list" where "two_colors = [0x0000, 0xaaaa]"
definition four_colors :: "u16 list" where "four_colors = [0x0000, 0xaaaa, 0x5555, 0xffff]"

definition red8 :: "u16 list" where
  "red8 = [0x0000, 0x0000, 0x0000, 0x0000, 0xaaaa, 0xaaaa, 0xaaaa, 0xaaaa]"
definition green8 :: "u16 list" where
  "green8 = [0x0000, 0x0000, 0xaaaa, 0xaaaa, 0x0000, 0x0000, 0x5555, 0xaaaa]"
definition blue8 :: "u16 list" where
  "blue8 = [0x0000, 0xaaaa, 0x0000, 0xaaaa, 0x0000, 0xaaaa, 0x0000, 0xaaaa]"

definition red16 :: "u16 list" where
  "red16 = [0x0000, 0x0000, 0x0000, 0x0000, 0xaaaa, 0xaaaa, 0xaaaa, 0xaaaa,
     0x5555, 0x5555, 0x5555, 0x5555, 0xffff, 0xffff, 0xffff, 0xffff]"
definition green16 :: "u16 list" where
  "green16 = [0x0000, 0x0000, 0xaaaa, 0xaaaa, 0x0000, 0x0000, 0x5555, 0xaaaa,
     0x5555, 0x5555, 0xffff, 0xffff, 0x5555, 0x5555, 0xffff, 0xffff]"
definition blue16 :: "u16 list" where
  "blue16 = [0x0000, 0xaaaa, 0x0000, 0xaaaa, 0x0000, 0xaaaa, 0x0000, 0xaaaa,
     0x5555, 0xffff, 0x5555, 0xffff, 0x5555, 0xffff, 0x5555, 0xffff]"

definition default_tables :: cmap_tables where
  "default_tables =
     \<lparr>tab2 = (two_colors, two_colors, two_colors), tab4 = (four_colors, four_colors, four_colors),
      tab8 = (red8, green8, blue8), tab16 = (red16, green16, blue16)\<rparr>"

definition table_cmap :: "u32 \<Rightarrow> u16 list \<times> u16 list \<times> u16 list \<Rightarrow> fb_cmap" where
  "table_cmap n t = (case t of (r, g, b) \<Rightarrow>
     \<lparr>cm_start = 0, cm_len = n, cm_red = Some r, cm_green = Some g, cm_blue = Some b, cm_transp = None\<rparr>)"

definition fb_default_cmap :: "cmap_tables \<Rightarrow> u32 \<Rightarrow> fb_cmap" where
  "fb_default_cmap t len =
     (if sint len \<le> 2 then table_cmap 2 (tab2 t)
      else if sint len \<le> 4 then table_cmap 4 (tab4 t)
      else if sint len \<le> 8 then table_cmap 8 (tab8 t)
      else table_cmap 16 (tab16 t))"

definition invert_table :: "u16 list \<times> u16 list \<times> u16 list \<Rightarrow> u16 list \<times> u16 list \<times> u16 list" where
  "invert_table t = (case t of (r, g, b) \<Rightarrow> (map NOT r, map NOT g, map NOT b))"

definition fb_invert_cmaps :: "cmap_tables \<Rightarrow> cmap_tables" where
  "fb_invert_cmaps t =
     \<lparr>tab2 = invert_table (tab2 t), tab4 = invert_table (tab4 t), tab8 = invert_table (tab8 t),
      tab16 = invert_table (tab16 t)\<rparr>"

section \<open>Copying\<close>

text \<open>\<open>memcpy\<close> of \<open>n\<close> elements between arrays, at offsets.\<close>

definition copy_part :: "u16 list option \<Rightarrow> int \<Rightarrow> u16 list option \<Rightarrow> int \<Rightarrow> int \<Rightarrow> u16 list option" where
  "copy_part dst doff src soff n =
     (case (dst, src) of
        (Some d, Some s) \<Rightarrow>
          (if 0 \<le> doff \<and> 0 \<le> soff \<and> nat doff + nat n \<le> length d \<and> nat soff + nat n \<le> length s
           then Some (take (nat doff) d @ take (nat n) (drop (nat soff) s) @ drop (nat doff + nat n) d)
           else None)
      | _ \<Rightarrow> None)"

text \<open>Offset in the target, offset in the source, number of entries.\<close>

definition cmap_window :: "fb_cmap \<Rightarrow> u32 \<Rightarrow> u32 \<Rightarrow> int \<times> int \<times> int" where
  "cmap_window from to_start to_len =
     (let (tooff, fromoff) =
        (if to_start > cm_start from then (0, sint (to_start - cm_start from))
         else (sint (cm_start from - to_start), 0));
          size = sint (to_len - word_of_int tooff);
          avail = sint (cm_len from - word_of_int fromoff)
      in (tooff, fromoff, if size > avail then avail else size))"

definition fb_copy_cmap :: "fb_cmap \<Rightarrow> fb_cmap \<Rightarrow> (int \<times> fb_cmap) option" where
  "fb_copy_cmap from to =
     (let (tooff, fromoff, size) = cmap_window from (cm_start to) (cm_len to) in
      if size \<le> 0 then Some (- 22, to)
      else do {
        r \<leftarrow> copy_part (cm_red to) tooff (cm_red from) fromoff size;
        g \<leftarrow> copy_part (cm_green to) tooff (cm_green from) fromoff size;
        b \<leftarrow> copy_part (cm_blue to) tooff (cm_blue from) fromoff size;
        t \<leftarrow> (if cm_transp from \<noteq> None \<and> cm_transp to \<noteq> None
              then map_option Some (copy_part (cm_transp to) tooff (cm_transp from) fromoff size)
              else Some (cm_transp to));
        Some (0, to\<lparr>cm_red := Some r, cm_green := Some g, cm_blue := Some b, cm_transp := t\<rparr>) })"

text \<open>
  Copying to the memory of a program can fail: \<open>fault k\<close> is what the \<open>k\<close>th copy leaves in the array if it does.
\<close>

definition fb_cmap_to_user :: "(nat \<Rightarrow> u16 list option) \<Rightarrow> fb_cmap \<Rightarrow> fb_cmap \<Rightarrow> (int \<times> fb_cmap) option" where
  "fb_cmap_to_user fault from to =
     (let (tooff, fromoff, size) = cmap_window from (cm_start to) (cm_len to) in
      if size \<le> 0 then Some (- 22, to)
      else case fault 0 of Some x \<Rightarrow> Some (- 14, to\<lparr>cm_red := Some x\<rparr>)
      | None \<Rightarrow> do {
        r \<leftarrow> copy_part (cm_red to) tooff (cm_red from) fromoff size;
        let to = to\<lparr>cm_red := Some r\<rparr>;
        case fault 1 of Some x \<Rightarrow> Some (- 14, to\<lparr>cm_green := Some x\<rparr>)
        | None \<Rightarrow> do {
          g \<leftarrow> copy_part (cm_green to) tooff (cm_green from) fromoff size;
          let to = to\<lparr>cm_green := Some g\<rparr>;
          case fault 2 of Some x \<Rightarrow> Some (- 14, to\<lparr>cm_blue := Some x\<rparr>)
          | None \<Rightarrow> do {
            b \<leftarrow> copy_part (cm_blue to) tooff (cm_blue from) fromoff size;
            let to = to\<lparr>cm_blue := Some b\<rparr>;
            if cm_transp from \<noteq> None \<and> cm_transp to \<noteq> None then
              (case fault 3 of Some x \<Rightarrow> Some (- 14, to\<lparr>cm_transp := Some x\<rparr>)
               | None \<Rightarrow> do {
                   t \<leftarrow> copy_part (cm_transp to) tooff (cm_transp from) fromoff size;
                   Some (0, to\<lparr>cm_transp := Some t\<rparr>) })
            else Some (0, to) } } })"

section \<open>Allocation\<close>

definition fb_dealloc_cmap :: "fb_cmap \<Rightarrow> fb_cmap" where
  "fb_dealloc_cmap c = c\<lparr>cm_red := None, cm_green := None, cm_blue := None, cm_transp := None, cm_len := 0\<rparr>"

text \<open>\<open>mem k\<close>: whether the \<open>k\<close>th allocation works, and what is in the memory then.\<close>

type_synonym kmem = "nat \<Rightarrow> (nat \<Rightarrow> u16) option"

definition cmap_array :: "kmem \<Rightarrow> nat \<Rightarrow> u32 \<Rightarrow> u16 list option" where
  "cmap_array mem k len =
     (case mem k of None \<Rightarrow> None | Some f \<Rightarrow> Some (map f [0..<unat (len * 2) div 2]))"

definition alloc_fail :: "fb_cmap \<Rightarrow> int \<times> fb_cmap" where
  "alloc_fail c = (- 12, fb_dealloc_cmap c)"

definition alloc_arrays :: "kmem \<Rightarrow> u32 \<Rightarrow> bool \<Rightarrow> fb_cmap \<Rightarrow> int \<times> fb_cmap" where
  "alloc_arrays mem len tr c =
     (let c = c\<lparr>cm_red := cmap_array mem 0 len\<rparr> in
      if cm_red c = None then alloc_fail c
      else let c = c\<lparr>cm_green := cmap_array mem 1 len\<rparr> in
      if cm_green c = None then alloc_fail c
      else let c = c\<lparr>cm_blue := cmap_array mem 2 len\<rparr> in
      if cm_blue c = None then alloc_fail c
      else if tr then
        (let c = c\<lparr>cm_transp := cmap_array mem 3 len\<rparr> in
         if cm_transp c = None then alloc_fail c else (0, c))
      else (0, c\<lparr>cm_transp := None\<rparr>))"

definition fb_alloc_cmap :: "cmap_tables \<Rightarrow> kmem \<Rightarrow> u32 \<Rightarrow> bool \<Rightarrow> fb_cmap \<Rightarrow> (int \<times> fb_cmap) option" where
  "fb_alloc_cmap tabs mem len tr c =
     (let resized = (cm_len c \<noteq> len); c = (if resized then fb_dealloc_cmap c else c) in
      if resized \<and> len = 0 then Some (0, c)
      else
        (case (if resized then alloc_arrays mem len tr c else (0, c)) of
           (ret, c) \<Rightarrow>
             if ret \<noteq> 0 then Some (ret, c)
             else do {
               (_, c) \<leftarrow> fb_copy_cmap (fb_default_cmap tabs len) (c\<lparr>cm_start := 0, cm_len := len\<rparr>);
               Some (0, c) }))"

section \<open>Setting colours\<close>

text \<open>
  The operations of a driver that matter here, on its state \<open>'d\<close>: setting one register (index, red, green,
  blue, transparency) and setting a map; either may be missing.
\<close>

record 'd color_ops =
  op_setcolreg :: "(u32 \<Rightarrow> u32 \<Rightarrow> u32 \<Rightarrow> u32 \<Rightarrow> u32 \<Rightarrow> 'd \<Rightarrow> int \<times> 'd) option"
  op_setcmap :: "(fb_cmap \<Rightarrow> 'd \<Rightarrow> int \<times> 'd) option"

definition at_index :: "u16 list option \<Rightarrow> nat \<Rightarrow> u32 option" where
  "at_index a i = (case a of None \<Rightarrow> None | Some xs \<Rightarrow> if i < length xs then Some (ucast (xs ! i)) else None)"

text \<open>The loop, from the \<open>i\<close>th of \<open>n + i\<close> entries on; it ends at the first register that is refused.\<close>

fun set_colors :: "(u32 \<Rightarrow> u32 \<Rightarrow> u32 \<Rightarrow> u32 \<Rightarrow> u32 \<Rightarrow> 'd \<Rightarrow> int \<times> 'd) \<Rightarrow> fb_cmap \<Rightarrow> nat \<Rightarrow> nat \<Rightarrow> 'd \<Rightarrow> 'd option" where
  "set_colors setcolreg c 0 i d = Some d"
| "set_colors setcolreg c (Suc n) i d = do {
     r \<leftarrow> at_index (cm_red c) i;
     g \<leftarrow> at_index (cm_green c) i;
     b \<leftarrow> at_index (cm_blue c) i;
     t \<leftarrow> (if cm_transp c = None then Some 0xffff else at_index (cm_transp c) i);
     let (ret, d) = setcolreg (cm_start c + of_nat i) r g b t d;
     if ret \<noteq> 0 then Some d else set_colors setcolreg c n (Suc i) d }"

definition fb_set_cmap :: "'d color_ops \<Rightarrow> fb_cmap \<Rightarrow> fb_cmap \<times> 'd \<Rightarrow> (int \<times> fb_cmap \<times> 'd) option" where
  "fb_set_cmap ops cmap info =
     (let (cur, d) = info in
      if sint (cm_start cmap) < 0 \<or> op_setcolreg ops = None \<and> op_setcmap ops = None then Some (- 22, cur, d)
      else do {
        (rc, d) \<leftarrow>
          (case op_setcmap ops of
             Some f \<Rightarrow> Some (f cmap d)
           | None \<Rightarrow> map_option (\<lambda>d. (0, d)) (set_colors (the (op_setcolreg ops)) cmap (unat (cm_len cmap)) 0 d));
        if rc = 0 then do { (_, cur) \<leftarrow> fb_copy_cmap cmap cur; Some (0, cur, d) }
        else Some (rc, cur, d) })"

text \<open>
  \<open>umap\<close> is the map in the memory of the program; \<open>fault k\<close> is set if the \<open>k\<close>th of its arrays cannot be read.
\<close>

definition from_user :: "bool \<Rightarrow> u16 list option \<Rightarrow> u32 \<Rightarrow> u16 list option" where
  "from_user fault a len =
     (let n = unat (len * 2) div 2 in
      case a of None \<Rightarrow> None | Some xs \<Rightarrow> if fault \<or> length xs < n then None else Some (take n xs))"

definition user_arrays :: "(nat \<Rightarrow> bool) \<Rightarrow> fb_cmap \<Rightarrow> fb_cmap \<Rightarrow> fb_cmap option" where
  "user_arrays fault cmap um = do {
     r \<leftarrow> from_user (fault 0) (cm_red cmap) (cm_len cmap);
     g \<leftarrow> from_user (fault 1) (cm_green cmap) (cm_len cmap);
     b \<leftarrow> from_user (fault 2) (cm_blue cmap) (cm_len cmap);
     t \<leftarrow> (if cm_transp cmap = None then Some None
           else map_option Some (from_user (fault 3) (cm_transp cmap) (cm_len cmap)));
     Some (um\<lparr>cm_red := Some r, cm_green := Some g, cm_blue := Some b,
       cm_transp := (if t = None then cm_transp um else t)\<rparr>) }"

definition fb_set_user_cmap ::
  "cmap_tables \<Rightarrow> kmem \<Rightarrow> (nat \<Rightarrow> bool) \<Rightarrow> 'd color_ops \<Rightarrow> fb_cmap \<Rightarrow> fb_cmap \<times> 'd \<Rightarrow> (int \<times> fb_cmap \<times> 'd) option" where
  "fb_set_user_cmap tabs mem fault ops cmap info =
     (if op_setcolreg ops = None \<and> op_setcmap ops = None then Some (- 22, info)
      else do {
        (rc, um) \<leftarrow> fb_alloc_cmap tabs mem (cm_len cmap) (cm_transp cmap \<noteq> None) no_cmap;
        if rc \<noteq> 0 then Some (rc, info)
        else
          (case user_arrays fault cmap um of
             None \<Rightarrow> Some (- 14, info)
           | Some um \<Rightarrow> fb_set_cmap ops (um\<lparr>cm_start := cm_start cmap\<rparr>) info) })"

end
