(* ===== verification/Fbcmap_Props.thy ===== *)
theory Fbcmap_Props
  imports Fbcmap
begin

text \<open>
  Colour maps as functions of the index: copying, allocating, what a driver is told, and the length of a map
  that a program can pass.
\<close>

section \<open>Maps as functions\<close>

definition entry_at :: "fb_cmap \<Rightarrow> u16 list option \<Rightarrow> nat \<Rightarrow> u16 option" where
  "entry_at c a i =
     (if unat (cm_start c) \<le> i \<and> i < unat (cm_start c) + unat (cm_len c)
      then map_option (\<lambda>xs. xs ! (i - unat (cm_start c))) a else None)"

definition array_ok :: "u32 \<Rightarrow> u16 list option \<Rightarrow> bool" where
  "array_ok len a \<longleftrightarrow> (\<exists>xs. a = Some xs \<and> length xs = unat len)"

definition cmap_ok :: "fb_cmap \<Rightarrow> bool" where
  "cmap_ok c \<longleftrightarrow> unat (cm_start c) + unat (cm_len c) < 2 ^ 31 \<and> array_ok (cm_len c) (cm_red c) \<and>
     array_ok (cm_len c) (cm_green c) \<and> array_ok (cm_len c) (cm_blue c) \<and>
     (cm_transp c = None \<or> array_ok (cm_len c) (cm_transp c))"

text \<open>The entries of \<open>n\<close> where both have one.\<close>

definition overlay :: "(nat \<Rightarrow> 'a option) \<Rightarrow> (nat \<Rightarrow> 'a option) \<Rightarrow> nat \<Rightarrow> 'a option" where
  "overlay m n i = (if m i \<noteq> None \<and> n i \<noteq> None then n i else m i)"

section \<open>Copying\<close>

text \<open>The offsets and the number of entries, for a range from \<open>ts\<close> and one from \<open>fs\<close>.\<close>

lemma cmap_window_eq:
  assumes "unat (cm_start from) + unat (cm_len from) < 2 ^ 31" "unat ts + unat tn < 2 ^ 31"
  defines "doff \<equiv> unat (cm_start from) - unat ts" and "soff \<equiv> unat ts - unat (cm_start from)"
  shows "cmap_window from ts tn = (int doff, int soff, min (int (unat tn) - int doff) (int (unat (cm_len from)) - int soff))"
proof -
  have off: "sint (l - word_of_int (int k)) = int (unat l) - int k" if "unat l < 2 ^ 31" "k < 2 ^ 31" for l :: u32 and k
  proof -
    have "unat (word_of_int (int k) :: u32) = k" using that(2) by (simp add: unat_of_nat)
    then show ?thesis using sint_diff_small [of l "word_of_int (int k)"] that by simp
  qed
  have lens: "unat tn < 2 ^ 31" "unat (cm_len from) < 2 ^ 31" "unat ts < 2 ^ 31" "unat (cm_start from) < 2 ^ 31" using assms by simp_all
  show ?thesis
  proof (cases "ts > cm_start from")
    case True
    then have le: "unat (cm_start from) < unat ts" by (simp add: word_less_nat_alt)
    then have s: "sint (ts - cm_start from) = int soff" using sint_diff_small [OF lens(3,4)] by (simp add: soff_def)
    have d: "doff = 0" using le by (simp add: doff_def)
    have "sint (cm_len from - word_of_int (int soff)) = int (unat (cm_len from)) - int soff"
      using lens(2,3) by (intro off) (simp_all add: soff_def)
    moreover have "sint tn = int (unat tn)" using off [of tn 0] lens(1) by simp
    ultimately show ?thesis using True s d by (simp add: cmap_window_def Let_def min_def del: of_nat_unat)
  next
    case False
    then have le: "unat ts \<le> unat (cm_start from)" by (simp add: word_less_nat_alt)
    then have s: "sint (cm_start from - ts) = int doff" using sint_diff_small [OF lens(4,3)] by (simp add: doff_def)
    have d: "soff = 0" using le by (simp add: soff_def)
    have "sint (tn - word_of_int (int doff)) = int (unat tn) - int doff"
      using lens(1,4) by (intro off) (simp_all add: doff_def)
    moreover have "sint (cm_len from) = int (unat (cm_len from))" using off [of "cm_len from" 0] lens(2) by simp
    ultimately show ?thesis using False s d by (simp add: cmap_window_def Let_def min_def del: of_nat_unat)
  qed
qed

lemma copy_part_at:
  fixes ts tn fs fl :: nat and d s :: "u16 list"
  assumes "length d = tn" "length s = fl" "doff = fs - ts" "soff = ts - fs" "n = min (tn - doff) (fl - soff)"
    "doff < tn" "soff < fl"
  shows "\<exists>d'. copy_part (Some d) (int doff) (Some s) (int soff) (int n) = Some d' \<and> length d' = tn \<and>
    (\<forall>i. ts \<le> i \<and> i < ts + tn \<longrightarrow> d' ! (i - ts) = (if fs \<le> i \<and> i < fs + fl then s ! (i - fs) else d ! (i - ts)))"
proof -
  define d' where "d' = take doff d @ take n (drop soff s) @ drop (doff + n) d"
  have n: "doff + n \<le> tn" "soff + n \<le> fl" using assms(5-7) by auto
  have l: "length d' = tn" using n assms(1,2) by (simp add: d'_def)
  have e: "d' ! j = (if doff \<le> j \<and> j < doff + n then s ! (j - doff + soff) else d ! j)" if j: "j < tn" for j
  proof -
    consider "j < doff" | "doff \<le> j" "j < doff + n" | "doff + n \<le> j" by linarith
    then show ?thesis
    proof cases
      case 1
      then show ?thesis using n assms(1) by (simp add: d'_def nth_append)
    next
      case 2
      then have "j - doff < n" by linarith
      then show ?thesis using 2 n assms(1,2) by (simp add: d'_def nth_append add.commute min_absorb2)
    next
      case 3
      then have "\<not> j < doff" "\<not> j - doff < n" by linarith+
      with 3 have "d' ! j = drop (doff + n) d ! (j - (doff + n))"
        using n assms(1,2) by (simp add: d'_def nth_append min_absorb2 diff_diff_add)
      then show ?thesis using 3 n assms(1) by simp
    qed
  qed
  have "d' ! (i - ts) = (if fs \<le> i \<and> i < fs + fl then s ! (i - fs) else d ! (i - ts))" if i: "ts \<le> i" "i < ts + tn" for i
  proof -
    have j: "i - ts < tn" using i by simp
    have "doff \<le> i - ts \<and> i - ts < doff + n \<longleftrightarrow> fs \<le> i \<and> i < fs + fl"
      using i assms(3-7) by (cases "fs \<le> ts"; cases "tn - doff \<le> fl - soff") (simp_all add: min_def, linarith+)
    moreover have "i - ts - doff + soff = i - fs" if "fs \<le> i" using that i assms(3,4) by auto
    ultimately show ?thesis unfolding e [OF j] by auto
  qed
  moreover have "copy_part (Some d) (int doff) (Some s) (int soff) (int n) = Some d'"
    using n assms(1,2) by (simp add: copy_part_def d'_def)
  ultimately show ?thesis using l by blast
qed

text \<open>One component of a map.\<close>

lemma copy_component:
  assumes "unat (cm_start from) + unat (cm_len from) < 2 ^ 31" "unat (cm_start to) + unat (cm_len to) < 2 ^ 31"
    and w: "cmap_window from (cm_start to) (cm_len to) = (tooff, fromoff, sz)" "0 < sz"
    and a: "array_ok (cm_len to) a" "array_ok (cm_len from) b"
  shows "\<exists>a'. copy_part a tooff b fromoff sz = Some a' \<and> length a' = unat (cm_len to) \<and>
    entry_at to (Some a') = overlay (entry_at to a) (entry_at from b)"
proof -
  obtain d s where ds: "a = Some d" "length d = unat (cm_len to)" "b = Some s" "length s = unat (cm_len from)"
    using a by (auto simp: array_ok_def)
  define doff soff where "doff = unat (cm_start from) - unat (cm_start to)" and "soff = unat (cm_start to) - unat (cm_start from)"
  have e: "tooff = int doff" "fromoff = int soff" "sz = min (int (unat (cm_len to)) - int doff) (int (unat (cm_len from)) - int soff)"
    using w(1) unfolding cmap_window_eq [OF assms(1,2)] doff_def soff_def prod.inject by blast+
  have lt: "doff < unat (cm_len to)" "soff < unat (cm_len from)" using w(2) unfolding e(3) by linarith+
  have n: "sz = int (min (unat (cm_len to) - doff) (unat (cm_len from) - soff))" unfolding e(3) using lt by linarith
  obtain d' where d': "copy_part (Some d) (int doff) (Some s) (int soff) sz = Some d'" "length d' = unat (cm_len to)"
    "\<forall>i. unat (cm_start to) \<le> i \<and> i < unat (cm_start to) + unat (cm_len to) \<longrightarrow> d' ! (i - unat (cm_start to)) =
      (if unat (cm_start from) \<le> i \<and> i < unat (cm_start from) + unat (cm_len from) then s ! (i - unat (cm_start from))
       else d ! (i - unat (cm_start to)))"
    using copy_part_at [OF ds(2,4) doff_def soff_def refl lt] unfolding n by blast
  have "entry_at to (Some d') = overlay (entry_at to a) (entry_at from b)"
    using d'(3) by (auto simp: entry_at_def overlay_def ds(1,3) fun_eq_iff)
  then show ?thesis using d'(1,2) by (simp add: ds(1,3) e(1,2))
qed

text \<open>What a copy leaves, as functions of the index.\<close>

definition copied :: "fb_cmap \<Rightarrow> fb_cmap \<Rightarrow> fb_cmap \<Rightarrow> bool" where
  "copied from to to' \<longleftrightarrow> cm_start to' = cm_start to \<and> cm_len to' = cm_len to \<and>
     entry_at to' (cm_red to') = overlay (entry_at to (cm_red to)) (entry_at from (cm_red from)) \<and>
     entry_at to' (cm_green to') = overlay (entry_at to (cm_green to)) (entry_at from (cm_green from)) \<and>
     entry_at to' (cm_blue to') = overlay (entry_at to (cm_blue to)) (entry_at from (cm_blue from)) \<and>
     entry_at to' (cm_transp to') = overlay (entry_at to (cm_transp to)) (entry_at from (cm_transp from))"

lemma entry_at_cong: "cm_start c = cm_start c' \<Longrightarrow> cm_len c = cm_len c' \<Longrightarrow> entry_at c = entry_at c'"
  by (simp add: entry_at_def fun_eq_iff)

lemma overlay_none [simp]: "overlay m (entry_at c None) = m" "overlay (entry_at c None) n = entry_at c None"
  by (simp_all add: overlay_def entry_at_def fun_eq_iff)

lemma copy_cmap_overlay:
  assumes okf: "cmap_ok from" and okt: "cmap_ok to"
  shows "\<exists>r to'. fb_copy_cmap from to = Some (r, to') \<and> cmap_ok to' \<and> copied from to to' \<and>
    (r = 0 \<or> r = - 22) \<and>
    (r = 0 \<longleftrightarrow> (\<exists>i. unat (cm_start from) \<le> i \<and> i < unat (cm_start from) + unat (cm_len from) \<and>
      unat (cm_start to) \<le> i \<and> i < unat (cm_start to) + unat (cm_len to)))"
proof -
  obtain tooff fromoff sz where w: "cmap_window from (cm_start to) (cm_len to) = (tooff, fromoff, sz)" by (metis prod_cases3)
  have b: "unat (cm_start from) + unat (cm_len from) < 2 ^ 31" "unat (cm_start to) + unat (cm_len to) < 2 ^ 31"
    using okf okt by (simp_all add: cmap_ok_def)
  have s: "sz = min (int (unat (cm_len to)) - int (unat (cm_start from) - unat (cm_start to)))
      (int (unat (cm_len from)) - int (unat (cm_start to) - unat (cm_start from)))"
    using w unfolding cmap_window_eq [OF b] prod.inject by blast
  have meet: "0 < sz \<longleftrightarrow> (\<exists>i. unat (cm_start from) \<le> i \<and> i < unat (cm_start from) + unat (cm_len from) \<and>
      unat (cm_start to) \<le> i \<and> i < unat (cm_start to) + unat (cm_len to))" (is "_ = (\<exists>i. ?in i)")
  proof
    assume "0 < sz"
    then have "?in (max (unat (cm_start from)) (unat (cm_start to)))" unfolding s by linarith
    then show "\<exists>i. ?in i" by blast
  next
    assume "\<exists>i. ?in i"
    then show "0 < sz" unfolding s by (elim exE) linarith
  qed
  show ?thesis
  proof (cases "0 < sz")
    case False
    have no: "overlay (entry_at to x) (entry_at from y) = entry_at to x" for x y
      using False unfolding meet by (auto simp: overlay_def entry_at_def fun_eq_iff)
    have "fb_copy_cmap from to = Some (- 22, to)" using False w by (simp add: fb_copy_cmap_def)
    moreover have "copied from to to" by (simp add: copied_def no)
    ultimately show ?thesis using okt False meet by auto
  next
    case True
    note cc = copy_component [OF b w True]
    have ok: "array_ok (cm_len to) (cm_red to)" "array_ok (cm_len to) (cm_green to)" "array_ok (cm_len to) (cm_blue to)"
      "array_ok (cm_len from) (cm_red from)" "array_ok (cm_len from) (cm_green from)" "array_ok (cm_len from) (cm_blue from)"
      using okf okt by (simp_all add: cmap_ok_def)
    obtain r where r: "copy_part (cm_red to) tooff (cm_red from) fromoff sz = Some r" "length r = unat (cm_len to)"
      "entry_at to (Some r) = overlay (entry_at to (cm_red to)) (entry_at from (cm_red from))" using cc [OF ok(1,4)] by blast
    obtain g where g: "copy_part (cm_green to) tooff (cm_green from) fromoff sz = Some g" "length g = unat (cm_len to)"
      "entry_at to (Some g) = overlay (entry_at to (cm_green to)) (entry_at from (cm_green from))" using cc [OF ok(2,5)] by blast
    obtain bl where bl: "copy_part (cm_blue to) tooff (cm_blue from) fromoff sz = Some bl" "length bl = unat (cm_len to)"
      "entry_at to (Some bl) = overlay (entry_at to (cm_blue to)) (entry_at from (cm_blue from))" using cc [OF ok(3,6)] by blast
    have "\<exists>t. (if cm_transp from \<noteq> None \<and> cm_transp to \<noteq> None
          then map_option Some (copy_part (cm_transp to) tooff (cm_transp from) fromoff sz) else Some (cm_transp to)) = Some t \<and>
        (t = None \<or> array_ok (cm_len to) t) \<and> entry_at to t = overlay (entry_at to (cm_transp to)) (entry_at from (cm_transp from))"
    proof (cases "cm_transp from \<noteq> None \<and> cm_transp to \<noteq> None")
      case True
      then have "array_ok (cm_len to) (cm_transp to)" "array_ok (cm_len from) (cm_transp from)"
        using okf okt by (auto simp: cmap_ok_def)
      from cc [OF this] show ?thesis using True by (auto simp: array_ok_def)
    next
      case False
      then show ?thesis using okt by (auto simp: cmap_ok_def)
    qed
    then obtain t where t: "(if cm_transp from \<noteq> None \<and> cm_transp to \<noteq> None
          then map_option Some (copy_part (cm_transp to) tooff (cm_transp from) fromoff sz) else Some (cm_transp to)) = Some t"
        "t = None \<or> array_ok (cm_len to) t" "entry_at to t = overlay (entry_at to (cm_transp to)) (entry_at from (cm_transp from))"
      by blast
    let ?to = "to\<lparr>cm_red := Some r, cm_green := Some g, cm_blue := Some bl, cm_transp := t\<rparr>"
    have "fb_copy_cmap from to = Some (0, ?to)"
      unfolding fb_copy_cmap_def w Let_def prod.case using True r(1) g(1) bl(1) t(1) by simp
    moreover have "entry_at ?to = entry_at to" by (rule entry_at_cong) simp_all
    then have "copied from to ?to" using r(3) g(3) bl(3) t(3) by (simp add: copied_def)
    moreover have "cmap_ok ?to" using okt r(2) g(2) bl(2) t(2) by (simp add: cmap_ok_def array_ok_def)
    ultimately show ?thesis using True meet by auto
  qed
qed

text \<open>Copying between two maps gives each index that both have the colour of the source and changes no other,
  whatever their ranges are; it reports an error exactly when no index is in both, and keeps the arrays of the
  target at their length.\<close>

theorem fb_copy_cmap_overlay:
  assumes okf: "cmap_ok from" and okt: "cmap_ok to"
  shows "\<exists>r to'. fb_copy_cmap from to = Some (r, to') \<and> cmap_ok to' \<and> copied from to to' \<and>
    (r = 0 \<or> r = - 22) \<and>
    (r = 0 \<longleftrightarrow> (\<exists>i. unat (cm_start from) \<le> i \<and> i < unat (cm_start from) + unat (cm_len from) \<and>
      unat (cm_start to) \<le> i \<and> i < unat (cm_start to) + unat (cm_len to)))"
  using assms by (rule copy_cmap_overlay)

definition cmap_wit :: "u32 \<Rightarrow> fb_cmap" where
  "cmap_wit s = \<lparr>cm_start = s, cm_len = 2, cm_red = Some [1, 2], cm_green = Some [3, 4], cm_blue = Some [5, 6], cm_transp = None\<rparr>"

lemma fb_copy_cmap_overlay_witness:
  "\<exists>r to'. fb_copy_cmap (cmap_wit 1) (cmap_wit 0) = Some (r, to') \<and> r = 0 \<and> entry_at to' (cm_red to') 1 = Some 1"
proof -
  have ok: "cmap_ok (cmap_wit 1)" "cmap_ok (cmap_wit 0)" by (simp_all add: cmap_ok_def array_ok_def cmap_wit_def)
  from fb_copy_cmap_overlay [OF this] obtain r to' where c: "fb_copy_cmap (cmap_wit 1) (cmap_wit 0) = Some (r, to')"
    "copied (cmap_wit 1) (cmap_wit 0) to'" "r = 0 \<longleftrightarrow> (\<exists>i. unat (cm_start (cmap_wit 1)) \<le> i \<and>
      i < unat (cm_start (cmap_wit 1)) + unat (cm_len (cmap_wit 1)) \<and>
      unat (cm_start (cmap_wit 0)) \<le> i \<and> i < unat (cm_start (cmap_wit 0)) + unat (cm_len (cmap_wit 0)))" by blast
  have "r = 0" unfolding c(3) by (intro exI [of _ 1]) (simp add: cmap_wit_def)
  moreover have "entry_at to' (cm_red to') 1 = Some 1"
    using c(2) by (simp add: copied_def overlay_def entry_at_def cmap_wit_def)
  ultimately show ?thesis using c(1) by blast
qed

section \<open>Allocation\<close>

definition table_ok :: "nat \<Rightarrow> u16 list \<times> u16 list \<times> u16 list \<Rightarrow> bool" where
  "table_ok n t \<longleftrightarrow> (case t of (r, g, b) \<Rightarrow> length r = n \<and> length g = n \<and> length b = n)"

definition tables_ok :: "cmap_tables \<Rightarrow> bool" where
  "tables_ok t \<longleftrightarrow> table_ok 2 (tab2 t) \<and> table_ok 4 (tab4 t) \<and> table_ok 8 (tab8 t) \<and> table_ok 16 (tab16 t)"

lemma default_tables_ok: "tables_ok default_tables"
  by (simp add: tables_ok_def table_ok_def default_tables_def two_colors_def four_colors_def red8_def green8_def
      blue8_def red16_def green16_def blue16_def)

lemma table_ok_invert: "table_ok n (invert_table t) = table_ok n t"
  by (auto simp: table_ok_def invert_table_def split: prod.split)

lemma cmap_ok_table: "table_ok (unat n) t \<Longrightarrow> unat n < 2 ^ 31 \<Longrightarrow> cmap_ok (table_cmap n t)"
  by (auto simp: table_ok_def cmap_ok_def table_cmap_def array_ok_def split: prod.splits)

lemma default_cmap_ok: "tables_ok t \<Longrightarrow> cmap_ok (fb_default_cmap t len)"
  by (simp add: tables_ok_def fb_default_cmap_def cmap_ok_table)

lemma default_cmap_start [simp]: "cm_start (fb_default_cmap t len) = 0"
  by (simp add: fb_default_cmap_def table_cmap_def split: prod.split)

lemma default_cmap_nonempty: "0 < unat (cm_len (fb_default_cmap t len))"
  by (simp add: fb_default_cmap_def table_cmap_def split: prod.split)

text \<open>Inverting the default maps twice gives them back.\<close>

lemma fb_invert_cmaps_twice: "fb_invert_cmaps (fb_invert_cmaps t) = t"
  by (cases t) (simp add: fb_invert_cmaps_def invert_table_def comp_def split: prod.split)

lemma array_ok_alloc: "unat len < 2 ^ 31 \<Longrightarrow> cmap_array mem k len = Some xs \<Longrightarrow> array_ok len (Some xs)"
proof -
  assume "unat len < 2 ^ 31" and a: "cmap_array mem k len = Some xs"
  then have "unat (len * 2) div 2 = unat len" by (simp add: unat_word_ariths)
  then show "array_ok len (Some xs)" using a by (auto simp: cmap_array_def array_ok_def split: option.splits)
qed

definition no_arrays :: "fb_cmap \<Rightarrow> bool" where
  "no_arrays c \<longleftrightarrow> cm_len c = 0 \<and> cm_red c = None \<and> cm_green c = None \<and> cm_blue c = None \<and> cm_transp c = None"

lemma alloc_arrays_result:
  assumes "unat len < 2 ^ 31"
  shows "alloc_arrays mem len tr (fb_dealloc_cmap c) = (r, c') \<Longrightarrow>
    (if r = 0 then array_ok len (cm_red c') \<and> array_ok len (cm_green c') \<and> array_ok len (cm_blue c') \<and>
       (if tr then array_ok len (cm_transp c') else cm_transp c' = None)
     else r = - 12 \<and> no_arrays c')"
  using array_ok_alloc [OF assms]
  by (auto simp: alloc_arrays_def alloc_fail_def fb_dealloc_cmap_def no_arrays_def Let_def split: if_splits)

lemma alloc_cmap_result:
  assumes tabs: "tables_ok tabs" and len: "len \<noteq> 0" "unat len < 2 ^ 31" "cm_len c \<noteq> len"
  shows "\<exists>r c'. fb_alloc_cmap tabs mem len tr c = Some (r, c') \<and>
    (if r = 0 then cmap_ok c' \<and> cm_start c' = 0 \<and> cm_len c' = len \<and> (cm_transp c' \<noteq> None \<longleftrightarrow> tr) \<and>
       (\<forall>i < min (unat len) (unat (cm_len (fb_default_cmap tabs len))).
          entry_at c' (cm_red c') i = entry_at (fb_default_cmap tabs len) (cm_red (fb_default_cmap tabs len)) i \<and>
          entry_at c' (cm_green c') i = entry_at (fb_default_cmap tabs len) (cm_green (fb_default_cmap tabs len)) i \<and>
          entry_at c' (cm_blue c') i = entry_at (fb_default_cmap tabs len) (cm_blue (fb_default_cmap tabs len)) i)
     else r = - 12 \<and> no_arrays c')"
proof -
  let ?d = "fb_default_cmap tabs len"
  obtain r c1 where a: "alloc_arrays mem len tr (fb_dealloc_cmap c) = (r, c1)" by (meson surj_pair)
  note ar = alloc_arrays_result [OF len(2) a]
  show ?thesis
  proof (cases "r = 0")
    case False
    then show ?thesis using ar a len by (simp add: fb_alloc_cmap_def)
  next
    case True
    let ?c = "c1\<lparr>cm_start := 0, cm_len := len\<rparr>"
    have ok: "cmap_ok ?c" using ar True len(2) by (auto simp: cmap_ok_def split: if_splits)
    note dok = default_cmap_ok [OF tabs, of len]
    obtain q c' where c': "fb_copy_cmap ?d ?c = Some (q, c')" "cmap_ok c'" "copied ?d ?c c'"
      using copy_cmap_overlay [OF dok ok] by blast
    have e: "fb_alloc_cmap tabs mem len tr c = Some (0, c')" using a len True c'(1) by (simp add: fb_alloc_cmap_def)
    have some: "entry_at m x i \<noteq> None" if "array_ok (cm_len m) x" "cm_start m = 0" "i < unat (cm_len m)" for m x i
      using that by (auto simp: entry_at_def array_ok_def)
    have o: "overlay (entry_at ?c x) (entry_at ?d y) i = entry_at ?d y i"
      if "array_ok len x" "array_ok (cm_len ?d) y" "i < min (unat len) (unat (cm_len ?d))" for x y i
      using some [of ?c x i] some [of ?d y i] that by (simp add: overlay_def)
    have arr: "array_ok len (cm_red ?c)" "array_ok len (cm_green ?c)" "array_ok len (cm_blue ?c)"
      "array_ok (cm_len ?d) (cm_red ?d)" "array_ok (cm_len ?d) (cm_green ?d)" "array_ok (cm_len ?d) (cm_blue ?d)"
      using ok dok by (simp_all add: cmap_ok_def)
    have "cm_transp c' \<noteq> None \<longleftrightarrow> tr"
    proof -
      have "entry_at c' (cm_transp c') 0 = overlay (entry_at ?c (cm_transp ?c)) (entry_at ?d (cm_transp ?d)) 0"
        using c'(3) by (simp add: copied_def)
      moreover have "cm_transp ?d = None" by (simp add: fb_default_cmap_def table_cmap_def split: prod.split)
      ultimately have "entry_at c' (cm_transp c') 0 = entry_at ?c (cm_transp ?c) 0" by simp
      moreover have "0 < unat len" using len(1) by (simp add: unat_gt_0)
      ultimately show ?thesis using c'(3) ar True by (auto simp: copied_def entry_at_def array_ok_def split: if_splits)
    qed
    then show ?thesis using e c'(2,3) o arr by (simp add: copied_def)
  qed
qed

text \<open>C0: Allocating a map for a new length that is not zero either reports that there is no memory, and then the map
  has no arrays and no entries; or the map has that many entries from 0 on, transparency if it was asked for, and
  its first entries are the default colours for the length.\<close>

theorem fb_alloc_cmap_result:
  assumes tabs: "tables_ok tabs" and len: "len \<noteq> 0" "unat len < 2 ^ 31" "cm_len c \<noteq> len"
  shows "\<exists>r c'. fb_alloc_cmap tabs mem len tr c = Some (r, c') \<and>
    (if r = 0 then cmap_ok c' \<and> cm_start c' = 0 \<and> cm_len c' = len \<and> (cm_transp c' \<noteq> None \<longleftrightarrow> tr) \<and>
       (\<forall>i < min (unat len) (unat (cm_len (fb_default_cmap tabs len))).
          entry_at c' (cm_red c') i = entry_at (fb_default_cmap tabs len) (cm_red (fb_default_cmap tabs len)) i \<and>
          entry_at c' (cm_green c') i = entry_at (fb_default_cmap tabs len) (cm_green (fb_default_cmap tabs len)) i \<and>
          entry_at c' (cm_blue c') i = entry_at (fb_default_cmap tabs len) (cm_blue (fb_default_cmap tabs len)) i)
     else r = - 12 \<and> no_arrays c')"
  using assms by (rule alloc_cmap_result)

definition no_memory :: kmem where "no_memory k = (if k < 2 then Some (\<lambda>_. 0) else None)"

lemma fb_alloc_cmap_result_witness:
  "\<exists>r c'. fb_alloc_cmap default_tables no_memory 256 False no_cmap = Some (r, c') \<and> (r \<noteq> 0 \<longrightarrow> no_arrays c')"
  using fb_alloc_cmap_result [OF default_tables_ok, of 256 no_cmap no_memory False]
  by (auto simp: no_cmap_def)

section \<open>A driver that takes colours\<close>

text \<open>
  The contract of a driver that sets colour registers: which registers there are depends on its configuration;
  an accepted colour is what the register shows afterwards, and a refused one changes nothing.
\<close>

locale color_device =
  fixes setcolreg :: "u32 \<Rightarrow> u32 \<Rightarrow> u32 \<Rightarrow> u32 \<Rightarrow> u32 \<Rightarrow> 'd \<Rightarrow> int \<times> 'd"
    and conf :: "'d \<Rightarrow> 'f" and shows_color :: "'d \<Rightarrow> nat \<Rightarrow> 'c" and accepts :: "'f \<Rightarrow> nat \<Rightarrow> bool"
    and encode :: "'f \<Rightarrow> nat \<Rightarrow> u32 \<Rightarrow> u32 \<Rightarrow> u32 \<Rightarrow> u32 \<Rightarrow> 'c"
  assumes accepted: "accepts (conf d) (unat n) \<Longrightarrow> \<exists>d'. setcolreg n r g b t d = (0, d') \<and> conf d' = conf d \<and>
      shows_color d' = (shows_color d)(unat n := encode (conf d) (unat n) r g b t)"
    and refused: "\<not> accepts (conf d) (unat n) \<Longrightarrow> \<exists>e. e \<noteq> 0 \<and> setcolreg n r g b t d = (e, d)"
begin

definition told :: "'f \<Rightarrow> fb_cmap \<Rightarrow> nat \<Rightarrow> 'c" where
  "told f c x = encode f x (ucast (the (entry_at c (cm_red c) x))) (ucast (the (entry_at c (cm_green c) x)))
     (ucast (the (entry_at c (cm_blue c) x)))
     (if cm_transp c = None then 0xffff else ucast (the (entry_at c (cm_transp c) x)))"

lemma at_index_entry:
  "array_ok (cm_len c) a \<Longrightarrow> i < unat (cm_len c) \<Longrightarrow> at_index a i = Some (ucast (the (entry_at c a (unat (cm_start c) + i))))"
  by (auto simp: array_ok_def at_index_def entry_at_def)

lemma set_colors_shown:
  assumes ok: "cmap_ok c"
  shows "i + n \<le> unat (cm_len c) \<Longrightarrow> \<exists>d'. set_colors setcolreg c n i d = Some d' \<and> conf d' = conf d \<and>
    (\<forall>x. shows_color d' x =
      (if unat (cm_start c) + i \<le> x \<and> x < unat (cm_start c) + i + n \<and> (\<forall>y\<in>{unat (cm_start c) + i..x}. accepts (conf d) y)
       then told (conf d) c x else shows_color d x))"
proof (induction n arbitrary: i d)
  case 0
  then show ?case by auto
next
  case (Suc n)
  let ?s = "unat (cm_start c)" and ?r = "cm_start c + of_nat i"
  have i: "i < unat (cm_len c)" using Suc.prems by simp
  have b: "?s + unat (cm_len c) < 2 ^ 31" using ok by (simp add: cmap_ok_def)
  have r: "unat ?r = ?s + i"
  proof -
    have "i < 2 ^ 32" "?s + i < 2 ^ 32" using b i by simp_all
    then show ?thesis by (simp add: unat_word_ariths unat_of_nat)
  qed
  define R G B T where "R = (ucast (the (entry_at c (cm_red c) (?s + i))) :: u32)"
    and "G = (ucast (the (entry_at c (cm_green c) (?s + i))) :: u32)"
    and "B = (ucast (the (entry_at c (cm_blue c) (?s + i))) :: u32)"
    and "T = (if cm_transp c = None then 0xffff else (ucast (the (entry_at c (cm_transp c) (?s + i))) :: u32))"
  have at: "at_index (cm_red c) i = Some R" "at_index (cm_green c) i = Some G" "at_index (cm_blue c) i = Some B"
    "(if cm_transp c = None then Some 0xffff else at_index (cm_transp c) i) = Some T"
    using ok i at_index_entry [of c _ i] by (auto simp: cmap_ok_def R_def G_def B_def T_def)
  have told: "told f c (?s + i) = encode f (?s + i) R G B T" for f by (simp add: told_def R_def G_def B_def T_def)
  have step: "set_colors setcolreg c (Suc n) i d =
      (case setcolreg ?r R G B T d of (e, d) \<Rightarrow> if e \<noteq> 0 then Some d else set_colors setcolreg c n (Suc i) d)"
    unfolding set_colors.simps at by (simp split: prod.split)
  show ?case
  proof (cases "accepts (conf d) (?s + i)")
    case False
    then obtain e where "e \<noteq> 0" "setcolreg ?r R G B T d = (e, d)" using refused [of d ?r R G B T] r by auto
    then have "set_colors setcolreg c (Suc n) i d = Some d" unfolding step by simp
    then show ?thesis using False by auto
  next
    case True
    then obtain d1 where d1: "setcolreg ?r R G B T d = (0, d1)" "conf d1 = conf d"
      "shows_color d1 = (shows_color d)(?s + i := encode (conf d) (?s + i) R G B T)" using accepted [of d ?r R G B T] r by auto
    obtain d' where d': "set_colors setcolreg c n (Suc i) d1 = Some d'" "conf d' = conf d1"
      "\<forall>x. shows_color d' x = (if ?s + Suc i \<le> x \<and> x < ?s + Suc i + n \<and> (\<forall>y\<in>{?s + Suc i..x}. accepts (conf d1) y)
         then told (conf d1) c x else shows_color d1 x)"
      using Suc.IH [of "Suc i" d1] Suc.prems by auto
    have run: "set_colors setcolreg c (Suc n) i d = Some d'" unfolding step d1(1) using d'(1) by simp
    have all: "(\<forall>y\<in>{?s + i..x}. accepts (conf d) y) \<longleftrightarrow> (\<forall>y\<in>{?s + Suc i..x}. accepts (conf d) y)" if "?s + i \<le> x" for x
    proof -
      have "{?s + i..x} = insert (?s + i) {?s + Suc i..x}" using that by auto
      then show ?thesis using True by simp
    qed
    have "shows_color d' x = (if ?s + i \<le> x \<and> x < ?s + i + Suc n \<and> (\<forall>y\<in>{?s + i..x}. accepts (conf d) y)
        then told (conf d) c x else shows_color d x)" for x
    proof -
      consider "x < ?s + i" | "x = ?s + i" | "?s + Suc i \<le> x" by linarith
      then show ?thesis
      proof cases
        case 1
        then show ?thesis using d'(3) d1(3) by simp
      next
        case 2
        then show ?thesis using d'(3) d1(3) True told by simp
      next
        case 3
        then show ?thesis using d'(3) d1(2,3) all [of x] by simp
      qed
    qed
    then show ?thesis using run d'(2) d1(2) by auto
  qed
qed

end

end
