(* ===== verification/Atmel_Lcdfb.thy ===== *)
theory Atmel_Lcdfb
  imports Fbcmap
begin

text \<open>
  \<open>drivers/video/atmel_lcdfb.c\<close>: the LCD controller of the processor.

  Accesses to the registers are logged with the pauses; \<open>hw\<close> is what a read returns after what was done. The
  registers and the constants for their fields come from a header that is not part of the repository: the
  registers are names, the constants a parameter (\<open>lcdc_consts\<close>). A division by zero and the \<open>BUG()\<close> of the
  code are \<open>None\<close>, as is a wait that does not end. The processor is one of those with the second DMA
  dimension, and the backlight is configured.
\<close>

datatype lcdc_reg = DMABADDR1 | DMAFRMCFG | DMACON | DMA2DCFG | LCDCON1 | LCDCON2 | TIM1 | TIM2 | LCDFRMCFG
  | FIFO | MVAL | PWRCON | CONTRAST_CTR | CONTRAST_VAL | IDR | ISR | LUT nat

datatype lcdc_event = Rd lcdc_reg | Wr lcdc_reg u32 | Pause nat

record lcdc_consts =
  k_VPW :: u32
  k_VPW_OFFSET :: nat
  k_VBP :: u32
  k_VBP_OFFSET :: nat
  k_VFP :: u32
  k_HFP :: u32
  k_HFP_OFFSET :: nat
  k_HPW :: u32
  k_HPW_OFFSET :: nat
  k_HBP :: u32
  k_PIXELOFF_OFFSET :: nat
  k_DMAUPDT :: u32
  k_DMABUSY :: u32
  k_BLENGTH_OFFSET :: nat
  k_GUARDT_OFFSET :: nat
  k_BUSY :: u32
  k_PWR :: u32
  k_BYPASS :: u32
  k_CLKVAL_OFFSET :: nat
  k_INVLINE_INVERTED :: u32
  k_INVFRAME_INVERTED :: u32
  k_PIXELSIZE :: "nat \<Rightarrow> u32"
  k_DISTYPE :: u32
  k_DISTYPE_TFT :: u32
  k_DISTYPE_STNCOLOR :: u32
  k_IFWIDTH :: u32
  k_IFWIDTH_4 :: u32
  k_IFWIDTH_8 :: u32
  k_SCANMOD :: u32
  k_SCANMOD_DUAL :: u32
  k_HOZVAL_OFFSET :: nat
  k_PS_DIV8 :: u32
  k_POL_POSITIVE :: u32
  k_ENA_PWMENABLE :: u32
  k_HOR_HIGH_ACT :: u32
  k_VERT_HIGH_ACT :: u32
  k_UNBLANK :: int
  k_hozval_cpu :: bool

record fb_bitfield =
  bf_offset :: u32
  bf_length :: u32
  bf_msb_right :: u32

record fb_var =
  xres :: u32
  yres :: u32
  xres_virtual :: u32
  yres_virtual :: u32
  xoffset :: u32
  yoffset :: u32
  bits_per_pixel :: u32
  grayscale :: u32
  v_red :: fb_bitfield
  v_green :: fb_bitfield
  v_blue :: fb_bitfield
  v_transp :: fb_bitfield
  pixclock :: u32
  left_margin :: u32
  right_margin :: u32
  upper_margin :: u32
  lower_margin :: u32
  hsync_len :: u32
  vsync_len :: u32
  v_sync :: u32

datatype visual = MONO01 | PSEUDOCOLOR | TRUECOLOR | other_visual

record backlight =
  b_power :: int
  b_fb_blank :: int
  b_brightness :: int
  b_max_brightness :: int

text \<open>What the driver keeps of the frame buffer and of itself.\<close>

record lcdfb =
  fb_mode :: fb_var
  fix_visual :: visual
  fix_smem_start :: u32
  fix_smem_len :: u32
  fix_line_length :: u32
  pseudo_palette :: "nat \<Rightarrow> u32"
  guard_time :: u32
  default_lcdcon2 :: u32
  default_dmacon :: u32
  lcdcon_is_backlight :: bool
  bl_power :: int
  backlight_dev :: "backlight option"
  lcd_log :: "lcdc_event list"

type_synonym lcdc_hw = "lcdc_event list \<Rightarrow> lcdc_reg \<Rightarrow> u32"

definition lcdc_readl :: "lcdc_hw \<Rightarrow> lcdc_reg \<Rightarrow> lcdfb \<Rightarrow> u32 \<times> lcdfb" where
  "lcdc_readl hw r s = (hw (lcd_log s) r, s\<lparr>lcd_log := lcd_log s @ [Rd r]\<rparr>)"

definition lcdc_writel :: "lcdc_reg \<Rightarrow> u32 \<Rightarrow> lcdfb \<Rightarrow> lcdfb" where
  "lcdc_writel r v s = s\<lparr>lcd_log := lcd_log s @ [Wr r v]\<rparr>"

definition lcd_msleep :: "nat \<Rightarrow> lcdfb \<Rightarrow> lcdfb" where
  "lcd_msleep n s = s\<lparr>lcd_log := lcd_log s @ [Pause n]\<rparr>"

definition DIV_ROUND_UP :: "u32 \<Rightarrow> u32 \<Rightarrow> u32" where
  "DIV_ROUND_UP n d = (n + d - 1) div d"

text \<open>\<open>PICOS2KHZ\<close> and \<open>KHZ2PICOS\<close> divide by their argument.\<close>

definition picos_khz :: "u32 \<Rightarrow> u32 option" where
  "picos_khz a = (if a = 0 then None else Some (1000000000 div a))"

section \<open>The place of the picture in memory\<close>

definition atmel_lcdfb_update_dma2d :: "lcdc_consts \<Rightarrow> lcdc_hw \<Rightarrow> fb_var \<Rightarrow> lcdfb \<Rightarrow> lcdfb" where
  "atmel_lcdfb_update_dma2d k hw var s =
     (let pixeloff = (xoffset var * bits_per_pixel var) AND 0x1f;
          dma2dcfg = ((xres_virtual var - xres var) * bits_per_pixel var) div 8;
          dma2dcfg = dma2dcfg OR push_bit (k_PIXELOFF_OFFSET k) pixeloff;
          s = lcdc_writel DMA2DCFG dma2dcfg s;
          (v, s) = lcdc_readl hw DMACON s
      in lcdc_writel DMACON (v OR k_DMAUPDT k) s)"

definition atmel_lcdfb_update_dma :: "lcdc_consts \<Rightarrow> lcdc_hw \<Rightarrow> fb_var \<Rightarrow> lcdfb \<Rightarrow> lcdfb" where
  "atmel_lcdfb_update_dma k hw var s =
     (let dma_addr = fix_smem_start s + yoffset var * fix_line_length s + xoffset var * bits_per_pixel var div 8;
          dma_addr = dma_addr AND NOT 3
      in atmel_lcdfb_update_dma2d k hw var (lcdc_writel DMABADDR1 dma_addr s))"

definition atmel_lcdfb_pan_display :: "lcdc_consts \<Rightarrow> lcdc_hw \<Rightarrow> fb_var \<Rightarrow> lcdfb \<Rightarrow> int \<times> lcdfb" where
  "atmel_lcdfb_pan_display k hw var s = (0, atmel_lcdfb_update_dma k hw var s)"

text \<open>\<open>mem\<close>: the address of the memory that is allocated, if there is any.\<close>

definition atmel_lcdfb_alloc_video_memory :: "u32 option \<Rightarrow> lcdfb \<Rightarrow> int \<times> lcdfb" where
  "atmel_lcdfb_alloc_video_memory mem s =
     (let var = fb_mode s;
          s = s\<lparr>fix_smem_len := xres_virtual var * yres_virtual var * ((bits_per_pixel var + 7) div 8)\<rparr>
      in case mem of None \<Rightarrow> (- 12, s) | Some a \<Rightarrow> (0, s\<lparr>fix_smem_start := a\<rparr>))"

section \<open>Contrast and backlight\<close>

definition contrast_ctr :: "lcdc_consts \<Rightarrow> u32" where
  "contrast_ctr k = k_PS_DIV8 k OR k_POL_POSITIVE k OR k_ENA_PWMENABLE k"

definition atmel_bl_update_status :: "lcdc_consts \<Rightarrow> lcdc_hw \<Rightarrow> backlight \<Rightarrow> lcdfb \<Rightarrow> int \<times> lcdfb" where
  "atmel_bl_update_status k hw bl s =
     (let pwr = (if b_fb_blank bl \<noteq> bl_power s then b_fb_blank bl
                 else if b_power bl \<noteq> bl_power s then b_power bl
                 else bl_power s);
          (brightness, s) =
            (if b_brightness bl < 0 \<and> pwr = k_UNBLANK k then
               (case lcdc_readl hw CONTRAST_VAL s of (v, s) \<Rightarrow> (sint v, s))
             else if pwr \<noteq> k_UNBLANK k then (0, s)
             else (b_brightness bl, s));
          s = lcdc_writel CONTRAST_VAL (word_of_int brightness) s;
          s = lcdc_writel CONTRAST_CTR (if brightness \<noteq> 0 then contrast_ctr k else 0) s
      in (0, s\<lparr>bl_power := pwr, backlight_dev := Some (bl\<lparr>b_fb_blank := pwr, b_power := pwr\<rparr>)\<rparr>))"

definition atmel_bl_get_brightness :: "lcdc_hw \<Rightarrow> lcdfb \<Rightarrow> int \<times> lcdfb" where
  "atmel_bl_get_brightness hw s = (case lcdc_readl hw CONTRAST_VAL s of (v, s) \<Rightarrow> (sint v, s))"

text \<open>\<open>reg\<close>: the device that is registered, if that works; the test of the result looks at the wrong pointer.\<close>

definition init_backlight :: "lcdc_consts \<Rightarrow> lcdc_hw \<Rightarrow> backlight option \<Rightarrow> lcdfb \<Rightarrow> lcdfb option" where
  "init_backlight k hw reg s =
     (let s = s\<lparr>bl_power := k_UNBLANK k\<rparr> in
      if backlight_dev s \<noteq> None then Some s
      else
        (case reg of
           None \<Rightarrow> None
         | Some bl \<Rightarrow>
             (let (b, s) = atmel_bl_get_brightness hw s
              in Some (s\<lparr>backlight_dev := Some (bl\<lparr>b_power := k_UNBLANK k, b_fb_blank := k_UNBLANK k,
                   b_max_brightness := 0xff, b_brightness := b\<rparr>)\<rparr>))))"

definition init_contrast :: "lcdc_consts \<Rightarrow> lcdc_hw \<Rightarrow> backlight option \<Rightarrow> lcdfb \<Rightarrow> lcdfb option" where
  "init_contrast k hw reg s =
     (let s = lcdc_writel CONTRAST_VAL 0xc8 (lcdc_writel CONTRAST_CTR (contrast_ctr k) s) in
      if lcdcon_is_backlight s then init_backlight k hw reg s else Some s)"

section \<open>The mode\<close>

definition compute_hozval :: "lcdc_consts \<Rightarrow> u32 \<Rightarrow> u32 \<Rightarrow> u32" where
  "compute_hozval k x lcdcon2 =
     (if \<not> k_hozval_cpu k then x
      else if lcdcon2 AND k_DISTYPE k \<noteq> k_DISTYPE_TFT k then
        (let value = (if lcdcon2 AND k_DISTYPE k = k_DISTYPE_STNCOLOR k then x * 3 else x) in
         if lcdcon2 AND k_IFWIDTH k = k_IFWIDTH_4 k \<or>
            lcdcon2 AND k_IFWIDTH k = k_IFWIDTH_8 k \<and> lcdcon2 AND k_SCANMOD k = k_SCANMOD_DUAL k
         then DIV_ROUND_UP value 4 else DIV_ROUND_UP value 8)
      else x)"

definition bitfield_at :: "u32 \<Rightarrow> u32 \<Rightarrow> fb_bitfield \<Rightarrow> fb_bitfield" where
  "bitfield_at off len f = f\<lparr>bf_offset := off, bf_length := len\<rparr>"

text \<open>The result, and the mode as it is left.\<close>

definition check_colors :: "fb_var \<Rightarrow> int \<times> fb_var" where
  "check_colors var =
     (let b = bits_per_pixel var in
      if b \<in> {1, 2, 4, 8} then
        (0, var\<lparr>v_red := bitfield_at 0 b (v_red var), v_green := bitfield_at 0 b (v_green var),
              v_blue := bitfield_at 0 b (v_blue var)\<rparr>)
      else if b \<in> {15, 16} then
        (0, var\<lparr>v_red := bitfield_at 0 5 (v_red var), v_green := bitfield_at 5 5 (v_green var),
              v_blue := bitfield_at 10 5 (v_blue var)\<rparr>)
      else if b \<in> {24, 32} then
        (let var = (if b = 32 then var\<lparr>v_transp := bitfield_at 24 8 (v_transp var)\<rparr> else var)
         in (0, var\<lparr>v_red := bitfield_at 0 8 (v_red var), v_green := bitfield_at 8 8 (v_green var),
              v_blue := bitfield_at 16 8 (v_blue var)\<rparr>))
      else (- 22, var))"

definition check_layout :: "fb_var \<Rightarrow> fb_var" where
  "check_layout var =
     (let r = (v_red var)\<lparr>bf_msb_right := 0\<rparr>; g = (v_green var)\<lparr>bf_msb_right := 0\<rparr>;
          b = (v_blue var)\<lparr>bf_msb_right := 0\<rparr>
      in var\<lparr>xres := (xres var + 3) AND NOT 3, xres_virtual := (xres_virtual var + 3) AND NOT 3,
           v_red := r, v_green := g, v_blue := b, v_transp := \<lparr>bf_offset = 0, bf_length = 0, bf_msb_right = 0\<rparr>,
           xoffset := 0, yoffset := 0\<rparr>)"

definition check_timings :: "lcdc_consts \<Rightarrow> fb_var \<Rightarrow> fb_var" where
  "check_timings k var =
     (let var = var\<lparr>
          vsync_len := min (vsync_len var) (drop_bit (k_VPW_OFFSET k) (k_VPW k) + 1),
          upper_margin := min (upper_margin var) (drop_bit (k_VBP_OFFSET k) (k_VBP k)),
          lower_margin := min (lower_margin var) (k_VFP k),
          right_margin := min (right_margin var) (drop_bit (k_HFP_OFFSET k) (k_HFP k) + 1),
          hsync_len := min (hsync_len var) (drop_bit (k_HPW_OFFSET k) (k_HPW k) + 1),
          left_margin := min (left_margin var) (k_HBP k + 1)\<rparr>
      in var\<lparr>vsync_len := max (vsync_len var) 1, right_margin := max (right_margin var) 1,
           hsync_len := max (hsync_len var) 1, left_margin := max (left_margin var) 1\<rparr>)"

definition atmel_lcdfb_check_var :: "lcdc_consts \<Rightarrow> u32 \<Rightarrow> fb_var \<Rightarrow> (int \<times> fb_var) option" where
  "atmel_lcdfb_check_var k rate var = do {
     khz \<leftarrow> picos_khz (pixclock var);
     if khz * bits_per_pixel var div 8 > rate div 1000 then Some (- 22, var)
     else Some (check_colors (check_timings k (check_layout var))) }"

text \<open>Waiting for a bit to go away.\<close>

partial_function (option) wait_idle :: "lcdc_hw \<Rightarrow> lcdc_reg \<Rightarrow> u32 \<Rightarrow> lcdfb \<Rightarrow> lcdfb option" where
  "wait_idle hw r busy s =
     (case lcdc_readl hw r s of
        (v, s) \<Rightarrow> if v AND busy = 0 then Some s else wait_idle hw r busy (lcd_msleep 10 s))"

definition set_visual :: "lcdfb \<Rightarrow> lcdfb" where
  "set_visual s =
     (let b = bits_per_pixel (fb_mode s) in
      s\<lparr>fix_visual := (if b = 1 then MONO01 else if b \<le> 8 then PSEUDOCOLOR else TRUECOLOR)\<rparr>)"

definition set_pixel_clock :: "lcdc_consts \<Rightarrow> u32 \<Rightarrow> lcdfb \<Rightarrow> lcdfb option" where
  "set_pixel_clock k rate s = do {
     let clk = rate div 1000;
     khz \<leftarrow> picos_khz (pixclock (fb_mode s));
     value \<leftarrow> (if khz = 0 then None else Some (DIV_ROUND_UP clk khz));
     let value = value div 2 - 1;
     if value \<le> 0 then Some (lcdc_writel LCDCON1 (k_BYPASS k) s)
     else do {
       let s = lcdc_writel LCDCON1 (push_bit (k_CLKVAL_OFFSET k) value) s;
       let n = 2 * (value + 1);
       p \<leftarrow> (if n = 0 then None else picos_khz (clk div n));
       Some (s\<lparr>fb_mode := (fb_mode s)\<lparr>pixclock := p\<rparr>\<rparr>) } }"

definition lcdcon2_value :: "lcdc_consts \<Rightarrow> lcdfb \<Rightarrow> u32 option" where
  "lcdcon2_value k s =
     (let var = fb_mode s; value = default_lcdcon2 s;
          value = (if v_sync var AND k_HOR_HIGH_ACT k = 0 then value OR k_INVLINE_INVERTED k else value);
          value = (if v_sync var AND k_VERT_HIGH_ACT k = 0 then value OR k_INVFRAME_INVERTED k else value);
          b = unat (bits_per_pixel var)
      in if b \<in> {1, 2, 4, 8, 24, 32} then Some (value OR k_PIXELSIZE k b)
         else if b \<in> {15, 16} then Some (value OR k_PIXELSIZE k 16)
         else None)"

definition set_timings :: "lcdc_consts \<Rightarrow> lcdfb \<Rightarrow> lcdfb" where
  "set_timings k s =
     (let var = fb_mode s;
          s = lcdc_writel TIM1 (push_bit (k_VPW_OFFSET k) (vsync_len var - 1) OR
                push_bit (k_VBP_OFFSET k) (upper_margin var) OR lower_margin var) s
      in lcdc_writel TIM2 (push_bit (k_HFP_OFFSET k) (right_margin var - 1) OR
                push_bit (k_HPW_OFFSET k) (hsync_len var - 1) OR (left_margin var - 1)) s)"

definition atmel_lcdfb_set_par :: "lcdc_consts \<Rightarrow> lcdc_hw \<Rightarrow> u32 \<Rightarrow> lcdfb \<Rightarrow> (int \<times> lcdfb) option" where
  "atmel_lcdfb_set_par k hw rate s = do {
     let s = lcdc_writel PWRCON (push_bit (k_GUARDT_OFFSET k) (guard_time s)) s;
     s \<leftarrow> wait_idle hw PWRCON (k_BUSY k) s;
     let s = set_visual (lcdc_writel DMACON 0 s);
     let s = s\<lparr>fix_line_length := DIV_ROUND_UP (xres_virtual (fb_mode s) * bits_per_pixel (fb_mode s)) 8\<rparr>;
     let s = atmel_lcdfb_update_dma k hw (fb_mode s) s;
     let s = lcdc_writel DMAFRMCFG
        ((yres (fb_mode s) * xres (fb_mode s) * bits_per_pixel (fb_mode s)) div 32 OR push_bit (k_BLENGTH_OFFSET k) (8 - 1)) s;
     s \<leftarrow> set_pixel_clock k rate s;
     value \<leftarrow> lcdcon2_value k s;
     let s = set_timings k (lcdc_writel LCDCON2 value s);
     let (con2, s) = lcdc_readl hw LCDCON2 s;
     let s = lcdc_writel LCDFRMCFG
        (push_bit (k_HOZVAL_OFFSET k) (compute_hozval k (xres (fb_mode s)) con2 - 1) OR (yres (fb_mode s) - 1)) s;
     let s = lcdc_writel IDR (NOT 0) (lcdc_writel MVAL 0 (lcdc_writel FIFO (512 - (2 * 8 + 3)) s));
     s \<leftarrow> wait_idle hw DMACON (k_DMABUSY k) s;
     let s = lcdc_writel DMACON (default_dmacon s) s;
     let s = lcdc_writel PWRCON (push_bit (k_GUARDT_OFFSET k) (guard_time s) OR k_PWR k) s;
     Some (0, s) }"

section \<open>Colours\<close>

text \<open>The length of a field is at most 16 and its place less than 32 in every mode that was checked.\<close>

definition chan_to_field :: "u32 \<Rightarrow> fb_bitfield \<Rightarrow> u32" where
  "chan_to_field chan bf = push_bit (unat (bf_offset bf)) (drop_bit (16 - unat (bf_length bf)) (chan AND 0xffff))"

definition gray_of :: "u32 \<Rightarrow> u32 \<Rightarrow> u32 \<Rightarrow> u32" where
  "gray_of r g b = drop_bit 16 (19595 * r + 38470 * g + 7471 * b)"

definition true_color :: "fb_var \<Rightarrow> u32 \<Rightarrow> u32 \<Rightarrow> u32 \<Rightarrow> u32" where
  "true_color var r g b = chan_to_field r (v_red var) OR chan_to_field g (v_green var) OR chan_to_field b (v_blue var)"

definition lut_color :: "u32 \<Rightarrow> u32 \<Rightarrow> u32 \<Rightarrow> u32" where
  "lut_color r g b = (drop_bit 11 r AND 0x001f) OR (drop_bit 6 g AND 0x03e0) OR (drop_bit 1 b AND 0x7c00)"

definition atmel_lcdfb_setcolreg :: "u32 \<Rightarrow> u32 \<Rightarrow> u32 \<Rightarrow> u32 \<Rightarrow> u32 \<Rightarrow> lcdfb \<Rightarrow> int \<times> lcdfb" where
  "atmel_lcdfb_setcolreg regno r g b transparency s =
     (let var = fb_mode s;
          (r, g, b) = (if grayscale var \<noteq> 0 then (gray_of r g b, gray_of r g b, gray_of r g b) else (r, g, b))
      in case fix_visual s of
           TRUECOLOR \<Rightarrow>
             (if regno < 16 then (0, s\<lparr>pseudo_palette := (pseudo_palette s)(unat regno := true_color var r g b)\<rparr>)
              else (1, s))
         | PSEUDOCOLOR \<Rightarrow>
             (if regno < 256 then (0, lcdc_writel (LUT (unat regno)) (lut_color r g b) s) else (1, s))
         | MONO01 \<Rightarrow>
             (if regno < 2 then (0, lcdc_writel (LUT (unat regno)) (if regno = 0 then 0x00 else 0x1F) s) else (1, s))
         | other_visual \<Rightarrow> (1, s))"

definition atmel_lcdfb_interrupt :: "lcdc_hw \<Rightarrow> lcdfb \<Rightarrow> lcdfb" where
  "atmel_lcdfb_interrupt hw s = (case lcdc_readl hw ISR s of (status, s) \<Rightarrow> lcdc_writel IDR status s)"

end
