(* ===== verification/Atmel_Lcdfb_Props.thy ===== *)
theory Atmel_Lcdfb_Props
  imports Fbcmap_Props Atmel_Lcdfb
begin

text \<open>
  The LCD controller: modes that are accepted, what setting one programs and where that goes wrong, the place
  of the picture in memory, and colours.
\<close>

section \<open>Checking a mode\<close>

lemma align4_idem: "((((x :: u32) + 3) AND NOT 3) + 3) AND NOT 3 = (x + 3) AND NOT 3"
proof -
  define y where "y = (x + 3) AND NOT 3"
  have m: "(3 :: u32) = mask 2" by code_simp
  have y: "y AND 3 = 0" by (simp add: y_def m and.assoc)
  then have "y + 3 = y OR 3" by (simp add: disjunctive_add_eq_or)
  then have "(y + 3) AND NOT 3 = y AND NOT 3" by (simp add: bit.conj_disj_distrib2)
  also have "\<dots> = y" by (simp add: y_def and.assoc)
  finally show ?thesis by (simp add: y_def)
qed

lemma layout_idem: "check_layout (check_layout v) = check_layout v"
  by (simp add: check_layout_def Let_def align4_idem [simplified])

lemma clamp_idem: "max (min (max (min a l) 1) l) 1 = max (min a l) (1 :: u32)" "min (min a l) l = min a (l :: u32)"
  by (auto simp: min_def max_def)

lemma timings_idem: "check_timings k (check_timings k v) = check_timings k v"
  by (simp add: check_timings_def Let_def clamp_idem)

lemma timings_layout: "check_layout (check_timings k v) = check_timings k (check_layout v)"
  by (simp add: check_timings_def check_layout_def Let_def)

text \<open>The places of the components for a depth.\<close>

definition set_colors_at :: "u32 \<Rightarrow> fb_var \<Rightarrow> fb_var" where
  "set_colors_at b v =
     (if b \<le> 8 then v\<lparr>v_red := bitfield_at 0 b (v_red v), v_green := bitfield_at 0 b (v_green v), v_blue := bitfield_at 0 b (v_blue v)\<rparr>
      else if b \<le> 16 then v\<lparr>v_red := bitfield_at 0 5 (v_red v), v_green := bitfield_at 5 5 (v_green v), v_blue := bitfield_at 10 5 (v_blue v)\<rparr>
      else (if b = 32 then v\<lparr>v_transp := bitfield_at 24 8 (v_transp v)\<rparr> else v)
        \<lparr>v_red := bitfield_at 0 8 (v_red v), v_green := bitfield_at 8 8 (v_green v), v_blue := bitfield_at 16 8 (v_blue v)\<rparr>)"

definition depth_ok :: "u32 \<Rightarrow> bool" where
  "depth_ok b \<longleftrightarrow> b \<in> {1, 2, 4, 8, 15, 16, 24, 32}"

lemma check_colors_eq:
  "check_colors v = (if depth_ok (bits_per_pixel v) then (0, set_colors_at (bits_per_pixel v) v) else (- 22, v))"
  by (auto simp: check_colors_def depth_ok_def set_colors_at_def Let_def)

lemma set_colors_at_depth [simp]: "bits_per_pixel (set_colors_at b v) = bits_per_pixel v" "pixclock (set_colors_at b v) = pixclock v"
  by (simp_all add: set_colors_at_def)

lemma timings_colors [simp]:
  "v_red (check_timings k v) = v_red v" "v_green (check_timings k v) = v_green v"
  "v_blue (check_timings k v) = v_blue v" "v_transp (check_timings k v) = v_transp v"
  "check_timings k (v\<lparr>v_red := x\<rparr>) = (check_timings k v)\<lparr>v_red := x\<rparr>"
  "check_timings k (v\<lparr>v_green := x\<rparr>) = (check_timings k v)\<lparr>v_green := x\<rparr>"
  "check_timings k (v\<lparr>v_blue := x\<rparr>) = (check_timings k v)\<lparr>v_blue := x\<rparr>"
  "check_timings k (v\<lparr>v_transp := x\<rparr>) = (check_timings k v)\<lparr>v_transp := x\<rparr>"
  by (simp_all add: check_timings_def Let_def)

lemma layout_colors [simp]:
  "v_red (check_layout v) = (v_red v)\<lparr>bf_msb_right := 0\<rparr>" "v_green (check_layout v) = (v_green v)\<lparr>bf_msb_right := 0\<rparr>"
  "v_blue (check_layout v) = (v_blue v)\<lparr>bf_msb_right := 0\<rparr>"
  "v_transp (check_layout v) = \<lparr>bf_offset = 0, bf_length = 0, bf_msb_right = 0\<rparr>"
  "check_layout (v\<lparr>v_red := x\<rparr>) = (check_layout v)\<lparr>v_red := x\<lparr>bf_msb_right := 0\<rparr>\<rparr>"
  "check_layout (v\<lparr>v_green := x\<rparr>) = (check_layout v)\<lparr>v_green := x\<lparr>bf_msb_right := 0\<rparr>\<rparr>"
  "check_layout (v\<lparr>v_blue := x\<rparr>) = (check_layout v)\<lparr>v_blue := x\<lparr>bf_msb_right := 0\<rparr>\<rparr>"
  "check_layout (v\<lparr>v_transp := x\<rparr>) = check_layout v"
  by (simp_all add: check_layout_def Let_def)

lemma set_colors_at_timings: "check_timings k (set_colors_at b v) = set_colors_at b (check_timings k v)"
  by (simp add: set_colors_at_def)

lemma set_colors_at_layout: "set_colors_at b (check_layout (set_colors_at b (check_layout v))) = set_colors_at b (check_layout v)"
  by (simp add: set_colors_at_def bitfield_at_def layout_idem)

lemma check_layout_depth [simp]: "bits_per_pixel (check_layout v) = bits_per_pixel v" "pixclock (check_layout v) = pixclock v"
  by (simp_all add: check_layout_def Let_def)

lemma check_timings_depth [simp]: "bits_per_pixel (check_timings k v) = bits_per_pixel v" "pixclock (check_timings k v) = pixclock v"
  by (simp_all add: check_timings_def Let_def)

text \<open>An accepted mode.\<close>

lemma check_var_accepts:
  "atmel_lcdfb_check_var k rate var = Some (0, var') \<longleftrightarrow>
    (\<exists>khz. picos_khz (pixclock var) = Some khz \<and> \<not> khz * bits_per_pixel var div 8 > rate div 1000 \<and>
      depth_ok (bits_per_pixel var) \<and> var' = set_colors_at (bits_per_pixel var) (check_timings k (check_layout var)))"
  by (auto simp: atmel_lcdfb_check_var_def check_colors_eq split: bind_splits if_splits)

text \<open>A mode that was accepted is accepted again as it is: checking changes nothing more.\<close>

theorem lcdfb_check_var_twice:
  assumes "atmel_lcdfb_check_var k rate var = Some (0, var')"
  shows "atmel_lcdfb_check_var k rate var' = Some (0, var')"
proof -
  let ?b = "bits_per_pixel var"
  obtain khz where khz: "picos_khz (pixclock var) = Some khz" "\<not> khz * ?b div 8 > rate div 1000" "depth_ok ?b"
    "var' = set_colors_at ?b (check_timings k (check_layout var))"
    using assms unfolding check_var_accepts by blast
  have "set_colors_at ?b (check_timings k (check_layout var')) =
      check_timings k (set_colors_at ?b (check_layout (set_colors_at ?b (check_layout (check_timings k var)))))"
    by (simp add: khz(4) set_colors_at_timings timings_layout)
  also have "\<dots> = check_timings k (set_colors_at ?b (check_layout (check_timings k var)))" by (simp only: set_colors_at_layout)
  also have "\<dots> = set_colors_at ?b (check_timings k (check_timings k (check_layout var)))"
    by (simp only: set_colors_at_timings timings_layout)
  finally have "var' = set_colors_at ?b (check_timings k (check_layout var'))" by (simp add: timings_idem khz(4))
  then show ?thesis unfolding check_var_accepts using khz by (simp add: khz(4))
qed

end
