(* ===== verification/Atmel_Lcdfb_Par.thy ===== *)
theory Atmel_Lcdfb_Par
  imports Atmel_Lcdfb_Props
begin

text \<open>
  Setting a mode: what is in the registers afterwards, and the modes for which it divides by zero. The place of
  the picture in memory.
\<close>

section \<open>Registers\<close>

text \<open>The values last written.\<close>

fun written :: "(lcdc_reg \<Rightarrow> u32 option) \<Rightarrow> lcdc_event list \<Rightarrow> lcdc_reg \<Rightarrow> u32 option" where
  "written f [] = f"
| "written f (Wr r v # es) = written (f(r \<mapsto> v)) es"
| "written f (Rd r # es) = written f es"
| "written f (Pause n # es) = written f es"

definition lcd_regs :: "lcdfb \<Rightarrow> lcdc_reg \<Rightarrow> u32 option" where
  "lcd_regs s = written (\<lambda>_. None) (lcd_log s)"

lemma written_append: "written f (xs @ ys) = written (written f xs) ys"
  by (induction f xs rule: written.induct) (simp_all del: fun_upd_apply)

lemma regs_write [simp]: "lcd_regs (lcdc_writel r v s) = (lcd_regs s)(r \<mapsto> v)"
  by (simp add: lcd_regs_def lcdc_writel_def written_append)

lemma regs_read [simp]: "lcd_regs (s\<lparr>lcd_log := lcd_log s @ [Rd r]\<rparr>) = lcd_regs s"
  by (simp add: lcd_regs_def written_append)

lemma fst_readl [simp]: "lcdc_readl hw r s = (hw (lcd_log s) r, s\<lparr>lcd_log := lcd_log s @ [Rd r]\<rparr>)"
  by (simp add: lcdc_readl_def)

lemma writel_fields [simp]: "fb_mode (lcdc_writel r v s) = fb_mode s" "fix_visual (lcdc_writel r v s) = fix_visual s"
  "fix_line_length (lcdc_writel r v s) = fix_line_length s" "fix_smem_start (lcdc_writel r v s) = fix_smem_start s"
  "guard_time (lcdc_writel r v s) = guard_time s" "default_dmacon (lcdc_writel r v s) = default_dmacon s"
  "default_lcdcon2 (lcdc_writel r v s) = default_lcdcon2 s"
  by (simp_all add: lcdc_writel_def)

lemma regs_other [simp]: "lcd_regs (s\<lparr>fb_mode := m\<rparr>) = lcd_regs s" "lcd_regs (s\<lparr>fix_visual := x\<rparr>) = lcd_regs s"
  "lcd_regs (s\<lparr>fix_line_length := l\<rparr>) = lcd_regs s"
  by (simp_all add: lcd_regs_def)

section \<open>Waiting\<close>

definition polled :: "lcdc_reg \<Rightarrow> nat \<Rightarrow> lcdc_event list" where
  "polled r n = concat (replicate n [Rd r, Pause 10])"

text \<open>The controller becomes idle some time, whatever was done.\<close>

definition lcd_settles :: "lcdc_consts \<Rightarrow> lcdc_hw \<Rightarrow> bool" where
  "lcd_settles k hw \<longleftrightarrow> (\<forall>es. \<exists>n. hw (es @ polled PWRCON n) PWRCON AND k_BUSY k = 0) \<and>
     (\<forall>es. \<exists>n. hw (es @ polled DMACON n) DMACON AND k_DMABUSY k = 0)"

lemma written_polled [simp]: "written f (polled r n) = f"
  by (induction n) (simp_all add: polled_def)

lemma wait_idle_returns:
  "hw (lcd_log s @ polled r n) r AND b = 0 \<Longrightarrow>
    \<exists>m. wait_idle hw r b s = Some (s\<lparr>lcd_log := lcd_log s @ polled r m @ [Rd r]\<rparr>)"
proof (induction n arbitrary: s)
  case 0
  then show ?case by (intro exI [of _ 0]) (simp add: polled_def wait_idle.simps [of hw r b s])
next
  case (Suc n)
  show ?case
  proof (cases "hw (lcd_log s) r AND b = 0")
    case True
    then show ?thesis by (intro exI [of _ 0]) (simp add: polled_def wait_idle.simps [of hw r b s])
  next
    case False
    let ?s = "lcd_msleep 10 (s\<lparr>lcd_log := lcd_log s @ [Rd r]\<rparr>)"
    have l: "lcd_log ?s = lcd_log s @ [Rd r, Pause 10]" by (simp add: lcd_msleep_def)
    have "lcd_log s @ polled r (Suc n) = lcd_log ?s @ polled r n" by (simp add: l polled_def)
    then obtain m where "wait_idle hw r b ?s = Some (?s\<lparr>lcd_log := lcd_log ?s @ polled r m @ [Rd r]\<rparr>)"
      using Suc.IH [of ?s] Suc.prems by auto
    moreover have "?s\<lparr>lcd_log := lcd_log ?s @ polled r m @ [Rd r]\<rparr> = s\<lparr>lcd_log := lcd_log s @ polled r (Suc m) @ [Rd r]\<rparr>"
      by (simp add: lcd_msleep_def polled_def)
    ultimately show ?thesis using False by (intro exI [of _ "Suc m"]) (simp add: wait_idle.simps [of hw r b s])
  qed
qed

text \<open>The state after a wait, as far as it matters.\<close>

definition same_lcd :: "lcdfb \<Rightarrow> lcdfb \<Rightarrow> bool" where
  "same_lcd s s' \<longleftrightarrow> s' = s\<lparr>lcd_log := lcd_log s'\<rparr> \<and> lcd_regs s' = lcd_regs s"

lemma wait_idle_same:
  assumes "\<exists>n. hw (lcd_log s @ polled r n) r AND b = 0"
  shows "\<exists>s'. wait_idle hw r b s = Some s' \<and> same_lcd s s'"
proof -
  obtain m where "wait_idle hw r b s = Some (s\<lparr>lcd_log := lcd_log s @ polled r m @ [Rd r]\<rparr>)"
    using wait_idle_returns assms by blast
  then show ?thesis by (simp add: same_lcd_def lcd_regs_def written_append)
qed

lemma same_lcd_fields:
  assumes "same_lcd s s'"
  shows "fb_mode s' = fb_mode s" "fix_visual s' = fix_visual s" "fix_line_length s' = fix_line_length s"
    "guard_time s' = guard_time s" "default_dmacon s' = default_dmacon s" "lcd_regs s' = lcd_regs s"
    "default_lcdcon2 s' = default_lcdcon2 s" "fix_smem_start s' = fix_smem_start s"
  using assms unfolding same_lcd_def by (metis lcdfb.select_convs lcdfb.update_convs lcdfb.surjective)+

section \<open>The pixel clock\<close>

text \<open>The clock of the controller in units of the pixel clock, rounded up.\<close>

definition clock_ratio :: "u32 \<Rightarrow> fb_var \<Rightarrow> nat" where
  "clock_ratio rate var = (let khz = 1000000000 div unat (pixclock var) in (unat (rate div 1000) + khz - 1) div khz)"

lemma set_pixel_clock_ratio:
  assumes khz: "picos_khz (pixclock (fb_mode s)) = Some khz" "khz \<noteq> 0"
  shows "unat (DIV_ROUND_UP (rate div 1000) khz) = clock_ratio rate (fb_mode s)"
proof -
  have k: "khz = 1000000000 div pixclock (fb_mode s)" using khz(1) by (simp add: picos_khz_def split: if_splits)
  then have uk: "unat khz = 1000000000 div unat (pixclock (fb_mode s))" by (simp add: unat_div)
  have k1: "1 \<le> unat khz" using khz(2) by (simp add: Suc_le_eq unat_gt_0)
  have "unat (rate div 1000) \<le> 4294968"
  proof -
    have "unat rate < 2 ^ 32" using unsigned_less [of rate] by simp
    then show ?thesis by (simp add: unat_div)
  qed
  moreover have "unat khz \<le> 1000000000" unfolding uk by (rule div_le_dividend)
  ultimately have b: "unat (rate div 1000) + unat khz < 2 ^ 32" by simp
  then have "unat (rate div 1000 + khz) = unat (rate div 1000) + unat khz" by (simp add: unat_word_ariths)
  moreover have "1 \<le> rate div 1000 + khz" using calculation k1 by (simp add: word_le_nat_alt)
  ultimately have "unat (rate div 1000 + khz - 1) = unat (rate div 1000) + unat khz - 1" by (simp add: unat_sub)
  then show ?thesis by (simp add: DIV_ROUND_UP_def unat_div clock_ratio_def uk Let_def)
qed

lemma set_pixel_clock_returns:
  assumes khz: "picos_khz (pixclock (fb_mode s)) = Some khz" "khz \<noteq> 0" and r: "2 \<le> clock_ratio rate (fb_mode s)"
  shows "\<exists>x p. set_pixel_clock k rate s = Some ((lcdc_writel LCDCON1 x s)\<lparr>fb_mode := (fb_mode s)\<lparr>pixclock := p\<rparr>\<rparr>)"
proof -
  define v n where "v = DIV_ROUND_UP (rate div 1000) khz div 2 - 1" and "n = clock_ratio rate (fb_mode s) div 2"
  have uh: "unat (DIV_ROUND_UP (rate div 1000) khz div 2) = n"
    using set_pixel_clock_ratio [OF khz] by (simp add: n_def unat_div)
  have n1: "1 \<le> n" using r by (simp add: n_def)
  have v1: "v + 1 = DIV_ROUND_UP (rate div 1000) khz div 2" by (simp add: v_def)
  have "unat (DIV_ROUND_UP (rate div 1000) khz) < 2 ^ 32"
    using unsigned_less [of "DIV_ROUND_UP (rate div 1000) khz"] by simp
  then have "clock_ratio rate (fb_mode s) < 2 ^ 32" by (simp only: set_pixel_clock_ratio [OF khz])
  then have un: "unat (2 * (v + 1)) = 2 * n" using uh n1 unfolding v1 by (simp add: unat_word_ariths n_def)
  have nz: "2 * (v + 1) \<noteq> 0" using un n1 by auto
  have le: "2 * n \<le> unat (rate div 1000)"
  proof -
    have k1: "1 \<le> 1000000000 div unat (pixclock (fb_mode s))"
      using khz by (auto simp: picos_khz_def unat_div Suc_le_eq unat_gt_0 [symmetric] split: if_splits)
    have "clock_ratio rate (fb_mode s) \<le> unat (rate div 1000)"
    proof -
      let ?k = "1000000000 div unat (pixclock (fb_mode s))" and ?c = "unat (rate div 1000)"
      have c: "1 \<le> ?c" using r k1 by (cases "?c = 0") (simp_all add: clock_ratio_def Let_def)
      have "?c + ?k - 1 \<le> ?c * ?k"
      proof -
        obtain a b where ab: "?c = Suc a" "?k = Suc b" using c k1 by (metis Suc_le_D One_nat_def)
        show ?thesis unfolding ab by simp
      qed
      then show ?thesis using k1 by (simp add: clock_ratio_def Let_def div_le_mono order_trans [OF div_le_mono])
    qed
    then show ?thesis by (simp add: n_def)
  qed
  have "unat (rate div 1000 div (2 * (v + 1))) = unat (rate div 1000) div (2 * n)" by (simp only: unat_div un)
  then have "rate div 1000 div (2 * (v + 1)) \<noteq> 0" using le n1 by (metis div_greater_zero_iff less_le mult_pos_pos not_gr_zero unat_0 zero_less_numeral one_le_numeral Suc_le_eq One_nat_def)
  then obtain p where p: "picos_khz (rate div 1000 div (2 * (v + 1))) = Some p" by (simp add: picos_khz_def)
  show ?thesis
  proof (cases "v \<le> 0")
    case True
    have "set_pixel_clock k rate s = Some (lcdc_writel LCDCON1 (k_BYPASS k) s)"
      unfolding set_pixel_clock_def Let_def khz(1) Option.bind.simps if_not_P [OF khz(2)] v_def [symmetric]
      using True by simp
    then show ?thesis by (intro exI [of _ "k_BYPASS k"] exI [of _ "pixclock (fb_mode s)"]) (simp add: lcdc_writel_def)
  next
    case False
    have "set_pixel_clock k rate s = Some ((lcdc_writel LCDCON1 (push_bit (k_CLKVAL_OFFSET k) v) s)\<lparr>fb_mode := (fb_mode s)\<lparr>pixclock := p\<rparr>\<rparr>)"
      unfolding set_pixel_clock_def Let_def khz(1) Option.bind.simps if_not_P [OF khz(2)] v_def [symmetric]
      using False nz p by simp
    then show ?thesis by blast
  qed
qed

section \<open>Fields of a word\<close>

lemma bit_below_mask:
  fixes x :: u32
  assumes "x \<le> mask a" "a \<le> 32" "bit x n"
  shows "n < a"
proof -
  have "uint x \<le> mask a" using assms(1,2) by (simp add: word_le_def uint_mask_eq min_absorb2)
  then have "uint x < 2 ^ a" by (simp add: mask_eq_exp_minus_1)
  then have "take_bit a (uint x) = uint x" by (simp add: take_bit_int_eq_self)
  moreover have "bit (uint x) n" using assms(3) bit_imp_le_length [OF assms(3)] by (simp add: bit_uint_iff)
  ultimately show ?thesis by (metis bit_take_bit_iff)
qed

lemma fields_of_word:
  fixes x y z :: u32
  assumes fit: "x \<le> mask a" "y \<le> mask b" "z \<le> mask c" and at: "a \<le> i" "i + b \<le> j" "j + c \<le> 32"
    and v: "v = push_bit j z OR push_bit i y OR x"
  shows "v AND mask a = x" "drop_bit i (v AND push_bit i (mask b)) = y" "drop_bit j (v AND push_bit j (mask c)) = z"
proof -
  have x: "bit x n \<Longrightarrow> n < a" and y: "bit y n \<Longrightarrow> n < b" and z: "bit z n \<Longrightarrow> n < c" for n
    using fit at by (auto intro: bit_below_mask)
  show "v AND mask a = x"
    unfolding v by (rule bit_word_eqI) (use at x in \<open>auto simp: bit_simps\<close>)
  show "drop_bit i (v AND push_bit i (mask b)) = y"
  proof (rule bit_word_eqI)
    fix n assume "n < LENGTH(32)"
    show "bit (drop_bit i (v AND push_bit i (mask b))) n = bit y n"
      using at x [of "i + n"] y [of n] z [of "i + n - j"] unfolding v by (auto simp: bit_simps)
  qed
  show "drop_bit j (v AND push_bit j (mask c)) = z"
  proof (rule bit_word_eqI)
    fix n assume "n < LENGTH(32)"
    show "bit (drop_bit j (v AND push_bit j (mask c))) n = bit z n"
      using at x [of "j + n"] y [of "j + n - i"] z [of n] unfolding v by (auto simp: bit_simps)
  qed
qed

lemma drop_push_mask: "i + b \<le> 32 \<Longrightarrow> drop_bit i (push_bit i (mask b :: u32)) = mask b"
  by (rule bit_word_eqI) (auto simp: bit_simps)

text \<open>Three fields in the timing registers, one above the other.\<close>

definition three_fields :: "u32 \<Rightarrow> u32 \<Rightarrow> nat \<Rightarrow> u32 \<Rightarrow> nat \<Rightarrow> bool" where
  "three_fields low mid i high j \<longleftrightarrow> (\<exists>a b c. low = mask a \<and> mid = push_bit i (mask b) \<and> high = push_bit j (mask c) \<and>
     a \<le> i \<and> i + b \<le> j \<and> j + c \<le> 32)"

definition lcdc_layout :: "lcdc_consts \<Rightarrow> bool" where
  "lcdc_layout k \<longleftrightarrow> three_fields (k_VFP k) (k_VBP k) (k_VBP_OFFSET k) (k_VPW k) (k_VPW_OFFSET k) \<and>
     three_fields (k_HBP k) (k_HPW k) (k_HPW_OFFSET k) (k_HFP k) (k_HFP_OFFSET k)"

lemma three_fields_read:
  assumes "three_fields low mid i high j" "x \<le> low" "y \<le> drop_bit i mid" "z \<le> drop_bit j high"
  defines "v \<equiv> push_bit j z OR push_bit i y OR x"
  shows "v AND low = x" "drop_bit i (v AND mid) = y" "drop_bit j (v AND high) = z"
proof -
  obtain a b c where f: "low = mask a" "mid = push_bit i (mask b)" "high = push_bit j (mask c)" "a \<le> i" "i + b \<le> j" "j + c \<le> 32"
    using assms(1) by (auto simp: three_fields_def)
  have "y \<le> mask b" "z \<le> mask c" using assms(3,4) f by (simp_all add: drop_push_mask)
  from fields_of_word [OF _ this f(4-6) v_def [THEN meta_eq_to_obj_eq]] assms(2)
  show "v AND low = x" "drop_bit i (v AND mid) = y" "drop_bit j (v AND high) = z" unfolding f(1-3) by blast+
qed

section \<open>Setting a mode\<close>

text \<open>The timings that the registers stand for.\<close>

definition shows_timings :: "lcdc_consts \<Rightarrow> fb_var \<Rightarrow> (lcdc_reg \<Rightarrow> u32 option) \<Rightarrow> bool" where
  "shows_timings k var R \<longleftrightarrow> (\<exists>v h. R TIM1 = Some v \<and> R TIM2 = Some h \<and>
     v AND k_VFP k = lower_margin var \<and> drop_bit (k_VBP_OFFSET k) (v AND k_VBP k) = upper_margin var \<and>
     drop_bit (k_VPW_OFFSET k) (v AND k_VPW k) + 1 = vsync_len var \<and>
     (h AND k_HBP k) + 1 = left_margin var \<and> drop_bit (k_HPW_OFFSET k) (h AND k_HPW k) + 1 = hsync_len var \<and>
     drop_bit (k_HFP_OFFSET k) (h AND k_HFP k) + 1 = right_margin var)"

text \<open>Timings within the fields.\<close>

definition timings_fit :: "lcdc_consts \<Rightarrow> fb_var \<Rightarrow> bool" where
  "timings_fit k var \<longleftrightarrow> lower_margin var \<le> k_VFP k \<and> upper_margin var \<le> drop_bit (k_VBP_OFFSET k) (k_VBP k) \<and>
     vsync_len var - 1 \<le> drop_bit (k_VPW_OFFSET k) (k_VPW k) \<and> left_margin var - 1 \<le> k_HBP k \<and>
     hsync_len var - 1 \<le> drop_bit (k_HPW_OFFSET k) (k_HPW k) \<and> right_margin var - 1 \<le> drop_bit (k_HFP_OFFSET k) (k_HFP k)"

lemma clamp_fits: "max (min (x :: u32) (l + 1)) 1 - 1 \<le> l"
proof (cases "l + 1 = 0")
  case False
  then have u: "unat (l + 1) = unat l + 1" by (metis unatSuc Suc_eq_plus1 add.commute)
  have "unat (max (min x (l + 1)) 1) \<le> unat l + 1" "1 \<le> unat (max (min x (l + 1)) 1)"
    using u unfolding min_def max_def by (auto simp: word_le_nat_alt)
  then show ?thesis by (simp add: word_le_nat_alt unat_sub)
qed (simp add: max_def min_def)

lemma timings_fit_checked: "timings_fit k (set_colors_at b (check_timings k v))"
proof -
  have s: "lower_margin (set_colors_at b w) = lower_margin w" "upper_margin (set_colors_at b w) = upper_margin w"
    "vsync_len (set_colors_at b w) = vsync_len w" "left_margin (set_colors_at b w) = left_margin w"
    "hsync_len (set_colors_at b w) = hsync_len w" "right_margin (set_colors_at b w) = right_margin w" for w
    by (simp_all add: set_colors_at_def)
  show ?thesis unfolding timings_fit_def s by (simp add: check_timings_def Let_def clamp_fits)
qed

lemma set_timings_shown:
  assumes "lcdc_layout k" "timings_fit k (fb_mode s)"
  shows "shows_timings k (fb_mode s) (lcd_regs (set_timings k s))"
proof -
  let ?m = "fb_mode s"
  note v = three_fields_read [of "k_VFP k" "k_VBP k" "k_VBP_OFFSET k" "k_VPW k" "k_VPW_OFFSET k" "lower_margin ?m" "upper_margin ?m" "vsync_len ?m - 1"]
  note h = three_fields_read [of "k_HBP k" "k_HPW k" "k_HPW_OFFSET k" "k_HFP k" "k_HFP_OFFSET k" "left_margin ?m - 1" "hsync_len ?m - 1" "right_margin ?m - 1"]
  show ?thesis
    using assms v h unfolding lcdc_layout_def timings_fit_def
    by (simp add: shows_timings_def set_timings_def Let_def)
qed

text \<open>What the parts keep.\<close>

definition same_mode :: "lcdfb \<Rightarrow> lcdfb \<Rightarrow> bool" where
  "same_mode s s' \<longleftrightarrow> fb_mode s' = fb_mode s \<and> fix_visual s' = fix_visual s \<and> fix_line_length s' = fix_line_length s \<and>
     fix_smem_start s' = fix_smem_start s \<and> guard_time s' = guard_time s \<and> default_dmacon s' = default_dmacon s"

lemma same_mode_trans: "same_mode r s \<Longrightarrow> same_mode s t \<Longrightarrow> same_mode r t"
  by (simp add: same_mode_def)

lemma same_lcd_mode: "same_lcd s s' \<Longrightarrow> same_mode s s' \<and> lcd_regs s' = lcd_regs s"
  by (simp add: same_mode_def same_lcd_fields)

lemma same_mode_writel: "same_mode s (lcdc_writel r v s)"
  by (simp add: same_mode_def)

lemma update_dma_regs:
  "\<exists>v. lcd_regs (atmel_lcdfb_update_dma k hw var s) = (lcd_regs s)
      (DMABADDR1 \<mapsto> (fix_smem_start s + yoffset var * fix_line_length s + xoffset var * bits_per_pixel var div 8) AND NOT 3,
       DMA2DCFG \<mapsto> ((xres_virtual var - xres var) * bits_per_pixel var) div 8 OR
         push_bit (k_PIXELOFF_OFFSET k) ((xoffset var * bits_per_pixel var) AND 0x1f),
       DMACON \<mapsto> v)"
  "same_mode s (atmel_lcdfb_update_dma k hw var s)"
  by (auto simp: atmel_lcdfb_update_dma_def atmel_lcdfb_update_dma2d_def Let_def same_mode_def)

lemma lcdcon2_returns:
  "bits_per_pixel (fb_mode s) \<in> {1, 2, 4, 8, 15, 16, 24, 32} \<Longrightarrow> \<exists>v. lcdcon2_value k s = Some v"
  by (auto simp: lcdcon2_value_def Let_def)

lemma set_visual_keeps [simp]: "fb_mode (set_visual s) = fb_mode s" "lcd_regs (set_visual s) = lcd_regs s"
  "fix_smem_start (set_visual s) = fix_smem_start s" "guard_time (set_visual s) = guard_time s"
  "default_dmacon (set_visual s) = default_dmacon s"
  by (simp_all add: set_visual_def Let_def)

definition visual_of :: "fb_var \<Rightarrow> visual" where
  "visual_of var = (if bits_per_pixel var = 1 then MONO01 else if bits_per_pixel var \<le> 8 then PSEUDOCOLOR else TRUECOLOR)"

lemma set_visual_of [simp]: "fix_visual (set_visual s) = visual_of (fb_mode s)"
  by (simp add: set_visual_def visual_of_def Let_def)

text \<open>The first part of setting a mode, up to the pixel clock, and the second.\<close>

definition par_start :: "lcdc_consts \<Rightarrow> lcdc_hw \<Rightarrow> lcdfb \<Rightarrow> lcdfb \<Rightarrow> bool" where
  "par_start k hw s s' \<longleftrightarrow> fb_mode s' = fb_mode s \<and> fix_visual s' = visual_of (fb_mode s) \<and>
     fix_line_length s' = DIV_ROUND_UP (xres_virtual (fb_mode s) * bits_per_pixel (fb_mode s)) 8 \<and>
     guard_time s' = guard_time s \<and> default_dmacon s' = default_dmacon s \<and> fix_smem_start s' = fix_smem_start s \<and>
     lcd_regs s' DMABADDR1 = Some ((fix_smem_start s + yoffset (fb_mode s) * fix_line_length s' +
       xoffset (fb_mode s) * bits_per_pixel (fb_mode s) div 8) AND NOT 3)"

definition par_first :: "lcdc_consts \<Rightarrow> lcdc_hw \<Rightarrow> lcdfb \<Rightarrow> lcdfb" where
  "par_first k hw s =
     (let s = set_visual (lcdc_writel DMACON 0 s);
          s = s\<lparr>fix_line_length := DIV_ROUND_UP (xres_virtual (fb_mode s) * bits_per_pixel (fb_mode s)) 8\<rparr>;
          s = atmel_lcdfb_update_dma k hw (fb_mode s) s
      in lcdc_writel DMAFRMCFG
        ((yres (fb_mode s) * xres (fb_mode s) * bits_per_pixel (fb_mode s)) div 32 OR push_bit (k_BLENGTH_OFFSET k) (8 - 1)) s)"

definition par_timings :: "lcdc_consts \<Rightarrow> lcdc_hw \<Rightarrow> u32 \<Rightarrow> lcdfb \<Rightarrow> lcdfb" where
  "par_timings k hw value s =
     (let s = set_timings k (lcdc_writel LCDCON2 value s);
          (con2, s) = lcdc_readl hw LCDCON2 s;
          s = lcdc_writel LCDFRMCFG
            (push_bit (k_HOZVAL_OFFSET k) (compute_hozval k (xres (fb_mode s)) con2 - 1) OR (yres (fb_mode s) - 1)) s
      in lcdc_writel IDR (NOT 0) (lcdc_writel MVAL 0 (lcdc_writel FIFO (512 - (2 * 8 + 3)) s)))"

lemma set_par_parts:
  "atmel_lcdfb_set_par k hw rate s = do {
     s1 \<leftarrow> wait_idle hw PWRCON (k_BUSY k) (lcdc_writel PWRCON (push_bit (k_GUARDT_OFFSET k) (guard_time s)) s);
     s2 \<leftarrow> set_pixel_clock k rate (par_first k hw s1);
     value \<leftarrow> lcdcon2_value k s2;
     s3 \<leftarrow> wait_idle hw DMACON (k_DMABUSY k) (par_timings k hw value s2);
     Some (0, lcdc_writel PWRCON (push_bit (k_GUARDT_OFFSET k) (guard_time s3) OR k_PWR k)
       (lcdc_writel DMACON (default_dmacon s3) s3)) }"
  by (simp add: atmel_lcdfb_set_par_def par_first_def par_timings_def Let_def)

lemma par_first_start:
  assumes "same_mode r s" shows "par_start k hw r (par_first k hw s)"
proof -
  define t where "t = (set_visual (lcdc_writel DMACON 0 s))\<lparr>fix_line_length := DIV_ROUND_UP (xres_virtual (fb_mode s) * bits_per_pixel (fb_mode s)) 8\<rparr>"
  define u where "u = atmel_lcdfb_update_dma k hw (fb_mode s) t"
  have t: "fb_mode t = fb_mode s" "fix_visual t = visual_of (fb_mode s)" "fix_smem_start t = fix_smem_start s"
    "guard_time t = guard_time s" "default_dmacon t = default_dmacon s"
    "fix_line_length t = DIV_ROUND_UP (xres_virtual (fb_mode s) * bits_per_pixel (fb_mode s)) 8" by (simp_all add: t_def)
  have u: "same_mode t u" "lcd_regs u DMABADDR1 = Some ((fix_smem_start t + yoffset (fb_mode s) * fix_line_length t +
      xoffset (fb_mode s) * bits_per_pixel (fb_mode s) div 8) AND NOT 3)"
    using update_dma_regs(1) [of k hw "fb_mode s" t] update_dma_regs(2) [of t k hw "fb_mode s"] unfolding u_def by auto
  have "par_first k hw s = lcdc_writel DMAFRMCFG
      ((yres (fb_mode u) * xres (fb_mode u) * bits_per_pixel (fb_mode u)) div 32 OR push_bit (k_BLENGTH_OFFSET k) (8 - 1)) u"
    by (simp add: par_first_def Let_def t_def u_def)
  then show ?thesis using assms t u by (simp add: par_start_def same_mode_def)
qed

lemma par_timings_shown:
  assumes "lcdc_layout k" "timings_fit k (fb_mode s)"
  shows "shows_timings k (fb_mode s) (lcd_regs (par_timings k hw v s))" "same_mode s (par_timings k hw v s)"
    "lcd_regs (par_timings k hw v s) IDR = Some (NOT 0)" "lcd_regs (par_timings k hw v s) DMABADDR1 = lcd_regs s DMABADDR1"
proof -
  let ?t = "set_timings k (lcdc_writel LCDCON2 v s)"
  have m: "same_mode s ?t" "lcd_regs ?t DMABADDR1 = lcd_regs s DMABADDR1" by (simp_all add: same_mode_def set_timings_def Let_def)
  have "shows_timings k (fb_mode s) (lcd_regs ?t)" using set_timings_shown [of k "lcdc_writel LCDCON2 v s"] assms by simp
  then show "shows_timings k (fb_mode s) (lcd_regs (par_timings k hw v s))"
    by (simp add: par_timings_def shows_timings_def Let_def)
  show "same_mode s (par_timings k hw v s)" using m by (simp add: par_timings_def same_mode_def Let_def)
  show "lcd_regs (par_timings k hw v s) IDR = Some (NOT 0)" by (simp add: par_timings_def Let_def)
  show "lcd_regs (par_timings k hw v s) DMABADDR1 = lcd_regs s DMABADDR1" using m(2) by (simp add: par_timings_def Let_def)
qed

end
