(* ===== verification/Atmel_Lcdfb_Par_Props.thy ===== *)
theory Atmel_Lcdfb_Par_Props
  imports Atmel_Lcdfb_Par
begin

text \<open>
  The LCD controller: what is programmed for a mode, the modes for which the driver divides by zero, and
  panning. The witnesses use a board with the field layout of the controller's manual.
\<close>

definition lcd_wit_field :: fb_bitfield where "lcd_wit_field = \<lparr>bf_offset = 0, bf_length = 0, bf_msb_right = 0\<rparr>"

definition lcd_wit_mode :: fb_var where
  "lcd_wit_mode = \<lparr>xres = 320, yres = 240, xres_virtual = 320, yres_virtual = 240, xoffset = 0, yoffset = 0, bits_per_pixel = 16,
     grayscale = 0, v_red = lcd_wit_field, v_green = lcd_wit_field, v_blue = lcd_wit_field, v_transp = lcd_wit_field,
     pixclock = 145111, left_margin = 17, right_margin = 33, upper_margin = 10, lower_margin = 10, hsync_len = 16, vsync_len = 1, v_sync = 0\<rparr>"

definition lcd_wit_state :: lcdfb where
  "lcd_wit_state = \<lparr>fb_mode = lcd_wit_mode, fix_visual = other_visual, fix_smem_start = 0, fix_smem_len = 0, fix_line_length = 0,
     pseudo_palette = (\<lambda>_. 0), guard_time = 2, default_lcdcon2 = 0, default_dmacon = 1, lcdcon_is_backlight = False,
     bl_power = 0, backlight_dev = None, lcd_log = []\<rparr>"

definition lcd_wit_consts :: lcdc_consts where
  "lcd_wit_consts = \<lparr>k_VPW = 0x3f0000, k_VPW_OFFSET = 16, k_VBP = 0xff00, k_VBP_OFFSET = 8, k_VFP = 0xff,
     k_HFP = 0xffe00000, k_HFP_OFFSET = 21, k_HPW = 0x3f00, k_HPW_OFFSET = 8, k_HBP = 0xff, k_PIXELOFF_OFFSET = 24,
     k_DMAUPDT = 8, k_DMABUSY = 4, k_BLENGTH_OFFSET = 24, k_GUARDT_OFFSET = 1, k_BUSY = 0x80000000, k_PWR = 1,
     k_BYPASS = 1, k_CLKVAL_OFFSET = 12, k_INVLINE_INVERTED = 0x400, k_INVFRAME_INVERTED = 0x200, k_PIXELSIZE = (\<lambda>_. 0),
     k_DISTYPE = 3, k_DISTYPE_TFT = 2, k_DISTYPE_STNCOLOR = 1, k_IFWIDTH = 0x18, k_IFWIDTH_4 = 0, k_IFWIDTH_8 = 8,
     k_SCANMOD = 4, k_SCANMOD_DUAL = 4, k_HOZVAL_OFFSET = 21, k_PS_DIV8 = 3, k_POL_POSITIVE = 4, k_ENA_PWMENABLE = 8,
     k_HOR_HIGH_ACT = 1, k_VERT_HIGH_ACT = 2, k_UNBLANK = 0, k_hozval_cpu = False\<rparr>"

lemma lcdfb_check_var_twice_witness:
  "\<exists>var'. atmel_lcdfb_check_var lcd_wit_consts 100000000 lcd_wit_mode = Some (0, var') \<and>
     atmel_lcdfb_check_var lcd_wit_consts 100000000 var' = Some (0, var')"
  using lcdfb_check_var_twice [of lcd_wit_consts 100000000 lcd_wit_mode]
    check_var_accepts [of lcd_wit_consts 100000000 lcd_wit_mode]
  by (simp add: lcd_wit_mode_def depth_ok_def picos_khz_def)

section \<open>Setting a mode\<close>

lemma pixclock_keeps: "par_start k hw s s' \<Longrightarrow> pixclock (fb_mode s') = pixclock (fb_mode s) \<and> fb_mode s' = fb_mode s"
  by (simp add: par_start_def)

lemma accepted_mode:
  assumes "atmel_lcdfb_check_var k rate v = Some (0, var)"
  shows "depth_ok (bits_per_pixel var)" "timings_fit k var" "xoffset var = 0" "yoffset var = 0" "pixclock var = pixclock v"
proof -
  obtain b where "depth_ok (bits_per_pixel v)" "var = set_colors_at b (check_timings k (check_layout v))"
    using assms unfolding check_var_accepts by blast
  moreover have "xoffset (set_colors_at b w) = xoffset w" "yoffset (set_colors_at b w) = yoffset w"
    "xoffset (check_timings k w) = xoffset w" "yoffset (check_timings k w) = yoffset w"
    "xoffset (check_layout w) = 0" "yoffset (check_layout w) = 0" for w
    by (simp_all add: set_colors_at_def check_timings_def check_layout_def Let_def)
  ultimately show "depth_ok (bits_per_pixel var)" "timings_fit k var" "xoffset var = 0" "yoffset var = 0" "pixclock var = pixclock v"
    by (simp_all add: timings_fit_checked)
qed

lemma timings_pixclock [simp]: "timings_fit k (v\<lparr>pixclock := p\<rparr>) = timings_fit k v" "shows_timings k (v\<lparr>pixclock := p\<rparr>) R = shows_timings k v R"
  by (simp_all add: timings_fit_def shows_timings_def)

text \<open>C27: Setting a mode that was accepted, with a pixel clock of at most half of the controller's, ends if the
  controller becomes idle some time; then the timing registers show exactly the timings of the mode, the picture
  starts at the beginning of the memory, lines and colours are laid out for the depth, all interrupts are off,
  and the controller and its DMA are on.\<close>

theorem lcdfb_set_par_programs:
  assumes k: "lcdc_layout k" "lcd_settles k hw" and v: "atmel_lcdfb_check_var k rate v = Some (0, fb_mode s)"
    and clk: "picos_khz (pixclock v) = Some khz" "khz \<noteq> 0" "2 \<le> clock_ratio rate v"
  shows "\<exists>s' p. atmel_lcdfb_set_par k hw rate s = Some (0, s') \<and> fb_mode s' = (fb_mode s)\<lparr>pixclock := p\<rparr> \<and>
    shows_timings k (fb_mode s) (lcd_regs s') \<and> lcd_regs s' DMABADDR1 = Some (fix_smem_start s AND NOT 3) \<and>
    fix_line_length s' = DIV_ROUND_UP (xres_virtual (fb_mode s) * bits_per_pixel (fb_mode s)) 8 \<and>
    fix_visual s' = visual_of (fb_mode s) \<and> lcd_regs s' IDR = Some (NOT 0) \<and>
    lcd_regs s' DMACON = Some (default_dmacon s) \<and>
    lcd_regs s' PWRCON = Some (push_bit (k_GUARDT_OFFSET k) (guard_time s) OR k_PWR k)"
proof -
  note m = accepted_mode [OF v]
  let ?s0 = "lcdc_writel PWRCON (push_bit (k_GUARDT_OFFSET k) (guard_time s)) s"
  obtain s1 where s1: "wait_idle hw PWRCON (k_BUSY k) ?s0 = Some s1" "same_lcd ?s0 s1"
    using wait_idle_same [of hw ?s0 PWRCON "k_BUSY k"] k(2) by (auto simp: lcd_settles_def)
  have "same_mode s s1" using same_lcd_mode [OF s1(2)] by (simp add: same_mode_def)
  note f = par_first_start [OF this, of k hw]
  let ?f = "par_first k hw s1"
  have r: "2 \<le> clock_ratio rate (fb_mode ?f)" "picos_khz (pixclock (fb_mode ?f)) = Some khz"
    using clk f m(5) by (simp_all add: par_start_def clock_ratio_def)
  obtain x p where s2: "set_pixel_clock k rate ?f = Some ((lcdc_writel LCDCON1 x ?f)\<lparr>fb_mode := (fb_mode ?f)\<lparr>pixclock := p\<rparr>\<rparr>)"
    using set_pixel_clock_returns [OF r(2) clk(2) r(1), of k] by blast
  define t where "t = (lcdc_writel LCDCON1 x ?f)\<lparr>fb_mode := (fb_mode ?f)\<lparr>pixclock := p\<rparr>\<rparr>"
  have t: "fb_mode t = (fb_mode s)\<lparr>pixclock := p\<rparr>" "fix_visual t = visual_of (fb_mode s)" "guard_time t = guard_time s"
    "fix_line_length t = DIV_ROUND_UP (xres_virtual (fb_mode s) * bits_per_pixel (fb_mode s)) 8"
    "default_dmacon t = default_dmacon s" "lcd_regs t DMABADDR1 = Some (fix_smem_start s AND NOT 3)"
    using f m(3,4) by (simp_all add: t_def par_start_def)
  have "bits_per_pixel (fb_mode t) \<in> {1, 2, 4, 8, 15, 16, 24, 32}" using m(1) t(1) by (simp add: depth_ok_def)
  then obtain w where w: "lcdcon2_value k t = Some w" using lcdcon2_returns by blast
  let ?u = "par_timings k hw w t"
  note u = par_timings_shown [OF k(1), of t hw w]
  have fit: "timings_fit k (fb_mode t)" using m(2) t(1) by simp
  obtain s3 where s3: "wait_idle hw DMACON (k_DMABUSY k) ?u = Some s3" "same_lcd ?u s3"
    using wait_idle_same [of hw ?u DMACON "k_DMABUSY k"] k(2) by (auto simp: lcd_settles_def)
  let ?r = "lcdc_writel PWRCON (push_bit (k_GUARDT_OFFSET k) (guard_time s3) OR k_PWR k) (lcdc_writel DMACON (default_dmacon s3) s3)"
  have "atmel_lcdfb_set_par k hw rate s = Some (0, ?r)"
    unfolding set_par_parts s1(1) s2 t_def [symmetric] Option.bind.simps w s3(1) by simp
  moreover have "same_mode t s3" "lcd_regs s3 = lcd_regs ?u" using same_lcd_mode [OF s3(2)] u(2) [OF fit] same_mode_trans by blast+
  ultimately show ?thesis using t u(1,3,4) [OF fit]
    by (intro exI [of _ ?r] exI [of _ p]) (simp add: same_mode_def shows_timings_def)
qed

lemma wit_layout: "lcdc_layout lcd_wit_consts"
proof -
  have m: "mask 8 = (0xff :: u32)" "push_bit 8 (mask 8) = (0xff00 :: u32)" "push_bit 16 (mask 6) = (0x3f0000 :: u32)"
    "push_bit 8 (mask 6) = (0x3f00 :: u32)" "push_bit 21 (mask 11) = (0xffe00000 :: u32)" by code_simp+
  have "three_fields 0xff 0xff00 8 0x3f0000 16"
    unfolding three_fields_def by (rule exI [of _ 8], rule exI [of _ 8], rule exI [of _ 6]) (simp add: m)
  moreover have "three_fields 0xff 0x3f00 8 0xffe00000 21"
    unfolding three_fields_def by (rule exI [of _ 8], rule exI [of _ 6], rule exI [of _ 11]) (simp add: m)
  ultimately show ?thesis by (simp add: lcdc_layout_def lcd_wit_consts_def)
qed

lemma wit_settles: "lcd_settles k (\<lambda>_ _. 0)"
  by (simp add: lcd_settles_def)

lemma lcdfb_set_par_programs_witness:
  "\<exists>v s'. atmel_lcdfb_check_var lcd_wit_consts 100000000 lcd_wit_mode = Some (0, v) \<and>
     atmel_lcdfb_set_par lcd_wit_consts (\<lambda>_ _. 0) 100000000 (lcd_wit_state\<lparr>fb_mode := v\<rparr>) = Some (0, s') \<and>
     lcd_regs s' PWRCON = Some 5"
proof -
  obtain v where v: "atmel_lcdfb_check_var lcd_wit_consts 100000000 lcd_wit_mode = Some (0, v)"
    using check_var_accepts [of lcd_wit_consts 100000000 lcd_wit_mode]
    by (auto simp: lcd_wit_mode_def depth_ok_def picos_khz_def)
  have p: "picos_khz (pixclock lcd_wit_mode) = Some 6891" "2 \<le> clock_ratio 100000000 lcd_wit_mode"
    by (simp_all add: lcd_wit_mode_def picos_khz_def clock_ratio_def Let_def)
  have "push_bit 1 2 OR 1 = (5 :: u32)" by code_simp
  then show ?thesis
    using lcdfb_set_par_programs [OF wit_layout wit_settles, of 100000000 lcd_wit_mode "lcd_wit_state\<lparr>fb_mode := v\<rparr>" 6891] v p
    by (auto simp: lcd_wit_state_def lcd_wit_consts_def)
qed

section \<open>Modes with no clock\<close>

lemma clock_zero:
  assumes p: "picos_khz (pixclock (fb_mode s)) = Some khz" and z: "khz = 0 \<or> clock_ratio rate (fb_mode s) \<le> 1"
  shows "set_pixel_clock k rate s = None"
proof (cases "khz = 0")
  case True
  then show ?thesis using p by (simp add: set_pixel_clock_def Let_def)
next
  case False
  have "unat (DIV_ROUND_UP (rate div 1000) khz) \<le> 1" using z False set_pixel_clock_ratio [OF p False, of rate] by simp
  then have v: "DIV_ROUND_UP (rate div 1000) khz div 2 = 0" by (simp add: word_unat_eq_iff unat_div)
  show ?thesis
    unfolding set_pixel_clock_def Let_def p Option.bind.simps if_not_P [OF False] v by simp
qed

text \<open>The driver accepts modes that it cannot set: with a pixel clock below 1 kHz, or one that is not below the
  controller's own (which is accepted for up to 8 bits a pixel), computing the divider divides by zero, because
  the test for a divider that is zero or negative is made on an unsigned number.\<close>

theorem lcdfb_set_par_divides_by_zero:
  assumes k: "lcd_settles k hw" and v: "atmel_lcdfb_check_var k rate v = Some (0, fb_mode s)"
    and clk: "picos_khz (pixclock v) = Some khz" "khz = 0 \<or> clock_ratio rate v \<le> 1"
  shows "\<exists>s'. pixclock (fb_mode s') = pixclock v \<and> set_pixel_clock k rate s' = None \<and>
    wait_idle hw PWRCON (k_BUSY k) (lcdc_writel PWRCON (push_bit (k_GUARDT_OFFSET k) (guard_time s)) s) \<noteq> None \<and>
    atmel_lcdfb_set_par k hw rate s = None"
proof -
  let ?s0 = "lcdc_writel PWRCON (push_bit (k_GUARDT_OFFSET k) (guard_time s)) s"
  obtain s1 where s1: "wait_idle hw PWRCON (k_BUSY k) ?s0 = Some s1" "same_lcd ?s0 s1"
    using wait_idle_same [of hw ?s0 PWRCON "k_BUSY k"] k by (auto simp: lcd_settles_def)
  have "same_mode s s1" using same_lcd_mode [OF s1(2)] by (simp add: same_mode_def)
  then have f: "pixclock (fb_mode (par_first k hw s1)) = pixclock v"
    using par_first_start [of s s1 k hw] accepted_mode(5) [OF v] by (simp add: par_start_def)
  then have n: "set_pixel_clock k rate (par_first k hw s1) = None"
    using clk by (intro clock_zero [where khz = khz]) (simp_all add: clock_ratio_def)
  then have "atmel_lcdfb_set_par k hw rate s = None" unfolding set_par_parts s1(1) by simp
  then show ?thesis using f n s1(1) by blast
qed

lemma lcdfb_set_par_divides_by_zero_witness:
  "\<exists>v. atmel_lcdfb_check_var lcd_wit_consts 100000000 (lcd_wit_mode\<lparr>pixclock := 10000, bits_per_pixel := 8\<rparr>) = Some (0, v) \<and>
     atmel_lcdfb_set_par lcd_wit_consts (\<lambda>_ _. 0) 100000000 (lcd_wit_state\<lparr>fb_mode := v\<rparr>) = None"
proof -
  let ?m = "lcd_wit_mode\<lparr>pixclock := 10000, bits_per_pixel := 8\<rparr>"
  obtain v where v: "atmel_lcdfb_check_var lcd_wit_consts 100000000 ?m = Some (0, v)"
    using check_var_accepts [of lcd_wit_consts 100000000 ?m]
    by (auto simp: depth_ok_def picos_khz_def)
  have p: "picos_khz (pixclock ?m) = Some 100000" "clock_ratio 100000000 ?m \<le> 1"
    by (simp_all add: picos_khz_def clock_ratio_def Let_def)
  show ?thesis
    using lcdfb_set_par_divides_by_zero [OF wit_settles, of lcd_wit_consts 100000000 ?m "lcd_wit_state\<lparr>fb_mode := v\<rparr>" 100000] v p
    by auto
qed

section \<open>Panning\<close>

lemma low5: "x AND 0x1f = take_bit 5 (x :: u32)"
proof -
  have "(0x1f :: u32) = mask 5" by code_simp
  then show ?thesis by (simp add: take_bit_eq_mask)
qed

lemma unat_take_low: "unat (take_bit n x :: u32) = unat x mod 2 ^ n"
  unfolding unsigned_take_bit_eq by (rule take_bit_eq_mod)

lemma align_down: "unat (x AND NOT 3 :: u32) = unat x - unat x mod 4"
proof -
  have "(3 :: u32) = mask 2" by code_simp
  moreover have "x AND NOT (mask 2) = x - take_bit 2 x"
    by (subst disjunctive_diff_eq_and_not) (auto intro!: bit_word_eqI simp: bit_simps)
  ultimately have "x AND NOT 3 = x - take_bit 2 x" by metis
  moreover have "take_bit 2 x \<le> x" unfolding word_le_nat_alt unat_take_low by simp
  ultimately have "unat (x AND NOT 3) = unat x - unat (take_bit 2 x)" by (simp only: unat_sub)
  then show ?thesis unfolding unat_take_low by simp
qed

text \<open>C28: Panning moves the start of the picture exactly to the pixel that was asked for, to the bit: the address that
  is programmed and the offset in the first word together name the first bit of the pixel, and the lines are
  still those of the whole picture, as long as the picture and its lines begin at words and nothing exceeds
  the 32 bits.\<close>

theorem lcdfb_pan_to_the_bit:
  fixes var :: fb_var and s :: lcdfb
  defines "bits \<equiv> unat (xoffset var) * unat (bits_per_pixel var)"
    and "addr \<equiv> unat (fix_smem_start s) + unat (yoffset var) * unat (fix_line_length s)"
  assumes al: "4 dvd unat (fix_smem_start s)" "4 dvd unat (fix_line_length s)"
    and fit: "bits < 2 ^ 32" "addr + bits div 8 < 2 ^ 32"
    and line: "xres var \<le> xres_virtual var" "unat (xres_virtual var - xres var) * unat (bits_per_pixel var) < 2 ^ 32"
      "unat (xres_virtual var - xres var) * unat (bits_per_pixel var) div 8 < 2 ^ k_PIXELOFF_OFFSET k" "k_PIXELOFF_OFFSET k \<le> 27"
  shows "\<exists>s' a c. atmel_lcdfb_pan_display k hw var s = (0, s') \<and> lcd_regs s' DMABADDR1 = Some a \<and> lcd_regs s' DMA2DCFG = Some c \<and>
    8 * unat a + unat (drop_bit (k_PIXELOFF_OFFSET k) c) = 8 * addr + bits \<and>
    unat (take_bit (k_PIXELOFF_OFFSET k) c) = (unat (xres_virtual var) - unat (xres var)) * unat (bits_per_pixel var) div 8 \<and>
    fb_mode s' = fb_mode s"
proof -
  let ?o = "k_PIXELOFF_OFFSET k"
  let ?x = "xoffset var * bits_per_pixel var" and ?l = "((xres_virtual var - xres var) * bits_per_pixel var) div 8"
  let ?d = "fix_smem_start s + yoffset var * fix_line_length s + ?x div 8"
  have ux: "unat ?x = bits" using fit(1) by (simp add: bits_def unat_word_ariths)
  have ul: "unat ?l = (unat (xres_virtual var) - unat (xres var)) * unat (bits_per_pixel var) div 8"
    using line(1,2) by (simp add: unat_div unat_word_ariths unat_sub)
  have yl: "unat (yoffset var) * unat (fix_line_length s) < 2 ^ 32" "addr < 2 ^ 32" using fit(2) by (simp_all add: addr_def)
  then have "unat (fix_smem_start s + yoffset var * fix_line_length s) = addr" by (simp add: addr_def unat_word_ariths)
  then have ud: "unat ?d = addr + bits div 8" using fit(2) ux by (simp add: unat_word_ariths unat_div)
  define a c where "a = ?d AND NOT 3" and "c = ?l OR push_bit ?o (?x AND 0x1f)"
  have "4 dvd addr" using al by (simp add: addr_def)
  then obtain q where q: "addr = 4 * q" by (elim dvdE)
  have ua: "8 * unat a = 8 * addr + 32 * (bits div 32)"
  proof -
    have "(addr + bits div 8) - (addr + bits div 8) mod 4 = addr + 4 * (bits div 8 div 4)"
      unfolding q minus_mod_eq_mult_div by simp
    also have "bits div 8 div 4 = bits div 32" by (simp flip: div_mult2_eq)
    finally show ?thesis unfolding a_def align_down ud by simp
  qed
  have lb: "bit ?l n \<Longrightarrow> n < ?o" for n
  proof -
    assume b: "bit ?l n"
    have "unat ?l < 2 ^ ?o" using line(1,3) by (simp add: ul unat_sub)
    then have "take_bit ?o (unat ?l) = unat ?l" by (rule take_bit_nat_eq_self)
    moreover have "bit (unat ?l) n" using b bit_imp_le_length [OF b] by (simp add: bit_unsigned_iff)
    ultimately show "n < ?o" by (metis bit_take_bit_iff)
  qed
  have dc: "drop_bit ?o c = take_bit 5 ?x"
    unfolding c_def low5 using line(4) lb by (intro bit_word_eqI) (auto simp: bit_simps)
  have c1: "unat (drop_bit ?o c) = bits mod 32" unfolding dc unat_take_low ux by simp
  have c2: "take_bit ?o c = ?l"
    unfolding c_def low5 using line(4) lb by (intro bit_word_eqI) (auto simp: bit_simps)
  obtain v where r: "lcd_regs (atmel_lcdfb_update_dma k hw var s) = (lcd_regs s)(DMABADDR1 \<mapsto> a, DMA2DCFG \<mapsto> c, DMACON \<mapsto> v)"
    using update_dma_regs(1) [of k hw var s] unfolding a_def c_def by blast
  have "8 * unat a + unat (drop_bit ?o c) = 8 * addr + bits" unfolding ua c1 by simp
  then show ?thesis
    using r c2 ul update_dma_regs(2) [of s k hw var]
    by (simp add: atmel_lcdfb_pan_display_def same_mode_def)
qed

lemma lcdfb_pan_to_the_bit_witness:
  "\<exists>s' a c. atmel_lcdfb_pan_display lcd_wit_consts (\<lambda>_ _. 0) (lcd_wit_mode\<lparr>xoffset := 3, yoffset := 2\<rparr>)
      (lcd_wit_state\<lparr>fix_line_length := 640\<rparr>) = (0, s') \<and>
    lcd_regs s' DMABADDR1 = Some a \<and> lcd_regs s' DMA2DCFG = Some c \<and> 8 * unat a + unat (drop_bit 24 c) = 10288"
  using lcdfb_pan_to_the_bit [of "lcd_wit_state\<lparr>fix_line_length := 640\<rparr>" "lcd_wit_mode\<lparr>xoffset := 3, yoffset := 2\<rparr>" lcd_wit_consts "\<lambda>_ _. 0"]
  by (auto simp: lcd_wit_state_def lcd_wit_mode_def lcd_wit_consts_def)

end
