(* ===== verification/Atmel_Lcdfb_Colors.thy ===== *)
theory Atmel_Lcdfb_Colors
  imports Atmel_Lcdfb_Par_Props
begin

text \<open>
  Colour maps on the LCD controller: the driver keeps the contract of a device that takes colours, what a map
  that is set does to the registers, and the length for which the map of a program is read past its end.
\<close>

section \<open>Reading past the end\<close>

context color_device
begin

lemma set_colors_overrun:
  assumes "cm_red c = Some xs" "unat (cm_start c) + length xs < 2 ^ 31"
    "\<And>j. j < length xs \<Longrightarrow> accepts (conf d) (unat (cm_start c) + j)"
  shows "i \<le> length xs \<Longrightarrow> length xs < i + n \<Longrightarrow> set_colors setcolreg c n i d = None"
  using assms(3)
proof (induction n arbitrary: i d)
  case 0
  then show ?case by simp
next
  case (Suc n)
  show ?case
  proof (cases "i = length xs")
    case True
    then show ?thesis by (simp add: at_index_def assms(1))
  next
    case False
    then have i: "i < length xs" using Suc.prems(1) by simp
    let ?r = "cm_start c + of_nat i"
    have r: "unat ?r = unat (cm_start c) + i" using assms(2) i by (simp add: unat_word_ariths unat_of_nat)
    have "accepts (conf d) (unat ?r)" unfolding r using Suc.prems(3) i by blast
    then have step: "\<exists>d'. setcolreg ?r R G B T d = (0, d') \<and> conf d' = conf d" for R G B T
      using accepted by blast
    have "(case setcolreg ?r R G B T d of (e, d) \<Rightarrow> if e \<noteq> 0 then Some d else set_colors setcolreg c n (Suc i) d) = None" for R G B T
    proof -
      obtain d' where d': "setcolreg ?r R G B T d = (0, d')" "conf d' = conf d" using step by blast
      have "set_colors setcolreg c n (Suc i) d' = None" using Suc.IH [of "Suc i" d'] Suc.prems(2,3) i d'(2) by simp
      then show ?thesis by (simp add: d'(1))
    qed
    then show ?thesis by (simp add: Option.bind_eq_None_conv)
  qed
qed

end

section \<open>The colours of the controller\<close>

definition lcd_entries :: "visual \<Rightarrow> nat" where
  "lcd_entries v = (case v of MONO01 \<Rightarrow> 2 | PSEUDOCOLOR \<Rightarrow> 256 | TRUECOLOR \<Rightarrow> 16 | other_visual \<Rightarrow> 0)"

text \<open>What the picture is drawn with for an index: an entry of the palette, or of the table of the controller.\<close>

definition lcd_color :: "lcdfb \<Rightarrow> nat \<Rightarrow> u32 option" where
  "lcd_color s n = (if fix_visual s = TRUECOLOR then Some (pseudo_palette s n) else lcd_regs s (LUT n))"

definition lcd_encode :: "fb_var \<times> visual \<Rightarrow> nat \<Rightarrow> u32 \<Rightarrow> u32 \<Rightarrow> u32 \<Rightarrow> u32 \<Rightarrow> u32 option" where
  "lcd_encode f n r g b t = (case f of (var, v) \<Rightarrow>
     (let y = gray_of r g b; (r, g, b) = (if grayscale var \<noteq> 0 then (y, y, y) else (r, g, b))
      in Some (case v of TRUECOLOR \<Rightarrow> true_color var r g b | PSEUDOCOLOR \<Rightarrow> lut_color r g b
          | MONO01 \<Rightarrow> (if n = 0 then 0 else 0x1f) | other_visual \<Rightarrow> 0)))"

definition lcd_ops :: "lcdfb color_ops" where
  "lcd_ops = \<lparr>op_setcolreg = Some atmel_lcdfb_setcolreg, op_setcmap = None\<rparr>"

lemma regs_palette [simp]: "lcd_regs (s\<lparr>pseudo_palette := p\<rparr>) = lcd_regs s"
  by (simp add: lcd_regs_def)

lemma writel_palette [simp]: "pseudo_palette (lcdc_writel r v s) = pseudo_palette s"
  by (simp add: lcdc_writel_def)

lemma setcolreg_accepted:
  assumes "unat n < lcd_entries (fix_visual s)"
  shows "\<exists>s'. atmel_lcdfb_setcolreg n r g b t s = (0, s') \<and> (fb_mode s', fix_visual s') = (fb_mode s, fix_visual s) \<and>
    lcd_color s' = (lcd_color s)(unat n := lcd_encode (fb_mode s, fix_visual s) (unat n) r g b t)"
proof -
  have z: "n = 0 \<longleftrightarrow> unat n = 0" by (simp add: word_unat_eq_iff)
  have "n < 16 \<longleftrightarrow> unat n < 16" "n < 256 \<longleftrightarrow> unat n < 256" "n < 2 \<longleftrightarrow> unat n < 2" by (simp_all add: word_less_nat_alt)
  then show ?thesis using assms z
    by (cases "fix_visual s")
      (auto simp: atmel_lcdfb_setcolreg_def lcd_entries_def lcd_color_def lcd_encode_def Let_def fun_eq_iff split: prod.split)
qed

lemma setcolreg_refused:
  assumes "\<not> unat n < lcd_entries (fix_visual s)"
  shows "\<exists>e. e \<noteq> 0 \<and> atmel_lcdfb_setcolreg n r g b t s = (e, s)"
proof -
  have "n < 16 \<longleftrightarrow> unat n < 16" "n < 256 \<longleftrightarrow> unat n < 256" "n < 2 \<longleftrightarrow> unat n < 2" by (simp_all add: word_less_nat_alt)
  then show ?thesis using assms
    by (cases "fix_visual s") (auto simp: atmel_lcdfb_setcolreg_def lcd_entries_def Let_def split: prod.split)
qed

interpretation lcd: color_device atmel_lcdfb_setcolreg "\<lambda>s. (fb_mode s, fix_visual s)" lcd_color
    "\<lambda>f n. n < lcd_entries (snd f)" lcd_encode
  by unfold_locales (simp_all only: snd_conv setcolreg_accepted setcolreg_refused simp_thms)

section \<open>Setting a map\<close>

text \<open>C30: Setting a map on the LCD controller gives every index of the map that the depth has a register for the colour
  of the map, encoded for the depth, and changes no other; it also reports success when the map goes on past the
  registers, and keeps the colours of those indices as if they were shown.\<close>

theorem lcdfb_set_cmap_shown:
  assumes c: "cmap_ok c" and cur: "cmap_ok cur"
  shows "\<exists>cur' s'. fb_set_cmap lcd_ops c (cur, s) = Some (0, cur', s') \<and> copied c cur cur' \<and>
    (\<forall>x. lcd_color s' x =
      (if unat (cm_start c) \<le> x \<and> x < unat (cm_start c) + unat (cm_len c) \<and> x < lcd_entries (fix_visual s)
       then lcd_encode (fb_mode s, fix_visual s) x (ucast (the (entry_at c (cm_red c) x)))
         (ucast (the (entry_at c (cm_green c) x))) (ucast (the (entry_at c (cm_blue c) x))) 0xffff
       else lcd_color s x))"
proof -
  have st: "0 \<le> sint (cm_start c)" using c sint_small [of "cm_start c"] by (simp add: cmap_ok_def)
  obtain s' where s': "set_colors atmel_lcdfb_setcolreg c (unat (cm_len c)) 0 s = Some s'"
    "\<forall>x. lcd_color s' x =
      (if unat (cm_start c) + 0 \<le> x \<and> x < unat (cm_start c) + 0 + unat (cm_len c) \<and>
          (\<forall>y\<in>{unat (cm_start c) + 0..x}. y < lcd_entries (snd (fb_mode s, fix_visual s)))
       then lcd.told (fb_mode s, fix_visual s) c x else lcd_color s x)"
    using lcd.set_colors_shown [OF c, of 0 "unat (cm_len c)" s] by auto
  obtain q cur' where cur': "fb_copy_cmap c cur = Some (q, cur')" "copied c cur cur'" using copy_cmap_overlay [OF c cur] by blast
  have "lcd.told (fb_mode s, fix_visual s) c x = lcd_encode (fb_mode s, fix_visual s) x (ucast (the (entry_at c (cm_red c) x)))
         (ucast (the (entry_at c (cm_green c) x))) (ucast (the (entry_at c (cm_blue c) x))) 0xffff" for x
    by (simp add: lcd.told_def lcd_encode_def)
  moreover have "(\<forall>y\<in>{unat (cm_start c)..x}. y < lcd_entries v) \<longleftrightarrow> x < lcd_entries v" if "unat (cm_start c) \<le> x" for x v
    using that by force
  moreover have "fb_set_cmap lcd_ops c (cur, s) = Some (0, cur', s')"
    using st s'(1) cur'(1) by (simp add: fb_set_cmap_def lcd_ops_def)
  ultimately show ?thesis using s'(2) cur'(2) by (intro exI [of _ cur'] exI [of _ s']) auto
qed

lemma lcdfb_set_cmap_shown_witness:
  "\<exists>cur' s'. fb_set_cmap lcd_ops (cmap_wit 15) (cmap_wit 15, lcd_wit_state\<lparr>fix_visual := TRUECOLOR\<rparr>) = (Some (0, cur', s')) \<and>
     lcd_color s' 15 = Some (true_color lcd_wit_mode 1 3 5) \<and> lcd_color s' 16 = Some 0"
proof -
  have ok: "cmap_ok (cmap_wit 15)" by (simp add: cmap_ok_def array_ok_def cmap_wit_def)
  from lcdfb_set_cmap_shown [OF ok ok, of "lcd_wit_state\<lparr>fix_visual := TRUECOLOR\<rparr>"] show ?thesis
    by (elim exE) (auto simp: lcd_entries_def lcd_encode_def cmap_wit_def entry_at_def lcd_color_def lcd_wit_state_def lcd_wit_mode_def Let_def)
qed

section \<open>The map of a program\<close>

lemma sint_negative:
  assumes "2 ^ 31 \<le> unat (w :: u32)" shows "sint w < 0"
proof -
  have "unat w < 2 ^ 32" using unsigned_less [of w] by simp
  then have "uint w div 2 ^ 31 = 1"
    using assms unfolding uint_nat by (intro int_div_pos_eq [where r = "int (unat w) - 2 ^ 31"]) (simp_all del: of_nat_unat)
  then have "bit (uint w) 31" unfolding bit_iff_odd by simp
  then show ?thesis by (simp add: sint_uint signed_take_bit_negative_iff)
qed

lemma wrapped_size:
  assumes "2 ^ 31 \<le> unat (len :: u32)" shows "unat (len * 2) div 2 = unat len - 2 ^ 31"
proof -
  have "unat len < 2 ^ 32" using unsigned_less [of len] by simp
  then have "unat len * 2 mod 2 ^ 32 = unat len * 2 - 2 ^ 32" using assms by (subst le_mod_geq) simp_all
  then have "unat (len * 2) = unat len * 2 - 2 ^ 32" by (simp add: unat_word_ariths)
  then show ?thesis by simp
qed

lemma alloc_cmap_wrapped:
  assumes len: "2 ^ 31 \<le> unat len" and mem: "\<And>k. k < 4 \<Longrightarrow> mem k \<noteq> None"
  shows "\<exists>c. fb_alloc_cmap tabs mem len tr no_cmap = Some (0, c) \<and> cm_len c = len"
proof -
  let ?d = "fb_default_cmap tabs len"
  have a: "cmap_array mem k len \<noteq> None" if "k < 4" for k
    using mem [OF that] by (auto simp: cmap_array_def)
  have "cmap_array mem 0 len \<noteq> None" "cmap_array mem 1 len \<noteq> None" "cmap_array mem 2 len \<noteq> None" "cmap_array mem 3 len \<noteq> None"
    by (rule a, simp)+
  then have "\<exists>c. alloc_arrays mem len tr (fb_dealloc_cmap no_cmap) = (0, c)"
    unfolding alloc_arrays_def Let_def by (cases tr) auto
  then obtain c where c: "alloc_arrays mem len tr (fb_dealloc_cmap no_cmap) = (0, c)" by blast
  let ?c = "c\<lparr>cm_start := 0, cm_len := len\<rparr>"
  have "cmap_window ?d 0 len = (0, 0, if sint len > sint (cm_len ?d) then sint (cm_len ?d) else sint len)"
    by (simp add: cmap_window_def Let_def)
  moreover have "0 < sint (cm_len ?d)" by (simp add: fb_default_cmap_def table_cmap_def split: prod.split)
  ultimately have "fb_copy_cmap ?d ?c = Some (- 22, ?c)" using sint_negative [OF len] by (simp add: fb_copy_cmap_def Let_def)
  moreover have "len \<noteq> 0" using len by auto
  ultimately show ?thesis using c by (simp add: fb_alloc_cmap_def no_cmap_def Let_def)
qed

text \<open>A program that sets a map of 2147483648 or more entries makes the kernel read past the end of the arrays: their
  size is computed in 32 bits and wraps around, but the loop that sets the registers uses the length as it was
  given. There is memory, the program's arrays can be read, and the first entries have registers.\<close>

theorem fb_set_user_cmap_overruns:
  assumes len: "2 ^ 31 \<le> unat (cm_len c)" and mem: "\<forall>k < 4. mem k \<noteq> None"
    and user: "user_arrays fault c no_cmap \<noteq> None"
    and regs: "unat (cm_start c) + (unat (cm_len c) - 2 ^ 31) \<le> lcd_entries (fix_visual s)"
  shows "(\<exists>um. fb_alloc_cmap tabs mem (cm_len c) (cm_transp c \<noteq> None) no_cmap = Some (0, um)) \<and>
    fb_set_user_cmap tabs mem fault lcd_ops c (cur, s) = None"
proof -
  let ?m = "unat (cm_len c) - 2 ^ 31"
  obtain um where um: "fb_alloc_cmap tabs mem (cm_len c) (cm_transp c \<noteq> None) no_cmap = Some (0, um)" "cm_len um = cm_len c"
    using alloc_cmap_wrapped [of "cm_len c" mem tabs "cm_transp c \<noteq> None"] len mem by auto
  have "user_arrays fault c um \<noteq> None" using user by (auto simp: user_arrays_def split: bind_splits if_splits)
  then obtain um' where um': "user_arrays fault c um = Some um'" by blast
  then have l: "cm_len um' = cm_len c" using um(2) by (auto simp: user_arrays_def split: bind_splits)
  obtain xs where xs: "cm_red um' = Some xs" "length xs = ?m"
  proof -
    obtain xs where "from_user (fault 0) (cm_red c) (cm_len c) = Some xs" "cm_red um' = Some xs"
      using um' by (auto simp: user_arrays_def split: bind_splits)
    moreover from this have "length xs = ?m"
      by (auto simp: from_user_def wrapped_size [OF len] Let_def split: option.splits if_splits)
    ultimately show thesis using that by blast
  qed
  let ?u = "um'\<lparr>cm_start := cm_start c\<rparr>"
  have st: "unat (cm_start c) + ?m \<le> 256" using regs by (simp add: lcd_entries_def split: visual.splits)
  then have "0 \<le> sint (cm_start c)" using sint_small [of "cm_start c"] by simp
  moreover have "set_colors atmel_lcdfb_setcolreg ?u (unat (cm_len ?u)) 0 s = None"
    using xs st regs len by (intro lcd.set_colors_overrun [of ?u xs]) (simp_all add: l)
  ultimately have "fb_set_cmap lcd_ops ?u (cur, s) = None" by (simp add: fb_set_cmap_def lcd_ops_def)
  then show ?thesis using um um' by (simp add: fb_set_user_cmap_def lcd_ops_def)
qed

definition huge_cmap :: fb_cmap where
  "huge_cmap = \<lparr>cm_start = 0, cm_len = 0x80000001, cm_red = Some [0], cm_green = Some [0], cm_blue = Some [0], cm_transp = None\<rparr>"

lemma fb_set_user_cmap_overruns_witness:
  "fb_set_user_cmap default_tables (\<lambda>_. Some (\<lambda>_. 0)) (\<lambda>_. False) lcd_ops huge_cmap
     (no_cmap, lcd_wit_state\<lparr>fix_visual := TRUECOLOR\<rparr>) = None"
  using fb_set_user_cmap_overruns [of huge_cmap "\<lambda>_. Some (\<lambda>_. 0)" "\<lambda>_. False" "lcd_wit_state\<lparr>fix_visual := TRUECOLOR\<rparr>" default_tables no_cmap]
  by (simp add: huge_cmap_def user_arrays_def from_user_def lcd_entries_def Let_def)

end
