(* ===== verification/Atmel_Lcdfb_Probe.thy ===== *)
theory Atmel_Lcdfb_Probe
  imports Atmel_Lcdfb
begin

text \<open>
  The probe of \<open>drivers/video/atmel_lcdfb.c\<close>, with its error path, and the removal, over the resources that
  are held. Giving back what is not held is \<open>None\<close>. The state begins with what the board's data set in it.
\<close>

datatype lcd_res = Info | Bus_clk | Lcdc_clk | Clocks_on | Int_mem | Screen_map | Video_mem | Reg_region | Reg_map
  | Backlight | Irq | Color_map | Framebuffer

text \<open>
  What the kernel and the board give: a negative number is an error. \<open>e_mode\<close> is the result of \<open>fb_find_mode\<close>
  and the mode it found, \<open>e_map\<close> a memory area of the board for the picture, \<open>e_set_var\<close> is \<open>fb_set_var\<close>.
\<close>

record lcd_env =
  e_info :: bool
  e_platform :: bool
  e_bus_clk :: "int option"
  e_lcdc_clk :: int
  e_rate :: u32
  e_mode :: "int \<times> fb_var"
  e_regs :: bool
  e_irq :: int
  e_map :: "(u32 \<times> u32) option"
  e_map_region :: bool
  e_map_io :: bool
  e_video_mem :: "u32 option"
  e_reg_region :: bool
  e_reg_map :: bool
  e_backlight :: "backlight option"
  e_request_irq :: int
  e_cmap_mem :: kmem
  e_set_var :: "lcdfb \<Rightarrow> int \<times> lcdfb"
  e_register :: int

definition give_back :: "lcd_res \<Rightarrow> lcd_res list \<Rightarrow> lcd_res list option" where
  "give_back r h = (if r \<in> set h then Some (remove1 r h) else None)"

section \<open>The labels of the error path\<close>

definition lcd_free_info :: "lcd_res list \<Rightarrow> lcd_res list option" where
  "lcd_free_info h = give_back Info h"

definition lcd_put_bus_clk :: "lcd_env \<Rightarrow> lcd_res list \<Rightarrow> lcd_res list option" where
  "lcd_put_bus_clk e h = do {
     h \<leftarrow> (if e_bus_clk e \<noteq> None then give_back Bus_clk h else Some h);
     lcd_free_info h }"

definition lcd_stop_clk :: "lcd_env \<Rightarrow> lcd_res list \<Rightarrow> lcd_res list option" where
  "lcd_stop_clk e h = do {
     h \<leftarrow> give_back Clocks_on h;
     h \<leftarrow> give_back Lcdc_clk h;
     lcd_put_bus_clk e h }"

definition lcd_release_intmem :: "lcd_env \<Rightarrow> lcd_res list \<Rightarrow> lcd_res list option" where
  "lcd_release_intmem e h = do {
     h \<leftarrow> (if e_map e \<noteq> None then give_back Int_mem h else Some h);
     lcd_stop_clk e h }"

definition lcd_free_fb :: "lcd_env \<Rightarrow> lcd_res list \<Rightarrow> lcd_res list option" where
  "lcd_free_fb e h = do {
     h \<leftarrow> give_back (if e_map e \<noteq> None then Screen_map else Video_mem) h;
     lcd_release_intmem e h }"

definition lcd_release_mem :: "lcd_env \<Rightarrow> lcd_res list \<Rightarrow> lcd_res list option" where
  "lcd_release_mem e h = do { h \<leftarrow> give_back Reg_region h; lcd_free_fb e h }"

definition exit_backlight :: "lcdfb \<Rightarrow> lcd_res list \<Rightarrow> lcd_res list option" where
  "exit_backlight s h = (if backlight_dev s \<noteq> None then give_back Backlight h else Some h)"

definition lcd_unmap_mmio :: "lcd_env \<Rightarrow> lcdfb \<Rightarrow> lcd_res list \<Rightarrow> lcd_res list option" where
  "lcd_unmap_mmio e s h = do {
     h \<leftarrow> exit_backlight s h;
     h \<leftarrow> give_back Reg_map h;
     lcd_release_mem e h }"

definition lcd_unregister_irqs :: "lcd_env \<Rightarrow> lcdfb \<Rightarrow> lcd_res list \<Rightarrow> lcd_res list option" where
  "lcd_unregister_irqs e s h = do { h \<leftarrow> give_back Irq h; lcd_unmap_mmio e s h }"

definition lcd_free_cmap :: "lcd_env \<Rightarrow> lcdfb \<Rightarrow> lcd_res list \<Rightarrow> lcd_res list option" where
  "lcd_free_cmap e s h = do { h \<leftarrow> give_back Color_map h; lcd_unregister_irqs e s h }"

section \<open>The probe\<close>

text \<open>An error: its number, what is held after the path from a label, and the state.\<close>

definition lcd_fail :: "int \<Rightarrow> lcdfb \<Rightarrow> lcd_res list option \<Rightarrow> (int \<times> lcd_res list \<times> lcdfb) option" where
  "lcd_fail ret s h = map_option (\<lambda>h. (ret, h, s)) h"

definition start_clock :: "lcd_res list \<Rightarrow> lcd_res list" where
  "start_clock h = h @ [Clocks_on]"

text \<open>The memory for the picture; \<open>Inl\<close> is the end of the probe.\<close>

definition lcd_video_memory ::
  "lcd_env \<Rightarrow> int \<Rightarrow> lcdfb \<Rightarrow> lcd_res list \<Rightarrow> ((int \<times> lcd_res list \<times> lcdfb) option) + (int \<times> lcd_res list \<times> lcdfb)" where
  "lcd_video_memory e ret s h =
     (case e_map e of
        Some (a, b) \<Rightarrow>
          (let s = s\<lparr>fix_smem_start := a, fix_smem_len := b - a + 1\<rparr> in
           if \<not> e_map_region e then Inl (lcd_fail (- 16) s (lcd_stop_clk e h))
           else let h = h @ [Int_mem] in
           if \<not> e_map_io e then Inl (lcd_fail ret s (lcd_release_intmem e h))
           else Inr (ret, h @ [Screen_map], s))
      | None \<Rightarrow>
          (let (ret, s) = atmel_lcdfb_alloc_video_memory (e_video_mem e) s in
           if ret < 0 then Inl (lcd_fail ret s (lcd_stop_clk e h))
           else Inr (ret, h @ [Video_mem], s)))"

definition lcd_go :: "lcdc_consts \<Rightarrow> cmap_tables \<Rightarrow> lcd_env \<Rightarrow> lcdfb \<Rightarrow> lcd_res list \<Rightarrow> (int \<times> lcd_res list \<times> lcdfb) option" where
  "lcd_go k tabs e s h =
     (let ret = e_request_irq e in
      if ret \<noteq> 0 then lcd_fail ret s (lcd_unmap_mmio e s h)
      else let h = h @ [Irq] in
      case fb_alloc_cmap tabs (e_cmap_mem e) 256 False no_cmap of
        None \<Rightarrow> None
      | Some (ret, _) \<Rightarrow>
          if ret < 0 then lcd_fail ret s (lcd_unregister_irqs e s h)
          else let h = h @ [Color_map] in
          (case atmel_lcdfb_check_var k (e_rate e) (fb_mode s) of
             None \<Rightarrow> None
           | Some (_, var) \<Rightarrow>
               (let (ret, s) = e_set_var e (s\<lparr>fb_mode := var\<rparr>) in
                if ret \<noteq> 0 then lcd_fail ret s (lcd_free_cmap e s h)
                else let ret = e_register e in
                if ret < 0 then lcd_fail ret s (lcd_free_cmap e s h)
                else Some (0, h @ [Framebuffer], s))))"

definition lcd_registers ::
  "lcdc_consts \<Rightarrow> lcdc_hw \<Rightarrow> cmap_tables \<Rightarrow> lcd_env \<Rightarrow> int \<Rightarrow> lcdfb \<Rightarrow> lcd_res list \<Rightarrow> (int \<times> lcd_res list \<times> lcdfb) option" where
  "lcd_registers k hw tabs e ret s h =
     (if \<not> e_reg_region e then lcd_fail (- 16) s (lcd_free_fb e h)
      else let h = h @ [Reg_region] in
      if \<not> e_reg_map e then lcd_fail ret s (lcd_release_mem e h)
      else let h = h @ [Reg_map] in
      case init_contrast k hw (e_backlight e) s of
        None \<Rightarrow> None
      | Some s \<Rightarrow> lcd_go k tabs e s (if backlight_dev s \<noteq> None then h @ [Backlight] else h))"

definition atmel_lcdfb_probe ::
  "lcdc_consts \<Rightarrow> lcdc_hw \<Rightarrow> cmap_tables \<Rightarrow> lcd_env \<Rightarrow> lcdfb \<Rightarrow> (int \<times> lcd_res list \<times> lcdfb) option" where
  "atmel_lcdfb_probe k hw tabs e s =
     (if \<not> e_info e then Some (- 12, [], s)
      else let h = [Info]; s = s\<lparr>backlight_dev := None\<rparr> in
      if \<not> e_platform e then lcd_fail (- 12) s (lcd_free_info h)
      else let s = s\<lparr>fix_visual := TRUECOLOR, fix_smem_start := 0, fix_smem_len := 0, fix_line_length := 0\<rparr> in
      if (case e_bus_clk e of Some r \<Rightarrow> r < 0 | None \<Rightarrow> False) then lcd_fail (the (e_bus_clk e)) s (lcd_free_info h)
      else let h = (if e_bus_clk e \<noteq> None then h @ [Bus_clk] else h) in
      if e_lcdc_clk e < 0 then lcd_fail (e_lcdc_clk e) s (lcd_put_bus_clk e h)
      else let h = start_clock (h @ [Lcdc_clk]); (ret, var) = e_mode e; s = s\<lparr>fb_mode := var\<rparr> in
      if ret = 0 then lcd_fail ret s (lcd_stop_clk e h)
      else if \<not> e_regs e then lcd_fail (- 6) s (lcd_stop_clk e h)
      else if e_irq e < 0 then lcd_fail (e_irq e) s (lcd_stop_clk e h)
      else case lcd_video_memory e ret s h of
        Inl r \<Rightarrow> r
      | Inr (ret, h, s) \<Rightarrow> lcd_registers k hw tabs e ret s h)"

section \<open>The removal\<close>

definition atmel_lcdfb_remove :: "lcd_env \<Rightarrow> lcdfb \<Rightarrow> lcd_res list \<Rightarrow> lcd_res list option" where
  "atmel_lcdfb_remove e s h = do {
     h \<leftarrow> exit_backlight s h;
     h \<leftarrow> give_back Framebuffer h;
     h \<leftarrow> give_back Clocks_on h;
     h \<leftarrow> give_back Lcdc_clk h;
     h \<leftarrow> (if e_bus_clk e \<noteq> None then give_back Bus_clk h else Some h);
     h \<leftarrow> give_back Color_map h;
     h \<leftarrow> give_back Irq h;
     h \<leftarrow> give_back Reg_map h;
     h \<leftarrow> give_back Reg_region h;
     h \<leftarrow> (if e_map e \<noteq> None then do { h \<leftarrow> give_back Screen_map h; give_back Int_mem h } else give_back Video_mem h);
     give_back Info h }"

end
