(* ===== verification/Atmel_Lcdfb_Probe_Props.thy ===== *)
theory Atmel_Lcdfb_Probe_Props
  imports Atmel_Lcdfb_Par_Props Atmel_Lcdfb_Probe
begin

text \<open>
  The probe of the LCD controller: whatever fails, nothing is lost; but a failure can be reported as success.
\<close>

lemma lcd_cmap_returns:
  assumes "tables_ok tabs"
  obtains r c where "fb_alloc_cmap tabs mem 256 False no_cmap = Some (r, c)" "r = 0 \<or> r < 0"
  using alloc_cmap_result [OF assms, of 256 no_cmap mem False] by (auto simp: no_cmap_def split: if_splits)

lemma check_var_returns:
  assumes "pixclock var \<noteq> 0"
  obtains r var' where "atmel_lcdfb_check_var k rate var = Some (r, var')"
  using assms by (cases "1000000000 div pixclock var * bits_per_pixel var div 8 > rate div 1000";
      cases "check_colors (check_timings k (check_layout var))")
    (auto simp: atmel_lcdfb_check_var_def picos_khz_def)

lemmas lcd_labels = lcd_free_info_def lcd_put_bus_clk_def lcd_stop_clk_def lcd_release_intmem_def lcd_free_fb_def
  lcd_release_mem_def exit_backlight_def lcd_unmap_mmio_def lcd_unregister_irqs_def lcd_free_cmap_def give_back_def
  lcd_fail_def

text \<open>What is held after each part, in the order of the probe.\<close>

definition held_clocks :: "lcd_env \<Rightarrow> lcd_res list" where
  "held_clocks e = (if e_bus_clk e = None then [Info, Lcdc_clk, Clocks_on] else [Info, Bus_clk, Lcdc_clk, Clocks_on])"

definition held_memory :: "lcd_env \<Rightarrow> lcd_res list" where
  "held_memory e = held_clocks e @ (if e_map e = None then [Video_mem] else [Int_mem, Screen_map])"

definition held_registers :: "lcd_env \<Rightarrow> lcdfb \<Rightarrow> lcd_res list" where
  "held_registers e s = held_memory e @ [Reg_region, Reg_map] @ (if backlight_dev s = None then [] else [Backlight])"

text \<open>The end of a probe: everything given back, or success with all that the removal gives back.\<close>

definition probe_end :: "lcd_env \<Rightarrow> (int \<times> lcd_res list \<times> lcdfb) option \<Rightarrow> bool" where
  "probe_end e x \<longleftrightarrow> (\<exists>ret h s. x = Some (ret, h, s) \<and> (h = [] \<or> ret = 0 \<and> atmel_lcdfb_remove e s h = Some []))"

lemma probe_end_fail: "probe_end e (lcd_fail ret s (Some []))"
  by (simp add: probe_end_def lcd_fail_def)

lemma labels_empty:
  "lcd_stop_clk e (held_clocks e) = Some []"
  "e_map e \<noteq> None \<Longrightarrow> lcd_release_intmem e (held_clocks e @ [Int_mem]) = Some []"
  "lcd_free_fb e (held_memory e) = Some []"
  "lcd_release_mem e (held_memory e @ [Reg_region]) = Some []"
  by (auto simp: held_clocks_def held_memory_def lcd_labels)

lemma labels_empty_registers:
  "lcd_unmap_mmio e s (held_registers e s) = Some []"
  "lcd_unregister_irqs e s (held_registers e s @ [Irq]) = Some []"
  "lcd_free_cmap e s (held_registers e s @ [Irq, Color_map]) = Some []"
  "atmel_lcdfb_remove e s (held_registers e s @ [Irq, Color_map, Framebuffer]) = Some []"
  by (auto simp: held_clocks_def held_memory_def held_registers_def lcd_labels atmel_lcdfb_remove_def)

lemma lcd_go_end:
  assumes "tables_ok tabs" "pixclock (fb_mode s) \<noteq> 0" "\<And>s. backlight_dev (snd (e_set_var e s)) = backlight_dev s"
  shows "probe_end e (lcd_go k tabs e s (held_registers e s))"
proof -
  obtain r c where c: "fb_alloc_cmap tabs (e_cmap_mem e) 256 False no_cmap = Some (r, c)" "r = 0 \<or> r < 0"
    using lcd_cmap_returns [OF assms(1)] .
  obtain q var where q: "atmel_lcdfb_check_var k (e_rate e) (fb_mode s) = Some (q, var)"
    using check_var_returns [OF assms(2)] .
  obtain w s' where s': "e_set_var e (s\<lparr>fb_mode := var\<rparr>) = (w, s')" by (meson surj_pair)
  have b: "backlight_dev s' = backlight_dev s" using assms(3) [of "s\<lparr>fb_mode := var\<rparr>"] by (simp add: s')
  then have h: "held_registers e s = held_registers e s'" by (simp add: held_registers_def)
  have "probe_end e (Some (0, held_registers e s' @ [Irq, Color_map, Framebuffer], s'))"
    using labels_empty_registers(4) [of e s'] by (simp add: probe_end_def)
  then show ?thesis
    using labels_empty_registers [of e s] labels_empty_registers(3) [of e s'] probe_end_fail [of e]
    by (simp add: lcd_go_def c(1) q s' Let_def flip: h)
qed

lemma init_contrast_returns:
  assumes "e_backlight e \<noteq> None \<or> \<not> lcdcon_is_backlight s"
  shows "\<exists>s'. init_contrast k hw (e_backlight e) s = Some s' \<and> fb_mode s' = fb_mode s"
  using assms by (cases "lcdcon_is_backlight s"; cases "e_backlight e")
    (auto simp: init_contrast_def init_backlight_def atmel_bl_get_brightness_def lcdc_readl_def lcdc_writel_def Let_def)

lemma lcd_registers_end:
  assumes "tables_ok tabs" "pixclock (fb_mode s) \<noteq> 0" "\<And>s. backlight_dev (snd (e_set_var e s)) = backlight_dev s"
    "e_backlight e \<noteq> None \<or> \<not> lcdcon_is_backlight s"
  shows "probe_end e (lcd_registers k hw tabs e ret s (held_memory e))"
proof -
  obtain s' where s': "init_contrast k hw (e_backlight e) s = Some s'" "fb_mode s' = fb_mode s"
    using init_contrast_returns [OF assms(4)] by blast
  have h: "(if backlight_dev s' \<noteq> None then (held_memory e @ [Reg_region, Reg_map]) @ [Backlight] else held_memory e @ [Reg_region, Reg_map]) =
      held_registers e s'" by (simp add: held_registers_def)
  have "probe_end e (lcd_go k tabs e s' (held_registers e s'))" using assms s'(2) by (intro lcd_go_end) simp_all
  then show ?thesis using probe_end_fail [of e] labels_empty [of e]
    by (simp add: lcd_registers_def Let_def s'(1) h [simplified])
qed

text \<open>C29: Whatever step of the probe fails, everything that was taken is given back, each thing once; a probe that
  keeps what it has taken reports success, and the removal then gives back all of it. Registering the backlight
  works where the board wants it, the mode that was found has a pixel clock, and setting it leaves the
  backlight alone.\<close>

theorem lcdfb_probe_gives_back:
  assumes "tables_ok tabs" "pixclock (snd (e_mode e)) \<noteq> 0" "\<forall>s. backlight_dev (snd (e_set_var e s)) = backlight_dev s"
    "e_backlight e \<noteq> None \<or> \<not> lcdcon_is_backlight s"
  shows "\<exists>ret h s'. atmel_lcdfb_probe k hw tabs e s = Some (ret, h, s') \<and>
    (h = [] \<or> ret = 0 \<and> atmel_lcdfb_remove e s' h = Some [])"
proof -
  obtain ret var where m: "e_mode e = (ret, var)" by (meson surj_pair)
  have early: "probe_end e (lcd_fail r x (lcd_free_info [Info]))"
    "e_bus_clk e = None \<Longrightarrow> probe_end e (lcd_fail r x (lcd_put_bus_clk e [Info]))"
    "e_bus_clk e \<noteq> None \<Longrightarrow> probe_end e (lcd_fail r x (lcd_put_bus_clk e [Info, Bus_clk]))" for r x
    using probe_end_fail [of e] by (simp_all add: lcd_labels)
  have clocks: "start_clock ((if e_bus_clk e \<noteq> None then [Info] @ [Bus_clk] else [Info]) @ [Lcdc_clk]) = held_clocks e"
    by (simp add: start_clock_def held_clocks_def)
  have mem: "case lcd_video_memory e r x (held_clocks e) of Inl y \<Rightarrow> probe_end e y | Inr (r', h, x') \<Rightarrow>
      h = held_memory e \<and> fb_mode x' = fb_mode x \<and> lcdcon_is_backlight x' = lcdcon_is_backlight x" for r x
    using labels_empty [of e] probe_end_fail [of e]
    by (auto simp: lcd_video_memory_def held_memory_def atmel_lcdfb_alloc_video_memory_def Let_def split: option.split)
  have rest: "probe_end e (case lcd_video_memory e r x (held_clocks e) of Inl y \<Rightarrow> y | Inr (r', h, x') \<Rightarrow> lcd_registers k hw tabs e r' x' h)"
    if "fb_mode x = var" "lcdcon_is_backlight x = lcdcon_is_backlight s" for r x
    using mem [where r = r and x = x] that assms m
    by (auto split: sum.splits prod.splits intro!: lcd_registers_end)
  have stop: "probe_end e (lcd_fail r x (lcd_stop_clk e (held_clocks e)))" for r x
    unfolding labels_empty(1) by (rule probe_end_fail)
  have nil: "probe_end e (Some (- 12, [], s))" by (simp add: probe_end_def)
  have "probe_end e (atmel_lcdfb_probe k hw tabs e s)"
    unfolding atmel_lcdfb_probe_def Let_def m prod.case clocks
    using early rest stop nil by simp
  then show ?thesis by (simp add: probe_end_def)
qed

text \<open>With the clocks there, a probe that finds no mode, or that cannot map the registers after it has allocated the
  memory for the picture, reports success although it holds nothing: the number of the error is not set.\<close>

theorem lcdfb_probe_false_success:
  assumes "e_info e" "e_platform e" "e_bus_clk e = None \<or> 0 \<le> the (e_bus_clk e)" "0 \<le> e_lcdc_clk e"
    and "fst (e_mode e) = 0 \<or> e_regs e \<and> 0 \<le> e_irq e \<and> e_map e = None \<and> e_video_mem e \<noteq> None \<and>
      e_reg_region e \<and> \<not> e_reg_map e"
  shows "\<exists>s'. atmel_lcdfb_probe k hw tabs e s = Some (0, [], s')"
proof -
  obtain ret var where m: "e_mode e = (ret, var)" by (meson surj_pair)
  have clocks: "start_clock ((if e_bus_clk e \<noteq> None then [Info] @ [Bus_clk] else [Info]) @ [Lcdc_clk]) = held_clocks e"
    by (simp add: start_clock_def held_clocks_def)
  have bus: "\<not> (case e_bus_clk e of Some r \<Rightarrow> r < 0 | None \<Rightarrow> False)" using assms(3) by (auto split: option.split)
  show ?thesis
  proof (cases "ret = 0")
    case True
    then show ?thesis
      unfolding atmel_lcdfb_probe_def Let_def m prod.case clocks using assms(1,2,4) bus
      by (simp add: labels_empty lcd_fail_def)
  next
    case False
    then have a: "e_regs e" "0 \<le> e_irq e" "e_map e = None" "e_reg_region e" "\<not> e_reg_map e" "e_video_mem e \<noteq> None"
      using assms(5) m by simp_all
    have v: "\<exists>x'. lcd_video_memory e ret x (held_clocks e) = Inr (0, held_memory e, x')" for x
      using a(3,6) by (auto simp: lcd_video_memory_def atmel_lcdfb_alloc_video_memory_def held_memory_def Let_def)
    have r: "lcd_registers k hw tabs e 0 x (held_memory e) = Some (0, [], x)" for x
      using a(4,5) labels_empty(4) [of e] by (simp add: lcd_registers_def lcd_fail_def Let_def)
    have "\<exists>s'. (case lcd_video_memory e ret x (held_clocks e) of Inl y \<Rightarrow> y | Inr (r', h, x') \<Rightarrow> lcd_registers k hw tabs e r' x' h) = Some (0, [], s')" for x
      using v [of x] r by auto
    then show ?thesis
      unfolding atmel_lcdfb_probe_def Let_def m prod.case clocks using assms(1,2,4) bus False a(1,2) by simp
  qed
qed

definition lcd_wit_env :: lcd_env where
  "lcd_wit_env = \<lparr>e_info = True, e_platform = True, e_bus_clk = Some 0, e_lcdc_clk = 0, e_rate = 100000000, e_mode = (1, lcd_wit_mode),
     e_regs = True, e_irq = 1, e_map = None, e_map_region = True, e_map_io = True, e_video_mem = Some 0x10000000,
     e_reg_region = True, e_reg_map = False, e_backlight = None, e_request_irq = 0, e_cmap_mem = (\<lambda>_. None),
     e_set_var = (\<lambda>s. (0, s)), e_register = 0\<rparr>"

lemma lcdfb_probe_false_success_witness:
  "\<exists>s'. atmel_lcdfb_probe undefined undefined default_tables lcd_wit_env lcd_wit_state = Some (0, [], s')"
  using lcdfb_probe_false_success [of lcd_wit_env undefined undefined default_tables lcd_wit_state]
  by (simp add: lcd_wit_env_def)

lemma lcdfb_probe_gives_back_witness:
  "\<exists>ret h s'. atmel_lcdfb_probe undefined undefined default_tables (lcd_wit_env\<lparr>e_reg_map := True\<rparr>) lcd_wit_state = Some (ret, h, s') \<and>
     (h = [] \<or> ret = 0)"
  using lcdfb_probe_gives_back [OF default_tables_ok, of "lcd_wit_env\<lparr>e_reg_map := True\<rparr>" lcd_wit_state undefined undefined]
  by (auto simp: lcd_wit_env_def lcd_wit_mode_def lcd_wit_state_def)

end
