(* ===== verification/Fb_Mode.thy ===== *)
theory Fb_Mode
  imports Atmel_Lcdfb
begin

text \<open>
  \<open>drivers/video/modedb.c\<close>, modes: the tables of modes, conversions between a mode and what a program asks the
  driver for, and lists of modes.

  The constants of \<open>linux/fb.h\<close>, which is not part of the repository, are a parameter (\<open>fb_consts\<close>). A division
  by zero is \<open>None\<close>. A list of modes is the list of their contents, in the order of the links.
\<close>

record fb_consts =
  fc_NONINTERLACED :: u32
  fc_INTERLACED :: u32
  fc_DOUBLE :: u32
  fc_VMODE_MASK :: u32
  fc_HOR_HIGH_ACT :: u32
  fc_VERT_HIGH_ACT :: u32
  fc_ACTIVATE_TEST :: u32
  fc_IS_VESA :: u32
  fc_IS_FIRST :: u32
  fc_IS_FROM_VAR :: u32
  fc_1ST_DETAIL :: u32

record fb_videomode =
  m_name :: "string option"
  m_refresh :: u32
  m_xres :: u32
  m_yres :: u32
  m_pixclock :: u32
  m_left_margin :: u32
  m_right_margin :: u32
  m_upper_margin :: u32
  m_lower_margin :: u32
  m_hsync_len :: u32
  m_vsync_len :: u32
  m_sync :: u32
  m_vmode :: u32
  m_flag :: u32

text \<open>The fields of \<open>fb_var_screeninfo\<close> that the LCD driver does not look at.\<close>

record fb_user_var = fb_var +
  v_activate :: u32
  v_vmode :: u32

record fb_monspecs =
  sp_vfmin :: u32
  sp_vfmax :: u32
  sp_hfmin :: u32
  sp_hfmax :: u32
  sp_dclkmax :: u32
  sp_misc :: u32
  sp_max_x :: u8
  sp_max_y :: u8

section \<open>The tables\<close>

definition mode_row ::
  "u32 \<Rightarrow> u32 \<Rightarrow> u32 \<Rightarrow> u32 \<Rightarrow> u32 \<Rightarrow> u32 \<Rightarrow> u32 \<Rightarrow> u32 \<Rightarrow> u32 \<Rightarrow> u32 \<Rightarrow> u32 \<Rightarrow> u32 \<Rightarrow> u32 \<Rightarrow> fb_videomode" where
  "mode_row flag refresh x y clock left right upper lower hsync vsync sync vmode =
     \<lparr>m_name = None, m_refresh = refresh, m_xres = x, m_yres = y, m_pixclock = clock, m_left_margin = left,
      m_right_margin = right, m_upper_margin = upper, m_lower_margin = lower, m_hsync_len = hsync,
      m_vsync_len = vsync, m_sync = sync, m_vmode = vmode, m_flag = flag\<rparr>"

definition modedb :: "fb_consts \<Rightarrow> fb_videomode list" where
  "modedb c =
     (let row = mode_row 0; n = fc_NONINTERLACED c; i = fc_INTERLACED c; d = fc_DOUBLE c;
          h = fc_HOR_HIGH_ACT c; v = fc_VERT_HIGH_ACT c; hv = h OR v in [
   row 70 640 400 39721 40 24 39 9 96 2 0 n,
   row 60 640 480 39721 40 24 32 11 96 2 0 n,
   row 56 800 600 27777 128 24 22 1 72 2 0 n,
   row 87 1024 768 22271 56 24 33 8 160 8 0 i,
   row 85 640 400 31746 96 32 41 1 64 3 v n,
   row 72 640 480 31746 144 40 30 8 40 3 0 n,
   row 75 640 480 31746 120 16 16 1 64 3 0 n,
   row 60 800 600 25000 88 40 23 1 128 4 hv n,
   row 85 640 480 27777 80 56 25 1 56 3 0 n,
   row 89 1152 864 15384 96 16 110 1 216 10 0 i,
   row 72 800 600 20000 64 56 23 37 120 6 hv n,
   row 60 1024 768 15384 168 8 29 3 144 6 0 n,
   row 100 640 480 21834 96 32 36 8 96 6 0 n,
   row 60 1152 864 11123 208 64 16 4 256 8 0 n,
   row 85 800 600 16460 160 64 36 16 64 5 0 n,
   row 70 1024 768 13333 144 24 29 3 136 6 0 n,
   row 87 1280 1024 12500 56 16 128 1 216 12 0 i,
   row 100 800 600 14357 160 64 30 4 64 6 0 n,
   row 76 1024 768 11764 208 8 36 16 120 3 0 n,
   row 70 1152 864 10869 106 56 20 1 160 10 0 n,
   row 61 1280 1024 9090 200 48 26 1 184 3 0 n,
   row 60 1400 1050 9259 136 40 13 1 112 3 0 n,
   row 75 1400 1050 7190 120 56 23 10 112 13 hv n,
   row 60 1400 1050 9259 128 40 12 0 112 3 hv n,
   row 85 1024 768 10111 192 32 34 14 160 6 0 n,
   row 78 1152 864 9090 228 88 32 0 84 12 0 n,
   row 70 1280 1024 7905 224 32 28 8 160 8 0 n,
   row 60 1600 1200 6172 304 64 46 1 192 3 hv n,
   row 84 1152 864 7407 184 312 32 0 128 12 0 n,
   row 74 1280 1024 7407 256 32 34 3 144 3 0 n,
   row 100 1024 768 8658 192 32 21 3 192 10 0 n,
   row 76 1280 1024 7407 248 32 34 3 104 3 0 n,
   row 70 1600 1200 5291 304 64 46 1 192 3 0 n,
   row 100 1152 864 7264 224 32 17 2 128 19 0 n,
   row 85 1280 1024 6349 224 64 44 1 160 3 hv n,
   row 75 1600 1200 4938 304 64 46 1 192 3 hv n,
   row 60 1680 1050 6848 280 104 30 3 176 6 hv n,
   row 85 1600 1200 4545 272 16 37 4 192 3 hv n,
   row 100 1280 1024 5502 256 32 26 7 128 15 0 n,
   row 64 1800 1440 4347 304 96 46 1 192 3 hv n,
   row 70 1800 1440 4000 304 96 46 1 192 3 hv n,
   row 78 512 384 49603 48 16 16 1 64 3 0 n,
   row 85 512 384 45454 48 16 16 1 64 3 0 n,
   row 70 320 200 79440 16 16 20 4 48 1 0 d,
   row 60 320 240 79440 16 16 16 5 48 1 0 d,
   row 72 320 240 63492 16 16 16 4 48 2 0 d,
   row 56 400 300 55555 64 16 10 1 32 1 0 d,
   row 60 400 300 50000 48 16 11 1 64 2 0 d,
   row 72 400 300 40000 32 24 11 19 64 3 0 d,
   row 56 480 300 46176 80 16 10 1 40 1 0 d,
   row 60 480 300 41858 56 16 11 1 80 2 0 d,
   row 63 480 300 40000 56 16 11 1 80 2 0 d,
   row 72 480 300 33386 40 24 11 19 80 3 0 d,
   row 60 1920 1200 5177 128 336 1 38 208 3 hv n,
   row 60 1152 768 14047 158 26 29 3 136 6 hv n,
   row 60 1366 768 13806 120 10 14 3 32 5 0 n,
   row 60 1280 800 12048 200 64 24 1 136 3 0 n])"

definition vesa_modes :: "fb_consts \<Rightarrow> fb_videomode list" where
  "vesa_modes c =
     (let row = mode_row (fc_IS_VESA c); n = fc_NONINTERLACED c; i = fc_INTERLACED c; d = fc_DOUBLE c;
          h = fc_HOR_HIGH_ACT c; v = fc_VERT_HIGH_ACT c; hv = h OR v in [
   row 85 640 350 31746 96 32 60 32 64 3 h n,
   row 85 640 400 31746 96 32 41 1 64 3 v n,
   row 85 721 400 28169 108 36 42 1 72 3 v n,
   row 60 640 480 39682 48 16 33 10 96 2 0 n,
   row 72 640 480 31746 128 24 29 9 40 2 0 n,
   row 75 640 480 31746 120 16 16 1 64 3 0 n,
   row 85 640 480 27777 80 56 25 1 56 3 0 n,
   row 56 800 600 27777 128 24 22 1 72 2 hv n,
   row 60 800 600 25000 88 40 23 1 128 4 hv n,
   row 72 800 600 20000 64 56 23 37 120 6 hv n,
   row 75 800 600 20202 160 16 21 1 80 3 hv n,
   row 85 800 600 17761 152 32 27 1 64 3 hv n,
   row 43 1024 768 22271 56 8 41 0 176 8 hv i,
   row 60 1024 768 15384 160 24 29 3 136 6 0 n,
   row 70 1024 768 13333 144 24 29 3 136 6 0 n,
   row 75 1024 768 12690 176 16 28 1 96 3 hv n,
   row 85 1024 768 10582 208 48 36 1 96 3 hv n,
   row 75 1153 864 9259 256 64 32 1 128 3 hv n,
   row 60 1280 960 9259 312 96 36 1 112 3 hv n,
   row 85 1280 960 6734 224 64 47 1 160 3 hv n,
   row 60 1280 1024 9259 248 48 38 1 112 3 hv n,
   row 75 1280 1024 7407 248 16 38 1 144 3 hv n,
   row 85 1280 1024 6349 224 64 44 1 160 3 hv n,
   row 60 1600 1200 6172 304 64 46 1 192 3 hv n,
   row 65 1600 1200 5698 304 64 46 1 192 3 hv n,
   row 70 1600 1200 5291 304 64 46 1 192 3 hv n,
   row 75 1600 1200 4938 304 64 46 1 192 3 hv n,
   row 85 1600 1200 4357 304 64 46 1 192 3 hv n,
   row 60 1792 1344 4882 328 128 46 1 200 3 v n,
   row 75 1792 1344 3831 352 96 69 1 216 3 v n,
   row 60 1856 1392 4580 352 96 43 1 224 3 v n,
   row 75 1856 1392 3472 352 128 104 1 224 3 v n,
   row 60 1920 1440 4273 344 128 56 1 200 3 v n,
   row 75 1920 1440 3367 352 144 56 1 224 3 v n])"

section \<open>Conversions\<close>

definition fb_var_to_videomode :: "fb_consts \<Rightarrow> fb_user_var \<Rightarrow> fb_videomode option" where
  "fb_var_to_videomode c var =
     (let mode = \<lparr>m_name = None, m_refresh = 0, m_xres = xres var, m_yres = yres var, m_pixclock = pixclock var,
            m_left_margin = left_margin var, m_right_margin = right_margin var, m_upper_margin = upper_margin var,
            m_lower_margin = lower_margin var, m_hsync_len = hsync_len var, m_vsync_len = vsync_len var,
            m_sync = v_sync var, m_vmode = v_vmode var AND fc_VMODE_MASK c, m_flag = fc_IS_FROM_VAR c\<rparr>
      in if pixclock var = 0 then Some mode
      else do {
        khz \<leftarrow> picos_khz (pixclock var);
        let clock = khz * 1000;
        let htotal = xres var + right_margin var + hsync_len var + left_margin var;
        let vtotal = yres var + lower_margin var + vsync_len var + upper_margin var;
        let vtotal = (if v_vmode var AND fc_INTERLACED c \<noteq> 0 then vtotal div 2 else vtotal);
        let vtotal = (if v_vmode var AND fc_DOUBLE c \<noteq> 0 then vtotal * 2 else vtotal);
        hfreq \<leftarrow> (if htotal = 0 then None else Some (clock div htotal));
        refresh \<leftarrow> (if vtotal = 0 then None else Some (hfreq div vtotal));
        Some (mode\<lparr>m_refresh := refresh\<rparr>) })"

definition fb_videomode_to_var :: "fb_consts \<Rightarrow> fb_user_var \<Rightarrow> fb_videomode \<Rightarrow> fb_user_var" where
  "fb_videomode_to_var c var mode =
     var\<lparr>xres := m_xres mode, yres := m_yres mode, xres_virtual := m_xres mode, yres_virtual := m_yres mode,
         xoffset := 0, yoffset := 0, pixclock := m_pixclock mode, left_margin := m_left_margin mode,
         right_margin := m_right_margin mode, upper_margin := m_upper_margin mode, lower_margin := m_lower_margin mode,
         hsync_len := m_hsync_len mode, vsync_len := m_vsync_len mode, v_sync := m_sync mode,
         v_vmode := m_vmode mode AND fc_VMODE_MASK c\<rparr>"

definition fb_mode_is_equal :: "fb_videomode \<Rightarrow> fb_videomode \<Rightarrow> bool" where
  "fb_mode_is_equal a b \<longleftrightarrow>
     m_xres a = m_xres b \<and> m_yres a = m_yres b \<and> m_pixclock a = m_pixclock b \<and> m_hsync_len a = m_hsync_len b \<and>
     m_vsync_len a = m_vsync_len b \<and> m_left_margin a = m_left_margin b \<and> m_right_margin a = m_right_margin b \<and>
     m_upper_margin a = m_upper_margin b \<and> m_lower_margin a = m_lower_margin b \<and> m_sync a = m_sync b \<and>
     m_vmode a = m_vmode b"

section \<open>Searching lists\<close>

text \<open>\<open>abs\<close> of the kernel, which takes its argument for an \<open>int\<close>.\<close>

definition abs_int :: "u32 \<Rightarrow> u32" where
  "abs_int x = (if sint x < 0 then - x else x)"

definition best_step :: "fb_user_var \<Rightarrow> u32 \<times> fb_videomode option \<Rightarrow> fb_videomode \<Rightarrow> u32 \<times> fb_videomode option" where
  "best_step var = (\<lambda>(diff, best) mode.
     if m_xres mode \<ge> xres var \<and> m_yres mode \<ge> yres var then
       (let d = (m_xres mode - xres var) + (m_yres mode - yres var) in
        if diff > d then (d, Some mode)
        else if diff = d then (case best of
            None \<Rightarrow> (diff, best)
          | Some b \<Rightarrow> if m_refresh mode > m_refresh b then (diff, Some mode) else (diff, best))
        else (diff, best))
     else (diff, best))"

definition fb_find_best_mode :: "fb_user_var \<Rightarrow> fb_videomode list \<Rightarrow> fb_videomode option" where
  "fb_find_best_mode var head = snd (foldl (best_step var) (- 1, None) head)"

definition nearest_step ::
  "fb_videomode \<Rightarrow> u32 \<times> u32 \<times> fb_videomode option \<Rightarrow> fb_videomode \<Rightarrow> u32 \<times> u32 \<times> fb_videomode option" where
  "nearest_step mode = (\<lambda>(diff, diff_refresh, best) cmode.
     (let d = abs_int (m_xres cmode - m_xres mode) + abs_int (m_yres cmode - m_yres mode) in
      if diff > d then (d, diff_refresh, Some cmode)
      else if diff = d then
        (let d = abs_int (m_refresh cmode - m_refresh mode) in
         if diff_refresh > d then (diff, d, Some cmode) else (diff, diff_refresh, best))
      else (diff, diff_refresh, best)))"

definition fb_find_nearest_mode :: "fb_videomode \<Rightarrow> fb_videomode list \<Rightarrow> fb_videomode option" where
  "fb_find_nearest_mode mode head = snd (snd (foldl (nearest_step mode) (- 1, - 1, None) head))"

text \<open>The outer option is a division by zero.\<close>

definition fb_match_mode :: "fb_consts \<Rightarrow> fb_user_var \<Rightarrow> fb_videomode list \<Rightarrow> fb_videomode option option" where
  "fb_match_mode c var head = map_option (\<lambda>mode. find (\<lambda>m. fb_mode_is_equal m mode) head) (fb_var_to_videomode c var)"

section \<open>Changing lists\<close>

text \<open>A new entry is put in front; \<open>mem\<close> is whether there is memory for it.\<close>

definition fb_add_videomode :: "bool \<Rightarrow> fb_videomode \<Rightarrow> fb_videomode list \<Rightarrow> int \<times> fb_videomode list" where
  "fb_add_videomode mem mode head =
     (if find (\<lambda>m. fb_mode_is_equal m mode) head = None
      then (if mem then (0, mode # head) else (- 12, head))
      else (0, head))"

definition fb_delete_videomode :: "fb_videomode \<Rightarrow> fb_videomode list \<Rightarrow> fb_videomode list" where
  "fb_delete_videomode mode head = filter (\<lambda>m. \<not> fb_mode_is_equal m mode) head"

definition fb_destroy_modelist :: "fb_videomode list \<Rightarrow> fb_videomode list" where
  "fb_destroy_modelist head = []"

text \<open>\<open>mem\<close> says for each entry whether there is memory.\<close>

fun add_modes :: "(bool \<times> fb_videomode) list \<Rightarrow> fb_videomode list \<Rightarrow> fb_videomode list" where
  "add_modes [] head = head"
| "add_modes ((mem, m) # ms) head =
     (case fb_add_videomode mem m head of (err, head) \<Rightarrow> if err \<noteq> 0 then head else add_modes ms head)"

definition fb_videomode_to_modelist :: "(nat \<Rightarrow> bool) \<Rightarrow> fb_videomode list \<Rightarrow> fb_videomode list" where
  "fb_videomode_to_modelist mem db = add_modes (zip (map mem [0..<length db]) db) []"

section \<open>The mode of a display\<close>

definition zero_field :: fb_bitfield where
  "zero_field = \<lparr>bf_offset = 0, bf_length = 0, bf_msb_right = 0\<rparr>"

definition zero_var :: fb_user_var where
  "zero_var = \<lparr>xres = 0, yres = 0, xres_virtual = 0, yres_virtual = 0, xoffset = 0, yoffset = 0, bits_per_pixel = 0,
     grayscale = 0, v_red = zero_field, v_green = zero_field, v_blue = zero_field, v_transp = zero_field, pixclock = 0,
     left_margin = 0, right_margin = 0, upper_margin = 0, lower_margin = 0, hsync_len = 0, vsync_len = 0, v_sync = 0,
     v_activate = 0, v_vmode = 0\<rparr>"

text \<open>\<open>None\<close> is a list that was never set up.\<close>

definition fb_find_best_display :: "fb_consts \<Rightarrow> fb_monspecs \<Rightarrow> fb_videomode list option \<Rightarrow> fb_videomode option" where
  "fb_find_best_display c specs head =
     (case head of
        None \<Rightarrow> None
      | Some [] \<Rightarrow> None
      | Some (m1 # ms) \<Rightarrow>
          (let md = find (\<lambda>m. m_flag m AND fc_IS_FIRST c \<noteq> 0) (m1 # ms) in
           if sp_misc specs AND fc_1ST_DETAIL c \<noteq> 0 then md
           else
             (let m = (if sp_max_x specs \<noteq> 0 \<and> sp_max_y specs \<noteq> 0
                       then fb_find_best_mode
                              (zero_var\<lparr>xres := ucast (sp_max_x specs) * 7200 div 254, yres := ucast (sp_max_y specs) * 7200 div 254\<rparr>)
                              (m1 # ms)
                       else None)
              in case m of
                   Some m \<Rightarrow> Some m
                 | None \<Rightarrow> (case md of Some md \<Rightarrow> Some md | None \<Rightarrow> Some m1))))"

end
