(* ===== verification/Fb_Cvt.thy ===== *)
theory Fb_Cvt
  imports Fb_Mode
begin

text \<open>
  \<open>drivers/video/fbcvt.c\<close>: timings of a mode by the VESA formulas. Numbers are 32-bit words that wrap around, as
  in the code; a division by zero and an index outside the table are \<open>None\<close>. What is only printed is left out.
\<close>

definition FLAG_REDUCED_BLANK :: u32 where "FLAG_REDUCED_BLANK = 1"
definition FLAG_MARGINS :: u32 where "FLAG_MARGINS = 2"
definition FLAG_INTERLACED :: u32 where "FLAG_INTERLACED = 4"

record fb_cvt_data =
  c_xres :: u32
  c_yres :: u32
  c_refresh :: u32
  c_f_refresh :: u32
  c_pixclock :: u32
  c_hperiod :: u32
  c_hblank :: u32
  c_hfreq :: u32
  c_htotal :: u32
  c_vtotal :: u32
  c_vsync :: u32
  c_hsync :: u32
  c_h_front_porch :: u32
  c_h_back_porch :: u32
  c_v_front_porch :: u32
  c_v_back_porch :: u32
  c_h_margin :: u32
  c_v_margin :: u32
  c_interlace :: u32
  c_aspect_ratio :: u32
  c_active_pixels :: u32
  c_flags :: u32
  c_status :: u32

definition zero_cvt :: fb_cvt_data where
  "zero_cvt = \<lparr>c_xres = 0, c_yres = 0, c_refresh = 0, c_f_refresh = 0, c_pixclock = 0, c_hperiod = 0, c_hblank = 0,
     c_hfreq = 0, c_htotal = 0, c_vtotal = 0, c_vsync = 0, c_hsync = 0, c_h_front_porch = 0, c_h_back_porch = 0,
     c_v_front_porch = 0, c_v_back_porch = 0, c_h_margin = 0, c_v_margin = 0, c_interlace = 0, c_aspect_ratio = 0,
     c_active_pixels = 0, c_flags = 0, c_status = 0\<rparr>"

definition udiv :: "u32 \<Rightarrow> u32 \<Rightarrow> u32 option" where
  "udiv a b = (if b = 0 then None else Some (a div b))"

definition reduced :: "fb_cvt_data \<Rightarrow> bool" where
  "reduced cvt \<longleftrightarrow> c_flags cvt AND FLAG_REDUCED_BLANK \<noteq> 0"

definition fb_cvt_vbi_tab :: "u32 list" where
  "fb_cvt_vbi_tab = [4, 5, 6, 7, 7, 8, 9, 10]"

definition fb_cvt_hperiod :: "fb_cvt_data \<Rightarrow> u32 option" where
  "fb_cvt_hperiod cvt = do {
     num \<leftarrow> udiv 1000000000 (c_f_refresh cvt);
     lines \<leftarrow> udiv (c_yres cvt) (c_interlace cvt);
     q \<leftarrow> (if reduced cvt then udiv (num - 460 * 1000) (2 * (lines + 2 * c_v_margin cvt))
          else udiv (num - 550 * 1000) (2 * (lines + c_v_margin cvt * 2 + 3 + c_interlace cvt div 2)));
     Some (2 * q) }"

definition fb_cvt_ideal_duty_cycle :: "fb_cvt_data \<Rightarrow> u32" where
  "fb_cvt_ideal_duty_cycle cvt =
     (let c_prime = (40 - 20) * 128 + 256 * 20; m_prime = 128 * 600
      in (1000 * c_prime - (m_prime * c_hperiod cvt) div 1000) div 256)"

definition fb_cvt_hblank :: "fb_cvt_data \<Rightarrow> u32 option" where
  "fb_cvt_hblank cvt = do {
     hblank \<leftarrow> (if reduced cvt then Some 160
       else
         (let duty = fb_cvt_ideal_duty_cycle cvt; active = c_active_pixels cvt in
          if duty < 20000 then Some ((active * 20000) div (100000 - 20000))
          else udiv (active * duty) (100000 - duty)));
     Some (hblank AND NOT (2 * 8 - 1)) }"

definition fb_cvt_hsync :: "fb_cvt_data \<Rightarrow> u32" where
  "fb_cvt_hsync cvt = (if reduced cvt then 32 else (8 * c_htotal cvt) div 100) AND NOT (8 - 1)"

definition fb_cvt_vbi_lines :: "fb_cvt_data \<Rightarrow> u32 option" where
  "fb_cvt_vbi_lines cvt = do {
     (vbi, least) \<leftarrow>
       (if reduced cvt then do {
          q \<leftarrow> udiv (1000 * 460) (c_hperiod cvt);
          Some (q + 1, 3 + c_vsync cvt + 6) }
        else do {
          q \<leftarrow> udiv (550 * 1000) (c_hperiod cvt);
          Some (q + 1 + 3, c_vsync cvt + 6 + 3) });
     Some (if vbi < least then least else vbi) }"

definition fb_cvt_vtotal :: "fb_cvt_data \<Rightarrow> u32 option" where
  "fb_cvt_vtotal cvt = do {
     lines \<leftarrow> udiv (c_yres cvt) (c_interlace cvt);
     vbi \<leftarrow> fb_cvt_vbi_lines cvt;
     Some ((lines + (2 * c_v_margin cvt + c_interlace cvt div 2 + vbi)) OR (c_interlace cvt div 2)) }"

definition fb_cvt_pixclock :: "fb_cvt_data \<Rightarrow> u32 option" where
  "fb_cvt_pixclock cvt = do {
     clock \<leftarrow> (if reduced cvt then Some ((c_f_refresh cvt * c_vtotal cvt * c_htotal cvt) div 1000)
              else udiv (c_htotal cvt * 1000000) (c_hperiod cvt));
     Some (clock div 250 * 250 * 1000) }"

definition fb_cvt_aspect_ratio :: "fb_cvt_data \<Rightarrow> u32 \<times> fb_cvt_data" where
  "fb_cvt_aspect_ratio cvt =
     (let x = c_xres cvt; y = c_yres cvt in
      if x = y * 4 div 3 \<and> y * 4 mod 3 = 0 then (0, cvt)
      else if x = y * 16 div 9 \<and> y * 16 mod 9 = 0 then (1, cvt)
      else if x = y * 16 div 10 \<and> y * 16 mod 10 = 0 then (2, cvt)
      else if x = y * 5 div 4 \<and> y * 5 mod 4 = 0 then (3, cvt)
      else if x = y * 15 div 9 \<and> y * 15 mod 9 = 0 then (4, cvt)
      else (7, cvt\<lparr>c_status := 1\<rparr>))"

definition fb_cvt_convert_to_mode :: "fb_consts \<Rightarrow> fb_cvt_data \<Rightarrow> fb_videomode \<Rightarrow> fb_videomode option" where
  "fb_cvt_convert_to_mode c cvt mode = do {
     picos \<leftarrow> picos_khz (c_pixclock cvt div 1000);
     let sync = m_sync mode AND NOT (fc_HOR_HIGH_ACT c OR fc_VERT_HIGH_ACT c);
     Some (mode\<lparr>m_refresh := c_f_refresh cvt, m_pixclock := picos, m_left_margin := c_h_back_porch cvt,
       m_right_margin := c_h_front_porch cvt, m_hsync_len := c_hsync cvt, m_upper_margin := c_v_back_porch cvt,
       m_lower_margin := c_v_front_porch cvt, m_vsync_len := c_vsync cvt,
       m_sync := sync OR (if reduced cvt then fc_HOR_HIGH_ACT c else fc_VERT_HIGH_ACT c)\<rparr>) }"

text \<open>The computations, in the order of the code.\<close>

definition cvt_begin :: "fb_consts \<Rightarrow> fb_videomode \<Rightarrow> bool \<Rightarrow> bool \<Rightarrow> fb_cvt_data" where
  "cvt_begin c mode margins rb =
     (let flags = (if margins then FLAG_MARGINS else 0);
          flags = (if rb then flags OR FLAG_REDUCED_BLANK else flags);
          flags = (if m_vmode mode AND fc_INTERLACED c \<noteq> 0 then flags OR FLAG_INTERLACED else flags)
      in zero_cvt\<lparr>c_flags := flags, c_xres := m_xres mode, c_yres := m_yres mode, c_refresh := m_refresh mode,
           c_f_refresh := m_refresh mode, c_interlace := 1\<rparr>)"

definition cvt_geometry :: "fb_cvt_data \<Rightarrow> fb_cvt_data option" where
  "cvt_geometry cvt = do {
     let cvt = (if c_refresh cvt \<in> {50, 60, 70, 85} then cvt else cvt\<lparr>c_status := 1\<rparr>);
     let cvt = cvt\<lparr>c_xres := c_xres cvt AND NOT (8 - 1)\<rparr>;
     let cvt = (if c_flags cvt AND FLAG_INTERLACED \<noteq> 0 then cvt\<lparr>c_interlace := 2, c_f_refresh := c_f_refresh cvt * 2\<rparr> else cvt);
     let cvt = (if reduced cvt \<and> c_refresh cvt \<noteq> 60 then cvt\<lparr>c_status := 1\<rparr> else cvt);
     lines \<leftarrow> udiv (c_yres cvt) (c_interlace cvt);
     let cvt = (if c_flags cvt AND FLAG_MARGINS \<noteq> 0
                then cvt\<lparr>c_h_margin := (c_xres cvt * 18 div 1000) AND NOT (8 - 1), c_v_margin := lines * 18 div 1000\<rparr> else cvt);
     let (aspect, cvt) = fb_cvt_aspect_ratio cvt;
     Some (cvt\<lparr>c_aspect_ratio := aspect, c_active_pixels := c_xres cvt + 2 * c_h_margin cvt\<rparr>) }"

definition cvt_timings :: "fb_cvt_data \<Rightarrow> fb_cvt_data option" where
  "cvt_timings cvt = do {
     hperiod \<leftarrow> fb_cvt_hperiod cvt;
     let cvt = cvt\<lparr>c_hperiod := hperiod\<rparr>;
     vsync \<leftarrow> (if unat (c_aspect_ratio cvt) < length fb_cvt_vbi_tab then Some (fb_cvt_vbi_tab ! unat (c_aspect_ratio cvt)) else None);
     let cvt = cvt\<lparr>c_vsync := vsync\<rparr>;
     vtotal \<leftarrow> fb_cvt_vtotal cvt;
     let cvt = cvt\<lparr>c_vtotal := vtotal\<rparr>;
     hblank \<leftarrow> fb_cvt_hblank cvt;
     let cvt = cvt\<lparr>c_hblank := hblank\<rparr>;
     let cvt = cvt\<lparr>c_htotal := c_active_pixels cvt + c_hblank cvt\<rparr>;
     let cvt = cvt\<lparr>c_hsync := fb_cvt_hsync cvt\<rparr>;
     pixclock \<leftarrow> fb_cvt_pixclock cvt;
     let cvt = cvt\<lparr>c_pixclock := pixclock\<rparr>;
     hfreq \<leftarrow> udiv (c_pixclock cvt) (c_htotal cvt);
     let cvt = cvt\<lparr>c_hfreq := hfreq\<rparr>;
     let cvt = cvt\<lparr>c_h_back_porch := c_hblank cvt div 2 + c_h_margin cvt\<rparr>;
     let cvt = cvt\<lparr>c_h_front_porch := c_hblank cvt - c_hsync cvt - c_h_back_porch cvt + 2 * c_h_margin cvt\<rparr>;
     let cvt = cvt\<lparr>c_v_back_porch := 3 + c_v_margin cvt\<rparr>;
     lines \<leftarrow> udiv (c_yres cvt) (c_interlace cvt);
     Some (cvt\<lparr>c_v_front_porch := c_vtotal cvt - lines - c_v_back_porch cvt - c_vsync cvt\<rparr>) }"

definition fb_find_mode_cvt :: "fb_consts \<Rightarrow> fb_videomode \<Rightarrow> bool \<Rightarrow> bool \<Rightarrow> (int \<times> fb_videomode) option" where
  "fb_find_mode_cvt c mode margins rb =
     (let cvt = cvt_begin c mode margins rb in
      if c_xres cvt = 0 \<or> c_yres cvt = 0 \<or> c_refresh cvt = 0 then Some (1, mode)
      else do {
        cvt \<leftarrow> cvt_geometry cvt;
        cvt \<leftarrow> cvt_timings cvt;
        mode \<leftarrow> fb_cvt_convert_to_mode c cvt mode;
        Some (0, mode) })"

end
