(* ===== verification/Fb_Modedb.thy ===== *)
theory Fb_Modedb
  imports Fb_Cvt
begin

text \<open>
  \<open>drivers/video/modedb.c\<close>, finding a mode: \<open>fb_find_mode\<close> with the syntax of its option.

  \<open>check\<close> is the driver's \<open>fb_check_var\<close>, if it has one: an error number and the parameters it changed, or
  \<open>None\<close> where it divides by zero. \<open>stack\<close> is what the memory of the local variable \<open>cvt_mode\<close> holds before
  it is used. Numbers of the option are read with wrap-around. Instead of the index of a mode the mode is kept.
\<close>

type_synonym mode_check = "fb_user_var \<Rightarrow> (int \<times> fb_user_var) option"

section \<open>Trying a mode\<close>

definition fb_try_mode ::
  "fb_consts \<Rightarrow> mode_check option \<Rightarrow> fb_user_var \<Rightarrow> fb_videomode \<Rightarrow> u32 \<Rightarrow> (int \<times> fb_user_var) option" where
  "fb_try_mode c check var mode bpp = do {
     let var = var\<lparr>xres := m_xres mode, yres := m_yres mode, xres_virtual := m_xres mode, yres_virtual := m_yres mode,
         xoffset := 0, yoffset := 0, bits_per_pixel := bpp, v_activate := v_activate var OR fc_ACTIVATE_TEST c,
         pixclock := m_pixclock mode, left_margin := m_left_margin mode, right_margin := m_right_margin mode,
         upper_margin := m_upper_margin mode, lower_margin := m_lower_margin mode, hsync_len := m_hsync_len mode,
         vsync_len := m_vsync_len mode, v_sync := m_sync mode, v_vmode := m_vmode mode\<rparr>;
     (err, var) \<leftarrow> (case check of None \<Rightarrow> Some (0, var) | Some f \<Rightarrow> f var);
     Some (err, var\<lparr>v_activate := v_activate var AND NOT (fc_ACTIVATE_TEST c)\<rparr>) }"

definition name_matches :: "fb_videomode \<Rightarrow> string \<Rightarrow> nat \<Rightarrow> bool" where
  "name_matches v s l \<longleftrightarrow> (case m_name v of None \<Rightarrow> False | Some n \<Rightarrow> take l s = n \<and> length n = l)"

definition res_matches :: "fb_videomode \<Rightarrow> u32 \<Rightarrow> u32 \<Rightarrow> bool" where
  "res_matches v x y \<longleftrightarrow> m_xres v = x \<and> m_yres v = y"

section \<open>The option\<close>

fun my_atoi_from :: "u32 \<Rightarrow> string \<Rightarrow> u32" where
  "my_atoi_from val [] = val"
| "my_atoi_from val (ch # name) =
     (if isdigit ch then my_atoi_from (10 * val + of_nat (digit_val ch)) name else val)"

definition my_atoi :: "string \<Rightarrow> u32" where
  "my_atoi name = my_atoi_from 0 name"

record mode_opts =
  o_namelen :: nat
  o_xres :: u32
  o_yres :: u32
  o_bpp :: u32
  o_refresh :: u32
  o_res_specified :: bool
  o_yres_specified :: bool
  o_bpp_specified :: bool
  o_refresh_specified :: bool
  o_cvt :: bool
  o_rb :: bool
  o_interlace :: bool
  o_margins :: bool

definition opts_begin :: "string \<Rightarrow> u32 \<Rightarrow> mode_opts" where
  "opts_begin name bpp =
     \<lparr>o_namelen = length name, o_xres = 0, o_yres = 0, o_bpp = bpp, o_refresh = 0, o_res_specified = False,
      o_yres_specified = False, o_bpp_specified = False, o_refresh_specified = False, o_cvt = False, o_rb = False,
      o_interlace = False, o_margins = False\<rparr>"

text \<open>One character, at \<open>i\<close>: what it sets, and whether the loop goes on.\<close>

definition mode_char :: "string \<Rightarrow> nat \<Rightarrow> mode_opts \<Rightarrow> bool \<times> mode_opts" where
  "mode_char name i opt =
     (let ch = name ! i; num = my_atoi (drop (Suc i) name) in
      if ch = CHR ''@'' then
        (let opt = opt\<lparr>o_namelen := i\<rparr> in
         if \<not> o_refresh_specified opt \<and> \<not> o_bpp_specified opt \<and> \<not> o_yres_specified opt
         then (True, opt\<lparr>o_refresh := num, o_refresh_specified := True, o_cvt := (if o_cvt opt \<or> o_rb opt then False else o_cvt opt)\<rparr>)
         else (False, opt))
      else if ch = CHR ''-'' then
        (let opt = opt\<lparr>o_namelen := i\<rparr> in
         if \<not> o_bpp_specified opt \<and> \<not> o_yres_specified opt
         then (True, opt\<lparr>o_bpp := num, o_bpp_specified := True, o_cvt := (if o_cvt opt \<or> o_rb opt then False else o_cvt opt)\<rparr>)
         else (False, opt))
      else if ch = CHR ''x'' then
        (if \<not> o_yres_specified opt then (True, opt\<lparr>o_yres := num, o_yres_specified := True\<rparr>) else (False, opt))
      else if isdigit ch then (True, opt)
      else if ch = CHR ''M'' then (True, if \<not> o_yres_specified opt then opt\<lparr>o_cvt := True\<rparr> else opt)
      else if ch = CHR ''R'' then (True, if \<not> o_cvt opt then opt\<lparr>o_rb := True\<rparr> else opt)
      else if ch = CHR ''m'' then (True, if \<not> o_cvt opt then opt\<lparr>o_margins := True\<rparr> else opt)
      else if ch = CHR ''i'' then (True, if \<not> o_cvt opt then opt\<lparr>o_interlace := True\<rparr> else opt)
      else (False, opt))"

text \<open>The characters before \<open>n\<close>, from right to left; whether all of them were read.\<close>

fun mode_chars :: "string \<Rightarrow> nat \<Rightarrow> mode_opts \<Rightarrow> bool \<times> mode_opts" where
  "mode_chars name 0 opt = (True, opt)"
| "mode_chars name (Suc i) opt =
     (case mode_char name i opt of (go, opt) \<Rightarrow> if go then mode_chars name i opt else (False, opt))"

definition parse_mode :: "string \<Rightarrow> u32 \<Rightarrow> mode_opts" where
  "parse_mode name bpp =
     (case mode_chars name (length name) (opts_begin name bpp) of (all, opt) \<Rightarrow>
        if all \<and> o_yres_specified opt then opt\<lparr>o_xres := my_atoi name, o_res_specified := True\<rparr> else opt)"

section \<open>Finding a mode\<close>

definition cvt_request :: "fb_consts \<Rightarrow> fb_videomode \<Rightarrow> mode_opts \<Rightarrow> fb_videomode" where
  "cvt_request c stack opt =
     stack\<lparr>m_xres := o_xres opt, m_yres := o_yres opt, m_refresh := (if o_refresh opt \<noteq> 0 then o_refresh opt else 60),
       m_vmode := (if o_interlace opt then m_vmode stack OR fc_INTERLACED c else m_vmode stack AND NOT (fc_INTERLACED c))\<rparr>"

text \<open>\<open>Inl\<close> is the end of the search: what is returned, and the parameters.\<close>

definition find_cvt ::
  "fb_consts \<Rightarrow> mode_check option \<Rightarrow> fb_videomode \<Rightarrow> mode_opts \<Rightarrow> fb_user_var \<Rightarrow> (int \<times> fb_user_var + fb_user_var) option" where
  "find_cvt c check stack opt var =
     (if \<not> o_cvt opt then Some (Inr var)
      else do {
        (ret, mode) \<leftarrow> fb_find_mode_cvt c (cvt_request c stack opt) (o_margins opt) (o_rb opt);
        if ret \<noteq> 0 then Some (Inr var)
        else do {
          (err, var) \<leftarrow> fb_try_mode c check var mode (o_bpp opt);
          Some (if err = 0 then Inl (1, var) else Inr var) } })"

text \<open>The modes with the name or the resolution; the best one so far is \<open>diff\<close> away from the refresh rate.\<close>

definition wanted :: "string \<Rightarrow> mode_opts \<Rightarrow> fb_videomode \<Rightarrow> bool" where
  "wanted name opt m \<longleftrightarrow> name_matches m name (o_namelen opt) \<or> o_res_specified opt \<and> res_matches m (o_xres opt) (o_yres opt)"

fun match_modes ::
  "fb_consts \<Rightarrow> mode_check option \<Rightarrow> string \<Rightarrow> mode_opts \<Rightarrow> u32 \<Rightarrow> fb_videomode list \<Rightarrow> u32 \<Rightarrow> fb_videomode option \<Rightarrow> fb_user_var \<Rightarrow>
    (int \<times> fb_user_var + fb_videomode option \<times> fb_user_var) option" where
  "match_modes c check name opt refresh [] diff best var = Some (Inr (best, var))"
| "match_modes c check name opt refresh (m # ms) diff best var =
     (if wanted name opt m then do {
        (err, var) \<leftarrow> fb_try_mode c check var m (o_bpp opt);
        if err \<noteq> 0 then match_modes c check name opt refresh ms diff best var
        else if o_refresh_specified opt \<and> m_refresh m = refresh then Some (Inl (1, var))
        else if abs_int (m_refresh m - refresh) < diff
        then match_modes c check name opt refresh ms (abs_int (m_refresh m - refresh)) (Some m) var
        else match_modes c check name opt refresh ms diff best var }
      else match_modes c check name opt refresh ms diff best var)"

fun fit_modes ::
  "fb_consts \<Rightarrow> mode_check option \<Rightarrow> mode_opts \<Rightarrow> fb_videomode list \<Rightarrow> u32 \<Rightarrow> fb_videomode option \<Rightarrow> fb_user_var \<Rightarrow>
    (fb_videomode option \<times> fb_user_var) option" where
  "fit_modes c check opt [] diff best var = Some (best, var)"
| "fit_modes c check opt (m # ms) diff best var =
     (if o_xres opt \<le> m_xres m \<and> o_yres opt \<le> m_yres m then do {
        (err, var) \<leftarrow> fb_try_mode c check var m (o_bpp opt);
        let d = (m_xres m - o_xres opt) + (m_yres m - o_yres opt);
        if err = 0 \<and> diff > d then fit_modes c check opt ms d (Some m) var
        else fit_modes c check opt ms diff best var }
      else fit_modes c check opt ms diff best var)"

fun try_all ::
  "fb_consts \<Rightarrow> mode_check option \<Rightarrow> u32 \<Rightarrow> fb_videomode list \<Rightarrow> fb_user_var \<Rightarrow> (int \<times> fb_user_var) option" where
  "try_all c check bpp [] var = Some (0, var)"
| "try_all c check bpp (m # ms) var = do {
     (err, var) \<leftarrow> fb_try_mode c check var m bpp;
     if err = 0 then Some (4, var) else try_all c check bpp ms var }"

definition find_specified ::
  "fb_consts \<Rightarrow> mode_check option \<Rightarrow> fb_videomode \<Rightarrow> bool \<Rightarrow> string \<Rightarrow> fb_videomode list \<Rightarrow> u32 \<Rightarrow> fb_user_var \<Rightarrow>
    (int \<times> fb_user_var + fb_user_var) option" where
  "find_specified c check stack custom name db bpp var = do {
     let opt = parse_mode name bpp;
     r \<leftarrow> find_cvt c check stack opt var;
     case r of Inl found \<Rightarrow> Some (Inl found)
     | Inr var \<Rightarrow> do {
         let refresh = (if o_refresh_specified opt then o_refresh opt else if custom then 1000 else 60);
         r \<leftarrow> match_modes c check name opt refresh db (- 1) None var;
         case r of Inl found \<Rightarrow> Some (Inl found)
         | Inr (Some m, var) \<Rightarrow> do {
             (_, var) \<leftarrow> fb_try_mode c check var m (o_bpp opt);
             Some (Inl (if o_refresh_specified opt then 2 else 1, var)) }
         | Inr (None, var) \<Rightarrow> do {
             (best, var) \<leftarrow> fit_modes c check opt db (o_xres opt + o_yres opt) None var;
             case best of
               Some m \<Rightarrow> do { (_, var) \<leftarrow> fb_try_mode c check var m (o_bpp opt); Some (Inl (5, var)) }
             | None \<Rightarrow> Some (Inr var) } } }"

text \<open>A custom table counts when the data of the monitor are complete.\<close>

definition specs_complete :: "fb_monspecs \<Rightarrow> bool" where
  "specs_complete s \<longleftrightarrow> sp_vfmin s \<noteq> 0 \<and> sp_vfmax s \<noteq> 0 \<and> sp_hfmin s \<noteq> 0 \<and> sp_hfmax s \<noteq> 0 \<and> sp_dclkmax s \<noteq> 0"

text \<open>\<open>global\<close> is the option given to the kernel. Without a default the first mode is one; a table that is empty has none.\<close>

definition fb_find_mode ::
  "fb_consts \<Rightarrow> mode_check option \<Rightarrow> fb_monspecs \<Rightarrow> string option \<Rightarrow> fb_videomode \<Rightarrow> fb_user_var \<Rightarrow> string option \<Rightarrow>
    fb_videomode list option \<Rightarrow> fb_videomode option \<Rightarrow> u32 \<Rightarrow> (int \<times> fb_user_var) option" where
  "fb_find_mode c check specs global stack var mode_option db default_mode default_bpp = do {
     let custom = (db \<noteq> None \<and> specs_complete specs);
     let db = (case db of None \<Rightarrow> modedb c | Some db \<Rightarrow> db);
     let default_mode = (case default_mode of None \<Rightarrow> (case db of [] \<Rightarrow> None | m # _ \<Rightarrow> Some m) | Some m \<Rightarrow> Some m);
     let bpp = (if default_bpp = 0 then 8 else default_bpp);
     let mode_option = (case mode_option of None \<Rightarrow> global | Some name \<Rightarrow> Some name);
     r \<leftarrow> (case mode_option of None \<Rightarrow> Some (Inr var) | Some name \<Rightarrow> find_specified c check stack custom name db bpp var);
     case r of Inl found \<Rightarrow> Some found
     | Inr var \<Rightarrow> do {
         m \<leftarrow> default_mode;
         (err, var) \<leftarrow> fb_try_mode c check var m bpp;
         if err = 0 then Some (3, var) else try_all c check bpp db var } }"

section \<open>The LCD driver\<close>

text \<open>The \<open>fb_check_var\<close> of the LCD driver, which leaves the other fields alone.\<close>

definition lcd_fb_check_var :: "lcdc_consts \<Rightarrow> u32 \<Rightarrow> mode_check" where
  "lcd_fb_check_var k rate var =
     map_option (\<lambda>(err, v). (err, fb_var.extend v (fb_var.more var))) (atmel_lcdfb_check_var k rate (fb_var.truncate var))"

end
