(* ===== verification/Fb_Mode_Props.thy ===== *)
theory Fb_Mode_Props
  imports Fb_Mode
begin

text \<open>
  Lists of modes: each mode once, the best mode for a size, the mode a program has set, and the one that is
  taken for the nearest.
\<close>

section \<open>The best mode for a size\<close>

definition fits_in :: "fb_user_var \<Rightarrow> fb_videomode \<Rightarrow> bool" where
  "fits_in var m \<longleftrightarrow> xres var \<le> m_xres m \<and> yres var \<le> m_yres m"

definition excess :: "fb_user_var \<Rightarrow> fb_videomode \<Rightarrow> nat" where
  "excess var m = (unat (m_xres m) - unat (xres var)) + (unat (m_yres m) - unat (yres var))"

definition best_of :: "fb_user_var \<Rightarrow> fb_videomode list \<Rightarrow> fb_videomode \<Rightarrow> bool" where
  "best_of var ms b \<longleftrightarrow> b \<in> set ms \<and> fits_in var b \<and>
     (\<forall>m \<in> set ms. fits_in var m \<longrightarrow> excess var b \<le> excess var m \<and> (excess var m = excess var b \<longrightarrow> m_refresh m \<le> m_refresh b))"

lemma excess_word:
  assumes "fits_in var m" "excess var m < 2 ^ 32"
  shows "unat ((m_xres m - xres var) + (m_yres m - yres var)) = excess var m"
  using assms by (simp add: fits_in_def excess_def unat_sub unat_word_ariths word_le_nat_alt)

lemma best_step_run:
  assumes "\<forall>m \<in> set ms. fits_in var m \<longrightarrow> excess var m < 2 ^ 32 - 1"
  shows "case foldl (best_step var) (- 1, None) ms of
      (diff, None) \<Rightarrow> diff = - 1 \<and> (\<forall>m \<in> set ms. \<not> fits_in var m)
    | (diff, Some b) \<Rightarrow> unat diff = excess var b \<and> best_of var ms b"
  using assms
proof (induction ms rule: rev_induct)
  case Nil
  then show ?case by simp
next
  case (snoc m ms)
  obtain diff best where r: "foldl (best_step var) (- 1, None) ms = (diff, best)" by fastforce
  note IH = snoc.IH [unfolded r]
  have e: "excess var m < 2 ^ 32 - 1" if "fits_in var m" using snoc.prems that by simp
  define d where "d = (m_xres m - xres var) + (m_yres m - yres var)"
  have d: "unat d = excess var m" if "fits_in var m" using excess_word [OF that] e [OF that] by (simp add: d_def)
  have step: "best_step var (diff, best) m =
    (if \<not> fits_in var m then (diff, best)
     else if d < diff then (d, Some m)
     else if diff = d then (case best of None \<Rightarrow> (diff, best) | Some b \<Rightarrow> if m_refresh m > m_refresh b then (diff, Some m) else (diff, best))
     else (diff, best))"
    by (simp add: best_step_def fits_in_def d_def Let_def)
  show ?case
  proof (cases "fits_in var m")
    case False
    then show ?thesis using IH snoc.prems by (auto simp: r step best_of_def split: option.splits)
  next
    case True
    note d = d [OF True] and e = e [OF True]
    show ?thesis
    proof (cases best)
      case None
      then have "diff = - 1" "\<forall>m \<in> set ms. \<not> fits_in var m" using IH snoc.prems by auto
      moreover have "unat (- 1 :: u32) = 2 ^ 32 - 1" by (simp add: unsigned_minus_1_eq_mask mask_eq_exp_minus_1)
      ultimately have "d < diff" using d e unfolding word_less_nat_alt by simp
      then show ?thesis using True d \<open>\<forall>m \<in> set ms. \<not> fits_in var m\<close> by (auto simp: r step best_of_def)
    next
      case (Some b)
      then have b: "unat diff = excess var b" "best_of var ms b" using IH snoc.prems by auto
      have cmp: "d < diff \<longleftrightarrow> excess var m < excess var b" "diff = d \<longleftrightarrow> excess var b = excess var m"
        using d b(1) by (auto simp: word_less_nat_alt word_unat_eq_iff)
      show ?thesis using True Some b d unfolding r foldl_append foldl.simps step cmp
        by (auto simp: best_of_def split: if_splits)
    qed
  qed
qed

text \<open>C39: Asked for a size, the search gives a mode of the list that is at least as large, as little larger as possible, and with
  the highest refresh rate of those; when it gives none there is none. Excesses fit 32 bits.\<close>

theorem best_mode_is_best:
  assumes "\<forall>m \<in> set head. fits_in var m \<longrightarrow> excess var m < 2 ^ 32 - 1"
  shows "case fb_find_best_mode var head of None \<Rightarrow> (\<forall>m \<in> set head. \<not> fits_in var m) | Some b \<Rightarrow> best_of var head b"
  using best_step_run [OF assms] by (auto simp: fb_find_best_mode_def split: prod.splits option.splits)

section \<open>The nearest mode\<close>

lemma abs_int_0 [simp]: "abs_int 0 = 0"
  by (simp add: abs_int_def)

lemma abs_int_less: "abs_int x < - 1"
proof -
  have "abs_int x \<noteq> - 1"
  proof
    assume a: "abs_int x = - 1"
    show False
    proof (cases "sint x < 0")
      case True
      then have "x = 1" using a by (simp add: abs_int_def)
      then show False using True by simp
    next
      case False
      then have "x = - 1" using a by (simp add: abs_int_def)
      then show False using False by simp
    qed
  qed
  then show ?thesis by (simp add: word_order.not_eq_extremum)
qed

text \<open>C40: Of two modes that have the resolution that is asked for, the search for the nearest mode gives the second,
  whatever the refresh rates: the distance of the first from the refresh rate is not remembered.\<close>

theorem nearest_mode_ignores_refresh:
  assumes "m_xres a = m_xres m" "m_yres a = m_yres m" "m_xres b = m_xres m" "m_yres b = m_yres m"
  shows "fb_find_nearest_mode m [a, b] = Some b"
  using assms abs_int_less [of "m_refresh b - m_refresh m"] abs_int_less [of 0]
  by (simp add: fb_find_nearest_mode_def nearest_step_def Let_def)

section \<open>Lists without repetition\<close>

text \<open>What two equal modes agree in.\<close>

definition mode_key :: "fb_videomode \<Rightarrow> u32 list" where
  "mode_key m = [m_xres m, m_yres m, m_pixclock m, m_hsync_len m, m_vsync_len m, m_left_margin m, m_right_margin m,
     m_upper_margin m, m_lower_margin m, m_sync m, m_vmode m]"

lemma mode_is_equal_key: "fb_mode_is_equal a b \<longleftrightarrow> mode_key a = mode_key b"
  by (simp add: fb_mode_is_equal_def mode_key_def)

definition mode_list :: "fb_videomode list \<Rightarrow> bool" where
  "mode_list ms \<longleftrightarrow> distinct (map mode_key ms)"

lemma find_mode_iff: "find (\<lambda>m. fb_mode_is_equal m mode) head = None \<longleftrightarrow> mode_key mode \<notin> mode_key ` set head"
  unfolding find_None_iff mode_is_equal_key by (auto simp: image_iff)

lemma add_mode:
  assumes "mode_list head"
  shows "fb_add_videomode True mode head = (0, head') \<Longrightarrow> mode_list head' \<and> mode_key ` set head' = insert (mode_key mode) (mode_key ` set head) \<and> set head' \<subseteq> insert mode (set head)"
  using assms by (auto simp: fb_add_videomode_def mode_list_def find_mode_iff split: if_splits)

lemma add_modes_run:
  "mode_list head \<Longrightarrow> \<forall>e \<in> set ms. fst e \<Longrightarrow> mode_list (add_modes ms head) \<and>
     mode_key ` set (add_modes ms head) = mode_key ` snd ` set ms \<union> mode_key ` set head \<and> set (add_modes ms head) \<subseteq> snd ` set ms \<union> set head"
proof (induction ms arbitrary: head)
  case Nil
  then show ?case by simp
next
  case (Cons e ms)
  obtain m where e: "e = (True, m)" using Cons.prems(2) by (cases e) auto
  have "fst (fb_add_videomode True m head) = 0" by (simp add: fb_add_videomode_def)
  then obtain head' where h: "fb_add_videomode True m head = (0, head')" by (metis prod.collapse)
  note a = add_mode [OF Cons.prems(1) h]
  have "\<forall>e \<in> set ms. fst e" using Cons.prems(2) by simp
  from Cons.IH [of head', OF conjunct1 [OF a] this] a show ?case by (auto simp: e h)
qed

text \<open>With enough memory the list made from a table has every mode of the table, no mode twice (two modes are
  the same when their timings are), and nothing else; deleting a mode takes out just the one that is equal to it.\<close>

theorem modelist_of_table:
  assumes "\<forall>i < length db. mem i"
  shows "mode_list (fb_videomode_to_modelist mem db) \<and> set (fb_videomode_to_modelist mem db) \<subseteq> set db \<and>
    (\<forall>m \<in> set db. \<exists>m' \<in> set (fb_videomode_to_modelist mem db). fb_mode_is_equal m' m) \<and>
    (\<forall>m. mode_list (fb_delete_videomode m (fb_videomode_to_modelist mem db)) \<and>
       (\<forall>m'. m' \<in> set (fb_delete_videomode m (fb_videomode_to_modelist mem db)) \<longleftrightarrow>
          m' \<in> set (fb_videomode_to_modelist mem db) \<and> \<not> fb_mode_is_equal m' m))"
proof -
  let ?l = "fb_videomode_to_modelist mem db"
  have z: "\<forall>e \<in> set (zip (map mem [0..<length db]) db). fst e" using assms by (auto simp: set_zip)
  have s: "snd ` set (zip (map mem [0..<length db]) db) = set db" by (metis length_map length_upt minus_nat.diff_0 map_snd_zip set_map)
  have "mode_list []" by (simp add: mode_list_def)
  note r = add_modes_run [OF this z, unfolded s, folded fb_videomode_to_modelist_def]
  have m: "mode_list ?l" "set ?l \<subseteq> set db" "mode_key ` set ?l = mode_key ` set db" using r by auto
  have "\<exists>m' \<in> set ?l. fb_mode_is_equal m' x" if "x \<in> set db" for x
    using m(3) that unfolding mode_is_equal_key by (metis image_iff)
  moreover have "mode_list (fb_delete_videomode x ?l)" for x
    using m(1) by (simp add: mode_list_def fb_delete_videomode_def distinct_map_filter)
  ultimately show ?thesis using m by (simp add: fb_delete_videomode_def)
qed

section \<open>A mode and what is set\<close>

text \<open>The lines of a frame, as the conversion counts them; a mode whose totals are not zero, or that has no pixel clock.\<close>

definition frame_lines :: "fb_consts \<Rightarrow> fb_user_var \<Rightarrow> u32" where
  "frame_lines c var =
     (let t = yres var + lower_margin var + vsync_len var + upper_margin var;
          t = (if v_vmode var AND fc_INTERLACED c \<noteq> 0 then t div 2 else t)
      in if v_vmode var AND fc_DOUBLE c \<noteq> 0 then t * 2 else t)"

definition timed :: "fb_consts \<Rightarrow> fb_user_var \<Rightarrow> bool" where
  "timed c var \<longleftrightarrow> pixclock var = 0 \<or>
     xres var + right_margin var + hsync_len var + left_margin var \<noteq> 0 \<and> frame_lines c var \<noteq> 0"

lemma var_to_videomode_key:
  "timed c var \<Longrightarrow> \<exists>m. fb_var_to_videomode c var = Some m \<and>
     mode_key m = [xres var, yres var, pixclock var, hsync_len var, vsync_len var, left_margin var, right_margin var,
       upper_margin var, lower_margin var, v_sync var, v_vmode var AND fc_VMODE_MASK c]"
  by (auto simp: timed_def fb_var_to_videomode_def picos_khz_def frame_lines_def Let_def mode_key_def)

lemma find_by_key:
  assumes "mode_list ms" "m \<in> set ms" "mode_key m' = mode_key m"
  shows "find (\<lambda>x. fb_mode_is_equal x m') ms = Some m"
  using assms by (induction ms) (auto simp: mode_list_def mode_is_equal_key)

text \<open>When a program sets a mode of the list, looking up what it has set in the list gives this mode, and the
  conversion does not divide by zero. The totals of the mode are not zero, and its kind has no bits outside the mask.\<close>

theorem match_mode_set:
  assumes "mode_list head" "m \<in> set head" "m_vmode m AND fc_VMODE_MASK c = m_vmode m" "timed c (fb_videomode_to_var c var m)"
  shows "fb_match_mode c (fb_videomode_to_var c var m) head = Some (Some m)"
proof -
  obtain m' where m': "fb_var_to_videomode c (fb_videomode_to_var c var m) = Some m'" "mode_key m' = mode_key m"
    using var_to_videomode_key [OF assms(4)] assms(3) by (auto simp: fb_videomode_to_var_def mode_key_def)
  show ?thesis using find_by_key [OF assms(1,2) m'(2)] by (simp add: fb_match_mode_def m'(1))
qed

section \<open>Concrete lists\<close>

definition linux_fb :: fb_consts where
  "linux_fb = \<lparr>fc_NONINTERLACED = 0, fc_INTERLACED = 1, fc_DOUBLE = 2, fc_VMODE_MASK = 255, fc_HOR_HIGH_ACT = 1,
     fc_VERT_HIGH_ACT = 2, fc_ACTIVATE_TEST = 2, fc_IS_VESA = 4, fc_IS_FIRST = 16, fc_IS_FROM_VAR = 32, fc_1ST_DETAIL = 2\<rparr>"

definition vga :: "u32 \<Rightarrow> fb_videomode" where
  "vga refresh = mode_row 0 refresh 640 480 31746 120 16 16 1 64 3 0 0"

definition svga :: fb_videomode where
  "svga = mode_row 0 60 800 600 25000 88 40 23 1 128 4 0 0"

lemmas wit_modes = vga_def svga_def mode_row_def zero_var_def linux_fb_def

lemma best_mode_is_best_witness:
  "fb_find_best_mode (zero_var\<lparr>xres := 600, yres := 400\<rparr>) [svga, vga 60, vga 75] \<noteq> None \<and>
   best_of (zero_var\<lparr>xres := 600, yres := 400\<rparr>) [svga, vga 60, vga 75]
     (the (fb_find_best_mode (zero_var\<lparr>xres := 600, yres := 400\<rparr>) [svga, vga 60, vga 75]))"
  using best_mode_is_best [of "[svga, vga 60, vga 75]" "zero_var\<lparr>xres := 600, yres := 400\<rparr>"]
  by (simp add: wit_modes fits_in_def excess_def split: option.splits)

lemma nearest_mode_ignores_refresh_witness:
  "fb_find_nearest_mode (vga 60) [vga 60, vga 75] = Some (vga 75) \<and> m_refresh (vga 60) = 60"
  using nearest_mode_ignores_refresh [of "vga 60" "vga 60" "vga 75"] by (simp add: wit_modes)

lemma modelist_of_table_witness:
  "mode_list (fb_videomode_to_modelist (\<lambda>_. True) [vga 60, svga, vga 75])"
  using modelist_of_table [of "[vga 60, svga, vga 75]" "\<lambda>_. True"] by simp

lemma match_mode_set_witness:
  "fb_match_mode linux_fb (fb_videomode_to_var linux_fb zero_var svga) [vga 60, svga] = Some (Some svga)"
  by (rule match_mode_set)
    (simp_all add: wit_modes mode_list_def mode_key_def timed_def frame_lines_def fb_videomode_to_var_def)

end
