(* ===== verification/Fb_Modedb_Props.thy ===== *)
theory Fb_Modedb_Props
  imports Fb_Modedb Fb_Mode_Props Atmel_Lcdfb_Par_Props
begin

text \<open>
  Finding a mode. The locale \<open>mode_driver\<close> is what the search relies on: whether the driver takes a mode depends on
  the mode and the depth only. The LCD driver is an interpretation.
\<close>

section \<open>The contract of a driver\<close>

locale mode_driver =
  fixes c :: fb_consts and check :: "mode_check option" and safe :: "fb_videomode \<Rightarrow> bool" and takes :: "fb_videomode \<Rightarrow> u32 \<Rightarrow> bool"
  assumes try_mode: "safe m \<Longrightarrow> \<exists>err v'. fb_try_mode c check v m bpp = Some (err, v') \<and> (err = 0 \<longleftrightarrow> takes m bpp)"

text \<open>\<open>var'\<close> is what trying \<open>m\<close> with success left.\<close>

definition tried :: "fb_consts \<Rightarrow> mode_check option \<Rightarrow> fb_videomode \<Rightarrow> u32 \<Rightarrow> fb_user_var \<Rightarrow> bool" where
  "tried c check m bpp var' \<longleftrightarrow> (\<exists>var. fb_try_mode c check var m bpp = Some (0, var'))"

definition distance :: "u32 \<Rightarrow> fb_videomode \<Rightarrow> u32" where
  "distance refresh m = abs_int (m_refresh m - refresh)"

lemma distance_less: "distance refresh m < - 1"
  by (simp add: distance_def abs_int_less)

lemma find_specified_matched:
  assumes "\<not> o_cvt (parse_mode name bpp)"
    and r: "match_modes c check name (parse_mode name bpp) (if o_refresh_specified (parse_mode name bpp) then o_refresh (parse_mode name bpp)
        else if custom then 1000 else 60) db (- 1) None var = Some r"
  shows "r = Inl x \<Longrightarrow> find_specified c check stack custom name db bpp var = Some (Inl x)"
    "r = Inr (Some m, v) \<Longrightarrow> fb_try_mode c check v m (o_bpp (parse_mode name bpp)) = Some (err, v') \<Longrightarrow>
      find_specified c check stack custom name db bpp var = Some (Inl (if o_refresh_specified (parse_mode name bpp) then 2 else 1, v'))"
    "r = Inr (None, v) \<Longrightarrow> find_specified c check stack custom name db bpp var = do {
        (best, var) \<leftarrow> fit_modes c check (parse_mode name bpp) db (o_xres (parse_mode name bpp) + o_yres (parse_mode name bpp)) None v;
        case best of
          Some m \<Rightarrow> do { (_, var) \<leftarrow> fb_try_mode c check var m (o_bpp (parse_mode name bpp)); Some (Inl (5, var)) }
        | None \<Rightarrow> Some (Inr var) }"
  using assms unfolding find_specified_def Let_def by (simp_all add: find_cvt_def)

context mode_driver
begin

lemma try_cases:
  assumes "safe m"
  obtains v' where "takes m bpp" "fb_try_mode c check v m bpp = Some (0, v')" "tried c check m bpp v'"
  | err v' where "\<not> takes m bpp" "fb_try_mode c check v m bpp = Some (err, v')" "err \<noteq> 0"
  using try_mode [OF assms, of v bpp] unfolding tried_def by metis

text \<open>What the loop over the modes that are wanted gives.\<close>

definition matched :: "string \<Rightarrow> mode_opts \<Rightarrow> u32 \<Rightarrow> fb_videomode list \<Rightarrow> fb_videomode option \<Rightarrow>
    int \<times> fb_user_var + fb_videomode option \<times> fb_user_var \<Rightarrow> bool" where
  "matched name opt refresh ms best r \<longleftrightarrow> (case r of
     Inl (k, var) \<Rightarrow> k = 1 \<and> (\<exists>m \<in> set ms. wanted name opt m \<and> takes m (o_bpp opt) \<and> m_refresh m = refresh \<and>
        o_refresh_specified opt \<and> tried c check m (o_bpp opt) var)
   | Inr (best', var) \<Rightarrow>
      (\<forall>m \<in> set ms. wanted name opt m \<and> takes m (o_bpp opt) \<longrightarrow> \<not> (o_refresh_specified opt \<and> m_refresh m = refresh) \<and>
         (\<exists>b. best' = Some b \<and> distance refresh b \<le> distance refresh m)) \<and>
      (\<forall>b. best = Some b \<longrightarrow> (\<exists>b'. best' = Some b' \<and> distance refresh b' \<le> distance refresh b)) \<and>
      (best' = best \<or> (\<exists>b \<in> set ms. best' = Some b \<and> wanted name opt b \<and> takes b (o_bpp opt))))"

lemma matched_skip:
  "\<not> (wanted name opt m \<and> takes m (o_bpp opt)) \<Longrightarrow> matched name opt refresh ms best r \<Longrightarrow> matched name opt refresh (m # ms) best r"
  unfolding matched_def by (cases r) (auto split: prod.splits)

lemma matched_better:
  assumes "matched name opt refresh ms (Some m) r" "wanted name opt m" "takes m (o_bpp opt)"
    "\<not> (o_refresh_specified opt \<and> m_refresh m = refresh)" "\<forall>b. best = Some b \<longrightarrow> distance refresh m \<le> distance refresh b"
  shows "matched name opt refresh (m # ms) best r"
proof (cases r)
  case (Inl a)
  then show ?thesis using assms(1) by (auto simp: matched_def split: prod.splits)
next
  case (Inr a)
  obtain best' var where a: "a = (best', var)" by fastforce
  obtain b' where b': "best' = Some b'" "distance refresh b' \<le> distance refresh m" "b' = m \<or> b' \<in> set ms \<and> wanted name opt b' \<and> takes b' (o_bpp opt)"
    using assms(1) unfolding matched_def Inr a by auto
  have "\<forall>m' \<in> set ms. wanted name opt m' \<and> takes m' (o_bpp opt) \<longrightarrow> \<not> (o_refresh_specified opt \<and> m_refresh m' = refresh) \<and>
      distance refresh b' \<le> distance refresh m'"
    using assms(1) unfolding matched_def Inr a b'(1) by auto
  then show ?thesis unfolding matched_def Inr a b'(1) using b' assms(2-5) by (auto intro: order_trans)
qed

lemma matched_worse:
  assumes "matched name opt refresh ms (Some b) r" "\<not> (o_refresh_specified opt \<and> m_refresh m = refresh)"
    "distance refresh b \<le> distance refresh m"
  shows "matched name opt refresh (m # ms) (Some b) r"
proof (cases r)
  case (Inl a)
  then show ?thesis using assms(1) by (auto simp: matched_def split: prod.splits)
next
  case (Inr a)
  obtain best' var where a: "a = (best', var)" by fastforce
  obtain b' where b': "best' = Some b'" "distance refresh b' \<le> distance refresh b"
    using assms(1) unfolding matched_def Inr a by auto
  then have "distance refresh b' \<le> distance refresh m" using assms(3) by (rule_tac order_trans)
  then show ?thesis using assms(1,2) b' unfolding matched_def Inr a by auto
qed

lemma match_modes_run:
  "\<forall>m \<in> set ms. safe m \<Longrightarrow> (case best of None \<Rightarrow> diff = - 1 | Some b \<Rightarrow> diff = distance refresh b) \<Longrightarrow>
   \<exists>r. match_modes c check name opt refresh ms diff best var = Some r \<and> matched name opt refresh ms best r"
proof (induction ms arbitrary: diff best var)
  case Nil
  then show ?case by (auto simp: matched_def)
next
  case (Cons m ms)
  have s: "safe m" "\<forall>m \<in> set ms. safe m" using Cons.prems(1) by auto
  note IH = Cons.IH [OF s(2)]
  show ?case
  proof (cases "wanted name opt m")
    case False
    with IH [OF Cons.prems(2), of var] show ?thesis using matched_skip by fastforce
  next
    case w: True
    from s(1) show ?thesis
    proof (cases rule: try_cases [of m "o_bpp opt" var])
      case (2 err v')
      with IH [OF Cons.prems(2), of v'] w show ?thesis using matched_skip by fastforce
    next
      case (1 v')
      show ?thesis
      proof (cases "o_refresh_specified opt \<and> m_refresh m = refresh")
        case True
        then show ?thesis using 1 w by (auto simp: matched_def)
      next
        case False
        show ?thesis
        proof (cases "distance refresh m < diff")
          case True
          have "\<forall>b. best = Some b \<longrightarrow> distance refresh m \<le> distance refresh b" using True Cons.prems(2) by auto
          moreover obtain r where "match_modes c check name opt refresh ms (distance refresh m) (Some m) v' = Some r"
            "matched name opt refresh ms (Some m) r" using IH [where best = "Some m" and diff = "distance refresh m" and var = v'] by auto
          ultimately show ?thesis using matched_better w 1 False True by (auto simp: distance_def)
        next
          case worse: False
          then obtain b where b: "best = Some b" "distance refresh b \<le> distance refresh m"
            using Cons.prems(2) distance_less [of refresh m] by (cases best) auto
          moreover obtain r where "match_modes c check name opt refresh ms diff (Some b) v' = Some r"
            "matched name opt refresh ms (Some b) r" using IH [OF Cons.prems(2), of v'] b(1) by auto
          ultimately show ?thesis using matched_worse w 1 False worse by (auto simp: distance_def)
        qed
      qed
    qed
  qed
qed

lemma fit_modes_run:
  "\<forall>m \<in> set ms. safe m \<Longrightarrow> \<exists>best' var'. fit_modes c check opt ms diff best var = Some (best', var') \<and>
     (best' = best \<or> (\<exists>b \<in> set ms. best' = Some b \<and> takes b (o_bpp opt)))"
proof (induction ms arbitrary: diff best var)
  case Nil
  then show ?case by simp
next
  case (Cons m ms)
  have s: "safe m" "\<forall>m \<in> set ms. safe m" using Cons.prems by auto
  show ?case
  proof (cases "o_xres opt \<le> m_xres m \<and> o_yres opt \<le> m_yres m")
    case False
    then show ?thesis using Cons.IH [OF s(2), of diff best var] by auto
  next
    case True
    from s(1) show ?thesis
    proof (cases rule: try_cases [of m "o_bpp opt" var])
      case (1 v')
      let ?d = "(m_xres m - o_xres opt) + (m_yres m - o_yres opt)"
      show ?thesis
      proof (cases "?d < diff")
        case less: True
        then show ?thesis using 1 True Cons.IH [OF s(2), of ?d "Some m" v'] by (auto simp: Let_def)
      next
        case False
        then show ?thesis using 1 True Cons.IH [OF s(2), of diff best v'] by (auto simp: Let_def)
      qed
    next
      case (2 err v')
      then show ?thesis using True Cons.IH [OF s(2), of diff best v'] by (auto simp: Let_def)
    qed
  qed
qed

lemma try_all_run:
  "\<forall>m \<in> set ms. safe m \<Longrightarrow> \<exists>k var'. try_all c check bpp ms var = Some (k, var') \<and>
     (k = 4 \<and> (\<exists>m \<in> set ms. takes m bpp \<and> tried c check m bpp var') \<or> k = 0 \<and> (\<forall>m \<in> set ms. \<not> takes m bpp))"
proof (induction ms arbitrary: var)
  case Nil
  then show ?case by simp
next
  case (Cons m ms)
  have s: "safe m" "\<forall>m \<in> set ms. safe m" using Cons.prems by auto
  from s(1) show ?case
  proof (cases rule: try_cases [of m bpp var])
    case (1 v')
    then show ?thesis by auto
  next
    case (2 err v')
    then show ?thesis using Cons.IH [OF s(2), of v'] by auto
  qed
qed

lemma retry: "safe m \<Longrightarrow> takes m bpp \<Longrightarrow> \<exists>var'. fb_try_mode c check var m bpp = Some (0, var') \<and> tried c check m bpp var'"
  using try_mode [of m var bpp] unfolding tried_def by metis

lemma find_specified_run:
  assumes safe: "\<forall>m \<in> set db. safe m" and cvt: "\<not> o_cvt (parse_mode name bpp)"
  shows "\<exists>res. find_specified c check stack custom name db bpp var = Some res \<and>
    (\<forall>k v. res = Inl (k, v) \<longrightarrow> k \<noteq> 0 \<and> (\<exists>m \<in> set db. \<exists>b. tried c check m b v))"
proof -
  let ?opt = "parse_mode name bpp" and ?f = "if o_refresh_specified (parse_mode name bpp) then o_refresh (parse_mode name bpp) else if custom then 1000 else 60"
  obtain r where r: "match_modes c check name ?opt ?f db (- 1) None var = Some r" and m: "matched name ?opt ?f db None r"
    using match_modes_run [OF safe, where best = None and diff = "- 1" and name = name and opt = ?opt and refresh = ?f and var = var]
    unfolding option.case by blast
  note m = m [unfolded matched_def] and spec = find_specified_matched [OF cvt r, where stack = stack]
  show ?thesis
  proof (cases r)
    case (Inl x)
    then show ?thesis using spec(1) [OF Inl] m by (auto split: prod.splits)
  next
    case (Inr a)
    obtain best v where a: "a = (best, v)" by fastforce
    show ?thesis
    proof (cases best)
      case (Some b)
      then have b: "b \<in> set db" "takes b (o_bpp ?opt)" using m by (auto simp: Inr a)
      from retry [OF bspec [OF safe b(1)] b(2), of v] obtain v' where
        v': "fb_try_mode c check v b (o_bpp ?opt) = Some (0, v')" "tried c check b (o_bpp ?opt) v'" by blast
      show ?thesis using spec(2) [OF Inr [unfolded a Some] v'(1)] v'(2) b(1) by auto
    next
      case None
      note s3 = spec(3) [OF Inr [unfolded a None]]
      obtain best' v2 where f: "fit_modes c check ?opt db (o_xres ?opt + o_yres ?opt) None v = Some (best', v2)"
        "best' = None \<or> (\<exists>b \<in> set db. best' = Some b \<and> takes b (o_bpp ?opt))"
        using fit_modes_run [OF safe, of ?opt "o_xres ?opt + o_yres ?opt" None v] by blast
      show ?thesis
      proof (cases best')
        case None
        then show ?thesis using s3 f(1) by auto
      next
        case (Some b)
        then have b: "b \<in> set db" "takes b (o_bpp ?opt)" using f(2) by auto
        from retry [OF bspec [OF safe b(1)] b(2), of v2] obtain v' where
          v': "fb_try_mode c check v2 b (o_bpp ?opt) = Some (0, v')" "tried c check b (o_bpp ?opt) v'" by blast
        show ?thesis using s3 f(1) Some v' b(1) by auto
      qed
    qed
  qed
qed

lemma find_mode_run:
  assumes safe: "\<forall>m \<in> set ms. safe m" "safe dm" and ms: "ms = (case db of None \<Rightarrow> modedb c | Some ms \<Rightarrow> ms)"
    and dm: "(case default_mode of None \<Rightarrow> (case ms of [] \<Rightarrow> None | m # _ \<Rightarrow> Some m) | Some m \<Rightarrow> Some m) = Some dm"
    and cvt: "\<forall>name. (case mode_option of None \<Rightarrow> global | Some name \<Rightarrow> Some name) = Some name \<longrightarrow> \<not> o_cvt (parse_mode name b)"
    and b: "b = (if bpp = 0 then 8 else bpp)"
  shows "\<exists>r var'. fb_find_mode c check specs global stack var mode_option db default_mode bpp = Some (r, var') \<and>
    (if r = 0 then \<not> takes dm b \<and> (\<forall>m \<in> set ms. \<not> takes m b) else \<exists>m b. safe m \<and> tried c check m b var')"
proof -
  define opt where "opt = (case mode_option of None \<Rightarrow> global | Some name \<Rightarrow> Some name)"
  define custom where "custom = (db \<noteq> None \<and> specs_complete specs)"
  have "\<exists>res. (case opt of None \<Rightarrow> Some (Inr var) | Some name \<Rightarrow> find_specified c check stack custom name ms b var) = Some res \<and>
      (\<forall>k v. res = Inl (k, v) \<longrightarrow> k \<noteq> 0 \<and> (\<exists>m \<in> set ms. \<exists>b. tried c check m b v))"
  proof (cases opt)
    case None
    then show ?thesis by simp
  next
    case (Some name)
    then have "\<not> o_cvt (parse_mode name b)" using cvt by (simp add: opt_def)
    from find_specified_run [OF safe(1) this, of stack custom var] show ?thesis by (simp add: Some)
  qed
  then obtain res where res: "(case opt of None \<Rightarrow> Some (Inr var) | Some name \<Rightarrow> find_specified c check stack custom name ms b var) = Some res"
    "\<forall>k v. res = Inl (k, v) \<longrightarrow> k \<noteq> 0 \<and> (\<exists>m \<in> set ms. \<exists>b. tried c check m b v)" by blast
  have run: "fb_find_mode c check specs global stack var mode_option db default_mode bpp = (case res of Inl found \<Rightarrow> Some found
     | Inr var \<Rightarrow> do {
         (err, var) \<leftarrow> fb_try_mode c check var dm b;
         if err = 0 then Some (3, var) else try_all c check b ms var })"
    unfolding fb_find_mode_def Let_def ms [symmetric] dm b [symmetric] opt_def [symmetric] custom_def [symmetric] res(1) by simp
  show ?thesis
  proof (cases res)
    case (Inl found)
    obtain k v where f: "found = (k, v)" by fastforce
    then show ?thesis using res(2) run Inl safe(1) by auto
  next
    case (Inr v)
    from safe(2) show ?thesis
    proof (cases rule: try_cases [of dm b v])
      case (1 v')
      then show ?thesis using run Inr safe(2) by auto
    next
      case (2 err v')
      obtain k var' where t: "try_all c check b ms v' = Some (k, var')"
        "k = 4 \<and> (\<exists>m \<in> set ms. takes m b \<and> tried c check m b var') \<or> k = 0 \<and> (\<forall>m \<in> set ms. \<not> takes m b)"
        using try_all_run [OF safe(1), of b v'] by blast
      have "fb_find_mode c check specs global stack var mode_option db default_mode bpp = Some (k, var')"
        using run Inr 2(2,3) t(1) by simp
      then show ?thesis using t(2) 2(1) safe(1) by (intro exI [of _ k] exI [of _ var']) auto
    qed
  qed
qed

end

section \<open>The LCD driver keeps the contract\<close>

definition lcd_takes :: "u32 \<Rightarrow> fb_videomode \<Rightarrow> u32 \<Rightarrow> bool" where
  "lcd_takes rate m bpp \<longleftrightarrow> depth_ok bpp \<and> \<not> 1000000000 div m_pixclock m * bpp div 8 > rate div 1000"

text \<open>What the driver was asked about last, as the driver sees it.\<close>

definition driver_var :: "fb_user_var \<Rightarrow> fb_var" where
  "driver_var = fb_var.truncate"

lemma driver_var_fields [simp]:
  "pixclock (driver_var v) = pixclock v" "bits_per_pixel (driver_var v) = bits_per_pixel v"
  "driver_var (v\<lparr>v_activate := a\<rparr>) = driver_var v" "driver_var (fb_var.extend w m) = w"
  by (cases v; simp add: driver_var_def fb_var.defs)+

lemma lcd_try_mode:
  assumes "m_pixclock m \<noteq> 0"
  shows "\<exists>err v'. fb_try_mode c (Some (lcd_fb_check_var k rate)) v m bpp = Some (err, v') \<and> (err = 0 \<longleftrightarrow> lcd_takes rate m bpp) \<and>
    (err = 0 \<longrightarrow> (\<exists>w. atmel_lcdfb_check_var k rate w = Some (0, driver_var v')))"
proof -
  define u where "u = v\<lparr>xres := m_xres m, yres := m_yres m, xres_virtual := m_xres m, yres_virtual := m_yres m,
         xoffset := 0, yoffset := 0, bits_per_pixel := bpp, v_activate := v_activate v OR fc_ACTIVATE_TEST c,
         pixclock := m_pixclock m, left_margin := m_left_margin m, right_margin := m_right_margin m,
         upper_margin := m_upper_margin m, lower_margin := m_lower_margin m, hsync_len := m_hsync_len m,
         vsync_len := m_vsync_len m, v_sync := m_sync m, v_vmode := m_vmode m\<rparr>"
  have "pixclock (driver_var u) \<noteq> 0" using assms by (simp add: u_def)
  then obtain err w where w: "atmel_lcdfb_check_var k rate (driver_var u) = Some (err, w)"
    by (cases "atmel_lcdfb_check_var k rate (driver_var u)") (auto simp: atmel_lcdfb_check_var_def picos_khz_def Let_def split: if_splits)
  have "err = 0 \<longleftrightarrow> lcd_takes rate m bpp"
  proof
    assume "err = 0"
    then show "lcd_takes rate m bpp" using w assms unfolding lcd_takes_def by (auto simp: check_var_accepts picos_khz_def u_def split: if_splits)
  next
    assume "lcd_takes rate m bpp"
    then have "\<exists>w. atmel_lcdfb_check_var k rate (driver_var u) = Some (0, w)"
      using assms unfolding check_var_accepts lcd_takes_def by (simp add: picos_khz_def u_def)
    then show "err = 0" using w by simp
  qed
  moreover have "fb_try_mode c (Some (lcd_fb_check_var k rate)) v m bpp =
      (let v' = fb_var.extend w (fb_var.more u) in Some (err, v'\<lparr>v_activate := v_activate v' AND NOT (fc_ACTIVATE_TEST c)\<rparr>))"
    using w unfolding fb_try_mode_def Let_def u_def [symmetric] by (simp add: lcd_fb_check_var_def driver_var_def)
  ultimately show ?thesis using w by (auto simp: Let_def)
qed

interpretation lcd_modes: mode_driver c "Some (lcd_fb_check_var k rate)" "\<lambda>m. m_pixclock m \<noteq> 0" "lcd_takes rate" for c k rate
  by unfold_locales (use lcd_try_mode in blast)

lemma tried_lcd:
  assumes "m_pixclock m \<noteq> 0" "tried c (Some (lcd_fb_check_var k rate)) m bpp var'"
  obtains w where "atmel_lcdfb_check_var k rate w = Some (0, driver_var var')"
  using assms(2) lcd_try_mode [OF assms(1)] unfolding tried_def by (metis option.inject prod.inject)

section \<open>The mode that is found\<close>

definition wanted_refresh :: "fb_monspecs \<Rightarrow> mode_opts \<Rightarrow> u32" where
  "wanted_refresh specs opt = (if o_refresh_specified opt then o_refresh opt else if specs_complete specs then 1000 else 60)"

text \<open>C34: When the table has modes of the name or the resolution of the option that the driver takes, the search sets one of them, with
  the refresh rate nearest to the one in the option (without one, to 60, or the highest possible when the monitor is described); it returns 2
  exactly when a rate was asked for and no mode has it. Whether the driver takes a mode depends on the mode and the depth,
  and the option does not ask for computed timings.\<close>

theorem find_mode_nearest_refresh:
  assumes drv: "mode_driver c check safe takes" and safe: "\<forall>m \<in> set db. safe m"
    and opt: "opt = parse_mode name (if bpp = 0 then 8 else bpp)" "\<not> o_cvt opt"
    and some: "m0 \<in> set db" "wanted name opt m0" "takes m0 (o_bpp opt)"
  shows "\<exists>r var' m. fb_find_mode c check specs global stack var (Some name) (Some db) default_mode bpp = Some (r, var') \<and>
    m \<in> set db \<and> wanted name opt m \<and> takes m (o_bpp opt) \<and> tried c check m (o_bpp opt) var' \<and>
    (\<forall>m' \<in> set db. wanted name opt m' \<and> takes m' (o_bpp opt) \<longrightarrow>
       distance (wanted_refresh specs opt) m \<le> distance (wanted_refresh specs opt) m') \<and>
    r = (if o_refresh_specified opt \<and> m_refresh m \<noteq> o_refresh opt then 2 else 1)"
proof -
  let ?f = "wanted_refresh specs opt"
  obtain r where r: "match_modes c check name opt ?f db (- 1) None var = Some r" and
    m: "mode_driver.matched c check takes name opt ?f db None r"
    using mode_driver.match_modes_run [OF drv safe, where best = None and diff = "- 1" and name = name and opt = opt and refresh = ?f and var = var]
    unfolding option.case by blast
  note m = m [unfolded mode_driver.matched_def [OF drv]]
  define bpp' where "bpp' = (if bpp = 0 then 8 else bpp)"
  have o: "\<not> o_cvt (parse_mode name bpp')" using opt by (simp add: bpp'_def)
  note r' = r [unfolded opt(1) wanted_refresh_def, folded bpp'_def]
  have opt': "opt = parse_mode name bpp'" using opt(1) by (simp only: bpp'_def)
  note spec = find_specified_matched [OF o r', where stack = stack, folded opt']
  have run: "find_specified c check stack (specs_complete specs) name db bpp' var = Some (Inl x) \<Longrightarrow>
      fb_find_mode c check specs global stack var (Some name) (Some db) default_mode bpp = Some x" for x
    unfolding fb_find_mode_def by (simp add: bpp'_def Let_def)
  show ?thesis
  proof (cases r)
    case (Inl a)
    then obtain k var' where a: "a = (k, var')" by fastforce
    obtain x where x: "k = 1" "x \<in> set db" "wanted name opt x" "takes x (o_bpp opt)" "m_refresh x = ?f" "o_refresh_specified opt" "tried c check x (o_bpp opt) var'"
      using m by (auto simp: Inl a)
    have "fb_find_mode c check specs global stack var (Some name) (Some db) default_mode bpp = Some (1, var')"
      using run [OF spec(1) [OF Inl]] x(1) by (simp add: a)
    moreover have "o_refresh opt = m_refresh x" using x(5,6) by (simp add: wanted_refresh_def)
    moreover have "distance ?f x = 0" using x(5) by (simp add: distance_def)
    ultimately show ?thesis using x(2-4,7) by (intro exI [of _ "1 :: int"] exI [of _ var'] exI [of _ x]) simp
  next
    case (Inr a)
    then obtain best var1 where a: "a = (best, var1)" by fastforce
    have *: "\<forall>m \<in> set db. wanted name opt m \<and> takes m (o_bpp opt) \<longrightarrow> \<not> (o_refresh_specified opt \<and> m_refresh m = ?f) \<and>
         (\<exists>b. best = Some b \<and> distance ?f b \<le> distance ?f m)" "best = None \<or> (\<exists>b \<in> set db. best = Some b \<and> wanted name opt b \<and> takes b (o_bpp opt))"
      using m by (simp_all add: Inr a)
    then obtain b where b: "best = Some b" "b \<in> set db" "wanted name opt b" "takes b (o_bpp opt)" using some by blast
    obtain var' where v: "fb_try_mode c check var1 b (o_bpp opt) = Some (0, var')" "tried c check b (o_bpp opt) var'"
      using mode_driver.retry [OF drv, of b "o_bpp opt" var1] b safe by blast
    have n: "o_refresh_specified opt \<Longrightarrow> m_refresh b \<noteq> o_refresh opt" using *(1) b by (auto simp: wanted_refresh_def)
    have "fb_find_mode c check specs global stack var (Some name) (Some db) default_mode bpp = Some (if o_refresh_specified opt then 2 else 1, var')"
      by (rule run [OF spec(2) [OF Inr [unfolded a b(1)] v(1)]])
    moreover have "\<forall>m' \<in> set db. wanted name opt m' \<and> takes m' (o_bpp opt) \<longrightarrow> distance ?f b \<le> distance ?f m'" using *(1) b(1) by auto
    ultimately show ?thesis using b v(2) n
      by (intro exI [of _ "if o_refresh_specified opt then 2 else 1"] exI [of _ var'] exI [of _ b]) auto
  qed
qed

lemma find_mode_nearest_refresh_witness:
  "\<exists>r var' m. fb_find_mode linux_fb (Some (lcd_fb_check_var lcd_wit_consts 100000000))
      \<lparr>sp_vfmin = 0, sp_vfmax = 0, sp_hfmin = 0, sp_hfmax = 0, sp_dclkmax = 0, sp_misc = 0, sp_max_x = 0, sp_max_y = 0\<rparr> None (vga 0) zero_var
      (Some ''640x480@70'') (Some [vga 60, svga, vga 75]) None 8 = Some (r, var') \<and> r = 2"
proof -
  let ?opt = "parse_mode ''640x480@70'' (if (8 :: u32) = 0 then 8 else 8)"
  have opt: "o_xres ?opt = 640" "o_yres ?opt = 480" "o_refresh ?opt = 70" "o_refresh_specified ?opt" "\<not> o_cvt ?opt" "o_bpp ?opt = 8" "o_res_specified ?opt"
    by code_simp+
  have "wanted ''640x480@70'' ?opt (vga 60)" using opt by (simp add: wanted_def res_matches_def wit_modes)
  moreover have "lcd_takes 100000000 (vga 60) (o_bpp ?opt)" unfolding opt by (simp add: lcd_takes_def wit_modes depth_ok_def)
  moreover have "\<forall>m \<in> set [vga 60, svga, vga 75]. m_pixclock m \<noteq> 0" "vga 60 \<in> set [vga 60, svga, vga 75]" by (simp_all add: wit_modes)
  ultimately show ?thesis
    using find_mode_nearest_refresh [OF lcd_modes.mode_driver_axioms [of linux_fb lcd_wit_consts 100000000], where db = "[vga 60, svga, vga 75]" and name = "''640x480@70''" and bpp = 8 and
        opt = ?opt and ?m0.0 = "vga 60"] opt by (fastforce simp: wit_modes)
qed

text \<open>Every mode of the built-in table has a pixel clock.\<close>

lemma modedb_clocks: "list_all (\<lambda>m. m_pixclock m \<noteq> 0) (modedb c)" "modedb c \<noteq> []"
  by (simp_all add: modedb_def mode_row_def Let_def)

text \<open>C35: For the LCD driver the search for a mode ends, and unless it returns 0 the driver accepts what is set then as it
  is; it returns 0 only when the driver takes no mode of the table at the depth. The table is the built-in one, or one of
  the board, which has modes, all with a pixel clock. The option given to the kernel does not ask for computed timings.\<close>

theorem lcdfb_find_mode:
  assumes db: "db \<noteq> Some []" "\<forall>ms. db = Some ms \<longrightarrow> (\<forall>m \<in> set ms. m_pixclock m \<noteq> 0)"
    and cvt: "\<forall>name. global = Some name \<longrightarrow> \<not> o_cvt (parse_mode name (if bpp = 0 then 8 else bpp))"
  shows "\<exists>r var'. fb_find_mode c (Some (lcd_fb_check_var k rate)) specs global stack var None db (map_option hd db) bpp = Some (r, var') \<and>
    (if r = 0 then \<forall>m \<in> set (case db of None \<Rightarrow> modedb c | Some ms \<Rightarrow> ms). \<not> lcd_takes rate m (if bpp = 0 then 8 else bpp)
     else atmel_lcdfb_check_var k rate (driver_var var') = Some (0, driver_var var'))"
proof -
  define ms where "ms = (case db of None \<Rightarrow> modedb c | Some ms \<Rightarrow> ms)"
  have safe: "\<forall>m \<in> set ms. m_pixclock m \<noteq> 0" and ne: "ms \<noteq> []"
    using db modedb_clocks [of c] by (auto simp: ms_def list_all_iff split: option.splits)
  have sd: "m_pixclock (hd ms) \<noteq> 0" using safe ne by simp
  have dm: "(case map_option hd db of None \<Rightarrow> (case ms of [] \<Rightarrow> None | m # _ \<Rightarrow> Some m) | Some m \<Rightarrow> Some m) = Some (hd ms)"
    using ne by (cases db; cases ms) (auto simp: ms_def)
  have cvt': "\<forall>name. (case None of None \<Rightarrow> global | Some name \<Rightarrow> Some name) = Some name \<longrightarrow> \<not> o_cvt (parse_mode name (if bpp = 0 then 8 else bpp))"
    using cvt by simp
  from lcd_modes.find_mode_run [OF safe sd ms_def dm cvt' refl, of k rate specs stack var] obtain r var' where
    r: "fb_find_mode c (Some (lcd_fb_check_var k rate)) specs global stack var None db (map_option hd db) bpp = Some (r, var')"
    "if r = 0 then \<not> lcd_takes rate (hd ms) (if bpp = 0 then 8 else bpp) \<and> (\<forall>m \<in> set ms. \<not> lcd_takes rate m (if bpp = 0 then 8 else bpp))
     else \<exists>m b. m_pixclock m \<noteq> 0 \<and> tried c (Some (lcd_fb_check_var k rate)) m b var'" by blast
  have "atmel_lcdfb_check_var k rate (driver_var var') = Some (0, driver_var var')" if "r \<noteq> 0"
  proof -
    from r(2) that obtain m b where "m_pixclock m \<noteq> 0" "tried c (Some (lcd_fb_check_var k rate)) m b var'" by auto
    from tried_lcd [OF this] obtain w where "atmel_lcdfb_check_var k rate w = Some (0, driver_var var')" .
    then show ?thesis by (rule lcdfb_check_var_twice)
  qed
  then show ?thesis using r unfolding ms_def [symmetric] by (cases "r = 0") auto
qed

lemma lcdfb_find_mode_witness:
  "\<exists>r var'. fb_find_mode linux_fb (Some (lcd_fb_check_var lcd_wit_consts 100000000))
      \<lparr>sp_vfmin = 0, sp_vfmax = 0, sp_hfmin = 0, sp_hfmax = 0, sp_dclkmax = 0, sp_misc = 0, sp_max_x = 0, sp_max_y = 0\<rparr> None (vga 0) zero_var
      None (Some [vga 60]) (Some (vga 60)) 16 = Some (r, var') \<and> r \<noteq> 0"
proof -
  have "lcd_takes 100000000 (vga 60) 16" by (simp add: lcd_takes_def wit_modes depth_ok_def)
  then show ?thesis
    using lcdfb_find_mode [of "Some [vga 60]" None 16 linux_fb lcd_wit_consts 100000000 _ "vga 0" zero_var] by (fastforce simp: wit_modes)
qed

end
