(* ===== verification/Fb_Cvt_Props.thy ===== *)
theory Fb_Cvt_Props
  imports Fb_Cvt Fb_Mode_Props
begin

text \<open>Timings by formula: they fit together for common sizes, and what happens to very narrow modes.\<close>

section \<open>Words without wrap-around\<close>

lemma unat_and_not_mask: "n \<in> {3, 4} \<Longrightarrow> unat (x AND NOT (mask n) :: u32) = 2 ^ n * (unat x div 2 ^ n)"
proof -
  have "x AND NOT (mask n) = push_bit n (drop_bit n x)"
    by (rule bit_word_eqI) (auto simp: bit_simps not_less)
  moreover have "unat x < 2 ^ 32" using unsigned_less [of x] by simp
  then have "2 ^ n * (unat x div 2 ^ n) < 2 ^ 32" using times_div_less_eq_dividend [of "2 ^ n" "unat x"] by linarith
  moreover assume "n \<in> {3, 4}"
  ultimately show ?thesis by (auto simp: push_bit_eq_mult unat_word_ariths drop_bit_eq_div unat_div)
qed

lemma and_not_cells: "unat (x AND NOT 7 :: u32) = 8 * (unat x div 8)" "unat (x AND NOT 15 :: u32) = 16 * (unat x div 16)"
  using unat_and_not_mask [of 3 x] unat_and_not_mask [of 4 x] by (simp_all add: mask_eq_exp_minus_1)


lemma unat_times: "unat (a :: u32) * unat b < 2 ^ 32 \<Longrightarrow> unat (a * b) = unat a * unat b"
  by (simp add: unat_word_ariths)

lemma unat_minus: "unat (b :: u32) \<le> unat a \<Longrightarrow> unat (a - b) = unat a - unat b"
  by (simp add: unat_sub word_le_nat_alt)

section \<open>The blank part of a line\<close>

lemma duty_bounds: "13222 \<le> unat (fb_cvt_ideal_duty_cycle cvt)" "unat (fb_cvt_ideal_duty_cycle cvt) \<le> 30000"
proof -
  define y where "y = unat ((76800 * c_hperiod cvt) div 1000)"
  have "unat (76800 * c_hperiod cvt) < 2 ^ 32" using unsigned_less [of "76800 * c_hperiod cvt"] by simp
  then have y: "y \<le> 4294967" by (simp add: y_def unat_div)
  have d: "unat (fb_cvt_ideal_duty_cycle cvt) = (7680000 - y) div 256"
    using y by (simp add: fb_cvt_ideal_duty_cycle_def Let_def unat_div unat_minus y_def)
  have "13222 * 256 \<le> 7680000 - y" using y by simp
  then have "13222 \<le> (7680000 - y) div 256" by (simp add: less_eq_div_iff_mult_less_eq)
  then show "13222 \<le> unat (fb_cvt_ideal_duty_cycle cvt)" using d by simp
  show "unat (fb_cvt_ideal_duty_cycle cvt) \<le> 30000" using d by simp
qed

lemma hblank_bounds:
  assumes r: "\<not> reduced cvt" and A: "unat (c_active_pixels cvt) \<le> 5000" and h: "fb_cvt_hblank cvt = Some hb"
  shows "16 dvd unat hb" "7 * unat hb \<le> 3 * unat (c_active_pixels cvt)" "unat (c_active_pixels cvt) < 4 * unat hb + 64"
proof -
  define A D where "A = unat (c_active_pixels cvt)" and "D = unat (fb_cvt_ideal_duty_cycle cvt)"
  have D: "D \<le> 30000" using duty_bounds by (simp add: D_def)
  have A': "A \<le> 5000" using A by (simp add: A_def)
  have "A * D \<le> 5000 * 30000" using A' D by (intro mult_le_mono)
  then have AD: "unat (c_active_pixels cvt * fb_cvt_ideal_duty_cycle cvt) = A * D" by (simp add: unat_times A_def D_def)
  have A2: "unat (c_active_pixels cvt * 20000) = A * 20000" using A' by (simp add: unat_times A_def)
  have D1: "unat (100000 - fb_cvt_ideal_duty_cycle cvt) = 100000 - D" using D by (simp add: unat_minus D_def)
  obtain q where q: "unat hb = 16 * (q div 16)" "A div 4 \<le> q" "7 * q \<le> 3 * A"
  proof (cases "fb_cvt_ideal_duty_cycle cvt < 20000")
    case True
    have hb: "hb = (c_active_pixels cvt * 20000 div 80000) AND NOT 15" using h r True by (simp add: fb_cvt_hblank_def Let_def)
    have "unat hb = 16 * ((A div 4) div 16)" unfolding hb and_not_cells unat_div A2 by simp
    moreover have "7 * (A div 4) \<le> 3 * A" by linarith
    ultimately show ?thesis using that by blast
  next
    case False
    then have D2: "20000 \<le> D" by (simp add: D_def word_less_nat_alt)
    have hb: "hb = (c_active_pixels cvt * fb_cvt_ideal_duty_cycle cvt div (100000 - fb_cvt_ideal_duty_cycle cvt)) AND NOT 15"
      using h r False by (auto simp: fb_cvt_hblank_def Let_def udiv_def split: if_splits)
    have u: "unat hb = 16 * (A * D div (100000 - D) div 16)" unfolding hb and_not_cells unat_div AD D1 ..
    have E: "0 < 100000 - D" using D by simp
    have "A div 4 * (100000 - D) \<le> A div 4 * (4 * D)" using D2 by (intro mult_le_mono2) simp
    also have "\<dots> \<le> A * D" by (metis div_times_less_eq_dividend mult.assoc mult_le_mono1)
    finally have lo: "A div 4 \<le> A * D div (100000 - D)" using E by (simp add: less_eq_div_iff_mult_less_eq)
    have "7 * (A * D div (100000 - D)) \<le> 7 * (A * D) div (100000 - D)"
    proof -
      have "7 * (A * D div (100000 - D)) * (100000 - D) \<le> 7 * (A * D)" by (metis div_times_less_eq_dividend mult.assoc mult_le_mono2)
      then show ?thesis using E by (simp add: less_eq_div_iff_mult_less_eq)
    qed
    also have "\<dots> \<le> 3 * A * (100000 - D) div (100000 - D)"
    proof (rule div_le_mono)
      have "7 * D \<le> 3 * (100000 - D)" using D by simp
      then have "A * (7 * D) \<le> A * (3 * (100000 - D))" by (rule mult_le_mono2)
      then show "7 * (A * D) \<le> 3 * A * (100000 - D)" by (simp add: algebra_simps)
    qed
    also have "\<dots> = 3 * A" using E by simp
    finally show ?thesis using that u lo by blast
  qed
  show "16 dvd unat hb" using q(1) by simp
  show "7 * unat hb \<le> 3 * unat (c_active_pixels cvt)" using q unfolding A_def [symmetric] by linarith
  show "unat (c_active_pixels cvt) < 4 * unat hb + 64" using q unfolding A_def [symmetric] by linarith
qed

section \<open>What is computed\<close>

lemma cvt_timings_horizontal:
  assumes "cvt_timings g = Some t"
  obtains g' where "c_active_pixels g' = c_active_pixels g" "reduced g' = reduced g" "fb_cvt_hblank g' = Some (c_hblank t)"
    "c_hsync t = (if reduced g then 32 else 8 * (c_active_pixels g + c_hblank t) div 100) AND NOT 7"
    "c_h_back_porch t = c_hblank t div 2 + c_h_margin g"
    "c_h_front_porch t = c_hblank t - c_hsync t - c_h_back_porch t + 2 * c_h_margin g"
  by (rule that [of "g\<lparr>c_hperiod := c_hperiod t, c_vsync := c_vsync t, c_vtotal := c_vtotal t\<rparr>"])
    (use assms in \<open>auto simp: cvt_timings_def fb_cvt_hsync_def reduced_def Let_def split: bind_splits if_splits\<close>)



text \<open>The fields that matter for the timings; what else is set is only for the message.\<close>

definition shape :: "fb_cvt_data \<Rightarrow> u32 \<times> u32 \<times> u32 \<times> u32 \<times> u32 \<times> u32" where
  "shape g = (c_xres g, c_yres g, c_interlace g, c_flags g, c_h_margin g, c_v_margin g)"

lemma shape_status [simp]: "shape (g\<lparr>c_status := x\<rparr>) = shape g" "shape (g\<lparr>c_f_refresh := x\<rparr>) = shape g"
  by (simp_all add: shape_def)

lemma shape_eq: "shape a = shape b \<longleftrightarrow> c_xres a = c_xres b \<and> c_yres a = c_yres b \<and> c_interlace a = c_interlace b \<and>
    c_flags a = c_flags b \<and> c_h_margin a = c_h_margin b \<and> c_v_margin a = c_v_margin b"
  by (simp add: shape_def)

lemma shape_aspect: "fb_cvt_aspect_ratio g = (a, g') \<Longrightarrow> shape g' = shape g"
  by (auto simp: fb_cvt_aspect_ratio_def Let_def split: if_splits)

lemma shape_if: "shape (if b then g else h) = (if b then shape g else shape h)"
  by simp

lemma cvt_geometry_margins:
  assumes "cvt_geometry g0 = Some g" "c_interlace g0 = 1" "c_h_margin g0 = 0" "c_v_margin g0 = 0"
  obtains lines where "reduced g = reduced g0" "c_yres g = c_yres g0" "c_interlace g \<in> {1, 2}" "udiv (c_yres g) (c_interlace g) = Some lines"
    "c_active_pixels g = (c_xres g0 AND NOT 7) + 2 * c_h_margin g"
    "c_h_margin g \<in> {0, ((c_xres g0 AND NOT 7) * 18 div 1000) AND NOT 7}" "c_v_margin g \<in> {0, lines * 18 div 1000}"
proof -
  define g1 where "g1 = (if c_refresh g0 \<in> {50, 60, 70, 85} then g0 else g0\<lparr>c_status := 1\<rparr>)"
  define g2 where "g2 = g1\<lparr>c_xres := c_xres g1 AND NOT (8 - 1)\<rparr>"
  define g3 where "g3 = (if c_flags g2 AND FLAG_INTERLACED \<noteq> 0 then g2\<lparr>c_interlace := 2, c_f_refresh := c_f_refresh g2 * 2\<rparr> else g2)"
  define g4 where "g4 = (if reduced g3 \<and> c_refresh g3 \<noteq> 60 then g3\<lparr>c_status := 1\<rparr> else g3)"
  have 1: "shape g1 = shape g0" by (simp add: g1_def)
  have 2: "c_xres g2 = c_xres g0 AND NOT 7" "c_yres g2 = c_yres g0" "c_interlace g2 = 1" "c_flags g2 = c_flags g0" "c_h_margin g2 = 0" "c_v_margin g2 = 0"
    using 1 assms(2-4) unfolding shape_eq by (simp_all add: g2_def)
  have 3: "c_xres g3 = c_xres g0 AND NOT 7" "c_yres g3 = c_yres g0" "c_interlace g3 \<in> {1, 2}" "c_flags g3 = c_flags g0" "c_h_margin g3 = 0" "c_v_margin g3 = 0"
    using 2 by (simp_all add: g3_def)
  have "shape g4 = shape g3" by (simp add: g4_def)
  then have 4: "c_xres g4 = c_xres g0 AND NOT 7" "c_yres g4 = c_yres g0" "c_interlace g4 \<in> {1, 2}" "c_flags g4 = c_flags g0" "c_h_margin g4 = 0" "c_v_margin g4 = 0"
    using 3 unfolding shape_eq by simp_all
  obtain lines where l: "udiv (c_yres g4) (c_interlace g4) = Some lines" using 4(3) by (auto simp: udiv_def)
  define g5 where "g5 = (if c_flags g4 AND FLAG_MARGINS \<noteq> 0
      then g4\<lparr>c_h_margin := (c_xres g4 * 18 div 1000) AND NOT (8 - 1), c_v_margin := lines * 18 div 1000\<rparr> else g4)"
  have 5: "c_xres g5 = c_xres g0 AND NOT 7" "c_yres g5 = c_yres g0" "c_interlace g5 = c_interlace g4" "c_flags g5 = c_flags g0"
    "c_h_margin g5 \<in> {0, ((c_xres g0 AND NOT 7) * 18 div 1000) AND NOT 7}" "c_v_margin g5 \<in> {0, lines * 18 div 1000}"
    using 4 by (simp_all add: g5_def)
  obtain a g6 where 6: "fb_cvt_aspect_ratio g5 = (a, g6)" by fastforce
  have g: "g = g6\<lparr>c_aspect_ratio := a, c_active_pixels := c_xres g6 + 2 * c_h_margin g6\<rparr>"
    using assms(1) unfolding cvt_geometry_def Let_def g1_def [symmetric] g2_def [symmetric] g3_def [symmetric] g4_def [symmetric] l
      Option.bind.simps g5_def [symmetric] 6 by simp
  have "shape g6 = shape g5" by (rule shape_aspect [OF 6])
  then have s: "c_xres g6 = c_xres g5" "c_yres g6 = c_yres g5" "c_interlace g6 = c_interlace g5" "c_flags g6 = c_flags g5"
    "c_h_margin g6 = c_h_margin g5" "c_v_margin g6 = c_v_margin g5" unfolding shape_eq by simp_all
  show thesis
    by (rule that [of lines]) (use 4 5 s l in \<open>simp_all add: g reduced_def\<close>)
qed

section \<open>Timings that fit\<close>

lemma cvt_stages:
  assumes "fb_find_mode_cvt c mode margins rb = Some (0, m')"
  obtains g t where "cvt_geometry (cvt_begin c mode margins rb) = Some g" "cvt_timings g = Some t"
    "m_left_margin m' = c_h_back_porch t" "m_right_margin m' = c_h_front_porch t" "m_hsync_len m' = c_hsync t"
    "m_upper_margin m' = c_v_back_porch t" "m_lower_margin m' = c_v_front_porch t" "m_vsync_len m' = c_vsync t"
  using assms by (auto simp: fb_find_mode_cvt_def fb_cvt_convert_to_mode_def Let_def split: bind_splits if_splits)

lemma cvt_begin_fields:
  "c_interlace (cvt_begin c mode margins rb) = 1" "c_h_margin (cvt_begin c mode margins rb) = 0" "c_v_margin (cvt_begin c mode margins rb) = 0"
  "c_xres (cvt_begin c mode margins rb) = m_xres mode" "c_yres (cvt_begin c mode margins rb) = m_yres mode"
  by (simp_all add: cvt_begin_def zero_cvt_def Let_def)

lemma cvt_begin_reduced: "reduced (cvt_begin c mode margins rb) \<longleftrightarrow> rb"
  by (cases rb) (simp_all add: reduced_def cvt_begin_def Let_def FLAG_REDUCED_BLANK_def FLAG_MARGINS_def FLAG_INTERLACED_def)






section \<open>Narrow modes\<close>

lemma cvt_total_positive:
  assumes "cvt_timings g = Some t"
  shows "c_active_pixels g + c_hblank t \<noteq> 0"
  using assms by (auto simp: cvt_timings_def udiv_def Let_def split: bind_splits if_splits)

text \<open>A width of less than a cell is rounded to nothing, and the length of the line, which is then 0, is divided by.\<close>

lemma cvt_narrow:
  assumes "unat (m_xres mode) < 8" "m_xres mode \<noteq> 0" "m_yres mode \<noteq> 0" "m_refresh mode \<noteq> 0"
  shows "fb_find_mode_cvt c mode margins False = None"
proof (rule ccontr)
  assume "fb_find_mode_cvt c mode margins False \<noteq> None"
  then obtain e m' where r: "fb_find_mode_cvt c mode margins False = Some (e, m')" by auto
  have "fb_find_mode_cvt c mode margins False = Some (0, m')" using r assms(2-4)
    by (auto simp: fb_find_mode_cvt_def cvt_begin_def Let_def split: bind_splits if_splits)
  then obtain g t where g: "cvt_geometry (cvt_begin c mode margins False) = Some g" and t: "cvt_timings g = Some t"
    by (rule cvt_stages)
  have "unat (m_xres mode AND NOT 7) = 0" using assms(1) by (simp only: and_not_cells) simp
  then have x: "m_xres mode AND NOT 7 = 0" by (simp only: unat_eq_zero)
  obtain lines where "c_active_pixels g = (m_xres mode AND NOT 7) + 2 * c_h_margin g"
    "c_h_margin g \<in> {0, ((m_xres mode AND NOT 7) * 18 div 1000) AND NOT 7}" "reduced g = False"
    by (rule cvt_geometry_margins [OF g cvt_begin_fields(1-3), unfolded cvt_begin_fields cvt_begin_reduced]) blast
  then have a: "c_active_pixels g = 0" "\<not> reduced g" unfolding x by auto
  obtain g' where g': "c_active_pixels g' = c_active_pixels g" "reduced g' = reduced g" "fb_cvt_hblank g' = Some (c_hblank t)"
    by (rule cvt_timings_horizontal [OF t])
  have "7 * unat (c_hblank t) \<le> 3 * unat (c_active_pixels g')" using a g' by (intro hblank_bounds(2)) simp_all
  then have "c_hblank t = 0" using a(1) g'(1) by (simp add: unat_eq_zero)
  then show False using cvt_total_positive [OF t] a(1) by simp
qed

end
