(* ===== verification/Fb_Option_Props.thy ===== *)
theory Fb_Option_Props
  imports Fb_Modedb Fb_Cvt_Props
begin

text \<open>
  The syntax of the option of a mode: what is read from a size with a depth and a refresh rate, and an option
  that the kernel does not survive.
\<close>

definition num :: "string \<Rightarrow> u32" where
  "num ds = of_nat (digits_value 10 ds)"

definition digits :: "string \<Rightarrow> bool" where
  "digits ds \<longleftrightarrow> (\<forall>ch \<in> set ds. isdigit ch)"

definition stops :: "string \<Rightarrow> bool" where
  "stops s \<longleftrightarrow> (case s of [] \<Rightarrow> True | ch # _ \<Rightarrow> \<not> isdigit ch)"

lemma my_atoi_from_digits:
  "digits ds \<Longrightarrow> stops rest \<Longrightarrow> my_atoi_from (of_nat v) (ds @ rest) = of_nat (foldl (\<lambda>a c. a * 10 + xdigit_val c) v ds)"
proof (induction ds arbitrary: v)
  case Nil
  then show ?case by (cases rest) (auto simp: stops_def)
next
  case (Cons d ds)
  then have d: "isdigit d" "digits ds" by (simp_all add: digits_def)
  have "10 * of_nat v + of_nat (digit_val d) = (of_nat (v * 10 + xdigit_val d) :: u32)"
    using d(1) by (simp add: xdigit_val_def digit_val_def)
  then show ?case using d Cons.IH [OF d(2) Cons.prems(2), of "v * 10 + xdigit_val d"] by (simp add: mult.commute)
qed

lemma my_atoi_num: "digits ds \<Longrightarrow> stops rest \<Longrightarrow> my_atoi (ds @ rest) = num ds"
  using my_atoi_from_digits [of ds rest 0] by (simp add: my_atoi_def num_def digits_value_def)

lemma chars_digits:
  "digits ds \<Longrightarrow> mode_chars (p @ ds @ q) (length p + length ds) opt = mode_chars (p @ ds @ q) (length p) opt"
proof (induction ds arbitrary: q rule: rev_induct)
  case Nil
  then show ?case by simp
next
  case (snoc d ds)
  then have d: "isdigit d" "digits ds" by (simp_all add: digits_def)
  have at: "(p @ ds @ d # q) ! (length p + length ds) = d" by (metis append.assoc length_append nth_append_length)
  have ne: "d \<noteq> CHR ''@''" "d \<noteq> CHR ''-''" "d \<noteq> CHR ''x''" using d(1) by (auto simp: isdigit_def)
  have "mode_char (p @ ds @ d # q) (length p + length ds) opt = (True, opt)"
    unfolding mode_char_def at Let_def using ne d(1) by simp
  then show ?case using snoc.IH [OF d(2), of "d # q"] by simp
qed

lemma chars_mark:
  "mode_chars (p @ ch # s) (Suc (length p)) opt =
     (case mode_char (p @ ch # s) (length p) opt of (go, opt) \<Rightarrow> if go then mode_chars (p @ ch # s) (length p) opt else (False, opt))"
  by simp

text \<open>A number behind a mark, if there is one.\<close>

definition part :: "char \<Rightarrow> string option \<Rightarrow> string" where
  "part ch ds = (case ds of None \<Rightarrow> [] | Some ds \<Rightarrow> ch # ds)"

definition part_num :: "string option \<Rightarrow> u32 \<Rightarrow> u32" where
  "part_num ds v = (case ds of None \<Rightarrow> v | Some ds \<Rightarrow> num ds)"

lemma read_refresh:
  assumes "\<forall>ds. r = Some ds \<longrightarrow> digits ds"
    and "\<not> o_refresh_specified opt" "\<not> o_bpp_specified opt" "\<not> o_yres_specified opt" "\<not> o_cvt opt"
  shows "mode_chars (p @ part CHR ''@'' r) (length (p @ part CHR ''@'' r)) opt =
    mode_chars (p @ part CHR ''@'' r) (length p)
      (if r = None then opt else opt\<lparr>o_namelen := length p, o_refresh := part_num r 0, o_refresh_specified := True\<rparr>)"
proof (cases r)
  case None
  then show ?thesis by (simp add: part_def)
next
  case (Some ds)
  then have d: "digits ds" using assms(1) by simp
  have s: "stops []" by (simp add: stops_def)
  have "mode_chars ((p @ [CHR ''@'']) @ ds @ []) (length (p @ [CHR ''@'']) + length ds) opt =
      mode_chars ((p @ [CHR ''@'']) @ ds @ []) (length (p @ [CHR ''@''])) opt" by (rule chars_digits [OF d])
  then have "mode_chars (p @ CHR ''@'' # ds) (length (p @ CHR ''@'' # ds)) opt = mode_chars (p @ CHR ''@'' # ds) (Suc (length p)) opt" by simp
  also have "\<dots> = mode_chars (p @ CHR ''@'' # ds) (length p) (opt\<lparr>o_namelen := length p, o_refresh := num ds, o_refresh_specified := True\<rparr>)"
    unfolding chars_mark using assms(2-5) my_atoi_num [OF d s] by (cases opt) (simp add: mode_char_def Let_def)
  finally show ?thesis by (simp add: Some part_def part_num_def)
qed

lemma read_bpp:
  assumes "\<forall>ds. b = Some ds \<longrightarrow> digits ds" "stops s"
    and "\<not> o_bpp_specified opt" "\<not> o_yres_specified opt" "\<not> o_cvt opt"
  shows "mode_chars (p @ part CHR ''-'' b @ s) (length (p @ part CHR ''-'' b)) opt =
    mode_chars (p @ part CHR ''-'' b @ s) (length p)
      (if b = None then opt else opt\<lparr>o_namelen := length p, o_bpp := part_num b 0, o_bpp_specified := True\<rparr>)"
proof (cases b)
  case None
  then show ?thesis by (simp add: part_def)
next
  case (Some ds)
  then have d: "digits ds" using assms(1) by simp
  have "mode_chars ((p @ [CHR ''-'']) @ ds @ s) (length (p @ [CHR ''-'']) + length ds) opt =
      mode_chars ((p @ [CHR ''-'']) @ ds @ s) (length (p @ [CHR ''-''])) opt" by (rule chars_digits [OF d])
  then have "mode_chars (p @ CHR ''-'' # ds @ s) (length (p @ CHR ''-'' # ds)) opt = mode_chars (p @ CHR ''-'' # ds @ s) (Suc (length p)) opt" by simp
  also have "\<dots> = mode_chars (p @ CHR ''-'' # ds @ s) (length p) (opt\<lparr>o_namelen := length p, o_bpp := num ds, o_bpp_specified := True\<rparr>)"
    unfolding chars_mark using assms(3-5) my_atoi_num [OF d assms(2)] by (cases opt) (simp add: mode_char_def Let_def)
  finally show ?thesis by (simp add: Some part_def part_num_def)
qed

lemma read_size:
  assumes "digits w" "digits h" "stops s" "\<not> o_yres_specified opt"
  shows "mode_chars (w @ CHR ''x'' # h @ s) (length (w @ CHR ''x'' # h)) opt = (True, opt\<lparr>o_yres := num h, o_yres_specified := True\<rparr>)"
proof -
  have "mode_chars ((w @ ''x'') @ h @ s) (length (w @ ''x'') + length h) opt = mode_chars ((w @ ''x'') @ h @ s) (length (w @ ''x'')) opt"
    by (rule chars_digits [OF assms(2)])
  then have "mode_chars (w @ CHR ''x'' # h @ s) (length (w @ CHR ''x'' # h)) opt = mode_chars (w @ CHR ''x'' # h @ s) (Suc (length w)) opt" by simp
  also have "\<dots> = mode_chars (w @ CHR ''x'' # h @ s) (length w) (opt\<lparr>o_yres := num h, o_yres_specified := True\<rparr>)"
    unfolding chars_mark using assms(4) my_atoi_num [OF assms(2,3)] by (simp add: mode_char_def Let_def)
  also have "\<dots> = (True, opt\<lparr>o_yres := num h, o_yres_specified := True\<rparr>)"
    using chars_digits [OF assms(1), of "[]" "CHR ''x'' # h @ s"] by simp
  finally show ?thesis .
qed

text \<open>C36: From an option \<open>WxH\<close>, \<open>WxH-B\<close>, \<open>WxH@R\<close> or \<open>WxH-B@R\<close> the four numbers are read as they are written
  (modulo 2 to the 32), the ones that are given count as given, and nothing else is set; the name ends before the depth.\<close>

theorem option_of_size:
  assumes "digits w" "digits h" "\<forall>ds. b = Some ds \<longrightarrow> digits ds" "\<forall>ds. r = Some ds \<longrightarrow> digits ds"
  shows "parse_mode (w @ ''x'' @ h @ part CHR ''-'' b @ part CHR ''@'' r) bpp =
    \<lparr>o_namelen = length (w @ ''x'' @ h), o_xres = num w, o_yres = num h, o_bpp = part_num b bpp, o_refresh = part_num r 0,
     o_res_specified = True, o_yres_specified = True, o_bpp_specified = (b \<noteq> None), o_refresh_specified = (r \<noteq> None),
     o_cvt = False, o_rb = False, o_interlace = False, o_margins = False\<rparr>"
proof -
  define p where "p = w @ ''x'' @ h"
  let ?n = "p @ part CHR ''-'' b @ part CHR ''@'' r" and ?o = "opts_begin (p @ part CHR ''-'' b @ part CHR ''@'' r) bpp"
  define o1 where "o1 = (if r = None then ?o else ?o\<lparr>o_namelen := length (p @ part CHR ''-'' b), o_refresh := part_num r 0, o_refresh_specified := True\<rparr>)"
  define o2 where "o2 = (if b = None then o1 else o1\<lparr>o_namelen := length p, o_bpp := part_num b 0, o_bpp_specified := True\<rparr>)"
  have s: "stops (part CHR ''@'' r)" "stops (part CHR ''-'' b @ part CHR ''@'' r)" "stops (CHR ''x'' # h @ part CHR ''-'' b @ part CHR ''@'' r)"
    by (auto simp: stops_def part_def isdigit_def split: option.splits)
  have "mode_chars ?n (length ?n) ?o = mode_chars ?n (length (p @ part CHR ''-'' b)) o1"
    using read_refresh [OF assms(4), of ?o "p @ part CHR ''-'' b"] by (simp add: opts_begin_def o1_def)
  also have "\<dots> = mode_chars ?n (length p) o2"
    using read_bpp [OF assms(3) s(1), of o1 p] by (simp add: opts_begin_def o1_def o2_def)
  also have "\<dots> = (True, o2\<lparr>o_yres := num h, o_yres_specified := True\<rparr>)"
    using read_size [OF assms(1,2) s(2), of o2] by (simp add: p_def opts_begin_def o1_def o2_def)
  finally have run: "mode_chars ?n (length ?n) ?o = (True, o2\<lparr>o_yres := num h, o_yres_specified := True\<rparr>)" .
  have "my_atoi ?n = num w" using my_atoi_num [OF assms(1) s(3)] by (simp add: p_def)
  then have "parse_mode ?n bpp = o2\<lparr>o_yres := num h, o_yres_specified := True, o_xres := num w, o_res_specified := True\<rparr>"
    unfolding parse_mode_def run by simp
  then show ?thesis
    by (cases b; cases r) (simp_all add: p_def o1_def o2_def opts_begin_def part_def part_num_def)
qed

lemma option_of_size_witness:
  "o_refresh (parse_mode ''1024x768-16@75'' 8) = num ''75'' \<and> num ''75'' = 75"
proof -
  have "digits ''1024'' \<and> digits ''768'' \<and> digits ''16'' \<and> digits ''75''" by (simp add: digits_def isdigit_def)
  then show ?thesis using option_of_size [of "''1024''" "''768''" "Some ''16''" "Some ''75''" 8]
    by (simp add: part_def part_num_def num_def digits_value_def xdigit_val_def isdigit_def)
qed

section \<open>Computed timings for a narrow mode\<close>

text \<open>C38: An option that asks for computed timings (an \<open>M\<close> behind the size) without reduced blanking, for a width of less
  than 8 pixels, makes the kernel divide by zero, whatever the driver and the table of modes.\<close>

theorem narrow_option_divides_by_zero:
  assumes opt: "opt = parse_mode name (if bpp = 0 then 8 else bpp)" "o_cvt opt" "\<not> o_rb opt"
    and size: "0 < unat (o_xres opt)" "unat (o_xres opt) < 8" "o_yres opt \<noteq> 0"
  shows "fb_find_mode c check specs global stack var (Some name) db default_mode bpp = None"
proof -
  have "fb_find_mode_cvt c (cvt_request c stack opt) (o_margins opt) False = None"
    by (rule cvt_narrow) (use size in \<open>auto simp: cvt_request_def\<close>)
  then have "find_cvt c check stack opt v = None" for v using opt(2,3) by (simp add: find_cvt_def)
  then show ?thesis unfolding fb_find_mode_def find_specified_def Let_def opt(1) by simp
qed

lemma narrow_option_divides_by_zero_witness:
  "fb_find_mode linux_fb None
      \<lparr>sp_vfmin = 0, sp_vfmax = 0, sp_hfmin = 0, sp_hfmax = 0, sp_dclkmax = 0, sp_misc = 0, sp_max_x = 0, sp_max_y = 0\<rparr>
      None (vga 0) zero_var (Some ''4x4M'') None None 8 = None"
proof -
  have "o_cvt (parse_mode ''4x4M'' 8)" "\<not> o_rb (parse_mode ''4x4M'' 8)" "o_xres (parse_mode ''4x4M'' 8) = 4" "o_yres (parse_mode ''4x4M'' 8) = 4"
    by code_simp+
  then show ?thesis using narrow_option_divides_by_zero [of "parse_mode ''4x4M'' 8" "''4x4M''" 8] by simp
qed

end
